(* ===== verification/Prelude.thy ===== *)
theory Prelude
  imports Main
begin

text \<open>
  The development's prelude: collections of simplification rules, generic facts on lists and maps,
  and the interfaces the stream converters of \<open>backend/internal/pkg/apicompat\<close> share.

  A converter of that package is a Go function that takes one upstream event and a pointer to its
  state, mutates the state and returns the slice of downstream events. Here it is a function
  \<open>'e \<Rightarrow> 's \<Rightarrow> 's \<times> 'o list\<close>, and \<open>run_stream\<close> is the caller's loop over the events of one upstream
  response. Three interfaces are stated as locales and interpreted on the converters:
  \<^item> \<open>stream_sim\<close>: the converter simulates an output protocol (an acceptor), as long as its input
    keeps to an input protocol; \<open>stream_session\<close> adds the finalizer that closes the stream;
  \<^item> \<open>stream_content\<close>: one kind of payload passes through unchanged;
  \<^item> \<open>stream_seq\<close>: the events are numbered consecutively.
\<close>

named_theorems converter_simps \<open>unfolding rules of the stream converters\<close>
named_theorems content_simps \<open>payload projections of events\<close>

section \<open>Lists and integers\<close>

lemma upto_append: "a \<le> b \<Longrightarrow> b \<le> c \<Longrightarrow> [a..b - 1] @ [b..c - 1] = [a..c - (1::int)]"
  by (cases "b = c") (simp_all add: upto_split1 [of a b "c - 1"])

lemma upto_singleton [simp]: "[a..a] = [a::int]"
  by (simp add: upto.simps)

lemma upto_empty_pred [simp]: "[a..a - 1] = ([]::int list)"
  by simp

lemma numbered_length:
  assumes "map f xs = [0..n - (1::int)]"
  shows "map f xs = [0..int (length xs) - 1]"
proof -
  from assms have "length xs = nat n" using length_map [of f xs] by simp
  then show ?thesis using assms by (cases "0 \<le> n") auto
qed

text \<open>Go's \<open>int\<close> is a 64-bit two's complement integer; \<open>add64\<close> and \<open>sub64\<close> write the wrap-around out.\<close>

definition wrap64 :: "int \<Rightarrow> int" where
  "wrap64 x = (x + 2 ^ 63) mod 2 ^ 64 - 2 ^ 63"

definition add64 :: "int \<Rightarrow> int \<Rightarrow> int" where
  "add64 a b = wrap64 (a + b)"

definition sub64 :: "int \<Rightarrow> int \<Rightarrow> int" where
  "sub64 a b = wrap64 (a - b)"

definition int64_range :: "int \<Rightarrow> bool" where
  "int64_range x \<longleftrightarrow> - (2 ^ 63) \<le> x \<and> x < 2 ^ 63"

lemma wrap64_id: "int64_range x \<Longrightarrow> wrap64 x = x"
  by (simp add: wrap64_def int64_range_def)

lemma wrap64_range: "int64_range (wrap64 x)"
proof -
  have "0 \<le> (x + 2 ^ 63) mod 2 ^ 64" and "(x + 2 ^ 63) mod 2 ^ 64 < (2::int) ^ 64"
    by simp_all
  then show ?thesis by (simp add: wrap64_def int64_range_def)
qed

lemma add64_id: "int64_range (a + b) \<Longrightarrow> add64 a b = a + b"
  by (simp add: add64_def wrap64_id)

lemma sub64_id: "int64_range (a - b) \<Longrightarrow> sub64 a b = a - b"
  by (simp add: sub64_def wrap64_id)

lemma add64_range [simp]: "int64_range (add64 a b)"
  by (simp add: add64_def wrap64_range)

lemma wrap64_mod: "wrap64 x mod 2 ^ 64 = x mod 2 ^ 64"
  by (simp add: wrap64_def mod_diff_left_eq)

section \<open>Running a converter\<close>

fun run_stream :: "('e \<Rightarrow> 's \<Rightarrow> 's \<times> 'o list) \<Rightarrow> 'e list \<Rightarrow> 's \<Rightarrow> 's \<times> 'o list" where
  "run_stream step [] s = (s, [])"
| "run_stream step (e # es) s =
     (let (s1, o1) = step e s; (s2, o2) = run_stream step es s1 in (s2, o1 @ o2))"

lemma run_stream_Cons:
  "fst (run_stream step (e # es) s) = fst (run_stream step es (fst (step e s)))"
  "snd (run_stream step (e # es) s) =
     snd (step e s) @ snd (run_stream step es (fst (step e s)))"
  by (simp_all add: Let_def case_prod_beta)

declare run_stream.simps(2) [simp del] run_stream_Cons [simp]

lemma run_stream_append:
  "run_stream step (xs @ ys) s =
     (let (s1, o1) = run_stream step xs s; (s2, o2) = run_stream step ys s1 in (s2, o1 @ o2))"
  by (induction xs arbitrary: s) (auto simp: run_stream.simps(2) split: prod.splits)

lemma run_stream_inv:
  assumes "\<And>e s. P s \<Longrightarrow> P (fst (step e s))" and "P s"
  shows "P (fst (run_stream step es s))"
  using assms(2)
proof (induction es arbitrary: s)
  case (Cons e es)
  from Cons.prems have "P (fst (step e s))" by (rule assms(1))
  then have "P (fst (run_stream step es (fst (step e s))))" by (rule Cons.IH)
  then show ?case by simp
qed simp

text \<open>
  Go code that appends the events of several helpers, each of which updates the state through a
  pointer, is a \<open>chain\<close> of actions.
\<close>

definition chain :: "('s \<Rightarrow> 's \<times> 'o list) list \<Rightarrow> 's \<Rightarrow> 's \<times> 'o list" where
  "chain fs = run_stream (\<lambda>f. f) fs"

lemma chain_simps [simp]:
  "chain [] s = (s, [])"
  "chain (f # fs) s =
     (fst (chain fs (fst (f s))), snd (f s) @ snd (chain fs (fst (f s))))"
  by (simp_all add: chain_def prod_eq_iff)

lemma chain_inv: "(\<And>f s. f \<in> set fs \<Longrightarrow> P s \<Longrightarrow> P (fst (f s))) \<Longrightarrow> P s \<Longrightarrow> P (fst (chain fs s))"
  by (induction fs arbitrary: s) auto

text \<open>\<open>accepts\<close> runs a protocol acceptor over a list: \<open>None\<close> when an event breaks the protocol.\<close>

fun accepts :: "('m \<Rightarrow> 'o \<Rightarrow> 'm option) \<Rightarrow> 'm \<Rightarrow> 'o list \<Rightarrow> 'm option" where
  "accepts d m [] = Some m"
| "accepts d m (x # xs) = (case d m x of None \<Rightarrow> None | Some m' \<Rightarrow> accepts d m' xs)"

lemma accepts_append:
  "accepts d m (xs @ ys) = (case accepts d m xs of None \<Rightarrow> None | Some m' \<Rightarrow> accepts d m' ys)"
  by (induction xs arbitrary: m) (auto split: option.splits)

section \<open>Interfaces of the stream converters\<close>

locale stream_sim =
  fixes step :: "'e \<Rightarrow> 's \<Rightarrow> 's \<times> 'o list"
    and in_proto :: "'i \<Rightarrow> 'e \<Rightarrow> 'i option"
    and out_proto :: "'m \<Rightarrow> 'o \<Rightarrow> 'm option"
    and rel :: "'i \<Rightarrow> 's \<Rightarrow> 'm \<Rightarrow> bool"
  assumes step_sim: "rel i s m \<Longrightarrow> in_proto i e = Some i' \<Longrightarrow>
      \<exists>m'. accepts out_proto m (snd (step e s)) = Some m' \<and> rel i' (fst (step e s)) m'"
begin

lemma run_sim:
  assumes "rel i s m" and "accepts in_proto i es = Some i'"
  shows "\<exists>m'. accepts out_proto m (snd (run_stream step es s)) = Some m' \<and>
    rel i' (fst (run_stream step es s)) m'"
  using assms
proof (induction es arbitrary: i s m)
  case Nil
  then show ?case by auto
next
  case (Cons e es)
  from Cons.prems(2) obtain j where j: "in_proto i e = Some j" "accepts in_proto j es = Some i'"
    by (auto split: option.splits)
  from step_sim [OF Cons.prems(1) j(1)] obtain m1 where
    m1: "accepts out_proto m (snd (step e s)) = Some m1" "rel j (fst (step e s)) m1" by blast
  from Cons.IH [OF m1(2) j(2)] show ?case
    using m1(1) by (auto simp: accepts_append split: prod.splits)
qed

end

locale stream_session = stream_sim +
  fixes fin :: "'s \<Rightarrow> 's \<times> 'o list"
    and closed :: "'m \<Rightarrow> bool"
  assumes fin_sim: "rel i s m \<Longrightarrow> \<exists>m'. accepts out_proto m (snd (fin s)) = Some m' \<and> closed m'"
begin

lemma session_closed:
  assumes "rel i s m" and "accepts in_proto i es = Some i'"
  shows "\<exists>m'. accepts out_proto m
      (snd (run_stream step es s) @ snd (fin (fst (run_stream step es s)))) = Some m' \<and> closed m'"
proof -
  from run_sim [OF assms] obtain m1 where
    "accepts out_proto m (snd (run_stream step es s)) = Some m1"
    "rel i' (fst (run_stream step es s)) m1" by blast
  with fin_sim [OF this(2)] show ?thesis by (auto simp: accepts_append)
qed

end

definition collect :: "('o \<Rightarrow> 'a list) \<Rightarrow> 'o list \<Rightarrow> 'a list" where
  "collect f os = concat (map f os)"

lemma collect_simps [simp, content_simps]:
  "collect f [] = []"
  "collect f (x # xs) = f x @ collect f xs"
  "collect f (xs @ ys) = collect f xs @ collect f ys"
  by (simp_all add: collect_def)

locale stream_content =
  fixes step :: "'e \<Rightarrow> 's \<Rightarrow> 's \<times> 'o list"
    and payload_in :: "'e \<Rightarrow> 'a list"
    and payload_out :: "'o \<Rightarrow> 'a list"
  assumes step_content: "collect payload_out (snd (step e s)) = payload_in e"
begin

lemma run_content:
  "collect payload_out (snd (run_stream step es s)) = collect payload_in es"
  by (induction es arbitrary: s) (simp_all add: step_content)

end

locale stream_seq =
  fixes step :: "'e \<Rightarrow> 's \<Rightarrow> 's \<times> 'o list"
    and next_no :: "'s \<Rightarrow> int"
    and no :: "'o \<Rightarrow> int"
  assumes step_le: "next_no s \<le> next_no (fst (step e s))"
    and step_no: "map no (snd (step e s)) = [next_no s..next_no (fst (step e s)) - 1]"
begin

lemma run_le: "next_no s \<le> next_no (fst (run_stream step es s))"
proof (induction es arbitrary: s)
  case (Cons e es)
  have "next_no s \<le> next_no (fst (step e s))" by (rule step_le)
  also have "\<dots> \<le> next_no (fst (run_stream step es (fst (step e s))))" by (rule Cons.IH)
  finally show ?case by simp
qed simp

lemma run_no:
  "map no (snd (run_stream step es s)) = [next_no s..next_no (fst (run_stream step es s)) - 1]"
proof (induction es arbitrary: s)
  case (Cons e es)
  let ?t = "fst (step e s)"
  have "map no (snd (run_stream step (e # es) s)) =
      map no (snd (step e s)) @ map no (snd (run_stream step es ?t))"
    by simp
  also have "\<dots> = [next_no s..next_no ?t - 1] @
      [next_no ?t..next_no (fst (run_stream step es ?t)) - 1]"
    by (simp add: step_no Cons.IH)
  also have "\<dots> = [next_no s..next_no (fst (run_stream step es ?t)) - 1]"
    by (rule upto_append [OF step_le run_le])
  finally show ?case by simp
qed simp

end

end
