(* ===== verification/GoText.thy ===== *)
theory GoText
  imports Prelude "HOL-Library.Sublist"
begin

text \<open>
  Go's strings and the operations of its standard library that the modelled code calls. A Go
  string is a sequence of bytes, here a \<open>string\<close> (a list of 8-bit characters), so \<open>length\<close> is Go's
  \<open>len\<close>. \<open>strings.TrimSpace\<close> trims the code points \<open>unicode.IsSpace\<close> accepts, by their UTF-8
  encodings; \<open>strings.ToLower\<close> and \<open>strings.EqualFold\<close> act on the ASCII letters, which is what
  the modelled call sites compare with (other code points are left as they are).
\<close>

section \<open>Bytes, runes and UTF-8\<close>

definition byte :: "char \<Rightarrow> nat" where
  "byte c = of_char c"

definition chr :: "nat \<Rightarrow> char" where
  "chr n = char_of n"

definition rune_error :: nat where
  "rune_error = 0xFFFD"

definition cont_byte :: "nat \<Rightarrow> nat \<Rightarrow> char \<Rightarrow> bool" where
  "cont_byte lo hi c \<longleftrightarrow> lo \<le> byte c \<and> byte c \<le> hi"

text \<open>\<open>utf8.DecodeRuneInString\<close>: the rune and the number of bytes it takes, \<open>(0xFFFD, 1)\<close> for an
  invalid encoding and \<open>(0xFFFD, 0)\<close> for the empty string.\<close>

fun decode_rune :: "string \<Rightarrow> nat \<times> nat" where
  "decode_rune [] = (rune_error, 0)"
| "decode_rune (c0 # s) =
     (let b0 = byte c0; bad = (rune_error, 1) in
      if b0 < 0x80 then (b0, 1)
      else if b0 < 0xC2 then bad
      else if b0 < 0xE0 then
        (case s of c1 # _ \<Rightarrow>
           (if cont_byte 0x80 0xBF c1 then ((b0 mod 32) * 64 + byte c1 mod 64, 2) else bad)
         | _ \<Rightarrow> bad)
      else if b0 < 0xF0 then
        (case s of c1 # c2 # _ \<Rightarrow>
           (if cont_byte (if b0 = 0xE0 then 0xA0 else 0x80) (if b0 = 0xED then 0x9F else 0xBF) c1 \<and>
               cont_byte 0x80 0xBF c2
            then ((b0 mod 16) * 4096 + (byte c1 mod 64) * 64 + byte c2 mod 64, 3) else bad)
         | _ \<Rightarrow> bad)
      else if b0 < 0xF5 then
        (case s of c1 # c2 # c3 # _ \<Rightarrow>
           (if cont_byte (if b0 = 0xF0 then 0x90 else 0x80) (if b0 = 0xF4 then 0x8F else 0xBF) c1 \<and>
               cont_byte 0x80 0xBF c2 \<and> cont_byte 0x80 0xBF c3
            then ((b0 mod 8) * 262144 + (byte c1 mod 64) * 4096 + (byte c2 mod 64) * 64 +
                  byte c3 mod 64, 4) else bad)
         | _ \<Rightarrow> bad)
      else bad)"

text \<open>\<open>utf8.AppendRune\<close>.\<close>

definition encode_rune :: "nat \<Rightarrow> string" where
  "encode_rune r =
     (if r < 0x80 then [chr r]
      else if r < 0x800 then [chr (0xC0 + r div 64), chr (0x80 + r mod 64)]
      else if (0xD800 \<le> r \<and> r < 0xE000) \<or> 0x10FFFF < r then [chr 0xEF, chr 0xBF, chr 0xBD]
      else if r < 0x10000 then
        [chr (0xE0 + r div 4096), chr (0x80 + (r div 64) mod 64), chr (0x80 + r mod 64)]
      else [chr (0xF0 + r div 262144), chr (0x80 + (r div 4096) mod 64),
            chr (0x80 + (r div 64) mod 64), chr (0x80 + r mod 64)])"

lemma decode_rune_size: "s \<noteq> [] \<Longrightarrow> 1 \<le> snd (decode_rune s)"
  by (cases s) (auto simp: Let_def split: list.splits)

text \<open>\<open>utf8.ValidString\<close>.\<close>

function valid_utf8 :: "string \<Rightarrow> bool" where
  "valid_utf8 s =
     (if s = [] then True
      else (let (r, n) = decode_rune s in
            if r = rune_error \<and> n = 1 then False else valid_utf8 (drop n s)))"
  by pat_completeness auto
termination
proof (relation "measure length")
  fix s :: string and x r n
  assume "s \<noteq> []" and "x = decode_rune s" and "(r, n) = x"
  then have "1 \<le> n" using decode_rune_size [of s] by (metis snd_conv)
  with \<open>s \<noteq> []\<close> show "(drop n s, s) \<in> measure length" by (cases s) auto
qed simp

declare valid_utf8.simps [simp del]

section \<open>Trimming and case\<close>

text \<open>The encodings of the white space code points: the ASCII ones, U+0085, U+00A0, U+1680,
  U+2000 to U+200A, U+2028, U+2029, U+202F, U+205F and U+3000.\<close>

definition space_seqs :: "string list" where
  "space_seqs =
    [[CHR 0x09], [CHR 0x0A], [CHR 0x0B], [CHR 0x0C], [CHR 0x0D], [CHR 0x20],
     [CHR 0xC2, CHR 0x85], [CHR 0xC2, CHR 0xA0], [CHR 0xE1, CHR 0x9A, CHR 0x80],
     [CHR 0xE2, CHR 0x80, CHR 0x80], [CHR 0xE2, CHR 0x80, CHR 0x81], [CHR 0xE2, CHR 0x80, CHR 0x82],
     [CHR 0xE2, CHR 0x80, CHR 0x83], [CHR 0xE2, CHR 0x80, CHR 0x84], [CHR 0xE2, CHR 0x80, CHR 0x85],
     [CHR 0xE2, CHR 0x80, CHR 0x86], [CHR 0xE2, CHR 0x80, CHR 0x87], [CHR 0xE2, CHR 0x80, CHR 0x88],
     [CHR 0xE2, CHR 0x80, CHR 0x89], [CHR 0xE2, CHR 0x80, CHR 0x8A], [CHR 0xE2, CHR 0x80, CHR 0xA8],
     [CHR 0xE2, CHR 0x80, CHR 0xA9], [CHR 0xE2, CHR 0x80, CHR 0xAF], [CHR 0xE2, CHR 0x81, CHR 0x9F],
     [CHR 0xE3, CHR 0x80, CHR 0x80]]"

lemma space_seqs_nonempty: "[] \<notin> set space_seqs"
  by (simp add: space_seqs_def)

function trim_seqs :: "string list \<Rightarrow> string \<Rightarrow> string" where
  "trim_seqs ps s =
     (case find (\<lambda>p. p \<noteq> [] \<and> prefix p s) ps of
        None \<Rightarrow> s
      | Some p \<Rightarrow> trim_seqs ps (drop (length p) s))"
  by pat_completeness auto
termination
proof (relation "measure (\<lambda>(ps, s). length s)")
  fix ps and s p :: string
  assume "find (\<lambda>p. p \<noteq> [] \<and> prefix p s) ps = Some p"
  then have "p \<noteq> [] \<and> prefix p s" by (auto simp: find_Some_iff)
  then show "((ps, drop (length p) s), (ps, s)) \<in> measure (\<lambda>(ps, s). length s)"
    by (cases s) (auto simp: prefix_def)
qed simp

declare trim_seqs.simps [simp del]

text \<open>\<open>strings.TrimSpace\<close>.\<close>

definition trim_space :: "string \<Rightarrow> string" where
  "trim_space s = rev (trim_seqs (map rev space_seqs) (rev (trim_seqs space_seqs s)))"

lemma trim_seqs_Nil [simp]: "trim_seqs ps [] = []"
proof -
  have "find (\<lambda>p. p \<noteq> [] \<and> prefix p ([]::string)) ps = None" by (auto simp: find_None_iff)
  then show ?thesis by (subst trim_seqs.simps) simp
qed

lemma trim_space_Nil [simp]: "trim_space [] = []"
  by (simp add: trim_space_def)

definition lower_char :: "char \<Rightarrow> char" where
  "lower_char c = (if 65 \<le> byte c \<and> byte c \<le> 90 then chr (byte c + 32) else c)"

definition to_lower :: "string \<Rightarrow> string" where
  "to_lower s = map lower_char s"

definition equal_fold :: "string \<Rightarrow> string \<Rightarrow> bool" where
  "equal_fold s t \<longleftrightarrow> to_lower s = to_lower t"

text \<open>\<open>strings.Join\<close>.\<close>

fun join :: "string \<Rightarrow> string list \<Rightarrow> string" where
  "join sep [] = []"
| "join sep [s] = s"
| "join sep (s # t # ts) = s @ sep @ join sep (t # ts)"

section \<open>Hexadecimal and decimal text\<close>

definition hex_digit :: "nat \<Rightarrow> char" where
  "hex_digit n = (if n < 10 then chr (48 + n) else chr (87 + n))"

text \<open>\<open>hex.EncodeToString\<close>.\<close>

definition hex_encode :: "string \<Rightarrow> string" where
  "hex_encode bs = concat (map (\<lambda>c. [hex_digit (byte c div 16), hex_digit (byte c mod 16)]) bs)"

fun nat_digits :: "nat \<Rightarrow> string" where
  "nat_digits n = (if n < 10 then [chr (48 + n)] else nat_digits (n div 10) @ [chr (48 + n mod 10)])"

declare nat_digits.simps [simp del]

text \<open>\<open>strconv.Itoa\<close>.\<close>

definition itoa :: "int \<Rightarrow> string" where
  "itoa i = (if i < 0 then CHR ''-'' # nat_digits (nat (- i)) else nat_digits (nat i))"

lemma nat_digits_nonempty [simp]: "nat_digits n \<noteq> []"
  by (subst nat_digits.simps) simp

end
