(* ===== verification/GoJson.thy ===== *)
theory GoJson
  imports GoText
begin

text \<open>
  The part of Go's \<open>encoding/json\<close> the protocol converters rely on, at the level of bytes. A
  \<open>json.RawMessage\<close> is the text of a JSON value, here a \<open>string\<close>. \<open>json_quote\<close> is \<open>json.Marshal\<close> of a
  string (HTML escaping on); the scanner checks that a text is one JSON value and cuts arrays and
  objects into the texts of their elements, which is what decoding into \<open>[]json.RawMessage\<close> and
  \<open>map[string]json.RawMessage\<close> does. The scanner carries fuel, and \<open>length s + 1\<close> always suffices:
  every nested call is made after at least one byte was read. The library's limit of 10000 nested
  values is not modelled.
\<close>

section \<open>Writing strings\<close>

definition hex4 :: "nat \<Rightarrow> string" where
  "hex4 n = [hex_digit (n div 4096 mod 16), hex_digit (n div 256 mod 16),
             hex_digit (n div 16 mod 16), hex_digit (n mod 16)]"

definition quote_byte :: "char \<Rightarrow> string" where
  "quote_byte c =
     (let b = byte c in
      if b = 0x22 \<or> b = 0x5C then [CHR 0x5C, c]
      else if b = 0x08 then [CHR 0x5C, CHR ''b'']
      else if b = 0x0C then [CHR 0x5C, CHR ''f'']
      else if b = 0x0A then [CHR 0x5C, CHR ''n'']
      else if b = 0x0D then [CHR 0x5C, CHR ''r'']
      else if b = 0x09 then [CHR 0x5C, CHR ''t'']
      else if b < 0x20 \<or> b = 0x3C \<or> b = 0x3E \<or> b = 0x26 then [CHR 0x5C, CHR ''u''] @ hex4 b
      else [c])"

function quote_body :: "string \<Rightarrow> string" where
  "quote_body s =
     (if s = [] then []
      else (let (r, n) = decode_rune s in
        (if r < 0x80 then quote_byte (hd s)
         else if r = rune_error \<and> n = 1 then [CHR 0x5C] @ ''ufffd''
         else if r = 0x2028 \<or> r = 0x2029 then [CHR 0x5C, CHR ''u''] @ hex4 r
         else take n s) @ quote_body (drop n s)))"
  by pat_completeness auto
termination
proof (relation "measure length")
  fix s :: string and x r n
  assume "s \<noteq> []" and "x = decode_rune s" and "(r, n) = x"
  then have "1 \<le> n" using decode_rune_size [of s] by (metis snd_conv)
  with \<open>s \<noteq> []\<close> show "(drop n s, s) \<in> measure length" by (cases s) auto
qed simp

declare quote_body.simps [simp del]

definition json_quote :: "string \<Rightarrow> string" where
  "json_quote s = [CHR 0x22] @ quote_body s @ [CHR 0x22]"

section \<open>Scanning values\<close>

definition is_ws :: "char \<Rightarrow> bool" where
  "is_ws c \<longleftrightarrow> byte c = 0x20 \<or> byte c = 0x09 \<or> byte c = 0x0A \<or> byte c = 0x0D"

definition skip_ws :: "string \<Rightarrow> string" where
  "skip_ws s = dropWhile is_ws s"

definition is_digit :: "char \<Rightarrow> bool" where
  "is_digit c \<longleftrightarrow> 48 \<le> byte c \<and> byte c \<le> 57"

definition hex_value :: "char \<Rightarrow> nat option" where
  "hex_value c =
     (let b = byte c in
      if 48 \<le> b \<and> b \<le> 57 then Some (b - 48)
      else if 97 \<le> b \<and> b \<le> 102 then Some (b - 87)
      else if 65 \<le> b \<and> b \<le> 70 then Some (b - 55)
      else None)"

definition simple_escapes :: "(char \<times> nat) list" where
  "simple_escapes =
     [(CHR 0x22, 0x22), (CHR 0x5C, 0x5C), (CHR ''/'', 0x2F), (CHR ''b'', 0x08), (CHR ''f'', 0x0C),
      (CHR ''n'', 0x0A), (CHR ''r'', 0x0D), (CHR ''t'', 0x09)]"

text \<open>The text after a string literal whose opening quote has been read.\<close>

fun skip_str :: "string \<Rightarrow> string option" where
  "skip_str [] = None"
| "skip_str (c # s) =
     (if byte c = 0x22 then Some s
      else if byte c = 0x5C then
        (case s of
           [] \<Rightarrow> None
         | e # t \<Rightarrow>
             if map_of simple_escapes e \<noteq> None then skip_str t
             else if e = CHR ''u'' then
               (case t of
                  a # b # x # y # u \<Rightarrow>
                    (if hex_value a \<noteq> None \<and> hex_value b \<noteq> None \<and> hex_value x \<noteq> None \<and>
                        hex_value y \<noteq> None then skip_str u else None)
                | _ \<Rightarrow> None)
             else None)
      else if byte c < 0x20 then None
      else skip_str s)"

definition skip_digits1 :: "string \<Rightarrow> string option" where
  "skip_digits1 s = (case s of c # t \<Rightarrow> if is_digit c then Some (dropWhile is_digit t) else None
     | [] \<Rightarrow> None)"

definition skip_number :: "string \<Rightarrow> string option" where
  "skip_number s =
     (let s1 = (case s of c # t \<Rightarrow> if c = CHR ''-'' then t else s | [] \<Rightarrow> s) in
      case (case s1 of c # t \<Rightarrow> if c = CHR ''0'' then Some t else skip_digits1 s1 | [] \<Rightarrow> None) of
        None \<Rightarrow> None
      | Some s2 \<Rightarrow>
          (case (case s2 of c # t \<Rightarrow> if c = CHR ''.'' then skip_digits1 t else Some s2
                 | [] \<Rightarrow> Some s2) of
             None \<Rightarrow> None
           | Some s3 \<Rightarrow>
               (case s3 of
                  c # t \<Rightarrow>
                    (if c = CHR ''e'' \<or> c = CHR ''E'' then
                       skip_digits1 (case t of d # u \<Rightarrow> if d = CHR ''+'' \<or> d = CHR ''-'' then u else t
                         | [] \<Rightarrow> t)
                     else Some s3)
                | [] \<Rightarrow> Some s3)))"

definition skip_lit :: "string \<Rightarrow> string \<Rightarrow> string option" where
  "skip_lit l s = (if prefix l s then Some (drop (length l) s) else None)"

text \<open>
  \<open>skip_val n s\<close> is the text after the value at the start of \<open>s\<close> (white space before it is
  skipped), \<open>None\<close> if there is no valid value. \<open>skip_elems\<close> and \<open>skip_mems\<close> continue inside an
  array or an object, before an element or a member.
\<close>

fun skip_val :: "nat \<Rightarrow> string \<Rightarrow> string option"
  and skip_elems :: "nat \<Rightarrow> string \<Rightarrow> string option"
  and skip_mems :: "nat \<Rightarrow> string \<Rightarrow> string option" where
  "skip_val 0 s = None"
| "skip_val (Suc n) s =
     (case skip_ws s of
        [] \<Rightarrow> None
      | c # t \<Rightarrow>
          if byte c = 0x22 then skip_str t
          else if c = CHR ''{'' then
            (case skip_ws t of
               [] \<Rightarrow> None
             | d # u \<Rightarrow> if d = CHR ''}'' then Some u else skip_mems n (d # u))
          else if c = CHR ''['' then
            (case skip_ws t of
               [] \<Rightarrow> None
             | d # u \<Rightarrow> if d = CHR '']'' then Some u else skip_elems n (d # u))
          else if c = CHR ''t'' then skip_lit ''true'' (c # t)
          else if c = CHR ''f'' then skip_lit ''false'' (c # t)
          else if c = CHR ''n'' then skip_lit ''null'' (c # t)
          else skip_number (c # t))"
| "skip_elems 0 s = None"
| "skip_elems (Suc n) s =
     (case skip_val n s of
        None \<Rightarrow> None
      | Some r \<Rightarrow>
          (case skip_ws r of
             [] \<Rightarrow> None
           | c # t \<Rightarrow> if c = CHR '','' then skip_elems n t
                     else if c = CHR '']'' then Some t else None))"
| "skip_mems 0 s = None"
| "skip_mems (Suc n) s =
     (case skip_ws s of
        [] \<Rightarrow> None
      | q # k \<Rightarrow>
          if byte q \<noteq> 0x22 then None
          else (case skip_str k of
                  None \<Rightarrow> None
                | Some r \<Rightarrow>
                    (case skip_ws r of
                       [] \<Rightarrow> None
                     | c # t \<Rightarrow>
                         if c \<noteq> CHR '':'' then None
                         else (case skip_val n t of
                                 None \<Rightarrow> None
                               | Some u \<Rightarrow>
                                   (case skip_ws u of
                                      [] \<Rightarrow> None
                                    | d # v \<Rightarrow> if d = CHR '','' then skip_mems n v
                                              else if d = CHR ''}'' then Some v else None)))))"

definition fuel :: "string \<Rightarrow> nat" where
  "fuel s = 2 * length s + 2"

text \<open>\<open>json.Valid\<close>: one value, with nothing but white space around it.\<close>

definition json_valid :: "string \<Rightarrow> bool" where
  "json_valid s = (case skip_val (fuel s) s of None \<Rightarrow> False | Some r \<Rightarrow> skip_ws r = [])"

definition before :: "string \<Rightarrow> string \<Rightarrow> string" where
  "before s r = take (length s - length r) s"

section \<open>Reading strings\<close>

text \<open>\<open>getu4\<close> of the library: the value of a backslash-u escape at the start of the text.\<close>

fun getu4 :: "string \<Rightarrow> nat option" where
  "getu4 (bs # u # a # b # c # d # s) =
     (if byte bs = 0x5C \<and> u = CHR ''u'' then
        (case (hex_value a, hex_value b, hex_value c, hex_value d) of
           (Some w, Some x, Some y, Some z) \<Rightarrow> Some (w * 4096 + x * 256 + y * 16 + z)
         | _ \<Rightarrow> None)
      else None)"
| "getu4 _ = None"

definition is_surrogate :: "nat \<Rightarrow> bool" where
  "is_surrogate r \<longleftrightarrow> 0xD800 \<le> r \<and> r < 0xE000"

text \<open>\<open>utf16.DecodeRune\<close>.\<close>

definition decode_pair :: "nat \<Rightarrow> nat \<Rightarrow> nat" where
  "decode_pair r1 r2 =
     (if 0xD800 \<le> r1 \<and> r1 < 0xDC00 \<and> 0xDC00 \<le> r2 \<and> r2 < 0xE000
      then (r1 - 0xD800) * 1024 + (r2 - 0xDC00) + 0x10000 else rune_error)"

text \<open>\<open>unquoteBytes\<close>: the content of a valid literal, up to its closing quote. Malformed UTF-8
  becomes U+FFFD.\<close>

function unquote_body :: "string \<Rightarrow> string" where
  "unquote_body s =
     (case s of
        [] \<Rightarrow> []
      | c # t \<Rightarrow>
          if byte c = 0x22 then []
          else if byte c = 0x5C then
            (case getu4 s of
               Some r1 \<Rightarrow>
                 (if is_surrogate r1 then
                    (case getu4 (drop 6 s) of
                       Some r2 \<Rightarrow>
                         (if decode_pair r1 r2 \<noteq> rune_error
                          then encode_rune (decode_pair r1 r2) @ unquote_body (drop 12 s)
                          else encode_rune rune_error @ unquote_body (drop 6 s))
                     | None \<Rightarrow> encode_rune rune_error @ unquote_body (drop 6 s))
                  else encode_rune r1 @ unquote_body (drop 6 s))
             | None \<Rightarrow>
                 (case t of
                    [] \<Rightarrow> []
                  | e # u \<Rightarrow> (case map_of simple_escapes e of
                                None \<Rightarrow> [] | Some b \<Rightarrow> [chr b]) @ unquote_body u))
          else (let (r, n) = decode_rune s in encode_rune r @ unquote_body (drop n s)))"
  by pat_completeness auto
termination
proof (relation "measure length", goal_cases)
  case (7 s c t x r n)
  then have "1 \<le> n" using decode_rune_size [of s] by (metis list.discI snd_conv)
  with 7 show ?case by auto
qed auto

declare unquote_body.simps [simp del]

text \<open>\<open>json.Unmarshal\<close> into a \<open>string\<close>: \<open>None\<close> is an error. A JSON null leaves the zero value.\<close>

definition unmarshal_string :: "string \<Rightarrow> string option" where
  "unmarshal_string s =
     (if \<not> json_valid s then None
      else (case skip_ws s of
              c # t \<Rightarrow> if byte c = 0x22 then Some (unquote_body t)
                       else if c = CHR ''n'' then Some [] else None
            | [] \<Rightarrow> None))"

section \<open>Cutting arrays and objects\<close>

fun cut_elems :: "nat \<Rightarrow> string \<Rightarrow> string list" where
  "cut_elems 0 s = []"
| "cut_elems (Suc n) s =
     (case skip_val (fuel s) s of
        None \<Rightarrow> []
      | Some r \<Rightarrow> before (skip_ws s) r #
          (case skip_ws r of [] \<Rightarrow> [] | c # t \<Rightarrow> if c = CHR '','' then cut_elems n t else []))"

fun cut_mems :: "nat \<Rightarrow> string \<Rightarrow> (string \<times> string) list" where
  "cut_mems 0 s = []"
| "cut_mems (Suc n) s =
     (case skip_ws s of
        [] \<Rightarrow> []
      | q # k \<Rightarrow>
          (case skip_str k of
             None \<Rightarrow> []
           | Some r \<Rightarrow>
               (let t = tl (skip_ws r) in
                case skip_val (fuel t) t of
                  None \<Rightarrow> []
                | Some u \<Rightarrow> (unquote_body k, before (skip_ws t) u) #
                    (case skip_ws u of [] \<Rightarrow> [] | d # v \<Rightarrow> if d = CHR '','' then cut_mems n v else []))))"

text \<open>\<open>json.Unmarshal\<close> into \<open>[]json.RawMessage\<close>; null gives the nil slice.\<close>

definition unmarshal_array :: "string \<Rightarrow> string list option" where
  "unmarshal_array s =
     (if \<not> json_valid s then None
      else (case skip_ws s of
              c # t \<Rightarrow>
                (if c = CHR ''['' then
                   Some (case skip_ws t of [] \<Rightarrow> []
                     | d # u \<Rightarrow> if d = CHR '']'' then [] else cut_elems (length s) t)
                 else if c = CHR ''n'' then Some [] else None)
            | [] \<Rightarrow> None))"

text \<open>\<open>json.Unmarshal\<close> into \<open>map[string]json.RawMessage\<close>: the members in textual order; of two
  members with one key the later one is stored (\<open>raw_get\<close>); null gives the nil map.\<close>

definition unmarshal_object :: "string \<Rightarrow> (string \<times> string) list option" where
  "unmarshal_object s =
     (if \<not> json_valid s then None
      else (case skip_ws s of
              c # t \<Rightarrow>
                (if c = CHR ''{'' then
                   Some (case skip_ws t of [] \<Rightarrow> []
                     | d # u \<Rightarrow> if d = CHR ''}'' then [] else cut_mems (length s) t)
                 else if c = CHR ''n'' then Some [] else None)
            | [] \<Rightarrow> None))"

definition raw_get :: "(string \<times> string) list \<Rightarrow> string \<Rightarrow> string option" where
  "raw_get ms k = map_of (rev ms) k"

text \<open>Reading a missing key of a Go map of raw messages gives nil, the empty text.\<close>

definition raw_field :: "(string \<times> string) list \<Rightarrow> string \<Rightarrow> string" where
  "raw_field ms k = (case raw_get ms k of None \<Rightarrow> [] | Some v \<Rightarrow> v)"

section \<open>Writing objects\<close>

text \<open>\<open>compact\<close> with HTML escaping, as \<open>json.Marshal\<close> applies it to a raw message: white space
  outside string literals goes, \<open><\<close>, \<open>>\<close>, \<open>&\<close>, U+2028 and U+2029 are escaped everywhere.\<close>

fun compact_raw :: "bool \<Rightarrow> string \<Rightarrow> string" where
  "compact_raw in_str [] = []"
| "compact_raw in_str (c # s) =
     (if byte c = 0x3C \<or> byte c = 0x3E \<or> byte c = 0x26 then
        [CHR 0x5C, CHR ''u''] @ hex4 (byte c) @ compact_raw in_str s
      else if prefix [chr 0xE2, chr 0x80, chr 0xA8] (c # s) then
        [CHR 0x5C] @ ''u2028'' @ compact_raw in_str (drop 2 s)
      else if prefix [chr 0xE2, chr 0x80, chr 0xA9] (c # s) then
        [CHR 0x5C] @ ''u2029'' @ compact_raw in_str (drop 2 s)
      else if in_str then
        (if byte c = 0x5C then (case s of [] \<Rightarrow> [c] | e # t \<Rightarrow> c # e # compact_raw True t)
         else c # compact_raw (byte c \<noteq> 0x22) s)
      else if is_ws c then compact_raw False s
      else c # compact_raw (byte c = 0x22) s)"

text \<open>Go compares strings by their bytes; \<open>json.Marshal\<close> writes the keys of a map in that order.\<close>

fun bytes_le :: "string \<Rightarrow> string \<Rightarrow> bool" where
  "bytes_le [] t = True"
| "bytes_le (a # s) [] = False"
| "bytes_le (a # s) (b # t) = (byte a < byte b \<or> (a = b \<and> bytes_le s t))"

fun insert_key :: "string \<times> string \<Rightarrow> (string \<times> string) list \<Rightarrow> (string \<times> string) list" where
  "insert_key m [] = [m]"
| "insert_key m (x # xs) =
     (if fst m = fst x then m # xs
      else if bytes_le (fst m) (fst x) then m # x # xs
      else x # insert_key m xs)"

definition sort_mems :: "(string \<times> string) list \<Rightarrow> (string \<times> string) list" where
  "sort_mems ms = fold insert_key ms []"

definition marshal_object :: "(string \<times> string) list \<Rightarrow> string" where
  "marshal_object ms =
     ''{'' @ join '','' (map (\<lambda>(k, v). json_quote k @ '':'' @ compact_raw False v) (sort_mems ms)) @ ''}''"

end
