(* ===== verification/ApiTypes.thy ===== *)
theory ApiTypes
  imports Complex_Main GoJson
begin

text \<open>
  The wire types of \<open>backend/internal/pkg/apicompat/types.go\<close>: Anthropic Messages, OpenAI Responses
  and OpenAI Chat Completions, one record per struct, with the source's field names behind a prefix
  for the struct (HOL has one name space for selectors). A Go pointer is an option, a slice a list,
  a \<open>json.RawMessage\<close> the text of a JSON value, an \<open>int\<close> an \<open>int\<close> whose 64-bit arithmetic is
  written out where it is computed with (\<open>add64\<close>), and a \<open>*float64\<close> sampling parameter, which is
  only passed on, a rational. \<open>zero_\<close> definitions are Go's zero values. The nil slice and the empty
  slice are both the empty list, except where a slice is marshalled as a whole (\<open>ApiJson\<close>): there
  the nil slice is \<open>None\<close>, because it prints as null.
\<close>

type_synonym float64 = rat
type_synonym raw_message = string

section \<open>Anthropic Messages\<close>

record anthropic_cache_control =
  cc_Type :: string
  cc_TTL :: string

record anthropic_image_source =
  src_Type :: string
  src_MediaType :: string
  src_Data :: string

record anthropic_content_block =
  blk_Type :: string
  blk_CacheControl :: "anthropic_cache_control option"
  blk_Text :: string
  blk_Thinking :: string
  blk_Source :: "anthropic_image_source option"
  blk_ID :: string
  blk_Name :: string
  blk_Input :: raw_message
  blk_ToolUseID :: string
  blk_Content :: raw_message
  blk_IsError :: bool

definition zero_block :: anthropic_content_block where
  [simp]: "zero_block = \<lparr>blk_Type = [], blk_CacheControl = None, blk_Text = [], blk_Thinking = [],
     blk_Source = None, blk_ID = [], blk_Name = [], blk_Input = [], blk_ToolUseID = [],
     blk_Content = [], blk_IsError = False\<rparr>"

record anthropic_usage =
  au_InputTokens :: int
  au_OutputTokens :: int
  au_CacheCreationInputTokens :: int
  au_CacheReadInputTokens :: int

definition zero_anthropic_usage :: anthropic_usage where
  [simp]: "zero_anthropic_usage = \<lparr>au_InputTokens = 0, au_OutputTokens = 0,
     au_CacheCreationInputTokens = 0, au_CacheReadInputTokens = 0\<rparr>"

record anthropic_response =
  ar_ID :: string
  ar_Type :: string
  ar_Role :: string
  ar_Content :: "anthropic_content_block list"
  ar_Model :: string
  ar_StopReason :: string
  ar_StopSequence :: "string option"
  ar_Usage :: anthropic_usage

definition zero_anthropic_response :: anthropic_response where
  [simp]: "zero_anthropic_response = \<lparr>ar_ID = [], ar_Type = [], ar_Role = [], ar_Content = [],
     ar_Model = [], ar_StopReason = [], ar_StopSequence = None, ar_Usage = zero_anthropic_usage\<rparr>"

record anthropic_delta =
  ad_Type :: string
  ad_Text :: string
  ad_PartialJSON :: string
  ad_Thinking :: string
  ad_Signature :: string
  ad_StopReason :: string
  ad_StopSequence :: "string option"

definition zero_anthropic_delta :: anthropic_delta where
  [simp]: "zero_anthropic_delta = \<lparr>ad_Type = [], ad_Text = [], ad_PartialJSON = [], ad_Thinking = [],
     ad_Signature = [], ad_StopReason = [], ad_StopSequence = None\<rparr>"

record anthropic_stream_event =
  ae_Type :: string
  ae_Message :: "anthropic_response option"
  ae_Index :: "int option"
  ae_ContentBlock :: "anthropic_content_block option"
  ae_Delta :: "anthropic_delta option"
  ae_Usage :: "anthropic_usage option"

definition zero_anthropic_event :: anthropic_stream_event where
  [simp]: "zero_anthropic_event = \<lparr>ae_Type = [], ae_Message = None, ae_Index = None,
     ae_ContentBlock = None, ae_Delta = None, ae_Usage = None\<rparr>"

record anthropic_message =
  am_Role :: string
  am_Content :: raw_message

record anthropic_tool =
  at_Type :: string
  at_Name :: string
  at_Description :: string
  at_InputSchema :: raw_message
  at_CacheControl :: "anthropic_cache_control option"

record anthropic_thinking =
  ath_Type :: string
  ath_BudgetTokens :: int

record anthropic_output_config =
  aoc_Effort :: string

record anthropic_request =
  aq_Model :: string
  aq_MaxTokens :: int
  aq_System :: raw_message
  aq_Messages :: "anthropic_message list"
  aq_Tools :: "anthropic_tool list"
  aq_Stream :: bool
  aq_Temperature :: "float64 option"
  aq_TopP :: "float64 option"
  aq_StopSeqs :: "string list"
  aq_Thinking :: "anthropic_thinking option"
  aq_ToolChoice :: raw_message
  aq_Metadata :: raw_message
  aq_OutputConfig :: "anthropic_output_config option"

definition zero_anthropic_request :: anthropic_request where
  [simp]: "zero_anthropic_request = \<lparr>aq_Model = [], aq_MaxTokens = 0, aq_System = [], aq_Messages = [],
     aq_Tools = [], aq_Stream = False, aq_Temperature = None, aq_TopP = None, aq_StopSeqs = [],
     aq_Thinking = None, aq_ToolChoice = [], aq_Metadata = [], aq_OutputConfig = None\<rparr>"

section \<open>OpenAI Responses\<close>

record responses_content_part =
  rcp_Type :: string
  rcp_Text :: string
  rcp_ImageURL :: string

definition zero_content_part :: responses_content_part where
  [simp]: "zero_content_part = \<lparr>rcp_Type = [], rcp_Text = [], rcp_ImageURL = []\<rparr>"

record responses_summary =
  rs_Type :: string
  rs_Text :: string

record web_search_action =
  wsa_Type :: string
  wsa_Query :: string

record responses_output =
  ro_Type :: string
  ro_ID :: string
  ro_Role :: string
  ro_Content :: "responses_content_part list"
  ro_Status :: string
  ro_EncryptedContent :: string
  ro_Summary :: "responses_summary list"
  ro_CallID :: string
  ro_Name :: string
  ro_Arguments :: string
  ro_Action :: "web_search_action option"

definition zero_output :: responses_output where
  [simp]: "zero_output = \<lparr>ro_Type = [], ro_ID = [], ro_Role = [], ro_Content = [], ro_Status = [],
     ro_EncryptedContent = [], ro_Summary = [], ro_CallID = [], ro_Name = [], ro_Arguments = [],
     ro_Action = None\<rparr>"

record responses_input_tokens_details =
  itd_CachedTokens :: int
  itd_AudioTokens :: int

record responses_output_tokens_details =
  otd_ReasoningTokens :: int
  otd_AudioTokens :: int
  otd_AcceptedPredictionTokens :: int
  otd_RejectedPredictionTokens :: int

record responses_usage =
  ru_InputTokens :: int
  ru_OutputTokens :: int
  ru_TotalTokens :: int
  ru_InputTokensDetails :: "responses_input_tokens_details option"
  ru_OutputTokensDetails :: "responses_output_tokens_details option"

text \<open>What the JSON of a usage object decodes to: the struct's own fields and the Chat Completions
  aliases. \<open>responses_usage_unmarshal\<close> is the field merge of \<open>ResponsesUsage.UnmarshalJSON\<close>.\<close>

record responses_usage_aux =
  rua_Usage :: responses_usage
  rua_PromptTokens :: int
  rua_CompletionTokens :: int
  rua_PromptTokensDetails :: "responses_input_tokens_details option"
  rua_CompletionTokensDetails :: "responses_output_tokens_details option"

definition responses_usage_unmarshal :: "responses_usage_aux \<Rightarrow> responses_usage" where
  "responses_usage_unmarshal aux =
     (let u0 = rua_Usage aux;
          u1 = (if ru_InputTokens u0 = 0 \<and> rua_PromptTokens aux \<noteq> 0
                then u0\<lparr>ru_InputTokens := rua_PromptTokens aux\<rparr> else u0);
          u2 = (if ru_OutputTokens u1 = 0 \<and> rua_CompletionTokens aux \<noteq> 0
                then u1\<lparr>ru_OutputTokens := rua_CompletionTokens aux\<rparr> else u1);
          u3 = (if ru_InputTokensDetails u2 = None \<and> rua_PromptTokensDetails aux \<noteq> None
                then u2\<lparr>ru_InputTokensDetails := rua_PromptTokensDetails aux\<rparr> else u2);
          u4 = (if ru_OutputTokensDetails u3 = None \<and> rua_CompletionTokensDetails aux \<noteq> None
                then u3\<lparr>ru_OutputTokensDetails := rua_CompletionTokensDetails aux\<rparr> else u3)
      in if ru_TotalTokens u4 = 0 \<and> (ru_InputTokens u4 \<noteq> 0 \<or> ru_OutputTokens u4 \<noteq> 0)
         then u4\<lparr>ru_TotalTokens := add64 (ru_InputTokens u4) (ru_OutputTokens u4)\<rparr> else u4)"

record responses_incomplete_details =
  rid_Reason :: string

record responses_error =
  rerr_Code :: string
  rerr_Message :: string

record responses_response =
  rr_ID :: string
  rr_Object :: string
  rr_Model :: string
  rr_Status :: string
  rr_Output :: "responses_output list"
  rr_Usage :: "responses_usage option"
  rr_IncompleteDetails :: "responses_incomplete_details option"
  rr_Error :: "responses_error option"

definition zero_responses_response :: responses_response where
  [simp]: "zero_responses_response = \<lparr>rr_ID = [], rr_Object = [], rr_Model = [], rr_Status = [],
     rr_Output = [], rr_Usage = None, rr_IncompleteDetails = None, rr_Error = None\<rparr>"

record responses_stream_event =
  re_Type :: string
  re_Response :: "responses_response option"
  re_Usage :: "responses_usage option"
  re_Item :: "responses_output option"
  re_OutputIndex :: int
  re_ContentIndex :: int
  re_Delta :: string
  re_Text :: string
  re_ItemID :: string
  re_CallID :: string
  re_Name :: string
  re_Arguments :: string
  re_SummaryIndex :: int
  re_Part :: "responses_content_part option"
  re_Code :: string
  re_Param :: string
  re_SequenceNumber :: int

definition zero_responses_event :: responses_stream_event where
  [simp]: "zero_responses_event = \<lparr>re_Type = [], re_Response = None, re_Usage = None, re_Item = None,
     re_OutputIndex = 0, re_ContentIndex = 0, re_Delta = [], re_Text = [], re_ItemID = [],
     re_CallID = [], re_Name = [], re_Arguments = [], re_SummaryIndex = 0, re_Part = None,
     re_Code = [], re_Param = [], re_SequenceNumber = 0\<rparr>"

record responses_reasoning =
  rre_Effort :: string
  rre_Summary :: string

record responses_tool =
  rt_Type :: string
  rt_Name :: string
  rt_Description :: string
  rt_Parameters :: raw_message
  rt_Strict :: "bool option"

record responses_request =
  rq_Model :: string
  rq_Instructions :: string
  rq_Input :: raw_message
  rq_MaxOutputTokens :: "int option"
  rq_Temperature :: "float64 option"
  rq_TopP :: "float64 option"
  rq_Stream :: bool
  rq_Tools :: "responses_tool list"
  rq_Include :: "string list"
  rq_Store :: "bool option"
  rq_ParallelToolCalls :: "bool option"
  rq_Reasoning :: "responses_reasoning option"
  rq_TextVerbosity :: "string option"
  rq_ToolChoice :: raw_message
  rq_ServiceTier :: string
  rq_PromptCacheKey :: string
  rq_PreviousResponseID :: string

definition zero_responses_request :: responses_request where
  [simp]: "zero_responses_request = \<lparr>rq_Model = [], rq_Instructions = [], rq_Input = [],
     rq_MaxOutputTokens = None, rq_Temperature = None, rq_TopP = None, rq_Stream = False, rq_Tools = [],
     rq_Include = [], rq_Store = None, rq_ParallelToolCalls = None, rq_Reasoning = None,
     rq_TextVerbosity = None, rq_ToolChoice = [], rq_ServiceTier = [], rq_PromptCacheKey = [],
     rq_PreviousResponseID = []\<rparr>"

record responses_input_item =
  it_Type :: string
  it_Role :: string
  it_Content :: raw_message
  it_CallID :: string
  it_Name :: string
  it_Arguments :: string
  it_ID :: string
  it_Output :: string

definition zero_item :: responses_input_item where
  [simp]: "zero_item = \<lparr>it_Type = [], it_Role = [], it_Content = [], it_CallID = [], it_Name = [],
     it_Arguments = [], it_ID = [], it_Output = []\<rparr>"

section \<open>OpenAI Chat Completions\<close>

record chat_function_call =
  cf_Name :: string
  cf_Arguments :: string

record chat_tool_call =
  tc_Index :: "int option"
  tc_ID :: string
  tc_Type :: string
  tc_Function :: chat_function_call

definition zero_function_call :: chat_function_call where
  [simp]: "zero_function_call = \<lparr>cf_Name = [], cf_Arguments = []\<rparr>"

definition zero_tool_call :: chat_tool_call where
  [simp]: "zero_tool_call = \<lparr>tc_Index = None, tc_ID = [], tc_Type = [], tc_Function = zero_function_call\<rparr>"

record chat_message =
  cm_Role :: string
  cm_Content :: raw_message
  cm_ReasoningContent :: string
  cm_Name :: string
  cm_ToolCalls :: "chat_tool_call list"
  cm_ToolCallID :: string
  cm_FunctionCall :: "chat_function_call option"

definition zero_chat_message :: chat_message where
  [simp]: "zero_chat_message = \<lparr>cm_Role = [], cm_Content = [], cm_ReasoningContent = [], cm_Name = [],
     cm_ToolCalls = [], cm_ToolCallID = [], cm_FunctionCall = None\<rparr>"

record chat_image_url =
  iu_URL :: string
  iu_Detail :: string

record chat_content_part =
  ccp_Type :: string
  ccp_Text :: string
  ccp_ImageURL :: "chat_image_url option"

record chat_function =
  fn_Name :: string
  fn_Description :: string
  fn_Parameters :: raw_message
  fn_Strict :: "bool option"

record chat_tool =
  ct_Type :: string
  ct_Function :: "chat_function option"

record chat_completions_request =
  cq_Model :: string
  cq_Messages :: "chat_message list"
  cq_Instructions :: string
  cq_MaxTokens :: "int option"
  cq_MaxCompletionTokens :: "int option"
  cq_Temperature :: "float64 option"
  cq_TopP :: "float64 option"
  cq_Stream :: bool
  cq_StreamOptions :: "bool option"
  cq_Tools :: "chat_tool list"
  cq_ToolChoice :: raw_message
  cq_ReasoningEffort :: string
  cq_ServiceTier :: string
  cq_Stop :: raw_message
  cq_Functions :: "chat_function list"
  cq_FunctionCall :: raw_message

record chat_token_details =
  ctd_CachedTokens :: int
  ctd_AudioTokens :: int
  ctd_ReasoningTokens :: int
  ctd_AcceptedPredictionTokens :: int
  ctd_RejectedPredictionTokens :: int

definition zero_token_details :: chat_token_details where
  [simp]: "zero_token_details = \<lparr>ctd_CachedTokens = 0, ctd_AudioTokens = 0, ctd_ReasoningTokens = 0,
     ctd_AcceptedPredictionTokens = 0, ctd_RejectedPredictionTokens = 0\<rparr>"

record chat_usage =
  cu_PromptTokens :: int
  cu_CompletionTokens :: int
  cu_TotalTokens :: int
  cu_PromptTokensDetails :: "chat_token_details option"
  cu_CompletionTokensDetails :: "chat_token_details option"

record chat_choice =
  cch_Index :: int
  cch_Message :: chat_message
  cch_FinishReason :: string

record chat_completions_response =
  cr_ID :: string
  cr_Object :: string
  cr_Created :: int
  cr_Model :: string
  cr_Choices :: "chat_choice list"
  cr_Usage :: "chat_usage option"
  cr_SystemFingerprint :: string
  cr_ServiceTier :: string

record chat_delta =
  cd_Role :: string
  cd_Content :: "string option"
  cd_ReasoningContent :: "string option"
  cd_ToolCalls :: "chat_tool_call list"

definition zero_chat_delta :: chat_delta where
  [simp]: "zero_chat_delta = \<lparr>cd_Role = [], cd_Content = None, cd_ReasoningContent = None, cd_ToolCalls = []\<rparr>"

record chat_chunk_choice =
  ck_Index :: int
  ck_Delta :: chat_delta
  ck_FinishReason :: "string option"

record chat_completions_chunk =
  ch_ID :: string
  ch_Object :: string
  ch_Created :: int
  ch_Model :: string
  ch_Choices :: "chat_chunk_choice list"
  ch_Usage :: "chat_usage option"
  ch_SystemFingerprint :: string
  ch_ServiceTier :: string

section \<open>Call and item identifiers\<close>

text \<open>\<open>crypto/rand\<close> is an arbitrary source: the \<open>n\<close>-th read of 12 bytes returns \<open>fst g n\<close>, and
  the model carries the number of reads made so far.\<close>

type_synonym rand_source = "(nat \<Rightarrow> string) \<times> nat"

definition rand_read :: "rand_source \<Rightarrow> string \<times> rand_source" where
  "rand_read g = (fst g (snd g), (fst g, Suc (snd g)))"

definition generateResponsesID :: "rand_source \<Rightarrow> string \<times> rand_source" where
  "generateResponsesID g = (let (b, g') = rand_read g in (''resp_'' @ hex_encode b, g'))"

definition generateItemID :: "rand_source \<Rightarrow> string \<times> rand_source" where
  "generateItemID g = (let (b, g') = rand_read g in (''item_'' @ hex_encode b, g'))"

definition generateChatCmplID :: "rand_source \<Rightarrow> string \<times> rand_source" where
  "generateChatCmplID g = (let (b, g') = rand_read g in (''chatcmpl-'' @ hex_encode b, g'))"

lemma generateItemID_nonempty [simp]: "fst (generateItemID g) \<noteq> []"
  by (simp add: generateItemID_def rand_read_def)

definition toResponsesCallID :: "string \<Rightarrow> string" where
  "toResponsesCallID callid = callid"

definition fromResponsesCallID :: "string \<Rightarrow> string" where
  "fromResponsesCallID callid =
     (if prefix ''fc_'' callid then
        (let after = drop 3 callid in
         if prefix ''toolu_'' after \<or> prefix ''call_'' after then after else callid)
      else callid)"

section \<open>Text payloads of stream events\<close>

text \<open>The assistant text an event carries, for each of the three stream formats. These are the
  payloads the interface \<open>stream_content\<close> of the converters is about.\<close>

definition anth_text :: "anthropic_stream_event \<Rightarrow> string" where
  "anth_text e =
     (if ae_Type e = ''content_block_delta'' then
        (case ae_Delta e of Some d \<Rightarrow> if ad_Type d = ''text_delta'' then ad_Text d else [] | None \<Rightarrow> [])
      else [])"

definition res_text :: "responses_stream_event \<Rightarrow> string" where
  "res_text e = (if re_Type e = ''response.output_text.delta'' then re_Delta e else [])"

definition chat_text :: "chat_completions_chunk \<Rightarrow> string" where
  "chat_text c = concat (map (\<lambda>ch. case cd_Content (ck_Delta ch) of None \<Rightarrow> [] | Some t \<Rightarrow> t) (ch_Choices c))"

end
