(* ===== verification/ResponsesAnthropic.thy ===== *)
theory ResponsesAnthropic
  imports ApiTypes
begin

text \<open>
  \<open>responses_to_anthropic.go\<close>: Responses output shown to a client that speaks Anthropic Messages,
  as a whole response (\<open>ResponsesToAnthropic\<close>) and as a stream (\<open>ResponsesEventToAnthropicEvents\<close>,
  \<open>FinalizeResponsesAnthropicStream\<close>). Definitions come first, in the order of the file; then the
  output protocol, the input protocol and the simulation between them.
\<close>

section \<open>Whole responses\<close>

definition anthropicUsageFromResponsesUsage :: "responses_usage option \<Rightarrow> anthropic_usage" where
  "anthropicUsageFromResponsesUsage usage =
     (case usage of
        None \<Rightarrow> zero_anthropic_usage
      | Some u \<Rightarrow>
          let cachedTokens = (case ru_InputTokensDetails u of None \<Rightarrow> 0 | Some d \<Rightarrow> itd_CachedTokens d);
              diff = sub64 (ru_InputTokens u) cachedTokens;
              inputTokens = (if diff < 0 then 0 else diff)
          in zero_anthropic_usage\<lparr>au_InputTokens := inputTokens,
               au_OutputTokens := ru_OutputTokens u,
               au_CacheReadInputTokens := cachedTokens\<rparr>)"

fun containsAnthropicToolUseBlock :: "anthropic_content_block list \<Rightarrow> bool" where
  "containsAnthropicToolUseBlock [] = False"
| "containsAnthropicToolUseBlock (b # bs) =
     (if blk_Type b = ''tool_use'' then True else containsAnthropicToolUseBlock bs)"

definition responsesStatusToAnthropicStopReason ::
    "string \<Rightarrow> responses_incomplete_details option \<Rightarrow> anthropic_content_block list \<Rightarrow> string" where
  "responsesStatusToAnthropicStopReason status details blocks =
     (if status = ''incomplete'' then
        (case details of
           Some d \<Rightarrow> if rid_Reason d = ''max_output_tokens'' then ''max_tokens'' else ''end_turn''
         | None \<Rightarrow> ''end_turn'')
      else if status = ''completed'' then
        (if containsAnthropicToolUseBlock blocks then ''tool_use'' else ''end_turn'')
      else ''end_turn'')"

text \<open>The tool \<open>Read\<close> refuses an empty \<open>pages\<close> argument, so such a member is taken out of its input.
  Marshalling a map of raw messages that were just decoded does not fail.\<close>

definition sanitizeAnthropicToolUseInput :: "string \<Rightarrow> string \<Rightarrow> raw_message" where
  "sanitizeAnthropicToolUseInput name raw =
     (if name \<noteq> ''Read'' \<or> raw = [] then raw
      else (case unmarshal_object raw of
              None \<Rightarrow> raw
            | Some input \<Rightarrow>
                (case raw_get input ''pages'' of
                   None \<Rightarrow> raw
                 | Some pages \<Rightarrow>
                     if pages \<noteq> [CHR 0x22, CHR 0x22] then raw
                     else marshal_object (filter (\<lambda>m. fst m \<noteq> ''pages'') input))))"

text \<open>\<open>json.Marshal(map[string]string{"query": query})\<close> and \<open>json.Marshal([]struct{}{})\<close>.\<close>

definition queryJSON :: "string \<Rightarrow> raw_message" where
  "queryJSON query = ''{'' @ json_quote ''query'' @ '':'' @ json_quote query @ ''}''"

definition emptyResults :: raw_message where
  "emptyResults = ''[]''"

definition webSearchQuery :: "responses_output \<Rightarrow> string" where
  "webSearchQuery item = (case ro_Action item of None \<Rightarrow> [] | Some a \<Rightarrow> wsa_Query a)"

text \<open>The body of the loop over \<open>resp.Output\<close>: the blocks one item adds.\<close>

definition outputItemBlocks :: "responses_output \<Rightarrow> anthropic_content_block list" where
  "outputItemBlocks item =
     (if ro_Type item = ''reasoning'' then
        (let summaryText = concat (map rs_Text
               (filter (\<lambda>s. rs_Type s = ''summary_text'' \<and> rs_Text s \<noteq> []) (ro_Summary item)))
         in if summaryText \<noteq> [] then
              [zero_block\<lparr>blk_Type := ''thinking'', blk_Thinking := summaryText\<rparr>] else [])
      else if ro_Type item = ''message'' then
        map (\<lambda>part. zero_block\<lparr>blk_Type := ''text'', blk_Text := rcp_Text part\<rparr>)
          (filter (\<lambda>part. rcp_Type part = ''output_text'' \<and> rcp_Text part \<noteq> []) (ro_Content item))
      else if ro_Type item = ''function_call'' then
        [zero_block\<lparr>blk_Type := ''tool_use'', blk_ID := fromResponsesCallID (ro_CallID item),
           blk_Name := ro_Name item,
           blk_Input := sanitizeAnthropicToolUseInput (ro_Name item) (ro_Arguments item)\<rparr>]
      else if ro_Type item = ''web_search_call'' then
        (let toolUseID = ''srvtoolu_'' @ ro_ID item in
         [zero_block\<lparr>blk_Type := ''server_tool_use'', blk_ID := toolUseID, blk_Name := ''web_search'',
            blk_Input := queryJSON (webSearchQuery item)\<rparr>,
          zero_block\<lparr>blk_Type := ''web_search_tool_result'', blk_ToolUseID := toolUseID,
            blk_Content := emptyResults\<rparr>])
      else [])"

definition ResponsesToAnthropic :: "responses_response \<Rightarrow> string \<Rightarrow> anthropic_response" where
  "ResponsesToAnthropic resp model =
     (let blocks0 = concat (map outputItemBlocks (rr_Output resp));
          blocks = (if blocks0 = [] then [zero_block\<lparr>blk_Type := ''text'', blk_Text := []\<rparr>] else blocks0)
      in zero_anthropic_response\<lparr>ar_ID := rr_ID resp, ar_Type := ''message'', ar_Role := ''assistant'',
           ar_Model := model, ar_Content := blocks,
           ar_StopReason :=
             responsesStatusToAnthropicStopReason (rr_Status resp) (rr_IncompleteDetails resp) blocks,
           ar_Usage := (if rr_Usage resp \<noteq> None then anthropicUsageFromResponsesUsage (rr_Usage resp)
                        else zero_anthropic_usage)\<rparr>)"

section \<open>The stream\<close>

record res_to_anth_state =
  ra_MessageStartSent :: bool
  ra_MessageStopSent :: bool
  ra_ContentBlockIndex :: int
  ra_ContentBlockOpen :: bool
  ra_CurrentBlockType :: string
  ra_CurrentToolName :: string
  ra_CurrentToolArgs :: string
  ra_CurrentToolHadDelta :: bool
  ra_HasToolCall :: bool
  ra_OutputIndexToBlockIdx :: "int \<rightharpoonup> int"
  ra_InputTokens :: int
  ra_OutputTokens :: int
  ra_CacheReadInputTokens :: int
  ra_ResponseID :: string
  ra_Model :: string
  ra_Created :: int

definition NewResponsesEventToAnthropicState :: "int \<Rightarrow> res_to_anth_state" where
  "NewResponsesEventToAnthropicState now =
     \<lparr>ra_MessageStartSent = False, ra_MessageStopSent = False, ra_ContentBlockIndex = 0,
      ra_ContentBlockOpen = False, ra_CurrentBlockType = [], ra_CurrentToolName = [],
      ra_CurrentToolArgs = [], ra_CurrentToolHadDelta = False, ra_HasToolCall = False,
      ra_OutputIndexToBlockIdx = Map.empty, ra_InputTokens = 0, ra_OutputTokens = 0,
      ra_CacheReadInputTokens = 0, ra_ResponseID = [], ra_Model = [], ra_Created = now\<rparr>"

type_synonym res_to_anth = "res_to_anth_state \<times> anthropic_stream_event list"

definition blockStart :: "int \<Rightarrow> anthropic_content_block \<Rightarrow> anthropic_stream_event" where
  "blockStart idx b = zero_anthropic_event\<lparr>ae_Type := ''content_block_start'', ae_Index := Some idx,
     ae_ContentBlock := Some b\<rparr>"

definition blockDelta :: "int \<Rightarrow> anthropic_delta \<Rightarrow> anthropic_stream_event" where
  "blockDelta idx d = zero_anthropic_event\<lparr>ae_Type := ''content_block_delta'', ae_Index := Some idx,
     ae_Delta := Some d\<rparr>"

definition blockStop :: "int \<Rightarrow> anthropic_stream_event" where
  "blockStop idx = zero_anthropic_event\<lparr>ae_Type := ''content_block_stop'', ae_Index := Some idx\<rparr>"

definition closeCurrentBlock :: "res_to_anth_state \<Rightarrow> res_to_anth" where
  "closeCurrentBlock st =
     (if \<not> ra_ContentBlockOpen st then (st, [])
      else (st\<lparr>ra_ContentBlockOpen := False, ra_ContentBlockIndex := ra_ContentBlockIndex st + 1,
               ra_CurrentToolName := [], ra_CurrentToolArgs := [], ra_CurrentToolHadDelta := False\<rparr>,
            [blockStop (ra_ContentBlockIndex st)]))"

definition terminalEvents :: "string \<Rightarrow> res_to_anth_state \<Rightarrow> anthropic_stream_event list" where
  "terminalEvents stopReason st =
     [zero_anthropic_event\<lparr>ae_Type := ''message_delta'',
        ae_Delta := Some (zero_anthropic_delta\<lparr>ad_StopReason := stopReason\<rparr>),
        ae_Usage := Some (zero_anthropic_usage\<lparr>au_InputTokens := ra_InputTokens st,
          au_OutputTokens := ra_OutputTokens st,
          au_CacheReadInputTokens := ra_CacheReadInputTokens st\<rparr>)\<rparr>,
      zero_anthropic_event\<lparr>ae_Type := ''message_stop''\<rparr>]"

definition FinalizeResponsesAnthropicStream :: "res_to_anth_state \<Rightarrow> res_to_anth" where
  "FinalizeResponsesAnthropicStream st =
     (if \<not> ra_MessageStartSent st \<or> ra_MessageStopSent st then (st, [])
      else (let (st1, es) = closeCurrentBlock st;
                stopReason = (if ra_HasToolCall st1 then ''tool_use'' else ''end_turn'')
            in (st1\<lparr>ra_MessageStopSent := True\<rparr>, es @ terminalEvents stopReason st1)))"

definition resToAnthHandleCreated :: "responses_stream_event \<Rightarrow> res_to_anth_state \<Rightarrow> res_to_anth" where
  "resToAnthHandleCreated evt st =
     (let st1 = (case re_Response evt of
                   None \<Rightarrow> st
                 | Some r \<Rightarrow> st\<lparr>ra_ResponseID := rr_ID r,
                     ra_Model := (if ra_Model st = [] then rr_Model r else ra_Model st)\<rparr>)
      in if ra_MessageStartSent st1 then (st1, [])
         else (st1\<lparr>ra_MessageStartSent := True\<rparr>,
               [zero_anthropic_event\<lparr>ae_Type := ''message_start'',
                  ae_Message := Some (zero_anthropic_response\<lparr>ar_ID := ra_ResponseID st1,
                    ar_Type := ''message'', ar_Role := ''assistant'', ar_Content := [],
                    ar_Model := ra_Model st1, ar_Usage := zero_anthropic_usage\<rparr>)\<rparr>]))"

definition resToAnthHandleOutputItemAdded ::
    "responses_stream_event \<Rightarrow> res_to_anth_state \<Rightarrow> res_to_anth" where
  "resToAnthHandleOutputItemAdded evt st =
     (case re_Item evt of
        None \<Rightarrow> (st, [])
      | Some item \<Rightarrow>
          if ro_Type item = ''function_call'' \<or> ro_Type item = ''custom_tool_call'' then
            (let (st1, es) = closeCurrentBlock st; idx = ra_ContentBlockIndex st1 in
             (st1\<lparr>ra_OutputIndexToBlockIdx := (ra_OutputIndexToBlockIdx st1)(re_OutputIndex evt \<mapsto> idx),
                  ra_ContentBlockOpen := True, ra_CurrentBlockType := ''tool_use'',
                  ra_CurrentToolName := ro_Name item, ra_CurrentToolArgs := [],
                  ra_CurrentToolHadDelta := False, ra_HasToolCall := True\<rparr>,
              es @ [blockStart idx (zero_block\<lparr>blk_Type := ''tool_use'',
                      blk_ID := fromResponsesCallID (ro_CallID item), blk_Name := ro_Name item,
                      blk_Input := ''{}''\<rparr>)]))
          else if ro_Type item = ''reasoning'' then
            (let (st1, es) = closeCurrentBlock st; idx = ra_ContentBlockIndex st1 in
             (st1\<lparr>ra_OutputIndexToBlockIdx := (ra_OutputIndexToBlockIdx st1)(re_OutputIndex evt \<mapsto> idx),
                  ra_ContentBlockOpen := True, ra_CurrentBlockType := ''thinking''\<rparr>,
              es @ [blockStart idx (zero_block\<lparr>blk_Type := ''thinking'', blk_Thinking := []\<rparr>)]))
          else (st, []))"

definition resToAnthHandleTextDelta :: "responses_stream_event \<Rightarrow> res_to_anth_state \<Rightarrow> res_to_anth" where
  "resToAnthHandleTextDelta evt st =
     (if re_Delta evt = [] then (st, [])
      else (let (st2, es) =
                  (if \<not> ra_ContentBlockOpen st \<or> ra_CurrentBlockType st \<noteq> ''text'' then
                     (let (st1, cs) = closeCurrentBlock st in
                      (st1\<lparr>ra_ContentBlockOpen := True, ra_CurrentBlockType := ''text''\<rparr>,
                       cs @ [blockStart (ra_ContentBlockIndex st1)
                               (zero_block\<lparr>blk_Type := ''text'', blk_Text := []\<rparr>)]))
                   else (st, []))
            in (st2, es @ [blockDelta (ra_ContentBlockIndex st2)
                             (zero_anthropic_delta\<lparr>ad_Type := ''text_delta'', ad_Text := re_Delta evt\<rparr>)])))"

definition resToAnthHandleFuncArgsDelta ::
    "responses_stream_event \<Rightarrow> res_to_anth_state \<Rightarrow> res_to_anth" where
  "resToAnthHandleFuncArgsDelta evt st =
     (if re_Delta evt = [] then (st, [])
      else if ra_CurrentBlockType st = ''tool_use'' \<and> ra_CurrentToolName st = ''Read'' then
        (st\<lparr>ra_CurrentToolArgs := ra_CurrentToolArgs st @ re_Delta evt\<rparr>, [])
      else
        (let st1 = (if ra_CurrentBlockType st = ''tool_use'' then st\<lparr>ra_CurrentToolHadDelta := True\<rparr> else st)
         in case ra_OutputIndexToBlockIdx st1 (re_OutputIndex evt) of
              None \<Rightarrow> (st1, [])
            | Some blockIdx \<Rightarrow>
                (st1, [blockDelta blockIdx (zero_anthropic_delta\<lparr>ad_Type := ''input_json_delta'',
                         ad_PartialJSON := re_Delta evt\<rparr>)])))"

definition resToAnthHandleBlockDone :: "res_to_anth_state \<Rightarrow> res_to_anth" where
  "resToAnthHandleBlockDone st = (if \<not> ra_ContentBlockOpen st then (st, []) else closeCurrentBlock st)"

definition resToAnthHandleFuncArgsDone ::
    "responses_stream_event \<Rightarrow> res_to_anth_state \<Rightarrow> res_to_anth" where
  "resToAnthHandleFuncArgsDone evt st =
     (if ra_CurrentBlockType st \<noteq> ''tool_use'' then resToAnthHandleBlockDone st
      else
        (let raw = (if re_Arguments evt = [] then ra_CurrentToolArgs st else re_Arguments evt) in
         if raw = [] \<or> ra_CurrentToolHadDelta st then closeCurrentBlock st
         else
           (let sanitized = sanitizeAnthropicToolUseInput (ra_CurrentToolName st) raw in
            if ra_CurrentToolName st = ''Read'' \<and> sanitized = [] then closeCurrentBlock st
            else
              (let raw1 = (if ra_CurrentToolName st = ''Read'' then sanitized else raw);
                   (st1, cs) = closeCurrentBlock st
               in (st1, blockDelta (ra_ContentBlockIndex st)
                          (zero_anthropic_delta\<lparr>ad_Type := ''input_json_delta'',
                             ad_PartialJSON := raw1\<rparr>) # cs)))))"

definition resToAnthHandleReasoningDelta ::
    "responses_stream_event \<Rightarrow> res_to_anth_state \<Rightarrow> res_to_anth" where
  "resToAnthHandleReasoningDelta evt st =
     (if re_Delta evt = [] then (st, [])
      else (case ra_OutputIndexToBlockIdx st (re_OutputIndex evt) of
              None \<Rightarrow> (st, [])
            | Some blockIdx \<Rightarrow>
                (st, [blockDelta blockIdx (zero_anthropic_delta\<lparr>ad_Type := ''thinking_delta'',
                        ad_Thinking := re_Delta evt\<rparr>)])))"

definition resToAnthHandleWebSearchDone :: "responses_output \<Rightarrow> res_to_anth_state \<Rightarrow> res_to_anth" where
  "resToAnthHandleWebSearchDone item st =
     (let (st1, es) = closeCurrentBlock st;
          toolUseID = ''srvtoolu_'' @ ro_ID item;
          idx1 = ra_ContentBlockIndex st1;
          st2 = st1\<lparr>ra_ContentBlockIndex := idx1 + 1\<rparr>;
          idx2 = ra_ContentBlockIndex st2;
          st3 = st2\<lparr>ra_ContentBlockIndex := idx2 + 1\<rparr>
      in (st3, es @
            [blockStart idx1 (zero_block\<lparr>blk_Type := ''server_tool_use'', blk_ID := toolUseID,
               blk_Name := ''web_search'', blk_Input := queryJSON (webSearchQuery item)\<rparr>),
             blockStop idx1,
             blockStart idx2 (zero_block\<lparr>blk_Type := ''web_search_tool_result'',
               blk_ToolUseID := toolUseID, blk_Content := emptyResults\<rparr>),
             blockStop idx2]))"

definition resToAnthHandleOutputItemDone ::
    "responses_stream_event \<Rightarrow> res_to_anth_state \<Rightarrow> res_to_anth" where
  "resToAnthHandleOutputItemDone evt st =
     (case re_Item evt of
        None \<Rightarrow> (st, [])
      | Some item \<Rightarrow>
          if ro_Type item = ''web_search_call'' \<and> ro_Status item = ''completed''
          then resToAnthHandleWebSearchDone item st
          else if ra_ContentBlockOpen st then closeCurrentBlock st else (st, []))"

definition setAnthUsage :: "responses_usage option \<Rightarrow> res_to_anth_state \<Rightarrow> res_to_anth_state" where
  "setAnthUsage u st =
     (if u = None then st
      else (let usage = anthropicUsageFromResponsesUsage u in
            st\<lparr>ra_InputTokens := au_InputTokens usage, ra_OutputTokens := au_OutputTokens usage,
               ra_CacheReadInputTokens := au_CacheReadInputTokens usage\<rparr>))"

definition resToAnthHandleCompleted :: "responses_stream_event \<Rightarrow> res_to_anth_state \<Rightarrow> res_to_anth" where
  "resToAnthHandleCompleted evt st =
     (if ra_MessageStopSent st then (st, [])
      else
        (let (st1, es) = closeCurrentBlock st;
             st2 = setAnthUsage (re_Usage evt) st1;
             (st3, stopReason) =
               (case re_Response evt of
                  None \<Rightarrow> (st2, ''end_turn'')
                | Some r \<Rightarrow>
                    (setAnthUsage (rr_Usage r) st2,
                     if rr_Status r = ''incomplete'' then
                       (case rr_IncompleteDetails r of
                          Some d \<Rightarrow> if rid_Reason d = ''max_output_tokens'' then ''max_tokens'' else ''end_turn''
                        | None \<Rightarrow> ''end_turn'')
                     else if rr_Status r = ''completed'' \<and> ra_HasToolCall st2 then ''tool_use''
                     else ''end_turn''))
         in (st3\<lparr>ra_MessageStopSent := True\<rparr>, es @ terminalEvents stopReason st3)))"

definition terminalTypes :: "string list" where
  "terminalTypes = [''response.completed'', ''response.done'', ''response.incomplete'', ''response.failed'']"

definition ResponsesEventToAnthropicEvents ::
    "responses_stream_event \<Rightarrow> res_to_anth_state \<Rightarrow> res_to_anth" where
  "ResponsesEventToAnthropicEvents evt st =
     (let t = re_Type evt in
      if t = ''response.created'' then resToAnthHandleCreated evt st
      else if t = ''response.output_item.added'' then resToAnthHandleOutputItemAdded evt st
      else if t = ''response.output_text.delta'' then resToAnthHandleTextDelta evt st
      else if t = ''response.output_text.done'' then resToAnthHandleBlockDone st
      else if t = ''response.function_call_arguments.delta'' \<or> t = ''response.custom_tool_call_input.delta''
      then resToAnthHandleFuncArgsDelta evt st
      else if t = ''response.function_call_arguments.done'' then resToAnthHandleFuncArgsDone evt st
      else if t = ''response.output_item.done'' then resToAnthHandleOutputItemDone evt st
      else if t = ''response.reasoning_summary_text.delta'' \<or> t = ''response.reasoning_text.delta''
      then resToAnthHandleReasoningDelta evt st
      else if t = ''response.reasoning_summary_text.done'' then resToAnthHandleBlockDone st
      else if t \<in> set terminalTypes then resToAnthHandleCompleted evt st
      else (st, []))"

section \<open>The output protocol\<close>

text \<open>
  The grammar of an Anthropic stream, as far as it constrains blocks and terminal events: one
  \<open>message_start\<close>; blocks numbered 0, 1, 2, ..., each started when no block is open and stopped
  before the next; \<open>message_delta\<close> and \<open>message_stop\<close> with no block open; one \<open>message_stop\<close>.
\<close>

record anth_frame =
  af_started :: bool
  af_stopped :: bool
  af_open :: bool
  af_next :: int

definition anth_frame_step :: "anth_frame \<Rightarrow> anthropic_stream_event \<Rightarrow> anth_frame option" where
  "anth_frame_step m e =
     (if ae_Type e = ''message_start'' then
        (if af_started m then None else Some (m\<lparr>af_started := True\<rparr>))
      else if ae_Type e = ''content_block_start'' then
        (if af_open m \<or> ae_Index e \<noteq> Some (af_next m) then None else Some (m\<lparr>af_open := True\<rparr>))
      else if ae_Type e = ''content_block_stop'' then
        (if \<not> af_open m \<or> ae_Index e \<noteq> Some (af_next m) then None
         else Some (m\<lparr>af_open := False, af_next := af_next m + 1\<rparr>))
      else if ae_Type e = ''content_block_delta'' then Some m
      else if ae_Type e = ''message_delta'' then
        (if af_stopped m \<or> af_open m then None else Some m)
      else if ae_Type e = ''message_stop'' then
        (if af_stopped m \<or> af_open m then None else Some (m\<lparr>af_stopped := True\<rparr>))
      else None)"

definition anth_frame_of :: "res_to_anth_state \<Rightarrow> anth_frame" where
  "anth_frame_of st = \<lparr>af_started = ra_MessageStartSent st, af_stopped = ra_MessageStopSent st,
     af_open = ra_ContentBlockOpen st, af_next = ra_ContentBlockIndex st\<rparr>"

text \<open>One rule per kind of event the converter emits, so that proofs do not compare strings.\<close>

lemma frame_step_simps [converter_simps]:
  "anth_frame_step m (blockStart i b) =
     (if af_open m \<or> i \<noteq> af_next m then None else Some (m\<lparr>af_open := True\<rparr>))"
  "anth_frame_step m (blockDelta i d) = Some m"
  "anth_frame_step m (blockStop i) =
     (if \<not> af_open m \<or> i \<noteq> af_next m then None
      else Some (m\<lparr>af_open := False, af_next := af_next m + 1\<rparr>))"
  by (simp_all add: anth_frame_step_def blockStart_def blockDelta_def blockStop_def)

lemma frame_terminal [converter_simps]:
  "accepts anth_frame_step m (terminalEvents r st) =
     (if af_stopped m \<or> af_open m then None else Some (m\<lparr>af_stopped := True\<rparr>))"
  by (simp add: anth_frame_step_def terminalEvents_def)

definition frame_ok :: "res_to_anth_state \<Rightarrow> res_to_anth \<Rightarrow> bool" where
  "frame_ok st r \<longleftrightarrow> accepts anth_frame_step (anth_frame_of st) (snd r) = Some (anth_frame_of (fst r))"

lemma frame_ok_close: "frame_ok st (closeCurrentBlock st)"
  by (simp add: frame_ok_def closeCurrentBlock_def anth_frame_of_def converter_simps)

lemma close_state [simp]:
  "ra_ContentBlockOpen (fst (closeCurrentBlock st)) = False"
  "ra_MessageStartSent (fst (closeCurrentBlock st)) = ra_MessageStartSent st"
  "ra_MessageStopSent (fst (closeCurrentBlock st)) = ra_MessageStopSent st"
  "ra_OutputIndexToBlockIdx (fst (closeCurrentBlock st)) = ra_OutputIndexToBlockIdx st"
  "ra_CurrentBlockType (fst (closeCurrentBlock st)) = ra_CurrentBlockType st"
  "ra_HasToolCall (fst (closeCurrentBlock st)) = ra_HasToolCall st"
  by (simp_all add: closeCurrentBlock_def)

lemma setAnthUsage_state [simp]:
  "ra_ContentBlockOpen (setAnthUsage u st) = ra_ContentBlockOpen st"
  "ra_ContentBlockIndex (setAnthUsage u st) = ra_ContentBlockIndex st"
  "ra_MessageStartSent (setAnthUsage u st) = ra_MessageStartSent st"
  "ra_MessageStopSent (setAnthUsage u st) = ra_MessageStopSent st"
  by (simp_all add: setAnthUsage_def Let_def)

text \<open>What follows the closing of the current block, in one shape for every handler.\<close>

lemma frame_ok_after_close:
  assumes "accepts anth_frame_step (anth_frame_of (fst (closeCurrentBlock st))) es = Some (anth_frame_of st')"
  shows "frame_ok st (st', snd (closeCurrentBlock st) @ es)"
  using assms frame_ok_close [of st] by (simp add: frame_ok_def accepts_append)

lemma created_frame: "frame_ok st (resToAnthHandleCreated e st)"
  by (auto simp: frame_ok_def resToAnthHandleCreated_def anth_frame_of_def anth_frame_step_def
      split: option.splits)

lemma itemAdded_frame: "frame_ok st (resToAnthHandleOutputItemAdded e st)"
  unfolding resToAnthHandleOutputItemAdded_def
  by (auto simp: Let_def case_prod_beta intro!: frame_ok_after_close split: option.splits)
    (simp_all add: anth_frame_of_def converter_simps frame_ok_def)

lemma textDelta_frame: "frame_ok st (resToAnthHandleTextDelta e st)"
  unfolding resToAnthHandleTextDelta_def
  by (auto simp: Let_def case_prod_beta intro!: frame_ok_after_close)
    (simp_all add: anth_frame_of_def converter_simps frame_ok_def)

lemma argsDelta_frame: "frame_ok st (resToAnthHandleFuncArgsDelta e st)"
  by (simp add: frame_ok_def resToAnthHandleFuncArgsDelta_def Let_def anth_frame_of_def converter_simps
      split: option.splits)

lemma blockDone_frame: "frame_ok st (resToAnthHandleBlockDone st)"
  using frame_ok_close [of st] by (simp add: resToAnthHandleBlockDone_def frame_ok_def)

lemma argsDone_frame: "frame_ok st (resToAnthHandleFuncArgsDone e st)"
  using frame_ok_close [of st] blockDone_frame [of st]
  by (simp add: resToAnthHandleFuncArgsDone_def Let_def case_prod_beta frame_ok_def converter_simps)

lemma reasoningDelta_frame: "frame_ok st (resToAnthHandleReasoningDelta e st)"
  by (simp add: frame_ok_def resToAnthHandleReasoningDelta_def converter_simps split: option.splits)

lemma webSearch_frame: "frame_ok st (resToAnthHandleWebSearchDone item st)"
  unfolding resToAnthHandleWebSearchDone_def
  by (auto simp: Let_def case_prod_beta intro!: frame_ok_after_close)
    (simp add: anth_frame_of_def converter_simps)

lemma itemDone_frame: "frame_ok st (resToAnthHandleOutputItemDone e st)"
  using frame_ok_close [of st] webSearch_frame [of st]
  by (simp add: resToAnthHandleOutputItemDone_def frame_ok_def split: option.splits)

lemma completed_frame: "frame_ok st (resToAnthHandleCompleted e st)"
  unfolding resToAnthHandleCompleted_def
  by (auto simp: Let_def case_prod_beta frame_ok_def intro!: frame_ok_after_close [unfolded frame_ok_def, simplified]
      split: option.splits)
    (simp_all add: anth_frame_of_def converter_simps)

lemma ResponsesEventToAnthropicEvents_frame: "frame_ok st (ResponsesEventToAnthropicEvents e st)"
  by (simp add: ResponsesEventToAnthropicEvents_def Let_def created_frame itemAdded_frame
      textDelta_frame argsDelta_frame blockDone_frame argsDone_frame reasoningDelta_frame
      itemDone_frame completed_frame) (simp add: frame_ok_def)

lemma finalize_frame: "frame_ok st (FinalizeResponsesAnthropicStream st)"
  unfolding FinalizeResponsesAnthropicStream_def
  by (auto simp: Let_def case_prod_beta intro!: frame_ok_after_close)
    (simp_all add: anth_frame_of_def converter_simps frame_ok_def)

definition frame_closed :: "anth_frame \<Rightarrow> bool" where
  "frame_closed m \<longleftrightarrow> \<not> (af_started m \<and> \<not> af_stopped m)"

section \<open>The strict protocol\<close>

text \<open>
  The full grammar a client may rely on: the stream opens with \<open>message_start\<close>, a delta belongs to
  the block that is open and fits its type, and nothing follows \<open>message_stop\<close>.
\<close>

datatype anth_phase = ANone | AIdle int | AOpen int string | AEnding | AEnd

definition delta_fits :: "string \<Rightarrow> anthropic_delta \<Rightarrow> bool" where
  "delta_fits kind d \<longleftrightarrow>
     (kind, ad_Type d) \<in> {(''text'', ''text_delta''), (''thinking'', ''thinking_delta''),
       (''tool_use'', ''input_json_delta'')}"

definition anth_strict_step :: "anth_phase \<Rightarrow> anthropic_stream_event \<Rightarrow> anth_phase option" where
  "anth_strict_step m e =
     (case m of
        ANone \<Rightarrow> if ae_Type e = ''message_start'' then Some (AIdle 0) else None
      | AIdle n \<Rightarrow>
          if ae_Type e = ''content_block_start'' \<and> ae_Index e = Some n
          then map_option (\<lambda>b. AOpen n (blk_Type b)) (ae_ContentBlock e)
          else if ae_Type e = ''message_delta'' then Some AEnding else None
      | AOpen n k \<Rightarrow>
          if ae_Type e = ''content_block_delta'' \<and> ae_Index e = Some n
          then (case ae_Delta e of None \<Rightarrow> None | Some d \<Rightarrow> if delta_fits k d then Some m else None)
          else if ae_Type e = ''content_block_stop'' \<and> ae_Index e = Some n then Some (AIdle (n + 1))
          else None
      | AEnding \<Rightarrow> if ae_Type e = ''message_stop'' then Some AEnd else None
      | AEnd \<Rightarrow> None)"

text \<open>
  What a Responses stream looks like: \<open>response.created\<close>, then output items one after the other,
  each with deltas under its own output index and, for a tool call or a reasoning item, no delta
  after its \<open>.done\<close>, then a terminal event. Event types the converter does not know may come at
  any time.
\<close>

datatype res_phase = PInit | PIdle | PMessage | PTool int bool | PReason int bool | PEnd

definition handledTypes :: "string list" where
  "handledTypes = [''response.created'', ''response.output_item.added'', ''response.output_text.delta'',
     ''response.output_text.done'', ''response.function_call_arguments.delta'',
     ''response.custom_tool_call_input.delta'', ''response.function_call_arguments.done'',
     ''response.output_item.done'', ''response.reasoning_summary_text.delta'',
     ''response.reasoning_text.delta'', ''response.reasoning_summary_text.done''] @ terminalTypes"

definition searchDone :: "responses_output \<Rightarrow> bool" where
  "searchDone item \<longleftrightarrow> ro_Type item = ''web_search_call'' \<and> ro_Status item = ''completed''"

fun res_item_added :: "int \<Rightarrow> responses_output \<Rightarrow> res_phase" where
  "res_item_added oi item =
     (if ro_Type item = ''function_call'' \<or> ro_Type item = ''custom_tool_call'' then PTool oi False
      else if ro_Type item = ''reasoning'' then PReason oi False
      else if ro_Type item = ''message'' then PMessage else PIdle)"

definition res_in_step :: "res_phase \<Rightarrow> responses_stream_event \<Rightarrow> res_phase option" where
  "res_in_step p e =
     (let t = re_Type e; oi = re_OutputIndex e in
      if t \<notin> set handledTypes then Some p
      else if t \<in> set terminalTypes then (if p = PInit then None else Some PEnd)
      else (case p of
        PInit \<Rightarrow> if t = ''response.created'' then Some PIdle else None
      | PIdle \<Rightarrow>
          if t = ''response.output_item.added'' then map_option (res_item_added oi) (re_Item e)
          else if t = ''response.output_item.done'' then Some PIdle else None
      | PMessage \<Rightarrow>
          if t = ''response.output_text.delta'' \<or> t = ''response.output_text.done'' then Some PMessage
          else if t = ''response.output_item.done'' \<and> (\<exists>item. re_Item e = Some item \<and> \<not> searchDone item)
          then Some PIdle else None
      | PTool i fin \<Rightarrow>
          if (t = ''response.function_call_arguments.delta'' \<or> t = ''response.custom_tool_call_input.delta'') \<and>
             oi = i \<and> \<not> fin then Some (PTool i fin)
          else if t = ''response.function_call_arguments.done'' \<and> oi = i \<and> \<not> fin then Some (PTool i True)
          else if t = ''response.output_item.done'' \<and> (\<exists>item. re_Item e = Some item \<and> \<not> searchDone item)
          then Some PIdle else None
      | PReason i fin \<Rightarrow>
          if (t = ''response.reasoning_summary_text.delta'' \<or> t = ''response.reasoning_text.delta'') \<and>
             oi = i \<and> \<not> fin then Some (PReason i fin)
          else if t = ''response.reasoning_summary_text.done'' \<and> oi = i \<and> \<not> fin then Some (PReason i True)
          else if t = ''response.output_item.done'' \<and> (\<exists>item. re_Item e = Some item \<and> \<not> searchDone item)
          then Some PIdle else None
      | PEnd \<Rightarrow> None))"

definition live :: "res_to_anth_state \<Rightarrow> bool" where
  "live st \<longleftrightarrow> ra_MessageStartSent st \<and> \<not> ra_MessageStopSent st"

fun strict_rel :: "res_phase \<Rightarrow> res_to_anth_state \<Rightarrow> anth_phase \<Rightarrow> bool" where
  "strict_rel PInit st m \<longleftrightarrow> m = ANone \<and> \<not> ra_MessageStartSent st \<and> \<not> ra_MessageStopSent st \<and>
     \<not> ra_ContentBlockOpen st \<and> ra_ContentBlockIndex st = 0"
| "strict_rel PIdle st m \<longleftrightarrow> live st \<and> \<not> ra_ContentBlockOpen st \<and> m = AIdle (ra_ContentBlockIndex st)"
| "strict_rel PMessage st m \<longleftrightarrow> live st \<and>
     (if ra_ContentBlockOpen st
      then ra_CurrentBlockType st = ''text'' \<and> m = AOpen (ra_ContentBlockIndex st) ''text''
      else m = AIdle (ra_ContentBlockIndex st))"
| "strict_rel (PTool i fin) st m \<longleftrightarrow> live st \<and> ra_CurrentBlockType st = ''tool_use'' \<and>
     (if fin then \<not> ra_ContentBlockOpen st \<and> m = AIdle (ra_ContentBlockIndex st)
      else ra_ContentBlockOpen st \<and> m = AOpen (ra_ContentBlockIndex st) ''tool_use'' \<and>
        ra_OutputIndexToBlockIdx st i = Some (ra_ContentBlockIndex st))"
| "strict_rel (PReason i fin) st m \<longleftrightarrow> live st \<and> ra_CurrentBlockType st = ''thinking'' \<and>
     (if fin then \<not> ra_ContentBlockOpen st \<and> m = AIdle (ra_ContentBlockIndex st)
      else ra_ContentBlockOpen st \<and> m = AOpen (ra_ContentBlockIndex st) ''thinking'' \<and>
        ra_OutputIndexToBlockIdx st i = Some (ra_ContentBlockIndex st))"
| "strict_rel PEnd st m \<longleftrightarrow> ra_MessageStopSent st \<and> m = AEnd"

lemma strict_step_simps [converter_simps]:
  "anth_strict_step (AIdle n) (blockStart i b) = (if i = n then Some (AOpen n (blk_Type b)) else None)"
  "anth_strict_step (AOpen n k) (blockDelta i d) =
     (if i = n \<and> delta_fits k d then Some (AOpen n k) else None)"
  "anth_strict_step (AOpen n k) (blockStop i) = (if i = n then Some (AIdle (n + 1)) else None)"
  "anth_strict_step (AIdle n) (blockDelta i d) = None"
  by (simp_all add: anth_strict_step_def blockStart_def blockDelta_def blockStop_def)

lemma strict_terminal [converter_simps]:
  "accepts anth_strict_step (AIdle n) (terminalEvents r st) = Some AEnd"
  by (simp add: anth_strict_step_def terminalEvents_def)

lemma delta_fits_simps [converter_simps]:
  "delta_fits ''text'' d \<longleftrightarrow> ad_Type d = ''text_delta''"
  "delta_fits ''thinking'' d \<longleftrightarrow> ad_Type d = ''thinking_delta''"
  "delta_fits ''tool_use'' d \<longleftrightarrow> ad_Type d = ''input_json_delta''"
  by (auto simp: delta_fits_def)

definition strict_ok :: "res_phase \<Rightarrow> anth_phase \<Rightarrow> res_to_anth \<Rightarrow> bool" where
  "strict_ok p m r \<longleftrightarrow>
     (\<exists>m'. accepts anth_strict_step m (snd r) = Some m' \<and> strict_rel p (fst r) m')"

lemma strict_okI:
  "accepts anth_strict_step m es = Some m' \<Longrightarrow> strict_rel p st m' \<Longrightarrow> strict_ok p m (st, es)"
  by (auto simp: strict_ok_def)

lemmas strict_simps = strict_ok_def live_def closeCurrentBlock_def Let_def case_prod_beta

lemma created_strict:
  "strict_rel PInit st m \<Longrightarrow> strict_ok PIdle m (resToAnthHandleCreated e st)"
  by (auto simp: strict_simps resToAnthHandleCreated_def anth_strict_step_def split: option.splits)

lemma itemAdded_strict:
  "strict_rel PIdle st m \<Longrightarrow> re_Item e = Some item \<Longrightarrow>
     strict_ok (res_item_added (re_OutputIndex e) item) m (resToAnthHandleOutputItemAdded e st)"
  by (auto simp: strict_simps resToAnthHandleOutputItemAdded_def converter_simps)

lemma textDelta_strict:
  "strict_rel PMessage st m \<Longrightarrow> strict_ok PMessage m (resToAnthHandleTextDelta e st)"
  by (auto simp: strict_simps resToAnthHandleTextDelta_def converter_simps split: if_splits)

lemma argsDelta_strict:
  "strict_rel (PTool (re_OutputIndex e) False) st m \<Longrightarrow>
     strict_ok (PTool (re_OutputIndex e) False) m (resToAnthHandleFuncArgsDelta e st)"
  by (auto simp: strict_simps resToAnthHandleFuncArgsDelta_def converter_simps)

lemma argsDone_strict:
  "strict_rel (PTool i False) st m \<Longrightarrow> strict_ok (PTool i True) m (resToAnthHandleFuncArgsDone e st)"
  by (auto simp: strict_simps resToAnthHandleFuncArgsDone_def converter_simps)

lemma reasoningDelta_strict:
  "strict_rel (PReason (re_OutputIndex e) False) st m \<Longrightarrow>
     strict_ok (PReason (re_OutputIndex e) False) m (resToAnthHandleReasoningDelta e st)"
  by (auto simp: strict_simps resToAnthHandleReasoningDelta_def converter_simps)

lemma reasoningDone_strict:
  "strict_rel (PReason i False) st m \<Longrightarrow> strict_ok (PReason i True) m (resToAnthHandleBlockDone st)"
  by (auto simp: strict_simps resToAnthHandleBlockDone_def converter_simps)

lemma textDone_strict:
  "strict_rel PMessage st m \<Longrightarrow> strict_ok PMessage m (resToAnthHandleBlockDone st)"
  by (auto simp: strict_simps resToAnthHandleBlockDone_def converter_simps split: if_splits)

lemma itemDone_idle_strict:
  "strict_rel PIdle st m \<Longrightarrow> strict_ok PIdle m (resToAnthHandleOutputItemDone e st)"
  by (auto simp: strict_simps resToAnthHandleOutputItemDone_def resToAnthHandleWebSearchDone_def
      converter_simps split: option.splits)

lemma itemDone_strict:
  "strict_rel p st m \<Longrightarrow> p = PMessage \<or> (\<exists>i f. p = PTool i f \<or> p = PReason i f) \<Longrightarrow>
     re_Item e = Some item \<Longrightarrow> \<not> searchDone item \<Longrightarrow>
     strict_ok PIdle m (resToAnthHandleOutputItemDone e st)"
  by (auto simp: strict_simps resToAnthHandleOutputItemDone_def searchDone_def converter_simps
      split: if_splits)

lemma completed_strict:
  "strict_rel p st m \<Longrightarrow> p \<noteq> PInit \<Longrightarrow> strict_ok PEnd m (resToAnthHandleCompleted e st)"
  by (cases p) (auto simp: strict_simps resToAnthHandleCompleted_def converter_simps
      split: if_splits option.splits)

lemma dispatch_ignored:
  "re_Type e \<notin> set handledTypes \<Longrightarrow> ResponsesEventToAnthropicEvents e st = (st, [])"
  by (simp add: ResponsesEventToAnthropicEvents_def handledTypes_def)

lemma dispatch_terminal:
  "re_Type e \<in> set terminalTypes \<Longrightarrow> ResponsesEventToAnthropicEvents e st = resToAnthHandleCompleted e st"
  by (auto simp: ResponsesEventToAnthropicEvents_def terminalTypes_def)

lemma dispatch_simps:
  "re_Type e = ''response.created'' \<Longrightarrow>
     ResponsesEventToAnthropicEvents e st = resToAnthHandleCreated e st"
  "re_Type e = ''response.output_item.added'' \<Longrightarrow>
     ResponsesEventToAnthropicEvents e st = resToAnthHandleOutputItemAdded e st"
  "re_Type e = ''response.output_text.delta'' \<Longrightarrow>
     ResponsesEventToAnthropicEvents e st = resToAnthHandleTextDelta e st"
  "re_Type e = ''response.output_text.done'' \<Longrightarrow>
     ResponsesEventToAnthropicEvents e st = resToAnthHandleBlockDone st"
  "re_Type e = ''response.function_call_arguments.delta'' \<Longrightarrow>
     ResponsesEventToAnthropicEvents e st = resToAnthHandleFuncArgsDelta e st"
  "re_Type e = ''response.custom_tool_call_input.delta'' \<Longrightarrow>
     ResponsesEventToAnthropicEvents e st = resToAnthHandleFuncArgsDelta e st"
  "re_Type e = ''response.function_call_arguments.done'' \<Longrightarrow>
     ResponsesEventToAnthropicEvents e st = resToAnthHandleFuncArgsDone e st"
  "re_Type e = ''response.output_item.done'' \<Longrightarrow>
     ResponsesEventToAnthropicEvents e st = resToAnthHandleOutputItemDone e st"
  "re_Type e = ''response.reasoning_summary_text.delta'' \<Longrightarrow>
     ResponsesEventToAnthropicEvents e st = resToAnthHandleReasoningDelta e st"
  "re_Type e = ''response.reasoning_text.delta'' \<Longrightarrow>
     ResponsesEventToAnthropicEvents e st = resToAnthHandleReasoningDelta e st"
  "re_Type e = ''response.reasoning_summary_text.done'' \<Longrightarrow>
     ResponsesEventToAnthropicEvents e st = resToAnthHandleBlockDone st"
  by (simp_all add: ResponsesEventToAnthropicEvents_def)

lemma step_strict:
  assumes rel: "strict_rel p st m" and inp: "res_in_step p e = Some p'"
  shows "strict_ok p' m (ResponsesEventToAnthropicEvents e st)"
proof -
  consider (ignored) "re_Type e \<notin> set handledTypes"
    | (terminal) "re_Type e \<in> set handledTypes" "re_Type e \<in> set terminalTypes"
    | (item) "re_Type e \<in> set handledTypes" "re_Type e \<notin> set terminalTypes"
    by blast
  then show ?thesis
  proof cases
    case ignored
    with rel inp show ?thesis by (auto simp: res_in_step_def dispatch_ignored strict_ok_def)
  next
    case terminal
    with rel inp show ?thesis
      by (auto simp: res_in_step_def dispatch_terminal split: if_splits intro: completed_strict)
  next
    case item
    with rel inp show ?thesis
      by (cases p)
        (auto simp: res_in_step_def Let_def dispatch_simps simp del: strict_rel.simps res_item_added.simps
          split: if_splits intro: created_strict itemAdded_strict textDelta_strict argsDelta_strict
            argsDone_strict reasoningDelta_strict reasoningDone_strict textDone_strict
            itemDone_idle_strict itemDone_strict)
  qed
qed

definition phase_closed :: "anth_phase \<Rightarrow> bool" where
  "phase_closed m \<longleftrightarrow> m = ANone \<or> m = AEnd"

lemma finalize_strict:
  assumes "strict_rel p st m"
  shows "\<exists>m'. accepts anth_strict_step m (snd (FinalizeResponsesAnthropicStream st)) = Some m' \<and> phase_closed m'"
  using assms
  by (cases p) (auto simp: FinalizeResponsesAnthropicStream_def strict_simps phase_closed_def
      converter_simps split: if_splits)

section \<open>Interpretations\<close>

interpretation anth_frames: stream_session ResponsesEventToAnthropicEvents "\<lambda>_ _. Some ()"
  anth_frame_step "\<lambda>_ st m. m = anth_frame_of st" FinalizeResponsesAnthropicStream frame_closed
proof unfold_locales
  fix i st m e i'
  assume "m = anth_frame_of st"
  then show "\<exists>m'. accepts anth_frame_step m (snd (ResponsesEventToAnthropicEvents e st)) = Some m' \<and>
      m' = anth_frame_of (fst (ResponsesEventToAnthropicEvents e st))"
    using ResponsesEventToAnthropicEvents_frame [of st e] by (simp add: frame_ok_def)
next
  fix i st m
  assume "m = anth_frame_of st"
  then show "\<exists>m'. accepts anth_frame_step m (snd (FinalizeResponsesAnthropicStream st)) = Some m' \<and>
      frame_closed m'"
    using finalize_frame [of st]
    by (auto simp: frame_ok_def frame_closed_def anth_frame_of_def FinalizeResponsesAnthropicStream_def
        Let_def case_prod_beta)
qed

interpretation anth_strict: stream_session ResponsesEventToAnthropicEvents res_in_step
  anth_strict_step strict_rel FinalizeResponsesAnthropicStream phase_closed
  by unfold_locales (auto dest: step_strict finalize_strict simp: strict_ok_def simp del: strict_rel.simps)

lemma anth_text_simps [content_simps]:
  "anth_text (blockStart i b) = []"
  "anth_text (blockStop i) = []"
  "anth_text (blockDelta i d) = (if ad_Type d = ''text_delta'' then ad_Text d else [])"
  "collect anth_text (terminalEvents r st) = []"
  "collect anth_text (snd (closeCurrentBlock st)) = []"
  by (simp_all add: anth_text_def blockStart_def blockStop_def blockDelta_def terminalEvents_def
      closeCurrentBlock_def)

lemma handlers_text [content_simps]:
  "collect anth_text (snd (resToAnthHandleCreated e st)) = []"
  "collect anth_text (snd (resToAnthHandleOutputItemAdded e st)) = []"
  "collect anth_text (snd (resToAnthHandleTextDelta e st)) = re_Delta e"
  "collect anth_text (snd (resToAnthHandleFuncArgsDelta e st)) = []"
  "collect anth_text (snd (resToAnthHandleFuncArgsDone e st)) = []"
  "collect anth_text (snd (resToAnthHandleReasoningDelta e st)) = []"
  "collect anth_text (snd (resToAnthHandleBlockDone st)) = []"
  "collect anth_text (snd (resToAnthHandleOutputItemDone e st)) = []"
  "collect anth_text (snd (resToAnthHandleCompleted e st)) = []"
  by (auto simp: resToAnthHandleCreated_def resToAnthHandleOutputItemAdded_def
      resToAnthHandleTextDelta_def resToAnthHandleFuncArgsDelta_def resToAnthHandleFuncArgsDone_def
      resToAnthHandleReasoningDelta_def resToAnthHandleBlockDone_def resToAnthHandleOutputItemDone_def
      resToAnthHandleWebSearchDone_def resToAnthHandleCompleted_def Let_def case_prod_beta content_simps split: option.splits)
    (simp_all add: anth_text_def)

interpretation anth_content: stream_content ResponsesEventToAnthropicEvents res_text anth_text
proof unfold_locales
  fix e st
  show "collect anth_text (snd (ResponsesEventToAnthropicEvents e st)) = res_text e"
  proof (cases "re_Type e \<in> set handledTypes")
    case False
    then show ?thesis by (auto simp: dispatch_ignored res_text_def handledTypes_def)
  next
    case True
    then show ?thesis
      by (auto simp: handledTypes_def terminalTypes_def dispatch_simps dispatch_terminal content_simps
          res_text_def)
  qed
qed

section \<open>Properties\<close>

definition anth_session :: "responses_stream_event list \<Rightarrow> int \<Rightarrow> anthropic_stream_event list" where
  "anth_session es now =
     (let r = run_stream ResponsesEventToAnthropicEvents es (NewResponsesEventToAnthropicState now)
      in snd r @ snd (FinalizeResponsesAnthropicStream (fst r)))"

text \<open>Whatever events the upstream sends, in whatever order, the Anthropic stream the converter
  and its finalizer produce is well framed: \<open>message_start\<close> is sent at most once, content blocks
  carry the indices 0, 1, 2, ... and each is stopped before the next starts, \<open>message_delta\<close> and
  \<open>message_stop\<close> come when no block is open and are sent at most once, and once a message was
  started it is also stopped.\<close>

theorem anthropic_stream_framed:
  "\<exists>m. accepts anth_frame_step \<lparr>af_started = False, af_stopped = False, af_open = False, af_next = 0\<rparr>
       (anth_session es now) = Some m \<and> frame_closed m"
proof -
  have "accepts (\<lambda>_ _. Some ()) () es = Some ()" by (induction es) auto
  with anth_frames.session_closed [OF refl this, of "NewResponsesEventToAnthropicState now"]
  show ?thesis by (simp add: anth_session_def Let_def anth_frame_of_def NewResponsesEventToAnthropicState_def)
qed


definition res_event :: "string \<Rightarrow> int \<Rightarrow> string \<Rightarrow> responses_stream_event" where
  "res_event t oi d = zero_responses_event\<lparr>re_Type := t, re_OutputIndex := oi, re_Delta := d\<rparr>"

definition res_item_event :: "string \<Rightarrow> int \<Rightarrow> string \<Rightarrow> string \<Rightarrow> responses_stream_event" where
  "res_item_event t oi kind name =
     (res_event t oi [])\<lparr>re_Item := Some (zero_output\<lparr>ro_Type := kind, ro_Name := name\<rparr>)\<rparr>"

definition sample_res_stream :: "responses_stream_event list" where
  "sample_res_stream =
     [res_event ''response.created'' 0 [],
      res_item_event ''response.output_item.added'' 0 ''reasoning'' [],
      res_event ''response.reasoning_summary_text.delta'' 0 ''hm'',
      res_event ''response.reasoning_summary_text.done'' 0 [],
      res_item_event ''response.output_item.done'' 0 ''reasoning'' [],
      res_item_event ''response.output_item.added'' 1 ''message'' [],
      res_event ''response.output_text.delta'' 1 ''Hi'',
      res_event ''response.output_text.done'' 1 [],
      res_item_event ''response.output_item.done'' 1 ''message'' [],
      res_item_event ''response.output_item.added'' 2 ''function_call'' ''Bash'',
      res_event ''response.function_call_arguments.delta'' 2 ''{}'',
      res_event ''response.function_call_arguments.done'' 2 [],
      res_item_event ''response.output_item.done'' 2 ''function_call'' [],
      res_event ''response.completed'' 0 []]"

lemma sample_res_stream_ok: "accepts res_in_step PInit sample_res_stream = Some PEnd"
  by (simp add: sample_res_stream_def res_in_step_def res_event_def res_item_event_def handledTypes_def
      terminalTypes_def searchDone_def)


text \<open>No assistant text is lost, repeated or reordered on the way: for every upstream stream, the
  texts of the \<open>text_delta\<close> events, joined, are the texts of the \<open>response.output_text.delta\<close> events,
  joined; the finalizer adds none.\<close>

theorem anthropic_stream_text:
  "collect anth_text (anth_session es now) = collect res_text es"
proof -
  have fin: "collect anth_text (snd (FinalizeResponsesAnthropicStream st)) = []" for st
    by (simp add: FinalizeResponsesAnthropicStream_def Let_def case_prod_beta content_simps)
  show ?thesis
    by (simp add: anth_session_def Let_def fin anth_content.run_content)
qed

text \<open>A reasoning item whose summary goes on after \<open>response.reasoning_summary_text.done\<close> (a
  summary of several parts has one such event per part) makes the converter send a
  \<open>content_block_delta\<close> for a block it has already stopped: no client that enforces the Anthropic
  grammar accepts the stream.\<close>

theorem second_summary_part_hits_closed_block:
  assumes "strict_rel (PReason oi False) st m"
    and "re_Type d = ''response.reasoning_summary_text.done''"
    and "re_Type e = ''response.reasoning_summary_text.delta''"
    and "re_OutputIndex e = oi" and "re_Delta e \<noteq> []"
  shows "accepts anth_strict_step m (snd (run_stream ResponsesEventToAnthropicEvents [d, e] st)) = None"
  using assms
  by (simp add: dispatch_simps resToAnthHandleBlockDone_def resToAnthHandleReasoningDelta_def
      closeCurrentBlock_def converter_simps)

definition reasoning_state :: res_to_anth_state where
  "reasoning_state = fst (run_stream ResponsesEventToAnthropicEvents (take 3 sample_res_stream)
     (NewResponsesEventToAnthropicState 0))"

lemma reasoning_state_rel: "strict_rel (PReason 0 False) reasoning_state (AOpen 0 ''thinking'')"
  by (simp add: reasoning_state_def sample_res_stream_def NewResponsesEventToAnthropicState_def
      res_event_def res_item_event_def dispatch_simps resToAnthHandleCreated_def
      resToAnthHandleOutputItemAdded_def resToAnthHandleReasoningDelta_def closeCurrentBlock_def Let_def live_def)

theorem second_summary_part_hits_closed_block_witness:
  "accepts anth_strict_step (AOpen 0 ''thinking'')
     (snd (run_stream ResponsesEventToAnthropicEvents
        [res_event ''response.reasoning_summary_text.done'' 0 [],
         res_event ''response.reasoning_summary_text.delta'' 0 ''more''] reasoning_state)) = None"
  by (rule second_summary_part_hits_closed_block [OF reasoning_state_rel]) (simp_all add: res_event_def)

lemma contains_tool_use_iff:
  "containsAnthropicToolUseBlock bs \<longleftrightarrow> ''tool_use'' \<in> blk_Type ` set bs"
  by (induction bs) auto

lemma outputItemBlocks_tool_use:
  "''tool_use'' \<in> blk_Type ` set (outputItemBlocks item) \<longleftrightarrow> ro_Type item = ''function_call''"
  by (auto simp: outputItemBlocks_def Let_def)

text \<open>The whole-response conversion always yields at least one content block, the identifier of the
  upstream response and the requested model, and it reports \<open>tool_use\<close> exactly when the upstream
  completed and called a function.\<close>

theorem ResponsesToAnthropic_shape:
  "ar_Content (ResponsesToAnthropic resp model) \<noteq> [] \<and>
   ar_ID (ResponsesToAnthropic resp model) = rr_ID resp \<and>
   ar_Model (ResponsesToAnthropic resp model) = model \<and>
   (ar_StopReason (ResponsesToAnthropic resp model) = ''tool_use'' \<longleftrightarrow>
      rr_Status resp = ''completed'' \<and> ''function_call'' \<in> ro_Type ` set (rr_Output resp))"
proof -
  let ?bs = "concat (map outputItemBlocks (rr_Output resp))"
  have tool: "''tool_use'' \<in> blk_Type ` set ?bs \<longleftrightarrow> ''function_call'' \<in> ro_Type ` set (rr_Output resp)"
  proof -
    have "''tool_use'' \<in> blk_Type ` set ?bs \<longleftrightarrow>
        (\<exists>item \<in> set (rr_Output resp). ''tool_use'' \<in> blk_Type ` set (outputItemBlocks item))" by auto
    also have "\<dots> \<longleftrightarrow> (\<exists>item \<in> set (rr_Output resp). ro_Type item = ''function_call'')"
      by (simp only: outputItemBlocks_tool_use)
    finally show ?thesis by (force simp: image_iff)
  qed
  have none: "?bs = [] \<Longrightarrow> ''function_call'' \<notin> ro_Type ` set (rr_Output resp)"
    using tool by (metis empty_iff empty_set image_empty)
  show ?thesis
    using tool none
    by (simp add: ResponsesToAnthropic_def Let_def responsesStatusToAnthropicStopReason_def
        contains_tool_use_iff split: option.splits if_splits)
qed

end
