(* ===== verification/AnthropicResponses.thy ===== *)
theory AnthropicResponses
  imports ApiTypes
begin

text \<open>
  \<open>anthropic_to_responses_response.go\<close>: Anthropic output shown to a client that speaks OpenAI
  Responses, as a whole response (\<open>AnthropicToResponsesResponse\<close>) and as a stream
  (\<open>AnthropicEventToResponsesEvents\<close>, \<open>FinalizeAnthropicResponsesStream\<close>). The source of random
  bytes behind \<open>generateItemID\<close> is the field \<open>rs_Rand\<close> of the stream state and an argument and
  result of the whole-response conversion.
\<close>

section \<open>Whole responses\<close>

definition anthropicStopReasonToResponsesStatus :: "string \<Rightarrow> string" where
  "anthropicStopReasonToResponsesStatus stopReason =
     (if stopReason = ''max_tokens'' then ''incomplete'' else ''completed'')"

text \<open>The loop over \<open>resp.Content\<close>: output items and the text parts kept for the message item.\<close>

fun anthropicContentOutputs :: "anthropic_content_block list \<Rightarrow> rand_source \<Rightarrow>
    responses_output list \<times> responses_content_part list \<times> rand_source" where
  "anthropicContentOutputs [] g = ([], [], g)"
| "anthropicContentOutputs (b # bs) g =
     (if blk_Type b = ''thinking'' \<and> blk_Thinking b \<noteq> [] then
        (let (iid, g1) = generateItemID g; (os, ps, g2) = anthropicContentOutputs bs g1
         in (zero_output\<lparr>ro_Type := ''reasoning'', ro_ID := iid,
               ro_Summary := [\<lparr>rs_Type = ''summary_text'', rs_Text = blk_Thinking b\<rparr>]\<rparr> # os, ps, g2))
      else if blk_Type b = ''text'' \<and> blk_Text b \<noteq> [] then
        (let (os, ps, g1) = anthropicContentOutputs bs g
         in (os, zero_content_part\<lparr>rcp_Type := ''output_text'', rcp_Text := blk_Text b\<rparr> # ps, g1))
      else if blk_Type b = ''tool_use'' then
        (let (iid, g1) = generateItemID g; (os, ps, g2) = anthropicContentOutputs bs g1
         in (zero_output\<lparr>ro_Type := ''function_call'', ro_ID := iid,
               ro_CallID := toResponsesCallID (blk_ID b), ro_Name := blk_Name b,
               ro_Arguments := (if blk_Input b \<noteq> [] then blk_Input b else ''{}''),
               ro_Status := ''completed''\<rparr> # os, ps, g2))
      else anthropicContentOutputs bs g)"

definition AnthropicToResponsesResponse ::
    "anthropic_response \<Rightarrow> rand_source \<Rightarrow> responses_response \<times> rand_source" where
  "AnthropicToResponsesResponse resp g0 =
     (let (rid, g1) = (if ar_ID resp = [] then generateResponsesID g0 else (ar_ID resp, g0));
          (outs, msgParts, g2) = anthropicContentOutputs (ar_Content resp) g1;
          (outs1, g3) =
            (if msgParts \<noteq> [] then
               (let (iid, g) = generateItemID g2 in
                (outs @ [zero_output\<lparr>ro_Type := ''message'', ro_ID := iid, ro_Role := ''assistant'',
                   ro_Content := msgParts, ro_Status := ''completed''\<rparr>], g))
             else (outs, g2));
          (outs2, g4) =
            (if outs1 = [] then
               (let (iid, g) = generateItemID g3 in
                ([zero_output\<lparr>ro_Type := ''message'', ro_ID := iid, ro_Role := ''assistant'',
                    ro_Content := [zero_content_part\<lparr>rcp_Type := ''output_text'', rcp_Text := []\<rparr>],
                    ro_Status := ''completed''\<rparr>], g))
             else (outs1, g3));
          status = anthropicStopReasonToResponsesStatus (ar_StopReason resp);
          u = ar_Usage resp;
          totalInputTokens =
            add64 (add64 (au_InputTokens u) (au_CacheReadInputTokens u)) (au_CacheCreationInputTokens u)
      in (zero_responses_response\<lparr>rr_ID := rid, rr_Object := ''response'', rr_Model := ar_Model resp,
            rr_Output := outs2, rr_Status := status,
            rr_IncompleteDetails :=
              (if status = ''incomplete'' then Some \<lparr>rid_Reason = ''max_output_tokens''\<rparr> else None),
            rr_Usage := Some \<lparr>ru_InputTokens = totalInputTokens, ru_OutputTokens = au_OutputTokens u,
              ru_TotalTokens = add64 totalInputTokens (au_OutputTokens u),
              ru_InputTokensDetails =
                (if au_CacheReadInputTokens u > 0
                 then Some \<lparr>itd_CachedTokens = au_CacheReadInputTokens u, itd_AudioTokens = 0\<rparr> else None),
              ru_OutputTokensDetails = None\<rparr>\<rparr>, g4))"

section \<open>The stream\<close>

record anth_to_res_state =
  rs_ResponseID :: string
  rs_Model :: string
  rs_Created :: int
  rs_SequenceNumber :: int
  rs_CreatedSent :: bool
  rs_CompletedSent :: bool
  rs_OutputIndex :: int
  rs_CurrentItemID :: string
  rs_CurrentItemType :: string
  rs_ContentIndex :: int
  rs_CurrentCallID :: string
  rs_CurrentName :: string
  rs_InputTokens :: int
  rs_OutputTokens :: int
  rs_CacheReadInputTokens :: int
  rs_CacheCreationInputTokens :: int
  rs_Rand :: rand_source

definition NewAnthropicEventToResponsesState :: "int \<Rightarrow> rand_source \<Rightarrow> anth_to_res_state" where
  "NewAnthropicEventToResponsesState now g =
     \<lparr>rs_ResponseID = [], rs_Model = [], rs_Created = now, rs_SequenceNumber = 0, rs_CreatedSent = False,
      rs_CompletedSent = False, rs_OutputIndex = 0, rs_CurrentItemID = [], rs_CurrentItemType = [],
      rs_ContentIndex = 0, rs_CurrentCallID = [], rs_CurrentName = [], rs_InputTokens = 0,
      rs_OutputTokens = 0, rs_CacheReadInputTokens = 0, rs_CacheCreationInputTokens = 0, rs_Rand = g\<rparr>"

type_synonym anth_to_res = "anth_to_res_state \<times> responses_stream_event list"

definition makeResponsesEvent ::
    "string \<Rightarrow> responses_stream_event \<Rightarrow> anth_to_res_state \<Rightarrow> anth_to_res" where
  "makeResponsesEvent eventType template st =
     (st\<lparr>rs_SequenceNumber := rs_SequenceNumber st + 1\<rparr>,
      [template\<lparr>re_Type := eventType, re_SequenceNumber := rs_SequenceNumber st\<rparr>])"

definition makeResponsesCreatedEvent :: "anth_to_res_state \<Rightarrow> anth_to_res" where
  "makeResponsesCreatedEvent st =
     (st\<lparr>rs_SequenceNumber := rs_SequenceNumber st + 1\<rparr>,
      [zero_responses_event\<lparr>re_Type := ''response.created'', re_SequenceNumber := rs_SequenceNumber st,
         re_Response := Some (zero_responses_response\<lparr>rr_ID := rs_ResponseID st, rr_Object := ''response'',
           rr_Model := rs_Model st, rr_Status := ''in_progress'', rr_Output := []\<rparr>)\<rparr>])"

definition makeResponsesCompletedEvent ::
    "string \<Rightarrow> responses_incomplete_details option \<Rightarrow> anth_to_res_state \<Rightarrow> anth_to_res" where
  "makeResponsesCompletedEvent status details st =
     (let totalInputTokens = add64 (add64 (rs_InputTokens st) (rs_CacheReadInputTokens st))
            (rs_CacheCreationInputTokens st)
      in (st\<lparr>rs_SequenceNumber := rs_SequenceNumber st + 1\<rparr>,
          [zero_responses_event\<lparr>re_Type := ''response.completed'',
             re_SequenceNumber := rs_SequenceNumber st,
             re_Response := Some (zero_responses_response\<lparr>rr_ID := rs_ResponseID st,
               rr_Object := ''response'', rr_Model := rs_Model st, rr_Status := status, rr_Output := [],
               rr_Usage := Some \<lparr>ru_InputTokens = totalInputTokens,
                 ru_OutputTokens = rs_OutputTokens st,
                 ru_TotalTokens = add64 totalInputTokens (rs_OutputTokens st),
                 ru_InputTokensDetails =
                   (if rs_CacheReadInputTokens st > 0
                    then Some \<lparr>itd_CachedTokens = rs_CacheReadInputTokens st, itd_AudioTokens = 0\<rparr>
                    else None),
                 ru_OutputTokensDetails = None\<rparr>,
               rr_IncompleteDetails := details\<rparr>)\<rparr>]))"

definition closeCurrentResponsesItem :: "anth_to_res_state \<Rightarrow> anth_to_res" where
  "closeCurrentResponsesItem st =
     (if rs_CurrentItemType st = [] then (st, [])
      else makeResponsesEvent ''response.output_item.done''
             (zero_responses_event\<lparr>re_OutputIndex := rs_OutputIndex st,
                re_Item := Some (zero_output\<lparr>ro_Type := rs_CurrentItemType st,
                  ro_ID := rs_CurrentItemID st, ro_Status := ''completed''\<rparr>)\<rparr>)
             (st\<lparr>rs_CurrentItemType := [], rs_CurrentItemID := [], rs_CurrentCallID := [],
                 rs_CurrentName := [], rs_OutputIndex := rs_OutputIndex st + 1, rs_ContentIndex := 0\<rparr>))"

definition FinalizeAnthropicResponsesStream :: "anth_to_res_state \<Rightarrow> anth_to_res" where
  "FinalizeAnthropicResponsesStream st =
     (if \<not> rs_CreatedSent st \<or> rs_CompletedSent st then (st, [])
      else (let (st1, es) = closeCurrentResponsesItem st;
                (st2, fs) = makeResponsesCompletedEvent ''completed'' None st1
            in (st2\<lparr>rs_CompletedSent := True\<rparr>, es @ fs)))"

definition positiveOr :: "int \<Rightarrow> int \<Rightarrow> int" where
  "positiveOr new old = (if new > 0 then new else old)"

definition anthToResHandleMessageStart ::
    "anthropic_stream_event \<Rightarrow> anth_to_res_state \<Rightarrow> anth_to_res" where
  "anthToResHandleMessageStart evt st =
     (let st1 = (case ae_Message evt of
                   None \<Rightarrow> st
                 | Some m \<Rightarrow> st\<lparr>rs_ResponseID := ar_ID m,
                     rs_Model := (if rs_Model st = [] then ar_Model m else rs_Model st),
                     rs_InputTokens := positiveOr (au_InputTokens (ar_Usage m)) (rs_InputTokens st),
                     rs_CacheReadInputTokens :=
                       positiveOr (au_CacheReadInputTokens (ar_Usage m)) (rs_CacheReadInputTokens st),
                     rs_CacheCreationInputTokens :=
                       positiveOr (au_CacheCreationInputTokens (ar_Usage m))
                         (rs_CacheCreationInputTokens st)\<rparr>)
      in if rs_CreatedSent st1 then (st1, [])
         else makeResponsesCreatedEvent (st1\<lparr>rs_CreatedSent := True\<rparr>))"

definition anthToResHandleContentBlockStart ::
    "anthropic_stream_event \<Rightarrow> anth_to_res_state \<Rightarrow> anth_to_res" where
  "anthToResHandleContentBlockStart evt st =
     (case ae_ContentBlock evt of
        None \<Rightarrow> (st, [])
      | Some b \<Rightarrow>
          if blk_Type b = ''thinking'' then
            (let (iid, g) = generateItemID (rs_Rand st) in
             makeResponsesEvent ''response.output_item.added''
               (zero_responses_event\<lparr>re_OutputIndex := rs_OutputIndex st,
                  re_Item := Some (zero_output\<lparr>ro_Type := ''reasoning'', ro_ID := iid\<rparr>)\<rparr>)
               (st\<lparr>rs_CurrentItemID := iid, rs_CurrentItemType := ''reasoning'', rs_ContentIndex := 0,
                   rs_Rand := g\<rparr>))
          else if blk_Type b = ''text'' then
            (if rs_CurrentItemType st \<noteq> ''message'' then
               (let (iid, g) = generateItemID (rs_Rand st) in
                makeResponsesEvent ''response.output_item.added''
                  (zero_responses_event\<lparr>re_OutputIndex := rs_OutputIndex st,
                     re_Item := Some (zero_output\<lparr>ro_Type := ''message'', ro_ID := iid,
                       ro_Role := ''assistant'', ro_Status := ''in_progress''\<rparr>)\<rparr>)
                  (st\<lparr>rs_CurrentItemID := iid, rs_CurrentItemType := ''message'', rs_ContentIndex := 0,
                      rs_Rand := g\<rparr>))
             else (st, []))
          else if blk_Type b = ''tool_use'' then
            (let (st1, es) = closeCurrentResponsesItem st;
                 (iid, g) = generateItemID (rs_Rand st1);
                 callID = toResponsesCallID (blk_ID b);
                 (st2, fs) =
                   makeResponsesEvent ''response.output_item.added''
                     (zero_responses_event\<lparr>re_OutputIndex := rs_OutputIndex st1,
                        re_Item := Some (zero_output\<lparr>ro_Type := ''function_call'', ro_ID := iid,
                          ro_CallID := callID, ro_Name := blk_Name b, ro_Status := ''in_progress''\<rparr>)\<rparr>)
                     (st1\<lparr>rs_CurrentItemID := iid, rs_CurrentItemType := ''function_call'',
                          rs_CurrentCallID := callID, rs_CurrentName := blk_Name b, rs_Rand := g\<rparr>)
             in (st2, es @ fs))
          else (st, []))"

definition anthToResHandleContentBlockDelta ::
    "anthropic_stream_event \<Rightarrow> anth_to_res_state \<Rightarrow> anth_to_res" where
  "anthToResHandleContentBlockDelta evt st =
     (case ae_Delta evt of
        None \<Rightarrow> (st, [])
      | Some d \<Rightarrow>
          if ad_Type d = ''text_delta'' then
            (if ad_Text d = [] then (st, [])
             else makeResponsesEvent ''response.output_text.delta''
                    (zero_responses_event\<lparr>re_OutputIndex := rs_OutputIndex st,
                       re_ContentIndex := rs_ContentIndex st, re_Delta := ad_Text d,
                       re_ItemID := rs_CurrentItemID st\<rparr>) st)
          else if ad_Type d = ''thinking_delta'' then
            (if ad_Thinking d = [] then (st, [])
             else makeResponsesEvent ''response.reasoning_summary_text.delta''
                    (zero_responses_event\<lparr>re_OutputIndex := rs_OutputIndex st, re_SummaryIndex := 0,
                       re_Delta := ad_Thinking d, re_ItemID := rs_CurrentItemID st\<rparr>) st)
          else if ad_Type d = ''input_json_delta'' then
            (if ad_PartialJSON d = [] then (st, [])
             else makeResponsesEvent ''response.function_call_arguments.delta''
                    (zero_responses_event\<lparr>re_OutputIndex := rs_OutputIndex st,
                       re_Delta := ad_PartialJSON d, re_ItemID := rs_CurrentItemID st,
                       re_CallID := rs_CurrentCallID st, re_Name := rs_CurrentName st\<rparr>) st)
          else (st, []))"

definition anthToResHandleContentBlockStop :: "anth_to_res_state \<Rightarrow> anth_to_res" where
  "anthToResHandleContentBlockStop st =
     (if rs_CurrentItemType st = ''reasoning'' then
        (let (st1, es) = makeResponsesEvent ''response.reasoning_summary_text.done''
               (zero_responses_event\<lparr>re_OutputIndex := rs_OutputIndex st, re_SummaryIndex := 0,
                  re_ItemID := rs_CurrentItemID st\<rparr>) st;
             (st2, fs) = closeCurrentResponsesItem st1
         in (st2, es @ fs))
      else if rs_CurrentItemType st = ''function_call'' then
        (let (st1, es) = makeResponsesEvent ''response.function_call_arguments.done''
               (zero_responses_event\<lparr>re_OutputIndex := rs_OutputIndex st,
                  re_ItemID := rs_CurrentItemID st, re_CallID := rs_CurrentCallID st,
                  re_Name := rs_CurrentName st\<rparr>) st;
             (st2, fs) = closeCurrentResponsesItem st1
         in (st2, es @ fs))
      else if rs_CurrentItemType st = ''message'' then
        makeResponsesEvent ''response.output_text.done''
          (zero_responses_event\<lparr>re_OutputIndex := rs_OutputIndex st,
             re_ContentIndex := rs_ContentIndex st, re_ItemID := rs_CurrentItemID st\<rparr>) st
      else (st, []))"

definition anthToResHandleMessageDelta ::
    "anthropic_stream_event \<Rightarrow> anth_to_res_state \<Rightarrow> anth_to_res" where
  "anthToResHandleMessageDelta evt st =
     (case ae_Usage evt of
        None \<Rightarrow> (st, [])
      | Some u \<Rightarrow>
          (st\<lparr>rs_OutputTokens := au_OutputTokens u,
              rs_InputTokens := positiveOr (au_InputTokens u) (rs_InputTokens st),
              rs_CacheReadInputTokens := positiveOr (au_CacheReadInputTokens u) (rs_CacheReadInputTokens st),
              rs_CacheCreationInputTokens :=
                positiveOr (au_CacheCreationInputTokens u) (rs_CacheCreationInputTokens st)\<rparr>, []))"

definition anthToResHandleMessageStop :: "anth_to_res_state \<Rightarrow> anth_to_res" where
  "anthToResHandleMessageStop st =
     (if rs_CompletedSent st then (st, [])
      else (let (st1, es) = closeCurrentResponsesItem st;
                (st2, fs) = makeResponsesCompletedEvent ''completed'' None st1
            in (st2\<lparr>rs_CompletedSent := True\<rparr>, es @ fs)))"

definition AnthropicEventToResponsesEvents ::
    "anthropic_stream_event \<Rightarrow> anth_to_res_state \<Rightarrow> anth_to_res" where
  "AnthropicEventToResponsesEvents evt st =
     (let t = ae_Type evt in
      if t = ''message_start'' then anthToResHandleMessageStart evt st
      else if t = ''content_block_start'' then anthToResHandleContentBlockStart evt st
      else if t = ''content_block_delta'' then anthToResHandleContentBlockDelta evt st
      else if t = ''content_block_stop'' then anthToResHandleContentBlockStop st
      else if t = ''message_delta'' then anthToResHandleMessageDelta evt st
      else if t = ''message_stop'' then anthToResHandleMessageStop st
      else (st, []))"

lemma anth_dispatch:
  "ae_Type e = ''message_start'' \<Longrightarrow>
     AnthropicEventToResponsesEvents e st = anthToResHandleMessageStart e st"
  "ae_Type e = ''content_block_start'' \<Longrightarrow>
     AnthropicEventToResponsesEvents e st = anthToResHandleContentBlockStart e st"
  "ae_Type e = ''content_block_delta'' \<Longrightarrow>
     AnthropicEventToResponsesEvents e st = anthToResHandleContentBlockDelta e st"
  "ae_Type e = ''content_block_stop'' \<Longrightarrow>
     AnthropicEventToResponsesEvents e st = anthToResHandleContentBlockStop st"
  "ae_Type e = ''message_delta'' \<Longrightarrow>
     AnthropicEventToResponsesEvents e st = anthToResHandleMessageDelta e st"
  "ae_Type e = ''message_stop'' \<Longrightarrow>
     AnthropicEventToResponsesEvents e st = anthToResHandleMessageStop st"
  by (simp_all add: AnthropicEventToResponsesEvents_def)

definition anthTypes :: "string list" where
  "anthTypes = [''message_start'', ''content_block_start'', ''content_block_delta'',
     ''content_block_stop'', ''message_delta'', ''message_stop'']"

lemma anth_dispatch_ignored:
  "ae_Type e \<notin> set anthTypes \<Longrightarrow> AnthropicEventToResponsesEvents e st = (st, [])"
  by (simp add: AnthropicEventToResponsesEvents_def anthTypes_def)

section \<open>Sequence numbers and text\<close>

lemmas make_defs = makeResponsesEvent_def makeResponsesCreatedEvent_def makeResponsesCompletedEvent_def
  closeCurrentResponsesItem_def

lemmas anth_res_defs =
  anthToResHandleMessageStart_def anthToResHandleContentBlockStart_def
  anthToResHandleContentBlockDelta_def anthToResHandleContentBlockStop_def
  anthToResHandleMessageDelta_def anthToResHandleMessageStop_def

text \<open>A result that numbers its events consecutively from the state's sequence number.\<close>

definition seq_ok :: "anth_to_res_state \<Rightarrow> anth_to_res \<Rightarrow> bool" where
  "seq_ok st r \<longleftrightarrow> rs_SequenceNumber st \<le> rs_SequenceNumber (fst r) \<and>
     map re_SequenceNumber (snd r) = [rs_SequenceNumber st..rs_SequenceNumber (fst r) - 1]"

lemma upto_pair [simp]: "[i..i + 1] = [i, i + (1::int)]" "[i..1 + i] = [i, i + (1::int)]"
  by (simp_all add: upto.simps)

lemma handlers_seq:
  "seq_ok st (anthToResHandleMessageStart e st)"
  "seq_ok st (anthToResHandleContentBlockStart e st)"
  "seq_ok st (anthToResHandleContentBlockDelta e st)"
  "seq_ok st (anthToResHandleContentBlockStop st)"
  "seq_ok st (anthToResHandleMessageDelta e st)"
  "seq_ok st (anthToResHandleMessageStop st)"
  by (simp_all add: seq_ok_def anth_res_defs make_defs Let_def case_prod_beta split: option.splits)

lemma step_seq: "seq_ok st (AnthropicEventToResponsesEvents e st)"
  by (simp add: AnthropicEventToResponsesEvents_def Let_def handlers_seq) (simp add: seq_ok_def)

lemma finalize_seq: "seq_ok st (FinalizeAnthropicResponsesStream st)"
  by (simp add: seq_ok_def FinalizeAnthropicResponsesStream_def make_defs Let_def case_prod_beta)

interpretation anth_res_seq: stream_seq AnthropicEventToResponsesEvents rs_SequenceNumber re_SequenceNumber
  using step_seq by unfold_locales (simp_all add: seq_ok_def)

lemma handlers_res_text [content_simps]:
  "collect res_text (snd (anthToResHandleMessageStart e st)) = []"
  "collect res_text (snd (anthToResHandleContentBlockStart e st)) = []"
  "collect res_text (snd (anthToResHandleContentBlockDelta e st)) =
     (case ae_Delta e of Some d \<Rightarrow> if ad_Type d = ''text_delta'' then ad_Text d else [] | None \<Rightarrow> [])"
  "collect res_text (snd (anthToResHandleContentBlockStop st)) = []"
  "collect res_text (snd (anthToResHandleMessageDelta e st)) = []"
  "collect res_text (snd (anthToResHandleMessageStop st)) = []"
  "collect res_text (snd (FinalizeAnthropicResponsesStream st)) = []"
  by (simp_all add: anth_res_defs FinalizeAnthropicResponsesStream_def make_defs res_text_def Let_def
      case_prod_beta split: option.splits)

interpretation anth_res_content: stream_content AnthropicEventToResponsesEvents anth_text res_text
proof unfold_locales
  fix e st
  show "collect res_text (snd (AnthropicEventToResponsesEvents e st)) = anth_text e"
    by (cases "ae_Type e \<in> set anthTypes")
      (auto simp: anthTypes_def anth_dispatch anth_dispatch_ignored content_simps anth_text_def)
qed

section \<open>The item protocol\<close>

text \<open>
  What a Responses client relies on: \<open>response.created\<close> first; each output item is announced by
  \<open>output_item.added\<close> under the next output index, receives only events of its own kind with its
  index and item id, and is closed by its \<open>output_item.done\<close> before the next one is announced;
  \<open>response.completed\<close> comes last, with no item open.
\<close>

datatype item_mode =
    NotCreated
  | Between int
  | InItem int string string
  | AllDone

definition item_event_type :: "string \<Rightarrow> string list" where
  "item_event_type t =
     (if t = ''message'' then [''response.output_text.delta'', ''response.output_text.done'']
      else if t = ''reasoning'' then
        [''response.reasoning_summary_text.delta'', ''response.reasoning_summary_text.done'']
      else if t = ''function_call'' then
        [''response.function_call_arguments.delta'', ''response.function_call_arguments.done'']
      else [])"

fun item_proto :: "item_mode \<Rightarrow> responses_stream_event \<Rightarrow> item_mode option" where
  "item_proto NotCreated e = (if re_Type e = ''response.created'' then Some (Between 0) else None)"
| "item_proto (Between n) e =
     (if re_Type e = ''response.output_item.added'' \<and> re_OutputIndex e = n then
        (case re_Item e of None \<Rightarrow> None | Some it \<Rightarrow> Some (InItem n (ro_ID it) (ro_Type it)))
      else if re_Type e = ''response.completed'' then Some AllDone
      else None)"
| "item_proto (InItem n i t) e =
     (if re_Type e = ''response.output_item.done'' then
        (case re_Item e of None \<Rightarrow> None
         | Some it \<Rightarrow> if re_OutputIndex e = n \<and> ro_ID it = i \<and> ro_Type it = t
                      then Some (Between (n + 1)) else None)
      else if re_Type e \<in> set (item_event_type t) \<and> re_OutputIndex e = n \<and> re_ItemID e = i
      then Some (InItem n i t)
      else None)"
| "item_proto AllDone e = None"

text \<open>
  The Anthropic streams the converter is written for: one block at a time, a \<open>thinking\<close> block only
  while no message item is open (after a \<open>text\<close> block the message item stays open for more text).
\<close>

datatype anth_in =
    QInit
  | QIdle
  | QMsg
  | QText
  | QThink
  | QTool
  | QEnd

definition block_type :: "anthropic_stream_event \<Rightarrow> string" where
  "block_type e = (case ae_ContentBlock e of None \<Rightarrow> [] | Some b \<Rightarrow> blk_Type b)"

definition delta_type :: "anthropic_stream_event \<Rightarrow> string" where
  "delta_type e = (case ae_Delta e of None \<Rightarrow> [] | Some d \<Rightarrow> ad_Type d)"

definition anth_block_start :: "bool \<Rightarrow> string \<Rightarrow> anth_in option" where
  "anth_block_start inMsg t =
     (if t = ''text'' then Some QText
      else if t = ''tool_use'' then Some QTool
      else if t = ''thinking'' \<and> \<not> inMsg then Some QThink
      else None)"

fun anth_in_step :: "anth_in \<Rightarrow> anthropic_stream_event \<Rightarrow> anth_in option" where
  "anth_in_step QInit e = (if ae_Type e = ''message_start'' then Some QIdle else None)"
| "anth_in_step QIdle e =
     (if ae_Type e = ''content_block_start'' then anth_block_start False (block_type e)
      else if ae_Type e = ''message_delta'' then Some QIdle
      else if ae_Type e = ''message_stop'' then Some QEnd
      else if ae_Type e = ''ping'' then Some QIdle
      else None)"
| "anth_in_step QMsg e =
     (if ae_Type e = ''content_block_start'' then anth_block_start True (block_type e)
      else if ae_Type e = ''message_delta'' then Some QMsg
      else if ae_Type e = ''message_stop'' then Some QEnd
      else if ae_Type e = ''ping'' then Some QMsg
      else None)"
| "anth_in_step QText e =
     (if ae_Type e = ''content_block_delta'' \<and> delta_type e = ''text_delta'' then Some QText
      else if ae_Type e = ''content_block_stop'' then Some QMsg
      else if ae_Type e = ''ping'' then Some QText
      else None)"
| "anth_in_step QThink e =
     (if ae_Type e = ''content_block_delta'' \<and>
         (delta_type e = ''thinking_delta'' \<or> delta_type e = ''signature_delta'') then Some QThink
      else if ae_Type e = ''content_block_stop'' then Some QIdle
      else if ae_Type e = ''ping'' then Some QThink
      else None)"
| "anth_in_step QTool e =
     (if ae_Type e = ''content_block_delta'' \<and> delta_type e = ''input_json_delta'' then Some QTool
      else if ae_Type e = ''content_block_stop'' then Some QIdle
      else if ae_Type e = ''ping'' then Some QTool
      else None)"
| "anth_in_step QEnd e = None"

definition res_live :: "anth_to_res_state \<Rightarrow> bool" where
  "res_live st \<longleftrightarrow> rs_CreatedSent st \<and> \<not> rs_CompletedSent st"

definition in_item :: "string \<Rightarrow> anth_to_res_state \<Rightarrow> item_mode \<Rightarrow> bool" where
  "in_item t st m \<longleftrightarrow> res_live st \<and> rs_CurrentItemType st = t \<and>
     m = InItem (rs_OutputIndex st) (rs_CurrentItemID st) t"

fun item_rel :: "anth_in \<Rightarrow> anth_to_res_state \<Rightarrow> item_mode \<Rightarrow> bool" where
  "item_rel QInit st m \<longleftrightarrow> m = NotCreated \<and> \<not> rs_CreatedSent st \<and> \<not> rs_CompletedSent st \<and>
     rs_CurrentItemType st = [] \<and> rs_OutputIndex st = 0"
| "item_rel QIdle st m \<longleftrightarrow> res_live st \<and> rs_CurrentItemType st = [] \<and> m = Between (rs_OutputIndex st)"
| "item_rel QMsg st m \<longleftrightarrow> in_item ''message'' st m"
| "item_rel QText st m \<longleftrightarrow> in_item ''message'' st m"
| "item_rel QThink st m \<longleftrightarrow> in_item ''reasoning'' st m"
| "item_rel QTool st m \<longleftrightarrow> in_item ''function_call'' st m"
| "item_rel QEnd st m \<longleftrightarrow> m = AllDone \<and> rs_CompletedSent st"

definition item_ok :: "anth_in \<Rightarrow> item_mode \<Rightarrow> anth_to_res \<Rightarrow> bool" where
  "item_ok q m r \<longleftrightarrow> (\<exists>m'. accepts item_proto m (snd r) = Some m' \<and> item_rel q (fst r) m')"

lemma item_ok_None [simp]: "item_ok q m (st, []) \<longleftrightarrow> item_rel q st m"
  by (simp add: item_ok_def)

lemmas item_simps = item_ok_def in_item_def res_live_def make_defs item_event_type_def Let_def case_prod_beta

lemma message_start_item:
  "item_rel QInit st m \<Longrightarrow> item_ok QIdle m (anthToResHandleMessageStart e st)"
  by (auto simp: anthToResHandleMessageStart_def item_simps split: option.splits)

lemma idle_start_item:
  "item_rel QIdle st m \<Longrightarrow> anth_block_start False (block_type e) = Some q \<Longrightarrow>
   item_ok q m (anthToResHandleContentBlockStart e st)"
  by (auto simp: anth_block_start_def block_type_def anthToResHandleContentBlockStart_def item_simps
      split: option.splits if_splits)

lemma msg_start_item:
  "item_rel QMsg st m \<Longrightarrow> anth_block_start True (block_type e) = Some q \<Longrightarrow>
   item_ok q m (anthToResHandleContentBlockStart e st)"
  by (auto simp: anth_block_start_def block_type_def anthToResHandleContentBlockStart_def item_simps
      split: option.splits if_splits)

lemma delta_item:
  "item_rel QText st m \<Longrightarrow> delta_type e = ''text_delta'' \<Longrightarrow>
     item_ok QText m (anthToResHandleContentBlockDelta e st)"
  "item_rel QThink st m \<Longrightarrow> delta_type e = ''thinking_delta'' \<Longrightarrow>
     item_ok QThink m (anthToResHandleContentBlockDelta e st)"
  "item_rel QThink st m \<Longrightarrow> delta_type e = ''signature_delta'' \<Longrightarrow>
     item_ok QThink m (anthToResHandleContentBlockDelta e st)"
  "item_rel QTool st m \<Longrightarrow> delta_type e = ''input_json_delta'' \<Longrightarrow>
     item_ok QTool m (anthToResHandleContentBlockDelta e st)"
  by (auto simp: delta_type_def anthToResHandleContentBlockDelta_def item_simps split: option.splits)

lemma stop_item:
  "item_rel QText st m \<Longrightarrow> item_ok QMsg m (anthToResHandleContentBlockStop st)"
  "item_rel QThink st m \<Longrightarrow> item_ok QIdle m (anthToResHandleContentBlockStop st)"
  "item_rel QTool st m \<Longrightarrow> item_ok QIdle m (anthToResHandleContentBlockStop st)"
  by (auto simp: anthToResHandleContentBlockStop_def item_simps)

lemma message_delta_item:
  "item_rel QIdle st m \<Longrightarrow> item_ok QIdle m (anthToResHandleMessageDelta e st)"
  "item_rel QMsg st m \<Longrightarrow> item_ok QMsg m (anthToResHandleMessageDelta e st)"
  by (auto simp: anthToResHandleMessageDelta_def item_simps split: option.splits)

lemma message_stop_item:
  "item_rel QIdle st m \<Longrightarrow> item_ok QEnd m (anthToResHandleMessageStop st)"
  "item_rel QMsg st m \<Longrightarrow> item_ok QEnd m (anthToResHandleMessageStop st)"
  by (auto simp: anthToResHandleMessageStop_def item_simps)

lemma ping_ignored: "ae_Type e = ''ping'' \<Longrightarrow> AnthropicEventToResponsesEvents e st = (st, [])"
  by (rule anth_dispatch_ignored) (simp add: anthTypes_def)

lemmas item_handlers = message_start_item idle_start_item msg_start_item delta_item stop_item
  message_delta_item message_stop_item

lemma step_item:
  assumes "item_rel q st m" and "anth_in_step q e = Some q'"
  shows "item_ok q' m (AnthropicEventToResponsesEvents e st)"
proof (cases q)
  case QInit
  then show ?thesis using assms by (auto simp: anth_dispatch item_handlers split: if_splits)
next
  case QIdle
  then show ?thesis using assms
    by (auto simp: anth_dispatch ping_ignored item_handlers simp del: item_rel.simps split: if_splits)
next
  case QMsg
  then show ?thesis using assms
    by (auto simp: anth_dispatch ping_ignored item_handlers simp del: item_rel.simps split: if_splits)
next
  case QText
  then show ?thesis using assms
    by (auto simp: anth_dispatch ping_ignored item_handlers simp del: item_rel.simps split: if_splits)
next
  case QThink
  then show ?thesis using assms
    by (auto simp: anth_dispatch ping_ignored item_handlers simp del: item_rel.simps split: if_splits)
next
  case QTool
  then show ?thesis using assms
    by (auto simp: anth_dispatch ping_ignored item_handlers simp del: item_rel.simps split: if_splits)
next
  case QEnd
  then show ?thesis using assms by simp
qed

definition item_closed :: "item_mode \<Rightarrow> bool" where
  "item_closed m \<longleftrightarrow> m = NotCreated \<or> m = AllDone"

lemma finalize_item:
  "item_rel q st m \<Longrightarrow>
   \<exists>m'. accepts item_proto m (snd (FinalizeAnthropicResponsesStream st)) = Some m' \<and> item_closed m'"
  by (cases q) (auto simp: FinalizeAnthropicResponsesStream_def item_closed_def item_simps)

interpretation anth_res_items: stream_session AnthropicEventToResponsesEvents anth_in_step item_proto
  item_rel FinalizeAnthropicResponsesStream item_closed
  by unfold_locales (auto dest: step_item simp: item_ok_def finalize_item simp del: item_rel.simps)

section \<open>Properties\<close>


definition anth_event :: "string \<Rightarrow> anthropic_stream_event" where
  "anth_event t = zero_anthropic_event\<lparr>ae_Type := t\<rparr>"

definition anth_start_event :: "string \<Rightarrow> anthropic_stream_event" where
  "anth_start_event t = (anth_event ''content_block_start'')
     \<lparr>ae_ContentBlock := Some (zero_block\<lparr>blk_Type := t\<rparr>)\<rparr>"

definition anth_text_event :: "string \<Rightarrow> anthropic_stream_event" where
  "anth_text_event t = (anth_event ''content_block_delta'')
     \<lparr>ae_Delta := Some (zero_anthropic_delta\<lparr>ad_Type := ''text_delta'', ad_Text := t\<rparr>)\<rparr>"

definition cut_stream :: "anthropic_stream_event list" where
  "cut_stream = [anth_event ''message_start'', anth_start_event ''thinking'',
     anth_event ''content_block_stop'', anth_start_event ''text'', anth_text_event ''hello'']"


text \<open>
  Whatever the upstream sends, the events of a stream, those of the finalizer included, carry
  the sequence numbers 0, 1, 2, ... without gap or repetition.
\<close>

theorem responses_stream_numbered:
  "let (st, os) = run_stream AnthropicEventToResponsesEvents es (NewAnthropicEventToResponsesState now g);
       (st', os') = FinalizeAnthropicResponsesStream st
   in map re_SequenceNumber (os @ os') = [0..int (length (os @ os')) - 1]"
proof -
  let ?s0 = "NewAnthropicEventToResponsesState now g"
  let ?r = "run_stream AnthropicEventToResponsesEvents es ?s0"
  let ?f = "FinalizeAnthropicResponsesStream (fst ?r)"
  have fin: "rs_SequenceNumber (fst ?r) \<le> rs_SequenceNumber (fst ?f)"
    "map re_SequenceNumber (snd ?f) = [rs_SequenceNumber (fst ?r)..rs_SequenceNumber (fst ?f) - 1]"
    using finalize_seq [of "fst ?r"] by (simp_all add: seq_ok_def)
  have s0: "rs_SequenceNumber ?s0 = 0" by (simp add: NewAnthropicEventToResponsesState_def)
  have le: "0 \<le> rs_SequenceNumber (fst ?r)" using anth_res_seq.run_le [of ?s0 es] s0 by simp
  have nums: "map re_SequenceNumber (snd ?r @ snd ?f) = [0..rs_SequenceNumber (fst ?f) - 1]"
    using upto_append [OF le fin(1)] by (simp add: anth_res_seq.run_no fin(2) s0)
  from numbered_length [OF this] show ?thesis by (simp add: case_prod_beta)
qed

text \<open>
  The text a Responses client receives is the text the Anthropic stream carried: the
  \<open>output_text.delta\<close> payloads concatenate to the \<open>text_delta\<close> payloads, for every stream.
\<close>

theorem responses_stream_text:
  "let (st, os) = run_stream AnthropicEventToResponsesEvents es (NewAnthropicEventToResponsesState now g);
       (st', os') = FinalizeAnthropicResponsesStream st
   in collect res_text (os @ os') = collect anth_text es"
  by (simp add: case_prod_beta anth_res_content.run_content handlers_res_text)

text \<open>
  A \<open>thinking\<close> block that follows a \<open>text\<close> block breaks the item protocol: while the message
  item is still open, the reasoning item is announced under the message item's output index, and
  the message item is forgotten, so that no later event closes it.
\<close>

theorem thinking_after_text_breaks_items:
  assumes "item_rel QMsg st m" and "ae_Type e = ''content_block_start''"
    and "ae_ContentBlock e = Some b" and "blk_Type b = ''thinking''"
  shows "accepts item_proto m (snd (AnthropicEventToResponsesEvents e st)) = None \<and>
    map re_OutputIndex (snd (AnthropicEventToResponsesEvents e st)) = [rs_OutputIndex st] \<and>
    rs_CurrentItemID (fst (AnthropicEventToResponsesEvents e st)) = fst (generateItemID (rs_Rand st)) \<and>
    rs_OutputIndex (fst (AnthropicEventToResponsesEvents e st)) = rs_OutputIndex st"
  using assms
  by (simp add: anth_dispatch anthToResHandleContentBlockStart_def in_item_def makeResponsesEvent_def
      item_event_type_def Let_def case_prod_beta)

definition open_message :: anth_to_res_state where
  "open_message = (NewAnthropicEventToResponsesState 0 ((\<lambda>n. [chr n]), 1))
     \<lparr>rs_CreatedSent := True, rs_CurrentItemType := ''message'', rs_CurrentItemID := ''item_00''\<rparr>"

lemma thinking_after_text_breaks_items_witness:
  "accepts item_proto (InItem 0 ''item_00'' ''message'')
     (snd (AnthropicEventToResponsesEvents (anth_start_event ''thinking'') open_message)) = None"
proof -
  have "item_rel QMsg open_message (InItem 0 ''item_00'' ''message'')"
    by (simp add: open_message_def in_item_def res_live_def NewAnthropicEventToResponsesState_def)
  moreover have "ae_Type (anth_start_event ''thinking'') = ''content_block_start''"
    "ae_ContentBlock (anth_start_event ''thinking'') = Some (zero_block\<lparr>blk_Type := ''thinking''\<rparr>)"
    by (simp_all add: anth_start_event_def anth_event_def)
  ultimately show ?thesis
    by (rule thinking_after_text_breaks_items [THEN conjunct1]) simp
qed

definition event_status :: "responses_stream_event \<Rightarrow> string list" where
  "event_status e = (case re_Response e of None \<Rightarrow> [] | Some r \<Rightarrow> [rr_Status r])"

lemma handlers_status [content_simps]:
  "''incomplete'' \<notin> set (collect event_status (snd (anthToResHandleMessageStart e st)))"
  "collect event_status (snd (anthToResHandleContentBlockStart e st)) = []"
  "collect event_status (snd (anthToResHandleContentBlockDelta e st)) = []"
  "collect event_status (snd (anthToResHandleContentBlockStop st)) = []"
  "collect event_status (snd (anthToResHandleMessageDelta e st)) = []"
  "''incomplete'' \<notin> set (collect event_status (snd (anthToResHandleMessageStop st)))"
  "''incomplete'' \<notin> set (collect event_status (snd (FinalizeAnthropicResponsesStream st)))"
  by (simp_all add: anth_res_defs FinalizeAnthropicResponsesStream_def make_defs event_status_def Let_def
      case_prod_beta split: option.splits)

lemma run_status:
  "''incomplete'' \<notin> set (collect event_status (snd (run_stream AnthropicEventToResponsesEvents es st)))"
proof (induction es arbitrary: st)
  case (Cons e es)
  have "''incomplete'' \<notin> set (collect event_status (snd (AnthropicEventToResponsesEvents e st)))"
    by (simp add: AnthropicEventToResponsesEvents_def Let_def handlers_status)
  with Cons.IH show ?case by simp
qed simp

text \<open>
  The stream never reports a truncated answer: no event of any stream has the status
  \<open>incomplete\<close>, although the same answer converted as a whole is \<open>incomplete\<close> exactly when
  Anthropic stopped it at \<open>max_tokens\<close>.
\<close>

theorem stream_never_incomplete:
  "let (st, os) = run_stream AnthropicEventToResponsesEvents es (NewAnthropicEventToResponsesState now g);
       (st', os') = FinalizeAnthropicResponsesStream st
   in ''incomplete'' \<notin> set (collect event_status (os @ os')) \<and>
      (rr_Status (fst (AnthropicToResponsesResponse resp g)) = ''incomplete'' \<longleftrightarrow>
       ar_StopReason resp = ''max_tokens'')"
  by (simp add: case_prod_beta run_status handlers_status AnthropicToResponsesResponse_def
      anthropicStopReasonToResponsesStatus_def Let_def)

end
