(* ===== verification/ResponsesChat.thy ===== *)
theory ResponsesChat
  imports ApiTypes
begin

text \<open>
  \<open>responses_to_chatcompletions.go\<close>: OpenAI Responses output shown to a Chat Completions client, as
  a whole response (\<open>ResponsesToChatCompletions\<close>), as a stream (\<open>ResponsesEventToChatChunks\<close>,
  \<open>FinalizeResponsesChatStream\<close>), and through the \<open>BufferedResponseAccumulator\<close> that rebuilds a
  response from stream events. The clock is an argument (\<open>now\<close>), the random bytes an argument and
  a result. The main theorem says that the streaming and the buffered path agree.
\<close>

section \<open>Whole responses\<close>

definition responsesStatusToChatFinishReason ::
    "string \<Rightarrow> responses_incomplete_details option \<Rightarrow> chat_tool_call list \<Rightarrow> string" where
  "responsesStatusToChatFinishReason status details toolCalls =
     (if status = ''incomplete'' then
        (case details of
           Some d \<Rightarrow> if rid_Reason d = ''max_output_tokens'' then ''length'' else ''stop''
         | None \<Rightarrow> ''stop'')
      else if status = ''completed'' then
        (if toolCalls \<noteq> [] then ''tool_calls'' else ''stop'')
      else ''stop'')"

definition promptDetailsFromResponses ::
    "responses_input_tokens_details option \<Rightarrow> chat_token_details option" where
  "promptDetailsFromResponses src =
     (case src of
        None \<Rightarrow> None
      | Some s \<Rightarrow>
          if itd_CachedTokens s = 0 \<and> itd_AudioTokens s = 0 then None
          else Some (zero_token_details\<lparr>ctd_CachedTokens := itd_CachedTokens s,
                 ctd_AudioTokens := itd_AudioTokens s\<rparr>))"

definition completionDetailsFromResponses ::
    "responses_output_tokens_details option \<Rightarrow> chat_token_details option" where
  "completionDetailsFromResponses src =
     (case src of
        None \<Rightarrow> None
      | Some s \<Rightarrow>
          if otd_ReasoningTokens s = 0 \<and> otd_AudioTokens s = 0 \<and>
             otd_AcceptedPredictionTokens s = 0 \<and> otd_RejectedPredictionTokens s = 0 then None
          else Some (zero_token_details\<lparr>ctd_ReasoningTokens := otd_ReasoningTokens s,
                 ctd_AudioTokens := otd_AudioTokens s,
                 ctd_AcceptedPredictionTokens := otd_AcceptedPredictionTokens s,
                 ctd_RejectedPredictionTokens := otd_RejectedPredictionTokens s\<rparr>))"

definition chatUsageFromResponsesUsage :: "responses_usage option \<Rightarrow> chat_usage option" where
  "chatUsageFromResponsesUsage u =
     (case u of
        None \<Rightarrow> None
      | Some u \<Rightarrow> Some \<lparr>cu_PromptTokens = ru_InputTokens u, cu_CompletionTokens = ru_OutputTokens u,
          cu_TotalTokens = add64 (ru_InputTokens u) (ru_OutputTokens u),
          cu_PromptTokensDetails = promptDetailsFromResponses (ru_InputTokensDetails u),
          cu_CompletionTokensDetails = completionDetailsFromResponses (ru_OutputTokensDetails u)\<rparr>)"

text \<open>The loop over \<open>resp.Output\<close>, with its three accumulators.\<close>

definition outputItemStep :: "string \<times> string \<times> chat_tool_call list \<Rightarrow> responses_output \<Rightarrow>
    string \<times> string \<times> chat_tool_call list" where
  "outputItemStep acc item =
     (let (contentText, reasoningText, toolCalls) = acc in
      if ro_Type item = ''message'' then
        (fold (\<lambda>part t. if rcp_Type part = ''output_text'' \<and> rcp_Text part \<noteq> [] then t @ rcp_Text part else t)
           (ro_Content item) contentText, reasoningText, toolCalls)
      else if ro_Type item = ''function_call'' then
        (contentText, reasoningText,
         toolCalls @ [zero_tool_call\<lparr>tc_ID := ro_CallID item, tc_Type := ''function'',
           tc_Function := \<lparr>cf_Name = ro_Name item, cf_Arguments = ro_Arguments item\<rparr>\<rparr>])
      else if ro_Type item = ''reasoning'' then
        (contentText,
         fold (\<lambda>s t. if rs_Type s = ''summary_text'' \<and> rs_Text s \<noteq> [] then t @ rs_Text s else t)
           (ro_Summary item) reasoningText, toolCalls)
      else acc)"

definition ResponsesToChatCompletions :: "int \<Rightarrow> responses_response \<Rightarrow> string \<Rightarrow> rand_source \<Rightarrow>
    chat_completions_response \<times> rand_source" where
  "ResponsesToChatCompletions now resp model g0 =
     (let (cid, g1) = (if rr_ID resp = [] then generateChatCmplID g0 else (rr_ID resp, g0));
          (contentText, reasoningText, toolCalls) = foldl outputItemStep ([], [], []) (rr_Output resp);
          msg = zero_chat_message\<lparr>cm_Role := ''assistant'', cm_ToolCalls := toolCalls,
            cm_Content := (if contentText \<noteq> [] then json_quote contentText else []),
            cm_ReasoningContent := reasoningText\<rparr>;
          finishReason = responsesStatusToChatFinishReason (rr_Status resp) (rr_IncompleteDetails resp) toolCalls
      in (\<lparr>cr_ID = cid, cr_Object = ''chat.completion'', cr_Created = now, cr_Model = model,
           cr_Choices = [\<lparr>cch_Index = 0, cch_Message = msg, cch_FinishReason = finishReason\<rparr>],
           cr_Usage = chatUsageFromResponsesUsage (rr_Usage resp), cr_SystemFingerprint = [],
           cr_ServiceTier = []\<rparr>, g1))"

section \<open>The stream\<close>

record res_to_chat_state =
  rc_ID :: string
  rc_Model :: string
  rc_Created :: int
  rc_SentRole :: bool
  rc_SawToolCall :: bool
  rc_SawText :: bool
  rc_Finalized :: bool
  rc_NextToolCallIndex :: int
  rc_OutputIndexToToolIndex :: "int \<rightharpoonup> int"
  rc_IncludeUsage :: bool
  rc_Usage :: "chat_usage option"

definition NewResponsesEventToChatState :: "int \<Rightarrow> rand_source \<Rightarrow> res_to_chat_state \<times> rand_source" where
  "NewResponsesEventToChatState now g =
     (let (cid, g') = generateChatCmplID g in
      (\<lparr>rc_ID = cid, rc_Model = [], rc_Created = now, rc_SentRole = False, rc_SawToolCall = False,
        rc_SawText = False, rc_Finalized = False, rc_NextToolCallIndex = 0,
        rc_OutputIndexToToolIndex = Map.empty, rc_IncludeUsage = False, rc_Usage = None\<rparr>, g'))"

type_synonym res_to_chat = "res_to_chat_state \<times> chat_completions_chunk list"

definition makeChatDeltaChunk :: "res_to_chat_state \<Rightarrow> chat_delta \<Rightarrow> chat_completions_chunk" where
  "makeChatDeltaChunk st delta =
     \<lparr>ch_ID = rc_ID st, ch_Object = ''chat.completion.chunk'', ch_Created = rc_Created st,
      ch_Model = rc_Model st,
      ch_Choices = [\<lparr>ck_Index = 0, ck_Delta = delta, ck_FinishReason = None\<rparr>],
      ch_Usage = None, ch_SystemFingerprint = [], ch_ServiceTier = []\<rparr>"

definition makeChatFinishChunk :: "res_to_chat_state \<Rightarrow> string \<Rightarrow> chat_completions_chunk" where
  "makeChatFinishChunk st finishReason =
     \<lparr>ch_ID = rc_ID st, ch_Object = ''chat.completion.chunk'', ch_Created = rc_Created st,
      ch_Model = rc_Model st,
      ch_Choices = [\<lparr>ck_Index = 0, ck_Delta = zero_chat_delta\<lparr>cd_Content := Some []\<rparr>,
        ck_FinishReason = Some finishReason\<rparr>],
      ch_Usage = None, ch_SystemFingerprint = [], ch_ServiceTier = []\<rparr>"

text \<open>The usage chunk both terminators append.\<close>

definition chatUsageChunks :: "res_to_chat_state \<Rightarrow> chat_completions_chunk list" where
  "chatUsageChunks st =
     (if rc_IncludeUsage st \<and> rc_Usage st \<noteq> None then
        [\<lparr>ch_ID = rc_ID st, ch_Object = ''chat.completion.chunk'', ch_Created = rc_Created st,
          ch_Model = rc_Model st, ch_Choices = [], ch_Usage = rc_Usage st, ch_SystemFingerprint = [],
          ch_ServiceTier = []\<rparr>]
      else [])"

definition resToChatHandleCreated :: "responses_stream_event \<Rightarrow> res_to_chat_state \<Rightarrow> res_to_chat" where
  "resToChatHandleCreated evt st =
     (let st1 = (case re_Response evt of
                   None \<Rightarrow> st
                 | Some r \<Rightarrow>
                     let st' = (if rr_ID r \<noteq> [] then st\<lparr>rc_ID := rr_ID r\<rparr> else st)
                     in if rc_Model st' = [] \<and> rr_Model r \<noteq> [] then st'\<lparr>rc_Model := rr_Model r\<rparr> else st')
      in if rc_SentRole st1 then (st1, [])
         else (let st2 = st1\<lparr>rc_SentRole := True\<rparr>
               in (st2, [makeChatDeltaChunk st2 (zero_chat_delta\<lparr>cd_Role := ''assistant''\<rparr>)])))"

definition resToChatHandleTextDelta :: "responses_stream_event \<Rightarrow> res_to_chat_state \<Rightarrow> res_to_chat" where
  "resToChatHandleTextDelta evt st =
     (if re_Delta evt = [] then (st, [])
      else (let st1 = st\<lparr>rc_SawText := True\<rparr>
            in (st1, [makeChatDeltaChunk st1 (zero_chat_delta\<lparr>cd_Content := Some (re_Delta evt)\<rparr>)])))"

definition isToolItem :: "responses_output option \<Rightarrow> bool" where
  "isToolItem it = (case it of None \<Rightarrow> False
     | Some i \<Rightarrow> ro_Type i = ''function_call'' \<or> ro_Type i = ''custom_tool_call'')"

definition resToChatHandleOutputItemAdded ::
    "responses_stream_event \<Rightarrow> res_to_chat_state \<Rightarrow> res_to_chat" where
  "resToChatHandleOutputItemAdded evt st =
     (if \<not> isToolItem (re_Item evt) then (st, [])
      else (let item = the (re_Item evt);
                idx = rc_NextToolCallIndex st;
                st1 = st\<lparr>rc_SawToolCall := True,
                  rc_OutputIndexToToolIndex := (rc_OutputIndexToToolIndex st)(re_OutputIndex evt \<mapsto> idx),
                  rc_NextToolCallIndex := idx + 1\<rparr>
            in (st1, [makeChatDeltaChunk st1 (zero_chat_delta\<lparr>cd_ToolCalls :=
                  [\<lparr>tc_Index = Some idx, tc_ID = ro_CallID item, tc_Type = ''function'',
                    tc_Function = zero_function_call\<lparr>cf_Name := ro_Name item\<rparr>\<rparr>]\<rparr>)])))"

definition resToChatHandleFuncArgsDelta ::
    "responses_stream_event \<Rightarrow> res_to_chat_state \<Rightarrow> res_to_chat" where
  "resToChatHandleFuncArgsDelta evt st =
     (if re_Delta evt = [] then (st, [])
      else (case rc_OutputIndexToToolIndex st (re_OutputIndex evt) of
              None \<Rightarrow> (st, [])
            | Some idx \<Rightarrow>
                (st, [makeChatDeltaChunk st (zero_chat_delta\<lparr>cd_ToolCalls :=
                   [zero_tool_call\<lparr>tc_Index := Some idx,
                      tc_Function := zero_function_call\<lparr>cf_Arguments := re_Delta evt\<rparr>\<rparr>]\<rparr>)])))"

definition resToChatHandleReasoningDelta ::
    "responses_stream_event \<Rightarrow> res_to_chat_state \<Rightarrow> res_to_chat" where
  "resToChatHandleReasoningDelta evt st =
     (if re_Delta evt = [] then (st, [])
      else (st, [makeChatDeltaChunk st (zero_chat_delta\<lparr>cd_ReasoningContent := Some (re_Delta evt)\<rparr>)]))"

definition resToChatHandleCompleted :: "responses_stream_event \<Rightarrow> res_to_chat_state \<Rightarrow> res_to_chat" where
  "resToChatHandleCompleted evt st =
     (let st1 = st\<lparr>rc_Finalized := True\<rparr>;
          st2 = (if re_Usage evt \<noteq> None
                 then st1\<lparr>rc_Usage := chatUsageFromResponsesUsage (re_Usage evt)\<rparr> else st1);
          (st3, finishReason) =
            (case re_Response evt of
               Some r \<Rightarrow>
                 (if rr_Usage r \<noteq> None
                  then st2\<lparr>rc_Usage := chatUsageFromResponsesUsage (rr_Usage r)\<rparr> else st2,
                  if rr_Status r = ''incomplete'' then
                    (case rr_IncompleteDetails r of
                       Some d \<Rightarrow> if rid_Reason d = ''max_output_tokens'' then ''length'' else ''stop''
                     | None \<Rightarrow> ''stop'')
                  else if rr_Status r = ''completed'' then
                    (if rc_SawToolCall st2 then ''tool_calls'' else ''stop'')
                  else ''stop'')
             | None \<Rightarrow> (st2, if rc_SawToolCall st2 then ''tool_calls'' else ''stop''))
      in (st3, makeChatFinishChunk st3 finishReason # chatUsageChunks st3))"

definition ResponsesEventToChatChunks ::
    "responses_stream_event \<Rightarrow> res_to_chat_state \<Rightarrow> res_to_chat" where
  "ResponsesEventToChatChunks evt st =
     (let t = re_Type evt in
      if t = ''response.created'' then resToChatHandleCreated evt st
      else if t = ''response.output_text.delta'' then resToChatHandleTextDelta evt st
      else if t = ''response.output_item.added'' then resToChatHandleOutputItemAdded evt st
      else if t = ''response.function_call_arguments.delta'' \<or>
              t = ''response.custom_tool_call_input.delta'' then resToChatHandleFuncArgsDelta evt st
      else if t = ''response.reasoning_summary_text.delta'' \<or>
              t = ''response.reasoning_text.delta'' then resToChatHandleReasoningDelta evt st
      else if t = ''response.reasoning_summary_text.done'' then (st, [])
      else if t = ''response.completed'' \<or> t = ''response.done'' \<or> t = ''response.incomplete'' \<or>
              t = ''response.failed'' then resToChatHandleCompleted evt st
      else (st, []))"

definition FinalizeResponsesChatStream :: "res_to_chat_state \<Rightarrow> res_to_chat" where
  "FinalizeResponsesChatStream st =
     (if rc_Finalized st then (st, [])
      else (let st1 = st\<lparr>rc_Finalized := True\<rparr>
            in (st1, makeChatFinishChunk st1 (if rc_SawToolCall st1 then ''tool_calls'' else ''stop'') #
                     chatUsageChunks st1)))"

section \<open>The buffered path\<close>

record buffered_func_call =
  bf_CallID :: string
  bf_Name :: string
  bf_Args :: string

record buffered_accumulator =
  ba_text :: string
  ba_reasoning :: string
  ba_funcCalls :: "buffered_func_call list"
  ba_outputIndexToFuncIdx :: "int \<rightharpoonup> nat"

definition NewBufferedResponseAccumulator :: buffered_accumulator where
  "NewBufferedResponseAccumulator =
     \<lparr>ba_text = [], ba_reasoning = [], ba_funcCalls = [], ba_outputIndexToFuncIdx = Map.empty\<rparr>"

text \<open>\<open>funcCalls[idx]\<close> is in range whenever the map has the index (\<open>acc_wf\<close> below); the update of
  an index out of range would leave the list as it is.\<close>

definition ProcessEvent :: "responses_stream_event \<Rightarrow> buffered_accumulator \<Rightarrow> buffered_accumulator" where
  "ProcessEvent event a =
     (let t = re_Type event in
      if t = ''response.output_text.delta'' then
        (if re_Delta event \<noteq> [] then a\<lparr>ba_text := ba_text a @ re_Delta event\<rparr> else a)
      else if t = ''response.output_item.added'' then
        (if isToolItem (re_Item event) then
           a\<lparr>ba_outputIndexToFuncIdx :=
               (ba_outputIndexToFuncIdx a)(re_OutputIndex event \<mapsto> length (ba_funcCalls a)),
             ba_funcCalls := ba_funcCalls a @ [\<lparr>bf_CallID = ro_CallID (the (re_Item event)),
               bf_Name = ro_Name (the (re_Item event)), bf_Args = []\<rparr>]\<rparr>
         else a)
      else if t = ''response.function_call_arguments.delta'' \<or>
              t = ''response.custom_tool_call_input.delta'' then
        (if re_Delta event \<noteq> [] then
           (case ba_outputIndexToFuncIdx a (re_OutputIndex event) of
              None \<Rightarrow> a
            | Some idx \<Rightarrow> a\<lparr>ba_funcCalls := (ba_funcCalls a)[idx :=
                (ba_funcCalls a ! idx)\<lparr>bf_Args := bf_Args (ba_funcCalls a ! idx) @ re_Delta event\<rparr>]\<rparr>)
         else a)
      else if t = ''response.reasoning_summary_text.delta'' \<or> t = ''response.reasoning_text.delta'' then
        (if re_Delta event \<noteq> [] then a\<lparr>ba_reasoning := ba_reasoning a @ re_Delta event\<rparr> else a)
      else a)"

definition HasContent :: "buffered_accumulator \<Rightarrow> bool" where
  "HasContent a \<longleftrightarrow> length (ba_text a) > 0 \<or> length (ba_funcCalls a) > 0 \<or> length (ba_reasoning a) > 0"

definition BuildOutput :: "buffered_accumulator \<Rightarrow> responses_output list" where
  "BuildOutput a =
     (if length (ba_reasoning a) > 0
      then [zero_output\<lparr>ro_Type := ''reasoning'',
              ro_Summary := [\<lparr>rs_Type = ''summary_text'', rs_Text = ba_reasoning a\<rparr>]\<rparr>] else []) @
     (if length (ba_text a) > 0
      then [zero_output\<lparr>ro_Type := ''message'', ro_Role := ''assistant'',
              ro_Content := [zero_content_part\<lparr>rcp_Type := ''output_text'', rcp_Text := ba_text a\<rparr>]\<rparr>]
      else []) @
     map (\<lambda>f. zero_output\<lparr>ro_Type := ''function_call'', ro_CallID := bf_CallID f, ro_Name := bf_Name f,
            ro_Arguments := bf_Args f\<rparr>) (ba_funcCalls a)"

definition SupplementResponseOutput ::
    "buffered_accumulator \<Rightarrow> responses_response option \<Rightarrow> responses_response option" where
  "SupplementResponseOutput a resp =
     (case resp of
        None \<Rightarrow> None
      | Some r \<Rightarrow>
          if length (rr_Output r) > 0 then Some r
          else if \<not> HasContent a then Some r
          else Some (r\<lparr>rr_Output := BuildOutput a\<rparr>))"

section \<open>The client of the stream\<close>

text \<open>
  How a Chat Completions client puts a stream together: the role comes at most once, contents and
  reasoning are concatenated, a tool-call delta either announces the next index or extends the
  arguments of an announced call, and the finish reasons and the usage are kept. The step is
  \<open>None\<close> when the stream breaks these rules.
\<close>

record chat_client =
  cl_Role :: bool
  cl_Text :: string
  cl_Reasoning :: string
  cl_Calls :: "buffered_func_call list"
  cl_Finish :: "string list"
  cl_Usage :: "chat_usage option"

definition client0 :: chat_client where
  "client0 = \<lparr>cl_Role = False, cl_Text = [], cl_Reasoning = [], cl_Calls = [], cl_Finish = [],
     cl_Usage = None\<rparr>"

definition client_call :: "buffered_func_call list \<Rightarrow> chat_tool_call \<Rightarrow> buffered_func_call list option" where
  "client_call cs tc =
     (case tc_Index tc of
        None \<Rightarrow> None
      | Some i \<Rightarrow>
          if i = int (length cs) \<and> tc_Type tc = ''function'' then
            Some (cs @ [\<lparr>bf_CallID = tc_ID tc, bf_Name = cf_Name (tc_Function tc),
                          bf_Args = cf_Arguments (tc_Function tc)\<rparr>])
          else if 0 \<le> i \<and> i < int (length cs) then
            Some (cs[nat i := (cs ! nat i)\<lparr>bf_Args := bf_Args (cs ! nat i) @ cf_Arguments (tc_Function tc)\<rparr>])
          else None)"

definition client_choice :: "chat_client \<Rightarrow> chat_chunk_choice \<Rightarrow> chat_client option" where
  "client_choice m c =
     (let d = ck_Delta c in
      if cd_Role d \<noteq> [] \<and> cl_Role m then None
      else (case accepts client_call (cl_Calls m) (cd_ToolCalls d) of
              None \<Rightarrow> None
            | Some cs \<Rightarrow>
                Some (m\<lparr>cl_Role := (cl_Role m \<or> cd_Role d \<noteq> []),
                  cl_Text := cl_Text m @ (case cd_Content d of None \<Rightarrow> [] | Some t \<Rightarrow> t),
                  cl_Reasoning := cl_Reasoning m @ (case cd_ReasoningContent d of None \<Rightarrow> [] | Some t \<Rightarrow> t),
                  cl_Calls := cs,
                  cl_Finish := cl_Finish m @ (case ck_FinishReason c of None \<Rightarrow> [] | Some f \<Rightarrow> [f])\<rparr>)))"

definition client_step :: "chat_client \<Rightarrow> chat_completions_chunk \<Rightarrow> chat_client option" where
  "client_step m c =
     (case accepts client_choice m (ch_Choices c) of
        None \<Rightarrow> None
      | Some m' \<Rightarrow> Some (if ch_Usage c = None then m' else m'\<lparr>cl_Usage := ch_Usage c\<rparr>))"

lemma client_delta [converter_simps]:
  "client_step m (makeChatDeltaChunk st (zero_chat_delta\<lparr>cd_Role := ''assistant''\<rparr>)) =
     (if cl_Role m then None else Some (m\<lparr>cl_Role := True\<rparr>))"
  "client_step m (makeChatDeltaChunk st (zero_chat_delta\<lparr>cd_Content := Some t\<rparr>)) =
     Some (m\<lparr>cl_Text := cl_Text m @ t\<rparr>)"
  "client_step m (makeChatDeltaChunk st (zero_chat_delta\<lparr>cd_ReasoningContent := Some t\<rparr>)) =
     Some (m\<lparr>cl_Reasoning := cl_Reasoning m @ t\<rparr>)"
  "client_step m (makeChatDeltaChunk st (zero_chat_delta\<lparr>cd_ToolCalls := [tc]\<rparr>)) =
     (case client_call (cl_Calls m) tc of None \<Rightarrow> None | Some cs \<Rightarrow> Some (m\<lparr>cl_Calls := cs\<rparr>))"
  "client_step m (makeChatFinishChunk st f) = Some (m\<lparr>cl_Finish := cl_Finish m @ [f]\<rparr>)"
  by (simp_all add: client_step_def client_choice_def makeChatDeltaChunk_def makeChatFinishChunk_def
      split: option.splits)

lemma client_usage [converter_simps]:
  "accepts client_step m (chatUsageChunks st) =
     Some (if rc_IncludeUsage st \<and> rc_Usage st \<noteq> None then m\<lparr>cl_Usage := rc_Usage st\<rparr> else m)"
  by (simp add: chatUsageChunks_def client_step_def)

text \<open>
  What the client has put together, what the accumulator has accumulated and what the converter's
  state says, side by side.
\<close>

definition same_index :: "buffered_accumulator \<Rightarrow> res_to_chat_state \<Rightarrow> bool" where
  "same_index a st \<longleftrightarrow>
     (\<forall>k. rc_OutputIndexToToolIndex st k = map_option int (ba_outputIndexToFuncIdx a k)) \<and>
     (\<forall>k n. ba_outputIndexToFuncIdx a k = Some n \<longrightarrow> n < length (ba_funcCalls a)) \<and>
     rc_NextToolCallIndex st = int (length (ba_funcCalls a)) \<and>
     (rc_SawToolCall st \<longleftrightarrow> ba_funcCalls a \<noteq> [])"

definition buffered_rel :: "buffered_accumulator \<Rightarrow> res_to_chat_state \<Rightarrow> chat_client \<Rightarrow> bool" where
  "buffered_rel a st m \<longleftrightarrow> same_index a st \<and>
     cl_Text m = ba_text a \<and> cl_Reasoning m = ba_reasoning a \<and> cl_Calls m = ba_funcCalls a \<and>
     (cl_Role m \<longleftrightarrow> rc_SentRole st) \<and> (rc_Finalized st \<longleftrightarrow> cl_Finish m \<noteq> []) \<and>
     (\<not> rc_Finalized st \<longrightarrow> cl_Usage m = None)"

definition same_as_buffered :: "buffered_accumulator \<Rightarrow> chat_client \<Rightarrow> res_to_chat \<Rightarrow> bool" where
  "same_as_buffered a m r \<longleftrightarrow>
     (\<exists>m'. accepts client_step m (snd r) = Some m' \<and> buffered_rel a (fst r) m')"

definition process_in :: "buffered_accumulator \<Rightarrow> responses_stream_event \<Rightarrow> buffered_accumulator option" where
  "process_in a e = Some (ProcessEvent e a)"

lemma process_all: "accepts process_in a es = Some (fold ProcessEvent es a)"
  by (induction es arbitrary: a) (simp_all add: process_in_def)

lemma process_dispatch [converter_simps]:
  "re_Type e = ''response.output_text.delta'' \<Longrightarrow> ProcessEvent e a = a\<lparr>ba_text := ba_text a @ re_Delta e\<rparr>"
  "re_Type e = ''response.reasoning_summary_text.delta'' \<or> re_Type e = ''response.reasoning_text.delta'' \<Longrightarrow>
     ProcessEvent e a = a\<lparr>ba_reasoning := ba_reasoning a @ re_Delta e\<rparr>"
  by (auto simp: ProcessEvent_def Let_def)

lemma created_buffered:
  "buffered_rel a st m \<Longrightarrow> same_as_buffered a m (resToChatHandleCreated e st)"
  by (auto simp: same_as_buffered_def resToChatHandleCreated_def buffered_rel_def same_index_def Let_def
      converter_simps split: option.splits if_splits simp del: zero_chat_delta_def)

lemma text_buffered:
  "buffered_rel a st m \<Longrightarrow>
   same_as_buffered (a\<lparr>ba_text := ba_text a @ re_Delta e\<rparr>) m (resToChatHandleTextDelta e st)"
  by (auto simp: same_as_buffered_def resToChatHandleTextDelta_def buffered_rel_def same_index_def Let_def
      converter_simps simp del: zero_chat_delta_def)

lemma reasoning_buffered:
  "buffered_rel a st m \<Longrightarrow>
   same_as_buffered (a\<lparr>ba_reasoning := ba_reasoning a @ re_Delta e\<rparr>) m (resToChatHandleReasoningDelta e st)"
  by (auto simp: same_as_buffered_def resToChatHandleReasoningDelta_def buffered_rel_def same_index_def
      Let_def converter_simps simp del: zero_chat_delta_def)

lemma item_buffered:
  "buffered_rel a st m \<Longrightarrow> re_Type e = ''response.output_item.added'' \<Longrightarrow>
   same_as_buffered (ProcessEvent e a) m (resToChatHandleOutputItemAdded e st)"
  by (auto simp: same_as_buffered_def resToChatHandleOutputItemAdded_def buffered_rel_def same_index_def
      Let_def converter_simps ProcessEvent_def client_call_def less_SucI simp del: zero_chat_delta_def)

lemma args_buffered:
  assumes "buffered_rel a st m"
    and "re_Type e = ''response.function_call_arguments.delta'' \<or>
         re_Type e = ''response.custom_tool_call_input.delta''"
  shows "same_as_buffered (ProcessEvent e a) m (resToChatHandleFuncArgsDelta e st)"
proof -
  have p: "ProcessEvent e a =
      (if re_Delta e \<noteq> [] then
         (case ba_outputIndexToFuncIdx a (re_OutputIndex e) of
            None \<Rightarrow> a
          | Some idx \<Rightarrow> a\<lparr>ba_funcCalls := (ba_funcCalls a)[idx :=
              (ba_funcCalls a ! idx)\<lparr>bf_Args := bf_Args (ba_funcCalls a ! idx) @ re_Delta e\<rparr>]\<rparr>)
       else a)"
    using assms(2) by (auto simp: ProcessEvent_def Let_def)
  show ?thesis
    using assms(1)
    by (auto simp: p same_as_buffered_def resToChatHandleFuncArgsDelta_def buffered_rel_def same_index_def
        converter_simps client_call_def split: option.splits simp del: zero_chat_delta_def)
qed

lemma terminator_buffered:
  assumes "buffered_rel a st m" and "rc_Finalized st'" and "same_index a st'"
    and "rc_SentRole st' = rc_SentRole st"
  shows "same_as_buffered a m (st', makeChatFinishChunk st' f # chatUsageChunks st')"
  using assms by (simp add: same_as_buffered_def buffered_rel_def converter_simps)

lemma completed_buffered:
  assumes "buffered_rel a st m"
  shows "same_as_buffered a m (resToChatHandleCompleted e st)"
proof (cases "re_Response e")
  case None
  show ?thesis
    unfolding resToChatHandleCompleted_def None Let_def option.case prod.case
    using assms by (intro terminator_buffered [OF assms]) (auto simp: buffered_rel_def same_index_def)
next
  case (Some r)
  show ?thesis
    unfolding resToChatHandleCompleted_def Some Let_def option.case prod.case
    using assms by (intro terminator_buffered [OF assms]) (auto simp: buffered_rel_def same_index_def)
qed

lemma chat_dispatch:
  "re_Type e = ''response.output_text.delta'' \<Longrightarrow>
     ResponsesEventToChatChunks e st = resToChatHandleTextDelta e st"
  "re_Type e = ''response.output_item.added'' \<Longrightarrow>
     ResponsesEventToChatChunks e st = resToChatHandleOutputItemAdded e st"
  "re_Type e = ''response.function_call_arguments.delta'' \<or>
   re_Type e = ''response.custom_tool_call_input.delta'' \<Longrightarrow>
     ResponsesEventToChatChunks e st = resToChatHandleFuncArgsDelta e st"
  "re_Type e = ''response.reasoning_summary_text.delta'' \<or> re_Type e = ''response.reasoning_text.delta'' \<Longrightarrow>
     ResponsesEventToChatChunks e st = resToChatHandleReasoningDelta e st"
  by (auto simp: ResponsesEventToChatChunks_def Let_def)

lemma chat_other:
  "re_Type e \<notin> {''response.output_text.delta'', ''response.output_item.added'',
     ''response.function_call_arguments.delta'', ''response.custom_tool_call_input.delta'',
     ''response.reasoning_summary_text.delta'', ''response.reasoning_text.delta''} \<Longrightarrow>
   ProcessEvent e a = a \<and>
   ResponsesEventToChatChunks e st \<in>
     {resToChatHandleCreated e st, resToChatHandleCompleted e st, (st, [])}"
  by (simp add: ProcessEvent_def ResponsesEventToChatChunks_def Let_def)

lemma step_buffered:
  assumes rel: "buffered_rel a st m"
  shows "same_as_buffered (ProcessEvent e a) m (ResponsesEventToChatChunks e st)"
proof -
  consider (textual) "re_Type e = ''response.output_text.delta''"
    | (item) "re_Type e = ''response.output_item.added''"
    | (args) "re_Type e = ''response.function_call_arguments.delta'' \<or>
       re_Type e = ''response.custom_tool_call_input.delta''"
    | (reasoning) "re_Type e = ''response.reasoning_summary_text.delta'' \<or>
       re_Type e = ''response.reasoning_text.delta''"
    | (other) "re_Type e \<notin> {''response.output_text.delta'', ''response.output_item.added'',
        ''response.function_call_arguments.delta'', ''response.custom_tool_call_input.delta'',
        ''response.reasoning_summary_text.delta'', ''response.reasoning_text.delta''}"
    by blast
  then show ?thesis
  proof cases
    case textual
    with text_buffered [OF rel] show ?thesis by (simp only: chat_dispatch process_dispatch)
  next
    case item
    with item_buffered [OF rel] show ?thesis by (simp only: chat_dispatch)
  next
    case args
    with args_buffered [OF rel] show ?thesis by (simp only: chat_dispatch)
  next
    case reasoning
    with reasoning_buffered [OF rel] show ?thesis by (simp only: chat_dispatch process_dispatch)
  next
    case other
    have "same_as_buffered a m (st, [])" using rel by (simp add: same_as_buffered_def)
    with chat_other [OF other] created_buffered [OF rel] completed_buffered [OF rel]
    show ?thesis by (metis insertE singletonD)
  qed
qed

definition client_finished :: "chat_client \<Rightarrow> bool" where
  "client_finished m \<longleftrightarrow> cl_Finish m \<noteq> []"

lemma finalize_buffered:
  assumes "buffered_rel a st m"
  shows "\<exists>m'. accepts client_step m (snd (FinalizeResponsesChatStream st)) = Some m' \<and>
    cl_Text m' = ba_text a \<and> cl_Reasoning m' = ba_reasoning a \<and> cl_Calls m' = ba_funcCalls a \<and>
    client_finished m'"
  using assms
  by (simp add: FinalizeResponsesChatStream_def buffered_rel_def client_finished_def Let_def converter_simps)

interpretation res_chat: stream_session ResponsesEventToChatChunks process_in client_step buffered_rel
  FinalizeResponsesChatStream client_finished
proof unfold_locales
  fix a st m e a'
  assume "buffered_rel a st m" and "process_in a e = Some a'"
  then show "\<exists>m'. accepts client_step m (snd (ResponsesEventToChatChunks e st)) = Some m' \<and>
      buffered_rel a' (fst (ResponsesEventToChatChunks e st)) m'"
    using step_buffered [of a st m e] by (simp add: same_as_buffered_def process_in_def)
next
  fix a st m
  assume "buffered_rel a st m"
  from finalize_buffered [OF this]
  show "\<exists>m'. accepts client_step m (snd (FinalizeResponsesChatStream st)) = Some m' \<and> client_finished m'"
    by blast
qed

lemma res_chat_init:
  "buffered_rel NewBufferedResponseAccumulator
     ((fst (NewResponsesEventToChatState now g))\<lparr>rc_IncludeUsage := inc\<rparr>) client0"
  by (simp add: buffered_rel_def same_index_def NewBufferedResponseAccumulator_def client0_def
      NewResponsesEventToChatState_def case_prod_beta)

section \<open>Finish reasons\<close>

definition chatTerminalTypes :: "string set" where
  "chatTerminalTypes = {''response.completed'', ''response.done'', ''response.incomplete'', ''response.failed''}"

definition chat_terminal :: "responses_stream_event \<Rightarrow> bool" where
  "chat_terminal e \<longleftrightarrow> re_Type e \<in> chatTerminalTypes"

lemma terminal_types [simp]:
  "''response.completed'' \<in> chatTerminalTypes"
  "''response.created'' \<notin> chatTerminalTypes"
  "''response.output_item.added'' \<notin> chatTerminalTypes"
  "''response.output_item.done'' \<notin> chatTerminalTypes"
  "''response.output_text.delta'' \<notin> chatTerminalTypes"
  "''response.output_text.done'' \<notin> chatTerminalTypes"
  "''response.reasoning_summary_text.delta'' \<notin> chatTerminalTypes"
  "''response.reasoning_summary_text.done'' \<notin> chatTerminalTypes"
  "''response.function_call_arguments.delta'' \<notin> chatTerminalTypes"
  "''response.function_call_arguments.done'' \<notin> chatTerminalTypes"
  by (simp_all add: chatTerminalTypes_def)

definition chunk_finish :: "chat_completions_chunk \<Rightarrow> unit list" where
  "chunk_finish c = concat (map (\<lambda>k. case ck_FinishReason k of None \<Rightarrow> [] | Some f \<Rightarrow> [()]) (ch_Choices c))"

lemma chunk_finish_simps [content_simps]:
  "chunk_finish (makeChatDeltaChunk st d) = []"
  "chunk_finish (makeChatFinishChunk st f) = [()]"
  "collect chunk_finish (chatUsageChunks st) = []"
  by (simp_all add: chunk_finish_def makeChatDeltaChunk_def makeChatFinishChunk_def chatUsageChunks_def)

lemma handlers_finish [content_simps]:
  "collect chunk_finish (snd (resToChatHandleCreated e st)) = []"
  "collect chunk_finish (snd (resToChatHandleTextDelta e st)) = []"
  "collect chunk_finish (snd (resToChatHandleOutputItemAdded e st)) = []"
  "collect chunk_finish (snd (resToChatHandleFuncArgsDelta e st)) = []"
  "collect chunk_finish (snd (resToChatHandleReasoningDelta e st)) = []"
  "collect chunk_finish (snd (resToChatHandleCompleted e st)) = [()]"
  by (simp_all add: resToChatHandleCreated_def resToChatHandleTextDelta_def
      resToChatHandleOutputItemAdded_def resToChatHandleFuncArgsDelta_def resToChatHandleReasoningDelta_def
      resToChatHandleCompleted_def Let_def case_prod_beta content_simps split: option.splits)

lemma handlers_finalized:
  "rc_Finalized (fst (resToChatHandleCreated e st)) = rc_Finalized st"
  "rc_Finalized (fst (resToChatHandleTextDelta e st)) = rc_Finalized st"
  "rc_Finalized (fst (resToChatHandleOutputItemAdded e st)) = rc_Finalized st"
  "rc_Finalized (fst (resToChatHandleFuncArgsDelta e st)) = rc_Finalized st"
  "rc_Finalized (fst (resToChatHandleReasoningDelta e st)) = rc_Finalized st"
  "rc_Finalized (fst (resToChatHandleCompleted e st))"
  by (simp_all add: resToChatHandleCreated_def resToChatHandleTextDelta_def
      resToChatHandleOutputItemAdded_def resToChatHandleFuncArgsDelta_def resToChatHandleReasoningDelta_def
      resToChatHandleCompleted_def Let_def case_prod_beta split: option.splits)

lemma chat_terminal_step: "chat_terminal e \<Longrightarrow> ResponsesEventToChatChunks e st = resToChatHandleCompleted e st"
  by (auto simp: chat_terminal_def chatTerminalTypes_def ResponsesEventToChatChunks_def Let_def)

lemma chat_nonterminal_step:
  "\<not> chat_terminal e \<Longrightarrow> ResponsesEventToChatChunks e st \<in>
     {resToChatHandleCreated e st, resToChatHandleTextDelta e st, resToChatHandleOutputItemAdded e st,
      resToChatHandleFuncArgsDelta e st, resToChatHandleReasoningDelta e st, (st, [])}"
  by (simp add: chat_terminal_def chatTerminalTypes_def ResponsesEventToChatChunks_def Let_def)

definition terminal_mark :: "responses_stream_event \<Rightarrow> unit list" where
  "terminal_mark e = (if chat_terminal e then [()] else [])"

interpretation chat_finishes: stream_content ResponsesEventToChatChunks terminal_mark chunk_finish
proof unfold_locales
  fix e st
  show "collect chunk_finish (snd (ResponsesEventToChatChunks e st)) = terminal_mark e"
    using chat_nonterminal_step [of e st]
    by (auto simp: terminal_mark_def chat_terminal_step content_simps)
qed

lemma step_finalized:
  "rc_Finalized (fst (ResponsesEventToChatChunks e st)) \<longleftrightarrow> rc_Finalized st \<or> chat_terminal e"
  using chat_nonterminal_step [of e st]
  by (cases "chat_terminal e") (auto simp: chat_terminal_step handlers_finalized)

lemma run_finalized:
  "rc_Finalized (fst (run_stream ResponsesEventToChatChunks es st)) \<longleftrightarrow>
     rc_Finalized st \<or> collect terminal_mark es \<noteq> []"
  by (induction es arbitrary: st) (auto simp: step_finalized terminal_mark_def)

lemma accumulated_text: "ba_text (fold ProcessEvent es b) = ba_text b @ collect res_text es"
  by (induction es arbitrary: b) (simp_all add: ProcessEvent_def res_text_def Let_def split: option.splits)

lemma terminal_marks: "length (collect terminal_mark es) = length (filter chat_terminal es)"
  by (induction es) (simp_all add: terminal_mark_def)

lemma finish_count_run:
  assumes "\<not> rc_Finalized st"
  shows "length (collect chunk_finish (snd (run_stream ResponsesEventToChatChunks es st) @
      snd (FinalizeResponsesChatStream (fst (run_stream ResponsesEventToChatChunks es st))))) =
    max 1 (length (filter chat_terminal es))"
proof -
  note marks = terminal_marks [of es]
  show ?thesis
  proof (cases "collect terminal_mark es = []")
    case True
    with marks assms show ?thesis
      by (simp add: chat_finishes.run_content FinalizeResponsesChatStream_def run_finalized Let_def content_simps)
  next
    case False
    then have "1 \<le> length (filter chat_terminal es)"
      unfolding marks [symmetric] by (cases "collect terminal_mark es") auto
    with False marks show ?thesis
      by (simp add: chat_finishes.run_content FinalizeResponsesChatStream_def run_finalized)
  qed
qed

section \<open>Properties\<close>

text \<open>
  The streaming path and the buffered path agree on every upstream stream: the client's
  assembly of the chunks succeeds (tool-call indices are announced in order, the role comes at most
  once), ends with a finish reason, and yields the text, the reasoning and the tool calls the
  accumulator has collected; the text is the concatenation of the upstream's text deltas.
\<close>

theorem chat_stream_matches_buffer:
  "let (st, os) = run_stream ResponsesEventToChatChunks es
         ((fst (NewResponsesEventToChatState now g))\<lparr>rc_IncludeUsage := inc\<rparr>);
       (st', os') = FinalizeResponsesChatStream st;
       a = fold ProcessEvent es NewBufferedResponseAccumulator
   in \<exists>m. accepts client_step client0 (os @ os') = Some m \<and> cl_Text m = ba_text a \<and>
        cl_Reasoning m = ba_reasoning a \<and> cl_Calls m = ba_funcCalls a \<and> cl_Finish m \<noteq> [] \<and>
        ba_text a = collect res_text es"
proof -
  let ?s0 = "(fst (NewResponsesEventToChatState now g))\<lparr>rc_IncludeUsage := inc\<rparr>"
  let ?a = "fold ProcessEvent es NewBufferedResponseAccumulator"
  obtain m1 where m1: "accepts client_step client0 (snd (run_stream ResponsesEventToChatChunks es ?s0)) = Some m1"
    "buffered_rel ?a (fst (run_stream ResponsesEventToChatChunks es ?s0)) m1"
    using res_chat.run_sim [OF res_chat_init process_all] by blast
  from finalize_buffered [OF m1(2)] m1(1) accumulated_text [of es NewBufferedResponseAccumulator] show ?thesis
    by (auto simp: case_prod_beta accepts_append client_finished_def NewBufferedResponseAccumulator_def)
qed

text \<open>
  A finish reason is sent once per terminal event of the upstream, and once by the finalizer
  when there was none: a stream with at most one terminal event finishes exactly once.
\<close>

theorem chat_finish_count:
  "let (st, os) = run_stream ResponsesEventToChatChunks es (fst (NewResponsesEventToChatState now g));
       (st', os') = FinalizeResponsesChatStream st
   in length (collect chunk_finish (os @ os')) = max 1 (length (filter chat_terminal es)) \<and>
      FinalizeResponsesChatStream st' = (st', [])"
proof -
  have "\<not> rc_Finalized (fst (NewResponsesEventToChatState now g))"
    by (simp add: NewResponsesEventToChatState_def case_prod_beta)
  from finish_count_run [OF this, of es] show ?thesis
    by (simp add: case_prod_beta FinalizeResponsesChatStream_def Let_def)
qed

section \<open>The answer of a completed stream\<close>

definition call_of :: "buffered_func_call \<Rightarrow> chat_tool_call" where
  "call_of f = zero_tool_call\<lparr>tc_ID := bf_CallID f, tc_Type := ''function'',
     tc_Function := \<lparr>cf_Name = bf_Name f, cf_Arguments = bf_Args f\<rparr>\<rparr>"

definition client_message :: "chat_client \<Rightarrow> chat_message" where
  "client_message m = zero_chat_message\<lparr>cm_Role := ''assistant'', cm_ToolCalls := map call_of (cl_Calls m),
     cm_Content := (if cl_Text m \<noteq> [] then json_quote (cl_Text m) else []),
     cm_ReasoningContent := cl_Reasoning m\<rparr>"

lemma foldl_calls:
  "foldl outputItemStep (t, r, cs)
     (map (\<lambda>f. zero_output\<lparr>ro_Type := ''function_call'', ro_CallID := bf_CallID f, ro_Name := bf_Name f,
        ro_Arguments := bf_Args f\<rparr>) fs) = (t, r, cs @ map call_of fs)"
  by (induction fs arbitrary: cs) (simp_all add: outputItemStep_def call_of_def)

lemma foldl_BuildOutput:
  "foldl outputItemStep ([], [], []) (BuildOutput a) =
     (ba_text a, ba_reasoning a, map call_of (ba_funcCalls a))"
  by (simp add: BuildOutput_def foldl_calls del: zero_output_def)
    (simp add: outputItemStep_def foldl_calls [simplified])

lemma supplement_output:
  "rr_Output r = [] \<Longrightarrow> SupplementResponseOutput a (Some r) = Some (r\<lparr>rr_Output := BuildOutput a\<rparr>)"
  by (cases r) (simp add: SupplementResponseOutput_def HasContent_def BuildOutput_def)

lemma usage_untouched:
  "rc_Usage (fst (resToChatHandleCreated e st)) = rc_Usage st"
  "rc_Usage (fst (resToChatHandleTextDelta e st)) = rc_Usage st"
  "rc_Usage (fst (resToChatHandleOutputItemAdded e st)) = rc_Usage st"
  "rc_Usage (fst (resToChatHandleFuncArgsDelta e st)) = rc_Usage st"
  "rc_Usage (fst (resToChatHandleReasoningDelta e st)) = rc_Usage st"
  "rc_IncludeUsage (fst (resToChatHandleCreated e st)) = rc_IncludeUsage st"
  "rc_IncludeUsage (fst (resToChatHandleTextDelta e st)) = rc_IncludeUsage st"
  "rc_IncludeUsage (fst (resToChatHandleOutputItemAdded e st)) = rc_IncludeUsage st"
  "rc_IncludeUsage (fst (resToChatHandleFuncArgsDelta e st)) = rc_IncludeUsage st"
  "rc_IncludeUsage (fst (resToChatHandleReasoningDelta e st)) = rc_IncludeUsage st"
  by (simp_all add: resToChatHandleCreated_def resToChatHandleTextDelta_def
      resToChatHandleOutputItemAdded_def resToChatHandleFuncArgsDelta_def resToChatHandleReasoningDelta_def
      Let_def split: option.splits)

lemma run_usage:
  "filter chat_terminal es = [] \<Longrightarrow>
     rc_Usage (fst (run_stream ResponsesEventToChatChunks es st)) = rc_Usage st \<and>
     rc_IncludeUsage (fst (run_stream ResponsesEventToChatChunks es st)) = rc_IncludeUsage st"
proof (induction es arbitrary: st)
  case (Cons e es)
  then have "\<not> chat_terminal e" "filter chat_terminal es = []" by (auto split: if_splits)
  with Cons.IH [of "fst (ResponsesEventToChatChunks e st)"] chat_nonterminal_step [of e st]
  show ?case by (auto simp: usage_untouched)
qed simp

lemma completed_client:
  assumes "re_Response e = Some r" and "re_Usage e = None" and "rc_Usage st = None" and "rc_IncludeUsage st"
    and "cl_Usage m = None" and "rc_SawToolCall st \<longleftrightarrow> cs \<noteq> []"
  shows "accepts client_step m (snd (resToChatHandleCompleted e st)) =
    Some (m\<lparr>cl_Finish := cl_Finish m @ [responsesStatusToChatFinishReason (rr_Status r) (rr_IncompleteDetails r) cs],
            cl_Usage := chatUsageFromResponsesUsage (rr_Usage r)\<rparr>)"
  using assms by (cases m) (auto simp: resToChatHandleCompleted_def responsesStatusToChatFinishReason_def Let_def
      converter_simps chatUsageFromResponsesUsage_def split: option.splits)


definition chat_example_end :: responses_stream_event where
  "chat_example_end = zero_responses_event\<lparr>re_Type := ''response.completed'',
     re_Response := Some (zero_responses_response\<lparr>rr_Status := ''completed''\<rparr>)\<rparr>"

definition chat_example :: "responses_stream_event list" where
  "chat_example =
     [zero_responses_event\<lparr>re_Type := ''response.output_item.added'', re_OutputIndex := 3,
        re_Item := Some (zero_output\<lparr>ro_Type := ''function_call'', ro_CallID := ''call_1'', ro_Name := ''f''\<rparr>)\<rparr>,
      zero_responses_event\<lparr>re_Type := ''response.function_call_arguments.delta'', re_OutputIndex := 3,
        re_Delta := ''{}''\<rparr>]"


text \<open>
  A \<open>custom_tool_call\<close> item is a tool call for the stream and for the accumulator, but the whole
  response conversion drops it: the message of a response that consists of such an item has no tool
  call and its finish reason is never \<open>tool_calls\<close>.
\<close>

theorem whole_response_drops_custom_call:
  assumes "ro_Type item = ''custom_tool_call''" and "re_Type e = ''response.output_item.added''"
    and "re_Item e = Some item" and "rr_Output r = [item]"
  shows "let whole = fst (ResponsesToChatCompletions now r model g)
         in length (snd (ResponsesEventToChatChunks e st)) = 1 \<and> rc_SawToolCall (fst (ResponsesEventToChatChunks e st)) \<and>
            length (ba_funcCalls (ProcessEvent e a)) = Suc (length (ba_funcCalls a)) \<and>
            map (\<lambda>c. cm_ToolCalls (cch_Message c)) (cr_Choices whole) = [[]] \<and>
            ''tool_calls'' \<notin> set (map cch_FinishReason (cr_Choices whole))"
  using assms
  by (simp add: ResponsesToChatCompletions_def outputItemStep_def chat_dispatch resToChatHandleOutputItemAdded_def
      isToolItem_def ProcessEvent_def responsesStatusToChatFinishReason_def Let_def case_prod_beta
      split: option.splits)

lemma whole_response_drops_custom_call_witness:
  "map (\<lambda>c. cm_ToolCalls (cch_Message c)) (cr_Choices (fst (ResponsesToChatCompletions 7
     (zero_responses_response\<lparr>rr_ID := ''resp_1'', rr_Status := ''completed'',
        rr_Output := [zero_output\<lparr>ro_Type := ''custom_tool_call'', ro_CallID := ''call_1'', ro_Name := ''apply_patch''\<rparr>]\<rparr>)
     ''m'' ((\<lambda>n. []), 0)))) = [[]]"
  using whole_response_drops_custom_call [of
      "zero_output\<lparr>ro_Type := ''custom_tool_call'', ro_CallID := ''call_1'', ro_Name := ''apply_patch''\<rparr>"
      "zero_responses_event\<lparr>re_Type := ''response.output_item.added'',
         re_Item := Some (zero_output\<lparr>ro_Type := ''custom_tool_call'', ro_CallID := ''call_1'', ro_Name := ''apply_patch''\<rparr>)\<rparr>"
      "zero_responses_response\<lparr>rr_ID := ''resp_1'', rr_Status := ''completed'',
         rr_Output := [zero_output\<lparr>ro_Type := ''custom_tool_call'', ro_CallID := ''call_1'', ro_Name := ''apply_patch''\<rparr>]\<rparr>"
      7 "''m''" "((\<lambda>n. []), 0)"]
  unfolding Let_def by simp

end
