(* ===== verification/ChatContent.thy ===== *)
theory ChatContent
  imports ApiTypes
begin

text \<open>
  The parts of \<open>chatcompletions_responses_bridge.go\<close> that read raw JSON values, shared by its request
  and its response half: strings, nested strings, and the text of a Chat Completions message content.
  Decoding into \<open>[]ChatContentPart\<close> follows \<open>encoding/json\<close>: field names match up to letter case, a
  later member overwrites an earlier one, null leaves a field as it is, a value of another kind is an
  error.
\<close>

definition bytesTrimSpace :: "raw_message \<Rightarrow> raw_message" where
  "bytesTrimSpace raw = trim_space raw"

definition rawString :: "raw_message \<Rightarrow> string" where
  "rawString raw0 =
     (let raw = bytesTrimSpace raw0 in
      if length raw = 0 \<or> raw = ''null'' then []
      else (case unmarshal_string raw of Some s \<Rightarrow> s | None \<Rightarrow> []))"

definition rawNestedString :: "raw_message \<Rightarrow> string \<Rightarrow> string" where
  "rawNestedString raw key =
     (case unmarshal_object raw of None \<Rightarrow> [] | Some obj \<Rightarrow> rawString (raw_field obj key))"

section \<open>Decoding content parts\<close>

definition is_null :: "raw_message \<Rightarrow> bool" where
  "is_null v \<longleftrightarrow> skip_ws v \<noteq> [] \<and> hd (skip_ws v) = CHR ''n''"

definition is_object :: "raw_message \<Rightarrow> bool" where
  "is_object v \<longleftrightarrow> skip_ws v \<noteq> [] \<and> hd (skip_ws v) = CHR ''{''"

definition decode_string_field :: "raw_message \<Rightarrow> string \<Rightarrow> string option" where
  "decode_string_field v old = (if is_null v then Some old else unmarshal_string v)"

fun decode_fields :: "('a \<Rightarrow> string \<times> raw_message \<Rightarrow> 'a option) \<Rightarrow> 'a \<Rightarrow> (string \<times> raw_message) list \<Rightarrow> 'a option" where
  "decode_fields f x [] = Some x"
| "decode_fields f x (m # ms) = (case f x m of None \<Rightarrow> None | Some y \<Rightarrow> decode_fields f y ms)"

definition decode_object :: "('a \<Rightarrow> string \<times> raw_message \<Rightarrow> 'a option) \<Rightarrow> 'a \<Rightarrow> raw_message \<Rightarrow> 'a option" where
  "decode_object f x v =
     (if is_null v then Some x
      else if is_object v then
        (case unmarshal_object v of None \<Rightarrow> None | Some ms \<Rightarrow> decode_fields f x ms)
      else None)"

definition image_url_field :: "chat_image_url \<Rightarrow> string \<times> raw_message \<Rightarrow> chat_image_url option" where
  "image_url_field u m =
     (if equal_fold (fst m) ''url'' then
        map_option (\<lambda>s. u\<lparr>iu_URL := s\<rparr>) (decode_string_field (snd m) (iu_URL u))
      else if equal_fold (fst m) ''detail'' then
        map_option (\<lambda>s. u\<lparr>iu_Detail := s\<rparr>) (decode_string_field (snd m) (iu_Detail u))
      else Some u)"

definition content_part_field :: "chat_content_part \<Rightarrow> string \<times> raw_message \<Rightarrow> chat_content_part option" where
  "content_part_field p m =
     (if equal_fold (fst m) ''type'' then
        map_option (\<lambda>s. p\<lparr>ccp_Type := s\<rparr>) (decode_string_field (snd m) (ccp_Type p))
      else if equal_fold (fst m) ''text'' then
        map_option (\<lambda>s. p\<lparr>ccp_Text := s\<rparr>) (decode_string_field (snd m) (ccp_Text p))
      else if equal_fold (fst m) ''image_url'' then
        (if is_null (snd m) then Some (p\<lparr>ccp_ImageURL := None\<rparr>)
         else map_option (\<lambda>u. p\<lparr>ccp_ImageURL := Some u\<rparr>)
           (decode_object image_url_field
             (case ccp_ImageURL p of None \<Rightarrow> \<lparr>iu_URL = [], iu_Detail = []\<rparr> | Some u \<Rightarrow> u) (snd m)))
      else Some p)"

fun decode_parts :: "raw_message list \<Rightarrow> chat_content_part list option" where
  "decode_parts [] = Some []"
| "decode_parts (v # vs) =
     (case decode_object content_part_field \<lparr>ccp_Type = [], ccp_Text = [], ccp_ImageURL = None\<rparr> v of
        None \<Rightarrow> None
      | Some p \<Rightarrow> map_option (\<lambda>ps. p # ps) (decode_parts vs))"

definition unmarshal_chat_parts :: "raw_message \<Rightarrow> chat_content_part list option" where
  "unmarshal_chat_parts raw =
     (case unmarshal_array raw of None \<Rightarrow> None | Some vs \<Rightarrow> decode_parts vs)"

section \<open>The text of a message content\<close>

definition paragraph_break :: string where
  "paragraph_break = [CHR 0x0A, CHR 0x0A]"

definition chatMessageContentText :: "raw_message \<Rightarrow> string" where
  "chatMessageContentText raw0 =
     (let raw = bytesTrimSpace raw0 in
      if length raw = 0 \<or> raw = ''null'' then []
      else (case unmarshal_string raw of
              Some t \<Rightarrow> t
            | None \<Rightarrow>
                (case unmarshal_chat_parts raw of
                   Some parts \<Rightarrow>
                     join paragraph_break
                       (map ccp_Text (filter (\<lambda>p. ccp_Type p = ''text'' \<and> ccp_Text p \<noteq> []) parts))
                 | None \<Rightarrow> [])))"

definition isBlankChatContent :: "raw_message \<Rightarrow> bool" where
  "isBlankChatContent raw0 =
     (let raw = bytesTrimSpace raw0 in
      if length raw = 0 \<or> raw = ''null'' \<or> raw = [CHR 0x22, CHR 0x22] then True
      else chatMessageContentText raw = [])"

end
