(* ===== verification/ChatResponses.thy ===== *)
theory ChatResponses
  imports ChatContent "HOL-Library.AList"
begin

text \<open>
  The response half of \<open>chatcompletions_responses_bridge.go\<close>: Chat Completions output shown to a
  client that speaks OpenAI Responses, as a whole response
  (\<open>ChatCompletionsResponseToResponses\<close>) and as a stream
  (\<open>ChatCompletionsChunkToResponsesEvents\<close>, \<open>FinalizeChatCompletionsResponsesStream\<close>). The Go map
  of tool calls is an association list with one entry per key, since the code takes its \<open>len\<close>; the
  two other maps, which are only looked up, are functions.
\<close>

section \<open>Small helpers\<close>

definition nonEmpty :: "string \<Rightarrow> string \<Rightarrow> string" where
  "nonEmpty val fallback = (if val \<noteq> [] then val else fallback)"

definition ChatUsageToResponsesUsage :: "chat_usage option \<Rightarrow> responses_usage option" where
  "ChatUsageToResponsesUsage usage =
     (case usage of
        None \<Rightarrow> None
      | Some u \<Rightarrow> Some \<lparr>ru_InputTokens = cu_PromptTokens u, ru_OutputTokens = cu_CompletionTokens u,
          ru_TotalTokens = (if cu_TotalTokens u = 0 then add64 (cu_PromptTokens u) (cu_CompletionTokens u)
            else cu_TotalTokens u),
          ru_InputTokensDetails =
            (case cu_PromptTokensDetails u of
               Some d \<Rightarrow> if ctd_CachedTokens d > 0
                 then Some \<lparr>itd_CachedTokens = ctd_CachedTokens d, itd_AudioTokens = 0\<rparr> else None
             | None \<Rightarrow> None),
          ru_OutputTokensDetails = None\<rparr>)"

text \<open>An argument text that is blank is sent as the empty object.\<close>

definition argumentsOrEmpty :: "string \<Rightarrow> string" where
  "argumentsOrEmpty arguments = (if trim_space arguments = [] then ''{}'' else arguments)"

section \<open>Stream state\<close>

record chat_to_res_state =
  cs_ResponseID :: string
  cs_Model :: string
  cs_Created :: int
  cs_SequenceNumber :: int
  cs_CreatedSent :: bool
  cs_CompletedSent :: bool
  cs_nextOutputIndex :: int
  cs_ReasoningItemID :: string
  cs_ReasoningIndex :: int
  cs_ReasoningOpen :: bool
  cs_ReasoningDone :: bool
  cs_MessageItemID :: string
  cs_MessageIndex :: int
  cs_TextPartOpen :: bool
  cs_Text :: string
  cs_Reasoning :: string
  cs_ToolCalls :: "(int \<times> chat_tool_call) list"
  cs_ToolItemIDs :: "int \<rightharpoonup> string"
  cs_ToolOutputIndex :: "int \<rightharpoonup> int"
  cs_FinishReason :: string
  cs_Usage :: "responses_usage option"
  cs_Rand :: rand_source

definition NewChatCompletionsToResponsesStreamState ::
    "int \<Rightarrow> rand_source \<Rightarrow> string \<Rightarrow> chat_to_res_state" where
  "NewChatCompletionsToResponsesStreamState now g model =
     (let (rid, g') = generateResponsesID g in
      \<lparr>cs_ResponseID = rid, cs_Model = model, cs_Created = now, cs_SequenceNumber = 0,
       cs_CreatedSent = False, cs_CompletedSent = False, cs_nextOutputIndex = 0, cs_ReasoningItemID = [],
       cs_ReasoningIndex = 0, cs_ReasoningOpen = False, cs_ReasoningDone = False, cs_MessageItemID = [],
       cs_MessageIndex = 0, cs_TextPartOpen = False, cs_Text = [], cs_Reasoning = [], cs_ToolCalls = [],
       cs_ToolItemIDs = Map.empty, cs_ToolOutputIndex = Map.empty, cs_FinishReason = [],
       cs_Usage = None, cs_Rand = g'\<rparr>)"

type_synonym chat_to_res = "chat_to_res_state \<times> responses_stream_event list"
type_synonym chat_action = "chat_to_res_state \<Rightarrow> chat_to_res"

definition allocOutputIndex :: "chat_to_res_state \<Rightarrow> int \<times> chat_to_res_state" where
  "allocOutputIndex st = (cs_nextOutputIndex st, st\<lparr>cs_nextOutputIndex := cs_nextOutputIndex st + 1\<rparr>)"

definition newItemID :: "chat_to_res_state \<Rightarrow> string \<times> chat_to_res_state" where
  "newItemID st = (let (i, g) = generateItemID (cs_Rand st) in (i, st\<lparr>cs_Rand := g\<rparr>))"

definition chatToResponsesEvent :: "string \<Rightarrow> responses_stream_event \<Rightarrow> chat_action" where
  "chatToResponsesEvent eventType template st =
     (st\<lparr>cs_SequenceNumber := cs_SequenceNumber st + 1\<rparr>,
      [template\<lparr>re_Type := eventType, re_SequenceNumber := cs_SequenceNumber st\<rparr>])"

text \<open>An event whose template reads the state at the moment it is built.\<close>

definition emit :: "string \<Rightarrow> (chat_to_res_state \<Rightarrow> responses_stream_event) \<Rightarrow> chat_action" where
  "emit eventType template st = chatToResponsesEvent eventType (template st) st"

section \<open>Opening and closing items\<close>

definition ensureChatToResponsesCreated :: chat_action where
  "ensureChatToResponsesCreated st =
     (if cs_CreatedSent st then (st, [])
      else emit ''response.created''
             (\<lambda>s. zero_responses_event\<lparr>re_Response := Some (zero_responses_response\<lparr>
                rr_ID := cs_ResponseID s, rr_Object := ''response'', rr_Model := cs_Model s,
                rr_Status := ''in_progress'', rr_Output := []\<rparr>)\<rparr>)
             (st\<lparr>cs_CreatedSent := True\<rparr>))"

definition ensureChatReasoningItem :: chat_action where
  "ensureChatReasoningItem st =
     (if cs_ReasoningOpen st \<or> cs_ReasoningDone st then (st, [])
      else (let (iid, st1) = newItemID (st\<lparr>cs_ReasoningOpen := True\<rparr>);
                (oi, st2) = allocOutputIndex (st1\<lparr>cs_ReasoningItemID := iid\<rparr>)
            in chain
                 [emit ''response.output_item.added''
                    (\<lambda>s. zero_responses_event\<lparr>re_OutputIndex := cs_ReasoningIndex s,
                       re_Item := Some (zero_output\<lparr>ro_Type := ''reasoning'',
                         ro_ID := cs_ReasoningItemID s, ro_Status := ''in_progress''\<rparr>)\<rparr>),
                  emit ''response.reasoning_summary_part.added''
                    (\<lambda>s. zero_responses_event\<lparr>re_OutputIndex := cs_ReasoningIndex s,
                       re_SummaryIndex := 0, re_ItemID := cs_ReasoningItemID s,
                       re_Part := Some (zero_content_part\<lparr>rcp_Type := ''summary_text''\<rparr>)\<rparr>)]
                 (st2\<lparr>cs_ReasoningIndex := oi\<rparr>)))"

definition closeChatReasoningItem :: chat_action where
  "closeChatReasoningItem st =
     (if \<not> cs_ReasoningOpen st then (st, [])
      else chain
             [emit ''response.reasoning_summary_text.done''
                (\<lambda>s. zero_responses_event\<lparr>re_OutputIndex := cs_ReasoningIndex s, re_SummaryIndex := 0,
                   re_Text := cs_Reasoning s, re_ItemID := cs_ReasoningItemID s\<rparr>),
              emit ''response.reasoning_summary_part.done''
                (\<lambda>s. zero_responses_event\<lparr>re_OutputIndex := cs_ReasoningIndex s, re_SummaryIndex := 0,
                   re_ItemID := cs_ReasoningItemID s,
                   re_Part := Some (zero_content_part\<lparr>rcp_Type := ''summary_text'',
                     rcp_Text := cs_Reasoning s\<rparr>)\<rparr>),
              emit ''response.output_item.done''
                (\<lambda>s. zero_responses_event\<lparr>re_OutputIndex := cs_ReasoningIndex s,
                   re_Item := Some (zero_output\<lparr>ro_Type := ''reasoning'', ro_ID := cs_ReasoningItemID s,
                     ro_Status := ''completed'',
                     ro_Summary := [\<lparr>rs_Type = ''summary_text'', rs_Text = cs_Reasoning s\<rparr>]\<rparr>)\<rparr>)]
             (st\<lparr>cs_ReasoningOpen := False, cs_ReasoningDone := True\<rparr>))"

definition ensureChatToResponsesMessageItem :: chat_action where
  "ensureChatToResponsesMessageItem st =
     (if cs_MessageItemID st \<noteq> [] then (st, [])
      else (let (iid, st1) = newItemID st;
                (oi, st2) = allocOutputIndex (st1\<lparr>cs_MessageItemID := iid\<rparr>)
            in emit ''response.output_item.added''
                 (\<lambda>s. zero_responses_event\<lparr>re_OutputIndex := cs_MessageIndex s,
                    re_Item := Some (zero_output\<lparr>ro_Type := ''message'', ro_ID := cs_MessageItemID s,
                      ro_Role := ''assistant'', ro_Status := ''in_progress'',
                      ro_Content := [zero_content_part\<lparr>rcp_Type := ''output_text''\<rparr>]\<rparr>)\<rparr>)
                 (st2\<lparr>cs_MessageIndex := oi\<rparr>)))"

definition ensureChatToResponsesTextPart :: chat_action where
  "ensureChatToResponsesTextPart st =
     (if cs_TextPartOpen st then (st, [])
      else emit ''response.content_part.added''
             (\<lambda>s. zero_responses_event\<lparr>re_OutputIndex := cs_MessageIndex s, re_ContentIndex := 0,
                re_ItemID := cs_MessageItemID s,
                re_Part := Some (zero_content_part\<lparr>rcp_Type := ''output_text'', rcp_Text := []\<rparr>)\<rparr>)
             (st\<lparr>cs_TextPartOpen := True\<rparr>))"

text \<open>Appending to the message text and sending the delta, as both the chunk handler and the
  reasoning fallback do.\<close>

definition appendChatText :: "string \<Rightarrow> chat_action" where
  "appendChatText t st =
     emit ''response.output_text.delta''
       (\<lambda>s. zero_responses_event\<lparr>re_OutputIndex := cs_MessageIndex s, re_ContentIndex := 0,
          re_Delta := t, re_ItemID := cs_MessageItemID s\<rparr>)
       (st\<lparr>cs_Text := cs_Text st @ t\<rparr>)"

definition synthesizeChatReasoningFallbackMessage :: chat_action where
  "synthesizeChatReasoningFallbackMessage st =
     (if cs_MessageItemID st \<noteq> [] \<or> length (cs_Text st) > 0 \<or> length (cs_Reasoning st) = 0 \<or>
         length (cs_ToolCalls st) > 0 then (st, [])
      else if trim_space (cs_Reasoning st) = [] then (st, [])
      else chain [ensureChatToResponsesMessageItem, ensureChatToResponsesTextPart,
                  appendChatText (cs_Reasoning st)] st)"

section \<open>One chunk\<close>

definition chatReasoningDelta :: "string option \<Rightarrow> chat_action" where
  "chatReasoningDelta r st =
     (case r of
        None \<Rightarrow> (st, [])
      | Some t \<Rightarrow>
          if t = [] then (st, [])
          else chain
                 [ensureChatReasoningItem,
                  \<lambda>s. emit ''response.reasoning_summary_text.delta''
                    (\<lambda>s. zero_responses_event\<lparr>re_OutputIndex := cs_ReasoningIndex s,
                       re_SummaryIndex := 0, re_Delta := t, re_ItemID := cs_ReasoningItemID s\<rparr>)
                    (s\<lparr>cs_Reasoning := cs_Reasoning s @ t\<rparr>)] st)"

definition chatContentDelta :: "string option \<Rightarrow> chat_action" where
  "chatContentDelta c st =
     (case c of
        None \<Rightarrow> (st, [])
      | Some t \<Rightarrow>
          if t = [] then (st, [])
          else chain [closeChatReasoningItem, ensureChatToResponsesMessageItem,
                      ensureChatToResponsesTextPart, appendChatText t] st)"

definition toolIndex :: "chat_tool_call \<Rightarrow> int" where
  "toolIndex tc = (case tc_Index tc of None \<Rightarrow> 0 | Some i \<Rightarrow> i)"

definition openChatTool :: "chat_tool_call \<Rightarrow> chat_action" where
  "openChatTool toolCall st =
     (let idx = toolIndex toolCall;
          (cid, st1) = (if tc_ID toolCall = [] then newItemID st else (tc_ID toolCall, st));
          copyCall = toolCall\<lparr>tc_ID := cid, tc_Type := ''function''\<rparr>;
          (itemID, st2) = newItemID (st1\<lparr>cs_ToolCalls := AList.update idx copyCall (cs_ToolCalls st1)\<rparr>);
          (oi, st3) = allocOutputIndex (st2\<lparr>cs_ToolItemIDs := (cs_ToolItemIDs st2)(idx \<mapsto> itemID)\<rparr>)
      in emit ''response.output_item.added''
           (\<lambda>s. zero_responses_event\<lparr>re_OutputIndex := oi,
              re_Item := Some (zero_output\<lparr>ro_Type := ''function_call'', ro_ID := itemID,
                ro_CallID := tc_ID copyCall, ro_Name := cf_Name (tc_Function copyCall),
                ro_Status := ''in_progress''\<rparr>)\<rparr>)
           (st3\<lparr>cs_ToolOutputIndex := (cs_ToolOutputIndex st3)(idx \<mapsto> oi)\<rparr>))"

definition updateChatTool :: "chat_tool_call \<Rightarrow> chat_tool_call \<Rightarrow> chat_action" where
  "updateChatTool toolCall stored st =
     (let s1 = (if tc_ID toolCall \<noteq> [] then stored\<lparr>tc_ID := tc_ID toolCall\<rparr> else stored);
          s2 = (if cf_Name (tc_Function toolCall) \<noteq> []
                then s1\<lparr>tc_Function := (tc_Function s1)\<lparr>cf_Name := cf_Name (tc_Function toolCall)\<rparr>\<rparr> else s1)
      in (st\<lparr>cs_ToolCalls := AList.update (toolIndex toolCall) s2 (cs_ToolCalls st)\<rparr>, []))"

definition openOrUpdateTool :: "chat_tool_call \<Rightarrow> chat_action" where
  "openOrUpdateTool toolCall st =
     (case map_of (cs_ToolCalls st) (toolIndex toolCall) of
        None \<Rightarrow> chain [closeChatReasoningItem, openChatTool toolCall] st
      | Some stored \<Rightarrow> updateChatTool toolCall stored st)"

definition toolItemID :: "chat_to_res_state \<Rightarrow> int \<Rightarrow> string" where
  "toolItemID st i = (case cs_ToolItemIDs st i of None \<Rightarrow> [] | Some x \<Rightarrow> x)"

definition toolOutputIndex :: "chat_to_res_state \<Rightarrow> int \<Rightarrow> int" where
  "toolOutputIndex st i = (case cs_ToolOutputIndex st i of None \<Rightarrow> 0 | Some x \<Rightarrow> x)"

definition chatToolArguments :: "chat_tool_call \<Rightarrow> chat_action" where
  "chatToolArguments toolCall st =
     (if cf_Arguments (tc_Function toolCall) = [] then (st, [])
      else (case map_of (cs_ToolCalls st) (toolIndex toolCall) of
              None \<Rightarrow> (st, [])
            | Some stored \<Rightarrow>
                (let f = tc_Function stored;
                     stored' = stored\<lparr>tc_Function :=
                       f\<lparr>cf_Arguments := cf_Arguments f @ cf_Arguments (tc_Function toolCall)\<rparr>\<rparr>
                 in emit ''response.function_call_arguments.delta''
                      (\<lambda>s. zero_responses_event\<lparr>re_OutputIndex := toolOutputIndex s (toolIndex toolCall),
                         re_ItemID := toolItemID s (toolIndex toolCall),
                         re_Delta := cf_Arguments (tc_Function toolCall), re_CallID := tc_ID stored',
                         re_Name := cf_Name (tc_Function stored')\<rparr>)
                      (st\<lparr>cs_ToolCalls := AList.update (toolIndex toolCall) stored' (cs_ToolCalls st)\<rparr>))))"

definition chatToolDelta :: "chat_tool_call \<Rightarrow> chat_action" where
  "chatToolDelta toolCall = chain [openOrUpdateTool toolCall, chatToolArguments toolCall]"

definition chatFinishReason :: "string option \<Rightarrow> chat_action" where
  "chatFinishReason f st =
     (case f of None \<Rightarrow> (st, []) | Some r \<Rightarrow> (if r \<noteq> [] then st\<lparr>cs_FinishReason := r\<rparr> else st, []))"

definition chatChoice :: "chat_chunk_choice \<Rightarrow> chat_action" where
  "chatChoice c = chain
     ([chatReasoningDelta (cd_ReasoningContent (ck_Delta c)), chatContentDelta (cd_Content (ck_Delta c))] @
      map chatToolDelta (cd_ToolCalls (ck_Delta c)) @ [chatFinishReason (ck_FinishReason c)])"

definition chatChunkHead :: "chat_completions_chunk \<Rightarrow> chat_action" where
  "chatChunkHead chunk st =
     (let st1 = (if ch_ID chunk \<noteq> [] then st\<lparr>cs_ResponseID := ch_ID chunk\<rparr> else st);
          st2 = (if cs_Model st1 = [] \<and> ch_Model chunk \<noteq> [] then st1\<lparr>cs_Model := ch_Model chunk\<rparr> else st1);
          st3 = (if ch_Usage chunk \<noteq> None
                 then st2\<lparr>cs_Usage := ChatUsageToResponsesUsage (ch_Usage chunk)\<rparr> else st2)
      in (st3, []))"

definition ChatCompletionsChunkToResponsesEvents :: "chat_completions_chunk \<Rightarrow> chat_action" where
  "ChatCompletionsChunkToResponsesEvents chunk = chain
     ([chatChunkHead chunk, ensureChatToResponsesCreated] @ map chatChoice (ch_Choices chunk))"

section \<open>The end of the stream\<close>

definition closeChatToolItem :: "int \<Rightarrow> chat_action" where
  "closeChatToolItem i st =
     (case (map_of (cs_ToolCalls st) i, cs_ToolItemIDs st i) of
        (Some toolCall, Some itemID) \<Rightarrow>
          (let arguments = argumentsOrEmpty (cf_Arguments (tc_Function toolCall));
               outputIndex = toolOutputIndex st i
           in chain
                [emit ''response.function_call_arguments.done''
                   (\<lambda>s. zero_responses_event\<lparr>re_OutputIndex := outputIndex, re_ItemID := itemID,
                      re_CallID := tc_ID toolCall, re_Name := cf_Name (tc_Function toolCall),
                      re_Arguments := arguments\<rparr>),
                 emit ''response.output_item.done''
                   (\<lambda>s. zero_responses_event\<lparr>re_OutputIndex := outputIndex,
                      re_Item := Some (zero_output\<lparr>ro_Type := ''function_call'', ro_ID := itemID,
                        ro_CallID := tc_ID toolCall, ro_Name := cf_Name (tc_Function toolCall),
                        ro_Arguments := arguments, ro_Status := ''completed''\<rparr>)\<rparr>)] st)
      | _ \<Rightarrow> (st, []))"

definition closeChatToolItems :: chat_action where
  "closeChatToolItems st = chain (map (\<lambda>i. closeChatToolItem (int i)) [0..<length (cs_ToolCalls st)]) st"

definition closeChatMessage :: chat_action where
  "closeChatMessage st =
     (if cs_MessageItemID st = [] then (st, [])
      else chain
        [\<lambda>s. if \<not> cs_TextPartOpen s then (s, [])
             else chain
               [emit ''response.output_text.done''
                  (\<lambda>s. zero_responses_event\<lparr>re_OutputIndex := cs_MessageIndex s, re_ContentIndex := 0,
                     re_Text := cs_Text s, re_ItemID := cs_MessageItemID s\<rparr>),
                emit ''response.content_part.done''
                  (\<lambda>s. zero_responses_event\<lparr>re_OutputIndex := cs_MessageIndex s, re_ContentIndex := 0,
                     re_ItemID := cs_MessageItemID s,
                     re_Part := Some (zero_content_part\<lparr>rcp_Type := ''output_text'',
                       rcp_Text := cs_Text s\<rparr>)\<rparr>)] s,
         emit ''response.output_item.done''
           (\<lambda>s. zero_responses_event\<lparr>re_OutputIndex := cs_MessageIndex s,
              re_Item := Some (zero_output\<lparr>ro_Type := ''message'', ro_ID := cs_MessageItemID s,
                ro_Role := ''assistant'',
                ro_Content := [zero_content_part\<lparr>rcp_Type := ''output_text'', rcp_Text := cs_Text s\<rparr>],
                ro_Status := ''completed''\<rparr>)\<rparr>)] st)"

fun chatToolOutputs :: "(int \<times> chat_tool_call) list \<Rightarrow> int list \<Rightarrow> rand_source \<Rightarrow>
    responses_output list \<times> rand_source" where
  "chatToolOutputs calls [] g = ([], g)"
| "chatToolOutputs calls (i # is) g =
     (case map_of calls i of
        None \<Rightarrow> chatToolOutputs calls is g
      | Some toolCall \<Rightarrow>
          (let (iid, g1) = generateItemID g; (os, g2) = chatToolOutputs calls is g1
           in (zero_output\<lparr>ro_Type := ''function_call'', ro_ID := iid, ro_CallID := tc_ID toolCall,
                 ro_Name := cf_Name (tc_Function toolCall),
                 ro_Arguments := argumentsOrEmpty (cf_Arguments (tc_Function toolCall)),
                 ro_Status := ''completed''\<rparr> # os, g2)))"

definition chatOutput :: "chat_to_res_state \<Rightarrow> responses_output list \<times> chat_to_res_state" where
  "chatOutput st =
     (let (os1, st1) =
            (if length (cs_Reasoning st) > 0 then
               (let (iid, s) = newItemID st in
                ([zero_output\<lparr>ro_Type := ''reasoning'', ro_ID := iid,
                    ro_Summary := [\<lparr>rs_Type = ''summary_text'', rs_Text = cs_Reasoning st\<rparr>]\<rparr>], s))
             else ([], st));
          (os2, st2) =
            (if cs_MessageItemID st1 \<noteq> [] \<or> length (cs_ToolCalls st1) = 0 then
               (let (iid, s) = newItemID st1 in
                ([zero_output\<lparr>ro_Type := ''message'', ro_ID := nonEmpty (cs_MessageItemID st1) iid,
                    ro_Role := ''assistant'',
                    ro_Content := [zero_content_part\<lparr>rcp_Type := ''output_text'', rcp_Text := cs_Text st1\<rparr>],
                    ro_Status := ''completed''\<rparr>], s))
             else ([], st1));
          (os3, g) = chatToolOutputs (cs_ToolCalls st2) (map int [0..<length (cs_ToolCalls st2)]) (cs_Rand st2)
      in (os1 @ os2 @ os3, st2\<lparr>cs_Rand := g\<rparr>))"

definition chatCompletedEvent :: chat_action where
  "chatCompletedEvent st =
     (let status = (if cs_FinishReason st = ''length'' then ''incomplete'' else ''completed'');
          details = (if cs_FinishReason st = ''length''
                     then Some \<lparr>rid_Reason = ''max_output_tokens''\<rparr> else None);
          (outs, st1) = chatOutput (st\<lparr>cs_CompletedSent := True\<rparr>)
      in emit ''response.completed''
           (\<lambda>s. zero_responses_event\<lparr>re_Response := Some (zero_responses_response\<lparr>
              rr_ID := cs_ResponseID s, rr_Object := ''response'', rr_Model := cs_Model s,
              rr_Status := status, rr_Output := outs, rr_Usage := cs_Usage s,
              rr_IncompleteDetails := details\<rparr>)\<rparr>) st1)"

definition FinalizeChatCompletionsResponsesStream :: chat_action where
  "FinalizeChatCompletionsResponsesStream st =
     (if cs_CompletedSent st then (st, [])
      else chain [ensureChatToResponsesCreated, closeChatReasoningItem,
                  synthesizeChatReasoningFallbackMessage, closeChatMessage, closeChatToolItems,
                  chatCompletedEvent] st)"

section \<open>Whole responses\<close>

definition emptyResponsesMessageOutput :: "rand_source \<Rightarrow> responses_output \<times> rand_source" where
  "emptyResponsesMessageOutput g =
     (let (iid, g1) = generateItemID g in
      (zero_output\<lparr>ro_Type := ''message'', ro_ID := iid, ro_Role := ''assistant'',
         ro_Content := [zero_content_part\<lparr>rcp_Type := ''output_text'', rcp_Text := []\<rparr>],
         ro_Status := ''completed''\<rparr>, g1))"

fun messageToolOutputs :: "chat_tool_call list \<Rightarrow> rand_source \<Rightarrow> responses_output list \<times> rand_source" where
  "messageToolOutputs [] g = ([], g)"
| "messageToolOutputs (tc # tcs) g =
     (let (iid, g1) = generateItemID g; (os, g2) = messageToolOutputs tcs g1
      in (zero_output\<lparr>ro_Type := ''function_call'', ro_ID := iid, ro_CallID := tc_ID tc,
            ro_Name := cf_Name (tc_Function tc),
            ro_Arguments := argumentsOrEmpty (cf_Arguments (tc_Function tc)),
            ro_Status := ''completed''\<rparr> # os, g2))"

definition chatMessageToResponsesOutput ::
    "chat_message \<Rightarrow> rand_source \<Rightarrow> responses_output list \<times> rand_source" where
  "chatMessageToResponsesOutput message g0 =
     (let (os1, g1) =
            (if cm_ReasoningContent message \<noteq> [] then
               (let (iid, g) = generateItemID g0 in
                ([zero_output\<lparr>ro_Type := ''reasoning'', ro_ID := iid,
                    ro_Summary := [\<lparr>rs_Type = ''summary_text'', rs_Text = cm_ReasoningContent message\<rparr>]\<rparr>], g))
             else ([], g0));
          text0 = chatMessageContentText (cm_Content message);
          t = (if text0 = [] \<and> trim_space (cm_ReasoningContent message) \<noteq> [] \<and>
                  length (cm_ToolCalls message) = 0
               then cm_ReasoningContent message else text0);
          (os2, g2) =
            (if t \<noteq> [] \<or> length (cm_ToolCalls message) = 0 then
               (let (iid, g) = generateItemID g1 in
                ([zero_output\<lparr>ro_Type := ''message'', ro_ID := iid, ro_Role := ''assistant'',
                    ro_Content := [zero_content_part\<lparr>rcp_Type := ''output_text'', rcp_Text := t\<rparr>],
                    ro_Status := ''completed''\<rparr>], g))
             else ([], g1));
          (os3, g3) = messageToolOutputs (cm_ToolCalls message) g2
      in (os1 @ os2 @ os3, g3))"

definition ChatCompletionsResponseToResponses ::
    "chat_completions_response option \<Rightarrow> string \<Rightarrow> rand_source \<Rightarrow> responses_response \<times> rand_source" where
  "ChatCompletionsResponseToResponses resp model g0 =
     (let id0 = (case resp of None \<Rightarrow> [] | Some r \<Rightarrow> cr_ID r);
          (rid, g1) = (if id0 = [] then generateResponsesID g0 else (id0, g0));
          out0 = zero_responses_response\<lparr>rr_ID := rid, rr_Object := ''response'', rr_Model := model,
            rr_Status := ''completed''\<rparr>
      in case resp of
           None \<Rightarrow> (let (o1, g2) = emptyResponsesMessageOutput g1 in (out0\<lparr>rr_Output := [o1]\<rparr>, g2))
         | Some r \<Rightarrow>
             (let out1 = (if model = [] then out0\<lparr>rr_Model := cr_Model r\<rparr> else out0);
                  (out2, g2) =
                    (case cr_Choices r of
                       [] \<Rightarrow> (out1, g1)
                     | choice # rest \<Rightarrow>
                         (let (os, g) = chatMessageToResponsesOutput (cch_Message choice) g1;
                              out' = out1\<lparr>rr_Output := os\<rparr>
                          in (if cch_FinishReason choice = ''length''
                              then out'\<lparr>rr_Status := ''incomplete'',
                                rr_IncompleteDetails := Some \<lparr>rid_Reason = ''max_output_tokens''\<rparr>\<rparr>
                              else out', g)));
                  (out3, g3) =
                    (if length (rr_Output out2) = 0 then
                       (let (o1, g) = emptyResponsesMessageOutput g2 in (out2\<lparr>rr_Output := [o1]\<rparr>, g))
                     else (out2, g2))
              in (if cr_Usage r \<noteq> None
                  then out3\<lparr>rr_Usage := ChatUsageToResponsesUsage (cr_Usage r)\<rparr> else out3, g3)))"

section \<open>Sequence numbers\<close>

definition numbered :: "int \<Rightarrow> chat_to_res \<Rightarrow> bool" where
  "numbered n r \<longleftrightarrow> n \<le> cs_SequenceNumber (fst r) \<and>
     map re_SequenceNumber (snd r) = [n..cs_SequenceNumber (fst r) - 1]"

lemma numbered_None [simp]: "numbered n (st, []) \<longleftrightarrow> n = cs_SequenceNumber st"
  by (auto simp: numbered_def)

lemma numbered_emit: "n = cs_SequenceNumber st \<Longrightarrow> numbered n (emit t f st)"
  by (simp add: numbered_def emit_def chatToResponsesEvent_def)

lemma numbered_append:
  "numbered n (st1, es) \<Longrightarrow> numbered (cs_SequenceNumber st1) (st2, fs) \<Longrightarrow> numbered n (st2, es @ fs)"
  by (auto simp: numbered_def upto_append)

lemma numbered_chain:
  "(\<And>f s. f \<in> set fs \<Longrightarrow> numbered (cs_SequenceNumber s) (f s)) \<Longrightarrow> n = cs_SequenceNumber st \<Longrightarrow>
   numbered n (chain fs st)"
proof (induction fs arbitrary: n st)
  case (Cons f fs)
  have "numbered n (fst (f st), snd (f st))" using Cons.prems by simp
  moreover have "numbered (cs_SequenceNumber (fst (f st)))
      (fst (chain fs (fst (f st))), snd (chain fs (fst (f st))))"
    using Cons.IH [of "cs_SequenceNumber (fst (f st))" "fst (f st)"] Cons.prems(1) by simp
  ultimately show ?case unfolding chain_simps by (rule numbered_append)
qed simp

lemma item_id_fields [simp]:
  "cs_SequenceNumber (snd (newItemID st)) = cs_SequenceNumber st"
  "cs_SequenceNumber (snd (allocOutputIndex st)) = cs_SequenceNumber st"
  by (simp_all add: newItemID_def allocOutputIndex_def case_prod_beta Let_def)

lemmas chat_item_defs = ensureChatToResponsesCreated_def ensureChatReasoningItem_def
  closeChatReasoningItem_def ensureChatToResponsesMessageItem_def ensureChatToResponsesTextPart_def
  appendChatText_def

lemma chat_items_numbered:
  "numbered (cs_SequenceNumber st) (ensureChatToResponsesCreated st)"
  "numbered (cs_SequenceNumber st) (ensureChatReasoningItem st)"
  "numbered (cs_SequenceNumber st) (closeChatReasoningItem st)"
  "numbered (cs_SequenceNumber st) (ensureChatToResponsesMessageItem st)"
  "numbered (cs_SequenceNumber st) (ensureChatToResponsesTextPart st)"
  "numbered (cs_SequenceNumber st) (appendChatText t st)"
  unfolding chat_item_defs
  by (auto simp: Let_def case_prod_beta simp del: chain_simps intro!: numbered_emit numbered_chain)

lemma synthesize_numbered:
  "numbered (cs_SequenceNumber st) (synthesizeChatReasoningFallbackMessage st)"
  unfolding synthesizeChatReasoningFallbackMessage_def
  by (auto simp: chat_items_numbered simp del: chain_simps intro!: numbered_chain)

lemma deltas_numbered:
  "numbered (cs_SequenceNumber st) (chatReasoningDelta r st)"
  "numbered (cs_SequenceNumber st) (chatContentDelta r st)"
  "numbered (cs_SequenceNumber st) (openChatTool tc st)"
  "numbered (cs_SequenceNumber st) (updateChatTool tc stored st)"
  "numbered (cs_SequenceNumber st) (chatToolArguments tc st)"
  "numbered (cs_SequenceNumber st) (chatFinishReason f st)"
  "numbered (cs_SequenceNumber st) (chatChunkHead c st)"
  unfolding chatReasoningDelta_def chatContentDelta_def openChatTool_def updateChatTool_def
    chatToolArguments_def chatFinishReason_def chatChunkHead_def
  by (auto simp: Let_def case_prod_beta chat_items_numbered simp del: chain_simps
      intro!: numbered_emit numbered_chain split: option.splits)

lemma chunk_numbered:
  "numbered (cs_SequenceNumber st) (ChatCompletionsChunkToResponsesEvents c st)"
proof -
  have "numbered (cs_SequenceNumber s) (openOrUpdateTool tc s)" for tc s
    unfolding openOrUpdateTool_def
    by (auto simp: chat_items_numbered deltas_numbered simp del: chain_simps intro!: numbered_chain
        split: option.splits)
  then have "numbered (cs_SequenceNumber s) (chatToolDelta tc s)" for tc s
    unfolding chatToolDelta_def
    by (auto simp: deltas_numbered simp del: chain_simps intro!: numbered_chain)
  then have "numbered (cs_SequenceNumber s) (chatChoice k s)" for k s
    unfolding chatChoice_def
    by (auto simp: deltas_numbered simp del: chain_simps intro!: numbered_chain)
  then show ?thesis
    unfolding ChatCompletionsChunkToResponsesEvents_def
    by (auto simp: deltas_numbered chat_items_numbered simp del: chain_simps intro!: numbered_chain)
qed

lemma chatOutput_fields [simp]:
  "cs_SequenceNumber (snd (chatOutput st)) = cs_SequenceNumber st"
  by (simp add: chatOutput_def newItemID_def Let_def case_prod_beta)

lemma chat_finalize_numbered:
  "numbered (cs_SequenceNumber st) (FinalizeChatCompletionsResponsesStream st)"
proof -
  have "numbered (cs_SequenceNumber s) (closeChatToolItem i s)" for i s
    unfolding closeChatToolItem_def
    by (auto simp: Let_def simp del: chain_simps intro!: numbered_emit numbered_chain split: option.splits)
  then have "numbered (cs_SequenceNumber s) (closeChatToolItems s)" for s
    unfolding closeChatToolItems_def by (auto simp del: chain_simps intro!: numbered_chain)
  moreover have "numbered (cs_SequenceNumber s) (closeChatMessage s)" for s
    unfolding closeChatMessage_def
    by (auto simp del: chain_simps intro!: numbered_emit numbered_chain)
  moreover have "numbered (cs_SequenceNumber s) (chatCompletedEvent s)" for s
    unfolding chatCompletedEvent_def by (auto simp: Let_def case_prod_beta intro!: numbered_emit)
  ultimately show ?thesis
    unfolding FinalizeChatCompletionsResponsesStream_def
    by (auto simp: chat_items_numbered synthesize_numbered simp del: chain_simps intro!: numbered_chain)
qed

interpretation chat_res_seq: stream_seq ChatCompletionsChunkToResponsesEvents cs_SequenceNumber re_SequenceNumber
  using chunk_numbered by unfold_locales (simp_all add: numbered_def)

section \<open>Text\<close>

lemma collect_chain:
  "(\<And>f s. f \<in> set fs \<Longrightarrow> collect p (snd (f s)) = q f) \<Longrightarrow> collect p (snd (chain fs st)) = collect q fs"
  by (induction fs arbitrary: st) simp_all

lemma emit_text [content_simps]:
  "t \<noteq> ''response.output_text.delta'' \<Longrightarrow> collect res_text (snd (emit t f st)) = []"
  "collect res_text (snd (appendChatText u st)) = u"
  by (simp_all add: emit_def appendChatText_def chatToResponsesEvent_def res_text_def)

lemma chat_items_text [content_simps]:
  "collect res_text (snd (ensureChatToResponsesCreated st)) = []"
  "collect res_text (snd (ensureChatReasoningItem st)) = []"
  "collect res_text (snd (closeChatReasoningItem st)) = []"
  "collect res_text (snd (ensureChatToResponsesMessageItem st)) = []"
  "collect res_text (snd (ensureChatToResponsesTextPart st)) = []"
  unfolding ensureChatToResponsesCreated_def ensureChatReasoningItem_def
    closeChatReasoningItem_def ensureChatToResponsesMessageItem_def ensureChatToResponsesTextPart_def
  by (simp_all add: content_simps Let_def case_prod_beta)

lemma chat_deltas_text [content_simps]:
  "collect res_text (snd (chatReasoningDelta r st)) = []"
  "collect res_text (snd (chatContentDelta c st)) = (case c of None \<Rightarrow> [] | Some t \<Rightarrow> t)"
  "collect res_text (snd (openOrUpdateTool tc st)) = []"
  "collect res_text (snd (chatToolArguments tc st)) = []"
  "collect res_text (snd (chatToolDelta tc st)) = []"
  "collect res_text (snd (chatFinishReason f st)) = []"
  "collect res_text (snd (chatChunkHead k st)) = []"
  unfolding chatReasoningDelta_def chatContentDelta_def openOrUpdateTool_def openChatTool_def
    updateChatTool_def chatToolDelta_def chatToolArguments_def chatFinishReason_def chatChunkHead_def
  by (simp_all add: content_simps Let_def case_prod_beta split: option.splits)

lemma chain_append:
  "chain (fs @ gs) st =
     (fst (chain gs (fst (chain fs st))), snd (chain fs st) @ snd (chain gs (fst (chain fs st))))"
  by (induction fs arbitrary: st) (simp_all add: prod_eq_iff)

lemma tool_deltas_text: "collect res_text (snd (chain (map chatToolDelta tcs) st)) = []"
  by (induction tcs arbitrary: st) (simp_all add: content_simps)

lemma chat_choice_text [content_simps]:
  "collect res_text (snd (chatChoice c st)) = (case cd_Content (ck_Delta c) of None \<Rightarrow> [] | Some t \<Rightarrow> t)"
  by (simp add: chatChoice_def chain_append tool_deltas_text content_simps)

lemma chat_choices_text:
  "collect res_text (snd (chain (map chatChoice cs) st)) =
     concat (map (\<lambda>ch. case cd_Content (ck_Delta ch) of None \<Rightarrow> [] | Some t \<Rightarrow> t) cs)"
  by (induction cs arbitrary: st) (simp_all add: content_simps)

interpretation chat_res_content: stream_content ChatCompletionsChunkToResponsesEvents chat_text res_text
  by unfold_locales (simp add: ChatCompletionsChunkToResponsesEvents_def content_simps chat_choices_text
      chat_text_def)

section \<open>The item table protocol\<close>

text \<open>
  Several items may be open at once here, so the client keeps a table of the open items: an item is
  announced under the next output index, an event for an item names its index and id and fits its
  type, \<open>output_item.done\<close> removes the item, and \<open>response.completed\<close> needs the table empty.
\<close>

record item_table =
  it_created :: bool
  it_completed :: bool
  it_next :: int
  it_open :: "(int \<times> string \<times> string) list"

definition event_item_type :: "string \<Rightarrow> string option" where
  "event_item_type t = map_of
     [(''response.output_text.delta'', ''message''), (''response.output_text.done'', ''message''),
      (''response.content_part.added'', ''message''), (''response.content_part.done'', ''message''),
      (''response.reasoning_summary_text.delta'', ''reasoning''),
      (''response.reasoning_summary_text.done'', ''reasoning''),
      (''response.reasoning_summary_part.added'', ''reasoning''),
      (''response.reasoning_summary_part.done'', ''reasoning''),
      (''response.function_call_arguments.delta'', ''function_call''),
      (''response.function_call_arguments.done'', ''function_call'')] t"

definition table_step :: "item_table \<Rightarrow> responses_stream_event \<Rightarrow> item_table option" where
  "table_step m e =
     (if it_completed m then None
      else if re_Type e = ''response.created'' then
        (if it_created m then None else Some (m\<lparr>it_created := True\<rparr>))
      else if \<not> it_created m then None
      else case event_item_type (re_Type e) of
        Some ty \<Rightarrow> if (re_OutputIndex e, re_ItemID e, ty) \<in> set (it_open m) then Some m else None
      | None \<Rightarrow>
          if re_Type e = ''response.output_item.added'' then
            (case re_Item e of None \<Rightarrow> None
             | Some it \<Rightarrow> if re_OutputIndex e = it_next m
                 then Some (m\<lparr>it_next := it_next m + 1,
                              it_open := it_open m @ [(re_OutputIndex e, ro_ID it, ro_Type it)]\<rparr>) else None)
          else if re_Type e = ''response.output_item.done'' then
            (case re_Item e of None \<Rightarrow> None
             | Some it \<Rightarrow> if (re_OutputIndex e, ro_ID it, ro_Type it) \<in> set (it_open m)
                 then Some (m\<lparr>it_open := removeAll (re_OutputIndex e, ro_ID it, ro_Type it) (it_open m)\<rparr>)
                 else None)
          else if re_Type e = ''response.completed'' \<and> it_open m = [] then
            Some (m\<lparr>it_completed := True\<rparr>)
          else None)"

text \<open>
  The Chat Completions streams the converter is written for: tool-call indices are announced in the
  order 0, 1, 2, ..., and no reasoning comes once the reasoning item was closed by content or by a
  tool call.
\<close>

datatype reason_phase =
    RNone
  | ROpen
  | RDone

record chat_in =
  ci_tools :: nat
  ci_reason :: reason_phase
  ci_message :: bool

definition reason_close :: "reason_phase \<Rightarrow> reason_phase" where
  "reason_close r = (if r = ROpen then RDone else r)"

definition in_reasoning :: "string option \<Rightarrow> chat_in \<Rightarrow> chat_in option" where
  "in_reasoning r p =
     (if r = None \<or> r = Some [] then Some p
      else if ci_reason p = RDone then None else Some (p\<lparr>ci_reason := ROpen\<rparr>))"

definition in_content :: "string option \<Rightarrow> chat_in \<Rightarrow> chat_in option" where
  "in_content c p =
     (if c = None \<or> c = Some [] then Some p
      else Some (p\<lparr>ci_reason := reason_close (ci_reason p), ci_message := True\<rparr>))"

definition in_tool :: "chat_in \<Rightarrow> chat_tool_call \<Rightarrow> chat_in option" where
  "in_tool p tc =
     (if 0 \<le> toolIndex tc \<and> toolIndex tc < int (ci_tools p) then Some p
      else if toolIndex tc = int (ci_tools p) then
        Some (p\<lparr>ci_tools := Suc (ci_tools p), ci_reason := reason_close (ci_reason p)\<rparr>)
      else None)"

definition in_choice :: "chat_in \<Rightarrow> chat_chunk_choice \<Rightarrow> chat_in option" where
  "in_choice p c =
     (case in_reasoning (cd_ReasoningContent (ck_Delta c)) p of
        None \<Rightarrow> None
      | Some p1 \<Rightarrow>
          (case in_content (cd_Content (ck_Delta c)) p1 of
             None \<Rightarrow> None | Some p2 \<Rightarrow> accepts in_tool p2 (cd_ToolCalls (ck_Delta c))))"

definition in_chunk :: "chat_in \<Rightarrow> chat_completions_chunk \<Rightarrow> chat_in option" where
  "in_chunk p c = accepts in_choice p (ch_Choices c)"

text \<open>The open items according to the converter's state.\<close>

definition tool_items :: "chat_to_res_state \<Rightarrow> (int \<times> string \<times> string) set" where
  "tool_items st = {(i, d, t). t = ''function_call'' \<and>
     (\<exists>k. cs_ToolOutputIndex st k = Some i \<and> cs_ToolItemIDs st k = Some d)}"

definition live_items :: "chat_to_res_state \<Rightarrow> (int \<times> string \<times> string) set" where
  "live_items st =
     (if cs_ReasoningOpen st then {(cs_ReasoningIndex st, cs_ReasoningItemID st, ''reasoning'')} else {}) \<union>
     (if cs_MessageItemID st \<noteq> [] then {(cs_MessageIndex st, cs_MessageItemID st, ''message'')} else {}) \<union>
     tool_items st"

definition tools_wf :: "nat \<Rightarrow> chat_to_res_state \<Rightarrow> bool" where
  "tools_wf n st \<longleftrightarrow> map fst (cs_ToolCalls st) = map int [0..<n] \<and>
     (\<forall>k. (cs_ToolItemIDs st k \<noteq> None) = (0 \<le> k \<and> k < int n)) \<and>
     (\<forall>k. (cs_ToolOutputIndex st k \<noteq> None) = (0 \<le> k \<and> k < int n)) \<and>
     (\<forall>j k i. cs_ToolOutputIndex st j = Some i \<longrightarrow> cs_ToolOutputIndex st k = Some i \<longrightarrow> j = k) \<and>
     (\<forall>k i. cs_ToolOutputIndex st k = Some i \<longrightarrow> i < cs_nextOutputIndex st)"

definition reason_wf :: "reason_phase \<Rightarrow> chat_to_res_state \<Rightarrow> bool" where
  "reason_wf r st \<longleftrightarrow> (cs_ReasoningOpen st \<longleftrightarrow> r = ROpen) \<and> (cs_ReasoningDone st \<longleftrightarrow> r = RDone)"

definition table_rel :: "chat_in \<Rightarrow> chat_to_res_state \<Rightarrow> item_table \<Rightarrow> bool" where
  "table_rel p st m \<longleftrightarrow> (it_created m \<longleftrightarrow> cs_CreatedSent st) \<and> \<not> cs_CompletedSent st \<and> \<not> it_completed m \<and>
     it_next m = cs_nextOutputIndex st \<and> set (it_open m) = live_items st \<and>
     (cs_MessageItemID st \<noteq> [] \<longleftrightarrow> ci_message p) \<and> reason_wf (ci_reason p) st \<and> tools_wf (ci_tools p) st \<and>
     (\<not> cs_CreatedSent st \<longrightarrow> it_open m = [])"

definition ready :: "chat_in \<Rightarrow> chat_to_res_state \<Rightarrow> item_table \<Rightarrow> bool" where
  "ready p st m \<longleftrightarrow> table_rel p st m \<and> cs_CreatedSent st"

text \<open>An action takes states related at \<open>p\<close> to states related at \<open>q\<close>.\<close>

definition sim :: "chat_action \<Rightarrow> chat_in \<Rightarrow> chat_in \<Rightarrow> bool" where
  "sim f p q \<longleftrightarrow> (\<forall>st m. ready p st m \<longrightarrow>
     (\<exists>m'. accepts table_step m (snd (f st)) = Some m' \<and> ready q (fst (f st)) m'))"

lemma sim_chain_Nil: "sim (chain []) p p"
  by (simp add: sim_def)

lemma sim_chain_Cons: "sim f p q \<Longrightarrow> sim (chain fs) q r \<Longrightarrow> sim (chain (f # fs)) p r"
  unfolding sim_def by (simp add: accepts_append) (metis option.simps(5))

lemma sim_skip: "(\<And>st m. ready p st m \<Longrightarrow> ready q (fst (f st)) m \<and> snd (f st) = []) \<Longrightarrow> sim f p q"
  unfolding sim_def by (metis accepts.simps(1))

lemma sim_chain_append: "sim (chain fs) p q \<Longrightarrow> sim (chain gs) q r \<Longrightarrow> sim (chain (fs @ gs)) p r"
  unfolding sim_def by (simp add: chain_append accepts_append) (metis option.simps(5))

lemma ready_seq [simp]: "ready p (st\<lparr>cs_SequenceNumber := n\<rparr>) m = ready p st m"
  by (simp add: ready_def table_rel_def live_items_def tool_items_def tools_wf_def reason_wf_def)

lemma live_items_seq [simp]: "live_items (st\<lparr>cs_SequenceNumber := n\<rparr>) = live_items st"
  by (simp add: live_items_def tool_items_def)

text \<open>One rule per kind of event: for an open item, announcing an item, closing an item.\<close>

lemma table_item_event:
  assumes "event_item_type t = Some ty" and "it_created m" and "\<not> it_completed m"
    and "(re_OutputIndex (f st), re_ItemID (f st), ty) \<in> set (it_open m)"
  shows "accepts table_step m (snd (emit t f st)) = Some m"
proof -
  have "t \<noteq> ''response.created''" using assms(1) by (auto simp: event_item_type_def)
  with assms show ?thesis by (simp add: emit_def chatToResponsesEvent_def table_step_def)
qed

lemma table_item_added:
  assumes "it_created m" and "\<not> it_completed m" and "re_OutputIndex (f st) = it_next m"
    and "re_Item (f st) \<noteq> None"
  shows "accepts table_step m (snd (emit ''response.output_item.added'' f st)) =
    Some (m\<lparr>it_next := it_next m + 1,
           it_open := it_open m @ [(it_next m, ro_ID (the (re_Item (f st))), ro_Type (the (re_Item (f st))))]\<rparr>)"
  using assms by (auto simp: emit_def chatToResponsesEvent_def table_step_def event_item_type_def)

lemma table_item_done:
  assumes "it_created m" and "\<not> it_completed m" and "re_Item (f st) \<noteq> None"
    and "(re_OutputIndex (f st), ro_ID (the (re_Item (f st))), ro_Type (the (re_Item (f st)))) \<in> set (it_open m)"
  shows "accepts table_step m (snd (emit ''response.output_item.done'' f st)) =
    Some (m\<lparr>it_open := removeAll
      (re_OutputIndex (f st), ro_ID (the (re_Item (f st))), ro_Type (the (re_Item (f st)))) (it_open m)\<rparr>)"
  using assms by (auto simp: emit_def chatToResponsesEvent_def table_step_def event_item_type_def)

lemma emit_fst [simp]: "fst (emit t f st) = st\<lparr>cs_SequenceNumber := cs_SequenceNumber st + 1\<rparr>"
  by (simp add: emit_def chatToResponsesEvent_def)

lemma event_types [simp]:
  "event_item_type ''response.output_text.delta'' = Some ''message''"
  "event_item_type ''response.output_text.done'' = Some ''message''"
  "event_item_type ''response.content_part.added'' = Some ''message''"
  "event_item_type ''response.content_part.done'' = Some ''message''"
  "event_item_type ''response.reasoning_summary_text.delta'' = Some ''reasoning''"
  "event_item_type ''response.reasoning_summary_text.done'' = Some ''reasoning''"
  "event_item_type ''response.reasoning_summary_part.added'' = Some ''reasoning''"
  "event_item_type ''response.reasoning_summary_part.done'' = Some ''reasoning''"
  "event_item_type ''response.function_call_arguments.delta'' = Some ''function_call''"
  "event_item_type ''response.function_call_arguments.done'' = Some ''function_call''"
  by (simp_all add: event_item_type_def)

lemma sim_item_event:
  assumes "event_item_type t = Some ty"
    and "\<And>st m. ready p st m \<Longrightarrow> (re_OutputIndex (f st), re_ItemID (f st), ty) \<in> live_items st"
  shows "sim (emit t f) p p"
  unfolding sim_def
proof (intro allI impI)
  fix st m assume r: "ready p st m"
  with assms(2) have "(re_OutputIndex (f st), re_ItemID (f st), ty) \<in> set (it_open m)"
    by (simp add: ready_def table_rel_def)
  with r table_item_event [OF assms(1), of m f st] have "accepts table_step m (snd (emit t f st)) = Some m"
    by (simp add: ready_def table_rel_def)
  with r show "\<exists>m'. accepts table_step m (snd (emit t f st)) = Some m' \<and> ready p (fst (emit t f st)) m'"
    by simp
qed

lemmas ready_simps = ready_def table_rel_def reason_wf_def

lemmas new_item_defs = newItemID_def allocOutputIndex_def case_prod_beta Let_def

lemma tools_wf_fields:
  "map fst (cs_ToolCalls st') = map fst (cs_ToolCalls st) \<Longrightarrow> cs_ToolItemIDs st' = cs_ToolItemIDs st \<Longrightarrow>
   cs_ToolOutputIndex st' = cs_ToolOutputIndex st \<Longrightarrow> cs_nextOutputIndex st \<le> cs_nextOutputIndex st' \<Longrightarrow>
   tools_wf n st \<Longrightarrow> tools_wf n st'"
  unfolding tools_wf_def by (elim conjE, intro conjI) (simp_all, meson less_le_trans)

lemma tool_items_fields:
  "cs_ToolItemIDs st' = cs_ToolItemIDs st \<Longrightarrow> cs_ToolOutputIndex st' = cs_ToolOutputIndex st \<Longrightarrow>
   tool_items st' = tool_items st"
  by (simp add: tool_items_def)

lemma created_ready:
  assumes "table_rel p st m"
  shows "\<exists>m'. accepts table_step m (snd (ensureChatToResponsesCreated st)) = Some m' \<and>
    ready p (fst (ensureChatToResponsesCreated st)) m'"
proof (cases "cs_CreatedSent st")
  case True
  then show ?thesis using assms by (simp add: ensureChatToResponsesCreated_def ready_def)
next
  case False
  let ?st = "st\<lparr>cs_CreatedSent := True\<rparr>"
  have "live_items ?st = live_items st" "tools_wf (ci_tools p) ?st = tools_wf (ci_tools p) st"
    by (simp_all add: live_items_def tool_items_def tools_wf_def)
  with False assms have "ready p ?st (m\<lparr>it_created := True\<rparr>)" by (auto simp: ready_simps)
  moreover from False assms have "accepts table_step m (snd (ensureChatToResponsesCreated st)) =
      Some (m\<lparr>it_created := True\<rparr>)"
    by (simp add: ensureChatToResponsesCreated_def emit_def chatToResponsesEvent_def table_step_def table_rel_def)
  ultimately show ?thesis using False by (simp add: ensureChatToResponsesCreated_def)
qed

lemma sim_ensureReasoning:
  assumes "ci_reason p \<noteq> RDone"
  shows "sim ensureChatReasoningItem p (p\<lparr>ci_reason := ROpen\<rparr>)"
  unfolding sim_def
proof (intro allI impI)
  fix st m assume r: "ready p st m"
  show "\<exists>m'. accepts table_step m (snd (ensureChatReasoningItem st)) = Some m' \<and>
      ready (p\<lparr>ci_reason := ROpen\<rparr>) (fst (ensureChatReasoningItem st)) m'"
  proof (cases "ci_reason p")
    case ROpen
    with r have "ensureChatReasoningItem st = (st, [])" "p\<lparr>ci_reason := ROpen\<rparr> = p"
      by (simp_all add: ensureChatReasoningItem_def ready_simps)
    with r show ?thesis by simp
  next
    case RNone
    let ?iid = "fst (generateItemID (cs_Rand st))"
    let ?m = "m\<lparr>it_next := it_next m + 1, it_open := it_open m @ [(it_next m, ?iid, ''reasoning'')]\<rparr>"
    have closed: "\<not> cs_ReasoningOpen st" "\<not> cs_ReasoningDone st" using r RNone by (simp_all add: ready_simps)
    have "accepts table_step m (snd (ensureChatReasoningItem st)) = Some ?m"
      using r closed by (simp add: ensureChatReasoningItem_def new_item_defs accepts_append
          table_item_added table_item_event ready_simps)
    moreover have "ready (p\<lparr>ci_reason := ROpen\<rparr>) (fst (ensureChatReasoningItem st)) ?m"
      using r closed by (auto simp: ensureChatReasoningItem_def new_item_defs ready_simps live_items_def
          tool_items_def intro: tools_wf_fields [of _ st])
    ultimately show ?thesis by blast
  qed (use assms in simp)
qed

lemma sim_closeReasoning: "sim closeChatReasoningItem p (p\<lparr>ci_reason := reason_close (ci_reason p)\<rparr>)"
  unfolding sim_def
proof (intro allI impI)
  fix st m assume r: "ready p st m"
  let ?p = "p\<lparr>ci_reason := reason_close (ci_reason p)\<rparr>"
  show "\<exists>m'. accepts table_step m (snd (closeChatReasoningItem st)) = Some m' \<and>
      ready ?p (fst (closeChatReasoningItem st)) m'"
  proof (cases "ci_reason p = ROpen")
    case False
    with r have "closeChatReasoningItem st = (st, [])" "?p = p"
      by (simp_all add: closeChatReasoningItem_def ready_simps reason_close_def)
    with r show ?thesis by simp
  next
    case True
    let ?item = "(cs_ReasoningIndex st, cs_ReasoningItemID st, ''reasoning'')"
    let ?m = "m\<lparr>it_open := removeAll ?item (it_open m)\<rparr>"
    have op: "cs_ReasoningOpen st" "?item \<in> set (it_open m)"
      using r True by (auto simp: ready_simps live_items_def)
    have "accepts table_step m (snd (closeChatReasoningItem st)) = Some ?m"
      using r op by (simp add: closeChatReasoningItem_def accepts_append table_item_event table_item_done ready_simps)
    moreover have "set (it_open ?m) = live_items (st\<lparr>cs_ReasoningOpen := False\<rparr>)"
      using r op by (auto simp: ready_simps live_items_def tool_items_def)
    then have "ready ?p (fst (closeChatReasoningItem st)) ?m"
      using r op True by (auto simp: closeChatReasoningItem_def ready_simps reason_close_def live_items_def
          tool_items_def intro: tools_wf_fields [of _ st])
    ultimately show ?thesis by blast
  qed
qed

lemma sim_ensureMessage: "sim ensureChatToResponsesMessageItem p (p\<lparr>ci_message := True\<rparr>)"
  unfolding sim_def
proof (intro allI impI)
  fix st m assume r: "ready p st m"
  show "\<exists>m'. accepts table_step m (snd (ensureChatToResponsesMessageItem st)) = Some m' \<and>
      ready (p\<lparr>ci_message := True\<rparr>) (fst (ensureChatToResponsesMessageItem st)) m'"
  proof (cases "ci_message p")
    case True
    with r have "ensureChatToResponsesMessageItem st = (st, [])" "p\<lparr>ci_message := True\<rparr> = p"
      by (simp_all add: ensureChatToResponsesMessageItem_def ready_simps)
    with r show ?thesis by simp
  next
    case False
    let ?iid = "fst (generateItemID (cs_Rand st))"
    let ?m = "m\<lparr>it_next := it_next m + 1, it_open := it_open m @ [(it_next m, ?iid, ''message'')]\<rparr>"
    have closed: "cs_MessageItemID st = []" using r False by (simp add: ready_simps)
    have "accepts table_step m (snd (ensureChatToResponsesMessageItem st)) = Some ?m"
      using r closed by (simp add: ensureChatToResponsesMessageItem_def new_item_defs table_item_added ready_simps)
    moreover have "ready (p\<lparr>ci_message := True\<rparr>) (fst (ensureChatToResponsesMessageItem st)) ?m"
      using r closed by (auto simp: ensureChatToResponsesMessageItem_def new_item_defs ready_simps live_items_def
          tool_items_def intro: tools_wf_fields [of _ st])
    ultimately show ?thesis by blast
  qed
qed

lemma sim_textPart: "ci_message p \<Longrightarrow> sim ensureChatToResponsesTextPart p p"
  unfolding sim_def
proof (intro allI impI)
  fix st m assume p: "ci_message p" and r: "ready p st m"
  show "\<exists>m'. accepts table_step m (snd (ensureChatToResponsesTextPart st)) = Some m' \<and>
      ready p (fst (ensureChatToResponsesTextPart st)) m'"
  proof (cases "cs_TextPartOpen st")
    case False
    have "(cs_MessageIndex st, cs_MessageItemID st, ''message'') \<in> set (it_open m)"
      using p r by (simp add: ready_simps live_items_def)
    then have "accepts table_step m (snd (ensureChatToResponsesTextPart st)) = Some m"
      using False r by (simp add: ensureChatToResponsesTextPart_def table_item_event ready_simps)
    moreover have "ready p (fst (ensureChatToResponsesTextPart st)) m"
      using False r by (auto simp: ensureChatToResponsesTextPart_def ready_simps live_items_def tool_items_def
          intro: tools_wf_fields [of _ st])
    ultimately show ?thesis by blast
  qed (use r in \<open>simp add: ensureChatToResponsesTextPart_def\<close>)
qed

lemma sim_appendText: "ci_message p \<Longrightarrow> sim (appendChatText t) p p"
  unfolding sim_def
proof (intro allI impI)
  fix st m assume p: "ci_message p" and r: "ready p st m"
  have "(cs_MessageIndex st, cs_MessageItemID st, ''message'') \<in> set (it_open m)"
    using p r by (simp add: ready_simps live_items_def)
  then have "accepts table_step m (snd (appendChatText t st)) = Some m"
    using r by (simp add: appendChatText_def table_item_event ready_simps)
  moreover have "ready p (fst (appendChatText t st)) m"
    using r by (auto simp: appendChatText_def ready_simps live_items_def tool_items_def
        intro: tools_wf_fields [of _ st])
  ultimately show "\<exists>m'. accepts table_step m (snd (appendChatText t st)) = Some m' \<and>
      ready p (fst (appendChatText t st)) m'" by blast
qed

lemma sim_message_text:
  "sim (chain [ensureChatToResponsesMessageItem, ensureChatToResponsesTextPart, appendChatText t])
     p (p\<lparr>ci_message := True\<rparr>)"
  by (intro sim_chain_Cons [OF sim_ensureMessage] sim_chain_Cons [OF sim_textPart]
      sim_chain_Cons [OF sim_appendText] sim_chain_Nil) simp_all

lemma sim_content: "in_content c p = Some q \<Longrightarrow> sim (chatContentDelta c) p q"
proof -
  assume a: "in_content c p = Some q"
  show ?thesis
  proof (cases "c = None \<or> c = Some []")
    case True
    with a show ?thesis
      by (intro sim_skip) (auto simp: in_content_def chatContentDelta_def)
  next
    case False
    then obtain t where t: "c = Some t" "t \<noteq> []" by auto
    have "chatContentDelta c = chain [closeChatReasoningItem, ensureChatToResponsesMessageItem,
        ensureChatToResponsesTextPart, appendChatText t]"
      by (rule ext) (simp add: chatContentDelta_def t del: chain_simps)
    moreover have "q = p\<lparr>ci_reason := reason_close (ci_reason p)\<rparr>\<lparr>ci_message := True\<rparr>"
      using a False by (simp add: in_content_def)
    ultimately show ?thesis
      using sim_chain_Cons [OF sim_closeReasoning sim_message_text] by simp
  qed
qed

lemma sim_reasoning: "in_reasoning r p = Some q \<Longrightarrow> sim (chatReasoningDelta r) p q"
proof -
  assume a: "in_reasoning r p = Some q"
  show ?thesis
  proof (cases "r = None \<or> r = Some []")
    case True
    with a show ?thesis
      by (intro sim_skip) (auto simp: in_reasoning_def chatReasoningDelta_def)
  next
    case False
    then obtain t where t: "r = Some t" "t \<noteq> []" by auto
    let ?send = "\<lambda>s. emit ''response.reasoning_summary_text.delta''
      (\<lambda>s. zero_responses_event\<lparr>re_OutputIndex := cs_ReasoningIndex s, re_SummaryIndex := 0,
         re_Delta := t, re_ItemID := cs_ReasoningItemID s\<rparr>) (s\<lparr>cs_Reasoning := cs_Reasoning s @ t\<rparr>)"
    from a False have q: "q = p\<lparr>ci_reason := ROpen\<rparr>" and nd: "ci_reason p \<noteq> RDone"
      by (auto simp: in_reasoning_def split: if_splits)
    have "sim ?send q q"
      unfolding sim_def
    proof (intro allI impI)
      fix st m assume r: "ready q st m"
      have "(cs_ReasoningIndex st, cs_ReasoningItemID st, ''reasoning'') \<in> set (it_open m)"
        using q r by (simp add: ready_simps live_items_def)
      then have "accepts table_step m (snd (?send st)) = Some m"
        using r by (simp add: table_item_event ready_simps)
      moreover have "ready q (fst (?send st)) m"
        using r by (auto simp: ready_simps live_items_def tool_items_def intro: tools_wf_fields [of _ st])
      ultimately show "\<exists>m'. accepts table_step m (snd (?send st)) = Some m' \<and> ready q (fst (?send st)) m'"
        by blast
    qed
    moreover have "chatReasoningDelta r = chain [ensureChatReasoningItem, ?send]"
      by (rule ext) (simp add: chatReasoningDelta_def t del: chain_simps)
    ultimately show ?thesis
      using sim_chain_Cons [OF sim_ensureReasoning [OF nd] sim_chain_Cons [OF _ sim_chain_Nil]] q by simp
  qed
qed

subsection \<open>Tool calls\<close>

lemma tool_known:
  "tools_wf n st \<Longrightarrow> (map_of (cs_ToolCalls st) k \<noteq> None) = (0 \<le> k \<and> k < int n)"
proof -
  assume "tools_wf n st"
  then have "fst ` set (cs_ToolCalls st) = int ` {0..<n}"
    unfolding tools_wf_def by (metis atLeastLessThan_upt list.set_map)
  moreover have "(k \<in> int ` {0..<n}) = (0 \<le> k \<and> k < int n)"
    by (auto intro: image_eqI [of _ _ "nat k"])
  ultimately show ?thesis by (simp add: map_of_eq_None_iff)
qed

lemma update_known:
  assumes "tools_wf n st" and "0 \<le> k" and "k < int n"
  shows "map fst (AList.update k v (cs_ToolCalls st)) = map fst (cs_ToolCalls st)"
proof -
  have "map_of (cs_ToolCalls st) k \<noteq> None" using tool_known [OF assms(1)] assms(2,3) by simp
  then have "k \<in> set (map fst (cs_ToolCalls st))" by (metis map_of_eq_None_iff list.set_map)
  then show ?thesis by (simp add: update_keys)
qed

lemma ready_tool_update:
  assumes "ready p st m" and "0 \<le> k" and "k < int (ci_tools p)"
  shows "ready p (st\<lparr>cs_ToolCalls := AList.update k v (cs_ToolCalls st)\<rparr>) m"
  using assms update_known [of "ci_tools p" st k v]
  by (auto simp: ready_simps live_items_def tool_items_def intro: tools_wf_fields [of _ st])

lemma sim_updateTool:
  assumes "0 \<le> toolIndex tc" and "toolIndex tc < int (ci_tools p)"
  shows "sim (updateChatTool tc stored) p p"
  using assms by (intro sim_skip) (simp add: updateChatTool_def Let_def ready_tool_update)

lemma sim_toolArguments:
  assumes "0 \<le> toolIndex tc" and "toolIndex tc < int (ci_tools p)"
  shows "sim (chatToolArguments tc) p p"
  unfolding sim_def
proof (intro allI impI)
  fix st m assume r: "ready p st m"
  let ?k = "toolIndex tc"
  have wf: "tools_wf (ci_tools p) st" using r by (simp add: ready_simps)
  then obtain oi iid stored where k: "cs_ToolOutputIndex st ?k = Some oi" "cs_ToolItemIDs st ?k = Some iid"
    "map_of (cs_ToolCalls st) ?k = Some stored"
    using tool_known [OF wf, of ?k] assms unfolding tools_wf_def by blast
  then have "(oi, iid, ''function_call'') \<in> set (it_open m)"
    using r by (auto simp: ready_simps live_items_def tool_items_def)
  then show "\<exists>m'. accepts table_step m (snd (chatToolArguments tc st)) = Some m' \<and>
      ready p (fst (chatToolArguments tc st)) m'"
    using r k ready_tool_update [OF r assms]
    by (simp add: chatToolArguments_def Let_def toolOutputIndex_def toolItemID_def)
      (auto simp: table_item_event ready_simps toolOutputIndex_def toolItemID_def)
qed

lemma tools_wf_open:
  assumes "tools_wf n st" and "cs_ToolCalls st' = AList.update (int n) v (cs_ToolCalls st)"
    and "cs_ToolItemIDs st' = (cs_ToolItemIDs st)(int n \<mapsto> iid)"
    and "cs_ToolOutputIndex st' = (cs_ToolOutputIndex st)(int n \<mapsto> cs_nextOutputIndex st)"
    and "cs_nextOutputIndex st' = cs_nextOutputIndex st + 1"
  shows "tools_wf (Suc n) st'"
proof -
  have "map_of (cs_ToolCalls st) (int n) = None" using tool_known [OF assms(1), of "int n"] by simp
  then have "int n \<notin> set (map fst (cs_ToolCalls st))" by (metis map_of_eq_None_iff list.set_map)
  then have calls: "map fst (cs_ToolCalls st') = map int [0..<Suc n]"
    using assms(1,2) by (auto simp: update_keys tools_wf_def)
  have range: "(0 \<le> k \<and> k < int (Suc n)) = (0 \<le> k \<and> k < int n \<or> k = int n)" for k by auto
  have inj: "\<forall>j k i. cs_ToolOutputIndex st j = Some i \<longrightarrow> cs_ToolOutputIndex st k = Some i \<longrightarrow> j = k"
    and less: "\<forall>k i. cs_ToolOutputIndex st k = Some i \<longrightarrow> i < cs_nextOutputIndex st"
    and dom: "\<forall>k. (cs_ToolItemIDs st k \<noteq> None) = (0 \<le> k \<and> k < int n)"
      "\<forall>k. (cs_ToolOutputIndex st k \<noteq> None) = (0 \<le> k \<and> k < int n)"
    using assms(1) by (auto simp: tools_wf_def)
  have "\<forall>j k i. cs_ToolOutputIndex st' j = Some i \<longrightarrow> cs_ToolOutputIndex st' k = Some i \<longrightarrow> j = k"
    using inj less unfolding assms(4) by (metis fun_upd_apply less_irrefl option.inject)
  moreover have "\<forall>k i. cs_ToolOutputIndex st' k = Some i \<longrightarrow> i < cs_nextOutputIndex st'"
    using less unfolding assms(4,5) by (auto split: if_splits) (meson less_imp_le)
  moreover have "\<forall>k. (cs_ToolItemIDs st' k \<noteq> None) = (0 \<le> k \<and> k < int (Suc n))"
    "\<forall>k. (cs_ToolOutputIndex st' k \<noteq> None) = (0 \<le> k \<and> k < int (Suc n))"
    using dom unfolding assms(3,4) range by (metis fun_upd_apply option.discI)+
  ultimately show ?thesis unfolding tools_wf_def using calls by blast
qed

lemma tool_items_open:
  assumes "tools_wf n st" and "cs_ToolItemIDs st' = (cs_ToolItemIDs st)(int n \<mapsto> iid)"
    and "cs_ToolOutputIndex st' = (cs_ToolOutputIndex st)(int n \<mapsto> oi)"
  shows "tool_items st' = insert (oi, iid, ''function_call'') (tool_items st)"
proof -
  have none: "cs_ToolItemIDs st (int n) = None" "cs_ToolOutputIndex st (int n) = None"
    using assms(1) unfolding tools_wf_def by (metis less_irrefl)+
  show ?thesis unfolding tool_items_def assms(2,3) using none
    by (auto split: if_splits) (metis option.distinct(1))
qed

lemma sim_openTool:
  assumes "toolIndex tc = int (ci_tools p)"
  shows "sim (openChatTool tc) p (p\<lparr>ci_tools := Suc (ci_tools p)\<rparr>)"
  unfolding sim_def
proof (intro allI impI)
  fix st m assume r: "ready p st m"
  let ?f = "openChatTool tc st"
  let ?g = "if tc_ID tc = [] then snd (generateItemID (cs_Rand st)) else cs_Rand st"
  define iid where "iid = fst (generateItemID ?g)"
  define v where "v = tc\<lparr>tc_ID := if tc_ID tc = [] then fst (generateItemID (cs_Rand st)) else tc_ID tc,
    tc_Type := ''function''\<rparr>"
  have f: "cs_ToolCalls (fst ?f) = AList.update (int (ci_tools p)) v (cs_ToolCalls st)"
    "cs_ToolItemIDs (fst ?f) = (cs_ToolItemIDs st)(int (ci_tools p) \<mapsto> iid)"
    "cs_ToolOutputIndex (fst ?f) = (cs_ToolOutputIndex st)(int (ci_tools p) \<mapsto> cs_nextOutputIndex st)"
    "cs_nextOutputIndex (fst ?f) = cs_nextOutputIndex st + 1"
    "accepts table_step m (snd ?f) = Some (m\<lparr>it_next := it_next m + 1,
       it_open := it_open m @ [(it_next m, iid, ''function_call'')]\<rparr>)"
    using r assms by (simp_all add: openChatTool_def new_item_defs table_item_added ready_simps iid_def v_def)
  have same: "cs_CreatedSent (fst ?f) = cs_CreatedSent st" "cs_CompletedSent (fst ?f) = cs_CompletedSent st"
    "cs_ReasoningOpen (fst ?f) = cs_ReasoningOpen st" "cs_ReasoningDone (fst ?f) = cs_ReasoningDone st"
    "cs_ReasoningIndex (fst ?f) = cs_ReasoningIndex st" "cs_ReasoningItemID (fst ?f) = cs_ReasoningItemID st"
    "cs_MessageItemID (fst ?f) = cs_MessageItemID st" "cs_MessageIndex (fst ?f) = cs_MessageIndex st"
    by (simp_all add: openChatTool_def new_item_defs)
  have wf: "tools_wf (ci_tools p) st" using r by (simp add: ready_simps)
  have "ready (p\<lparr>ci_tools := Suc (ci_tools p)\<rparr>) (fst ?f)
      (m\<lparr>it_next := it_next m + 1, it_open := it_open m @ [(it_next m, iid, ''function_call'')]\<rparr>)"
    using r tools_wf_open [OF wf f(1-4)] tool_items_open [OF wf f(2,3)]
    by (simp add: ready_simps same live_items_def f(4))
  with f(5) show "\<exists>m'. accepts table_step m (snd ?f) = Some m' \<and>
      ready (p\<lparr>ci_tools := Suc (ci_tools p)\<rparr>) (fst ?f) m'" by blast
qed

lemma sim_case:
  assumes "\<And>st m. ready p st m \<Longrightarrow> f st = g st" and "sim g p q"
  shows "sim f p q"
  using assms unfolding sim_def by (metis (no_types))

lemma sim_openOrUpdate:
  assumes "in_tool p tc = Some q"
  shows "sim (openOrUpdateTool tc) p q \<and> 0 \<le> toolIndex tc \<and> toolIndex tc < int (ci_tools q)"
proof (cases "0 \<le> toolIndex tc \<and> toolIndex tc < int (ci_tools p)")
  case True
  with assms have q: "q = p" by (simp add: in_tool_def)
  have "sim (openOrUpdateTool tc) p p"
    unfolding sim_def
  proof (intro allI impI)
    fix st m assume r: "ready p st m"
    then obtain stored where "map_of (cs_ToolCalls st) (toolIndex tc) = Some stored"
      using tool_known [of "ci_tools p" st "toolIndex tc"] True by (auto simp: ready_simps)
    then have "openOrUpdateTool tc st = updateChatTool tc stored st" by (simp add: openOrUpdateTool_def)
    with r True show "\<exists>m'. accepts table_step m (snd (openOrUpdateTool tc st)) = Some m' \<and>
        ready p (fst (openOrUpdateTool tc st)) m'"
      using sim_updateTool [of tc p stored] by (simp add: sim_def)
  qed
  with True q show ?thesis by simp
next
  case False
  let ?p1 = "p\<lparr>ci_reason := reason_close (ci_reason p)\<rparr>"
  from assms False have i: "toolIndex tc = int (ci_tools p)" and q: "q = ?p1\<lparr>ci_tools := Suc (ci_tools ?p1)\<rparr>"
    by (auto simp: in_tool_def split: if_splits)
  have "openOrUpdateTool tc st = chain [closeChatReasoningItem, openChatTool tc] st" if "ready p st m" for st m
  proof -
    have "map_of (cs_ToolCalls st) (toolIndex tc) = None"
      using that tool_known [of "ci_tools p" st "toolIndex tc"] i by (auto simp: ready_simps)
    then show ?thesis by (simp add: openOrUpdateTool_def)
  qed
  moreover have "sim (chain [closeChatReasoningItem, openChatTool tc]) p q"
    unfolding q using i
    by (intro sim_chain_Cons [OF sim_closeReasoning] sim_chain_Cons [OF sim_openTool] sim_chain_Nil) simp
  ultimately have "sim (openOrUpdateTool tc) p q" by (rule sim_case)
  with i q show ?thesis by simp
qed

lemma sim_toolDelta: "in_tool p tc = Some q \<Longrightarrow> sim (chatToolDelta tc) p q"
  unfolding chatToolDelta_def using sim_openOrUpdate [of p tc q]
  by (auto intro: sim_chain_Cons sim_chain_Nil sim_toolArguments)

lemma sim_toolDeltas: "accepts in_tool p tcs = Some q \<Longrightarrow> sim (chain (map chatToolDelta tcs)) p q"
proof (induction tcs arbitrary: p)
  case (Cons tc tcs)
  then show ?case
    by (auto simp del: chain_simps intro: sim_chain_Cons sim_toolDelta split: option.splits)
qed (simp add: sim_def)

lemma table_rel_untouched [simp]:
  "table_rel p (st\<lparr>cs_ResponseID := s\<rparr>) m = table_rel p st m"
  "table_rel p (st\<lparr>cs_Model := s\<rparr>) m = table_rel p st m"
  "table_rel p (st\<lparr>cs_Usage := u\<rparr>) m = table_rel p st m"
  "table_rel p (st\<lparr>cs_FinishReason := s\<rparr>) m = table_rel p st m"
  by (simp_all add: table_rel_def reason_wf_def live_items_def tool_items_def tools_wf_def)

lemma sim_finishReason: "sim (chatFinishReason f) p p"
  by (intro sim_skip) (simp add: chatFinishReason_def ready_def split: option.splits)

lemma sim_choice:
  assumes "in_choice p c = Some q"
  shows "sim (chatChoice c) p q"
proof -
  let ?d = "ck_Delta c"
  from assms obtain p1 p2 where p: "in_reasoning (cd_ReasoningContent ?d) p = Some p1"
    "in_content (cd_Content ?d) p1 = Some p2" "accepts in_tool p2 (cd_ToolCalls ?d) = Some q"
    by (auto simp: in_choice_def split: option.splits)
  have "sim (chain [chatReasoningDelta (cd_ReasoningContent ?d), chatContentDelta (cd_Content ?d)]) p p2"
    by (rule sim_chain_Cons [OF sim_reasoning [OF p(1)] sim_chain_Cons [OF sim_content [OF p(2)] sim_chain_Nil]])
  moreover have "sim (chain (map chatToolDelta (cd_ToolCalls ?d) @ [chatFinishReason (ck_FinishReason c)])) p2 q"
    by (rule sim_chain_append [OF sim_toolDeltas [OF p(3)] sim_chain_Cons [OF sim_finishReason sim_chain_Nil]])
  ultimately show ?thesis unfolding chatChoice_def by (rule sim_chain_append)
qed

lemma sim_choices: "accepts in_choice p cs = Some q \<Longrightarrow> sim (chain (map chatChoice cs)) p q"
proof (induction cs arbitrary: p)
  case (Cons c cs)
  then show ?case
    by (auto simp del: chain_simps intro: sim_chain_Cons sim_choice split: option.splits)
qed (simp add: sim_def)

lemma head_related: "table_rel p st m \<Longrightarrow> table_rel p (fst (chatChunkHead c st)) m \<and> snd (chatChunkHead c st) = []"
  by (simp add: chatChunkHead_def Let_def)

lemma chunk_related:
  assumes "table_rel p st m" and "in_chunk p c = Some q"
  shows "\<exists>m'. accepts table_step m (snd (ChatCompletionsChunkToResponsesEvents c st)) = Some m' \<and>
    table_rel q (fst (ChatCompletionsChunkToResponsesEvents c st)) m'"
proof -
  let ?s1 = "fst (chatChunkHead c st)"
  let ?s2 = "fst (ensureChatToResponsesCreated ?s1)"
  from head_related [OF assms(1)] have h: "table_rel p ?s1 m" "snd (chatChunkHead c st) = []" by simp_all
  from created_ready [OF h(1)] obtain m1 where m1:
    "accepts table_step m (snd (ensureChatToResponsesCreated ?s1)) = Some m1" "ready p ?s2 m1" by blast
  from assms(2) have "sim (chain (map chatChoice (ch_Choices c))) p q"
    by (intro sim_choices) (simp add: in_chunk_def)
  with m1(2) obtain m2 where
    "accepts table_step m1 (snd (chain (map chatChoice (ch_Choices c)) ?s2)) = Some m2"
    "ready q (fst (chain (map chatChoice (ch_Choices c)) ?s2)) m2" unfolding sim_def by blast
  with m1(1) h(2) show ?thesis
    by (auto simp: ChatCompletionsChunkToResponsesEvents_def accepts_append ready_def)
qed

subsection \<open>Closing the stream\<close>

definition live_table :: "item_table \<Rightarrow> (int \<times> string \<times> string) set \<Rightarrow> bool" where
  "live_table m X \<longleftrightarrow> it_created m \<and> \<not> it_completed m \<and> set (it_open m) = X"

definition tool_item :: "chat_to_res_state \<Rightarrow> int \<Rightarrow> int \<times> string \<times> string" where
  "tool_item st k = (toolOutputIndex st k, toolItemID st k, ''function_call'')"

lemma tool_items_image:
  assumes "tools_wf n st"
  shows "tool_items st = tool_item st ` (int ` {0..<n})"
proof (intro set_eqI iffI)
  fix x assume "x \<in> tool_items st"
  then obtain i d k where x: "x = (i, d, ''function_call'')" "cs_ToolOutputIndex st k = Some i"
    "cs_ToolItemIDs st k = Some d" by (auto simp: tool_items_def)
  then have "0 \<le> k \<and> k < int n" using assms unfolding tools_wf_def by (metis option.distinct(1))
  then have "k \<in> int ` {0..<n}" by (auto intro: image_eqI [of _ _ "nat k"])
  with x show "x \<in> tool_item st ` (int ` {0..<n})"
    by (auto simp: tool_item_def toolOutputIndex_def toolItemID_def intro!: image_eqI [of _ _ k])
next
  fix x assume "x \<in> tool_item st ` (int ` {0..<n})"
  then obtain j where x: "x = tool_item st (int j)" "j < n" by auto
  then obtain i d where "cs_ToolOutputIndex st (int j) = Some i" "cs_ToolItemIDs st (int j) = Some d"
    using assms unfolding tools_wf_def by (metis not_None_eq of_nat_0_le_iff of_nat_less_iff)
  with x show "x \<in> tool_items st"
    by (auto simp: tool_items_def tool_item_def toolOutputIndex_def toolItemID_def)
qed

lemma tool_item_inj:
  assumes "tools_wf n st" and "j < n" and "k < n" and "tool_item st (int j) = tool_item st (int k)"
  shows "j = k"
proof -
  obtain a b where "cs_ToolOutputIndex st (int j) = Some a" "cs_ToolOutputIndex st (int k) = Some b"
    using assms(1-3) unfolding tools_wf_def by (metis not_None_eq of_nat_0_le_iff of_nat_less_iff)
  then show ?thesis using assms(1,4) unfolding tools_wf_def tool_item_def toolOutputIndex_def
    by (auto simp: of_nat_eq_iff) (metis of_nat_eq_iff)
qed

lemma closeToolItem_table:
  assumes "tools_wf n st" and "k < n" and "live_table m (insert (tool_item st (int k)) X)"
    and "tool_item st (int k) \<notin> X"
  shows "\<exists>m'. accepts table_step m (snd (closeChatToolItem (int k) st)) = Some m' \<and> live_table m' X \<and>
    (\<exists>s. fst (closeChatToolItem (int k) st) = st\<lparr>cs_SequenceNumber := s\<rparr>)"
proof -
  obtain tc where tc: "map_of (cs_ToolCalls st) (int k) = Some tc"
    using tool_known [OF assms(1), of "int k"] assms(2) by auto
  obtain iid where iid: "cs_ToolItemIDs st (int k) = Some iid"
    using assms(1,2) unfolding tools_wf_def by (metis not_None_eq of_nat_0_le_iff of_nat_less_iff)
  let ?m = "m\<lparr>it_open := removeAll (tool_item st (int k)) (it_open m)\<rparr>"
  have "accepts table_step m (snd (closeChatToolItem (int k) st)) = Some ?m"
    using tc iid assms(3)
    by (simp add: closeChatToolItem_def Let_def accepts_append live_table_def tool_item_def toolItemID_def
        table_item_event table_item_done)
  moreover have "live_table ?m X" using assms(3,4) by (auto simp: live_table_def)
  moreover have "fst (closeChatToolItem (int k) st) = st\<lparr>cs_SequenceNumber := cs_SequenceNumber st + 2\<rparr>"
    using tc iid by (simp add: closeChatToolItem_def Let_def)
  ultimately show ?thesis by blast
qed

lemma closeTools_table:
  assumes "tools_wf n st" and "distinct ks" and "set ks \<subseteq> {0..<n}"
    and "live_table m (tool_item st ` int ` set ks)"
  shows "\<exists>m'. accepts table_step m (snd (chain (map (\<lambda>i. closeChatToolItem (int i)) ks) st)) = Some m' \<and>
    live_table m' {} \<and>
    (\<exists>s. fst (chain (map (\<lambda>i. closeChatToolItem (int i)) ks) st) = st\<lparr>cs_SequenceNumber := s\<rparr>)"
  using assms
proof (induction ks arbitrary: st m)
  case Nil
  then show ?case by (auto intro: exI [of _ "cs_SequenceNumber st"])
next
  case (Cons k ks)
  let ?X = "tool_item st ` int ` set ks"
  have fresh: "tool_item st (int k) \<notin> ?X"
  proof
    assume "tool_item st (int k) \<in> ?X"
    then obtain j where "j \<in> set ks" "tool_item st (int k) = tool_item st (int j)" by auto
    with tool_item_inj [OF Cons.prems(1), of k j] Cons.prems(2,3) show False by auto
  qed
  have "live_table m (insert (tool_item st (int k)) ?X)" "k < n" using Cons.prems(3,4) by auto
  from closeToolItem_table [OF Cons.prems(1) this(2,1) fresh] obtain m1 s where m1:
    "accepts table_step m (snd (closeChatToolItem (int k) st)) = Some m1" "live_table m1 ?X"
    "fst (closeChatToolItem (int k) st) = st\<lparr>cs_SequenceNumber := s\<rparr>" by blast
  have same: "tools_wf n (st\<lparr>cs_SequenceNumber := s\<rparr>)" "tool_item (st\<lparr>cs_SequenceNumber := s\<rparr>) = tool_item st"
    using Cons.prems(1) by (simp_all add: tools_wf_def tool_item_def toolOutputIndex_def toolItemID_def fun_eq_iff)
  have d: "distinct ks" "set ks \<subseteq> {0..<n}" using Cons.prems(2,3) by auto
  have "live_table m1 (tool_item (st\<lparr>cs_SequenceNumber := s\<rparr>) ` int ` set ks)" using m1(2) same(2) by simp
  from Cons.IH [OF same(1) d this] obtain m2 s2 where
    "accepts table_step m1 (snd (chain (map (\<lambda>i. closeChatToolItem (int i)) ks) (st\<lparr>cs_SequenceNumber := s\<rparr>))) = Some m2"
    "live_table m2 {}"
    "fst (chain (map (\<lambda>i. closeChatToolItem (int i)) ks) (st\<lparr>cs_SequenceNumber := s\<rparr>)) =
       st\<lparr>cs_SequenceNumber := s\<rparr>\<lparr>cs_SequenceNumber := s2\<rparr>" by blast
  with m1 show ?case by (auto simp: accepts_append)
qed

lemma closeMessage_table:
  assumes "ready p st m" and "ci_reason p \<noteq> ROpen"
  shows "\<exists>m'. accepts table_step m (snd (closeChatMessage st)) = Some m' \<and> live_table m' (tool_items st) \<and>
    (\<exists>s. fst (closeChatMessage st) = st\<lparr>cs_SequenceNumber := s\<rparr>)"
proof (cases "cs_MessageItemID st = []")
  case True
  with assms show ?thesis
    by (auto simp: closeChatMessage_def ready_simps live_table_def live_items_def
        intro: exI [of _ "cs_SequenceNumber st"])
next
  case False
  let ?item = "(cs_MessageIndex st, cs_MessageItemID st, ''message'')"
  let ?m = "m\<lparr>it_open := removeAll ?item (it_open m)\<rparr>"
  have op: "it_created m" "\<not> it_completed m" "set (it_open m) = insert ?item (tool_items st)"
    using assms False by (auto simp: ready_simps live_items_def)
  then have "accepts table_step m (snd (closeChatMessage st)) = Some ?m"
    using False by (simp add: closeChatMessage_def accepts_append table_item_event table_item_done)
  moreover have "live_table ?m (tool_items st)"
    using op by (auto simp: live_table_def tool_items_def)
  moreover have "\<exists>s. fst (closeChatMessage st) = st\<lparr>cs_SequenceNumber := s\<rparr>"
    using False by (auto simp: closeChatMessage_def)
  ultimately show ?thesis by blast
qed

lemma synthesize_ready:
  assumes "ready p st m"
  shows "\<exists>m' q. accepts table_step m (snd (synthesizeChatReasoningFallbackMessage st)) = Some m' \<and>
    ready q (fst (synthesizeChatReasoningFallbackMessage st)) m' \<and> ci_reason q = ci_reason p"
proof (cases "synthesizeChatReasoningFallbackMessage st = (st, [])")
  case True
  with assms show ?thesis by auto
next
  case False
  then have "synthesizeChatReasoningFallbackMessage st =
      chain [ensureChatToResponsesMessageItem, ensureChatToResponsesTextPart, appendChatText (cs_Reasoning st)] st"
    by (simp add: synthesizeChatReasoningFallbackMessage_def del: chain_simps split: if_splits)
  with sim_message_text [of "cs_Reasoning st" p] assms show ?thesis
    unfolding sim_def by (metis (no_types, lifting) chat_in.select_convs(2) chat_in.surjective chat_in.update_convs(3))
qed

lemma completed_table:
  assumes "live_table m {}"
  shows "\<exists>m'. accepts table_step m (snd (chatCompletedEvent st)) = Some m' \<and> it_completed m' \<and> it_open m' = []"
  using assms
  by (simp add: chatCompletedEvent_def case_prod_beta Let_def emit_def chatToResponsesEvent_def table_step_def
      live_table_def event_item_type_def)

definition table_closed :: "item_table \<Rightarrow> bool" where
  "table_closed m \<longleftrightarrow> it_completed m \<and> it_open m = []"

lemma finalize_table:
  assumes "table_rel p st m"
  shows "\<exists>m'. accepts table_step m (snd (FinalizeChatCompletionsResponsesStream st)) = Some m' \<and> table_closed m'"
proof -
  let ?s1 = "fst (ensureChatToResponsesCreated st)"
  let ?s2 = "fst (closeChatReasoningItem ?s1)"
  let ?s3 = "fst (synthesizeChatReasoningFallbackMessage ?s2)"
  let ?s4 = "fst (closeChatMessage ?s3)"
  let ?s5 = "fst (closeChatToolItems ?s4)"
  from created_ready [OF assms] obtain m1 where m1:
    "accepts table_step m (snd (ensureChatToResponsesCreated st)) = Some m1" "ready p ?s1 m1" by blast
  from sim_closeReasoning [of p] m1(2) obtain m2 where m2:
    "accepts table_step m1 (snd (closeChatReasoningItem ?s1)) = Some m2"
    "ready (p\<lparr>ci_reason := reason_close (ci_reason p)\<rparr>) ?s2 m2" unfolding sim_def by blast
  from synthesize_ready [OF m2(2)] obtain m3 q where m3:
    "accepts table_step m2 (snd (synthesizeChatReasoningFallbackMessage ?s2)) = Some m3" "ready q ?s3 m3"
    "ci_reason q = reason_close (ci_reason p)" by auto
  then have "ci_reason q \<noteq> ROpen" by (simp add: reason_close_def)
  from closeMessage_table [OF m3(2) this] obtain m4 s where m4:
    "accepts table_step m3 (snd (closeChatMessage ?s3)) = Some m4" "live_table m4 (tool_items ?s3)"
    "?s4 = ?s3\<lparr>cs_SequenceNumber := s\<rparr>" by blast
  have wf: "tools_wf (ci_tools q) ?s4" using m3(2) unfolding m4(3) by (simp add: ready_simps tools_wf_def)
  have "length (cs_ToolCalls ?s4) = ci_tools q"
    using wf unfolding tools_wf_def by (metis length_map length_upt minus_nat.diff_0)
  moreover have "live_table m4 (tool_item ?s4 ` int ` set [0..<ci_tools q])"
    using m4(2) tool_items_image [OF wf] unfolding m4(3) by (simp add: tool_items_def)
  ultimately obtain m5 where m5: "accepts table_step m4 (snd (closeChatToolItems ?s4)) = Some m5" "live_table m5 {}"
    using closeTools_table [OF wf, of "[0..<ci_tools q]" m4] by (auto simp: closeChatToolItems_def)
  from completed_table [OF m5(2)] obtain m6 where m6:
    "accepts table_step m5 (snd (chatCompletedEvent ?s5)) = Some m6" "table_closed m6"
    by (auto simp: table_closed_def)
  have "\<not> cs_CompletedSent st" using assms by (simp add: table_rel_def)
  with m1(1) m2(1) m3(1) m4(1) m5(1) m6 show ?thesis
    by (simp add: FinalizeChatCompletionsResponsesStream_def accepts_append)
qed

interpretation chat_res_items: stream_session ChatCompletionsChunkToResponsesEvents in_chunk table_step
  table_rel FinalizeChatCompletionsResponsesStream table_closed
  by unfold_locales (auto dest: chunk_related finalize_table)

section \<open>What the state accumulates\<close>

definition chunk_reasoning :: "chat_completions_chunk \<Rightarrow> string" where
  "chunk_reasoning c =
     concat (map (\<lambda>k. case cd_ReasoningContent (ck_Delta k) of None \<Rightarrow> [] | Some t \<Rightarrow> t) (ch_Choices c))"

definition chunk_tools :: "chat_completions_chunk \<Rightarrow> chat_tool_call list" where
  "chunk_tools c = concat (map (\<lambda>k. cd_ToolCalls (ck_Delta k)) (ch_Choices c))"

text \<open>The text, the reasoning, whether the message item exists, and the arguments of a tool call.\<close>

definition tool_args :: "int \<Rightarrow> chat_to_res_state \<Rightarrow> string option" where
  "tool_args i st = map_option (\<lambda>tc. cf_Arguments (tc_Function tc)) (map_of (cs_ToolCalls st) i)"

definition accumulated :: "int \<Rightarrow> chat_to_res_state \<Rightarrow> string \<times> string \<times> bool \<times> string option" where
  "accumulated i st = (cs_Text st, cs_Reasoning st, cs_MessageItemID st \<noteq> [], tool_args i st)"

definition tool_args_step :: "int \<Rightarrow> string option \<Rightarrow> chat_tool_call \<Rightarrow> string option" where
  "tool_args_step i a tc =
     (if toolIndex tc = i
      then Some ((case a of None \<Rightarrow> cf_Arguments (tc_Function tc) | Some x \<Rightarrow> x) @ cf_Arguments (tc_Function tc))
      else a)"

lemma acc_items [simp]:
  "accumulated i (fst (ensureChatToResponsesCreated st)) = accumulated i st"
  "accumulated i (fst (ensureChatReasoningItem st)) = accumulated i st"
  "accumulated i (fst (closeChatReasoningItem st)) = accumulated i st"
  "accumulated i (fst (ensureChatToResponsesTextPart st)) = accumulated i st"
  unfolding ensureChatToResponsesCreated_def ensureChatReasoningItem_def closeChatReasoningItem_def
    ensureChatToResponsesTextPart_def
  by (simp_all add: accumulated_def tool_args_def new_item_defs)

lemma acc_message [simp]:
  "accumulated i (fst (ensureChatToResponsesMessageItem st)) =
     (cs_Text st, cs_Reasoning st, True, tool_args i st)"
  by (simp add: ensureChatToResponsesMessageItem_def accumulated_def tool_args_def new_item_defs)

lemma acc_fields:
  "accumulated i st = (t, r, b, a) \<Longrightarrow>
     cs_Text st = t \<and> cs_Reasoning st = r \<and> (cs_MessageItemID st \<noteq> []) = b \<and> tool_args i st = a"
  by (auto simp: accumulated_def)

lemma acc_appendText [simp]:
  "accumulated i (fst (appendChatText t st)) =
     (cs_Text st @ t, cs_Reasoning st, cs_MessageItemID st \<noteq> [], tool_args i st)"
  by (simp add: appendChatText_def accumulated_def tool_args_def)

definition opt_text :: "string option \<Rightarrow> string" where
  "opt_text d = (case d of None \<Rightarrow> [] | Some t \<Rightarrow> t)"

lemma acc_reasoningDelta:
  assumes "accumulated i st = (t, r, b, a)"
  shows "accumulated i (fst (chatReasoningDelta d st)) = (t, r @ opt_text d, b, a)"
  using assms acc_items(2) [of i st]
  by (auto simp: opt_text_def chatReasoningDelta_def accumulated_def tool_args_def split: option.splits)

lemma acc_contentDelta:
  assumes "accumulated i st = (t, r, b, a)"
  shows "accumulated i (fst (chatContentDelta d st)) =
    (t @ opt_text d, r, b \<or> opt_text d \<noteq> [], a)"
proof (cases "d = None \<or> d = Some []")
  case True
  with assms show ?thesis by (auto simp: chatContentDelta_def opt_text_def)
next
  case False
  then obtain u where u: "d = Some u" "u \<noteq> []" by auto
  let ?s1 = "fst (closeChatReasoningItem st)"
  let ?s2 = "fst (ensureChatToResponsesMessageItem ?s1)"
  let ?s3 = "fst (ensureChatToResponsesTextPart ?s2)"
  have "accumulated i ?s1 = (t, r, b, a)" using assms by simp
  from acc_fields [OF this] have "accumulated i ?s2 = (t, r, True, a)" by simp
  then have "accumulated i ?s3 = (t, r, True, a)" by simp
  from acc_fields [OF this] have "accumulated i (fst (appendChatText u ?s3)) = (t @ u, r, True, a)" by simp
  then show ?thesis by (simp add: chatContentDelta_def u opt_text_def)
qed

lemma acc_toolDelta:
  assumes "accumulated i st = (t, r, b, a)"
  shows "accumulated i (fst (chatToolDelta tc st)) = (t, r, b, tool_args_step i a tc)"
proof (cases "map_of (cs_ToolCalls st) (toolIndex tc)")
  case None
  let ?s1 = "fst (closeChatReasoningItem st)"
  have "cs_ToolCalls ?s1 = cs_ToolCalls st" by (simp add: closeChatReasoningItem_def)
  moreover have "accumulated i ?s1 = (t, r, b, a)" using assms by simp
  ultimately show ?thesis
    using None by (auto simp: chatToolDelta_def openOrUpdateTool_def openChatTool_def chatToolArguments_def
        new_item_defs accumulated_def tool_args_def tool_args_step_def update_conv' split: option.splits)
next
  case (Some stored)
  with assms show ?thesis
    by (auto simp: chatToolDelta_def openOrUpdateTool_def updateChatTool_def chatToolArguments_def
        accumulated_def tool_args_def tool_args_step_def update_conv' Let_def split: option.splits)
qed

lemma acc_toolDeltas:
  "accumulated i st = (t, r, b, a) \<Longrightarrow>
   accumulated i (fst (chain (map chatToolDelta tcs) st)) = (t, r, b, foldl (tool_args_step i) a tcs)"
  by (induction tcs arbitrary: st a) (auto simp: acc_toolDelta)

lemma acc_finishReason [simp]: "accumulated i (fst (chatFinishReason f st)) = accumulated i st"
  by (simp add: chatFinishReason_def accumulated_def tool_args_def split: option.splits)

lemma acc_head [simp]: "accumulated i (fst (chatChunkHead c st)) = accumulated i st"
  by (simp add: chatChunkHead_def accumulated_def tool_args_def Let_def)

lemma acc_choice:
  assumes "accumulated i st = (t, r, b, a)"
  shows "accumulated i (fst (chatChoice k st)) =
    (t @ opt_text (cd_Content (ck_Delta k)), r @ opt_text (cd_ReasoningContent (ck_Delta k)),
     b \<or> opt_text (cd_Content (ck_Delta k)) \<noteq> [], foldl (tool_args_step i) a (cd_ToolCalls (ck_Delta k)))"
proof -
  let ?d = "ck_Delta k"
  let ?s1 = "fst (chatReasoningDelta (cd_ReasoningContent ?d) st)"
  let ?s2 = "fst (chatContentDelta (cd_Content ?d) ?s1)"
  have "accumulated i (fst (chain (map chatToolDelta (cd_ToolCalls ?d)) ?s2)) =
      (t @ opt_text (cd_Content ?d), r @ opt_text (cd_ReasoningContent ?d),
       b \<or> opt_text (cd_Content ?d) \<noteq> [], foldl (tool_args_step i) a (cd_ToolCalls ?d))"
    using acc_toolDeltas [OF acc_contentDelta [OF acc_reasoningDelta [OF assms]]]
    by simp
  then show ?thesis by (simp add: chatChoice_def chain_append)
qed

lemma acc_choices:
  "accumulated i st = (t, r, b, a) \<Longrightarrow>
   accumulated i (fst (chain (map chatChoice ks) st)) =
     (t @ concat (map (\<lambda>k. opt_text (cd_Content (ck_Delta k))) ks),
      r @ concat (map (\<lambda>k. opt_text (cd_ReasoningContent (ck_Delta k))) ks),
      b \<or> concat (map (\<lambda>k. opt_text (cd_Content (ck_Delta k))) ks) \<noteq> [],
      foldl (tool_args_step i) a (concat (map (\<lambda>k. cd_ToolCalls (ck_Delta k)) ks)))"
proof (induction ks arbitrary: st t r b a)
  case (Cons k ks)
  from Cons.IH [OF acc_choice [OF Cons.prems, of k]] show ?case by (simp add: disj_assoc)
qed simp

lemma acc_chunk:
  assumes "accumulated i st = (t, r, b, a)"
  shows "accumulated i (fst (ChatCompletionsChunkToResponsesEvents c st)) =
    (t @ chat_text c, r @ chunk_reasoning c, b \<or> chat_text c \<noteq> [],
     foldl (tool_args_step i) a (chunk_tools c))"
proof -
  have "accumulated i (fst (ensureChatToResponsesCreated (fst (chatChunkHead c st)))) = (t, r, b, a)"
    using assms by simp
  from acc_choices [OF this, of "ch_Choices c"] show ?thesis
    by (simp add: ChatCompletionsChunkToResponsesEvents_def chat_text_def chunk_reasoning_def chunk_tools_def
        opt_text_def)
qed

lemma acc_run:
  "accumulated i st = (t, r, b, a) \<Longrightarrow>
   accumulated i (fst (run_stream ChatCompletionsChunkToResponsesEvents cs st)) =
     (t @ collect chat_text cs, r @ collect chunk_reasoning cs, b \<or> collect chat_text cs \<noteq> [],
      foldl (tool_args_step i) a (collect chunk_tools cs))"
proof (induction cs arbitrary: st t r b a)
  case (Cons c cs)
  from Cons.IH [OF acc_chunk [OF Cons.prems, of c]] show ?case by (simp add: disj_assoc)
qed simp

definition args_of :: "int \<Rightarrow> chat_tool_call list \<Rightarrow> string list" where
  "args_of i tcs = map (\<lambda>tc. cf_Arguments (tc_Function tc)) (filter (\<lambda>tc. toolIndex tc = i) tcs)"

lemma tool_args_foldl:
  "foldl (tool_args_step i) (Some x) tcs = Some (x @ concat (args_of i tcs))"
  "foldl (tool_args_step i) None tcs =
     (case args_of i tcs of [] \<Rightarrow> None | d # ds \<Rightarrow> Some (d @ concat (d # ds)))"
proof -
  show some: "foldl (tool_args_step i) (Some x) tcs = Some (x @ concat (args_of i tcs))" for x tcs
    by (induction tcs arbitrary: x) (simp_all add: tool_args_step_def args_of_def)
  show "foldl (tool_args_step i) None tcs =
      (case args_of i tcs of [] \<Rightarrow> None | d # ds \<Rightarrow> Some (d @ concat (d # ds)))"
  proof (induction tcs)
    case (Cons tc tcs)
    have "tool_args_step i None tc = (if toolIndex tc = i
        then Some (cf_Arguments (tc_Function tc) @ cf_Arguments (tc_Function tc)) else None)"
      by (simp add: tool_args_step_def)
    moreover have "args_of i (tc # tcs) = (if toolIndex tc = i
        then cf_Arguments (tc_Function tc) # args_of i tcs else args_of i tcs)"
      by (simp add: args_of_def)
    ultimately show ?case using Cons.IH by (simp add: some)
  qed (simp add: args_of_def)
qed

lemma new_accumulated:
  "accumulated i (NewChatCompletionsToResponsesStreamState now g model) = ([], [], False, None)"
  by (simp add: accumulated_def tool_args_def NewChatCompletionsToResponsesStreamState_def case_prod_beta Let_def)

lemmas acc_new_run = acc_run [OF new_accumulated, simplified]

lemma finalize_keeps:
  "cs_ToolCalls (fst (ensureChatToResponsesCreated st)) = cs_ToolCalls st"
  "cs_ToolCalls (fst (closeChatReasoningItem st)) = cs_ToolCalls st"
  by (simp_all add: ensureChatToResponsesCreated_def closeChatReasoningItem_def)

lemma closing_text [content_simps]:
  "collect res_text (snd (closeChatMessage st)) = []"
  "collect res_text (snd (closeChatToolItem i st)) = []"
  "collect res_text (snd (closeChatToolItems st)) = []"
  "collect res_text (snd (chatCompletedEvent st)) = []"
proof -
  show "collect res_text (snd (closeChatMessage st)) = []"
    by (simp add: closeChatMessage_def content_simps)
  show tool: "collect res_text (snd (closeChatToolItem i st)) = []" for i st
    by (simp add: closeChatToolItem_def Let_def content_simps split: option.splits)
  have "collect res_text (snd (chain (map (\<lambda>i. closeChatToolItem (int i)) ks) s)) = []" for ks s
    by (induction ks arbitrary: s) (simp_all add: tool)
  then show "collect res_text (snd (closeChatToolItems st)) = []" by (simp add: closeChatToolItems_def)
  show "collect res_text (snd (chatCompletedEvent st)) = []"
    by (simp add: chatCompletedEvent_def Let_def case_prod_beta content_simps)
qed

lemma finalize_text:
  assumes "accumulated i st = (t, r, t \<noteq> [], a)" and "\<not> cs_CompletedSent st"
  shows "collect res_text (snd (FinalizeChatCompletionsResponsesStream st)) =
    (if t = [] \<and> cs_ToolCalls st = [] \<and> trim_space r \<noteq> [] then r else [])"
proof -
  let ?s = "fst (closeChatReasoningItem (fst (ensureChatToResponsesCreated st)))"
  have "accumulated i ?s = (t, r, t \<noteq> [], a)" using assms(1) by simp
  note f = acc_fields [OF this]
  have "collect res_text (snd (synthesizeChatReasoningFallbackMessage ?s)) =
      (if t = [] \<and> cs_ToolCalls st = [] \<and> trim_space r \<noteq> [] then r else [])"
    using f by (auto simp: synthesizeChatReasoningFallbackMessage_def finalize_keeps content_simps)
  with assms(2) show ?thesis
    by (simp add: FinalizeChatCompletionsResponsesStream_def content_simps)
qed

lemma completed_untouched:
  "cs_CompletedSent (fst (ChatCompletionsChunkToResponsesEvents c st)) = cs_CompletedSent st"
proof -
  have items: "cs_CompletedSent (fst (ensureChatToResponsesCreated s)) = cs_CompletedSent s"
    "cs_CompletedSent (fst (ensureChatReasoningItem s)) = cs_CompletedSent s"
    "cs_CompletedSent (fst (closeChatReasoningItem s)) = cs_CompletedSent s"
    "cs_CompletedSent (fst (ensureChatToResponsesMessageItem s)) = cs_CompletedSent s"
    "cs_CompletedSent (fst (ensureChatToResponsesTextPart s)) = cs_CompletedSent s"
    "cs_CompletedSent (fst (appendChatText t s)) = cs_CompletedSent s" for s t
    by (simp_all add: chat_item_defs new_item_defs)
  have deltas: "cs_CompletedSent (fst (chatReasoningDelta r s)) = cs_CompletedSent s"
    "cs_CompletedSent (fst (chatContentDelta r s)) = cs_CompletedSent s"
    "cs_CompletedSent (fst (openOrUpdateTool tc s)) = cs_CompletedSent s"
    "cs_CompletedSent (fst (chatToolArguments tc s)) = cs_CompletedSent s"
    "cs_CompletedSent (fst (chatFinishReason r s)) = cs_CompletedSent s"
    "cs_CompletedSent (fst (chatChunkHead c s)) = cs_CompletedSent s" for r s tc c
    unfolding chatReasoningDelta_def chatContentDelta_def openOrUpdateTool_def chatToolArguments_def
      chatFinishReason_def chatChunkHead_def
    by (simp_all add: items openChatTool_def updateChatTool_def new_item_defs split: option.splits)
  have tools: "cs_CompletedSent (fst (chain (map chatToolDelta tcs) s)) = cs_CompletedSent s" for tcs s
    by (induction tcs arbitrary: s) (simp_all add: chatToolDelta_def deltas)
  have "cs_CompletedSent (fst (chain (map chatChoice ks) s)) = cs_CompletedSent s" for ks s
    by (induction ks arbitrary: s) (simp_all add: chatChoice_def chain_append deltas tools)
  then show ?thesis by (simp add: ChatCompletionsChunkToResponsesEvents_def items deltas)
qed

lemma run_not_completed:
  "cs_CompletedSent (fst (run_stream ChatCompletionsChunkToResponsesEvents cs st)) = cs_CompletedSent st"
  by (induction cs arbitrary: st) (simp_all add: completed_untouched)

lemma run_tools_empty:
  "(cs_ToolCalls (fst (run_stream ChatCompletionsChunkToResponsesEvents cs
      (NewChatCompletionsToResponsesStreamState now g model))) = []) = (collect chunk_tools cs = [])"
  (is "(cs_ToolCalls ?s = []) = _")
proof -
  have args: "tool_args i ?s = foldl (tool_args_step i) None (collect chunk_tools cs)" for i
    using acc_new_run [of i cs now g model] by (auto dest: acc_fields)
  have empty: "(cs_ToolCalls ?s = []) = (\<forall>i. tool_args i ?s = None)"
    by (cases "cs_ToolCalls ?s") (auto simp: tool_args_def split: if_splits)
  have "tool_args i ?s = None \<longleftrightarrow> args_of i (collect chunk_tools cs) = []" for i
    by (cases "args_of i (collect chunk_tools cs)") (simp_all add: args tool_args_foldl)
  then have "(\<forall>i. tool_args i ?s = None) = (\<forall>i. args_of i (collect chunk_tools cs) = [])" by simp
  also have "\<dots> = (collect chunk_tools cs = [])"
    by (cases "collect chunk_tools cs") (auto simp: args_of_def)
  finally show ?thesis unfolding empty .
qed

section \<open>Properties\<close>

definition chat_in0 :: chat_in where
  "chat_in0 = \<lparr>ci_tools = 0, ci_reason = RNone, ci_message = False\<rparr>"

definition table0 :: item_table where
  "table0 = \<lparr>it_created = False, it_completed = False, it_next = 0, it_open = []\<rparr>"

text \<open>
  C5. A Chat Completions stream whose tool-call indices are announced in order and whose reasoning
  does not resume becomes a Responses stream that keeps the item table: items get fresh consecutive
  output indices, every event belongs to an open item of its type, and the finalizer closes every
  item before its \<open>response.completed\<close>.
\<close>

theorem chat_res_stream_strict:
  assumes "accepts in_chunk chat_in0 cs = Some q"
  shows "\<exists>m. accepts table_step table0
      (let (st, os) = run_stream ChatCompletionsChunkToResponsesEvents cs
             (NewChatCompletionsToResponsesStreamState now g model);
           (st', os') = FinalizeChatCompletionsResponsesStream st
       in os @ os') = Some m \<and> table_closed m"
proof -
  have "table_rel chat_in0 (NewChatCompletionsToResponsesStreamState now g model) table0"
    by (simp add: NewChatCompletionsToResponsesStreamState_def case_prod_beta Let_def table_rel_def chat_in0_def
        table0_def live_items_def tool_items_def tools_wf_def reason_wf_def)
  from chat_res_items.session_closed [OF this assms] show ?thesis by (simp add: case_prod_beta)
qed

definition chat_delta_chunk :: "chat_delta \<Rightarrow> chat_completions_chunk" where
  "chat_delta_chunk d = \<lparr>ch_ID = ''c'', ch_Object = [], ch_Created = 0, ch_Model = ''m'',
     ch_Choices = [\<lparr>ck_Index = 0, ck_Delta = d, ck_FinishReason = None\<rparr>], ch_Usage = None,
     ch_SystemFingerprint = [], ch_ServiceTier = []\<rparr>"

definition chat_tool_chunk :: "int \<Rightarrow> string \<Rightarrow> chat_completions_chunk" where
  "chat_tool_chunk i args = chat_delta_chunk (zero_chat_delta\<lparr>cd_ToolCalls :=
     [\<lparr>tc_Index = Some i, tc_ID = ''call_1'', tc_Type = ''function'',
       tc_Function = \<lparr>cf_Name = ''f'', cf_Arguments = args\<rparr>\<rparr>]\<rparr>)"

lemma chat_res_stream_strict_witness:
  "\<exists>m. accepts table_step table0
      (let (st, os) = run_stream ChatCompletionsChunkToResponsesEvents
             [chat_delta_chunk (zero_chat_delta\<lparr>cd_ReasoningContent := Some ''hmm''\<rparr>),
              chat_delta_chunk (zero_chat_delta\<lparr>cd_Content := Some ''hello''\<rparr>),
              chat_tool_chunk 0 ''{}'']
             (NewChatCompletionsToResponsesStreamState 7 ((\<lambda>n. [chr n]), 0) ''gpt'');
           (st', os') = FinalizeChatCompletionsResponsesStream st
       in os @ os') = Some m \<and> table_closed m"
  by (rule chat_res_stream_strict
      [of _ "\<lparr>ci_tools = 1, ci_reason = RDone, ci_message = True\<rparr>"])
    (simp add: chat_in0_def in_chunk_def in_choice_def in_reasoning_def in_content_def in_tool_def
      reason_close_def chat_delta_chunk_def chat_tool_chunk_def toolIndex_def)

text \<open>
  Whatever the upstream sends, the events of the stream and of its finalizer are numbered
  0, 1, 2, ... without gap or repetition.
\<close>

theorem chat_res_stream_numbered:
  "let (st, os) = run_stream ChatCompletionsChunkToResponsesEvents cs
         (NewChatCompletionsToResponsesStreamState now g model);
       (st', os') = FinalizeChatCompletionsResponsesStream st
   in map re_SequenceNumber (os @ os') = [0..int (length (os @ os')) - 1]"
proof -
  let ?ini = "NewChatCompletionsToResponsesStreamState now g model"
  let ?r = "run_stream ChatCompletionsChunkToResponsesEvents cs ?ini"
  have "cs_SequenceNumber ?ini = 0"
    by (simp add: NewChatCompletionsToResponsesStreamState_def case_prod_beta Let_def)
  then have "numbered 0 (fst ?r, snd ?r)"
    using chat_res_seq.run_le [of ?ini cs] chat_res_seq.run_no [of cs ?ini] by (simp add: numbered_def)
  moreover have "numbered (cs_SequenceNumber (fst ?r)) (fst (FinalizeChatCompletionsResponsesStream (fst ?r)),
      snd (FinalizeChatCompletionsResponsesStream (fst ?r)))"
    using chat_finalize_numbered [of "fst ?r"] by simp
  ultimately have "numbered 0 (fst (FinalizeChatCompletionsResponsesStream (fst ?r)),
      snd ?r @ snd (FinalizeChatCompletionsResponsesStream (fst ?r)))"
    by (rule numbered_append)
  then show ?thesis
    using numbered_length [of re_SequenceNumber "snd ?r @ snd (FinalizeChatCompletionsResponsesStream (fst ?r))"]
    by (simp add: numbered_def case_prod_beta)
qed

text \<open>
  The text a Responses client receives is the content of the Chat Completions stream; only when
  there was no content and no tool call does the finalizer send the reasoning instead, if it is not
  blank.
\<close>

theorem chat_res_stream_text:
  "let (st, os) = run_stream ChatCompletionsChunkToResponsesEvents cs
         (NewChatCompletionsToResponsesStreamState now g model);
       (st', os') = FinalizeChatCompletionsResponsesStream st;
       content = collect chat_text cs; reasoning = collect chunk_reasoning cs
   in collect res_text (os @ os') =
        (if content = [] \<and> collect chunk_tools cs = [] \<and> trim_space reasoning \<noteq> [] then reasoning
         else content)"
proof -
  let ?ini = "NewChatCompletionsToResponsesStreamState now g model"
  let ?s = "fst (run_stream ChatCompletionsChunkToResponsesEvents cs ?ini)"
  have "\<not> cs_CompletedSent ?s"
    by (simp add: run_not_completed) (simp add: NewChatCompletionsToResponsesStreamState_def case_prod_beta Let_def)
  from finalize_text [OF acc_new_run [of 0 cs now g model] this] run_tools_empty [of cs now g model]
  show ?thesis by (simp add: case_prod_beta Let_def chat_res_content.run_content)
qed

text \<open>
  The arguments stored for a tool call, which the done events and the final output carry, are
  the concatenation of the upstream's argument deltas with the first delta counted twice. They are
  the upstream's arguments only when the announcing delta has empty arguments.
\<close>

theorem chat_tool_arguments_doubled:
  "tool_args i (fst (run_stream ChatCompletionsChunkToResponsesEvents cs
       (NewChatCompletionsToResponsesStreamState now g model))) =
   (case args_of i (collect chunk_tools cs) of [] \<Rightarrow> None | d # ds \<Rightarrow> Some (d @ concat (d # ds)))"
  using acc_new_run [of i cs now g model] by (auto dest!: acc_fields simp: tool_args_foldl)

text \<open>
  Tool calls whose upstream indices do not start at 0 are never finished: when every stored
  index lies at or beyond the number of calls, the finalizer closes none of them and the final
  output lists none of them.
\<close>

theorem sparse_tool_calls_never_closed:
  assumes "\<forall>k\<in>fst ` set (cs_ToolCalls st). int (length (cs_ToolCalls st)) \<le> k"
  shows "snd (closeChatToolItems st) = [] \<and>
    ''function_call'' \<notin> set (map ro_Type (fst (chatOutput st)))"
proof -
  have none: "map_of (cs_ToolCalls st) (int i) = None" if "i < length (cs_ToolCalls st)" for i
    using assms that by (force simp: map_of_eq_None_iff)
  have "snd (chain (map (\<lambda>i. closeChatToolItem (int i)) ks) st) = []"
    if "set ks \<subseteq> {0..<length (cs_ToolCalls st)}" for ks
    using that by (induction ks) (simp_all add: closeChatToolItem_def none)
  moreover have "fst (chatToolOutputs (cs_ToolCalls st) (map int ks) g) = []"
    if "set ks \<subseteq> {0..<length (cs_ToolCalls st)}" for ks g
    using that by (induction ks) (simp_all add: none)
  ultimately show ?thesis
    by (auto simp: closeChatToolItems_def chatOutput_def newItemID_def Let_def case_prod_beta)
qed

definition sparse_state :: chat_to_res_state where
  "sparse_state = (NewChatCompletionsToResponsesStreamState 7 ((\<lambda>n. [chr n]), 0) ''gpt'')
     \<lparr>cs_ToolCalls := [(1, zero_tool_call\<lparr>tc_ID := ''call_1'', tc_Type := ''function''\<rparr>)],
      cs_ToolItemIDs := [1 \<mapsto> ''item_01''], cs_ToolOutputIndex := [1 \<mapsto> 0], cs_nextOutputIndex := 1\<rparr>"

lemma sparse_tool_calls_never_closed_witness:
  "snd (closeChatToolItems sparse_state) = [] \<and> ''function_call'' \<notin> set (map ro_Type (fst (chatOutput sparse_state)))"
  by (rule sparse_tool_calls_never_closed) (simp add: sparse_state_def)

end
