(* ===== verification/ChatRequestBridge.thy ===== *)
theory ChatRequestBridge
  imports ChatContent
begin

text \<open>
  The request half of \<open>chatcompletions_responses_bridge.go\<close>: a Responses request turned into a Chat
  Completions request (\<open>ResponsesToChatCompletionsRequest\<close>). Input items are read from their JSON
  text; \<open>normalizeChatMessages\<close> then enforces the pairing of tool calls and tool replies. Errors are
  values; \<open>json.Marshal\<close> does not fail on the strings and structs written here, so the helpers whose
  only error is that one return their result.
\<close>

type_synonym raw_object = "(string \<times> raw_message) list"

datatype bridge_error =
    NilRequest
  | ParseInput
  | ParseItem

section \<open>Content\<close>

definition marshal_image_url :: "chat_image_url \<Rightarrow> string" where
  "marshal_image_url u =
     ''{'' @ json_quote ''url'' @ '':'' @ json_quote (iu_URL u) @
     (if iu_Detail u = [] then [] else '','' @ json_quote ''detail'' @ '':'' @ json_quote (iu_Detail u)) @ ''}''"

definition marshal_content_part :: "chat_content_part \<Rightarrow> string" where
  "marshal_content_part p =
     ''{'' @ json_quote ''type'' @ '':'' @ json_quote (ccp_Type p) @
     (if ccp_Text p = [] then [] else '','' @ json_quote ''text'' @ '':'' @ json_quote (ccp_Text p)) @
     (case ccp_ImageURL p of None \<Rightarrow> []
      | Some u \<Rightarrow> '','' @ json_quote ''image_url'' @ '':'' @ marshal_image_url u) @ ''}''"

definition marshal_content_parts :: "chat_content_part list \<Rightarrow> raw_message" where
  "marshal_content_parts ps = ''['' @ join '','' (map marshal_content_part ps) @ '']''"

definition image_part :: "string \<Rightarrow> chat_content_part" where
  "image_part url = \<lparr>ccp_Type = ''image_url'', ccp_Text = [],
     ccp_ImageURL = Some \<lparr>iu_URL = url, iu_Detail = []\<rparr>\<rparr>"

definition partImageURL :: "raw_object \<Rightarrow> string" where
  "partImageURL part =
     (let imageURL = rawString (raw_field part ''image_url'')
      in if imageURL = [] then rawNestedString (raw_field part ''image_url'') ''url'' else imageURL)"

definition chatContentFromSingleResponsesPart :: "string \<Rightarrow> raw_object \<Rightarrow> raw_message" where
  "chatContentFromSingleResponsesPart partType part =
     (if partType = ''input_image'' \<or> partType = ''image_url''
      then marshal_content_parts [image_part (partImageURL part)]
      else json_quote (rawString (raw_field part ''text'')))"

text \<open>The loop over the parts: texts, chat parts, and whether an image was seen.\<close>

definition contentPartStep :: "string list \<times> chat_content_part list \<times> bool \<Rightarrow> raw_message \<Rightarrow>
    string list \<times> chat_content_part list \<times> bool" where
  "contentPartStep acc rawPart =
     (case unmarshal_object rawPart of
        None \<Rightarrow> acc
      | Some part \<Rightarrow>
          (let (textParts, chatParts, hasNonText) = acc;
               partType = rawString (raw_field part ''type'')
           in if partType \<in> set [''input_text'', ''output_text'', ''text'', []] then
                (let t = rawString (raw_field part ''text'')
                 in if t = [] then acc
                    else (textParts @ [t],
                          chatParts @ [\<lparr>ccp_Type = ''text'', ccp_Text = t, ccp_ImageURL = None\<rparr>], hasNonText))
              else if partType = ''input_image'' \<or> partType = ''image_url'' then
                (let imageURL = partImageURL part
                 in if imageURL = [] then acc
                    else (textParts, chatParts @ [image_part imageURL], True))
              else acc))"

definition responsesContentPartsToChatContent :: "raw_message list \<Rightarrow> string \<Rightarrow> raw_message" where
  "responsesContentPartsToChatContent rawParts role =
     (let (textParts, chatParts, hasNonText) = foldl contentPartStep ([], [], False) rawParts
      in if \<not> hasNonText then json_quote (join paragraph_break textParts)
         else if role \<noteq> ''user'' then json_quote (join paragraph_break textParts)
         else if length chatParts = 0 then json_quote []
         else marshal_content_parts chatParts)"

definition responsesContentToChatContent :: "raw_message \<Rightarrow> string \<Rightarrow> raw_message" where
  "responsesContentToChatContent raw0 role =
     (let raw = bytesTrimSpace raw0 in
      if length raw = 0 \<or> raw = ''null'' then json_quote []
      else if unmarshal_string raw \<noteq> None then raw
      else (case unmarshal_array raw of
              Some rawParts \<Rightarrow> responsesContentPartsToChatContent rawParts role
            | None \<Rightarrow>
                (case unmarshal_object raw of
                   Some obj \<Rightarrow> chatContentFromSingleResponsesPart (rawString (raw_field obj ''type'')) obj
                 | None \<Rightarrow> raw)))"

definition chatCompletionsBridgeRole :: "string \<Rightarrow> string" where
  "chatCompletionsBridgeRole role =
     (let trimmed = trim_space role in
      if trimmed = [] then ''user''
      else if equal_fold trimmed ''developer'' then ''system''
      else role)"

fun unmarshal_objects :: "raw_message list \<Rightarrow> raw_object list option" where
  "unmarshal_objects [] = Some []"
| "unmarshal_objects (v # vs) =
     (case unmarshal_object v of
        None \<Rightarrow> None
      | Some m \<Rightarrow> map_option (\<lambda>ms. m # ms) (unmarshal_objects vs))"

definition collectReasoning :: "raw_message \<Rightarrow> string list" where
  "collectReasoning raw0 =
     (let raw = bytesTrimSpace raw0 in
      if length raw = 0 \<or> raw = ''null'' then []
      else (case Option.bind (unmarshal_array raw) unmarshal_objects of
              Some arr \<Rightarrow> filter (\<lambda>t. t \<noteq> []) (map (\<lambda>p. rawString (raw_field p ''text'')) arr)
            | None \<Rightarrow> (let t = rawString raw in if t \<noteq> [] then [t] else [])))"

definition extractResponsesReasoningText :: "raw_object \<Rightarrow> string" where
  "extractResponsesReasoningText item =
     (let parts = collectReasoning (raw_field item ''summary'');
          parts' = (if length parts = 0 then collectReasoning (raw_field item ''content'') else parts)
      in join [CHR 0x0A] parts')"

section \<open>Building the messages\<close>

definition simple_message :: "string \<Rightarrow> raw_message \<Rightarrow> chat_message" where
  "simple_message role content = zero_chat_message\<lparr>cm_Role := role, cm_Content := content\<rparr>"

definition itemToolCall :: "raw_object \<Rightarrow> chat_tool_call" where
  "itemToolCall item =
     (let arguments = rawString (raw_field item ''arguments'')
      in zero_tool_call\<lparr>tc_ID := rawString (raw_field item ''call_id''), tc_Type := ''function'',
           tc_Function := \<lparr>cf_Name = rawString (raw_field item ''name''),
             cf_Arguments = (if trim_space arguments = [] then ''{}'' else arguments)\<rparr>\<rparr>)"

text \<open>A call joins the assistant message before it, or starts a new one.\<close>

definition appendToolCall :: "chat_message list \<Rightarrow> string \<Rightarrow> chat_tool_call \<Rightarrow> chat_message list" where
  "appendToolCall messages pendingReasoning toolCall =
     (if messages \<noteq> [] \<and> cm_Role (last messages) = ''assistant'' then
        (let m = last messages;
             m1 = m\<lparr>cm_ToolCalls := cm_ToolCalls m @ [toolCall]\<rparr>;
             m2 = (if cm_ReasoningContent m1 = [] then m1\<lparr>cm_ReasoningContent := pendingReasoning\<rparr> else m1)
         in butlast messages @ [m2])
      else messages @ [zero_chat_message\<lparr>cm_Role := ''assistant'', cm_ToolCalls := [toolCall],
             cm_ReasoningContent := pendingReasoning\<rparr>])"

definition buildMessageItem :: "chat_message list \<Rightarrow> string \<Rightarrow> raw_object \<Rightarrow> string \<Rightarrow> chat_message list \<times> string" where
  "buildMessageItem messages pendingReasoning item role =
     (let content0 = raw_field item ''content'';
          t = rawString (raw_field item ''text'');
          content = (if length (bytesTrimSpace content0) = 0 \<and> t \<noteq> [] then json_quote t else content0)
      in (messages @ [simple_message role (responsesContentToChatContent content role)],
          if role \<noteq> ''assistant'' then [] else pendingReasoning))"

definition buildItem :: "chat_message list \<Rightarrow> string \<Rightarrow> raw_object \<Rightarrow> chat_message list \<times> string" where
  "buildItem messages pendingReasoning item =
     (let role = chatCompletionsBridgeRole (rawString (raw_field item ''role''));
          itemType = rawString (raw_field item ''type'')
      in if itemType = ''reasoning'' then
           (let t = extractResponsesReasoningText item in (messages, if t \<noteq> [] then t else pendingReasoning))
         else if itemType = ''function_call'' then
           (appendToolCall messages pendingReasoning (itemToolCall item), [])
         else if itemType = ''function_call_output'' then
           (messages @ [zero_chat_message\<lparr>cm_Role := ''tool'',
              cm_ToolCallID := rawString (raw_field item ''call_id''),
              cm_Content := json_quote (rawString (raw_field item ''output''))\<rparr>], [])
         else if itemType = ''input_text'' \<or> itemType = ''text'' then
           (messages @ [simple_message ''user'' (json_quote (rawString (raw_field item ''text'')))], [])
         else if itemType = ''input_image'' then
           (messages @ [simple_message ''user'' (chatContentFromSingleResponsesPart itemType item)], [])
         else if itemType \<noteq> [] \<and> itemType \<noteq> ''message'' then (messages, [])
         else buildMessageItem messages pendingReasoning item role)"

fun buildChatMessagesFromItems ::
    "chat_message list \<Rightarrow> string \<Rightarrow> raw_message list \<Rightarrow> bridge_error + chat_message list" where
  "buildChatMessagesFromItems messages pendingReasoning [] = Inr messages"
| "buildChatMessagesFromItems messages pendingReasoning (raw0 # raws) =
     (let raw = bytesTrimSpace raw0 in
      if length raw = 0 \<or> raw = ''null'' then buildChatMessagesFromItems messages pendingReasoning raws
      else (case unmarshal_object raw of
              None \<Rightarrow>
                (case unmarshal_string raw of
                   Some t \<Rightarrow>
                     buildChatMessagesFromItems (messages @ [simple_message ''user'' (json_quote t)]) [] raws
                 | None \<Rightarrow> Inl ParseItem)
            | Some item \<Rightarrow>
                (let (messages', pending') = buildItem messages pendingReasoning item
                 in buildChatMessagesFromItems messages' pending' raws)))"

section \<open>Normalizing the messages\<close>

definition toolReplies :: "chat_message list \<Rightarrow> string \<Rightarrow> chat_message option" where
  "toolReplies messages = foldl (\<lambda>replies m.
     if cm_Role m = ''tool'' \<and> cm_ToolCallID m \<noteq> [] then replies(cm_ToolCallID m \<mapsto> m) else replies)
     Map.empty messages"

definition normalizeMessage :: "(string \<Rightarrow> chat_message option) \<Rightarrow> chat_message \<Rightarrow> chat_message list" where
  "normalizeMessage replies m =
     (if cm_Role m = ''tool'' then (if cm_ToolCallID m = [] then [m] else [])
      else if length (cm_ToolCalls m) > 0 then
        (let kept = filter (\<lambda>tc. tc_ID tc \<noteq> [] \<and> replies (tc_ID tc) \<noteq> None) (cm_ToolCalls m)
         in if length kept = 0 then
              (if isBlankChatContent (cm_Content m) then [] else [m\<lparr>cm_ToolCalls := []\<rparr>])
            else m\<lparr>cm_ToolCalls := kept\<rparr> # map (\<lambda>tc. the (replies (tc_ID tc))) kept)
      else [m])"

definition normalizeChatMessages :: "chat_message list \<Rightarrow> chat_message list" where
  "normalizeChatMessages messages = concat (map (normalizeMessage (toolReplies messages)) messages)"

section \<open>The request\<close>

definition responsesInputToChatMessages :: "string \<Rightarrow> raw_message \<Rightarrow> bridge_error + chat_message list" where
  "responsesInputToChatMessages instructions inputRaw0 =
     (let messages = (if trim_space instructions \<noteq> []
            then [simple_message ''system'' (json_quote instructions)] else []);
          inputRaw = bytesTrimSpace inputRaw0
      in if length inputRaw = 0 \<or> inputRaw = ''null'' then Inr messages
         else (case unmarshal_string inputRaw of
                 Some inputText \<Rightarrow> Inr (messages @ [simple_message ''user'' (json_quote inputText)])
               | None \<Rightarrow>
                   (case unmarshal_array inputRaw of
                      None \<Rightarrow> Inl ParseInput
                    | Some rawItems \<Rightarrow>
                        (case buildChatMessagesFromItems messages [] rawItems of
                           Inl e \<Rightarrow> Inl e
                         | Inr built \<Rightarrow> Inr (normalizeChatMessages built)))))"

definition responsesToolsToChatTools :: "responses_tool list \<Rightarrow> chat_tool list" where
  "responsesToolsToChatTools tools =
     map (\<lambda>tool. \<lparr>ct_Type = ''function'',
            ct_Function = Some \<lparr>fn_Name = rt_Name tool, fn_Description = rt_Description tool,
              fn_Parameters = rt_Parameters tool, fn_Strict = rt_Strict tool\<rparr>\<rparr>)
       (filter (\<lambda>tool. rt_Type tool = ''function'') tools)"

definition responsesToolChoiceToChatToolChoice :: "raw_message \<Rightarrow> raw_message" where
  "responsesToolChoiceToChatToolChoice raw =
     (case unmarshal_object raw of
        None \<Rightarrow> raw
      | Some choice \<Rightarrow>
          if rawString (raw_field choice ''type'') \<noteq> ''function'' then raw
          else (let name0 = rawString (raw_field choice ''name'');
                    name = (if name0 = [] then rawNestedString (raw_field choice ''function'') ''name'' else name0)
                in if name = [] then raw
                   else marshal_object [(''type'', json_quote ''function''),
                          (''function'', marshal_object [(''name'', json_quote name)])]))"

definition ResponsesToChatCompletionsRequest ::
    "responses_request option \<Rightarrow> bridge_error + chat_completions_request" where
  "ResponsesToChatCompletionsRequest reqp =
     (case reqp of
        None \<Rightarrow> Inl NilRequest
      | Some req \<Rightarrow>
          (case responsesInputToChatMessages (rq_Instructions req) (rq_Input req) of
             Inl e \<Rightarrow> Inl e
           | Inr messages \<Rightarrow>
               Inr \<lparr>cq_Model = rq_Model req, cq_Messages = messages, cq_Instructions = [],
                 cq_MaxTokens = None, cq_MaxCompletionTokens = rq_MaxOutputTokens req,
                 cq_Temperature = rq_Temperature req, cq_TopP = rq_TopP req, cq_Stream = rq_Stream req,
                 cq_StreamOptions = None,
                 cq_Tools = (if length (rq_Tools req) > 0 then responsesToolsToChatTools (rq_Tools req) else []),
                 cq_ToolChoice = (if length (rq_ToolChoice req) > 0
                   then responsesToolChoiceToChatToolChoice (rq_ToolChoice req) else []),
                 cq_ReasoningEffort = (case rq_Reasoning req of None \<Rightarrow> [] | Some r \<Rightarrow> rre_Effort r),
                 cq_ServiceTier = rq_ServiceTier req, cq_Stop = [], cq_Functions = [], cq_FunctionCall = []\<rparr>))"

section \<open>The pairing invariant\<close>

text \<open>
  What the upstream's schema requires: a message with tool calls is immediately followed by one tool
  message per call, in the order of the calls and under their ids; other tool messages carry no id.
\<close>

definition answers :: "chat_tool_call \<Rightarrow> chat_message \<Rightarrow> bool" where
  "answers tc r \<longleftrightarrow> cm_Role r = ''tool'' \<and> cm_ToolCallID r = tc_ID tc \<and> tc_ID tc \<noteq> []"

function well_paired :: "chat_message list \<Rightarrow> bool" where
  "well_paired [] = True"
| "well_paired (m # ms) =
     (if cm_Role m = ''tool'' then cm_ToolCallID m = [] \<and> well_paired ms
      else list_all2 answers (cm_ToolCalls m) (take (length (cm_ToolCalls m)) ms) \<and>
           well_paired (drop (length (cm_ToolCalls m)) ms))"
  by pat_completeness auto
termination by (relation "measure length") auto

lemma well_paired_block:
  assumes "cm_Role m \<noteq> ''tool''" and "list_all2 answers (cm_ToolCalls m) rs" and "well_paired ms"
  shows "well_paired (m # rs @ ms)"
proof -
  have "length rs = length (cm_ToolCalls m)" using assms(2) by (simp add: list_all2_lengthD)
  then show ?thesis using assms by simp
qed

text \<open>Every entry of the reply index is a tool message under its own id.\<close>

definition reply_index :: "(string \<Rightarrow> chat_message option) \<Rightarrow> bool" where
  "reply_index replies \<longleftrightarrow>
     (\<forall>k r. replies k = Some r \<longrightarrow> cm_Role r = ''tool'' \<and> cm_ToolCallID r = k \<and> k \<noteq> [])"

lemma toolReplies_snoc:
  "toolReplies (ms @ [m]) =
     (if cm_Role m = ''tool'' \<and> cm_ToolCallID m \<noteq> [] then (toolReplies ms)(cm_ToolCallID m \<mapsto> m)
      else toolReplies ms)"
  by (simp add: toolReplies_def)

lemma toolReplies_index: "reply_index (toolReplies ms)"
proof (induction ms rule: rev_induct)
  case Nil
  then show ?case by (simp add: reply_index_def toolReplies_def)
next
  case (snoc m ms)
  then show ?case by (auto simp: toolReplies_snoc reply_index_def)
qed

lemma kept_answered:
  assumes "reply_index replies" and "\<forall>tc\<in>set tcs. tc_ID tc \<noteq> [] \<and> replies (tc_ID tc) \<noteq> None"
  shows "list_all2 answers tcs (map (\<lambda>tc. the (replies (tc_ID tc))) tcs)"
  using assms(2)
proof (induction tcs)
  case (Cons tc tcs)
  then obtain r where "replies (tc_ID tc) = Some r" by auto
  with assms(1) Cons show ?case by (auto simp: reply_index_def answers_def)
qed simp

lemma normalizeMessage_paired:
  assumes "reply_index replies" and "well_paired ms"
  shows "well_paired (normalizeMessage replies m @ ms)"
proof (cases "cm_Role m = ''tool''")
  case True
  with assms show ?thesis by (simp add: normalizeMessage_def)
next
  case False
  let ?kept = "filter (\<lambda>tc. tc_ID tc \<noteq> [] \<and> replies (tc_ID tc) \<noteq> None) (cm_ToolCalls m)"
  show ?thesis
  proof (cases "?kept = []")
    case True
    with False assms(2) show ?thesis by (auto simp: normalizeMessage_def Let_def)
  next
    case kept: False
    then have "cm_ToolCalls m \<noteq> []" by auto
    then have n: "normalizeMessage replies m =
        m\<lparr>cm_ToolCalls := ?kept\<rparr> # map (\<lambda>tc. the (replies (tc_ID tc))) ?kept"
      using False kept by (simp add: normalizeMessage_def Let_def)
    have "list_all2 answers ?kept (map (\<lambda>tc. the (replies (tc_ID tc))) ?kept)"
      by (rule kept_answered [OF assms(1)]) simp
    with False assms(2) show ?thesis
      unfolding n append_Cons by (intro well_paired_block) simp_all
  qed
qed

lemma normalize_paired:
  "reply_index replies \<Longrightarrow> well_paired (concat (map (normalizeMessage replies) ms))"
  by (induction ms) (simp_all add: normalizeMessage_paired)

section \<open>Normalizing twice\<close>

text \<open>Two reply indices agree on a list when they agree on every id the list's tool calls use.\<close>

definition announced :: "chat_message list \<Rightarrow> string set" where
  "announced ms = {tc_ID tc | tc m. m \<in> set ms \<and> cm_Role m \<noteq> ''tool'' \<and> tc \<in> set (cm_ToolCalls m)}"

lemma normalizeMessage_replies:
  "reply_index replies \<Longrightarrow> \<forall>tc\<in>set tcs. tc_ID tc \<noteq> [] \<and> replies (tc_ID tc) \<noteq> None \<Longrightarrow>
   concat (map (normalizeMessage replies') (map (\<lambda>tc. the (replies (tc_ID tc))) tcs)) = []"
  by (induction tcs) (auto simp: reply_index_def normalizeMessage_def)

lemma normalizeMessage_kept:
  assumes "cm_Role m \<noteq> ''tool''" and "cm_ToolCalls m \<noteq> []"
    and "\<forall>tc\<in>set (cm_ToolCalls m). tc_ID tc \<noteq> [] \<and> replies (tc_ID tc) \<noteq> None"
  shows "normalizeMessage replies m = m # map (\<lambda>tc. the (replies (tc_ID tc))) (cm_ToolCalls m)"
proof -
  have "filter (\<lambda>tc. tc_ID tc \<noteq> [] \<and> replies (tc_ID tc) \<noteq> None) (cm_ToolCalls m) = cm_ToolCalls m"
    using assms(3) by (rule filter_True)
  then show ?thesis using assms(1,2) unfolding normalizeMessage_def by (simp only: Let_def) simp
qed

lemma normalizeMessage_again:
  assumes "reply_index replies" and "\<forall>k\<in>announced (normalizeMessage replies m). replies' k = replies k"
  shows "concat (map (normalizeMessage replies') (normalizeMessage replies m)) = normalizeMessage replies m"
proof (cases "cm_Role m = ''tool'' \<or> cm_ToolCalls m = []")
  case True
  then show ?thesis by (auto simp: normalizeMessage_def)
next
  case False
  let ?kept = "filter (\<lambda>tc. tc_ID tc \<noteq> [] \<and> replies (tc_ID tc) \<noteq> None) (cm_ToolCalls m)"
  show ?thesis
  proof (cases "?kept = []")
    case True
    with False show ?thesis by (auto simp: normalizeMessage_def Let_def)
  next
    case kept: False
    let ?m = "m\<lparr>cm_ToolCalls := ?kept\<rparr>"
    let ?rs = "map (\<lambda>tc. the (replies (tc_ID tc))) ?kept"
    have n: "normalizeMessage replies m = ?m # ?rs"
      using False kept by (simp add: normalizeMessage_def Let_def)
    have same: "replies' (tc_ID tc) = replies (tc_ID tc)" if "tc \<in> set ?kept" for tc
    proof -
      have "tc_ID tc \<in> announced (?m # ?rs)"
        unfolding announced_def using that False by (intro CollectI exI [of _ tc] exI [of _ ?m]) simp
      then show ?thesis using assms(2) unfolding n by blast
    qed
    have r: "map (\<lambda>tc. the (replies' (tc_ID tc))) ?kept = ?rs"
      using same by (intro map_cong refl) simp
    have "tc_ID tc \<noteq> [] \<and> replies' (tc_ID tc) \<noteq> None" if "tc \<in> set ?kept" for tc
    proof -
      from that have "tc_ID tc \<noteq> [] \<and> replies (tc_ID tc) \<noteq> None" by simp
      then show ?thesis unfolding same [OF that] .
    qed
    then have all: "\<forall>tc\<in>set ?kept. tc_ID tc \<noteq> [] \<and> replies' (tc_ID tc) \<noteq> None" by (intro ballI)
    have role: "cm_Role ?m \<noteq> ''tool''" "cm_ToolCalls ?m = ?kept" using False by simp_all
    have step: "normalizeMessage replies' x = x # map (\<lambda>tc. the (replies' (tc_ID tc))) (cm_ToolCalls x)"
      if x: "cm_Role x \<noteq> ''tool''" "cm_ToolCalls x = ?kept" for x
    proof (rule normalizeMessage_kept)
      show "cm_Role x \<noteq> ''tool''" by (rule x(1))
      show "cm_ToolCalls x \<noteq> []" unfolding x(2) by (rule kept)
      show "\<forall>tc\<in>set (cm_ToolCalls x). tc_ID tc \<noteq> [] \<and> replies' (tc_ID tc) \<noteq> None"
        unfolding x(2) by (rule all)
    qed
    from step [OF role] have "normalizeMessage replies' ?m = ?m # ?rs" unfolding role(2) r .
    moreover have "concat (map (normalizeMessage replies') ?rs) = []"
      by (rule normalizeMessage_replies [OF assms(1)]) simp
    ultimately show ?thesis unfolding n by simp
  qed
qed

lemma normalize_again:
  assumes "reply_index replies"
    and "\<forall>k\<in>announced (concat (map (normalizeMessage replies) ms)). replies' k = replies k"
  shows "concat (map (normalizeMessage replies') (concat (map (normalizeMessage replies) ms))) =
    concat (map (normalizeMessage replies) ms)"
  using assms(2)
proof (induction ms)
  case (Cons m ms)
  have "\<forall>k\<in>announced (normalizeMessage replies m). replies' k = replies k"
    "\<forall>k\<in>announced (concat (map (normalizeMessage replies) ms)). replies' k = replies k"
    using Cons.prems by (auto simp: announced_def)
  with Cons.IH normalizeMessage_again [OF assms(1)] show ?case by simp
qed simp

text \<open>The index of a normalized list agrees with the index it was made with.\<close>

lemma normalize_tools:
  assumes "reply_index replies" and "m \<in> set (concat (map (normalizeMessage replies) ms))"
    and "cm_Role m = ''tool''" and "cm_ToolCallID m \<noteq> []"
  shows "replies (cm_ToolCallID m) = Some m"
proof -
  from assms(2) obtain x where "m \<in> set (normalizeMessage replies x)" by auto
  with assms(1,3,4) show ?thesis
    by (auto simp: normalizeMessage_def Let_def reply_index_def split: if_splits)
qed

lemma toolReplies_agree:
  assumes "\<And>m. m \<in> set ms \<Longrightarrow> cm_Role m = ''tool'' \<Longrightarrow> cm_ToolCallID m \<noteq> [] \<Longrightarrow> f (cm_ToolCallID m) = Some m"
  shows "toolReplies ms k = (if \<exists>m\<in>set ms. cm_Role m = ''tool'' \<and> cm_ToolCallID m = k \<and> k \<noteq> [] then f k else None)"
  using assms
proof (induction ms rule: rev_induct)
  case Nil
  then show ?case by (simp add: toolReplies_def)
next
  case (snoc m ms)
  then show ?case by (auto simp: toolReplies_snoc)
qed

lemma announced_replied:
  assumes "reply_index replies" and "k \<in> announced (concat (map (normalizeMessage replies) ms))"
  shows "\<exists>m\<in>set (concat (map (normalizeMessage replies) ms)). cm_Role m = ''tool'' \<and> cm_ToolCallID m = k \<and> k \<noteq> []"
proof -
  from assms(2) obtain x m tc where x: "x \<in> set ms" "m \<in> set (normalizeMessage replies x)"
    "cm_Role m \<noteq> ''tool''" "tc \<in> set (cm_ToolCalls m)" "k = tc_ID tc" by (auto simp: announced_def)
  then have k: "k \<noteq> []" "replies k \<noteq> None" "the (replies k) \<in> set (normalizeMessage replies x)"
    using assms(1) by (auto simp: normalizeMessage_def Let_def reply_index_def split: if_splits)
  have "the (replies k) \<in> set (concat (map (normalizeMessage replies) ms))" using x(1) k(3) by auto
  moreover have "cm_Role (the (replies k)) = ''tool''" "cm_ToolCallID (the (replies k)) = k"
    using assms(1) k(2) by (auto simp: reply_index_def)
  ultimately show ?thesis using k(1) by blast
qed

section \<open>Properties\<close>

text \<open>
  Whatever the messages, the normalized list satisfies the pairing the upstream requires: every
  message with tool calls is directly followed by exactly the replies to its calls, in their order.
\<close>

theorem normalize_well_paired: "well_paired (normalizeChatMessages ms)"
  unfolding normalizeChatMessages_def by (rule normalize_paired [OF toolReplies_index])

text \<open>
  Normalizing a normalized list changes nothing.
\<close>

theorem normalize_idempotent:
  "normalizeChatMessages (normalizeChatMessages ms) = normalizeChatMessages ms"
proof -
  let ?r = "toolReplies ms"
  let ?out = "concat (map (normalizeMessage ?r) ms)"
  have "toolReplies ?out k = ?r k" if "k \<in> announced ?out" for k
    using toolReplies_agree [of ?out ?r k] normalize_tools [OF toolReplies_index, of _ ms ms]
      announced_replied [OF toolReplies_index that] by auto
  then show ?thesis
    unfolding normalizeChatMessages_def by (intro normalize_again [OF toolReplies_index]) blast
qed

text \<open>
  C31. Every request that is converted reaches the upstream with paired tool calls, and its error
  cases are those of the parser: a nil request, an input that is neither a string nor an array, an
  item that is neither an object nor a string.
\<close>

theorem request_messages_paired:
  "case ResponsesToChatCompletionsRequest reqp of
     Inl e \<Rightarrow> (e = NilRequest) = (reqp = None)
   | Inr out \<Rightarrow> well_paired (cq_Messages out)"
proof -
  have no_nil: "buildChatMessagesFromItems ms p raws \<noteq> Inl NilRequest" for ms p raws
    by (induction ms p raws rule: buildChatMessagesFromItems.induct)
      (auto simp: Let_def case_prod_beta split: option.splits)
  show ?thesis
    by (auto simp: ResponsesToChatCompletionsRequest_def responsesInputToChatMessages_def Let_def no_nil
        simple_message_def normalize_paired [OF toolReplies_index] normalizeChatMessages_def
        split: option.splits sum.splits)
qed

end
