(* ===== verification/Pipeline.thy ===== *)
theory Pipeline
  imports AnthropicResponses ResponsesChat
begin

text \<open>
  The streaming loop of \<open>service/gateway_forward_as_chat_completions.go\<close>: an Anthropic upstream shown
  to a Chat Completions client by running two converters in a row, each Responses event of the first
  going through the second at once, and both finalizers when the upstream ends. The client connection
  is assumed to stay open (\<open>writeChunk\<close> only reports that it was lost); the rendering of a chunk as
  an SSE line is not modelled.
\<close>

section \<open>Running two converters in a row\<close>

definition pipe :: "('e \<Rightarrow> 's \<Rightarrow> 's \<times> 'o list) \<Rightarrow> ('o \<Rightarrow> 't \<Rightarrow> 't \<times> 'p list) \<Rightarrow> 'e \<Rightarrow> 's \<times> 't \<Rightarrow> ('s \<times> 't) \<times> 'p list"
  where
  "pipe f g e st =
     (let (s1, os) = f e (fst st); (t1, ps) = run_stream g os (snd st) in ((s1, t1), ps))"

lemma run_pipe:
  "run_stream (pipe f g) es (s, t) =
     ((fst (run_stream f es s), fst (run_stream g (snd (run_stream f es s)) t)),
      snd (run_stream g (snd (run_stream f es s)) t))"
  by (induction es arbitrary: s t)
    (simp_all add: pipe_def run_stream.simps(2) run_stream_append Let_def case_prod_beta prod_eq_iff)

section \<open>The gateway's loop\<close>

definition processAnthropicEvent :: "anthropic_stream_event \<Rightarrow> anth_to_res_state \<times> res_to_chat_state \<Rightarrow>
    (anth_to_res_state \<times> res_to_chat_state) \<times> chat_completions_chunk list" where
  "processAnthropicEvent = pipe AnthropicEventToResponsesEvents ResponsesEventToChatChunks"

definition forwardInit :: "int \<Rightarrow> rand_source \<Rightarrow> string \<Rightarrow> bool \<Rightarrow> anth_to_res_state \<times> res_to_chat_state" where
  "forwardInit now g originalModel includeUsage =
     (let (cc, g') = NewResponsesEventToChatState now g
      in ((NewAnthropicEventToResponsesState now g')\<lparr>rs_Model := originalModel\<rparr>,
          cc\<lparr>rc_Model := originalModel, rc_IncludeUsage := includeUsage\<rparr>))"

definition finalizeBoth :: "anth_to_res_state \<times> res_to_chat_state \<Rightarrow> chat_completions_chunk list" where
  "finalizeBoth st =
     (let (a, rs) = FinalizeAnthropicResponsesStream (fst st);
          (c, cs) = run_stream ResponsesEventToChatChunks rs (snd st);
          (c', ds) = FinalizeResponsesChatStream c
      in cs @ ds)"

definition forwardStream :: "anthropic_stream_event list \<Rightarrow> int \<Rightarrow> rand_source \<Rightarrow> string \<Rightarrow> bool \<Rightarrow>
    chat_completions_chunk list" where
  "forwardStream es now g originalModel includeUsage =
     (let (st, cs) = run_stream processAnthropicEvent es (forwardInit now g originalModel includeUsage)
      in cs @ finalizeBoth st)"

text \<open>The Responses events that flow between the two converters.\<close>

definition innerEvents :: "anthropic_stream_event list \<Rightarrow> anth_to_res_state \<Rightarrow> responses_stream_event list" where
  "innerEvents es a =
     snd (run_stream AnthropicEventToResponsesEvents es a) @
     snd (FinalizeAnthropicResponsesStream (fst (run_stream AnthropicEventToResponsesEvents es a)))"

lemma forwardStream_inner:
  assumes "forwardInit now g model inc = (a, c)"
  shows "forwardStream es now g model inc =
     snd (run_stream ResponsesEventToChatChunks (innerEvents es a) c) @
     snd (FinalizeResponsesChatStream (fst (run_stream ResponsesEventToChatChunks (innerEvents es a) c)))"
  by (simp add: forwardStream_def assms processAnthropicEvent_def run_pipe finalizeBoth_def innerEvents_def
      run_stream_append Let_def case_prod_beta)

section \<open>Terminal events\<close>

text \<open>The first converter sends \<open>response.completed\<close> once, and no other terminal event.\<close>

definition completed_count :: "anth_to_res_state \<Rightarrow> anth_to_res \<Rightarrow> bool" where
  "completed_count st r \<longleftrightarrow>
     length (collect terminal_mark (snd r)) = (if rs_CompletedSent (fst r) \<and> \<not> rs_CompletedSent st then 1 else 0) \<and>
     (rs_CompletedSent st \<longrightarrow> rs_CompletedSent (fst r))"

lemma make_completed [simp]:
  "collect terminal_mark (snd (makeResponsesCreatedEvent st)) = []"
  "collect terminal_mark (snd (makeResponsesCompletedEvent s d st)) = [()]"
  "collect terminal_mark (snd (closeCurrentResponsesItem st)) = []"
  "t \<notin> chatTerminalTypes \<Longrightarrow> collect terminal_mark (snd (makeResponsesEvent t tmpl st)) = []"
  "rs_CompletedSent (fst (makeResponsesEvent t tmpl st)) = rs_CompletedSent st"
  "rs_CompletedSent (fst (makeResponsesCreatedEvent st)) = rs_CompletedSent st"
  "rs_CompletedSent (fst (closeCurrentResponsesItem st)) = rs_CompletedSent st"
  by (simp_all add: make_defs terminal_mark_def chat_terminal_def Let_def)

lemma handlers_marks:
  "collect terminal_mark (snd (anthToResHandleMessageStart e st)) = []"
  "collect terminal_mark (snd (anthToResHandleContentBlockStart e st)) = []"
  "collect terminal_mark (snd (anthToResHandleContentBlockDelta e st)) = []"
  "collect terminal_mark (snd (anthToResHandleContentBlockStop st)) = []"
  "collect terminal_mark (snd (anthToResHandleMessageDelta e st)) = []"
  "collect terminal_mark (snd (anthToResHandleMessageStop st)) = (if rs_CompletedSent st then [] else [()])"
  by (simp_all add: anth_res_defs Let_def case_prod_beta split: option.splits)

lemma handlers_sent:
  "rs_CompletedSent (fst (anthToResHandleMessageStart e st)) = rs_CompletedSent st"
  "rs_CompletedSent (fst (anthToResHandleContentBlockStart e st)) = rs_CompletedSent st"
  "rs_CompletedSent (fst (anthToResHandleContentBlockDelta e st)) = rs_CompletedSent st"
  "rs_CompletedSent (fst (anthToResHandleContentBlockStop st)) = rs_CompletedSent st"
  "rs_CompletedSent (fst (anthToResHandleMessageDelta e st)) = rs_CompletedSent st"
  "rs_CompletedSent (fst (anthToResHandleMessageStop st))"
  by (simp_all add: anth_res_defs Let_def case_prod_beta split: option.splits)

lemma step_completed: "completed_count st (AnthropicEventToResponsesEvents e st)"
proof (cases "ae_Type e \<in> set anthTypes")
  case True
  then show ?thesis
    by (auto simp: anthTypes_def anth_dispatch completed_count_def handlers_marks handlers_sent)
next
  case False
  then show ?thesis by (simp add: anth_dispatch_ignored completed_count_def)
qed

lemma finalize_completed: "completed_count st (FinalizeAnthropicResponsesStream st)"
  by (simp add: completed_count_def FinalizeAnthropicResponsesStream_def Let_def case_prod_beta)

lemma run_completed: "completed_count st (run_stream AnthropicEventToResponsesEvents es st)"
proof (induction es arbitrary: st)
  case Nil
  then show ?case by (simp add: completed_count_def)
next
  case (Cons e es)
  let ?s1 = "fst (AnthropicEventToResponsesEvents e st)"
  have "completed_count st (AnthropicEventToResponsesEvents e st)" by (rule step_completed)
  moreover have "completed_count ?s1 (run_stream AnthropicEventToResponsesEvents es ?s1)" by (rule Cons.IH)
  ultimately show ?case
    unfolding completed_count_def run_stream_Cons collect_simps length_append
    by (cases "rs_CompletedSent st"; cases "rs_CompletedSent ?s1") simp_all
qed

lemma inner_terminal:
  assumes "\<not> rs_CompletedSent a"
  shows "length (filter chat_terminal (innerEvents es a)) \<le> 1"
proof -
  let ?r = "run_stream AnthropicEventToResponsesEvents es a"
  have "length (collect terminal_mark (snd ?r)) + length (collect terminal_mark
      (snd (FinalizeAnthropicResponsesStream (fst ?r)))) \<le> 1"
    using run_completed [of a es] finalize_completed [of "fst ?r"] assms
    unfolding completed_count_def by (cases "rs_CompletedSent (fst ?r)") simp_all
  then show ?thesis unfolding terminal_marks [symmetric] innerEvents_def by simp
qed

section \<open>Properties\<close>


end
