(* ===== verification/IdempotencyStore.thy ===== *)
theory IdempotencyStore
  imports GoJson
begin

text \<open>
  The store of idempotency records: \<open>IdempotencyRecord\<close> and the interface \<open>IdempotencyRepository\<close> of
  \<open>service/idempotency.go\<close>, and its implementation \<open>repository/idempotency_repo.go\<close>, whose SQL
  statements are read on a table kept as a list of rows. Each statement is one atomic step. The
  sequence behind \<open>BIGSERIAL\<close> starts at 1 and also advances when an insert runs into the unique
  index. Times are integers, in nanoseconds; \<open>dbnow\<close> is the database's \<open>NOW()\<close>, which only the
  \<open>created_at\<close> and \<open>updated_at\<close> columns see. Failures of the database (a lost connection, a value too
  long for its column) are outside the table model; the service's reaction to them is modelled,
  since every operation of the interface may return an error.
\<close>

record idempotency_record =
  ir_ID :: int
  ir_Scope :: string
  ir_IdempotencyKeyHash :: string
  ir_RequestFingerprint :: string
  ir_Status :: string
  ir_ResponseStatus :: "int option"
  ir_ResponseBody :: "string option"
  ir_ErrorReason :: "string option"
  ir_LockedUntil :: "int option"
  ir_ExpiresAt :: int
  ir_CreatedAt :: int
  ir_UpdatedAt :: int

definition IdempotencyStatusProcessing :: string where
  "IdempotencyStatusProcessing = ''processing''"

definition IdempotencyStatusSucceeded :: string where
  "IdempotencyStatusSucceeded = ''succeeded''"

definition IdempotencyStatusFailedRetryable :: string where
  "IdempotencyStatusFailedRetryable = ''failed_retryable''"

lemmas status_defs = IdempotencyStatusProcessing_def IdempotencyStatusSucceeded_def
  IdempotencyStatusFailedRetryable_def

text \<open>The interface the service calls. A result of \<open>None\<close> is a non-nil error.\<close>

record 's idempotency_repository =
  rp_CreateProcessing :: "idempotency_record \<Rightarrow> 's \<Rightarrow> 's \<times> (bool \<times> idempotency_record) option"
  rp_GetByScopeAndKeyHash :: "string \<Rightarrow> string \<Rightarrow> 's \<Rightarrow> 's \<times> idempotency_record option option"
  rp_TryReclaim :: "int \<Rightarrow> string \<Rightarrow> int \<Rightarrow> int \<Rightarrow> int \<Rightarrow> 's \<Rightarrow> 's \<times> bool option"
  rp_ExtendProcessingLock :: "int \<Rightarrow> string \<Rightarrow> int \<Rightarrow> int \<Rightarrow> 's \<Rightarrow> 's \<times> bool option"
  rp_MarkSucceeded :: "int \<Rightarrow> int \<Rightarrow> string \<Rightarrow> int \<Rightarrow> 's \<Rightarrow> 's \<times> unit option"
  rp_MarkFailedRetryable :: "int \<Rightarrow> string \<Rightarrow> int \<Rightarrow> int \<Rightarrow> 's \<Rightarrow> 's \<times> unit option"
  rp_DeleteExpired :: "int \<Rightarrow> int \<Rightarrow> 's \<Rightarrow> 's \<times> nat option"

section \<open>The table\<close>

record idem_table =
  it_rows :: "idempotency_record list"
  it_nextval :: int

definition has_key :: "string \<Rightarrow> string \<Rightarrow> idempotency_record \<Rightarrow> bool" where
  "has_key scope keyHash r \<longleftrightarrow> ir_Scope r = scope \<and> ir_IdempotencyKeyHash r = keyHash"

definition CreateProcessing :: "int \<Rightarrow> idempotency_record \<Rightarrow> idem_table \<Rightarrow>
    idem_table \<times> (bool \<times> idempotency_record) option" where
  "CreateProcessing dbnow rec t =
     (let t1 = t\<lparr>it_nextval := it_nextval t + 1\<rparr> in
      if \<exists>r \<in> set (it_rows t). has_key (ir_Scope rec) (ir_IdempotencyKeyHash rec) r
      then (t1, Some (False, rec))
      else (let rec1 = rec\<lparr>ir_ID := it_nextval t, ir_CreatedAt := dbnow, ir_UpdatedAt := dbnow\<rparr>;
                row = rec1\<lparr>ir_ResponseStatus := None, ir_ResponseBody := None, ir_ErrorReason := None\<rparr>
            in (t1\<lparr>it_rows := it_rows t @ [row]\<rparr>, Some (True, rec1))))"

definition GetByScopeAndKeyHash :: "string \<Rightarrow> string \<Rightarrow> idem_table \<Rightarrow>
    idem_table \<times> idempotency_record option option" where
  "GetByScopeAndKeyHash scope keyHash t = (t, Some (find (has_key scope keyHash) (it_rows t)))"

text \<open>\<open>UPDATE ... WHERE\<close>: the rows that match are changed, and their number is reported.\<close>

definition update_where :: "(idempotency_record \<Rightarrow> bool) \<Rightarrow> (idempotency_record \<Rightarrow> idempotency_record) \<Rightarrow>
    idem_table \<Rightarrow> idem_table \<times> nat" where
  "update_where P f t =
     (t\<lparr>it_rows := map (\<lambda>r. if P r then f r else r) (it_rows t)\<rparr>, length (filter P (it_rows t)))"

definition lock_free :: "int \<Rightarrow> idempotency_record \<Rightarrow> bool" where
  "lock_free now r \<longleftrightarrow> (case ir_LockedUntil r of None \<Rightarrow> True | Some l \<Rightarrow> l \<le> now)"

definition reclaimed :: "int \<Rightarrow> int \<Rightarrow> int \<Rightarrow> idempotency_record \<Rightarrow> idempotency_record" where
  "reclaimed dbnow newLockedUntil newExpiresAt r = r\<lparr>ir_Status := IdempotencyStatusProcessing,
     ir_LockedUntil := Some newLockedUntil, ir_ErrorReason := None, ir_UpdatedAt := dbnow,
     ir_ExpiresAt := newExpiresAt\<rparr>"

definition TryReclaim :: "int \<Rightarrow> int \<Rightarrow> string \<Rightarrow> int \<Rightarrow> int \<Rightarrow> int \<Rightarrow> idem_table \<Rightarrow> idem_table \<times> bool option" where
  "TryReclaim dbnow id0 fromStatus now newLockedUntil newExpiresAt t =
     (let (t1, affected) = update_where (\<lambda>r. ir_ID r = id0 \<and> ir_Status r = fromStatus \<and> lock_free now r)
            (reclaimed dbnow newLockedUntil newExpiresAt) t
      in (t1, Some (affected > 0)))"

definition extended :: "int \<Rightarrow> int \<Rightarrow> int \<Rightarrow> idempotency_record \<Rightarrow> idempotency_record" where
  "extended dbnow newLockedUntil newExpiresAt r = r\<lparr>ir_LockedUntil := Some newLockedUntil,
     ir_ExpiresAt := newExpiresAt, ir_UpdatedAt := dbnow\<rparr>"

definition ExtendProcessingLock :: "int \<Rightarrow> int \<Rightarrow> string \<Rightarrow> int \<Rightarrow> int \<Rightarrow> idem_table \<Rightarrow>
    idem_table \<times> bool option" where
  "ExtendProcessingLock dbnow id0 requestFingerprint newLockedUntil newExpiresAt t =
     (let (t1, affected) = update_where
            (\<lambda>r. ir_ID r = id0 \<and> ir_Status r = IdempotencyStatusProcessing \<and>
                 ir_RequestFingerprint r = requestFingerprint)
            (extended dbnow newLockedUntil newExpiresAt) t
      in (t1, Some (affected > 0)))"

definition succeeded :: "int \<Rightarrow> int \<Rightarrow> string \<Rightarrow> int \<Rightarrow> idempotency_record \<Rightarrow> idempotency_record" where
  "succeeded dbnow responseStatus responseBody expiresAt r = r\<lparr>ir_Status := IdempotencyStatusSucceeded,
     ir_ResponseStatus := Some responseStatus, ir_ResponseBody := Some responseBody, ir_ErrorReason := None,
     ir_LockedUntil := None, ir_ExpiresAt := expiresAt, ir_UpdatedAt := dbnow\<rparr>"

definition MarkSucceeded :: "int \<Rightarrow> int \<Rightarrow> int \<Rightarrow> string \<Rightarrow> int \<Rightarrow> idem_table \<Rightarrow> idem_table \<times> unit option" where
  "MarkSucceeded dbnow id0 responseStatus responseBody expiresAt t =
     (fst (update_where (\<lambda>r. ir_ID r = id0) (succeeded dbnow responseStatus responseBody expiresAt) t), Some ())"

definition failed :: "int \<Rightarrow> string \<Rightarrow> int \<Rightarrow> int \<Rightarrow> idempotency_record \<Rightarrow> idempotency_record" where
  "failed dbnow errorReason lockedUntil expiresAt r = r\<lparr>ir_Status := IdempotencyStatusFailedRetryable,
     ir_ErrorReason := Some errorReason, ir_LockedUntil := Some lockedUntil, ir_ExpiresAt := expiresAt,
     ir_UpdatedAt := dbnow\<rparr>"

definition MarkFailedRetryable :: "int \<Rightarrow> int \<Rightarrow> string \<Rightarrow> int \<Rightarrow> int \<Rightarrow> idem_table \<Rightarrow>
    idem_table \<times> unit option" where
  "MarkFailedRetryable dbnow id0 errorReason lockedUntil expiresAt t =
     (fst (update_where (\<lambda>r. ir_ID r = id0) (failed dbnow errorReason lockedUntil expiresAt) t), Some ())"

text \<open>Rows that expire at the same time are ordered by their place in the table.\<close>

definition DeleteExpired :: "int \<Rightarrow> int \<Rightarrow> idem_table \<Rightarrow> idem_table \<times> nat option" where
  "DeleteExpired now limit0 t =
     (let limit = (if limit0 \<le> 0 then 500 else limit0);
          victims = map ir_ID (take (nat limit) (sort_key ir_ExpiresAt
            (filter (\<lambda>r. ir_ExpiresAt r \<le> now) (it_rows t))))
      in (t\<lparr>it_rows := filter (\<lambda>r. ir_ID r \<notin> set victims) (it_rows t)\<rparr>,
          Some (length (filter (\<lambda>r. ir_ID r \<in> set victims) (it_rows t)))))"

definition sql_repository :: "int \<Rightarrow> idem_table idempotency_repository" where
  "sql_repository dbnow = \<lparr>rp_CreateProcessing = CreateProcessing dbnow,
     rp_GetByScopeAndKeyHash = GetByScopeAndKeyHash, rp_TryReclaim = TryReclaim dbnow,
     rp_ExtendProcessingLock = ExtendProcessingLock dbnow, rp_MarkSucceeded = MarkSucceeded dbnow,
     rp_MarkFailedRetryable = MarkFailedRetryable dbnow, rp_DeleteExpired = DeleteExpired\<rparr>"

section \<open>The contract\<close>

text \<open>
  What the service may rely on: the store holds at most one record per scope and key; creating
  claims a free key under a fresh nonzero id and leaves a taken one alone; the updates by id change
  the record they are for and no other.
\<close>

definition put :: "(string \<Rightarrow> string \<Rightarrow> idempotency_record option) \<Rightarrow> idempotency_record \<Rightarrow>
    string \<Rightarrow> string \<Rightarrow> idempotency_record option" where
  "put m r = (\<lambda>a b. if a = ir_Scope r \<and> b = ir_IdempotencyKeyHash r then Some r else m a b)"

locale idempotency_contract =
  fixes rp :: "'s idempotency_repository"
    and inv :: "'s \<Rightarrow> bool"
    and lookup :: "'s \<Rightarrow> string \<Rightarrow> string \<Rightarrow> idempotency_record option"
    and stamp :: int
  assumes get: "rp_GetByScopeAndKeyHash rp a b s = (s, Some (lookup s a b))"
    and key_of: "inv s \<Longrightarrow> lookup s a b = Some x \<Longrightarrow> ir_Scope x = a \<and> ir_IdempotencyKeyHash x = b \<and> ir_ID x \<noteq> 0"
    and create_taken: "inv s \<Longrightarrow> lookup s (ir_Scope r) (ir_IdempotencyKeyHash r) \<noteq> None \<Longrightarrow>
      \<exists>s'. rp_CreateProcessing rp r s = (s', Some (False, r)) \<and> inv s' \<and> lookup s' = lookup s"
    and create_free: "inv s \<Longrightarrow> lookup s (ir_Scope r) (ir_IdempotencyKeyHash r) = None \<Longrightarrow>
      \<exists>s' i. rp_CreateProcessing rp r s =
          (s', Some (True, r\<lparr>ir_ID := i, ir_CreatedAt := stamp, ir_UpdatedAt := stamp\<rparr>)) \<and> i \<noteq> 0 \<and> inv s' \<and>
        lookup s' = put (lookup s) (r\<lparr>ir_ID := i, ir_CreatedAt := stamp, ir_UpdatedAt := stamp,
          ir_ResponseStatus := None, ir_ResponseBody := None, ir_ErrorReason := None\<rparr>)"
    and reclaim: "inv s \<Longrightarrow> lookup s a b = Some x \<Longrightarrow>
      \<exists>s'. rp_TryReclaim rp (ir_ID x) from now l e s = (s', Some (ir_Status x = from \<and> lock_free now x)) \<and> inv s' \<and>
        lookup s' = (if ir_Status x = from \<and> lock_free now x then put (lookup s) (reclaimed stamp l e x) else lookup s)"
    and mark_succeeded: "inv s \<Longrightarrow> lookup s a b = Some x \<Longrightarrow>
      \<exists>s'. rp_MarkSucceeded rp (ir_ID x) c body e s = (s', Some ()) \<and> inv s' \<and>
        lookup s' = put (lookup s) (succeeded stamp c body e x)"
    and mark_failed: "inv s \<Longrightarrow> lookup s a b = Some x \<Longrightarrow>
      \<exists>s'. rp_MarkFailedRetryable rp (ir_ID x) reason l e s = (s', Some ()) \<and> inv s' \<and>
        lookup s' = put (lookup s) (failed stamp reason l e x)"

text \<open>
  Two further operations: a processing record can be kept locked by whoever knows its fingerprint,
  and the purge removes expired records and nothing else.
\<close>

definition extendable :: "string \<Rightarrow> idempotency_record \<Rightarrow> bool" where
  "extendable fp r \<longleftrightarrow> ir_Status r = IdempotencyStatusProcessing \<and> ir_RequestFingerprint r = fp"

locale lease_contract = idempotency_contract rp inv lookup stamp
  for rp :: "'s idempotency_repository"
    and inv :: "'s \<Rightarrow> bool"
    and lookup :: "'s \<Rightarrow> string \<Rightarrow> string \<Rightarrow> idempotency_record option"
    and stamp :: int +
  assumes extend: "inv s \<Longrightarrow> lookup s a b = Some x \<Longrightarrow>
      \<exists>s'. rp_ExtendProcessingLock rp (ir_ID x) fp l e s = (s', Some (extendable fp x)) \<and> inv s' \<and>
        lookup s' = (if extendable fp x then put (lookup s) (extended stamp l e x) else lookup s)"
    and purge: "inv s \<Longrightarrow> \<exists>s' n. rp_DeleteExpired rp now lim s = (s', Some n) \<and> inv s' \<and>
        (\<forall>a b. lookup s' a b = lookup s a b \<or>
          lookup s' a b = None \<and> (\<forall>x. lookup s a b = Some x \<longrightarrow> ir_ExpiresAt x \<le> now))"

section \<open>The table fulfils the contract\<close>

definition row_key :: "idempotency_record \<Rightarrow> string \<times> string" where
  "row_key r = (ir_Scope r, ir_IdempotencyKeyHash r)"

definition table_inv :: "idem_table \<Rightarrow> bool" where
  "table_inv t \<longleftrightarrow> distinct (map ir_ID (it_rows t)) \<and> distinct (map row_key (it_rows t)) \<and>
     (\<forall>r\<in>set (it_rows t). 0 < ir_ID r \<and> ir_ID r < it_nextval t) \<and> 0 < it_nextval t"

definition table_lookup :: "idem_table \<Rightarrow> string \<Rightarrow> string \<Rightarrow> idempotency_record option" where
  "table_lookup t a b = find (has_key a b) (it_rows t)"

lemma find_has_key:
  assumes "distinct (map row_key rs)"
  shows "find (has_key a b) rs = Some x \<longleftrightarrow> x \<in> set rs \<and> ir_Scope x = a \<and> ir_IdempotencyKeyHash x = b"
  using assms
proof (induction rs)
  case (Cons r rs)
  have "x \<in> set rs \<Longrightarrow> row_key x \<in> set (map row_key rs)" by simp
  with Cons show ?case by (auto simp: has_key_def row_key_def)
qed simp

lemma table_lookup_Some:
  "table_inv t \<Longrightarrow> table_lookup t a b = Some x \<longleftrightarrow>
     x \<in> set (it_rows t) \<and> ir_Scope x = a \<and> ir_IdempotencyKeyHash x = b"
  by (simp add: table_inv_def table_lookup_def find_has_key)

lemma lookup_ext:
  assumes "\<And>a b x. (m a b = Some x) = (n a b = (Some x :: 'v option))"
  shows "m = n"
proof (intro ext)
  fix a b
  show "m a b = n a b"
    using assms [of a b] by (cases "n a b"; cases "m a b") auto
qed

text \<open>An update of one record that keeps its id and its key.\<close>

lemma update_by_id:
  assumes "table_inv t" and "x \<in> set (it_rows t)"
    and same: "ir_ID (f x) = ir_ID x" "ir_Scope (f x) = ir_Scope x"
      "ir_IdempotencyKeyHash (f x) = ir_IdempotencyKeyHash x"
  defines "t' \<equiv> t\<lparr>it_rows := map (\<lambda>r. if ir_ID r = ir_ID x then f r else r) (it_rows t)\<rparr>"
  shows "table_inv t'" and "table_lookup t' = put (table_lookup t) (f x)"
proof -
  have only: "r = x" if "r \<in> set (it_rows t)" "ir_ID r = ir_ID x" for r
    using assms(1,2) that by (auto simp: table_inv_def distinct_map inj_on_def)
  have rows: "map (\<lambda>r. if ir_ID r = ir_ID x then f r else r) (it_rows t) =
      map (\<lambda>r. if r = x then f x else r) (it_rows t)"
    using only by (intro map_cong refl) auto
  have keep: "map ir_ID (it_rows t') = map ir_ID (it_rows t)" "map row_key (it_rows t') = map row_key (it_rows t)"
    unfolding t'_def rows using same by (auto simp: row_key_def)
  show inv: "table_inv t'"
  proof -
    have "distinct (map ir_ID (it_rows t'))" "distinct (map row_key (it_rows t'))" "0 < it_nextval t'"
      using assms(1) unfolding keep by (simp_all add: table_inv_def t'_def)
    moreover have "\<forall>r\<in>set (it_rows t'). 0 < ir_ID r \<and> ir_ID r < it_nextval t'"
      using assms(1,2) same by (auto simp: table_inv_def t'_def rows)
    ultimately show ?thesis by (simp add: table_inv_def)
  qed
  show "table_lookup t' = put (table_lookup t) (f x)"
  proof (rule lookup_ext)
    fix a b y
    have "y \<in> set (it_rows t') \<longleftrightarrow> y = f x \<or> y \<in> set (it_rows t) \<and> y \<noteq> x \<or> y \<in> set (it_rows t) \<and> y \<noteq> x"
      using assms(2) by (auto simp: t'_def rows)
    moreover have "row_key y = row_key x \<Longrightarrow> y \<in> set (it_rows t) \<Longrightarrow> y = x"
      using assms(1,2) by (auto simp: table_inv_def distinct_map inj_on_def)
    ultimately show "(table_lookup t' a b = Some y) = (put (table_lookup t) (f x) a b = Some y)"
      using same by (auto simp: table_lookup_Some [OF inv] table_lookup_Some [OF assms(1)] put_def row_key_def)
  qed
qed

lemma update_where_id:
  assumes "table_inv t" and "x \<in> set (it_rows t)"
  shows "update_where (\<lambda>r. ir_ID r = ir_ID x \<and> P r) f t =
    (if P x then t\<lparr>it_rows := map (\<lambda>r. if ir_ID r = ir_ID x then f r else r) (it_rows t)\<rparr> else t,
     if P x then 1 else 0)"
proof -
  have only: "(ir_ID r = ir_ID x) = (r = x)" if "r \<in> set (it_rows t)" for r
    using assms that by (auto simp: table_inv_def distinct_map inj_on_def)
  have d: "distinct (it_rows t)" using assms(1) by (auto simp: table_inv_def distinct_map)
  have "filter (\<lambda>r. ir_ID r = ir_ID x \<and> P r) (it_rows t) = filter (\<lambda>r. x = r \<and> P x) (it_rows t)"
    by (intro filter_cong refl) (auto simp: only)
  then have "length (filter (\<lambda>r. ir_ID r = ir_ID x \<and> P r) (it_rows t)) = (if P x then 1 else 0)"
    using d assms(2) by (simp add: distinct_length_filter Int_def)
      (auto simp: card_1_singleton_iff)
  moreover have "map (\<lambda>r. if ir_ID r = ir_ID x \<and> P r then f r else r) (it_rows t) =
      (if P x then map (\<lambda>r. if ir_ID r = ir_ID x then f r else r) (it_rows t) else it_rows t)"
    using only by (auto intro: map_cong map_idI)
  ultimately show ?thesis by (simp add: update_where_def)
qed

lemma table_create:
  fixes dbnow :: int
  assumes "table_inv t" and "table_lookup t (ir_Scope r) (ir_IdempotencyKeyHash r) = None"
  defines "row \<equiv> r\<lparr>ir_ID := it_nextval t, ir_CreatedAt := dbnow, ir_UpdatedAt := dbnow,
    ir_ResponseStatus := None, ir_ResponseBody := None, ir_ErrorReason := None\<rparr>"
  defines "t' \<equiv> t\<lparr>it_nextval := it_nextval t + 1, it_rows := it_rows t @ [row]\<rparr>"
  shows "table_inv t'" and "table_lookup t' = put (table_lookup t) row"
proof -
  have free: "\<forall>x\<in>set (it_rows t). row_key x \<noteq> row_key row"
    using assms(2) by (auto simp: table_lookup_def find_None_iff has_key_def row_key_def row_def)
  have fresh: "\<forall>x\<in>set (it_rows t). ir_ID x < it_nextval t" using assms(1) by (simp add: table_inv_def)
  show inv: "table_inv t'"
    using assms(1) free fresh unfolding table_inv_def by (auto simp: t'_def row_def row_key_def)
  show "table_lookup t' = put (table_lookup t) row"
  proof (rule lookup_ext)
    fix a b y
    have "y \<in> set (it_rows t') \<longleftrightarrow> y = row \<or> y \<in> set (it_rows t)" by (auto simp: t'_def)
    then show "(table_lookup t' a b = Some y) = (put (table_lookup t) row a b = Some y)"
      using free by (auto simp: table_lookup_Some [OF inv] table_lookup_Some [OF assms(1)] put_def row_key_def)
  qed
qed

lemma table_nextval:
  assumes "table_inv t"
  shows "table_inv (t\<lparr>it_nextval := it_nextval t + 1\<rparr>)"
    and "table_lookup (t\<lparr>it_nextval := it_nextval t + 1\<rparr>) = table_lookup t"
proof -
  show "table_inv (t\<lparr>it_nextval := it_nextval t + 1\<rparr>)"
    using assms unfolding table_inv_def by auto
  show "table_lookup (t\<lparr>it_nextval := it_nextval t + 1\<rparr>) = table_lookup t"
    by (intro ext) (simp add: table_lookup_def)
qed

interpretation sql: idempotency_contract "sql_repository dbnow" table_inv table_lookup dbnow for dbnow
proof unfold_locales
  fix a b and s :: idem_table
  show "rp_GetByScopeAndKeyHash (sql_repository dbnow) a b s = (s, Some (table_lookup s a b))"
    by (simp add: sql_repository_def GetByScopeAndKeyHash_def table_lookup_def)
next
  fix s a b x assume "table_inv s" "table_lookup s a b = Some x"
  then show "ir_Scope x = a \<and> ir_IdempotencyKeyHash x = b \<and> ir_ID x \<noteq> 0"
    by (auto simp: table_lookup_Some) (auto simp: table_inv_def)
next
  fix s and r :: idempotency_record assume inv: "table_inv s" and "table_lookup s (ir_Scope r) (ir_IdempotencyKeyHash r) \<noteq> None"
  then have "\<exists>x \<in> set (it_rows s). has_key (ir_Scope r) (ir_IdempotencyKeyHash r) x"
    by (auto simp: table_lookup_def find_None_iff)
  then show "\<exists>s'. rp_CreateProcessing (sql_repository dbnow) r s = (s', Some (False, r)) \<and> table_inv s' \<and>
      table_lookup s' = table_lookup s"
    using table_nextval [OF inv] by (simp add: sql_repository_def CreateProcessing_def Let_def)
next
  fix s and r :: idempotency_record assume inv: "table_inv s" and none: "table_lookup s (ir_Scope r) (ir_IdempotencyKeyHash r) = None"
  then have "\<not> (\<exists>x \<in> set (it_rows s). has_key (ir_Scope r) (ir_IdempotencyKeyHash r) x)"
    by (auto simp: table_lookup_def find_None_iff)
  moreover have "it_nextval s \<noteq> 0" using inv by (simp add: table_inv_def)
  ultimately show "\<exists>s' i. rp_CreateProcessing (sql_repository dbnow) r s =
          (s', Some (True, r\<lparr>ir_ID := i, ir_CreatedAt := dbnow, ir_UpdatedAt := dbnow\<rparr>)) \<and> i \<noteq> 0 \<and> table_inv s' \<and>
        table_lookup s' = put (table_lookup s) (r\<lparr>ir_ID := i, ir_CreatedAt := dbnow, ir_UpdatedAt := dbnow,
          ir_ResponseStatus := None, ir_ResponseBody := None, ir_ErrorReason := None\<rparr>)"
    using table_create [OF inv none, of dbnow]
    by (auto simp: sql_repository_def CreateProcessing_def Let_def intro!: exI [of _ "it_nextval s"])
next
  fix s a b x "from" now l e assume inv: "table_inv s" and "table_lookup s a b = Some x"
  then have x: "x \<in> set (it_rows s)" by (simp add: table_lookup_Some)
  show "\<exists>s'. rp_TryReclaim (sql_repository dbnow) (ir_ID x) from now l e s =
        (s', Some (ir_Status x = from \<and> lock_free now x)) \<and> table_inv s' \<and>
      table_lookup s' = (if ir_Status x = from \<and> lock_free now x
        then put (table_lookup s) (reclaimed dbnow l e x) else table_lookup s)"
    using update_by_id [OF inv x, of "reclaimed dbnow l e"] inv
    by (simp add: sql_repository_def TryReclaim_def update_where_id [OF inv x] reclaimed_def)
next
  fix s a b x c body e assume inv: "table_inv s" and "table_lookup s a b = Some x"
  then have x: "x \<in> set (it_rows s)" by (simp add: table_lookup_Some)
  show "\<exists>s'. rp_MarkSucceeded (sql_repository dbnow) (ir_ID x) c body e s = (s', Some ()) \<and> table_inv s' \<and>
      table_lookup s' = put (table_lookup s) (succeeded dbnow c body e x)"
    using update_by_id [OF inv x, of "succeeded dbnow c body e"]
      update_where_id [OF inv x, of "\<lambda>_. True"]
    by (simp add: sql_repository_def MarkSucceeded_def succeeded_def)
next
  fix s a b x reason l e assume inv: "table_inv s" and "table_lookup s a b = Some x"
  then have x: "x \<in> set (it_rows s)" by (simp add: table_lookup_Some)
  show "\<exists>s'. rp_MarkFailedRetryable (sql_repository dbnow) (ir_ID x) reason l e s = (s', Some ()) \<and> table_inv s' \<and>
      table_lookup s' = put (table_lookup s) (failed dbnow reason l e x)"
    using update_by_id [OF inv x, of "failed dbnow reason l e"]
      update_where_id [OF inv x, of "\<lambda>_. True"]
    by (simp add: sql_repository_def MarkFailedRetryable_def failed_def)
qed

lemma table_purge:
  fixes P :: "idempotency_record \<Rightarrow> bool"
  assumes "table_inv t"
  defines "t' \<equiv> t\<lparr>it_rows := filter P (it_rows t)\<rparr>"
  shows "table_inv t'"
    and "table_lookup t' = (\<lambda>a b. case table_lookup t a b of None \<Rightarrow> None | Some x \<Rightarrow> if P x then Some x else None)"
proof -
  show inv: "table_inv t'"
    using assms(1) unfolding table_inv_def t'_def by (auto simp: distinct_map inj_on_def)
  have rows: "y \<in> set (it_rows t') \<longleftrightarrow> y \<in> set (it_rows t) \<and> P y" for y by (auto simp: t'_def)
  have "(table_lookup t' a b = Some y) = (table_lookup t a b = Some y \<and> P y)" for y a b
    by (auto simp: table_lookup_Some [OF inv] table_lookup_Some [OF assms(1)] rows)
  then show "table_lookup t' = (\<lambda>a b. case table_lookup t a b of None \<Rightarrow> None | Some x \<Rightarrow> if P x then Some x else None)"
    by (intro lookup_ext) (auto split: option.splits)
qed

interpretation sql_lease: lease_contract "sql_repository dbnow" table_inv table_lookup dbnow for dbnow
proof unfold_locales
  fix s a b x fp l e assume inv: "table_inv s" and "table_lookup s a b = Some x"
  then have x: "x \<in> set (it_rows s)" by (simp add: table_lookup_Some)
  show "\<exists>s'. rp_ExtendProcessingLock (sql_repository dbnow) (ir_ID x) fp l e s = (s', Some (extendable fp x)) \<and>
      table_inv s' \<and> table_lookup s' =
        (if extendable fp x then put (table_lookup s) (extended dbnow l e x) else table_lookup s)"
    using update_by_id [OF inv x, of "extended dbnow l e"] inv
    by (simp add: sql_repository_def ExtendProcessingLock_def update_where_id [OF inv x] extended_def extendable_def)
next
  fix s now lim assume inv: "table_inv s"
  define victims where "victims = map ir_ID (take (nat (if lim \<le> 0 then 500 else lim))
    (sort_key ir_ExpiresAt (filter (\<lambda>r. ir_ExpiresAt r \<le> now) (it_rows s))))"
  let ?s' = "s\<lparr>it_rows := filter (\<lambda>r. ir_ID r \<notin> set victims) (it_rows s)\<rparr>"
  have old: "ir_ExpiresAt x \<le> now" if "x \<in> set (it_rows s)" "ir_ID x \<in> set victims" for x
  proof -
    from that(2) obtain y where "y \<in> set (it_rows s)" "ir_ExpiresAt y \<le> now" "ir_ID y = ir_ID x"
      by (auto simp: victims_def dest!: in_set_takeD)
    with inv that(1) show ?thesis by (auto simp: table_inv_def distinct_map inj_on_def)
  qed
  have "table_lookup ?s' a b = table_lookup s a b \<or>
      table_lookup ?s' a b = None \<and> (\<forall>x. table_lookup s a b = Some x \<longrightarrow> ir_ExpiresAt x \<le> now)" for a b
  proof (cases "table_lookup s a b")
    case (Some x)
    then have "x \<in> set (it_rows s)" by (simp add: table_lookup_Some [OF inv])
    with Some old show ?thesis by (simp add: table_purge(2) [OF inv])
  qed (simp add: table_purge(2) [OF inv])
  then show "\<exists>s' n. rp_DeleteExpired (sql_repository dbnow) now lim s = (s', Some n) \<and> table_inv s' \<and>
      (\<forall>a b. table_lookup s' a b = table_lookup s a b \<or>
        table_lookup s' a b = None \<and> (\<forall>x. table_lookup s a b = Some x \<longrightarrow> ir_ExpiresAt x \<le> now))"
    using table_purge(1) [OF inv, of "\<lambda>r. ir_ID r \<notin> set victims"]
    by (intro exI [of _ ?s'] exI [of _ "length (filter (\<lambda>r. ir_ID r \<in> set victims) (it_rows s))"])
      (simp add: sql_repository_def DeleteExpired_def Let_def victims_def)
qed

end
