(* ===== verification/Idempotency.thy ===== *)
theory Idempotency
  imports IdempotencyStore
begin

text \<open>
  The idempotency coordinator of \<open>service/idempotency.go\<close>: at most one execution per key while its
  record lives, replay of the stored answer, and the errors in between. \<open>Execute\<close> is split at the
  points where the source branches: the claim of the key (\<open>claimKey\<close>, \<open>claimExisting\<close>,
  \<open>claimByStatus\<close>) and the run of the owner (\<open>runOwned\<close>). The executor acts on a world of its own,
  so that the theorems can say how often it ran. A Go value that is marshalled or unmarshalled is its
  JSON text; \<open>None\<close> stands for a value \<open>json.Marshal\<close> rejects. SHA-256 and the redaction of secrets
  (\<open>util/logredact\<close>, regular expressions) are parameters. Metrics and audit logs are left out. The
  seconds of a duration are computed exactly, where the source goes through \<open>float64\<close>.
\<close>

record idem_env =
  en_sha256 :: "string \<Rightarrow> string"
  en_redact :: "string \<Rightarrow> string"

record idempotency_config =
  ic_DefaultTTL :: int
  ic_SystemOperationTTL :: int
  ic_ProcessingTimeout :: int
  ic_FailedRetryBackoff :: int
  ic_MaxStoredResponseLen :: int
  ic_ObserveOnly :: bool

definition second :: int where
  "second = 1000000000"

definition DefaultIdempotencyConfig :: idempotency_config where
  "DefaultIdempotencyConfig = \<lparr>ic_DefaultTTL = 24 * 3600 * second, ic_SystemOperationTTL = 3600 * second,
     ic_ProcessingTimeout = 30 * second, ic_FailedRetryBackoff = 5 * second,
     ic_MaxStoredResponseLen = 64 * 1024, ic_ObserveOnly = True\<rparr>"

record execute_options =
  io_Scope :: string
  io_ActorScope :: string
  io_Method :: string
  io_Route :: string
  io_IdempotencyKey :: string
  io_Payload :: "string option"
  io_TTL :: int
  io_RequireKey :: bool

record execute_result =
  ex_Data :: "string option"
  ex_Replayed :: bool

datatype idem_error =
    ErrExecutorNil
  | ErrKeyRequired
  | ErrKeyInvalid
  | ErrKeyConflict
  | ErrInProgress "int option"
  | ErrRetryBackoff "int option"
  | ErrStoreUnavail
  | ErrInvalidPayload
  | ErrScopeRequired
  | ErrExec string

section \<open>Keys and fingerprints\<close>

text \<open>The loop over the runes of the key; an invalid byte decodes to U+FFFD.\<close>

function printable_runes :: "string \<Rightarrow> bool" where
  "printable_runes s =
     (if s = [] then True
      else (let (r, n) = decode_rune s in
            if r < 33 \<or> r > 126 then False else printable_runes (drop n s)))"
  by pat_completeness auto
termination
proof (relation "measure length")
  fix s :: string and x r n
  assume "s \<noteq> []" and "x = decode_rune s" and "(r, n) = x"
  then have "1 \<le> n" using decode_rune_size [of s] by (metis snd_conv)
  with \<open>s \<noteq> []\<close> show "(drop n s, s) \<in> measure length" by (cases s) auto
qed simp

declare printable_runes.simps [simp del]

definition NormalizeIdempotencyKey :: "string \<Rightarrow> idem_error + string" where
  "NormalizeIdempotencyKey raw =
     (let key = trim_space raw in
      if key = [] then Inr []
      else if length key > 128 then Inl ErrKeyInvalid
      else if \<not> printable_runes key then Inl ErrKeyInvalid
      else Inr key)"

definition HashIdempotencyKey :: "idem_env \<Rightarrow> string \<Rightarrow> string" where
  "HashIdempotencyKey env key = hex_encode (en_sha256 env key)"

definition upper_char :: "char \<Rightarrow> char" where
  "upper_char c = (if 97 \<le> byte c \<and> byte c \<le> 122 then chr (byte c - 32) else c)"

definition BuildIdempotencyFingerprint ::
    "idem_env \<Rightarrow> string \<Rightarrow> string \<Rightarrow> string \<Rightarrow> string option \<Rightarrow> idem_error + string" where
  "BuildIdempotencyFingerprint env method0 route0 actorScope0 payload =
     (let method = (if method0 = [] then ''POST'' else method0);
          route = (if route0 = [] then ''/'' else route0);
          actorScope = (if actorScope0 = [] then ''anonymous'' else actorScope0);
          nl = [CHR 0x0A]
      in case payload of
           None \<Rightarrow> Inl ErrInvalidPayload
         | Some raw \<Rightarrow>
             Inr (hex_encode (en_sha256 env (map upper_char method @ nl @ route @ nl @ actorScope @ nl @ raw))))"

section \<open>Stored responses\<close>

text \<open>\<open>s[:n]\<close> for the largest \<open>n \<le> maxBytes\<close> that leaves valid UTF-8.\<close>

fun cut_back :: "string \<Rightarrow> nat \<Rightarrow> string" where
  "cut_back s 0 = []"
| "cut_back s (Suc n) = (if valid_utf8 (take (Suc n) s) then take (Suc n) s else cut_back s n)"

definition truncateUTF8 :: "string \<Rightarrow> int \<Rightarrow> string" where
  "truncateUTF8 s maxBytes =
     (if maxBytes \<le> 0 \<or> int (length s) \<le> maxBytes then s else cut_back s (nat maxBytes))"

definition truncated_mark :: string where
  "truncated_mark = ''...(truncated)''"

definition marshalStoredResponse :: "idem_env \<Rightarrow> idempotency_config \<Rightarrow> string option \<Rightarrow> string option" where
  "marshalStoredResponse env cfg data =
     (case data of
        None \<Rightarrow> None
      | Some raw \<Rightarrow>
          (let redacted = en_redact env raw in
           Some (if ic_MaxStoredResponseLen cfg > 0 \<and> int (length redacted) > ic_MaxStoredResponseLen cfg
                 then truncateUTF8 redacted (ic_MaxStoredResponseLen cfg) @ truncated_mark
                 else redacted)))"

definition decodeStoredResponse :: "string option \<Rightarrow> string option" where
  "decodeStoredResponse stored =
     (case stored of
        None \<Rightarrow> Some ''{}''
      | Some s \<Rightarrow> if trim_space s = [] then Some ''{}'' else if json_valid s then Some s else None)"

definition conflictWithRetryAfter :: "(int option \<Rightarrow> idem_error) \<Rightarrow> int option \<Rightarrow> int \<Rightarrow> idem_error" where
  "conflictWithRetryAfter base lockedUntil now =
     (case lockedUntil of
        None \<Rightarrow> base None
      | Some l \<Rightarrow> (let sec = (l - now) div second in base (Some (if sec \<le> 0 then 1 else sec))))"

section \<open>Claiming the key\<close>

text \<open>The outcome of the claim: the key is ours under a record id, or a stored answer is replayed.\<close>

datatype claim =
    Owned int
  | Replay string

text \<open>The \<open>switch\<close> on the status of a live record.\<close>

definition claimByStatus :: "'s idempotency_repository \<Rightarrow> idempotency_record \<Rightarrow> int \<Rightarrow> int \<Rightarrow> int \<Rightarrow> 's \<Rightarrow>
    's \<times> (idem_error + claim)" where
  "claimByStatus rp existing now lockedUntil expiresAt s =
     (if ir_Status existing = IdempotencyStatusSucceeded then
        (case decodeStoredResponse (ir_ResponseBody existing) of
           None \<Rightarrow> (s, Inl ErrStoreUnavail)
         | Some d \<Rightarrow> (s, Inr (Replay d)))
      else if ir_Status existing = IdempotencyStatusProcessing then
        (s, Inl (conflictWithRetryAfter ErrInProgress (ir_LockedUntil existing) now))
      else if ir_Status existing = IdempotencyStatusFailedRetryable then
        (if \<not> lock_free now existing then
           (s, Inl (conflictWithRetryAfter ErrRetryBackoff (ir_LockedUntil existing) now))
         else (case rp_TryReclaim rp (ir_ID existing) IdempotencyStatusFailedRetryable now lockedUntil expiresAt s of
                 (s1, None) \<Rightarrow> (s1, Inl ErrStoreUnavail)
               | (s1, Some taken) \<Rightarrow>
                   if \<not> taken
                   then (s1, Inl (conflictWithRetryAfter ErrInProgress (ir_LockedUntil existing) now))
                   else (s1, Inr (Owned (ir_ID existing)))))
      else (s, Inl ErrKeyConflict))"

text \<open>The branch after \<open>CreateProcessing\<close> found the key taken.\<close>

definition claimExisting :: "'s idempotency_repository \<Rightarrow> string \<Rightarrow> string \<Rightarrow> string \<Rightarrow> int \<Rightarrow> int \<Rightarrow> int \<Rightarrow> 's \<Rightarrow>
    's \<times> (idem_error + claim)" where
  "claimExisting rp scope keyHash fingerprint now lockedUntil expiresAt s =
     (case rp_GetByScopeAndKeyHash rp scope keyHash s of
        (s1, None) \<Rightarrow> (s1, Inl ErrStoreUnavail)
      | (s1, Some None) \<Rightarrow> (s1, Inl ErrStoreUnavail)
      | (s1, Some (Some existing)) \<Rightarrow>
          if ir_RequestFingerprint existing \<noteq> fingerprint then (s1, Inl ErrKeyConflict)
          else if ir_ExpiresAt existing > now then claimByStatus rp existing now lockedUntil expiresAt s1
          else (case rp_TryReclaim rp (ir_ID existing) (ir_Status existing) now lockedUntil expiresAt s1 of
                  (s2, None) \<Rightarrow> (s2, Inl ErrStoreUnavail)
                | (s2, Some taken) \<Rightarrow>
                    if taken then (s2, Inr (Owned (ir_ID existing)))
                    else (case rp_GetByScopeAndKeyHash rp scope keyHash s2 of
                            (s3, None) \<Rightarrow> (s3, Inl ErrStoreUnavail)
                          | (s3, Some None) \<Rightarrow> (s3, Inl ErrStoreUnavail)
                          | (s3, Some (Some latest)) \<Rightarrow>
                              if ir_RequestFingerprint latest \<noteq> fingerprint then (s3, Inl ErrKeyConflict)
                              else claimByStatus rp latest now lockedUntil expiresAt s3)))"

definition newRecord :: "string \<Rightarrow> string \<Rightarrow> string \<Rightarrow> int \<Rightarrow> int \<Rightarrow> idempotency_record" where
  "newRecord scope keyHash fingerprint lockedUntil expiresAt =
     \<lparr>ir_ID = 0, ir_Scope = scope, ir_IdempotencyKeyHash = keyHash, ir_RequestFingerprint = fingerprint,
      ir_Status = IdempotencyStatusProcessing, ir_ResponseStatus = None, ir_ResponseBody = None,
      ir_ErrorReason = None, ir_LockedUntil = Some lockedUntil, ir_ExpiresAt = expiresAt,
      ir_CreatedAt = 0, ir_UpdatedAt = 0\<rparr>"

definition claimKey :: "'s idempotency_repository \<Rightarrow> string \<Rightarrow> string \<Rightarrow> string \<Rightarrow> int \<Rightarrow> int \<Rightarrow> int \<Rightarrow> 's \<Rightarrow>
    's \<times> (idem_error + claim)" where
  "claimKey rp scope keyHash fingerprint now lockedUntil expiresAt s =
     (case rp_CreateProcessing rp (newRecord scope keyHash fingerprint lockedUntil expiresAt) s of
        (s1, None) \<Rightarrow> (s1, Inl ErrStoreUnavail)
      | (s1, Some (owner, record)) \<Rightarrow>
          if owner then
            (if ir_ID record = 0 then (s1, Inl ErrStoreUnavail) else (s1, Inr (Owned (ir_ID record))))
          else (case claimExisting rp scope keyHash fingerprint now lockedUntil expiresAt s1 of
                  (s2, Inl e) \<Rightarrow> (s2, Inl e)
                | (s2, Inr (Replay d)) \<Rightarrow> (s2, Inr (Replay d))
                | (s2, Inr (Owned i)) \<Rightarrow> if i = 0 then (s2, Inl ErrStoreUnavail) else (s2, Inr (Owned i))))"

section \<open>Running the owner\<close>

type_synonym 'w executor = "'w \<Rightarrow> 'w \<times> (string + string option)"

definition runOwned :: "idem_env \<Rightarrow> 's idempotency_repository \<Rightarrow> idempotency_config \<Rightarrow> 'w executor \<Rightarrow> int \<Rightarrow>
    int \<Rightarrow> int \<Rightarrow> 's \<times> 'w \<Rightarrow> ('s \<times> 'w) \<times> (idem_error + execute_result)" where
  "runOwned env rp cfg execute failNow recordID expiresAt sw =
     (case execute (snd sw) of
        (w1, Inl reason) \<Rightarrow>
          (let (s1, _) = rp_MarkFailedRetryable rp recordID (if reason = [] then ''EXECUTION_FAILED'' else reason)
                 (failNow + ic_FailedRetryBackoff cfg) expiresAt (fst sw)
           in ((s1, w1), Inl (ErrExec reason)))
      | (w1, Inr data) \<Rightarrow>
          (case marshalStoredResponse env cfg data of
             None \<Rightarrow> ((fst sw, w1), Inl ErrStoreUnavail)
           | Some storedBody \<Rightarrow>
               (case rp_MarkSucceeded rp recordID 200 storedBody expiresAt (fst sw) of
                  (s1, None) \<Rightarrow> ((s1, w1), Inl ErrStoreUnavail)
                | (s1, Some _) \<Rightarrow> ((s1, w1), Inr \<lparr>ex_Data = data, ex_Replayed = False\<rparr>))))"

text \<open>A call without a key runs unguarded, unless keys are required and enforced.\<close>

definition runUnkeyed :: "idempotency_config \<Rightarrow> execute_options \<Rightarrow> 'w executor \<Rightarrow> 's \<times> 'w \<Rightarrow>
    ('s \<times> 'w) \<times> (idem_error + execute_result)" where
  "runUnkeyed cfg opts execute sw =
     (if io_RequireKey opts \<and> \<not> ic_ObserveOnly cfg then (sw, Inl ErrKeyRequired)
      else (case execute (snd sw) of
              (w1, Inl reason) \<Rightarrow> ((fst sw, w1), Inl (ErrExec reason))
            | (w1, Inr data) \<Rightarrow> ((fst sw, w1), Inr \<lparr>ex_Data = data, ex_Replayed = False\<rparr>)))"

definition Execute :: "idem_env \<Rightarrow> 's idempotency_repository option \<Rightarrow> idempotency_config \<Rightarrow> execute_options \<Rightarrow>
    int \<Rightarrow> int \<Rightarrow> 'w executor option \<Rightarrow> 's \<times> 'w \<Rightarrow> ('s \<times> 'w) \<times> (idem_error + execute_result)" where
  "Execute env repo cfg opts now failNow executep sw =
     (case executep of
        None \<Rightarrow> (sw, Inl ErrExecutorNil)
      | Some execute \<Rightarrow>
          (case NormalizeIdempotencyKey (io_IdempotencyKey opts) of
             Inl e \<Rightarrow> (sw, Inl e)
           | Inr key \<Rightarrow>
               if key = [] then runUnkeyed cfg opts execute sw
               else (case repo of
                       None \<Rightarrow> (sw, Inl ErrStoreUnavail)
                     | Some rp \<Rightarrow>
                         if io_Scope opts = [] then (sw, Inl ErrScopeRequired)
                         else (case BuildIdempotencyFingerprint env (io_Method opts) (io_Route opts)
                                      (io_ActorScope opts) (io_Payload opts) of
                                 Inl e \<Rightarrow> (sw, Inl e)
                               | Inr fingerprint \<Rightarrow>
                                   (let ttl = (if io_TTL opts \<le> 0 then ic_DefaultTTL cfg else io_TTL opts);
                                        expiresAt = now + ttl;
                                        lockedUntil = now + ic_ProcessingTimeout cfg;
                                        keyHash = HashIdempotencyKey env key
                                    in case claimKey rp (io_Scope opts) keyHash fingerprint now lockedUntil
                                              expiresAt (fst sw) of
                                         (s1, Inl e) \<Rightarrow> ((s1, snd sw), Inl e)
                                       | (s1, Inr (Replay d)) \<Rightarrow>
                                           ((s1, snd sw), Inr \<lparr>ex_Data = Some d, ex_Replayed = True\<rparr>)
                                       | (s1, Inr (Owned recordID)) \<Rightarrow>
                                           runOwned env rp cfg execute failNow recordID expiresAt (s1, snd sw))))))"

section \<open>The service over a store that keeps its contract\<close>

text \<open>A call that passes the checks before the claim: its key, key hash and fingerprint.\<close>

definition keyed :: "idem_env \<Rightarrow> execute_options \<Rightarrow> string \<Rightarrow> string \<Rightarrow> bool" where
  "keyed env opts keyHash fp \<longleftrightarrow> io_Scope opts \<noteq> [] \<and>
     (\<exists>k. NormalizeIdempotencyKey (io_IdempotencyKey opts) = Inr k \<and> k \<noteq> [] \<and> keyHash = HashIdempotencyKey env k) \<and>
     BuildIdempotencyFingerprint env (io_Method opts) (io_Route opts) (io_ActorScope opts) (io_Payload opts) = Inr fp"

definition ttl_of :: "idempotency_config \<Rightarrow> execute_options \<Rightarrow> int" where
  "ttl_of cfg opts = (if io_TTL opts \<le> 0 then ic_DefaultTTL cfg else io_TTL opts)"

lemma Execute_keyed:
  assumes "keyed env opts kh fp"
  shows "Execute env (Some rp) cfg opts now failNow (Some f) (s, w) =
    (case claimKey rp (io_Scope opts) kh fp now (now + ic_ProcessingTimeout cfg) (now + ttl_of cfg opts) s of
       (s1, Inl e) \<Rightarrow> ((s1, w), Inl e)
     | (s1, Inr (Replay d)) \<Rightarrow> ((s1, w), Inr \<lparr>ex_Data = Some d, ex_Replayed = True\<rparr>)
     | (s1, Inr (Owned i)) \<Rightarrow> runOwned env rp cfg f failNow i (now + ttl_of cfg opts) (s1, w))"
proof -
  from assms obtain k where "NormalizeIdempotencyKey (io_IdempotencyKey opts) = Inr k" "k \<noteq> []"
    "kh = HashIdempotencyKey env k" "io_Scope opts \<noteq> []"
    "BuildIdempotencyFingerprint env (io_Method opts) (io_Route opts) (io_ActorScope opts) (io_Payload opts) = Inr fp"
    by (auto simp: keyed_def)
  then show ?thesis unfolding Execute_def by (simp add: Let_def flip: ttl_of_def)
qed

definition claimed :: "idempotency_record \<Rightarrow> string \<Rightarrow> string \<Rightarrow> string \<Rightarrow> int \<Rightarrow> int \<Rightarrow> bool" where
  "claimed x scope kh fp l e \<longleftrightarrow> ir_Scope x = scope \<and> ir_IdempotencyKeyHash x = kh \<and>
     ir_RequestFingerprint x = fp \<and> ir_Status x = IdempotencyStatusProcessing \<and>
     ir_LockedUntil x = Some l \<and> ir_ExpiresAt x = e"

lemma put_same [simp]: "put m x (ir_Scope x) (ir_IdempotencyKeyHash x) = Some x"
  by (simp add: put_def)

lemma put_put: "ir_Scope x = ir_Scope y \<Longrightarrow> ir_IdempotencyKeyHash x = ir_IdempotencyKeyHash y \<Longrightarrow>
    put (put m x) y = put m y"
  by (intro ext) (simp add: put_def)

lemma reclaimed_fields [simp]:
  "ir_ID (reclaimed t l e x) = ir_ID x"
  "ir_Scope (reclaimed t l e x) = ir_Scope x"
  "ir_IdempotencyKeyHash (reclaimed t l e x) = ir_IdempotencyKeyHash x"
  "ir_RequestFingerprint (reclaimed t l e x) = ir_RequestFingerprint x"
  "ir_Status (reclaimed t l e x) = IdempotencyStatusProcessing"
  "ir_LockedUntil (reclaimed t l e x) = Some l"
  "ir_ExpiresAt (reclaimed t l e x) = e"
  by (simp_all add: reclaimed_def)

lemma succeeded_fields [simp]:
  "ir_Scope (succeeded t c b e x) = ir_Scope x"
  "ir_IdempotencyKeyHash (succeeded t c b e x) = ir_IdempotencyKeyHash x"
  "ir_RequestFingerprint (succeeded t c b e x) = ir_RequestFingerprint x"
  "ir_Status (succeeded t c b e x) = IdempotencyStatusSucceeded"
  "ir_ResponseBody (succeeded t c b e x) = Some b"
  "ir_ExpiresAt (succeeded t c b e x) = e"
  by (simp_all add: succeeded_def)

lemma failed_fields [simp]:
  "ir_Scope (failed t r l e x) = ir_Scope x"
  "ir_IdempotencyKeyHash (failed t r l e x) = ir_IdempotencyKeyHash x"
  "ir_RequestFingerprint (failed t r l e x) = ir_RequestFingerprint x"
  "ir_Status (failed t r l e x) = IdempotencyStatusFailedRetryable"
  "ir_LockedUntil (failed t r l e x) = Some l"
  "ir_ExpiresAt (failed t r l e x) = e"
  by (simp_all add: failed_def)

lemma status_distinct [simp]:
  "IdempotencyStatusProcessing \<noteq> IdempotencyStatusSucceeded"
  "IdempotencyStatusFailedRetryable \<noteq> IdempotencyStatusSucceeded"
  "IdempotencyStatusFailedRetryable \<noteq> IdempotencyStatusProcessing"
  "IdempotencyStatusSucceeded \<noteq> IdempotencyStatusProcessing"
  "IdempotencyStatusSucceeded \<noteq> IdempotencyStatusFailedRetryable"
  "IdempotencyStatusProcessing \<noteq> IdempotencyStatusFailedRetryable"
  by (simp_all add: status_defs)

text \<open>The claim never fails with an error of the executor.\<close>

lemma conflict_no_exec [simp]:
  "conflictWithRetryAfter ErrInProgress l now \<noteq> ErrExec r"
  "conflictWithRetryAfter ErrRetryBackoff l now \<noteq> ErrExec r"
  by (simp_all add: conflictWithRetryAfter_def Let_def split: option.splits)

lemma claimByStatus_no_exec: "snd (claimByStatus rp x now l e s) \<noteq> Inl (ErrExec r)"
  by (auto simp: claimByStatus_def split: option.splits prod.splits)

lemma claimExisting_no_exec: "snd (claimExisting rp scope kh fp now l e s) \<noteq> Inl (ErrExec r)"
  by (simp add: claimExisting_def claimByStatus_no_exec split: option.splits prod.splits)

lemma claimKey_no_exec: "snd (claimKey rp scope kh fp now l e s) \<noteq> Inl (ErrExec r)"
  using claimExisting_no_exec [of rp scope kh fp now l e _ r]
  by (simp add: claimKey_def split: option.splits prod.splits sum.splits claim.splits) (metis snd_conv)

context idempotency_contract
begin

lemma claim_free:
  assumes "inv s" and "lookup s scope kh = None"
  shows "\<exists>s' x. claimKey rp scope kh fp now l e s = (s', Inr (Owned (ir_ID x))) \<and> inv s' \<and>
    lookup s' scope kh = Some x \<and> claimed x scope kh fp l e"
proof -
  let ?r = "newRecord scope kh fp l e"
  from create_free [OF assms(1), of ?r] assms(2) obtain s' i where c:
    "rp_CreateProcessing rp ?r s = (s', Some (True, ?r\<lparr>ir_ID := i, ir_CreatedAt := stamp, ir_UpdatedAt := stamp\<rparr>))"
    "i \<noteq> 0" "inv s'" "lookup s' = put (lookup s) (?r\<lparr>ir_ID := i, ir_CreatedAt := stamp, ir_UpdatedAt := stamp,
      ir_ResponseStatus := None, ir_ResponseBody := None, ir_ErrorReason := None\<rparr>)"
    by (auto simp: newRecord_def)
  then show ?thesis
    by (intro exI [of _ s'] exI [of _ "?r\<lparr>ir_ID := i, ir_CreatedAt := stamp, ir_UpdatedAt := stamp,
        ir_ResponseStatus := None, ir_ResponseBody := None, ir_ErrorReason := None\<rparr>"])
      (simp add: claimKey_def newRecord_def put_def claimed_def)
qed

text \<open>A taken key: what the claim does is decided by the record alone.\<close>

lemma claim_taken:
  assumes "inv s" and x: "lookup s scope kh = Some x"
  shows "\<exists>s1. inv s1 \<and> lookup s1 = lookup s \<and>
    claimKey rp scope kh fp now l e s = claimExisting rp scope kh fp now l e s1"
proof -
  let ?r = "newRecord scope kh fp l e"
  from create_taken [OF assms(1), of ?r] x obtain s1 where s1:
    "rp_CreateProcessing rp ?r s = (s1, Some (False, ?r))" "inv s1" "lookup s1 = lookup s"
    by (auto simp: newRecord_def)
  have own: "snd (claimByStatus rp x now l e s') = Inr (Owned i) \<Longrightarrow> i = ir_ID x" for s' i
    by (auto simp: claimByStatus_def split: if_splits option.splits prod.splits)
  have id: "ir_ID x \<noteq> 0" using key_of [OF assms] by simp
  have id1: "snd (claimExisting rp scope kh fp now l e s1) = Inr (Owned i) \<Longrightarrow> i \<noteq> 0" for i
  proof -
    assume a: "snd (claimExisting rp scope kh fp now l e s1) = Inr (Owned i)"
    have x1: "lookup s1 scope kh = Some x" using x s1(3) by simp
    from reclaim [OF s1(2) x1, of "ir_Status x" now l e] obtain s2 where s2:
      "rp_TryReclaim rp (ir_ID x) (ir_Status x) now l e s1 = (s2, Some (lock_free now x))"
      "\<not> lock_free now x \<Longrightarrow> lookup s2 = lookup s1" by auto
    show "i \<noteq> 0"
      using a id own x1 s2 by (auto simp: claimExisting_def get split: if_splits)
  qed
  show ?thesis
    using s1 id1 by (intro exI [of _ s1])
      (auto simp: claimKey_def split: prod.splits sum.splits claim.splits)
qed

lemma claim_mismatch:
  assumes "inv s" and "lookup s scope kh = Some x" and "ir_RequestFingerprint x \<noteq> fp"
  shows "\<exists>s1. inv s1 \<and> lookup s1 = lookup s \<and> claimKey rp scope kh fp now l e s = (s1, Inl ErrKeyConflict)"
proof -
  from claim_taken [OF assms(1,2), of fp now l e] obtain s1 where s1: "inv s1" "lookup s1 = lookup s"
    "claimKey rp scope kh fp now l e s = claimExisting rp scope kh fp now l e s1" by blast
  with assms(2,3) show ?thesis by (intro exI [of _ s1]) (simp add: claimExisting_def get)
qed

lemma claim_live:
  assumes "inv s" and "lookup s scope kh = Some x" and "ir_RequestFingerprint x = fp" and "now < ir_ExpiresAt x"
  shows "\<exists>s1. inv s1 \<and> lookup s1 = lookup s \<and>
    claimKey rp scope kh fp now l e s = claimByStatus rp x now l e s1"
proof -
  from claim_taken [OF assms(1,2), of fp now l e] obtain s1 where s1: "inv s1" "lookup s1 = lookup s"
    "claimKey rp scope kh fp now l e s = claimExisting rp scope kh fp now l e s1" by blast
  with assms(2-4) show ?thesis by (intro exI [of _ s1]) (simp add: claimExisting_def get)
qed

text \<open>Every claim that makes the caller the owner leaves the caller's own record in the store.\<close>

lemma claim_owned:
  assumes "inv s" and "claimKey rp scope kh fp now l e s = (s', Inr (Owned i))"
  shows "\<exists>x. inv s' \<and> lookup s' scope kh = Some x \<and> ir_ID x = i \<and> claimed x scope kh fp l e"
proof (cases "lookup s scope kh")
  case None
  with claim_free [OF assms(1) None, of fp now l e] assms(2) show ?thesis by auto
next
  case (Some x)
  from claim_taken [OF assms(1) Some, of fp now l e] obtain s1 where s1: "inv s1" "lookup s1 scope kh = Some x"
    "claimKey rp scope kh fp now l e s = claimExisting rp scope kh fp now l e s1" using Some by auto
  note k = key_of [OF s1(1,2)]
  from reclaim [OF s1(1,2), of "ir_Status x" now l e] obtain s2 where s2:
    "rp_TryReclaim rp (ir_ID x) (ir_Status x) now l e s1 = (s2, Some (lock_free now x))" "inv s2"
    "lookup s2 = (if lock_free now x then put (lookup s1) (reclaimed stamp l e x) else lookup s1)" by auto
  have status: "snd (claimByStatus rp x now l e s1) = Inr (Owned i) \<Longrightarrow>
      fst (claimByStatus rp x now l e s1) = s2 \<and> i = ir_ID x \<and> lock_free now x"
    using s2(1) by (auto simp: claimByStatus_def split: if_splits option.splits)
  have no: "\<not> lock_free now x \<Longrightarrow> snd (claimByStatus rp x now l e s2) \<noteq> Inr (Owned i)"
    by (auto simp: claimByStatus_def split: option.splits)
  have "ir_RequestFingerprint x = fp \<and> i = ir_ID x \<and> lock_free now x \<and> s' = s2"
    using assms(2) s1 s2 status no
    by (auto simp: claimExisting_def get split: if_splits)
  with s2 k show ?thesis by (auto simp: claimed_def put_def)
qed

text \<open>A run that answered as the owner leaves a succeeded record with the marshalled answer.\<close>

lemma owner_success:
  assumes "inv s" and k: "keyed env opts kh fp"
    and run: "Execute env (Some rp) cfg opts now failNow (Some f) (s, w) = ((s1, w1), Inr r)"
    and fresh: "\<not> ex_Replayed r"
  shows "\<exists>x body. inv s1 \<and> lookup s1 (io_Scope opts) kh = Some x \<and> f w = (w1, Inr (ex_Data r)) \<and>
    marshalStoredResponse env cfg (ex_Data r) = Some body \<and> ir_RequestFingerprint x = fp \<and>
    ir_Status x = IdempotencyStatusSucceeded \<and> ir_ResponseBody x = Some body \<and>
    ir_ExpiresAt x = now + ttl_of cfg opts"
proof -
  let ?l = "now + ic_ProcessingTimeout cfg" and ?e = "now + ttl_of cfg opts"
  let ?c = "claimKey rp (io_Scope opts) kh fp now ?l ?e s"
  from run fresh obtain s0 i where c: "?c = (s0, Inr (Owned i))"
    and own: "runOwned env rp cfg f failNow i ?e (s0, w) = ((s1, w1), Inr r)"
    by (auto simp: Execute_keyed [OF k] split: prod.splits sum.splits claim.splits)
  from claim_owned [OF assms(1) c] obtain x where x: "inv s0" "lookup s0 (io_Scope opts) kh = Some x"
    "ir_ID x = i" "claimed x (io_Scope opts) kh fp ?l ?e" by blast
  from own obtain body where b: "f w = (w1, Inr (ex_Data r))" "marshalStoredResponse env cfg (ex_Data r) = Some body"
    "rp_MarkSucceeded rp i 200 body ?e s0 = (s1, Some ())"
    by (auto simp: runOwned_def Let_def split: prod.splits sum.splits option.splits)
  from mark_succeeded [OF x(1,2), of 200 body ?e] x(3) b(3)
  have "inv s1" "lookup s1 = put (lookup s0) (succeeded stamp 200 body ?e x)" by auto
  with x(4) b show ?thesis
    by (intro exI [of _ "succeeded stamp 200 body ?e x"] exI [of _ body]) (auto simp: claimed_def put_def)
qed

text \<open>A live succeeded record answers every further call for its key, and no executor runs.\<close>

lemma replay_succeeded:
  assumes "inv s" and k: "keyed env opts kh fp" and x: "lookup s (io_Scope opts) kh = Some x"
    "ir_RequestFingerprint x = fp" "ir_Status x = IdempotencyStatusSucceeded" "now < ir_ExpiresAt x"
  shows "\<exists>s2. inv s2 \<and> lookup s2 = lookup s \<and>
    Execute env (Some rp) cfg opts now failNow (Some f) (s, w) = ((s2, w),
      case decodeStoredResponse (ir_ResponseBody x) of
        None \<Rightarrow> Inl ErrStoreUnavail | Some d \<Rightarrow> Inr \<lparr>ex_Data = Some d, ex_Replayed = True\<rparr>)"
proof -
  from claim_live [OF assms(1) x(1,2,4)] obtain s2 where "inv s2" "lookup s2 = lookup s"
    "claimKey rp (io_Scope opts) kh fp now (now + ic_ProcessingTimeout cfg) (now + ttl_of cfg opts) s =
       claimByStatus rp x now (now + ic_ProcessingTimeout cfg) (now + ttl_of cfg opts) s2" by metis
  with x show ?thesis
    by (intro exI [of _ s2]) (simp add: Execute_keyed [OF k] claimByStatus_def split: option.splits)
qed

lemma owner_failure:
  assumes "inv s" and k: "keyed env opts kh fp"
    and run: "Execute env (Some rp) cfg opts now failNow (Some f) (s, w) = ((s1, w1), Inl (ErrExec reason))"
  shows "\<exists>x. inv s1 \<and> lookup s1 (io_Scope opts) kh = Some x \<and> ir_RequestFingerprint x = fp \<and>
    ir_Status x = IdempotencyStatusFailedRetryable \<and> ir_ExpiresAt x = now + ttl_of cfg opts \<and>
    ir_LockedUntil x = Some (failNow + ic_FailedRetryBackoff cfg)"
proof -
  let ?l = "now + ic_ProcessingTimeout cfg" and ?e = "now + ttl_of cfg opts"
  let ?c = "claimKey rp (io_Scope opts) kh fp now ?l ?e s"
  let ?m = "if reason = [] then ''EXECUTION_FAILED'' else reason"
  let ?b = "failNow + ic_FailedRetryBackoff cfg"
  note no = claimKey_no_exec [of rp "io_Scope opts" kh fp now ?l ?e s reason]
  with run obtain s0 i where c: "?c = (s0, Inr (Owned i))"
    and own: "runOwned env rp cfg f failNow i ?e (s0, w) = ((s1, w1), Inl (ErrExec reason))"
    by (auto simp: Execute_keyed [OF k] split: prod.splits sum.splits claim.splits)
  from claim_owned [OF assms(1) c] obtain x where x: "inv s0" "lookup s0 (io_Scope opts) kh = Some x"
    "ir_ID x = i" "claimed x (io_Scope opts) kh fp ?l ?e" by blast
  from own have "fst (rp_MarkFailedRetryable rp i ?m ?b ?e s0) = s1"
    by (auto simp: runOwned_def Let_def split: prod.splits sum.splits option.splits)
  with mark_failed [OF x(1,2), of ?m ?b ?e] x(3)
  have "inv s1" "lookup s1 = put (lookup s0) (failed stamp ?m ?b ?e x)" by auto
  with x(4) show ?thesis
    by (intro exI [of _ "failed stamp ?m ?b ?e x"]) (auto simp: claimed_def put_def)
qed

text \<open>A live failed record backs its callers off until its lock passes; then it runs again.\<close>

lemma retry_failed:
  assumes "inv s" and k: "keyed env opts kh fp" and x: "lookup s (io_Scope opts) kh = Some x"
    "ir_RequestFingerprint x = fp" "ir_Status x = IdempotencyStatusFailedRetryable" "now < ir_ExpiresAt x"
    "ir_LockedUntil x = Some l"
  shows "if now < l
    then \<exists>s2 n. 1 \<le> n \<and> lookup s2 = lookup s \<and> Execute env (Some rp) cfg opts now failNow (Some f) (s, w) =
           ((s2, w), Inl (ErrRetryBackoff (Some n)))
    else \<exists>s2. Execute env (Some rp) cfg opts now failNow (Some f) (s, w) =
           runOwned env rp cfg f failNow (ir_ID x) (now + ttl_of cfg opts) (s2, w)"
proof -
  let ?l = "now + ic_ProcessingTimeout cfg" and ?e = "now + ttl_of cfg opts"
  from claim_live [OF assms(1) x(1,2,4), of ?l ?e] obtain s2 where s2: "inv s2" "lookup s2 = lookup s"
    "claimKey rp (io_Scope opts) kh fp now ?l ?e s = claimByStatus rp x now ?l ?e s2" by auto
  show ?thesis
  proof (cases "now < l")
    case True
    with x(3,5) s2 show ?thesis
      by (auto simp: Execute_keyed [OF k] claimByStatus_def lock_free_def conflictWithRetryAfter_def
          Let_def intro!: exI [of _ s2])
  next
    case False
    have "lookup s2 (io_Scope opts) kh = Some x" using x(1) s2(2) by simp
    from reclaim [OF s2(1) this, of IdempotencyStatusFailedRetryable now ?l ?e] x(3,5) False obtain s3 where
      "rp_TryReclaim rp (ir_ID x) IdempotencyStatusFailedRetryable now ?l ?e s2 = (s3, Some True)"
      by (auto simp: lock_free_def)
    with False x(3,5) s2 show ?thesis
      by (auto simp: Execute_keyed [OF k] claimByStatus_def lock_free_def intro!: exI [of _ s3])
  qed
qed

lemma different_payload_conflicts:
  assumes "inv s" and "keyed env opts kh fp" and "lookup s (io_Scope opts) kh = Some x"
    and "ir_RequestFingerprint x \<noteq> fp"
  shows "\<exists>s1. inv s1 \<and> lookup s1 = lookup s \<and>
    Execute env (Some rp) cfg opts now failNow (Some f) (s, w) = ((s1, w), Inl ErrKeyConflict)"
  using claim_mismatch [OF assms(1,3,4), of now "now + ic_ProcessingTimeout cfg" "now + ttl_of cfg opts"]
  by (auto simp: Execute_keyed [OF assms(2)])

text \<open>A key without a record is executed: the answer is returned and stored, or the failure is.\<close>

lemma fresh_call:
  assumes "inv s" and k: "keyed env opts kh fp" and "lookup s (io_Scope opts) kh = None"
  shows "f w = (w1, Inr d) \<Longrightarrow> marshalStoredResponse env cfg d = Some body \<Longrightarrow>
      \<exists>s1. Execute env (Some rp) cfg opts now failNow (Some f) (s, w) =
        ((s1, w1), Inr \<lparr>ex_Data = d, ex_Replayed = False\<rparr>)"
    and "f w = (w1, Inl reason) \<Longrightarrow>
      \<exists>s1. Execute env (Some rp) cfg opts now failNow (Some f) (s, w) = ((s1, w1), Inl (ErrExec reason))"
proof -
  let ?l = "now + ic_ProcessingTimeout cfg" and ?e = "now + ttl_of cfg opts"
  from claim_free [OF assms(1,3)] obtain s0 x where c: "inv s0" "lookup s0 (io_Scope opts) kh = Some x"
    "claimKey rp (io_Scope opts) kh fp now ?l ?e s = (s0, Inr (Owned (ir_ID x)))" by blast
  {
    assume "f w = (w1, Inr d)" "marshalStoredResponse env cfg d = Some body"
    with c mark_succeeded [OF c(1,2), of 200 body ?e]
    show "\<exists>s1. Execute env (Some rp) cfg opts now failNow (Some f) (s, w) =
        ((s1, w1), Inr \<lparr>ex_Data = d, ex_Replayed = False\<rparr>)"
      by (auto simp: Execute_keyed [OF k] runOwned_def)
  next
    assume "f w = (w1, Inl reason)"
    with c show "\<exists>s1. Execute env (Some rp) cfg opts now failNow (Some f) (s, w) = ((s1, w1), Inl (ErrExec reason))"
      by (auto simp: Execute_keyed [OF k] runOwned_def split: prod.splits)
  }
qed

text \<open>What a call may change: the record of its own key, and that only when it becomes the owner.\<close>

definition touches :: "'s \<Rightarrow> 's \<Rightarrow> string \<Rightarrow> string \<Rightarrow> bool" where
  "touches s s' scope kh \<longleftrightarrow> inv s' \<and> (\<forall>a b. (a, b) \<noteq> (scope, kh) \<longrightarrow> lookup s' a b = lookup s a b)"

lemma touches_same: "inv s' \<Longrightarrow> lookup s' = lookup s \<Longrightarrow> touches s s' scope kh"
  by (simp add: touches_def)

lemma touches_put:
  "inv s' \<Longrightarrow> lookup s' = put (lookup s) x \<Longrightarrow> ir_Scope x = scope \<Longrightarrow> ir_IdempotencyKeyHash x = kh \<Longrightarrow>
    touches s s' scope kh"
  by (auto simp: touches_def put_def)

lemma touches_trans: "touches s s1 scope kh \<Longrightarrow> touches s1 s2 scope kh \<Longrightarrow> touches s s2 scope kh"
  by (auto simp: touches_def)

lemma reclaim_touches:
  assumes "inv s" and "lookup s scope kh = Some x" and "rp_TryReclaim rp (ir_ID x) st now l e s = (s', r)"
  shows "touches s s' scope kh" and "\<exists>b. r = Some b"
  using reclaim [OF assms(1,2), of st now l e] key_of [OF assms(1,2)] assms(3)
  by (auto intro: touches_same touches_put split: if_splits)

lemma claimByStatus_touches:
  assumes "inv s" and "lookup s scope kh = Some x" and "claimByStatus rp x now l e s = (s', r)"
  shows "touches s s' scope kh"
  using assms reclaim_touches(1) [OF assms(1,2)] touches_same [of s s]
  by (auto simp: claimByStatus_def split: if_splits option.splits prod.splits)

lemma claimExisting_touches:
  assumes "inv s" and x: "lookup s scope kh = Some x" and c: "claimExisting rp scope kh fp now l e s = (s', r)"
  shows "touches s s' scope kh"
proof -
  from reclaim [OF assms(1,2), of "ir_Status x" now l e] obtain s2 where s2:
    "rp_TryReclaim rp (ir_ID x) (ir_Status x) now l e s = (s2, Some (lock_free now x))" "inv s2"
    "lookup s2 = (if lock_free now x then put (lookup s) (reclaimed stamp l e x) else lookup s)" by auto
  have t2: "touches s s2 scope kh" by (rule reclaim_touches(1) [OF assms(1,2) s2(1)])
  have "claimByStatus rp x now l e s2 = (s', r) \<Longrightarrow> \<not> lock_free now x \<Longrightarrow> touches s s' scope kh"
    using claimByStatus_touches [OF s2(2)] s2(3) x t2 by (auto intro: touches_trans)
  then show ?thesis
    using c x s2 t2 claimByStatus_touches [OF assms(1,2), of now l e s' r] touches_same [of s s] assms(1)
    by (auto simp: claimExisting_def get split: if_splits)
qed

lemma claimKey_touches:
  assumes "inv s" and c: "claimKey rp scope kh fp now l e s = (s', r)"
  shows "touches s s' scope kh"
proof (cases "lookup s scope kh")
  case None
  from create_free [OF assms(1), of "newRecord scope kh fp l e"] None obtain s1 i where
    "rp_CreateProcessing rp (newRecord scope kh fp l e) s = (s1, Some (True, (newRecord scope kh fp l e)
       \<lparr>ir_ID := i, ir_CreatedAt := stamp, ir_UpdatedAt := stamp\<rparr>))" "i \<noteq> 0" "inv s1"
    "lookup s1 = put (lookup s) ((newRecord scope kh fp l e)\<lparr>ir_ID := i, ir_CreatedAt := stamp,
       ir_UpdatedAt := stamp, ir_ResponseStatus := None, ir_ResponseBody := None, ir_ErrorReason := None\<rparr>)"
    by (auto simp: newRecord_def)
  then show ?thesis using c
    by (auto simp: claimKey_def newRecord_def intro!: touches_put)
next
  case (Some x)
  from claim_taken [OF assms(1) Some, of fp now l e] obtain s1 where s1: "inv s1" "lookup s1 = lookup s"
    "claimKey rp scope kh fp now l e s = claimExisting rp scope kh fp now l e s1" by blast
  with c Some claimExisting_touches [OF s1(1), of scope kh x fp now l e s' r] have "touches s1 s' scope kh" by simp
  with s1(2) show ?thesis by (auto simp: touches_def)
qed

lemma Execute_touches:
  assumes "inv s" and k: "keyed env opts kh fp"
    and run: "Execute env (Some rp) cfg opts now failNow (Some f) (s, w) = ((s', w'), r)"
  shows "touches s s' (io_Scope opts) kh"
proof -
  let ?l = "now + ic_ProcessingTimeout cfg" and ?e = "now + ttl_of cfg opts"
  obtain s0 c where c: "claimKey rp (io_Scope opts) kh fp now ?l ?e s = (s0, c)" by fastforce
  note t0 = claimKey_touches [OF assms(1) c]
  show ?thesis
  proof (cases "\<exists>i. c = Inr (Owned i)")
    case False
    with run c t0 show ?thesis
      by (auto simp: Execute_keyed [OF k] split: sum.splits claim.splits)
  next
    case True
    then obtain i where i: "c = Inr (Owned i)" by blast
    from claim_owned [OF assms(1) c [unfolded i]] obtain x where x: "inv s0" "lookup s0 (io_Scope opts) kh = Some x"
      "ir_ID x = i" by blast
    note key = key_of [OF x(1,2)]
    from run c i have own: "runOwned env rp cfg f failNow i ?e (s0, w) = ((s', w'), r)"
      by (simp add: Execute_keyed [OF k])
    have "touches s0 s' (io_Scope opts) kh"
    proof (cases "snd (f w)")
      case (Inl reason)
      let ?m = "if reason = [] then ''EXECUTION_FAILED'' else reason"
      from mark_failed [OF x(1,2), of ?m "failNow + ic_FailedRetryBackoff cfg" ?e] own Inl x(3) key
      show ?thesis by (auto simp: runOwned_def intro: touches_put split: prod.splits)
    next
      case (Inr d)
      show ?thesis
      proof (cases "marshalStoredResponse env cfg d")
        case None
        with own Inr x(1) show ?thesis by (auto simp: runOwned_def intro: touches_same split: prod.splits)
      next
        case (Some body)
        from mark_succeeded [OF x(1,2), of 200 body ?e] own Inr Some x(3) key
        show ?thesis by (auto simp: runOwned_def intro: touches_put split: prod.splits)
      qed
    qed
    with t0 show ?thesis by (rule touches_trans)
  qed
qed

end

text \<open>A call that is not keyed leaves the store alone.\<close>

lemma Execute_unkeyed:
  assumes "\<nexists>kh fp. keyed env opts kh fp"
  shows "fst (fst (Execute env repo cfg opts now failNow ex (s, w))) = s"
  using assms unfolding keyed_def
  by (auto simp: Execute_def runUnkeyed_def split: option.splits sum.splits prod.splits)

lemma keyed_unique: "keyed env opts kh fp \<Longrightarrow> keyed env opts kh' fp' \<Longrightarrow> kh' = kh \<and> fp' = fp"
  by (auto simp: keyed_def)

end
