(* ===== verification/JsonEnds.thy ===== *)
theory JsonEnds
  imports GoJson
begin

text \<open>
  How a valid JSON text ends: with the last byte of a value, possibly followed by white space. In
  particular no valid text ends in a closing parenthesis, which is what a truncated text that was
  given a note in parentheses does.
\<close>

definition paren :: char where
  "paren = CHR 0x29"

text \<open>\<open>r\<close> is what is left of \<open>s\<close> after a byte other than the parenthesis.\<close>

definition ended :: "string \<Rightarrow> string \<Rightarrow> bool" where
  "ended s r \<longleftrightarrow> (\<exists>p c. s = p @ c # r \<and> c \<noteq> paren)"

lemma ended_prefix: "ended s r \<Longrightarrow> ended (p @ s) r"
  unfolding ended_def by (metis append.assoc)

lemma ended_Cons: "ended s r \<Longrightarrow> ended (c # s) r"
  using ended_prefix [of s r "[c]"] by simp

lemma ended_here: "c \<noteq> paren \<Longrightarrow> ended (c # r) r"
  unfolding ended_def by (intro exI [of _ "[]"] exI [of _ c]) simp

lemma ended_drop: "ended (dropWhile P s) r \<Longrightarrow> ended s r"
  using ended_prefix [of "dropWhile P s" r "takeWhile P s"] by simp

lemma ended_skip_ws: "skip_ws s = t \<Longrightarrow> ended t r \<Longrightarrow> ended s r"
  unfolding skip_ws_def using ended_drop by blast

lemma byte_paren: "byte c \<noteq> 41 \<Longrightarrow> c \<noteq> paren"
  by (auto simp: byte_def paren_def)

lemma ws_paren: "is_ws c \<Longrightarrow> c \<noteq> paren"
  by (rule byte_paren) (auto simp: is_ws_def)

lemma digit_paren: "is_digit c \<Longrightarrow> c \<noteq> paren"
  by (rule byte_paren) (auto simp: is_digit_def)

lemma ended_escape: "ended u r \<Longrightarrow> ended (a # b # c # d # u) r"
  by (intro ended_Cons)

lemma skip_str_ended: "skip_str s = Some r \<Longrightarrow> ended s r"
proof (induction s arbitrary: r rule: skip_str.induct)
  case (2 c s)
  consider (quote) "byte c = 0x22" | (escape) "byte c \<noteq> 0x22" "byte c = 0x5C"
    | (plain) "byte c \<noteq> 0x22" "byte c \<noteq> 0x5C" by blast
  then show ?case
  proof cases
    case quote
    with "2.prems" have "r = s" by simp
    with quote show ?thesis by (auto intro!: ended_here byte_paren)
  next
    case plain
    with "2.prems" have "\<not> byte c < 0x20" "skip_str s = Some r" by (simp_all split: if_splits)
    with plain "2.IH"(3) show ?thesis by (intro ended_Cons) blast
  next
    case escape
    with "2.prems" obtain e t where s: "s = e # t" by (simp split: list.splits)
    show ?thesis
    proof (cases "map_of simple_escapes e \<noteq> None")
      case True
      with "2.prems" escape s have "skip_str t = Some r" by simp
      with "2.IH"(1) [OF escape s True] show ?thesis unfolding s by (intro ended_Cons) blast
    next
      case False
      with "2.prems" escape s obtain a b x y u where t: "t = a # b # x # y # u" "e = CHR ''u''"
        "hex_value a \<noteq> None \<and> hex_value b \<noteq> None \<and> hex_value x \<noteq> None \<and> hex_value y \<noteq> None"
        "skip_str u = Some r" by (simp split: list.splits if_splits)
      from "2.IH"(2) [OF escape s False t(2,1) _ _ _ t(3,4)] have "ended u r" by blast
      then show ?thesis unfolding s t(1) by (intro ended_Cons)
    qed
  qed
qed simp

lemma ended_digits: "is_digit c \<Longrightarrow> ended (c # t) (dropWhile is_digit t)"
proof (induction t arbitrary: c)
  case Nil
  then show ?case by (simp add: ended_here digit_paren)
next
  case (Cons d t)
  show ?case
  proof (cases "is_digit d")
    case True
    with Cons.IH show ?thesis by (simp add: ended_Cons)
  next
    case False
    with Cons.prems show ?thesis by (simp add: ended_here digit_paren)
  qed
qed

lemma skip_digits1_ended: "skip_digits1 s = Some r \<Longrightarrow> ended s r"
  by (auto simp: skip_digits1_def ended_digits split: list.splits if_splits)

text \<open>A part that may be empty: either nothing was read, or the text read ends well.\<close>

definition maybe_ended :: "string \<Rightarrow> string \<Rightarrow> bool" where
  "maybe_ended s r \<longleftrightarrow> r = s \<or> ended s r"

lemma ended_trans: "ended s t \<Longrightarrow> maybe_ended t r \<Longrightarrow> ended s r"
  unfolding maybe_ended_def ended_def by (metis append.assoc append_Cons)

lemma skip_number_ended:
  assumes "skip_number s = Some r"
  shows "ended s r"
proof -
  define s1 where "s1 = (case s of c # t \<Rightarrow> if c = CHR ''-'' then t else s | [] \<Rightarrow> s)"
  have sign: "ended s1 x \<Longrightarrow> ended s x" for x
    by (auto simp: s1_def intro: ended_Cons split: list.splits if_splits)
  obtain s2 where s2: "(case s1 of c # t \<Rightarrow> if c = CHR ''0'' then Some t else skip_digits1 s1 | [] \<Rightarrow> None) = Some s2"
    using assms by (auto simp: skip_number_def s1_def [symmetric] Let_def split: option.splits)
  have e2: "ended s1 s2"
  proof (cases s1)
    case (Cons c t)
    show ?thesis
    proof (cases "c = CHR ''0''")
      case True
      with s2 Cons show ?thesis by (auto intro!: ended_here simp: paren_def)
    next
      case False
      with s2 Cons show ?thesis by (intro skip_digits1_ended) simp
    qed
  qed (use s2 in simp)
  obtain s3 where s3: "(case s2 of c # t \<Rightarrow> if c = CHR ''.'' then skip_digits1 t else Some s2 | [] \<Rightarrow> Some s2) = Some s3"
    using assms s2 by (auto simp: skip_number_def s1_def [symmetric] Let_def split: option.splits)
  have e3: "maybe_ended s2 s3"
    using s3 by (auto simp: maybe_ended_def intro: ended_Cons skip_digits1_ended split: list.splits if_splits)
  have "(case s3 of c # t \<Rightarrow> (if c = CHR ''e'' \<or> c = CHR ''E'' then
      skip_digits1 (case t of d # u \<Rightarrow> if d = CHR ''+'' \<or> d = CHR ''-'' then u else t | [] \<Rightarrow> t)
      else Some s3) | [] \<Rightarrow> Some s3) = Some r"
    using assms s2 s3 by (simp add: skip_number_def s1_def [symmetric] Let_def)
  then have e4: "maybe_ended s3 r"
    by (auto simp: maybe_ended_def intro: ended_Cons dest!: skip_digits1_ended split: list.splits if_splits)
  show ?thesis by (rule sign) (rule ended_trans [OF ended_trans [OF e2 e3] e4])
qed

lemma skip_lit_ended:
  assumes "skip_lit l s = Some r" and "l = k @ [c]" and "c \<noteq> paren"
  shows "ended s r"
proof -
  from assms(1) obtain q where "s = l @ q" "r = q" by (auto simp: skip_lit_def prefix_def split: if_splits)
  with assms(2,3) show ?thesis unfolding ended_def by auto
qed

lemma lit_true: "skip_lit ''true'' s = Some r \<Longrightarrow> ended s r"
  by (rule skip_lit_ended [of "''true''" s r "''tru''" "CHR ''e''"]) (simp_all add: paren_def)

lemma lit_false: "skip_lit ''false'' s = Some r \<Longrightarrow> ended s r"
  by (rule skip_lit_ended [of "''false''" s r "''fals''" "CHR ''e''"]) (simp_all add: paren_def)

lemma lit_null: "skip_lit ''null'' s = Some r \<Longrightarrow> ended s r"
  by (rule skip_lit_ended [of "''null''" s r "''nul''" "CHR ''l''"]) (simp_all add: paren_def)

lemma ended_ws: "skip_ws s = c # t \<Longrightarrow> ended (c # t) r \<Longrightarrow> ended s r"
  by (rule ended_skip_ws)

lemma ended_next: "ended s r \<Longrightarrow> skip_ws r = c # t \<Longrightarrow> c \<noteq> paren \<Longrightarrow> ended s t"
  by (rule ended_trans) (auto simp: maybe_ended_def intro: ended_ws ended_here)

lemma ended_both: "ended s r \<Longrightarrow> ended r t \<Longrightarrow> ended s t"
  using ended_trans [of s r t] by (simp add: maybe_ended_def)

lemma close_paren [simp]: "CHR ''}'' \<noteq> paren" "CHR '']'' \<noteq> paren" "CHR '','' \<noteq> paren" "CHR '':'' \<noteq> paren"
  by (simp_all add: paren_def)

lemma skip_ended:
  "skip_val n s = Some r \<Longrightarrow> ended s r"
  "skip_elems n s = Some r \<Longrightarrow> ended s r"
  "skip_mems n s = Some r \<Longrightarrow> ended s r"
proof (induction n s and n s and n s arbitrary: r and r and r rule: skip_val_skip_elems_skip_mems.induct)
  case (2 n s)
  from "2.prems" obtain c t where ct: "skip_ws s = c # t" by (auto split: list.splits)
  have "ended (c # t) r"
  proof -
    consider "byte c = 0x22" | "byte c \<noteq> 0x22" "c = CHR ''{''" | "byte c \<noteq> 0x22" "c = CHR ''[''"
      | "byte c \<noteq> 0x22" "c \<noteq> CHR ''{''" "c \<noteq> CHR ''[''" by blast
    then show ?thesis
    proof cases
      case 1
      with "2.prems" ct show ?thesis by (auto intro: ended_Cons skip_str_ended)
    next
      case 2
      with "2.prems" ct obtain d u where du: "skip_ws t = d # u" by (auto split: list.splits)
      show ?thesis
      proof (cases "d = CHR ''}''")
        case True
        with 2 "2.prems" ct du have "ended (d # u) r" by (auto intro: ended_here)
        then show ?thesis by (intro ended_Cons) (rule ended_ws [OF du])
      next
        case False
        with 2 "2.prems" ct du have "skip_mems n (d # u) = Some r" by simp
        with "2.IH"(1) [OF ct 2 du False] have "ended (d # u) r" by blast
        then show ?thesis by (intro ended_Cons) (rule ended_ws [OF du])
      qed
    next
      case 3
      with "2.prems" ct obtain d u where du: "skip_ws t = d # u" by (auto split: list.splits)
      show ?thesis
      proof (cases "d = CHR '']''")
        case True
        with 3 "2.prems" ct du have "ended (d # u) r" by (auto intro: ended_here)
        then show ?thesis by (intro ended_Cons) (rule ended_ws [OF du])
      next
        case False
        with 3 "2.prems" ct du have e: "skip_elems n (d # u) = Some r" by simp
        from 3 have "c \<noteq> CHR ''{''" by simp
        from "2.IH"(2) [OF ct 3(1) this 3(2) du False] e have "ended (d # u) r" by blast
        then show ?thesis by (intro ended_Cons) (rule ended_ws [OF du])
      qed
    next
      case 4
      with "2.prems" ct have "(if c = CHR ''t'' then skip_lit ''true'' (c # t)
          else if c = CHR ''f'' then skip_lit ''false'' (c # t)
          else if c = CHR ''n'' then skip_lit ''null'' (c # t) else skip_number (c # t)) = Some r" by simp
      then show ?thesis by (auto split: if_splits intro: lit_true lit_false lit_null skip_number_ended)
    qed
  qed
  then show ?case by (rule ended_ws [OF ct])
next
  case (4 n s)
  from "4.prems" obtain r1 where v: "skip_val n s = Some r1" by (auto split: option.splits)
  note e1 = "4.IH"(1) [OF v]
  from "4.prems" v obtain c t where ct: "skip_ws r1 = c # t" by (auto split: list.splits)
  show ?case
  proof (cases "c = CHR '',''")
    case True
    with "4.prems" v ct have "skip_elems n t = Some r" by simp
    with "4.IH"(2) [OF v ct True] have "ended t r" .
    with ended_next [OF e1 ct] True show ?thesis by (auto intro: ended_both)
  next
    case False
    with "4.prems" v ct have "c = CHR '']''" "t = r" by (simp_all split: if_splits)
    with ended_next [OF e1 ct] show ?thesis by simp
  qed
next
  case (6 n s)
  from "6.prems" obtain q k where qk: "skip_ws s = q # k" by (auto split: list.splits)
  with "6.prems" have q: "\<not> byte q \<noteq> 0x22" by (auto split: if_splits)
  from "6.prems" qk q obtain r1 where str: "skip_str k = Some r1" by (auto split: option.splits)
  then have "ended (q # k) r1" by (intro ended_Cons) (rule skip_str_ended)
  then have "ended s r1" by (rule ended_ws [OF qk])
  from "6.prems" qk q str obtain c t where ct: "skip_ws r1 = c # t" by (auto split: list.splits)
  from "6.prems" qk q str ct have c: "\<not> c \<noteq> CHR '':''" by (auto split: if_splits)
  with ended_next [OF \<open>ended s r1\<close> ct] have e2: "ended s t" by simp
  from "6.prems" qk q str ct c obtain u where v: "skip_val n t = Some u" by (auto split: option.splits)
  note e3 = ended_both [OF e2 "6.IH"(1) [OF qk q str ct c v]]
  from "6.prems" qk q str ct c v obtain d w where dw: "skip_ws u = d # w" by (auto split: list.splits)
  show ?case
  proof (cases "d = CHR '',''")
    case True
    with "6.prems" qk q str ct c v dw have "skip_mems n w = Some r" by simp
    with "6.IH"(2) [OF qk q str ct c v dw True] have "ended w r" .
    with ended_next [OF e3 dw] True show ?thesis by (auto intro: ended_both)
  next
    case False
    with "6.prems" qk q str ct c v dw have "d = CHR ''}''" "w = r" by (simp_all split: if_splits)
    with ended_next [OF e3 dw] show ?thesis by simp
  qed
qed simp_all

lemma json_valid_end:
  assumes "json_valid (s @ [paren])"
  shows False
proof -
  from assms obtain r where r: "skip_val (fuel (s @ [paren])) (s @ [paren]) = Some r" "skip_ws r = []"
    by (auto simp: json_valid_def split: option.splits)
  from skip_ended(1) [OF r(1)] obtain p c where pc: "s @ [paren] = p @ c # r" "c \<noteq> paren"
    by (auto simp: ended_def)
  show False
  proof (cases r rule: rev_cases)
    case Nil
    with pc show ?thesis by simp
  next
    case (snoc q d)
    with pc have "d = paren" by (metis append.assoc append_Cons last_snoc)
    moreover from r(2) snoc have "is_ws d" by (simp add: skip_ws_def)
    ultimately show ?thesis using ws_paren by blast
  qed
qed

end
