(* ===== verification/IdempotencySafety.thy ===== *)
theory IdempotencySafety
  imports Idempotency JsonEnds
begin

text \<open>
  What the idempotency coordinator of \<open>service/idempotency.go\<close> guarantees over the table of
  \<open>repository/idempotency_repo.go\<close>: over every history of calls and purges a key is executed once
  while its record lives, and the flaw in how long answers are stored. \<open>event\<close> is one call of
  \<open>Execute\<close> or one round of \<open>cleanupOnce\<close> (\<open>service/idempotency_cleanup_service.go\<close>), run to its end.
\<close>

section \<open>Histories\<close>

record 'w exec_call =
  ca_dbnow :: int
  ca_opts :: execute_options
  ca_now :: int
  ca_failNow :: int
  ca_execute :: "'w executor"

datatype 'w event =
    Call "'w exec_call"
  | Purge int int

definition cleanupOnce :: "int \<Rightarrow> int \<Rightarrow> idem_table \<Rightarrow> idem_table" where
  "cleanupOnce now batch t = fst (rp_DeleteExpired (sql_repository now) now batch t)"

definition perform :: "idem_env \<Rightarrow> idempotency_config \<Rightarrow> 'w exec_call \<Rightarrow> idem_table \<times> 'w \<Rightarrow>
    (idem_table \<times> 'w) \<times> (idem_error + execute_result)" where
  "perform env cfg c = Execute env (Some (sql_repository (ca_dbnow c))) cfg (ca_opts c) (ca_now c) (ca_failNow c)
     (Some (ca_execute c))"

fun serve :: "idem_env \<Rightarrow> idempotency_config \<Rightarrow> 'w event list \<Rightarrow> idem_table \<times> 'w \<Rightarrow> idem_table \<times> 'w" where
  "serve env cfg [] sw = sw"
| "serve env cfg (Call c # es) sw = serve env cfg es (fst (perform env cfg c sw))"
| "serve env cfg (Purge now batch # es) sw = serve env cfg es (cleanupOnce now batch (fst sw), snd sw)"

fun event_time :: "'w event \<Rightarrow> int" where
  "event_time (Call c) = ca_now c"
| "event_time (Purge now batch) = now"

lemma cleanup_keeps:
  assumes "table_inv t"
  shows "table_inv (cleanupOnce now batch t)"
    and "table_lookup t a b = Some x \<Longrightarrow> now < ir_ExpiresAt x \<Longrightarrow>
      table_lookup (cleanupOnce now batch t) a b = Some x"
proof -
  from sql_lease.purge [OF assms, of now now batch] obtain t' n where p:
    "rp_DeleteExpired (sql_repository now) now batch t = (t', Some n)" "table_inv t'"
    "\<forall>a b. table_lookup t' a b = table_lookup t a b \<or>
       table_lookup t' a b = None \<and> (\<forall>x. table_lookup t a b = Some x \<longrightarrow> ir_ExpiresAt x \<le> now)" by blast
  then show "table_inv (cleanupOnce now batch t)" by (simp add: cleanupOnce_def)
  assume x: "table_lookup t a b = Some x" "now < ir_ExpiresAt x"
  from p(3) have "table_lookup t' a b = table_lookup t a b" using x by fastforce
  with x p(1) show "table_lookup (cleanupOnce now batch t) a b = Some x" by (simp add: cleanupOnce_def)
qed

text \<open>A succeeded record outlives every event that comes before its expiry.\<close>

lemma perform_keeps:
  assumes inv: "table_inv t" and x: "table_lookup t a b = Some x"
    and st: "ir_Status x = IdempotencyStatusSucceeded" and live: "ca_now c < ir_ExpiresAt x"
  shows "table_inv (fst (fst (perform env cfg c (t, w))))"
    and "table_lookup (fst (fst (perform env cfg c (t, w)))) a b = Some x"
proof -
  let ?p = "perform env cfg c (t, w)"
  have "table_inv (fst (fst ?p)) \<and> table_lookup (fst (fst ?p)) a b = Some x"
  proof (cases "\<exists>kh fp. keyed env (ca_opts c) kh fp")
    case False
    then show ?thesis using inv x by (simp add: perform_def Execute_unkeyed)
  next
    case True
    then obtain kh fp where k: "keyed env (ca_opts c) kh fp" by blast
    obtain t' w' r where p: "?p = ((t', w'), r)" by (metis prod.exhaust)
    note run = p [unfolded perform_def]
    from sql.Execute_touches [OF inv k run] have
      t: "sql.touches t t' (io_Scope (ca_opts c)) kh" .
    show ?thesis
    proof (cases "(a, b) = (io_Scope (ca_opts c), kh)")
      case False
      with t x p show ?thesis by (auto simp: sql.touches_def)
    next
      case same: True
      show ?thesis
      proof (cases "ir_RequestFingerprint x = fp")
        case True
        with sql.replay_succeeded [OF inv k _ True st live, of "ca_dbnow c" cfg "ca_failNow c" "ca_execute c" w]
          x same p show ?thesis by (auto simp: perform_def)
      next
        case False
        with sql.different_payload_conflicts [OF inv k _ False,
            of "ca_dbnow c" cfg "ca_now c" "ca_failNow c" "ca_execute c" w]
          x same p show ?thesis by (auto simp: perform_def)
      qed
    qed
  qed
  then show "table_inv (fst (fst ?p))" and "table_lookup (fst (fst ?p)) a b = Some x" by simp_all
qed

lemma serve_keeps:
  assumes "table_inv t" and "table_lookup t a b = Some x" and "ir_Status x = IdempotencyStatusSucceeded"
    and "\<forall>e\<in>set es. event_time e < ir_ExpiresAt x"
  shows "table_inv (fst (serve env cfg es (t, w))) \<and> table_lookup (fst (serve env cfg es (t, w))) a b = Some x"
  using assms
proof (induction es arbitrary: t w)
  case (Cons e es)
  show ?case
  proof (cases e)
    case (Call c)
    obtain t' w' where q: "fst (perform env cfg c (t, w)) = (t', w')" by (metis prod.exhaust)
    from Cons.prems Call have live: "ca_now c < ir_ExpiresAt x" by simp
    from perform_keeps [OF Cons.prems(1-3) live, of env cfg w] q have "table_inv t'" "table_lookup t' a b = Some x"
      by simp_all
    with Cons Call q show ?thesis by simp
  next
    case (Purge now batch)
    with Cons.prems have "now < ir_ExpiresAt x" by simp
    with Cons Purge cleanup_keeps [OF Cons.prems(1), where now = now and batch = batch] show ?thesis by simp
  qed
qed simp

lemma perform_success:
  assumes "table_inv t" and k: "keyed env (ca_opts c) kh fp"
    and run: "perform env cfg c (t, w) = ((t1, w1), Inr r)" and "\<not> ex_Replayed r"
  shows "\<exists>x body. table_inv t1 \<and> table_lookup t1 (io_Scope (ca_opts c)) kh = Some x \<and>
    marshalStoredResponse env cfg (ex_Data r) = Some body \<and> ir_RequestFingerprint x = fp \<and>
    ir_Status x = IdempotencyStatusSucceeded \<and> ir_ResponseBody x = Some body \<and>
    ir_ExpiresAt x = ca_now c + ttl_of cfg (ca_opts c)"
  using sql.owner_success [OF assms(1) k run [unfolded perform_def] assms(4)] by blast

text \<open>A stored answer is what every later caller gets, and no executor runs.\<close>

lemma replay_after:
  assumes "table_inv t" and k: "keyed env (ca_opts c) kh fp"
    and run: "perform env cfg c (t, w) = ((t1, w1), Inr r)" "\<not> ex_Replayed r"
    and times: "\<forall>e\<in>set es. event_time e < ca_now c + ttl_of cfg (ca_opts c)"
    and k2: "keyed env (ca_opts c2) kh fp" "io_Scope (ca_opts c2) = io_Scope (ca_opts c)"
    and live: "ca_now c2 < ca_now c + ttl_of cfg (ca_opts c)"
  shows "\<exists>body. marshalStoredResponse env cfg (ex_Data r) = Some body \<and>
    snd (perform env cfg c2 (serve env cfg es (t1, w1))) = (case decodeStoredResponse (Some body) of
      None \<Rightarrow> Inl ErrStoreUnavail | Some d \<Rightarrow> Inr \<lparr>ex_Data = Some d, ex_Replayed = True\<rparr>) \<and>
    snd (fst (perform env cfg c2 (serve env cfg es (t1, w1)))) = snd (serve env cfg es (t1, w1))"
proof -
  from perform_success [OF assms(1) k run] obtain x body where x: "table_inv t1"
    "table_lookup t1 (io_Scope (ca_opts c)) kh = Some x" "marshalStoredResponse env cfg (ex_Data r) = Some body"
    "ir_RequestFingerprint x = fp" "ir_Status x = IdempotencyStatusSucceeded" "ir_ResponseBody x = Some body"
    "ir_ExpiresAt x = ca_now c + ttl_of cfg (ca_opts c)" by blast
  obtain t2 w2 where s: "serve env cfg es (t1, w1) = (t2, w2)" by fastforce
  with serve_keeps [OF x(1,2,5), of es env cfg w1] times x(7) have
    t2: "table_inv t2" "table_lookup t2 (io_Scope (ca_opts c2)) kh = Some x" by (simp_all add: k2(2))
  have "ca_now c2 < ir_ExpiresAt x" using live x(7) by simp
  from sql.replay_succeeded [OF t2(1) k2(1) t2(2) x(4,5) this, of "ca_dbnow c2" cfg "ca_failNow c2" "ca_execute c2" w2]
  show ?thesis using x(3,6) s by (intro exI [of _ body]) (auto simp: perform_def)
qed

section \<open>Answers that are too long to store\<close>

lemma trim_seqs_keeps:
  assumes "\<forall>p\<in>set ps. c \<notin> set p" and "c \<in> set s"
  shows "c \<in> set (trim_seqs ps s)"
  using assms
proof (induction ps s rule: trim_seqs.induct)
  case (1 ps s)
  show ?case
  proof (cases "find (\<lambda>p. p \<noteq> [] \<and> prefix p s) ps")
    case None
    with "1.prems" show ?thesis by (subst trim_seqs.simps) simp
  next
    case (Some p)
    then have p: "p \<in> set ps" "prefix p s" by (auto simp: find_Some_iff)
    from p(2) obtain q where q: "s = p @ q" by (auto simp: prefix_def)
    with "1.prems" p(1) have "c \<in> set (drop (length p) s)" by auto
    with "1.IH" [OF Some] "1.prems" have "c \<in> set (trim_seqs ps (drop (length p) s))" by blast
    then show ?thesis using Some by (subst trim_seqs.simps) simp
  qed
qed

lemma trim_space_keeps_paren: "paren \<in> set s \<Longrightarrow> trim_space s \<noteq> []"
proof -
  assume "paren \<in> set s"
  have no: "\<forall>p\<in>set space_seqs. paren \<notin> set p" by (simp add: space_seqs_def paren_def)
  then have "\<forall>p\<in>set (map rev space_seqs). paren \<notin> set p" by simp
  with \<open>paren \<in> set s\<close> no have "paren \<in> set (trim_space s)"
    unfolding trim_space_def by (simp add: trim_seqs_keeps del: set_map)
  then show ?thesis by auto
qed

lemma mark_undecodable: "decodeStoredResponse (Some (s @ truncated_mark)) = None"
proof -
  have m: "s @ truncated_mark = (s @ ''...(truncated'') @ [paren]" by (simp add: truncated_mark_def paren_def)
  have "paren \<in> set (s @ truncated_mark)" by (simp add: truncated_mark_def paren_def)
  moreover have "\<not> json_valid (s @ truncated_mark)" using json_valid_end unfolding m by blast
  ultimately show ?thesis by (simp add: decodeStoredResponse_def trim_space_keeps_paren)
qed

lemma long_undecodable:
  assumes "marshalStoredResponse env cfg (Some raw) = Some body"
    and "0 < ic_MaxStoredResponseLen cfg" and "ic_MaxStoredResponseLen cfg < int (length (en_redact env raw))"
  shows "decodeStoredResponse (Some body) = None"
  using assms mark_undecodable by (auto simp: marshalStoredResponse_def Let_def)

section \<open>Keys and cut texts\<close>

lemma rune2: "194 \<le> b \<Longrightarrow> b < 224 \<Longrightarrow> 126 < b mod 32 * 64 + (k::nat)"
proof -
  assume "194 \<le> b" "b < 224"
  then have "b mod 32 = b - 192" by (simp add: mod_if [of b 32] mod_nat_eqI)
  with \<open>194 \<le> b\<close> show ?thesis by simp
qed

lemma rune3: "224 < b \<Longrightarrow> b < 240 \<Longrightarrow> 126 < b mod 16 * 4096 + j + (k::nat)"
proof -
  assume a: "224 < b" "b < 240"
  then have "b mod 16 = b - 224" by (intro mod_nat_eqI) auto
  with a show ?thesis by simp
qed

lemma rune4: "240 < b \<Longrightarrow> b < 245 \<Longrightarrow> 126 < b mod 8 * 262144 + i + j + (k::nat)"
proof -
  assume a: "240 < b" "b < 245"
  then have "b mod 8 = b - 240" by (intro mod_nat_eqI) auto
  with a show ?thesis by simp
qed

lemma rune_tail: "cont_byte lo 191 d \<Longrightarrow> 144 \<le> lo \<Longrightarrow> 16 \<le> byte d mod 64"
proof -
  assume a: "cont_byte lo 191 d" "144 \<le> lo"
  then have "byte d mod 64 = byte d - 128" by (intro mod_nat_eqI) (auto simp: cont_byte_def)
  with a show ?thesis by (auto simp: cont_byte_def)
qed

lemma decode_rune_high:
  assumes "126 < byte c"
  shows "126 < fst (decode_rune (c # s))"
proof -
  have err: "126 < rune_error" by (simp add: rune_error_def)
  consider "byte c < 0xC2" | "0xC2 \<le> byte c" "byte c < 0xE0" | "0xE0 \<le> byte c" "byte c < 0xF0"
    | "0xF0 \<le> byte c" "byte c < 0xF5" | "0xF5 \<le> byte c" by linarith
  then show ?thesis
  proof cases
    case 1
    with assms err show ?thesis by (simp add: Let_def)
  next
    case 2
    with err rune2 [OF 2] show ?thesis by (simp add: Let_def split: list.split)
  next
    case 3
    show ?thesis
    proof (cases "byte c = 224")
      case True
      have "cont_byte 160 191 d \<Longrightarrow> 126 < byte d mod 64 * 64 + k" for d k
        using rune_tail [of 160 d] by simp
      with True err show ?thesis by (simp add: Let_def split: list.split)
    next
      case False
      with 3 have big: "126 < byte c mod 16 * 4096 + j + k" for j k by (intro rune3) simp_all
      with 3 False err show ?thesis by (simp add: Let_def split: list.split)
    qed
  next
    case 4
    show ?thesis
    proof (cases "byte c = 240")
      case True
      have "cont_byte 144 191 d \<Longrightarrow> 126 < byte d mod 64 * 4096 + j + k" for d j k
        using rune_tail [of 144 d] by simp
      with True err show ?thesis by (simp add: Let_def split: list.split)
    next
      case False
      with 4 have big: "126 < byte c mod 8 * 262144 + i + j + k" for i j k by (intro rune4) simp_all
      with 4 False err show ?thesis by (simp add: Let_def split: list.split)
    qed
  next
    case 5
    with err show ?thesis by (simp add: Let_def)
  qed
qed

lemma decode_rune_low: "byte c \<le> 126 \<Longrightarrow> decode_rune (c # s) = (byte c, 1)"
  by simp

lemma printable_bytes: "printable_runes s \<longleftrightarrow> (\<forall>c\<in>set s. 33 \<le> byte c \<and> byte c \<le> 126)"
proof (induction s)
  case Nil
  show ?case by (subst printable_runes.simps) simp
next
  case (Cons c s)
  show ?case
  proof (cases "byte c \<le> 126")
    case True
    with Cons show ?thesis by (subst printable_runes.simps) (simp add: decode_rune_low del: decode_rune.simps)
  next
    case False
    with decode_rune_high [of c s] show ?thesis
      by (subst printable_runes.simps) (auto simp: Let_def split: prod.splits simp del: decode_rune.simps)
  qed
qed

lemma cut_back_props:
  assumes "n \<le> length s"
  shows "prefix (cut_back s n) s" and "length (cut_back s n) \<le> n" and "valid_utf8 (cut_back s n)"
    and "\<And>p. prefix p s \<Longrightarrow> valid_utf8 p \<Longrightarrow> length p \<le> n \<Longrightarrow> length p \<le> length (cut_back s n)"
proof -
  show "prefix (cut_back s n) s" by (induction s n rule: cut_back.induct) (auto simp: take_is_prefix)
  show "length (cut_back s n) \<le> n" by (induction s n rule: cut_back.induct) (auto simp: le_SucI)
  show "valid_utf8 (cut_back s n)"
    by (induction s n rule: cut_back.induct) (simp_all add: valid_utf8.simps [of "[]"])
  fix p assume p: "prefix p s" "valid_utf8 p" "length p \<le> n"
  then show "length p \<le> length (cut_back s n)" using assms
  proof (induction s n rule: cut_back.induct)
    case (2 s n)
    show ?case
    proof (cases "length p = Suc n")
      case True
      with 2 have "p = take (Suc n) s" by (auto simp: prefix_def)
      with 2 True show ?thesis by simp
    next
      case False
      with 2 show ?thesis by auto
    qed
  qed simp
qed

section \<open>Properties\<close>

text \<open>A concrete caller for the witnesses: the hash and the redaction are the identity.\<close>

definition demo_env :: idem_env where
  "demo_env = \<lparr>en_sha256 = (\<lambda>s. s), en_redact = (\<lambda>s. s)\<rparr>"

definition demo_opts :: "string \<Rightarrow> execute_options" where
  "demo_opts payload = \<lparr>io_Scope = ''s'', io_ActorScope = ''u'', io_Method = ''post'', io_Route = ''/r'',
     io_IdempotencyKey = ''k1'', io_Payload = Some payload, io_TTL = 0, io_RequireKey = True\<rparr>"

definition demo_fp :: "string \<Rightarrow> string" where
  "demo_fp payload = hex_encode (''POST'' @ [CHR 0x0A] @ ''/r'' @ [CHR 0x0A] @ ''u'' @ [CHR 0x0A] @ payload)"

definition demo_hash :: string where
  "demo_hash = hex_encode ''k1''"

lemma demo_fp_distinct: "demo_fp ''1'' \<noteq> demo_fp ''2''"
  by (simp add: demo_fp_def hex_encode_def hex_digit_def byte_def chr_def)

definition demo_call :: "string \<Rightarrow> int \<Rightarrow> (string + string option) \<Rightarrow> nat exec_call" where
  "demo_call payload now answer = \<lparr>ca_dbnow = now, ca_opts = demo_opts payload, ca_now = now, ca_failNow = now + 1,
     ca_execute = (\<lambda>w. (w + 1, answer))\<rparr>"

definition empty_table :: idem_table where
  "empty_table = \<lparr>it_rows = [], it_nextval = 1\<rparr>"

lemma demo_table: "table_inv empty_table" "table_lookup empty_table a b = None"
  by (simp_all add: empty_table_def table_inv_def table_lookup_def)

lemma demo_key: "NormalizeIdempotencyKey ''k1'' = Inr ''k1''"
proof -
  have "trim_space ''k1'' = ''k1''"
    by (simp add: trim_space_def trim_seqs.simps [of _ "''k1''"] trim_seqs.simps [of _ "''1k''"] space_seqs_def)
  then show ?thesis by (simp add: NormalizeIdempotencyKey_def printable_bytes byte_def)
qed

lemma demo_keyed: "keyed demo_env (demo_opts p) demo_hash (demo_fp p)"
proof -
  have "map upper_char ''post'' = ''POST''" by code_simp
  then show ?thesis
    by (simp add: keyed_def demo_opts_def demo_key demo_env_def HashIdempotencyKey_def demo_fp_def demo_hash_def
        BuildIdempotencyFingerprint_def)
qed

lemma demo_call_keyed: "keyed demo_env (ca_opts (demo_call p now a)) demo_hash (demo_fp p)"
  by (simp add: demo_call_def demo_keyed)

lemma demo_fields [simp]:
  "io_Scope (ca_opts (demo_call p now a)) = ''s''"
  "ca_now (demo_call p now a) = now"
  "ca_failNow (demo_call p now a) = now + 1"
  "ca_execute (demo_call p now a) = (\<lambda>w. (w + 1, a))"
  "ttl_of DefaultIdempotencyConfig (ca_opts (demo_call p n a)) = 86400000000000"
  by (simp_all add: demo_call_def demo_opts_def ttl_of_def DefaultIdempotencyConfig_def second_def)

lemma demo_run:
  assumes "marshalStoredResponse demo_env cfg d = Some body"
  shows "\<exists>t1. perform demo_env cfg (demo_call p now (Inr d)) (empty_table, 0) =
    ((t1, 1), Inr \<lparr>ex_Data = d, ex_Replayed = False\<rparr>)"
  using sql.fresh_call(1) [OF demo_table(1) demo_call_keyed [of p now "Inr d"] demo_table(2),
      of "\<lambda>w::nat. (w + 1, Inr d)" 0 1 d cfg body now now "now + 1"] assms
  by (auto simp: perform_def demo_call_def)

lemma demo_backoff: "ic_FailedRetryBackoff DefaultIdempotencyConfig = 5000000000"
  by (simp add: DefaultIdempotencyConfig_def second_def)



text \<open>C34. While the record of an executed call lives, the same key with another payload is refused as
  a conflict and runs nothing, again whatever happened in between.\<close>

theorem other_payload_refused:
  assumes "table_inv t" and "keyed env (ca_opts c) kh fp"
    and "perform env cfg c (t, w) = ((t1, w1), Inr r)" and "\<not> ex_Replayed r"
    and "\<forall>e\<in>set es. event_time e < ca_now c + ttl_of cfg (ca_opts c)"
    and "keyed env (ca_opts c2) kh fp2" and "fp2 \<noteq> fp" and "io_Scope (ca_opts c2) = io_Scope (ca_opts c)"
  shows "\<exists>t2. perform env cfg c2 (serve env cfg es (t1, w1)) =
    ((t2, snd (serve env cfg es (t1, w1))), Inl ErrKeyConflict)"
proof -
  from perform_success [OF assms(1-4)] obtain x where x: "table_inv t1"
    "table_lookup t1 (io_Scope (ca_opts c)) kh = Some x" "ir_RequestFingerprint x = fp"
    "ir_Status x = IdempotencyStatusSucceeded" "ir_ExpiresAt x = ca_now c + ttl_of cfg (ca_opts c)" by blast
  obtain t2 w2 where s: "serve env cfg es (t1, w1) = (t2, w2)" by fastforce
  with serve_keeps [OF x(1,2,4), of es env cfg w1] assms(5) x(5) have
    t2: "table_inv t2" "table_lookup t2 (io_Scope (ca_opts c2)) kh = Some x" by (simp_all add: assms(8))
  have "ir_RequestFingerprint x \<noteq> fp2" using x(3) assms(7) by simp
  from sql.different_payload_conflicts [OF t2(1) assms(6) t2(2) this, of "ca_dbnow c2" cfg "ca_now c2" "ca_failNow c2"
      "ca_execute c2" w2] s show ?thesis by (auto simp: perform_def)
qed

lemma other_payload_refused_witness:
  "\<exists>t1 t2. perform demo_env DefaultIdempotencyConfig (demo_call ''1'' 0 (Inr (Some ''[1]''))) (empty_table, 0) =
      ((t1, 1), Inr \<lparr>ex_Data = Some ''[1]'', ex_Replayed = False\<rparr>) \<and>
    perform demo_env DefaultIdempotencyConfig (demo_call ''2'' 60 (Inl ''X''))
      (serve demo_env DefaultIdempotencyConfig [Purge 20 500] (t1, 1)) = ((t2, 1), Inl ErrKeyConflict)"
proof -
  have m: "marshalStoredResponse demo_env DefaultIdempotencyConfig (Some ''[1]'') = Some ''[1]''" by code_simp
  from demo_run [OF m] obtain t1 where t1: "perform demo_env DefaultIdempotencyConfig
      (demo_call ''1'' 0 (Inr (Some ''[1]''))) (empty_table, 0) =
    ((t1, 1), Inr \<lparr>ex_Data = Some ''[1]'', ex_Replayed = False\<rparr>)" by blast
  from other_payload_refused [OF demo_table(1) demo_call_keyed t1 _ _ demo_call_keyed [of "''2''" 60 "Inl ''X''"],
      of "[Purge 20 500]"] t1
  show ?thesis using demo_fp_distinct by auto
qed

text \<open>C35. After a failed execution the same call is told to back off, with a hint of at least one
  second, and runs nothing until the backoff has passed; from then on, until the record expires,
  it is executed again.\<close>

theorem failure_backs_off:
  assumes "table_inv t" and "keyed env (ca_opts c) kh fp"
    and "perform env cfg c (t, w) = ((t1, w1), Inl (ErrExec reason))"
    and "keyed env (ca_opts c2) kh fp" and "io_Scope (ca_opts c2) = io_Scope (ca_opts c)"
    and "ca_now c2 < ca_now c + ttl_of cfg (ca_opts c)"
  shows "if ca_now c2 < ca_failNow c + ic_FailedRetryBackoff cfg
    then \<exists>t2 n. 1 \<le> n \<and> perform env cfg c2 (t1, w2) = ((t2, w2), Inl (ErrRetryBackoff (Some n)))
    else snd (fst (perform env cfg c2 (t1, w2))) = fst (ca_execute c2 w2)"
proof -
  from sql.owner_failure [OF assms(1,2) assms(3) [unfolded perform_def]] obtain x where x: "table_inv t1"
    "table_lookup t1 (io_Scope (ca_opts c2)) kh = Some x" "ir_RequestFingerprint x = fp"
    "ir_Status x = IdempotencyStatusFailedRetryable" "ir_ExpiresAt x = ca_now c + ttl_of cfg (ca_opts c)"
    "ir_LockedUntil x = Some (ca_failNow c + ic_FailedRetryBackoff cfg)" unfolding assms(5) by blast
  have live: "ca_now c2 < ir_ExpiresAt x" using assms(6) x(5) by simp
  have run: "snd (fst (runOwned env rp cfg f fn i e (s, v))) = fst (f v)" for rp and f :: "'b executor" and fn i e s v
    by (auto simp: runOwned_def Let_def split: prod.splits sum.splits option.splits)
  note r = sql.retry_failed [OF x(1) assms(4) x(2-4) live x(6), of "ca_dbnow c2" cfg "ca_failNow c2" "ca_execute c2" w2]
  show ?thesis
  proof (cases "ca_now c2 < ca_failNow c + ic_FailedRetryBackoff cfg")
    case True
    with r show ?thesis by (auto simp: perform_def)
  next
    case False
    with r run show ?thesis by (auto simp: perform_def)
  qed
qed

lemma failure_backs_off_witness:
  "\<exists>t1 t2 n. 1 \<le> n \<and>
    perform demo_env DefaultIdempotencyConfig (demo_call ''1'' 0 (Inl ''X'')) (empty_table, 0) =
      ((t1, 1), Inl (ErrExec ''X'')) \<and>
    perform demo_env DefaultIdempotencyConfig (demo_call ''1'' 60 (Inl ''X'')) (t1, 1) =
      ((t2, 1), Inl (ErrRetryBackoff (Some n)))"
proof -
  from sql.fresh_call(2) [OF demo_table(1) demo_call_keyed [of "''1''" 0 "Inl ''X''"] demo_table(2),
      of "\<lambda>w::nat. (w + 1, Inl ''X'')" 0 1 "''X''" 0 DefaultIdempotencyConfig 0 1]
  obtain t1 where t1: "perform demo_env DefaultIdempotencyConfig (demo_call ''1'' 0 (Inl ''X'')) (empty_table, 0) =
      ((t1, 1), Inl (ErrExec ''X''))" by (auto simp: perform_def demo_call_def)
  from failure_backs_off [OF demo_table(1) demo_call_keyed t1 demo_call_keyed [of "''1''" 60 "Inl ''X''"], of 1] t1
  show ?thesis by (auto simp: demo_backoff)
qed

text \<open>An answer longer than \<open>MaxStoredResponseLen\<close> is stored cut off with a note behind it, which
  is no JSON text: the call that executed reports success, but every repetition of it, until the
  record expires, is answered with \<open>ErrIdempotencyStoreUnavail\<close> instead of the replay.\<close>

theorem long_answer_never_replayed:
  assumes "table_inv t" and "keyed env (ca_opts c) kh fp"
    and "perform env cfg c (t, w) = ((t1, w1), Inr r)" and "\<not> ex_Replayed r"
    and "\<forall>e\<in>set es. event_time e < ca_now c + ttl_of cfg (ca_opts c)"
    and "keyed env (ca_opts c2) kh fp" and "io_Scope (ca_opts c2) = io_Scope (ca_opts c)"
    and "ca_now c2 < ca_now c + ttl_of cfg (ca_opts c)"
    and "ex_Data r = Some raw" and "0 < ic_MaxStoredResponseLen cfg"
    and "ic_MaxStoredResponseLen cfg < int (length (en_redact env raw))"
  shows "snd (perform env cfg c2 (serve env cfg es (t1, w1))) = Inl ErrStoreUnavail"
  using replay_after [OF assms(1-8)] long_undecodable [OF _ assms(10,11)] assms(9) by auto

definition short_config :: idempotency_config where
  "short_config = DefaultIdempotencyConfig\<lparr>ic_MaxStoredResponseLen := 4\<rparr>"

lemma long_answer_never_replayed_witness:
  "\<exists>t1. perform demo_env short_config (demo_call ''1'' 0 (Inr (Some ''[1,2]''))) (empty_table, 0) =
      ((t1, 1), Inr \<lparr>ex_Data = Some ''[1,2]'', ex_Replayed = False\<rparr>) \<and>
    snd (perform demo_env short_config (demo_call ''1'' 60 (Inl ''X'')) (t1, 1)) = Inl ErrStoreUnavail"
proof -
  have "\<exists>b. marshalStoredResponse demo_env short_config (Some ''[1,2]'') = Some b"
    by (simp add: marshalStoredResponse_def Let_def)
  then obtain t1 where t1: "perform demo_env short_config (demo_call ''1'' 0 (Inr (Some ''[1,2]''))) (empty_table, 0) =
    ((t1, 1), Inr \<lparr>ex_Data = Some ''[1,2]'', ex_Replayed = False\<rparr>)" using demo_run by blast
  have ttl: "ttl_of short_config (ca_opts (demo_call p n a)) = 86400000000000" for p n a
    by (simp add: demo_call_def demo_opts_def ttl_of_def short_config_def DefaultIdempotencyConfig_def second_def)
  have max: "ic_MaxStoredResponseLen short_config = 4" by (simp add: short_config_def)
  have redact: "en_redact demo_env s = s" for s by (simp add: demo_env_def)
  from long_answer_never_replayed [OF demo_table(1) demo_call_keyed t1 _ _ demo_call_keyed [of "''1''" 60 "Inl ''X''"],
      of "[]" "''[1,2]''"] t1
  show ?thesis by (auto simp: ttl max redact)
qed

text \<open>\<open>NormalizeIdempotencyKey\<close> accepts, after trimming, the empty key and the keys of at most
  128 printable ASCII bytes, and rejects everything else as an invalid key.\<close>

theorem accepted_keys:
  "NormalizeIdempotencyKey raw =
    (let key = trim_space raw in
     if length key \<le> 128 \<and> list_all (\<lambda>c. 33 \<le> byte c \<and> byte c \<le> 126) key then Inr key else Inl ErrKeyInvalid)"
  by (auto simp: NormalizeIdempotencyKey_def Let_def printable_bytes list_all_iff)

text \<open>\<open>truncateUTF8\<close> returns the longest prefix within the limit that is valid UTF-8 when it has
  to cut, and the text itself otherwise.\<close>

theorem truncateUTF8_longest:
  "(if maxBytes \<le> 0 \<or> int (length s) \<le> maxBytes then truncateUTF8 s maxBytes = s
    else prefix (truncateUTF8 s maxBytes) s \<and> int (length (truncateUTF8 s maxBytes)) \<le> maxBytes \<and>
      valid_utf8 (truncateUTF8 s maxBytes) \<and>
      \<not> (\<exists>p. prefix p s \<and> valid_utf8 p \<and> int (length p) \<le> maxBytes \<and>
        length (truncateUTF8 s maxBytes) < length p))"
proof (cases "maxBytes \<le> 0 \<or> int (length s) \<le> maxBytes")
  case False
  then have n: "nat maxBytes \<le> length s" by linarith
  note c = cut_back_props [OF n]
  from False c(2) have "int (length (cut_back s (nat maxBytes))) \<le> maxBytes" by linarith
  moreover have "\<not> length (cut_back s (nat maxBytes)) < length p"
    if "prefix p s" "valid_utf8 p" "int (length p) \<le> maxBytes" for p
  proof -
    from that(3) have "length p \<le> nat maxBytes" by linarith
    with c(4) [OF that(1,2)] show ?thesis by simp
  qed
  ultimately show ?thesis using False c(1,3) by (auto simp: truncateUTF8_def)
qed (simp add: truncateUTF8_def)

end
