(* ===== verification/IdempotencyRace.thy ===== *)
theory IdempotencyRace
  imports IdempotencySafety
begin

text \<open>
  Concurrent calls of \<open>Execute\<close> with one key. Between the statements of one call the statements of
  others run: a call is a program counter, each step of which is one call to the store or one run
  of the executor, and \<open>interleave\<close> lets any call take its next step. A call that runs alone does
  what \<open>Execute\<close> does. As long as no record expires at most one call executes; when it has
  expired two may.
\<close>

section \<open>One call, step by step\<close>

record 'w race_call =
  rc_scope :: string
  rc_hash :: string
  rc_fingerprint :: string
  rc_now :: int
  rc_failNow :: int
  rc_ttl :: int
  rc_execute :: "'w executor"

text \<open>
  Where a call is: before \<open>CreateProcessing\<close>, before the first read, before the reclaim of an expired
  record, before the second read, before the reclaim of a failed record, before it executes, before
  it marks the record, or back with its result.
\<close>

datatype pc = Start | Taken | Expired idempotency_record | Reread | Retry idempotency_record
  | Running int | Ran int "string + string option" | Returned "idem_error + execute_result"

definition rc_lockedUntil :: "idempotency_config \<Rightarrow> 'w race_call \<Rightarrow> int" where
  "rc_lockedUntil cfg c = rc_now c + ic_ProcessingTimeout cfg"

definition rc_expiresAt :: "'w race_call \<Rightarrow> int" where
  "rc_expiresAt c = rc_now c + rc_ttl c"

definition own :: "int \<Rightarrow> pc" where
  "own i = (if i = 0 then Returned (Inl ErrStoreUnavail) else Running i)"

text \<open>The \<open>switch\<close> over the status of the record that was read.\<close>

definition decide :: "'w race_call \<Rightarrow> idempotency_record \<Rightarrow> pc" where
  "decide c x =
     (if ir_Status x = IdempotencyStatusSucceeded then
        (case decodeStoredResponse (ir_ResponseBody x) of
           None \<Rightarrow> Returned (Inl ErrStoreUnavail)
         | Some d \<Rightarrow> Returned (Inr \<lparr>ex_Data = Some d, ex_Replayed = True\<rparr>))
      else if ir_Status x = IdempotencyStatusProcessing then
        Returned (Inl (conflictWithRetryAfter ErrInProgress (ir_LockedUntil x) (rc_now c)))
      else if ir_Status x = IdempotencyStatusFailedRetryable then
        (if \<not> lock_free (rc_now c) x then Returned (Inl (conflictWithRetryAfter ErrRetryBackoff (ir_LockedUntil x) (rc_now c)))
         else Retry x)
      else Returned (Inl ErrKeyConflict))"

fun callStep :: "idem_env \<Rightarrow> idempotency_config \<Rightarrow> 's idempotency_repository \<Rightarrow> 'w race_call \<Rightarrow> pc \<Rightarrow> 's \<times> 'w \<Rightarrow> pc \<times> 's \<times> 'w" where
  "callStep env cfg rp c Start (s, w) =
     (case rp_CreateProcessing rp (newRecord (rc_scope c) (rc_hash c) (rc_fingerprint c) (rc_lockedUntil cfg c) (rc_expiresAt c)) s of
        (s1, None) \<Rightarrow> (Returned (Inl ErrStoreUnavail), s1, w)
      | (s1, Some (owner, record)) \<Rightarrow> (if owner then own (ir_ID record) else Taken, s1, w))"
| "callStep env cfg rp c Taken (s, w) =
     (case rp_GetByScopeAndKeyHash rp (rc_scope c) (rc_hash c) s of
        (s1, Some (Some x)) \<Rightarrow>
          (if ir_RequestFingerprint x \<noteq> rc_fingerprint c then Returned (Inl ErrKeyConflict)
           else if ir_ExpiresAt x > rc_now c then decide c x else Expired x, s1, w)
      | (s1, r) \<Rightarrow> (Returned (Inl ErrStoreUnavail), s1, w))"
| "callStep env cfg rp c (Expired x) (s, w) =
     (case rp_TryReclaim rp (ir_ID x) (ir_Status x) (rc_now c) (rc_lockedUntil cfg c) (rc_expiresAt c) s of
        (s1, None) \<Rightarrow> (Returned (Inl ErrStoreUnavail), s1, w)
      | (s1, Some taken) \<Rightarrow> (if taken then own (ir_ID x) else Reread, s1, w))"
| "callStep env cfg rp c Reread (s, w) =
     (case rp_GetByScopeAndKeyHash rp (rc_scope c) (rc_hash c) s of
        (s1, Some (Some x)) \<Rightarrow>
          (if ir_RequestFingerprint x \<noteq> rc_fingerprint c then Returned (Inl ErrKeyConflict) else decide c x, s1, w)
      | (s1, r) \<Rightarrow> (Returned (Inl ErrStoreUnavail), s1, w))"
| "callStep env cfg rp c (Retry x) (s, w) =
     (case rp_TryReclaim rp (ir_ID x) IdempotencyStatusFailedRetryable (rc_now c) (rc_lockedUntil cfg c) (rc_expiresAt c) s of
        (s1, None) \<Rightarrow> (Returned (Inl ErrStoreUnavail), s1, w)
      | (s1, Some taken) \<Rightarrow>
          (if taken then own (ir_ID x)
           else Returned (Inl (conflictWithRetryAfter ErrInProgress (ir_LockedUntil x) (rc_now c))), s1, w))"
| "callStep env cfg rp c (Running i) (s, w) = (let (w1, res) = rc_execute c w in (Ran i res, s, w1))"
| "callStep env cfg rp c (Ran i (Inl reason)) (s, w) =
     (let (s1, _) = rp_MarkFailedRetryable rp i (if reason = [] then ''EXECUTION_FAILED'' else reason)
            (rc_failNow c + ic_FailedRetryBackoff cfg) (rc_expiresAt c) s
      in (Returned (Inl (ErrExec reason)), s1, w))"
| "callStep env cfg rp c (Ran i (Inr data)) (s, w) =
     (case marshalStoredResponse env cfg data of
        None \<Rightarrow> (Returned (Inl ErrStoreUnavail), s, w)
      | Some storedBody \<Rightarrow>
        (case rp_MarkSucceeded rp i 200 storedBody (rc_expiresAt c) s of
           (s1, None) \<Rightarrow> (Returned (Inl ErrStoreUnavail), s1, w)
         | (s1, Some _) \<Rightarrow> (Returned (Inr \<lparr>ex_Data = data, ex_Replayed = False\<rparr>), s1, w)))"
| "callStep env cfg rp c (Returned r) (s, w) = (Returned r, s, w)"

text \<open>The steps a call has left at most: each step goes forward.\<close>

fun steps_left :: "pc \<Rightarrow> nat" where
  "steps_left Start = 7"
| "steps_left Taken = 6"
| "steps_left (Expired x) = 5"
| "steps_left Reread = 4"
| "steps_left (Retry x) = 3"
| "steps_left (Running i) = 2"
| "steps_left (Ran i r) = 1"
| "steps_left (Returned r) = 0"

lemma own_left [simp]: "2 < n \<Longrightarrow> steps_left (own i) < n"
  by (simp add: own_def)

lemma decide_left [simp]: "3 < n \<Longrightarrow> steps_left (decide c x) < n"
  by (simp add: decide_def split: option.split)

fun result_of :: "pc \<Rightarrow> (idem_error + execute_result) option" where
  "result_of (Returned r) = Some r"
| "result_of p = None"

lemma step_forward:
  assumes "callStep env cfg rp c p sw = (p', sw')" and "result_of p = None"
  shows "steps_left p' < steps_left p"
proof -
  obtain s w where sw: "sw = (s, w)" by (cases sw)
  show ?thesis
  proof (cases p)
    case (Ran i r)
    with assms show ?thesis by (cases r) (auto simp: sw split: prod.splits option.splits)
  qed (use assms in \<open>auto simp: sw split: prod.splits option.splits if_splits\<close>)
qed

section \<open>A call that runs alone\<close>

function alone :: "idem_env \<Rightarrow> idempotency_config \<Rightarrow> 's idempotency_repository \<Rightarrow> 'w race_call \<Rightarrow> pc \<Rightarrow> 's \<times> 'w \<Rightarrow>
    ('s \<times> 'w) \<times> (idem_error + execute_result)" where
  "alone env cfg rp c p sw =
     (case result_of p of Some r \<Rightarrow> (sw, r)
      | None \<Rightarrow> (let (p', sw') = callStep env cfg rp c p sw in alone env cfg rp c p' sw'))"
  by pat_completeness auto

termination alone
proof (relation "measure (\<lambda>(env, cfg, rp, c, p, sw). steps_left p)", goal_cases)
  case (2 env cfg rp c p sw x p' sw')
  then have "callStep env cfg rp c p sw = (p', sw')" by simp
  from step_forward [OF this 2(1)] show ?case by simp
qed simp

declare alone.simps [simp del]

lemma alone_Returned [simp]: "alone env cfg rp c (Returned r) sw = (sw, r)"
  by (subst alone.simps) simp

lemma alone_step:
  "result_of p = None \<Longrightarrow> callStep env cfg rp c p sw = (p', sw') \<Longrightarrow> alone env cfg rp c p sw = alone env cfg rp c p' sw'"
  by (subst alone.simps) simp

text \<open>What \<open>Execute\<close> does with the result of a claim.\<close>

definition go_on :: "idem_env \<Rightarrow> idempotency_config \<Rightarrow> 's idempotency_repository \<Rightarrow> 'w race_call \<Rightarrow> 'w \<Rightarrow> 's \<times> (idem_error + claim) \<Rightarrow>
    ('s \<times> 'w) \<times> (idem_error + execute_result)" where
  "go_on env cfg rp c w r =
     (case r of (s, Inl e) \<Rightarrow> ((s, w), Inl e)
      | (s, Inr (Replay d)) \<Rightarrow> ((s, w), Inr \<lparr>ex_Data = Some d, ex_Replayed = True\<rparr>)
      | (s, Inr (Owned i)) \<Rightarrow> if i = 0 then ((s, w), Inl ErrStoreUnavail)
          else runOwned env rp cfg (rc_execute c) (rc_failNow c) i (rc_expiresAt c) (s, w))"

lemma alone_Running:
  "alone env cfg rp c (Running i) (s, w) = runOwned env rp cfg (rc_execute c) (rc_failNow c) i (rc_expiresAt c) (s, w)"
proof -
  obtain w1 res where x: "rc_execute c w = (w1, res)" by fastforce
  have "alone env cfg rp c (Running i) (s, w) = alone env cfg rp c (Ran i res) (s, w1)"
    by (rule alone_step) (simp_all add: x)
  also have "\<dots> = runOwned env rp cfg (rc_execute c) (rc_failNow c) i (rc_expiresAt c) (s, w)"
    by (subst alone.simps) (cases res; simp add: runOwned_def x Let_def split: option.split prod.split)
  finally show ?thesis .
qed

lemma alone_own: "alone env cfg rp c (own i) (s, w) = go_on env cfg rp c w (s, Inr (Owned i))"
  by (simp add: own_def go_on_def alone_Running)

lemma alone_decide:
  "alone env cfg rp c (decide c x) (s, w) =
     go_on env cfg rp c w (claimByStatus rp x (rc_now c) (rc_lockedUntil cfg c) (rc_expiresAt c) s)"
proof -
  have r: "alone env cfg rp c (Retry x) (s, w) = go_on env cfg rp c w
      (case rp_TryReclaim rp (ir_ID x) IdempotencyStatusFailedRetryable (rc_now c) (rc_lockedUntil cfg c) (rc_expiresAt c) s of
         (s1, None) \<Rightarrow> (s1, Inl ErrStoreUnavail)
       | (s1, Some taken) \<Rightarrow> if \<not> taken then (s1, Inl (conflictWithRetryAfter ErrInProgress (ir_LockedUntil x) (rc_now c)))
           else (s1, Inr (Owned (ir_ID x))))"
    by (subst alone.simps) (simp add: alone_own go_on_def split: prod.split option.split)
  show ?thesis
    by (simp add: decide_def claimByStatus_def r) (simp add: go_on_def split: option.split)
qed

lemma alone_Taken:
  "alone env cfg rp c Taken (s, w) = go_on env cfg rp c w
     (claimExisting rp (rc_scope c) (rc_hash c) (rc_fingerprint c) (rc_now c) (rc_lockedUntil cfg c) (rc_expiresAt c) s)"
proof -
  have r: "alone env cfg rp c Reread (s, w) = go_on env cfg rp c w
      (case rp_GetByScopeAndKeyHash rp (rc_scope c) (rc_hash c) s of
         (s1, None) \<Rightarrow> (s1, Inl ErrStoreUnavail) | (s1, Some None) \<Rightarrow> (s1, Inl ErrStoreUnavail)
       | (s1, Some (Some x)) \<Rightarrow> if ir_RequestFingerprint x \<noteq> rc_fingerprint c then (s1, Inl ErrKeyConflict)
           else claimByStatus rp x (rc_now c) (rc_lockedUntil cfg c) (rc_expiresAt c) s1)" for s
    by (subst alone.simps) (simp add: alone_decide split: prod.split option.split, simp add: go_on_def)
  have x: "alone env cfg rp c (Expired x) (s, w) = go_on env cfg rp c w
      (case rp_TryReclaim rp (ir_ID x) (ir_Status x) (rc_now c) (rc_lockedUntil cfg c) (rc_expiresAt c) s of
         (s1, None) \<Rightarrow> (s1, Inl ErrStoreUnavail)
       | (s1, Some taken) \<Rightarrow> if taken then (s1, Inr (Owned (ir_ID x)))
           else (case rp_GetByScopeAndKeyHash rp (rc_scope c) (rc_hash c) s1 of
               (s1, None) \<Rightarrow> (s1, Inl ErrStoreUnavail) | (s1, Some None) \<Rightarrow> (s1, Inl ErrStoreUnavail)
             | (s1, Some (Some x)) \<Rightarrow> if ir_RequestFingerprint x \<noteq> rc_fingerprint c then (s1, Inl ErrKeyConflict)
                 else claimByStatus rp x (rc_now c) (rc_lockedUntil cfg c) (rc_expiresAt c) s1))" for x s
    by (subst alone.simps) (simp add: alone_own r split: prod.split option.split, simp add: go_on_def)
  show ?thesis
    by (subst alone.simps, simp add: claimExisting_def alone_decide x split: prod.split option.split, simp add: go_on_def)
qed


text \<open>A call of the witnesses at a time.\<close>

definition demo_race :: "int \<Rightarrow> nat race_call" where
  "demo_race now = \<lparr>rc_scope = ''s'', rc_hash = demo_hash, rc_fingerprint = demo_fp ''1'', rc_now = now, rc_failNow = now + 1,
     rc_ttl = 86400000000000, rc_execute = (\<lambda>w. (w + 1, Inr (Some ''[1]'')))\<rparr>"


section \<open>Any number of calls\<close>

text \<open>
  The state of the system: the table, the world of the executors and where each call is. Each step
  sees its own \<open>NOW()\<close> of the database.
\<close>

inductive interleave ::
    "idem_env \<Rightarrow> idempotency_config \<Rightarrow> 'w race_call list \<Rightarrow> (idem_table \<times> 'w) \<times> pc list \<Rightarrow> (idem_table \<times> 'w) \<times> pc list \<Rightarrow> bool"
  for env cfg calls where
  step: "i < length pcs \<Longrightarrow> result_of (pcs ! i) = None \<Longrightarrow>
    callStep env cfg (sql_repository dbnow) (calls ! i) (pcs ! i) sw = (p, sw') \<Longrightarrow>
    interleave env cfg calls (sw, pcs) (sw', pcs[i := p])"

inductive_cases interleaveE: "interleave env cfg calls x y"

definition all_left :: "pc list \<Rightarrow> nat" where
  "all_left pcs = sum_list (map steps_left pcs)"

lemma all_left_update: "i < length pcs \<Longrightarrow> all_left (pcs[i := p]) + steps_left (pcs ! i) = all_left pcs + steps_left p"
  by (induction pcs arbitrary: i) (auto simp: all_left_def split: nat.split)

lemma interleave_forward:
  assumes "interleave env cfg calls x y"
  shows "all_left (snd y) < all_left (snd x) \<and> length (snd y) = length (snd x)"
proof -
  from assms obtain i dbnow sw pcs p sw' where s: "x = (sw, pcs)" "y = (sw', pcs[i := p])" "i < length pcs" "result_of (pcs ! i) = None"
    "callStep env cfg (sql_repository dbnow) (calls ! i) (pcs ! i) sw = (p, sw')"
    by (auto elim: interleaveE)
  from step_forward [OF s(5,4)] all_left_update [OF s(3), of p] show ?thesis by (simp add: s(1,2))
qed


text \<open>The first step of a single call.\<close>

lemma demo_first_step:
  "\<exists>t. interleave demo_env DefaultIdempotencyConfig [demo_race 5] ((empty_table, 0), [Start]) ((t, 0), [Running 1])"
proof -
  obtain t where "callStep demo_env DefaultIdempotencyConfig (sql_repository 5) (demo_race 5) Start (empty_table, 0) = (Running 1, t, 0)"
    by (simp add: sql_repository_def CreateProcessing_def empty_table_def newRecord_def Let_def own_def)
  then show ?thesis
    using interleave.step [of 0 "[Start]" demo_env DefaultIdempotencyConfig 5 "[demo_race 5]" "(empty_table, 0)" "Running 1" "(t, 0)"]
    by auto
qed


section \<open>No record expires: one execution at most\<close>

text \<open>A call that executes or has executed with success.\<close>

fun claims :: "pc \<Rightarrow> bool" where
  "claims (Running i) = True"
| "claims (Ran i r) = True"
| "claims (Returned (Inr r)) = (\<not> ex_Replayed r)"
| "claims p = False"

text \<open>What the place of a call says about the record of the key.\<close>

fun fits :: "idempotency_record option \<Rightarrow> pc \<Rightarrow> bool" where
  "fits m (Expired y) = False"
| "fits m Reread = False"
| "fits m (Retry y) = (case m of None \<Rightarrow> False | Some x \<Rightarrow> ir_ID y = ir_ID x)"
| "fits m (Running i) = (case m of None \<Rightarrow> False | Some x \<Rightarrow> ir_ID x = i \<and> ir_Status x = IdempotencyStatusProcessing)"
| "fits m (Ran i r) = (case m of None \<Rightarrow> False | Some x \<Rightarrow> ir_ID x = i \<and> ir_Status x = IdempotencyStatusProcessing)"
| "fits m (Returned (Inr r)) = (ex_Replayed r \<or> (case m of None \<Rightarrow> False | Some x \<Rightarrow> ir_Status x = IdempotencyStatusSucceeded))"
| "fits m p = True"

text \<open>All clocks of the calls are before \<open>T\<close>, and no record expires before \<open>T\<close>.\<close>

definition kept_until :: "int \<Rightarrow> idempotency_record option \<Rightarrow> bool" where
  "kept_until T m \<longleftrightarrow> (case m of None \<Rightarrow> True | Some x \<Rightarrow> T \<le> ir_ExpiresAt x)"

definition in_time_for :: "int \<Rightarrow> 'w race_call \<Rightarrow> bool" where
  "in_time_for T c \<longleftrightarrow> rc_now c < T \<and> T \<le> rc_expiresAt c"

lemma fits_own [simp]: "fits (Some x) (own (ir_ID x)) \<longleftrightarrow> ir_ID x = 0 \<or> ir_Status x = IdempotencyStatusProcessing"
  by (simp add: own_def)

lemma decide_quiet [simp]: "\<not> claims (decide c x)" "fits (Some x) (decide c x)"
  by (simp_all add: decide_def split: option.split)

lemma own_claims: "claims (own i) \<Longrightarrow> i \<noteq> 0"
  by (simp add: own_def split: if_splits)

text \<open>
  How one step changes the record: a free key is taken, a failed record is taken over, or the one
  call that claims it marks it.
\<close>

definition record_step :: "idempotency_record option \<Rightarrow> bool \<Rightarrow> idempotency_record option \<Rightarrow> bool" where
  "record_step m claiming m' \<longleftrightarrow> m' = m \<or> m = None \<or>
     (\<exists>x x'. m = Some x \<and> m' = Some x' \<and> ir_ID x' = ir_ID x \<and> (claiming \<or> ir_Status x = IdempotencyStatusFailedRetryable))"

lemma others_fit:
  assumes "record_step m (claims p) m'" and "fits m q" and "\<not> (claims p \<and> claims q)"
  shows "fits m' q"
  using assms by (cases q rule: claims.cases) (auto simp: record_step_def split: option.splits)

context idempotency_contract
begin

lemma step_fits:
  assumes inv: "inv s" and key: "rc_scope c = a" "rc_hash c = b" and fit: "fits (lookup s a b) p"
    and kept: "kept_until T (lookup s a b)" and time: "in_time_for T c"
    and step: "callStep env cfg rp c p (s, w) = (p', s', w')"
  shows "inv s' \<and> fits (lookup s' a b) p' \<and> kept_until T (lookup s' a b) \<and>
    record_step (lookup s a b) (claims p) (lookup s' a b) \<and>
    (claims p' \<longrightarrow> claims p \<or> (\<forall>q. fits (lookup s a b) q \<longrightarrow> \<not> claims q))"
proof -
  have at_key: "put m y a b = Some y" if "ir_Scope y = a" "ir_IdempotencyKeyHash y = b" for m y
    using that by (simp add: put_def)
  show ?thesis
  proof (cases p)
    case Start
    let ?r = "newRecord a b (rc_fingerprint c) (rc_lockedUntil cfg c) (rc_expiresAt c)"
    have r: "ir_Scope ?r = a" "ir_IdempotencyKeyHash ?r = b" by (simp_all add: newRecord_def)
    show ?thesis
    proof (cases "lookup s a b")
      case None
      from create_free [OF inv, of ?r] None r obtain s1 i where c: "i \<noteq> 0" "inv s1"
        "rp_CreateProcessing rp ?r s = (s1, Some (True, ?r\<lparr>ir_ID := i, ir_CreatedAt := stamp, ir_UpdatedAt := stamp\<rparr>))"
        "lookup s1 = put (lookup s) (?r\<lparr>ir_ID := i, ir_CreatedAt := stamp, ir_UpdatedAt := stamp,
          ir_ResponseStatus := None, ir_ResponseBody := None, ir_ErrorReason := None\<rparr>)" by auto
      with step Start key have e: "p' = Running i" "s' = s1" by (simp_all add: own_def)
      have n: "fits None q \<Longrightarrow> \<not> claims q" for q by (cases q rule: claims.cases) auto
      have "lookup s1 a b = Some (?r\<lparr>ir_ID := i, ir_CreatedAt := stamp, ir_UpdatedAt := stamp,
          ir_ResponseStatus := None, ir_ResponseBody := None, ir_ErrorReason := None\<rparr>)"
        by (simp add: c(4) at_key newRecord_def)
      with c e None time show ?thesis
        by (simp add: n kept_until_def in_time_for_def record_step_def newRecord_def)
    next
      case (Some x)
      from create_taken [OF inv, of ?r] Some r obtain s1 where "rp_CreateProcessing rp ?r s = (s1, Some (False, ?r))"
        "inv s1" "lookup s1 = lookup s" by auto
      with step Start key kept show ?thesis by (auto simp: record_step_def)
    qed
  next
    case Taken
    show ?thesis
    proof (cases "lookup s a b")
      case None
      with step Taken key inv show ?thesis by (auto simp: get kept_until_def record_step_def)
    next
      case (Some x)
      with kept time have "rc_now c < ir_ExpiresAt x" by (simp add: kept_until_def in_time_for_def)
      with step Taken key inv Some kept show ?thesis by (auto simp: get record_step_def split: if_splits)
    qed
  next
    case (Retry y)
    with fit obtain x where x: "lookup s a b = Some x" "ir_ID y = ir_ID x" by (auto split: option.splits)
    from key_of [OF inv x(1)] have k: "ir_Scope x = a" "ir_IdempotencyKeyHash x = b" "ir_ID x \<noteq> 0" by simp_all
    let ?x = "reclaimed stamp (rc_lockedUntil cfg c) (rc_expiresAt c) x"
    let ?ok = "ir_Status x = IdempotencyStatusFailedRetryable \<and> lock_free (rc_now c) x"
    from reclaim [OF inv x(1), of IdempotencyStatusFailedRetryable "rc_now c" "rc_lockedUntil cfg c" "rc_expiresAt c"]
    obtain s1 where s1: "rp_TryReclaim rp (ir_ID x) IdempotencyStatusFailedRetryable (rc_now c) (rc_lockedUntil cfg c) (rc_expiresAt c) s =
        (s1, Some ?ok)" "inv s1" "lookup s1 = (if ?ok then put (lookup s) ?x else lookup s)" by blast
    have put: "put (lookup s) ?x a b = Some ?x" by (rule at_key) (simp_all add: k)
    show ?thesis
    proof (cases ?ok)
      case True
      have q: "fits (Some x) q \<Longrightarrow> \<not> claims q" for q using True by (cases q rule: claims.cases) (auto simp: status_distinct)
      from step Retry x(2) s1(1) True k(3) have "p' = Running (ir_ID x)" "s' = s1" by (auto simp: own_def)
      with s1(2,3) True put x(1) time q show ?thesis
        by (simp add: kept_until_def in_time_for_def record_step_def)
    next
      case False
      with step Retry x(2) s1 have "\<exists>e. p' = Returned (Inl e)" "s' = s1" "lookup s1 = lookup s" by auto
      with s1(2) kept show ?thesis by (auto simp: record_step_def)
    qed
  next
    case (Running i)
    with step fit inv kept show ?thesis by (auto simp: record_step_def split: prod.splits)
  next
    case (Ran i res)
    with fit obtain x where x: "lookup s a b = Some x" "ir_ID x = i" "ir_Status x = IdempotencyStatusProcessing"
      by (auto split: option.splits)
    from key_of [OF inv x(1)] have k: "ir_Scope x = a" "ir_IdempotencyKeyHash x = b" by simp_all
    have put: "put (lookup s) (failed stamp r l e x) a b = Some (failed stamp r l e x)"
      "put (lookup s) (succeeded stamp st d e x) a b = Some (succeeded stamp st d e x)" for r l e st d
      by (rule at_key; simp add: k)+
    show ?thesis
    proof (cases res)
      case (Inl reason)
      from mark_failed [OF inv x(1), of "if reason = [] then ''EXECUTION_FAILED'' else reason"
          "rc_failNow c + ic_FailedRetryBackoff cfg" "rc_expiresAt c"] x(2)
      obtain s1 where s1: "rp_MarkFailedRetryable rp i (if reason = [] then ''EXECUTION_FAILED'' else reason)
          (rc_failNow c + ic_FailedRetryBackoff cfg) (rc_expiresAt c) s = (s1, Some ())" "inv s1"
        "lookup s1 = put (lookup s) (failed stamp (if reason = [] then ''EXECUTION_FAILED'' else reason)
          (rc_failNow c + ic_FailedRetryBackoff cfg) (rc_expiresAt c) x)" by auto
      from step Ran Inl s1(1) have "p' = Returned (Inl (ErrExec reason))" "s' = s1" by simp_all
      with s1(2,3) put(1) x time Ran show ?thesis
        by (simp add: kept_until_def in_time_for_def record_step_def failed_def)
    next
      case (Inr data)
      show ?thesis
      proof (cases "marshalStoredResponse env cfg data")
        case None
        with step Ran Inr inv kept show ?thesis by (auto simp: record_step_def)
      next
        case (Some body)
        from mark_succeeded [OF inv x(1), of 200 body "rc_expiresAt c"] x(2)
        obtain s1 where s1: "rp_MarkSucceeded rp i 200 body (rc_expiresAt c) s = (s1, Some ())" "inv s1"
          "lookup s1 = put (lookup s) (succeeded stamp 200 body (rc_expiresAt c) x)" by auto
        from step Ran Inr Some s1(1) have "p' = Returned (Inr \<lparr>ex_Data = data, ex_Replayed = False\<rparr>)" "s' = s1" by simp_all
        with s1(2,3) put(2) x time Ran show ?thesis
          by (simp add: kept_until_def in_time_for_def record_step_def succeeded_def)
      qed
    qed
  qed (use step fit inv kept in \<open>auto simp: record_step_def\<close>)
qed

end

text \<open>The invariant of the system, for the key \<open>(a, b)\<close>.\<close>

definition race_inv :: "int \<Rightarrow> string \<Rightarrow> string \<Rightarrow> (idem_table \<times> 'w) \<times> pc list \<Rightarrow> bool" where
  "race_inv T a b x \<longleftrightarrow> table_inv (fst (fst x)) \<and> kept_until T (table_lookup (fst (fst x)) a b) \<and>
     list_all (fits (table_lookup (fst (fst x)) a b)) (snd x) \<and>
     (\<forall>i j. i < length (snd x) \<longrightarrow> j < length (snd x) \<longrightarrow> claims (snd x ! i) \<longrightarrow> claims (snd x ! j) \<longrightarrow> i = j)"

definition race_calls :: "int \<Rightarrow> string \<Rightarrow> string \<Rightarrow> 'w race_call list \<Rightarrow> bool" where
  "race_calls T a b calls \<longleftrightarrow> list_all (\<lambda>c. rc_scope c = a \<and> rc_hash c = b \<and> in_time_for T c) calls"

lemma interleave_inv:
  assumes "race_inv T a b x" and "race_calls T a b calls" and "interleave env cfg calls x y" and "length (snd x) = length calls"
  shows "race_inv T a b y"
proof -
  obtain i dbnow s w pcs p s' w' where x: "x = ((s, w), pcs)" and y: "y = ((s', w'), pcs[i := p])"
    and i: "i < length pcs" and st: "callStep env cfg (sql_repository dbnow) (calls ! i) (pcs ! i) (s, w) = (p, s', w')"
  proof -
    from assms(3) obtain i dbnow sw pcs p sw' where "x = (sw, pcs)" "y = (sw', pcs[i := p])" "i < length pcs"
      "callStep env cfg (sql_repository dbnow) (calls ! i) (pcs ! i) sw = (p, sw')" by (auto elim: interleaveE)
    then show ?thesis by (intro that [of "fst sw" "snd sw" pcs "fst sw'" "snd sw'" i p dbnow]) simp_all
  qed
  let ?m = "table_lookup s a b" and ?m' = "table_lookup s' a b"
  have c: "rc_scope (calls ! i) = a" "rc_hash (calls ! i) = b" "in_time_for T (calls ! i)"
    using assms(2,4) i by (simp_all add: race_calls_def list_all_length x)
  from assms(1) have inv: "table_inv s" "kept_until T ?m" "list_all (fits ?m) pcs"
    and uniq: "\<And>j k. j < length pcs \<Longrightarrow> k < length pcs \<Longrightarrow> claims (pcs ! j) \<Longrightarrow> claims (pcs ! k) \<Longrightarrow> j = k"
    by (simp_all add: race_inv_def x)
  from inv(3) i have fi: "fits ?m (pcs ! i)" by (simp add: list_all_length)
  from sql.step_fits [OF inv(1) c(1,2) fi inv(2) c(3) st]
  have s: "table_inv s'" "fits ?m' p" "kept_until T ?m'" "record_step ?m (claims (pcs ! i)) ?m'"
    and cl: "claims p \<Longrightarrow> claims (pcs ! i) \<or> (\<forall>q. fits ?m q \<longrightarrow> \<not> claims q)" by blast+
  have "fits ?m' (pcs[i := p] ! j)" if "j < length pcs" for j
  proof (cases "j = i")
    case False
    have "fits ?m (pcs ! j)" using inv(3) that by (simp add: list_all_length)
    with others_fit [OF s(4) this] uniq [OF i that] False show ?thesis by auto
  qed (use s(2) that in simp)
  moreover have "j = k" if "j < length pcs" "k < length pcs" "claims (pcs[i := p] ! j)" "claims (pcs[i := p] ! k)" for j k
  proof -
    have n: "\<not> claims (pcs ! l)" if "\<forall>q. fits ?m q \<longrightarrow> \<not> claims q" "l < length pcs" for l
      using that inv(3) by (simp add: list_all_length)
    show ?thesis
    proof (cases "\<forall>q. fits ?m q \<longrightarrow> \<not> claims q")
      case True
      with n [OF True] that i have "j = i" "k = i" by (metis nth_list_update_neq)+
      then show ?thesis by simp
    next
      case False
      have "claims (pcs ! l)" if "claims (pcs[i := p] ! l)" for l
        using that cl False i by (cases "l = i") auto
      with that show ?thesis by (blast intro: uniq)
    qed
  qed
  ultimately show ?thesis using s(1,3) by (simp add: race_inv_def y list_all_length)
qed

lemma reachable_inv:
  assumes "((interleave env cfg calls)\<^sup>*\<^sup>*) x y" and "race_inv T a b x" and "race_calls T a b calls" and "length (snd x) = length calls"
  shows "race_inv T a b y \<and> length (snd y) = length calls"
  using assms(1)
proof (induction rule: rtranclp_induct)
  case (step y z)
  then show ?case using interleave_inv [of T a b y calls env cfg z] interleave_forward [of env cfg calls y z] assms(3) by simp
qed (simp add: assms)

text \<open>
  C27. As long as no record expires at most one of any number of concurrent calls with one key
  executes or has executed with success, in every order of their statements: the others wait, are
  refused, or get its answer.
\<close>

theorem one_execution_per_key:
  assumes "race_calls T a b calls" and "table_inv t" and "kept_until T (table_lookup t a b)"
    and "((interleave env cfg calls)\<^sup>*\<^sup>*) ((t, w), replicate (length calls) Start) (sw, pcs)"
  shows "card {i. i < length pcs \<and> claims (pcs ! i)} \<le> 1"
proof -
  have "race_inv T a b ((t, w), replicate (length calls) Start)"
    using assms(2,3) by (simp add: race_inv_def list_all_length)
  from reachable_inv [OF assms(4) this assms(1)] have r: "race_inv T a b (sw, pcs)" by simp
  show ?thesis
  proof (cases "\<exists>i. i < length pcs \<and> claims (pcs ! i)")
    case True
    then obtain i where i: "i < length pcs" "claims (pcs ! i)" by blast
    with r have "{i. i < length pcs \<and> claims (pcs ! i)} = {i}" unfolding race_inv_def snd_conv by blast
    then show ?thesis by simp
  next
    case False
    then have e: "{i. i < length pcs \<and> claims (pcs ! i)} = {}" by blast
    show ?thesis unfolding e by simp
  qed
qed

lemma one_execution_per_key_witness:
  "\<exists>sw pcs. ((interleave demo_env DefaultIdempotencyConfig [demo_race 5])\<^sup>*\<^sup>*) ((empty_table, 0), [Start]) (sw, pcs) \<and>
     pcs = [Running 1] \<and> card {i. i < length pcs \<and> claims (pcs ! i)} \<le> 1"
proof -
  from demo_first_step obtain t where
    r: "((interleave demo_env DefaultIdempotencyConfig [demo_race 5])\<^sup>*\<^sup>*) ((empty_table, 0), [Start]) ((t, 0), [Running 1])"
    by blast
  have "race_calls 10 ''s'' demo_hash [demo_race 5]"
    by (simp add: race_calls_def demo_race_def in_time_for_def rc_expiresAt_def)
  from one_execution_per_key [OF this demo_table(1), of demo_env DefaultIdempotencyConfig 0 "(t, 0)" "[Running 1]"] r demo_table(2)
  have "card {i. i < length [Running 1] \<and> claims ([Running 1] ! i)} \<le> 1" by (simp add: kept_until_def)
  with r show ?thesis by blast
qed

section \<open>An expired record\<close>

text \<open>
  C30. A succeeded record that has expired but is not purged yet may be run twice: two calls read it,
  the first takes it over, executes and stores its answer, and the second, whose statement looks
  for the id, the status it read and no lock, takes it over again and executes too.
\<close>

theorem expired_record_runs_twice:
  fixes c d :: "'w race_call"
  assumes "table_inv t" and "table_lookup t a b = Some x" and "ir_Status x = IdempotencyStatusSucceeded" and "ir_LockedUntil x = None"
    and "rc_scope c = a" "rc_hash c = b" "rc_fingerprint c = ir_RequestFingerprint x" "ir_ExpiresAt x \<le> rc_now c"
    and "rc_scope d = a" "rc_hash d = b" "rc_fingerprint d = ir_RequestFingerprint x" "ir_ExpiresAt x \<le> rc_now d"
    and "rc_execute c w = (w1, Inr m)" "marshalStoredResponse env cfg m = Some body"
    and "rc_execute d w1 = (w2, Inr n)" "marshalStoredResponse env cfg n = Some body'"
  shows "\<exists>t'. ((interleave env cfg [c, d])\<^sup>*\<^sup>*) ((t, w), [Start, Start])
    ((t', w2), [Returned (Inr \<lparr>ex_Data = m, ex_Replayed = False\<rparr>), Returned (Inr \<lparr>ex_Data = n, ex_Replayed = False\<rparr>)])"
proof -
  let ?rp = "sql_repository 0" and ?R = "(interleave env cfg [c, d])\<^sup>*\<^sup>*"
  let ?new = "\<lambda>c. newRecord (rc_scope c) (rc_hash c) (rc_fingerprint c) (rc_lockedUntil cfg c) (rc_expiresAt c)"
  have first: "?R ((s, v), [p, q]) ((s', v'), [p', q])"
    if "callStep env cfg ?rp c p (s, v) = (p', s', v')" "result_of p = None" for s v p q s' v' p'
    using interleave.step [of 0 "[p, q]" env cfg 0 "[c, d]" "(s, v)" p' "(s', v')"] that
    by (intro r_into_rtranclp) simp
  have second: "?R ((s, v), [p, q]) ((s', v'), [p, q'])"
    if "callStep env cfg ?rp d q (s, v) = (q', s', v')" "result_of q = None" for s v p q s' v' q'
    using interleave.step [of 1 "[p, q]" env cfg 0 "[c, d]" "(s, v)" q' "(s', v')"] that
    by (intro r_into_rtranclp) simp
  have k: "ir_Scope x = a" "ir_IdempotencyKeyHash x = b" "ir_ID x \<noteq> 0" using sql.key_of [OF assms(1,2)] by simp_all
  from sql.create_taken [OF assms(1), of "?new c" 0] assms(2,5,6) obtain t1 where
    t1: "rp_CreateProcessing ?rp (?new c) t = (t1, Some (False, ?new c))" "table_inv t1" "table_lookup t1 = table_lookup t"
    by (auto simp: newRecord_def)
  from sql.create_taken [OF t1(2), of "?new d" 0] assms(2,9,10) t1(3) obtain t2 where
    t2: "rp_CreateProcessing ?rp (?new d) t1 = (t2, Some (False, ?new d))" "table_inv t2" "table_lookup t2 = table_lookup t"
    by (auto simp: newRecord_def)
  have x2: "table_lookup t2 a b = Some x" using t2(3) assms(2) by simp
  let ?x3 = "reclaimed 0 (rc_lockedUntil cfg c) (rc_expiresAt c) x"
  from sql.reclaim [OF t2(2) x2, of 0 IdempotencyStatusSucceeded "rc_now c" "rc_lockedUntil cfg c" "rc_expiresAt c"] assms(3,4) obtain t3 where
    t3: "rp_TryReclaim ?rp (ir_ID x) IdempotencyStatusSucceeded (rc_now c) (rc_lockedUntil cfg c) (rc_expiresAt c) t2 = (t3, Some True)"
      "table_inv t3" "table_lookup t3 = put (table_lookup t2) ?x3"
    by (auto simp: lock_free_def)
  have x3: "table_lookup t3 a b = Some ?x3" using k by (simp add: t3(3) put_def)
  let ?x4 = "succeeded 0 200 body (rc_expiresAt c) ?x3"
  from sql.mark_succeeded [OF t3(2) x3, of 0 200 body "rc_expiresAt c"] obtain t4 where
    t4: "rp_MarkSucceeded ?rp (ir_ID x) 200 body (rc_expiresAt c) t3 = (t4, Some ())" "table_inv t4" "table_lookup t4 = put (table_lookup t3) ?x4"
    by auto
  have x4: "table_lookup t4 a b = Some ?x4" using k by (simp add: t4(3) put_def)
  have i4: "ir_ID ?x4 = ir_ID x" "ir_LockedUntil ?x4 = None" by (simp_all add: succeeded_def)
  let ?x5 = "reclaimed 0 (rc_lockedUntil cfg d) (rc_expiresAt d) ?x4"
  from sql.reclaim [OF t4(2) x4, of 0 IdempotencyStatusSucceeded "rc_now d" "rc_lockedUntil cfg d" "rc_expiresAt d"] i4 obtain t5 where
    t5: "rp_TryReclaim ?rp (ir_ID x) IdempotencyStatusSucceeded (rc_now d) (rc_lockedUntil cfg d) (rc_expiresAt d) t4 = (t5, Some True)"
      "table_inv t5" "table_lookup t5 = put (table_lookup t4) ?x5"
    by (auto simp: lock_free_def)
  have x5: "table_lookup t5 a b = Some ?x5" using k by (simp add: t5(3) put_def)
  from sql.mark_succeeded [OF t5(2) x5, of 0 200 body' "rc_expiresAt d"] i4(1) obtain t6 where
    t6: "rp_MarkSucceeded ?rp (ir_ID x) 200 body' (rc_expiresAt d) t5 = (t6, Some ())" by auto
  note x2' = x2 [folded assms(5,6)] x2 [folded assms(9,10)]
  have "?R ((t, w), [Start, Start]) ((t1, w), [Taken, Start])" by (rule first) (simp_all add: t1(1))
  also have "?R ((t1, w), [Taken, Start]) ((t2, w), [Taken, Taken])" by (rule second) (simp_all add: t2(1))
  also have "?R ((t2, w), [Taken, Taken]) ((t2, w), [Expired x, Taken])"
    by (rule first) (use assms(7,8) in \<open>simp_all add: sql.get x2'\<close>)
  also have "?R ((t2, w), [Expired x, Taken]) ((t2, w), [Expired x, Expired x])"
    by (rule second) (use assms(11,12) in \<open>simp_all add: sql.get x2'\<close>)
  also have "?R ((t2, w), [Expired x, Expired x]) ((t3, w), [Running (ir_ID x), Expired x])"
    by (rule first) (simp_all add: assms(3) t3(1) own_def k)
  also have "?R ((t3, w), [Running (ir_ID x), Expired x]) ((t3, w1), [Ran (ir_ID x) (Inr m), Expired x])"
    by (rule first) (simp_all add: assms(13))
  also have "?R ((t3, w1), [Ran (ir_ID x) (Inr m), Expired x]) ((t4, w1), [Returned (Inr \<lparr>ex_Data = m, ex_Replayed = False\<rparr>), Expired x])"
    by (rule first) (simp_all add: assms(14) t4(1))
  also have "?R ((t4, w1), [Returned (Inr \<lparr>ex_Data = m, ex_Replayed = False\<rparr>), Expired x])
      ((t5, w1), [Returned (Inr \<lparr>ex_Data = m, ex_Replayed = False\<rparr>), Running (ir_ID x)])"
    by (rule second) (simp_all add: assms(3) t5(1) own_def k)
  also have "?R ((t5, w1), [Returned (Inr \<lparr>ex_Data = m, ex_Replayed = False\<rparr>), Running (ir_ID x)])
      ((t5, w2), [Returned (Inr \<lparr>ex_Data = m, ex_Replayed = False\<rparr>), Ran (ir_ID x) (Inr n)])"
    by (rule second) (simp_all add: assms(15))
  also have "?R ((t5, w2), [Returned (Inr \<lparr>ex_Data = m, ex_Replayed = False\<rparr>), Ran (ir_ID x) (Inr n)])
      ((t6, w2), [Returned (Inr \<lparr>ex_Data = m, ex_Replayed = False\<rparr>), Returned (Inr \<lparr>ex_Data = n, ex_Replayed = False\<rparr>)])"
    by (rule second) (simp_all add: assms(16) t6)
  finally show ?thesis by blast
qed

text \<open>The record of a call that succeeded, an hour after it has expired.\<close>

definition old_record :: idempotency_record where
  "old_record = \<lparr>ir_ID = 1, ir_Scope = ''s'', ir_IdempotencyKeyHash = demo_hash, ir_RequestFingerprint = demo_fp ''1'',
     ir_Status = IdempotencyStatusSucceeded, ir_ResponseStatus = Some 200, ir_ResponseBody = Some ''[1]'', ir_ErrorReason = None,
     ir_LockedUntil = None, ir_ExpiresAt = 1000, ir_CreatedAt = 0, ir_UpdatedAt = 0\<rparr>"

lemma expired_record_runs_twice_witness:
  "\<exists>t'. ((interleave demo_env DefaultIdempotencyConfig [demo_race 3600000001000, demo_race 3600000001001])\<^sup>*\<^sup>*)
     ((\<lparr>it_rows = [old_record], it_nextval = 2\<rparr>, 0), [Start, Start])
     ((t', 2), [Returned (Inr \<lparr>ex_Data = Some ''[1]'', ex_Replayed = False\<rparr>), Returned (Inr \<lparr>ex_Data = Some ''[1]'', ex_Replayed = False\<rparr>)])"
proof -
  have m: "marshalStoredResponse demo_env DefaultIdempotencyConfig (Some ''[1]'') = Some ''[1]''" by code_simp
  have t: "table_inv \<lparr>it_rows = [old_record], it_nextval = 2\<rparr>"
    "table_lookup \<lparr>it_rows = [old_record], it_nextval = 2\<rparr> ''s'' demo_hash = Some old_record"
    by (simp_all add: table_inv_def table_lookup_def has_key_def old_record_def)
  show ?thesis
    by (rule expired_record_runs_twice [OF t _ _ _ _ _ _ _ _ _ _ _ m _ m, where ?w1.0 = 1])
      (simp_all add: old_record_def demo_race_def)
qed

end
