(* ===== verification/SystemLock.thy ===== *)
theory SystemLock
  imports Idempotency
begin

text \<open>
  The global lock for system operations (update, rollback, restart) of
  \<open>service/system_operation_lock_service.go\<close>: a lease on one record of the idempotency store, taken by
  \<open>Acquire\<close>, renewed by the goroutine of \<open>renewLoop\<close> and given back by \<open>Release\<close>. \<open>renewTick\<close> is one
  tick of the loop, run to its end; it returns whether the loop goes on. A nil receiver is not
  modelled; a store that is nil is \<open>None\<close>. Stopping the goroutine is the caller's choice not to run
  further ticks.
\<close>

definition systemOperationLockScope :: string where
  "systemOperationLockScope = ''admin.system.operations.global_lock''"

definition systemOperationLockKey :: string where
  "systemOperationLockKey = ''global-system-operation-lock''"

record system_operation_lock =
  sl_recordID :: int
  sl_operationID :: string

record lock_service =
  ls_lease :: int
  ls_renewInterval :: int
  ls_ttl :: int

datatype lock_error =
    LockStoreUnavail
  | LockOperationIDRequired
  | LockBusy "string option" "int option"

definition NewSystemOperationLockService :: "idempotency_config \<Rightarrow> lock_service" where
  "NewSystemOperationLockService cfg =
     (let lease = (if ic_ProcessingTimeout cfg \<le> 0 then 30 * second else ic_ProcessingTimeout cfg);
          renewInterval = (if lease div 3 < second then second else lease div 3);
          ttl = (if ic_SystemOperationTTL cfg \<le> 0 then 3600 * second else ic_SystemOperationTTL cfg)
      in \<lparr>ls_lease = lease, ls_renewInterval = renewInterval, ls_ttl = ttl\<rparr>)"

definition busyError :: "string \<Rightarrow> int option \<Rightarrow> int \<Rightarrow> lock_error" where
  "busyError operationID lockedUntil now =
     LockBusy (if operationID = [] then None else Some operationID)
       (case lockedUntil of None \<Rightarrow> None
        | Some l \<Rightarrow> (let sec = (l - now) div second in Some (if sec \<le> 0 then 1 else sec)))"

text \<open>The branch of \<open>Acquire\<close> for a record that exists already.\<close>

definition takeOver :: "'s idempotency_repository \<Rightarrow> string \<Rightarrow> int \<Rightarrow> int \<Rightarrow> int \<Rightarrow> 's \<Rightarrow> 's \<times> (lock_error + int)" where
  "takeOver rp keyHash now lockedUntil expiresAt s =
     (case rp_GetByScopeAndKeyHash rp systemOperationLockScope keyHash s of
        (s1, None) \<Rightarrow> (s1, Inl LockStoreUnavail)
      | (s1, Some None) \<Rightarrow> (s1, Inl LockStoreUnavail)
      | (s1, Some (Some existing)) \<Rightarrow>
          if ir_Status existing = IdempotencyStatusProcessing \<and> \<not> lock_free now existing then
            (s1, Inl (busyError (ir_RequestFingerprint existing) (ir_LockedUntil existing) now))
          else (case rp_TryReclaim rp (ir_ID existing) (ir_Status existing) now lockedUntil expiresAt s1 of
                  (s2, None) \<Rightarrow> (s2, Inl LockStoreUnavail)
                | (s2, Some taken) \<Rightarrow>
                    if taken then (s2, Inr (ir_ID existing))
                    else (case rp_GetByScopeAndKeyHash rp systemOperationLockScope keyHash s2 of
                            (s3, Some (Some latest)) \<Rightarrow>
                              (s3, Inl (busyError (ir_RequestFingerprint latest) (ir_LockedUntil latest) now))
                          | (s3, _) \<Rightarrow> (s3, Inl (LockBusy None None)))))"

definition Acquire :: "idem_env \<Rightarrow> 's idempotency_repository option \<Rightarrow> lock_service \<Rightarrow> string \<Rightarrow> int \<Rightarrow> 's \<Rightarrow>
    's \<times> (lock_error + system_operation_lock)" where
  "Acquire env repo svc operationID now s =
     (case repo of
        None \<Rightarrow> (s, Inl LockStoreUnavail)
      | Some rp \<Rightarrow>
          if operationID = [] then (s, Inl LockOperationIDRequired)
          else (let expiresAt = now + ls_ttl svc; lockedUntil = now + ls_lease svc;
                    keyHash = HashIdempotencyKey env systemOperationLockKey
                in case rp_CreateProcessing rp
                          (newRecord systemOperationLockScope keyHash operationID lockedUntil expiresAt) s of
                     (s1, None) \<Rightarrow> (s1, Inl LockStoreUnavail)
                   | (s1, Some (owner, record)) \<Rightarrow>
                       (case (if owner then (s1, Inr (ir_ID record))
                              else takeOver rp keyHash now lockedUntil expiresAt s1) of
                          (s2, Inl e) \<Rightarrow> (s2, Inl e)
                        | (s2, Inr i) \<Rightarrow>
                            if i = 0 then (s2, Inl LockStoreUnavail)
                            else (s2, Inr \<lparr>sl_recordID = i, sl_operationID = operationID\<rparr>))))"

definition released_body :: "string \<Rightarrow> string" where
  "released_body operationID =
     (let q = [CHR 0x22]
      in ''{'' @ q @ ''operation_id'' @ q @ '':'' @ q @ operationID @ q @ '','' @ q @ ''released'' @ q @ '':true}'')"

text \<open>\<open>now1\<close> and \<open>now2\<close> are the two readings of the clock.\<close>

definition Release :: "'s idempotency_repository option \<Rightarrow> lock_service \<Rightarrow> system_operation_lock option \<Rightarrow> bool \<Rightarrow>
    string \<Rightarrow> int \<Rightarrow> int \<Rightarrow> 's \<Rightarrow> 's \<times> unit option" where
  "Release repo svc lock success failureReason now1 now2 s =
     (case (repo, lock) of
        (Some rp, Some l) \<Rightarrow>
          (let expiresAt = now1 + ls_ttl svc in
           if success then
             rp_MarkSucceeded rp (sl_recordID l) 200 (released_body (sl_operationID l)) expiresAt s
           else (let reason = (if failureReason = [] then ''SYSTEM_OPERATION_FAILED'' else failureReason)
                 in rp_MarkFailedRetryable rp (sl_recordID l) reason now2 expiresAt s))
      | _ \<Rightarrow> (s, Some ()))"

definition renewTick :: "'s idempotency_repository \<Rightarrow> lock_service \<Rightarrow> system_operation_lock \<Rightarrow> int \<Rightarrow> 's \<Rightarrow> 's \<times> bool" where
  "renewTick rp svc lock now s =
     (case rp_ExtendProcessingLock rp (sl_recordID lock) (sl_operationID lock) (now + ls_lease svc)
             (now + ls_ttl svc) s of
        (s1, None) \<Rightarrow> (s1, True)
      | (s1, Some ok) \<Rightarrow> (s1, ok))"

definition lock_hash :: "idem_env \<Rightarrow> string" where
  "lock_hash env = HashIdempotencyKey env systemOperationLockKey"

section \<open>The lock over a store that keeps its contract\<close>

context lease_contract
begin

definition lock_record :: "idem_env \<Rightarrow> 's \<Rightarrow> idempotency_record option" where
  "lock_record env s = lookup s systemOperationLockScope (lock_hash env)"

text \<open>The lock is held until \<open>l\<close> under the record \<open>i\<close> with the operation \<open>fp\<close> noted in it.\<close>

definition held :: "idem_env \<Rightarrow> 's \<Rightarrow> int \<Rightarrow> string \<Rightarrow> int \<Rightarrow> bool" where
  "held env s i fp l \<longleftrightarrow> inv s \<and> (\<exists>x. lock_record env s = Some x \<and> ir_ID x = i \<and> i \<noteq> 0 \<and>
     ir_RequestFingerprint x = fp \<and> ir_Status x = IdempotencyStatusProcessing \<and> ir_LockedUntil x = Some l)"

lemma acquire_free:
  assumes "inv s" and "lock_record env s = None" and "opid \<noteq> []"
  shows "\<exists>s' i. Acquire env (Some rp) svc opid now s = (s', Inr \<lparr>sl_recordID = i, sl_operationID = opid\<rparr>) \<and>
    held env s' i opid (now + ls_lease svc)"
proof -
  let ?r = "newRecord systemOperationLockScope (lock_hash env) opid (now + ls_lease svc) (now + ls_ttl svc)"
  from create_free [OF assms(1), of ?r] assms(2) obtain s' i where c:
    "rp_CreateProcessing rp ?r s = (s', Some (True, ?r\<lparr>ir_ID := i, ir_CreatedAt := stamp, ir_UpdatedAt := stamp\<rparr>))"
    "i \<noteq> 0" "inv s'" "lookup s' = put (lookup s) (?r\<lparr>ir_ID := i, ir_CreatedAt := stamp, ir_UpdatedAt := stamp,
      ir_ResponseStatus := None, ir_ResponseBody := None, ir_ErrorReason := None\<rparr>)"
    by (auto simp: newRecord_def lock_record_def)
  then show ?thesis using assms(3)
    by (intro exI [of _ s'] exI [of _ i])
      (simp add: Acquire_def newRecord_def lock_hash_def held_def lock_record_def put_def Let_def)
qed

lemma acquire_taken:
  assumes "inv s" and x: "lock_record env s = Some x" and "opid \<noteq> []"
  shows "if ir_Status x = IdempotencyStatusProcessing \<and> \<not> lock_free now x
    then \<exists>s'. inv s' \<and> lookup s' = lookup s \<and> Acquire env (Some rp) svc opid now s =
      (s', Inl (busyError (ir_RequestFingerprint x) (ir_LockedUntil x) now))
    else if lock_free now x
    then \<exists>s'. Acquire env (Some rp) svc opid now s = (s', Inr \<lparr>sl_recordID = ir_ID x, sl_operationID = opid\<rparr>) \<and>
      held env s' (ir_ID x) (ir_RequestFingerprint x) (now + ls_lease svc)
    else \<exists>s'. inv s' \<and> lookup s' = lookup s \<and> Acquire env (Some rp) svc opid now s =
      (s', Inl (busyError (ir_RequestFingerprint x) (ir_LockedUntil x) now))"
proof -
  let ?l = "now + ls_lease svc" and ?e = "now + ls_ttl svc"
  let ?r = "newRecord systemOperationLockScope (lock_hash env) opid ?l ?e"
  from create_taken [OF assms(1), of ?r] x obtain s1 where s1:
    "rp_CreateProcessing rp ?r s = (s1, Some (False, ?r))" "inv s1" "lookup s1 = lookup s"
    by (auto simp: newRecord_def lock_record_def)
  then have x1: "lookup s1 systemOperationLockScope (lock_hash env) = Some x" using x by (simp add: lock_record_def)
  note key = key_of [OF s1(2) x1]
  from reclaim [OF s1(2) x1, of "ir_Status x" now ?l ?e] obtain s2 where s2:
    "rp_TryReclaim rp (ir_ID x) (ir_Status x) now ?l ?e s1 = (s2, Some (lock_free now x))" "inv s2"
    "lookup s2 = (if lock_free now x then put (lookup s1) (reclaimed stamp ?l ?e x) else lookup s1)" by auto
  have acq: "Acquire env (Some rp) svc opid now s = (case takeOver rp (lock_hash env) now ?l ?e s1 of
      (s2, Inl e) \<Rightarrow> (s2, Inl e)
    | (s2, Inr i) \<Rightarrow> if i = 0 then (s2, Inl LockStoreUnavail)
        else (s2, Inr \<lparr>sl_recordID = i, sl_operationID = opid\<rparr>))"
    using s1(1) assms(3) by (simp add: Acquire_def lock_hash_def Let_def)
  show ?thesis
  proof (cases "lock_free now x")
    case True
    with s2 key x1 have "held env s2 (ir_ID x) (ir_RequestFingerprint x) ?l"
      by (simp add: held_def lock_record_def put_def)
    with True s2(1) x1 key show ?thesis by (auto simp: acq takeOver_def get)
  next
    case False
    with s1 s2 x1 key show ?thesis by (auto simp: acq takeOver_def get)
  qed
qed

lemma held_acquire:
  assumes "held env s i fp l" and "opid \<noteq> []"
  shows "now < l \<Longrightarrow> \<exists>s'. Acquire env (Some rp) svc opid now s = (s', Inl (busyError fp (Some l) now)) \<and>
      held env s' i fp l"
    and "l \<le> now \<Longrightarrow> \<exists>s'. Acquire env (Some rp) svc opid now s =
        (s', Inr \<lparr>sl_recordID = i, sl_operationID = opid\<rparr>) \<and> held env s' i fp (now + ls_lease svc)"
proof -
  from assms(1) obtain x where x: "inv s" "lock_record env s = Some x" "ir_ID x = i" "i \<noteq> 0"
    "ir_RequestFingerprint x = fp" "ir_Status x = IdempotencyStatusProcessing" "ir_LockedUntil x = Some l"
    by (auto simp: held_def)
  note a = acquire_taken [OF x(1,2) assms(2), of now svc]
  show "now < l \<Longrightarrow> \<exists>s'. Acquire env (Some rp) svc opid now s = (s', Inl (busyError fp (Some l) now)) \<and>
      held env s' i fp l"
    using a x by (auto simp: lock_free_def held_def lock_record_def)
  show "l \<le> now \<Longrightarrow> \<exists>s'. Acquire env (Some rp) svc opid now s =
        (s', Inr \<lparr>sl_recordID = i, sl_operationID = opid\<rparr>) \<and> held env s' i fp (now + ls_lease svc)"
    using a x by (auto simp: lock_free_def)
qed

text \<open>Whoever acquires holds the lease. The operation noted in the record is the acquirer's only if
  there was no record before.\<close>

lemma acquired_held:
  assumes "inv s" and "Acquire env (Some rp) svc opid now s = (s', Inr lock)"
  shows "sl_operationID lock = opid \<and> opid \<noteq> [] \<and>
    held env s' (sl_recordID lock) (case lock_record env s of None \<Rightarrow> opid | Some x \<Rightarrow> ir_RequestFingerprint x)
      (now + ls_lease svc)"
proof -
  have op: "opid \<noteq> []" using assms(2) by (auto simp: Acquire_def split: option.splits)
  show ?thesis
  proof (cases "lock_record env s")
    case None
    with acquire_free [OF assms(1) None op, of svc now] assms(2) op show ?thesis by auto
  next
    case (Some x)
    with acquire_taken [OF assms(1) Some op, of now svc] assms(2) op show ?thesis
      by (auto split: if_splits)
  qed
qed

lemma held_renew:
  assumes "held env s i fp l"
  shows "if opid = fp
    then \<exists>s'. renewTick rp svc \<lparr>sl_recordID = i, sl_operationID = opid\<rparr> now s = (s', True) \<and>
      held env s' i fp (now + ls_lease svc)
    else \<exists>s'. renewTick rp svc \<lparr>sl_recordID = i, sl_operationID = opid\<rparr> now s = (s', False) \<and> held env s' i fp l"
proof -
  from assms obtain x where x: "inv s" "lookup s systemOperationLockScope (lock_hash env) = Some x" "ir_ID x = i"
    "i \<noteq> 0" "ir_RequestFingerprint x = fp" "ir_Status x = IdempotencyStatusProcessing" "ir_LockedUntil x = Some l"
    by (auto simp: held_def lock_record_def)
  note key = key_of [OF x(1,2)]
  from extend [OF x(1,2), of opid "now + ls_lease svc" "now + ls_ttl svc"] obtain s' where s':
    "rp_ExtendProcessingLock rp (ir_ID x) opid (now + ls_lease svc) (now + ls_ttl svc) s = (s', Some (extendable opid x))"
    "inv s'" "lookup s' = (if extendable opid x
       then put (lookup s) (extended stamp (now + ls_lease svc) (now + ls_ttl svc) x) else lookup s)" by blast
  have e: "extendable opid x \<longleftrightarrow> opid = fp" using x(5,6) by (auto simp: extendable_def)
  show ?thesis
  proof (cases "opid = fp")
    case True
    then have "extendable opid x" using e by simp
    with s' x key True show ?thesis
      by (auto simp: renewTick_def held_def lock_record_def extended_def put_def)
  next
    case False
    then have "\<not> extendable opid x" using e by simp
    with s' x False show ?thesis by (auto simp: renewTick_def held_def lock_record_def)
  qed
qed

lemma held_release:
  assumes "held env s i fp l" and "sl_recordID lock = i"
  shows "\<exists>s' x. Release (Some rp) svc (Some lock) success reason now1 now2 s = (s', Some ()) \<and> inv s' \<and>
    lock_record env s' = Some x \<and> ir_ID x = i \<and> ir_RequestFingerprint x = fp \<and>
    ir_Status x \<noteq> IdempotencyStatusProcessing \<and> (\<forall>now. now2 \<le> now \<longrightarrow> lock_free now x)"
proof -
  from assms(1) obtain x where x: "inv s" "lookup s systemOperationLockScope (lock_hash env) = Some x" "ir_ID x = i"
    "ir_RequestFingerprint x = fp" by (auto simp: held_def lock_record_def)
  note key = key_of [OF x(1,2)]
  show ?thesis
  proof (cases success)
    case True
    let ?b = "released_body (sl_operationID lock)"
    from mark_succeeded [OF x(1,2), of 200 ?b "now1 + ls_ttl svc"] x(3) obtain s' where
      "rp_MarkSucceeded rp i 200 ?b (now1 + ls_ttl svc) s = (s', Some ())" "inv s'"
      "lookup s' = put (lookup s) (succeeded stamp 200 ?b (now1 + ls_ttl svc) x)" by auto
    with True key x(3,4) assms(2) show ?thesis
      by (intro exI [of _ s'] exI [of _ "succeeded stamp 200 ?b (now1 + ls_ttl svc) x"])
        (simp add: Release_def lock_record_def put_def lock_free_def, simp add: succeeded_def)
  next
    case False
    let ?m = "if reason = [] then ''SYSTEM_OPERATION_FAILED'' else reason"
    from mark_failed [OF x(1,2), of ?m now2 "now1 + ls_ttl svc"] x(3) obtain s' where
      "rp_MarkFailedRetryable rp i ?m now2 (now1 + ls_ttl svc) s = (s', Some ())" "inv s'"
      "lookup s' = put (lookup s) (failed stamp ?m now2 (now1 + ls_ttl svc) x)" by auto
    with False key x(3,4) assms(2) show ?thesis
      by (intro exI [of _ s'] exI [of _ "failed stamp ?m now2 (now1 + ls_ttl svc) x"])
        (simp add: Release_def Let_def lock_record_def put_def lock_free_def, simp add: failed_def)
  qed
qed

lemma released_acquire:
  assumes "held env s i fp l" and "sl_recordID lock = i" and "opid \<noteq> []" and "now2 \<le> now"
  shows "\<exists>s' s''. Release (Some rp) svc (Some lock) success reason now1 now2 s = (s', Some ()) \<and>
    Acquire env (Some rp) svc opid now s' = (s'', Inr \<lparr>sl_recordID = i, sl_operationID = opid\<rparr>) \<and>
    held env s'' i fp (now + ls_lease svc)"
proof -
  from held_release [OF assms(1,2), of svc success reason now1 now2] obtain s' x where s':
    "Release (Some rp) svc (Some lock) success reason now1 now2 s = (s', Some ())" "inv s'"
    "lock_record env s' = Some x" "ir_ID x = i" "ir_RequestFingerprint x = fp"
    "ir_Status x \<noteq> IdempotencyStatusProcessing" "lock_free now x" using assms(4) by blast
  with acquire_taken [OF s'(2,3) assms(3), of now svc] show ?thesis by auto
qed

end

section \<open>The lock over the table\<close>

definition acquire_at :: "idem_env \<Rightarrow> lock_service \<Rightarrow> string \<Rightarrow> int \<Rightarrow> idem_table \<Rightarrow>
    idem_table \<times> (lock_error + system_operation_lock)" where
  "acquire_at env svc opid now = Acquire env (Some (sql_repository now)) svc opid now"

definition renew_at :: "lock_service \<Rightarrow> system_operation_lock \<Rightarrow> int \<Rightarrow> idem_table \<Rightarrow> idem_table \<times> bool" where
  "renew_at svc lock now = renewTick (sql_repository now) svc lock now"

text \<open>The loop over the times of its ticks: it ends when a tick says so.\<close>

fun renewLoop :: "lock_service \<Rightarrow> system_operation_lock \<Rightarrow> int list \<Rightarrow> idem_table \<Rightarrow> idem_table" where
  "renewLoop svc lock [] t = t"
| "renewLoop svc lock (now # ts) t =
     (case renew_at svc lock now t of (t1, ok) \<Rightarrow> if ok then renewLoop svc lock ts t1 else t1)"

lemma renewLoop_own:
  assumes "sql_lease.held env t i fp l" and "lock = \<lparr>sl_recordID = i, sl_operationID = fp\<rparr>"
  shows "sql_lease.held env (renewLoop svc lock ts t) i fp (if ts = [] then l else last ts + ls_lease svc)"
  using assms(1)
proof (induction ts arbitrary: t l)
  case (Cons now ts)
  from sql_lease.held_renew [OF Cons.prems, of fp now svc now] obtain t1 where
    "renew_at svc lock now t = (t1, True)" "sql_lease.held env t1 i fp (now + ls_lease svc)"
    by (auto simp: renew_at_def assms(2))
  with Cons.IH [of t1 "now + ls_lease svc"] show ?case by (cases ts) simp_all
qed simp

lemma renewLoop_foreign:
  assumes "sql_lease.held env t i fp l" and "lock = \<lparr>sl_recordID = i, sl_operationID = opid\<rparr>" and "opid \<noteq> fp"
  shows "sql_lease.held env (renewLoop svc lock ts t) i fp l"
proof (cases ts)
  case (Cons now ts')
  with sql_lease.held_renew [OF assms(1), of opid now svc now] assms(2,3) show ?thesis by (auto simp: renew_at_def)
qed (simp add: assms(1))

definition lock_row :: "idem_env \<Rightarrow> idem_table \<Rightarrow> idempotency_record option" where
  "lock_row env t = table_lookup t systemOperationLockScope (lock_hash env)"

lemma lock_row_record: "sql_lease.lock_record env t = lock_row env t"
  by (simp add: sql_lease.lock_record_def lock_row_def)

text \<open>A concrete installation for the witnesses: the hash is the identity, the store is empty.\<close>

definition lk_env :: idem_env where
  "lk_env = \<lparr>en_sha256 = (\<lambda>s. s), en_redact = (\<lambda>s. s)\<rparr>"

definition lk_svc :: lock_service where
  "lk_svc = NewSystemOperationLockService DefaultIdempotencyConfig"

definition lk_table :: idem_table where
  "lk_table = \<lparr>it_rows = [], it_nextval = 1\<rparr>"

lemma lk_table_inv: "table_inv lk_table"
  by (simp add: lk_table_def table_inv_def)

lemma lk_table_row: "lock_row lk_env lk_table = None"
  by (simp add: lk_table_def lock_row_def table_lookup_def)

lemma lk_lease: "ls_lease lk_svc = 30000000000"
  by (simp add: lk_svc_def NewSystemOperationLockService_def DefaultIdempotencyConfig_def second_def)

lemma lk_acquire:
  "\<exists>t1 i. acquire_at lk_env lk_svc ''update'' 0 lk_table =
      (t1, Inr \<lparr>sl_recordID = i, sl_operationID = ''update''\<rparr>) \<and>
    sql_lease.held lk_env t1 i ''update'' 30000000000"
  using sql_lease.acquire_free [OF lk_table_inv, of lk_env "''update''" 0 lk_svc 0] lk_table_row
  by (auto simp: acquire_at_def lock_row_record lk_lease)

lemma lk_released:
  "\<exists>t2 x. table_inv t2 \<and> lock_row lk_env t2 = Some x \<and> ir_RequestFingerprint x = ''update'' \<and>
    (\<exists>t3 lock. acquire_at lk_env lk_svc ''rollback'' 20 t2 = (t3, Inr lock))"
proof -
  from lk_acquire obtain t1 i where t1: "sql_lease.held lk_env t1 i ''update'' 30000000000" by blast
  from sql_lease.held_release [OF t1, of "\<lparr>sl_recordID = i, sl_operationID = ''update''\<rparr>" 10 lk_svc True "[]" 10 10]
  obtain t2 x where t2: "table_inv t2" "lock_row lk_env t2 = Some x" "ir_RequestFingerprint x = ''update''"
    "ir_Status x \<noteq> IdempotencyStatusProcessing" "lock_free 20 x" by (auto simp: lock_row_record)
  with sql_lease.acquire_taken [OF t2(1), where env = lk_env and x = x and opid = "''rollback''" and dbnow = 20
      and svc = lk_svc and now = 20] show ?thesis
    by (auto simp: acquire_at_def lock_row_record)
qed



text \<open>The first operation ever to take the lock keeps it for as long as its loop ticks: no
  \<open>Acquire\<close> succeeds before the lease of the last tick ends.\<close>

theorem first_holder_renews:
  assumes "table_inv t" and "lock_row env t = None" and "acquire_at env svc op1 now t = (t1, Inr lock)"
    and "op2 \<noteq> []" and "now2 < last (now # ts) + ls_lease svc"
  shows "\<exists>t2 holder n. acquire_at env svc op2 now2 (renewLoop svc lock ts t1) = (t2, Inl (LockBusy holder (Some n))) \<and>
    1 \<le> n"
proof -
  from sql_lease.acquired_held [OF assms(1) assms(3) [unfolded acquire_at_def]] assms(2)
  have h: "sl_operationID lock = op1" "sql_lease.held env t1 (sl_recordID lock) op1 (now + ls_lease svc)"
    by (auto simp: lock_row_record)
  then have "lock = \<lparr>sl_recordID = sl_recordID lock, sl_operationID = op1\<rparr>" by (cases lock) simp
  from renewLoop_own [OF h(2) this, of svc ts]
  have "sql_lease.held env (renewLoop svc lock ts t1) (sl_recordID lock) op1 (last (now # ts) + ls_lease svc)"
    by (cases ts) simp_all
  from sql_lease.held_acquire(1) [OF this assms(4,5), of now2 svc]
  show ?thesis by (auto simp: acquire_at_def busyError_def Let_def)
qed

lemma first_holder_renews_witness:
  "\<exists>t1 lock t2 holder n. acquire_at lk_env lk_svc ''update'' 0 lk_table = (t1, Inr lock) \<and>
    acquire_at lk_env lk_svc ''rollback'' 40000000000
      (renewLoop lk_svc lock [10000000000, 20000000000] t1) = (t2, Inl (LockBusy holder (Some n))) \<and> 1 \<le> n"
proof -
  from lk_acquire obtain t1 lock where t1: "acquire_at lk_env lk_svc ''update'' 0 lk_table = (t1, Inr lock)" by blast
  from first_holder_renews [OF lk_table_inv lk_table_row t1, of "''rollback''" 40000000000 "[10000000000, 20000000000]"]
    t1 show ?thesis by (auto simp: lk_lease)
qed

text \<open>The lock is free as soon as its holder releases it, with success or without: the next
  \<open>Acquire\<close> takes it.\<close>

theorem release_frees:
  assumes "table_inv t" and "acquire_at env svc op1 now t = (t1, Inr lock)"
    and "op2 \<noteq> []" and "now3 \<le> now4"
  shows "\<exists>t2 t3 lock2. Release (Some (sql_repository now3)) svc (Some lock) success reason now2 now3 t1 = (t2, Some ()) \<and>
    acquire_at env svc op2 now4 t2 = (t3, Inr lock2)"
proof -
  from sql_lease.acquired_held [OF assms(1) assms(2) [unfolded acquire_at_def]] obtain fp where
    h: "sql_lease.held env t1 (sl_recordID lock) fp (now + ls_lease svc)" by blast
  from sql_lease.held_release [OF h refl, of now3 svc success reason now2 now3] obtain t2 x where t2:
    "Release (Some (sql_repository now3)) svc (Some lock) success reason now2 now3 t1 = (t2, Some ())" "table_inv t2"
    "lock_row env t2 = Some x" "ir_Status x \<noteq> IdempotencyStatusProcessing" "lock_free now4 x"
    using assms(4) by (auto simp: lock_row_record)
  with sql_lease.acquire_taken [OF t2(2) _ assms(3), where env = env and x = x and dbnow = now4 and svc = svc and now = now4] show ?thesis
    by (auto simp: acquire_at_def lock_row_record)
qed

lemma release_frees_witness:
  "\<exists>t1 lock t2 t3 lock2. acquire_at lk_env lk_svc ''update'' 0 lk_table = (t1, Inr lock) \<and>
    Release (Some (sql_repository 10)) lk_svc (Some lock) False [] 10 10 t1 = (t2, Some ()) \<and>
    acquire_at lk_env lk_svc ''rollback'' 20 t2 = (t3, Inr lock2)"
proof -
  from lk_acquire obtain t1 lock where t1: "acquire_at lk_env lk_svc ''update'' 0 lk_table = (t1, Inr lock)" by blast
  from release_frees [OF lk_table_inv t1, of "''rollback''" 10 20 False "[]" 10] t1 show ?thesis by auto
qed

text \<open>C33. An operation that takes over an existing record does not write its own operation into
  \<open>request_fingerprint\<close>, so none of its renewals finds its row: its loop ends at the first tick, the
  lease is never extended, and once it has run out another operation acquires the same lock while
  the first one is still running.\<close>

theorem taken_over_lock_never_renewed:
  assumes "table_inv t" and "lock_row env t = Some x" and "ir_RequestFingerprint x \<noteq> op1"
    and "acquire_at env svc op1 now t = (t1, Inr lock)"
    and "op2 \<noteq> []" and "now + ls_lease svc \<le> now2"
  shows "snd (renew_at svc lock tick t1) = False \<and>
    (\<exists>t2 lock2. acquire_at env svc op2 now2 (renewLoop svc lock ts t1) = (t2, Inr lock2) \<and>
      sl_recordID lock2 = sl_recordID lock)"
proof -
  from sql_lease.acquired_held [OF assms(1) assms(4) [unfolded acquire_at_def]] assms(2)
  have h: "sl_operationID lock = op1"
    "sql_lease.held env t1 (sl_recordID lock) (ir_RequestFingerprint x) (now + ls_lease svc)"
    by (auto simp: lock_row_record)
  then have lock: "lock = \<lparr>sl_recordID = sl_recordID lock, sl_operationID = op1\<rparr>" by (cases lock) simp
  from sql_lease.held_renew [OF h(2), of op1 tick svc tick] assms(3) lock
  have "snd (renew_at svc lock tick t1) = False" by (auto simp: renew_at_def)
  moreover from assms(3) have "op1 \<noteq> ir_RequestFingerprint x" by simp
  from renewLoop_foreign [OF h(2) lock this, of svc ts]
  have "sql_lease.held env (renewLoop svc lock ts t1) (sl_recordID lock) (ir_RequestFingerprint x) (now + ls_lease svc)" .
  from sql_lease.held_acquire(2) [OF this assms(5,6), of now2 svc]
  have "\<exists>t2 lock2. acquire_at env svc op2 now2 (renewLoop svc lock ts t1) = (t2, Inr lock2) \<and>
      sl_recordID lock2 = sl_recordID lock" by (auto simp: acquire_at_def)
  ultimately show ?thesis by blast
qed

lemma taken_over_lock_never_renewed_witness:
  "\<exists>t t1 lock t2 lock2. acquire_at lk_env lk_svc ''rollback'' 20 t = (t1, Inr lock) \<and>
    snd (renew_at lk_svc lock 10000000000 t1) = False \<and>
    acquire_at lk_env lk_svc ''restart'' 40000000000 (renewLoop lk_svc lock [10000000000] t1) = (t2, Inr lock2)"
proof -
  from lk_released obtain t x t1 lock where t: "table_inv t" "lock_row lk_env t = Some x"
    "ir_RequestFingerprint x = ''update''" "acquire_at lk_env lk_svc ''rollback'' 20 t = (t1, Inr lock)" by blast
  from t(3) have fp: "ir_RequestFingerprint x \<noteq> ''rollback''" by simp
  have late: "20 + ls_lease lk_svc \<le> 40000000000" by (simp add: lk_lease)
  from taken_over_lock_never_renewed [OF t(1,2) fp t(4) _ late, of "''restart''" 10000000000 "[10000000000]"] t(4)
  show ?thesis by blast
qed

text \<open>\<open>Release\<close> checks no ownership: a holder whose lease ran out and whose lock was taken over
  frees the lock under the new holder, and a third operation acquires it within the new holder's lease.\<close>

theorem stale_release_breaks_lease:
  assumes "table_inv t" and "acquire_at env svc op1 now t = (t1, Inr lock)"
    and "op2 \<noteq> []" and "now + ls_lease svc \<le> now2" and "op3 \<noteq> []" and "now4 \<le> now5"
  shows "\<exists>t2 lock2 t3 t4 lock3. acquire_at env svc op2 now2 t1 = (t2, Inr lock2) \<and>
    Release (Some (sql_repository now4)) svc (Some lock) success reason now3 now4 t2 = (t3, Some ()) \<and>
    acquire_at env svc op3 now5 t3 = (t4, Inr lock3)"
proof -
  from sql_lease.acquired_held [OF assms(1) assms(2) [unfolded acquire_at_def]] obtain fp where
    "sql_lease.held env t1 (sl_recordID lock) fp (now + ls_lease svc)" by blast
  from sql_lease.held_acquire(2) [OF this assms(3,4), of now2 svc] obtain t2 where t2:
    "acquire_at env svc op2 now2 t1 = (t2, Inr \<lparr>sl_recordID = sl_recordID lock, sl_operationID = op2\<rparr>)"
    "sql_lease.held env t2 (sl_recordID lock) fp (now2 + ls_lease svc)" by (auto simp: acquire_at_def)
  from sql_lease.held_release [OF t2(2) refl, of now4 svc success reason now3 now4] obtain t3 x where t3:
    "Release (Some (sql_repository now4)) svc (Some lock) success reason now3 now4 t2 = (t3, Some ())" "table_inv t3"
    "lock_row env t3 = Some x" "ir_Status x \<noteq> IdempotencyStatusProcessing" "lock_free now5 x"
    using assms(6) by (auto simp: lock_row_record)
  with sql_lease.acquire_taken [OF t3(2) _ assms(5), where env = env and x = x and dbnow = now5 and svc = svc and now = now5] t2(1) show ?thesis
    by (auto simp: acquire_at_def lock_row_record)
qed

lemma stale_release_breaks_lease_witness:
  "\<exists>t1 lock t2 lock2 t3 t4 lock3. acquire_at lk_env lk_svc ''update'' 0 lk_table = (t1, Inr lock) \<and>
    acquire_at lk_env lk_svc ''rollback'' 40000000000 t1 = (t2, Inr lock2) \<and>
    Release (Some (sql_repository 41000000000)) lk_svc (Some lock) True [] 41000000000 41000000000 t2 = (t3, Some ()) \<and>
    acquire_at lk_env lk_svc ''restart'' 42000000000 t3 = (t4, Inr lock3)"
proof -
  from lk_acquire obtain t1 lock where t1: "acquire_at lk_env lk_svc ''update'' 0 lk_table = (t1, Inr lock)" by blast
  from stale_release_breaks_lease [OF lk_table_inv t1, of "''rollback''" 40000000000 "''restart''" 41000000000 42000000000
      True "[]" 41000000000] t1 show ?thesis by (auto simp: lk_lease)
qed

end
