(* ===== verification/Utf8.thy ===== *)
theory Utf8
  imports GoText
begin

text \<open>
  Facts about the UTF-8 functions of \<open>GoText\<close>: decoding and encoding are inverse to each other on
  valid encodings, a character is decoded the same whatever follows it, and valid texts are closed
  under concatenation.
\<close>

lemma chr_byte [simp]: "chr (byte c) = c"
  by (simp add: chr_def byte_def)

lemma byte_chr [simp]: "n < 256 \<Longrightarrow> byte (chr n) = n"
  by (simp add: chr_def byte_def)

lemma byte_less [simp]: "byte c < 256"
  unfolding byte_def by simp

lemma byte_inject [simp]: "byte c = byte d \<longleftrightarrow> c = d"
  by (metis chr_byte)

section \<open>Encoding the bits of a rune\<close>

lemma split_digit: "r = x * b + y \<Longrightarrow> y < (b::nat) \<Longrightarrow> r div b = x \<and> r mod b = y"
  by simp

lemma tag_mod [simp]:
  "x < 32 \<Longrightarrow> (192 + x) mod 32 = (x::nat)"
  "x < 16 \<Longrightarrow> (224 + x) mod 16 = (x::nat)"
  "x < 8 \<Longrightarrow> (240 + x) mod 8 = (x::nat)"
  "y < 64 \<Longrightarrow> (128 + y) mod 64 = (y::nat)"
  using mod_mult_self3 [of 6 32 x] mod_mult_self3 [of 14 16 x] mod_mult_self3 [of 30 8 x]
    mod_mult_self3 [of 2 64 y] by simp_all

lemma enc1: "b < 0x80 \<Longrightarrow> encode_rune b = [chr b]"
  by (simp add: encode_rune_def)

lemma enc2:
  assumes "2 \<le> x" "x < 32" "y < 64"
  shows "encode_rune (x * 64 + y) = [chr (0xC0 + x), chr (0x80 + y)]"
proof -
  from assms have "128 \<le> x * 64 + y" "x * 64 + y < 2048" by linarith+
  moreover from assms have "(x * 64 + y) div 64 = x" "(x * 64 + y) mod 64 = y" by simp_all
  ultimately show ?thesis by (simp add: encode_rune_def)
qed

lemma enc3:
  assumes "x < 16" "y < 64" "z < 64" "x = 0 \<Longrightarrow> 32 \<le> y" "x = 13 \<Longrightarrow> y < 32"
  shows "encode_rune (x * 4096 + y * 64 + z) = [chr (0xE0 + x), chr (0x80 + y), chr (0x80 + z)]"
proof -
  define r where "r = x * 4096 + y * 64 + z"
  have lo: "2048 \<le> r" using assms(4) unfolding r_def by (cases "x = 0") linarith+
  have hi: "r < 65536" using assms(1-3) unfolding r_def by linarith
  have sur: "\<not> (55296 \<le> r \<and> r < 57344)"
  proof -
    consider "x < 13" | "x = 13" | "13 < x" by linarith
    then show ?thesis using assms(2,3,5) unfolding r_def by cases linarith+
  qed
  have "r = x * 4096 + (y * 64 + z)" "y * 64 + z < 4096" using assms(2,3) by (auto simp: r_def)
  then have d1: "r div 4096 = x" by simp
  have "r = (x * 64 + y) * 64 + z" by (simp add: r_def)
  with assms(3) have d2: "r div 64 = x * 64 + y" and d3: "r mod 64 = z" using split_digit by blast+
  from d2 assms(2) have d4: "r div 64 mod 64 = y" by simp
  have c: "\<not> r < 0x80" "\<not> r < 0x800" "\<not> ((0xD800 \<le> r \<and> r < 0xE000) \<or> 0x10FFFF < r)" "r < 0x10000"
    using lo hi sur by simp_all
  show ?thesis unfolding r_def [symmetric] encode_rune_def d1 d3 d4 if_not_P [OF c(1)] if_not_P [OF c(2)]
    if_not_P [OF c(3)] if_P [OF c(4)] by simp
qed

lemma enc4:
  assumes "x < 5" "y < 64" "z < 64" "u < 64" "x = 0 \<Longrightarrow> 16 \<le> y" "x = 4 \<Longrightarrow> y < 16"
  shows "encode_rune (x * 262144 + y * 4096 + z * 64 + u) =
    [chr (0xF0 + x), chr (0x80 + y), chr (0x80 + z), chr (0x80 + u)]"
proof -
  define r where "r = x * 262144 + y * 4096 + z * 64 + u"
  have lo: "65536 \<le> r" using assms(5) unfolding r_def by (cases "x = 0") linarith+
  have hi: "r < 1114112" using assms unfolding r_def by (cases "x = 4") linarith+
  have "r = x * 262144 + (y * 4096 + z * 64 + u)" "y * 4096 + z * 64 + u < 262144"
    using assms(2-4) by (auto simp: r_def)
  then have d1: "r div 262144 = x" by simp
  have "r = (x * 64 + y) * 4096 + (z * 64 + u)" "z * 64 + u < 4096" using assms(3,4) by (auto simp: r_def)
  then have "r div 4096 = x * 64 + y" by simp
  with assms(2) have d2: "r div 4096 mod 64 = y" by simp
  have "r = (x * 4096 + y * 64 + z) * 64 + u" by (simp add: r_def)
  with assms(4) have "r div 64 = x * 4096 + y * 64 + z" and d4: "r mod 64 = u" using split_digit by blast+
  then have "r div 64 = (x * 64 + y) * 64 + z" by simp
  with assms(3) have d3: "r div 64 mod 64 = z" using split_digit by metis
  have c: "\<not> r < 0x80" "\<not> r < 0x800" "\<not> ((0xD800 \<le> r \<and> r < 0xE000) \<or> 0x10FFFF < r)" "\<not> r < 0x10000"
    using lo hi by simp_all
  show ?thesis unfolding r_def [symmetric] encode_rune_def d1 d2 d3 d4 if_not_P [OF c(1)] if_not_P [OF c(2)]
    if_not_P [OF c(3)] if_not_P [OF c(4)] by simp
qed

section \<open>Characters\<close>

lemma decode_rune_cases:
  assumes "s \<noteq> []" and "decode_rune s \<noteq> (rune_error, 1)"
  obtains (one) c t where "s = c # t" "byte c < 0x80"
    | (two) c1 c2 t x y where "s = c1 # c2 # t" "byte c1 = 0xC0 + x" "byte c2 = 0x80 + y"
        "2 \<le> x" "x < 32" "y < 64"
    | (three) c1 c2 c3 t x y z where "s = c1 # c2 # c3 # t"
        "byte c1 = 0xE0 + x" "byte c2 = 0x80 + y" "byte c3 = 0x80 + z"
        "x < 16" "y < 64" "z < 64" "x = 0 \<Longrightarrow> 32 \<le> y" "x = 13 \<Longrightarrow> y < 32"
    | (four) c1 c2 c3 c4 t x y z u where "s = c1 # c2 # c3 # c4 # t"
        "byte c1 = 0xF0 + x" "byte c2 = 0x80 + y" "byte c3 = 0x80 + z" "byte c4 = 0x80 + u"
        "x < 5" "y < 64" "z < 64" "u < 64" "x = 0 \<Longrightarrow> 16 \<le> y" "x = 4 \<Longrightarrow> y < 16"
proof -
  from assms(1) obtain c s' where s: "s = c # s'" by (cases s) auto
  consider "byte c < 0x80" | "0x80 \<le> byte c" "byte c < 0xC2" | "0xC2 \<le> byte c" "byte c < 0xE0"
    | "0xE0 \<le> byte c" "byte c < 0xF0" | "0xF0 \<le> byte c" "byte c < 0xF5" | "0xF5 \<le> byte c" by linarith
  then show ?thesis
  proof cases
    case 1
    with s one show ?thesis by blast
  next
    case 2
    with assms s show ?thesis by (simp add: Let_def)
  next
    case 3
    with assms s obtain c2 t where t: "s' = c2 # t" "cont_byte 0x80 0xBF c2"
      by (auto simp: Let_def split: list.splits if_splits)
    show ?thesis
    proof (rule two)
      show "s = c # c2 # t" using s t by simp
      show "byte c = 0xC0 + (byte c - 0xC0)" "byte c2 = 0x80 + (byte c2 - 0x80)"
        "2 \<le> byte c - 0xC0" "byte c - 0xC0 < 32" "byte c2 - 0x80 < 64"
        using 3 t(2) by (auto simp: cont_byte_def)
    qed
  next
    case 4
    with assms s obtain c2 c3 t where t: "s' = c2 # c3 # t" "cont_byte 0x80 0xBF c3"
        "cont_byte (if byte c = 0xE0 then 0xA0 else 0x80) (if byte c = 0xED then 0x9F else 0xBF) c2"
      by (auto simp: Let_def split: list.splits if_splits)
    show ?thesis
    proof (rule three)
      show "s = c # c2 # c3 # t" using s t by simp
      show "byte c = 0xE0 + (byte c - 0xE0)" "byte c2 = 0x80 + (byte c2 - 0x80)"
        "byte c3 = 0x80 + (byte c3 - 0x80)" "byte c - 0xE0 < 16" "byte c2 - 0x80 < 64" "byte c3 - 0x80 < 64"
        using 4 t by (auto simp: cont_byte_def split: if_splits)
      show "32 \<le> byte c2 - 0x80" if "byte c - 0xE0 = 0"
        using 4 t that by (auto simp: cont_byte_def split: if_splits)
      show "byte c2 - 0x80 < 32" if "byte c - 0xE0 = 13"
        using 4 t that by (auto simp: cont_byte_def split: if_splits)
    qed
  next
    case 5
    with assms s obtain c2 c3 c4 t where t: "s' = c2 # c3 # c4 # t"
        "cont_byte 0x80 0xBF c3" "cont_byte 0x80 0xBF c4"
        "cont_byte (if byte c = 0xF0 then 0x90 else 0x80) (if byte c = 0xF4 then 0x8F else 0xBF) c2"
      by (auto simp: Let_def split: list.splits if_splits)
    show ?thesis
    proof (rule four)
      show "s = c # c2 # c3 # c4 # t" using s t by simp
      show "byte c = 0xF0 + (byte c - 0xF0)" "byte c2 = 0x80 + (byte c2 - 0x80)"
        "byte c3 = 0x80 + (byte c3 - 0x80)" "byte c4 = 0x80 + (byte c4 - 0x80)"
        "byte c - 0xF0 < 5" "byte c2 - 0x80 < 64" "byte c3 - 0x80 < 64" "byte c4 - 0x80 < 64"
        using 5 t by (auto simp: cont_byte_def split: if_splits)
      show "16 \<le> byte c2 - 0x80" if "byte c - 0xF0 = 0"
        using 5 t that by (auto simp: cont_byte_def split: if_splits)
      show "byte c2 - 0x80 < 16" if "byte c - 0xF0 = 4"
        using 5 t that by (auto simp: cont_byte_def split: if_splits)
    qed
  next
    case 6
    with assms s show ?thesis by (simp add: Let_def)
  qed
qed

lemma cont_byte_plus [simp]: "byte c = 0x80 + y \<Longrightarrow> y < 64 \<Longrightarrow> cont_byte 0x80 0xBF c"
  by (simp add: cont_byte_def)

text \<open>What a decoded character is: its length is within the text, it decodes the same in front of
  any text, and encoding the rune gives it back.\<close>

lemma decode_rune_valid:
  assumes "s \<noteq> []" and "decode_rune s \<noteq> (rune_error, 1)"
  defines "n \<equiv> snd (decode_rune s)"
  shows "1 \<le> n" and "n \<le> length s" and "decode_rune (take n s @ t) = decode_rune s"
    and "encode_rune (fst (decode_rune s)) = take n s"
    and "fst (decode_rune s) < 0x80 \<and> n = 1 \<and> byte (hd s) = fst (decode_rune s) \<or>
      0x80 \<le> fst (decode_rune s) \<and> list_all (\<lambda>c. 0x80 \<le> byte c) (take n s)"
proof -
  have "1 \<le> n \<and> n \<le> length s \<and> decode_rune (take n s @ t) = decode_rune s \<and>
    encode_rune (fst (decode_rune s)) = take n s \<and>
    (fst (decode_rune s) < 0x80 \<and> n = 1 \<and> byte (hd s) = fst (decode_rune s) \<or>
      0x80 \<le> fst (decode_rune s) \<and> list_all (\<lambda>c. 0x80 \<le> byte c) (take n s))"
    using assms(1,2)
  proof (cases s rule: decode_rune_cases)
    case (one c t)
    then show ?thesis by (simp add: n_def enc1)
  next
    case (two c1 c2 t x y)
    then have "decode_rune s = (x * 64 + y, 2)" by (simp add: Let_def cont_byte_def)
    moreover have "decode_rune (c1 # c2 # t') = (x * 64 + y, 2)" for t'
      using two by (simp add: Let_def cont_byte_def)
    moreover have "encode_rune (x * 64 + y) = [c1, c2]"
      using two enc2 [of x y] by (metis chr_byte)
    ultimately show ?thesis using two by (simp add: n_def)
  next
    case (three c1 c2 c3 t x y z)
    have i: "x = 0 \<longrightarrow> 32 \<le> y" "x = 13 \<longrightarrow> y < 32" using three(8,9) by blast+
    have d: "decode_rune (c1 # c2 # c3 # t') = (x * 4096 + y * 64 + z, 3)" for t'
      using three(2-7) i by (auto simp: Let_def cont_byte_def)
    have "encode_rune (x * 4096 + y * 64 + z) = [c1, c2, c3]"
      using three enc3 [of x y z] by (metis chr_byte)
    moreover have "0x80 \<le> x * 4096 + y * 64 + z" using three(8) by (cases "x = 0") linarith+
    ultimately show ?thesis using three(1-4) d by (simp add: n_def)
  next
    case (four c1 c2 c3 c4 t x y z u)
    have i: "x = 0 \<longrightarrow> 16 \<le> y" "x = 4 \<longrightarrow> y < 16" using four(10,11) by blast+
    have d: "decode_rune (c1 # c2 # c3 # c4 # t') = (x * 262144 + y * 4096 + z * 64 + u, 4)" for t'
      using four(2-9) i by (auto simp: Let_def cont_byte_def)
    have "encode_rune (x * 262144 + y * 4096 + z * 64 + u) = [c1, c2, c3, c4]"
      using four enc4 [of x y z u] by (metis chr_byte)
    moreover have "0x80 \<le> x * 262144 + y * 4096 + z * 64 + u" using four(10) by (cases "x = 0") linarith+
    ultimately show ?thesis using four(1-5) d by (simp add: n_def)
  qed
  then show "1 \<le> n" "n \<le> length s" "decode_rune (take n s @ t) = decode_rune s"
    "encode_rune (fst (decode_rune s)) = take n s"
    "fst (decode_rune s) < 0x80 \<and> n = 1 \<and> byte (hd s) = fst (decode_rune s) \<or>
      0x80 \<le> fst (decode_rune s) \<and> list_all (\<lambda>c. 0x80 \<le> byte c) (take n s)" by blast+
qed

section \<open>Valid texts\<close>

lemma valid_utf8_Nil [simp]: "valid_utf8 []"
  by (subst valid_utf8.simps) simp

lemma valid_utf8_step:
  "s \<noteq> [] \<Longrightarrow> valid_utf8 s \<longleftrightarrow>
     decode_rune s \<noteq> (rune_error, 1) \<and> valid_utf8 (drop (snd (decode_rune s)) s)"
  by (subst valid_utf8.simps) (auto simp: Let_def split: prod.splits)

lemma valid_utf8_char:
  assumes "s \<noteq> []" and "decode_rune s \<noteq> (rune_error, 1)"
  shows "valid_utf8 (take (snd (decode_rune s)) s @ t) \<longleftrightarrow> valid_utf8 t"
proof -
  note d = decode_rune_valid [OF assms]
  have "take (snd (decode_rune s)) s @ t \<noteq> []" using d(1) assms(1) by auto
  from valid_utf8_step [OF this] show ?thesis using assms(2) d(2) by (simp add: d(3))
qed

lemma valid_utf8_append: "valid_utf8 s \<Longrightarrow> valid_utf8 (s @ t) \<longleftrightarrow> valid_utf8 t"
proof (induction s rule: length_induct)
  case (1 s)
  show ?case
  proof (cases "s = []")
    case False
    let ?n = "snd (decode_rune s)"
    from 1(2) valid_utf8_step [OF False]
    have v: "decode_rune s \<noteq> (rune_error, 1)" "valid_utf8 (drop ?n s)" by blast+
    from decode_rune_valid(1) [OF False v(1)] False have "length (drop ?n s) < length s" by simp
    with 1(1) v(2) have "valid_utf8 (drop ?n s @ t) \<longleftrightarrow> valid_utf8 t" by blast
    moreover have "valid_utf8 (take ?n s @ drop ?n s @ t) \<longleftrightarrow> valid_utf8 (drop ?n s @ t)"
      by (rule valid_utf8_char [OF False v(1)])
    moreover have "take ?n s @ drop ?n s @ t = s @ t" by (metis append_assoc append_take_drop_id)
    ultimately show ?thesis by simp
  qed simp
qed

lemma valid_utf8_append2 [intro]: "valid_utf8 s \<Longrightarrow> valid_utf8 t \<Longrightarrow> valid_utf8 (s @ t)"
  by (simp add: valid_utf8_append)

lemma valid_utf8_ascii_Cons [simp]: "byte c < 0x80 \<Longrightarrow> valid_utf8 (c # s) \<longleftrightarrow> valid_utf8 s"
  by (subst valid_utf8_step) (simp_all add: Let_def rune_error_def)

lemma valid_utf8_ascii: "list_all (\<lambda>c. byte c < 0x80) s \<Longrightarrow> valid_utf8 s"
  by (induction s) simp_all

text \<open>Induction over the characters of a text; \<open>bad\<close> is a byte that starts no valid encoding.\<close>

lemma utf8_induct [case_names Nil ascii multi bad]:
  assumes "P []"
    and "\<And>c s. byte c < 0x80 \<Longrightarrow> P s \<Longrightarrow> P (c # s)"
    and "\<And>u r s. u \<noteq> [] \<Longrightarrow> list_all (\<lambda>c. 0x80 \<le> byte c) u \<Longrightarrow> 0x80 \<le> r \<Longrightarrow> encode_rune r = u \<Longrightarrow>
      (r, length u) \<noteq> (rune_error, 1) \<Longrightarrow> (\<And>t. decode_rune (u @ t) = (r, length u)) \<Longrightarrow> P s \<Longrightarrow> P (u @ s)"
    and "\<And>c s. decode_rune (c # s) = (rune_error, 1) \<Longrightarrow> P s \<Longrightarrow> P (c # s)"
  shows "P s"
proof (induction s rule: length_induct)
  case (1 s)
  show ?case
  proof (cases "s = [] \<or> decode_rune s = (rune_error, 1)")
    case True
    with 1 show ?thesis by (cases s) (auto intro: assms(1,4))
  next
    case False
    let ?n = "snd (decode_rune s)" and ?r = "fst (decode_rune s)"
    from False have ne: "s \<noteq> []" and v: "decode_rune s \<noteq> (rune_error, 1)" by blast+
    note d = decode_rune_valid [OF ne v]
    from d(1) ne have "length (drop ?n s) < length s" by simp
    with 1 have ih: "P (drop ?n s)" by blast
    from d(5) consider "?r < 0x80" "?n = 1" "byte (hd s) = ?r"
      | "0x80 \<le> ?r" "list_all (\<lambda>c. 0x80 \<le> byte c) (take ?n s)" by blast
    then show ?thesis
    proof cases
      case 1
      have s: "s = hd s # drop ?n s" using ne by (simp add: 1(2) drop_Suc)
      have "P (hd s # drop ?n s)" using assms(2) [of "hd s" "drop ?n s"] 1 ih by simp
      then show ?thesis using s by simp
    next
      case 2
      have len: "length (take ?n s) = ?n" using d(2) by simp
      have "P (take ?n s @ drop ?n s)"
      proof (rule assms(3) [of "take ?n s" ?r])
        show "take ?n s \<noteq> []" using d(1) ne by auto
        show "(?r, length (take ?n s)) \<noteq> (rune_error, 1)" using v unfolding len by simp
        show "decode_rune (take ?n s @ t) = (?r, length (take ?n s))" for t using d(3) [of t] unfolding len by simp
      qed (use 2 d(4) ih in simp_all)
      then show ?thesis by simp
    qed
  qed
qed

lemma valid_utf8_multi:
  assumes "u \<noteq> []" and "(r, length u) \<noteq> (rune_error, 1)" and "\<And>t. decode_rune (u @ t) = (r, length u)"
  shows "valid_utf8 (u @ s) \<longleftrightarrow> valid_utf8 s"
  using valid_utf8_step [of "u @ s"] assms by simp

lemma valid_utf8_bad: "decode_rune (c # s) = (rune_error, 1) \<Longrightarrow> \<not> valid_utf8 (c # s)"
  using valid_utf8_step [of "c # s"] by simp

lemma split4096: "(r::nat) = r div 4096 * 4096 + r div 64 mod 64 * 64 + r mod 64"
proof -
  have "r div 64 = r div 64 div 64 * 64 + r div 64 mod 64" by simp
  moreover have "r div 64 div 64 = r div 4096" by (simp add: div_mult2_eq [symmetric])
  moreover have "r = r div 64 * 64 + r mod 64" by simp
  ultimately show ?thesis by linarith
qed

lemma split262144:
  "(r::nat) = r div 262144 * 262144 + r div 4096 mod 64 * 4096 + r div 64 mod 64 * 64 + r mod 64"
proof -
  have "r div 4096 = r div 4096 div 64 * 64 + r div 4096 mod 64" by simp
  moreover have "r div 4096 div 64 = r div 262144" by (simp add: div_mult2_eq [symmetric])
  ultimately show ?thesis using split4096 [of r] by linarith
qed

lemma valid_utf8_encode [simp]: "valid_utf8 (encode_rune r)"
proof -
  consider "r < 0x80" | "0x80 \<le> r" "r < 0x800" | "0x800 \<le> r" "(0xD800 \<le> r \<and> r < 0xE000) \<or> 0x10FFFF < r"
    | "0x800 \<le> r" "\<not> ((0xD800 \<le> r \<and> r < 0xE000) \<or> 0x10FFFF < r)" "r < 0x10000"
    | "0x10000 \<le> r" "r \<le> 0x10FFFF" by linarith
  then show ?thesis
  proof cases
    case 1
    then show ?thesis by (simp add: encode_rune_def)
  next
    case 2
    have b: "192 + r div 64 < 224" "194 \<le> 192 + r div 64" using 2 by auto
    show ?thesis using 2 b by (simp add: encode_rune_def valid_utf8_step cont_byte_def Let_def)
  next
    case 3
    then show ?thesis by (simp add: encode_rune_def valid_utf8_step cont_byte_def Let_def)
  next
    case 4
    have b: "r div 4096 < 16" using 4 by simp
    have m: "r div 64 mod 64 < 64" "r mod 64 < 64" by simp_all
    have z: "r div 4096 = 0 \<longrightarrow> 32 \<le> r div 64 mod 64" using 4(1) by auto
    have y: "r div 4096 = 13 \<longrightarrow> r div 64 mod 64 < 32"
    proof
      assume "r div 4096 = 13"
      then have r: "r < 0xD800" "r div 64 div 64 = 13" using 4(2) by (auto simp: div_mult2_eq [symmetric])
      have "r div 64 = 64 * (r div 64 div 64) + r div 64 mod 64" by simp
      moreover have "r div 64 < 864" using r(1) by auto
      ultimately show "r div 64 mod 64 < 32" using r(2) by linarith
    qed
    define x1 x2 x3 where x: "x1 = r div 4096" "x2 = r div 64 mod 64" "x3 = r mod 64"
    have "r = x1 * 4096 + x2 * 64 + x3" unfolding x by (rule split4096)
    then have "encode_rune r = [chr (0xE0 + x1), chr (0x80 + x2), chr (0x80 + x3)]"
      using enc3 [of x1 x2 x3] b m z y unfolding x by simp
    moreover have "x1 < 16" "x2 < 64" "x3 < 64" "x1 = 0 \<longrightarrow> 32 \<le> x2" "x1 = 13 \<longrightarrow> x2 < 32"
      using b m z y unfolding x by simp_all
    ultimately show ?thesis by (auto simp: valid_utf8_step cont_byte_def Let_def)
  next
    case 5
    have b: "r div 262144 < 5" using 5 by simp
    have m: "r div 4096 mod 64 < 64" "r div 64 mod 64 < 64" "r mod 64 < 64" by simp_all
    have z: "r div 262144 = 0 \<longrightarrow> 16 \<le> r div 4096 mod 64" using 5(1) by auto
    have y: "r div 262144 = 4 \<longrightarrow> r div 4096 mod 64 < 16"
    proof
      assume "r div 262144 = 4"
      then have "r div 4096 div 64 = 4" by (simp add: div_mult2_eq [symmetric])
      moreover have "r div 4096 = 64 * (r div 4096 div 64) + r div 4096 mod 64" by simp
      moreover have "r div 4096 < 272" using 5(2) by auto
      ultimately show "r div 4096 mod 64 < 16" by linarith
    qed
    define x1 x2 x3 x4 where x: "x1 = r div 262144" "x2 = r div 4096 mod 64" "x3 = r div 64 mod 64" "x4 = r mod 64"
    have "r = x1 * 262144 + x2 * 4096 + x3 * 64 + x4" unfolding x by (rule split262144)
    then have "encode_rune r = [chr (0xF0 + x1), chr (0x80 + x2), chr (0x80 + x3), chr (0x80 + x4)]"
      using enc4 [of x1 x2 x3 x4] b m z y unfolding x by simp
    moreover have "x1 < 5" "x2 < 64" "x3 < 64" "x4 < 64" "x1 = 0 \<longrightarrow> 16 \<le> x2" "x1 = 4 \<longrightarrow> x2 < 16"
      using b m z y unfolding x by simp_all
    ultimately show ?thesis by (auto simp: valid_utf8_step cont_byte_def Let_def)
  qed
qed

text \<open>An ASCII byte is a character of its own wherever it stands.\<close>

lemma valid_utf8_split: "valid_utf8 (a @ c # b) \<Longrightarrow> byte c < 0x80 \<Longrightarrow> valid_utf8 a \<and> valid_utf8 b"
proof (induction a rule: length_induct)
  case (1 a)
  show ?case
  proof (cases "a = []")
    case True
    with 1(2,3) show ?thesis by simp
  next
    case False
    let ?s = "a @ c # b" and ?n = "snd (decode_rune (a @ c # b))"
    have ne: "?s \<noteq> []" by simp
    from 1(2) valid_utf8_step [OF ne] have v: "decode_rune ?s \<noteq> (rune_error, 1)" "valid_utf8 (drop ?n ?s)" by blast+
    note d = decode_rune_valid [OF ne v(1)]
    have n: "?n \<le> length a"
    proof (rule ccontr)
      assume "\<not> ?n \<le> length a"
      then have "c \<in> set (take ?n ?s)" by (simp add: take_Cons')
      moreover have "?n \<noteq> 1" using \<open>\<not> ?n \<le> length a\<close> False by (cases a) auto
      with d(5) have "list_all (\<lambda>c. 0x80 \<le> byte c) (take ?n ?s)" by blast
      ultimately have "0x80 \<le> byte c" by (auto simp: list_all_iff)
      with 1(3) show False by simp
    qed
    then have "drop ?n ?s = drop ?n a @ c # b" by simp
    with v(2) have "valid_utf8 (drop ?n a @ c # b)" by simp
    moreover have "length (drop ?n a) < length a" using d(1) False by simp
    ultimately have ih: "valid_utf8 (drop ?n a)" "valid_utf8 b" using 1(1,3) by blast+
    have "valid_utf8 (take ?n ?s @ drop ?n a) \<longleftrightarrow> valid_utf8 (drop ?n a)" by (rule valid_utf8_char [OF ne v(1)])
    with n ih show ?thesis by simp
  qed
qed

end
