(* ===== verification/JsonScan.thy ===== *)
theory JsonScan
  imports JsonEnds Utf8
begin

text \<open>
  The scanner of \<open>GoJson\<close> as the later proofs use it. Its fuel always suffices (\<open>fuel_enough\<close>), so
  \<open>scans s r\<close>, the scanner finds a value at the start of \<open>s\<close> and leaves \<open>r\<close>, needs no bound. What it
  finds is a segment of the text that is scanned in the same way in front of any text that may
  follow a value, before and after compaction (\<open>scans_segment\<close>).
\<close>

section \<open>The fuel is enough\<close>

lemma ended_length: "ended s r \<Longrightarrow> length r < length s"
  by (auto simp: ended_def)

lemma skip_ws_length: "skip_ws s = t \<Longrightarrow> length t \<le> length s"
  unfolding skip_ws_def by (auto simp: length_dropWhile_le)

lemma skip_enough:
  "skip_val n s = Some r \<Longrightarrow> 2 * length s \<le> m \<Longrightarrow> skip_val m s = Some r"
  "skip_elems n s = Some r \<Longrightarrow> 2 * length s + 1 \<le> m \<Longrightarrow> skip_elems m s = Some r"
  "skip_mems n s = Some r \<Longrightarrow> 2 * length s + 1 \<le> m \<Longrightarrow> skip_mems m s = Some r"
proof (induction n s and n s and n s arbitrary: r m and r m and r m rule: skip_val_skip_elems_skip_mems.induct)
  case (2 n s)
  from "2.prems" obtain c t where ct: "skip_ws s = c # t" by (auto split: list.splits)
  have len: "length t < length s" using skip_ws_length [OF ct] by simp
  with "2.prems"(2) obtain m' where m: "m = Suc m'" by (cases m) auto
  consider "byte c = 0x22" | "byte c \<noteq> 0x22" "c = CHR ''{''" | "byte c \<noteq> 0x22" "c = CHR ''[''"
    | "byte c \<noteq> 0x22" "c \<noteq> CHR ''{''" "c \<noteq> CHR ''[''" by blast
  then show ?case
  proof cases
    case 1
    with "2.prems" ct m show ?thesis by simp
  next
    case 2
    with "2.prems" ct obtain d u where du: "skip_ws t = d # u" by (auto split: list.splits)
    have "2 * length (d # u) + 1 \<le> m'" using skip_ws_length [OF du] len "2.prems"(2) m by simp
    then have ih: "d \<noteq> CHR ''}'' \<Longrightarrow> skip_mems n (d # u) = Some r \<Longrightarrow> skip_mems m' (d # u) = Some r"
      using "2.IH"(1) [OF ct 2 du] by blast
    show ?thesis
    proof (cases "d = CHR ''}''")
      case True
      with 2 "2.prems"(1) ct du m show ?thesis by simp
    next
      case False
      with 2 "2.prems"(1) ct du have "skip_mems n (d # u) = Some r" by simp
      with ih False have "skip_mems m' (d # u) = Some r" by blast
      with False 2 ct du m show ?thesis by simp
    qed
  next
    case 3
    with "2.prems" ct obtain d u where du: "skip_ws t = d # u" by (auto split: list.splits)
    have "2 * length (d # u) + 1 \<le> m'" using skip_ws_length [OF du] len "2.prems"(2) m by simp
    moreover from 3 have c: "c \<noteq> CHR ''{''" by simp
    ultimately have ih: "d \<noteq> CHR '']'' \<Longrightarrow> skip_elems n (d # u) = Some r \<Longrightarrow> skip_elems m' (d # u) = Some r"
      using "2.IH"(2) [OF ct 3(1) c 3(2) du] by blast
    show ?thesis
    proof (cases "d = CHR '']''")
      case True
      with 3 "2.prems"(1) ct du m show ?thesis by simp
    next
      case False
      with 3 "2.prems"(1) ct du have "skip_elems n (d # u) = Some r" by simp
      with ih False have "skip_elems m' (d # u) = Some r" by blast
      with False 3 ct du m show ?thesis by simp
    qed
  next
    case 4
    with "2.prems" ct m show ?thesis by simp
  qed
next
  case (4 n s)
  from "4.prems" obtain m' where m: "m = Suc m'" "2 * length s \<le> m'" by (cases m) auto
  from "4.prems" obtain r1 where v: "skip_val n s = Some r1" by (auto split: option.splits)
  with "4.IH"(1) [OF v m(2)] have v': "skip_val m' s = Some r1" by simp
  from "4.prems" v obtain c t where ct: "skip_ws r1 = c # t" by (auto split: list.splits)
  have "length t < length s" using ended_length [OF skip_ended(1) [OF v]] skip_ws_length [OF ct] by simp
  then have "2 * length t + 1 \<le> m'" using m(2) by simp
  then have ih: "c = CHR '','' \<Longrightarrow> skip_elems n t = Some r \<Longrightarrow> skip_elems m' t = Some r"
    using "4.IH"(2) [OF v ct] by blast
  show ?case
  proof (cases "c = CHR '',''")
    case True
    with "4.prems"(1) v ct have "skip_elems n t = Some r" by simp
    with ih True have "skip_elems m' t = Some r" by blast
    with True v' ct m show ?thesis by simp
  next
    case False
    with "4.prems"(1) v ct v' m show ?thesis by simp
  qed
next
  case (6 n s)
  from "6.prems" obtain m' where m: "m = Suc m'" "2 * length s \<le> m'" by (cases m) auto
  from "6.prems" obtain q k where qk: "skip_ws s = q # k" by (auto split: list.splits)
  with "6.prems" have q: "\<not> byte q \<noteq> 0x22" by (auto split: if_splits)
  from "6.prems" qk q obtain r1 where str: "skip_str k = Some r1" by (auto split: option.splits)
  from "6.prems" qk q str obtain c t where ct: "skip_ws r1 = c # t" by (auto split: list.splits)
  from "6.prems" qk q str ct have c: "\<not> c \<noteq> CHR '':''" by (auto split: if_splits)
  from "6.prems" qk q str ct c obtain u where v: "skip_val n t = Some u" by (auto split: option.splits)
  have lt: "length t < length s"
    using skip_ws_length [OF qk] ended_length [OF skip_str_ended [OF str]] skip_ws_length [OF ct] by simp
  then have "2 * length t \<le> m'" using m(2) by simp
  then have v': "skip_val m' t = Some u" by (rule "6.IH"(1) [OF qk q str ct c v])
  from "6.prems" qk q str ct c v obtain d w where dw: "skip_ws u = d # w" by (auto split: list.splits)
  have "length w < length s" using lt ended_length [OF skip_ended(1) [OF v]] skip_ws_length [OF dw] by simp
  then have "2 * length w + 1 \<le> m'" using m(2) by simp
  then have ih: "d = CHR '','' \<Longrightarrow> skip_mems n w = Some r \<Longrightarrow> skip_mems m' w = Some r"
    using "6.IH"(2) [OF qk q str ct c v dw] by blast
  show ?case
  proof (cases "d = CHR '',''")
    case True
    with "6.prems"(1) qk q str ct c v dw have "skip_mems n w = Some r" by simp
    with ih True have "skip_mems m' w = Some r" by blast
    with True qk q str ct c v' dw m show ?thesis by simp
  next
    case False
    with "6.prems"(1) qk q str ct c v v' dw m show ?thesis by simp
  qed
qed simp_all

definition scans :: "string \<Rightarrow> string \<Rightarrow> bool" where
  "scans s r \<longleftrightarrow> (\<exists>n. skip_val n s = Some r)"

lemma fuel_enough: "skip_val (fuel s) s = Some r \<longleftrightarrow> scans s r"
proof
  assume "scans s r"
  then obtain n where "skip_val n s = Some r" by (auto simp only: scans_def)
  then show "skip_val (fuel s) s = Some r" by (rule skip_enough(1)) (simp add: fuel_def)
qed (auto simp only: scans_def)

lemma scans_unique: "scans s r \<Longrightarrow> scans s r' \<Longrightarrow> r = r'"
  unfolding fuel_enough [symmetric] by simp

lemma json_valid_iff: "json_valid s \<longleftrightarrow> (\<exists>r. scans s r \<and> skip_ws r = [])"
  unfolding json_valid_def fuel_enough [symmetric] by (auto split: option.splits)

section \<open>Compaction, byte by byte\<close>

definition special :: "char \<Rightarrow> bool" where
  "special c \<longleftrightarrow> byte c = 0x3C \<or> byte c = 0x3E \<or> byte c = 0x26"

text \<open>The two bytes that make a line or paragraph separator after 0xE2.\<close>

definition ls2 :: "string \<Rightarrow> bool" where
  "ls2 s \<longleftrightarrow> prefix [chr 0x80, chr 0xA8] s \<or> prefix [chr 0x80, chr 0xA9] s"

definition low :: "char \<Rightarrow> bool" where
  "low c \<longleftrightarrow> byte c = 0xA8 \<or> byte c = 0xA9"

lemma chr_eq: "n < 256 \<Longrightarrow> chr n = c \<longleftrightarrow> byte c = n"
  by (metis byte_chr chr_byte)

lemma chr_eq2: "n < 256 \<Longrightarrow> c = chr n \<longleftrightarrow> byte c = n"
  by (metis byte_chr chr_byte)

lemma ls2_Cons: "p \<noteq> [] \<Longrightarrow> ls2 (c # p) \<longleftrightarrow> byte c = 0x80 \<and> low (hd p)"
  by (cases p) (auto simp: ls2_def low_def chr_eq)

lemma hex_digit_byte: "n < 16 \<Longrightarrow> byte (hex_digit n) = (if n < 10 then 48 + n else 87 + n)"
  by (simp add: hex_digit_def)

lemma hex_value_digit [simp]: "n < 16 \<Longrightarrow> hex_value (hex_digit n) = Some n"
  by (simp add: hex_value_def hex_digit_byte Let_def)

lemma cr_special: "special c \<Longrightarrow> compact_raw b (c # s) = [CHR 0x5C, CHR ''u''] @ hex4 (byte c) @ compact_raw b s"
  by (auto simp: special_def)

lemma prefix_sep:
  "prefix [chr 0xE2, chr 0x80, chr 0xA8] (c # s) \<or> prefix [chr 0xE2, chr 0x80, chr 0xA9] (c # s) \<longleftrightarrow>
     byte c = 0xE2 \<and> ls2 s"
  by (auto simp: ls2_def chr_eq)

lemma hex4_sep: "''u2028'' = CHR ''u'' # hex4 0x2028" "''u2029'' = CHR ''u'' # hex4 0x2029"
  by (simp_all add: hex4_def hex_digit_def chr_eq2 byte_def)

lemma cr_sep:
  assumes "byte c = 0xE2" and "byte d = 0x80" and "low e"
  shows "compact_raw b (c # d # e # s) =
    [CHR 0x5C, CHR ''u''] @ hex4 (if byte e = 0xA8 then 0x2028 else 0x2029) @ compact_raw b s"
proof (cases "byte e = 0xA8")
  case True
  then have "c = chr 0xE2" "d = chr 0x80" "e = chr 0xA8" using assms by (simp_all add: chr_eq2)
  then show ?thesis by (simp add: hex4_sep(1) [simplified])
next
  case False
  then have "c = chr 0xE2" "d = chr 0x80" "e = chr 0xA9" using assms by (simp_all add: chr_eq2 low_def)
  then show ?thesis by (simp add: hex4_sep(2) [simplified] chr_eq)
qed

lemma cr_plain:
  assumes "\<not> special c" and "\<not> (byte c = 0xE2 \<and> ls2 s)" and "byte c \<noteq> 0x5C"
  shows "compact_raw True (c # s) = c # compact_raw (byte c \<noteq> 0x22) s"
  using assms prefix_sep [of c s] by (auto simp: special_def simp del: prefix_code)

lemma cr_escape: "byte c = 0x5C \<Longrightarrow> compact_raw True (c # e # s) = c # e # compact_raw True s"
  using prefix_sep [of c "e # s"] by (auto simp del: prefix_code)

lemma cr_out:
  assumes "byte c < 0x80" and "\<not> special c" and "\<not> is_ws c"
  shows "compact_raw False (c # s) = c # compact_raw (byte c = 0x22) s"
  using assms prefix_sep [of c s] by (auto simp: special_def simp del: prefix_code)

lemma cr_ws:
  assumes "is_ws c"
  shows "compact_raw False (c # s) = compact_raw False s"
proof -
  have "\<not> special c" "byte c \<noteq> 0xE2" using assms by (auto simp: is_ws_def special_def)
  with assms show ?thesis using prefix_sep [of c s] by (auto simp: special_def simp del: prefix_code)
qed

declare compact_raw.simps(2) [simp del]

lemma cr_hex: "n < 16 \<Longrightarrow> compact_raw True (hex_digit n # s) = hex_digit n # compact_raw True s"
  by (subst cr_plain) (auto simp: special_def hex_digit_byte)

lemma byte_backslash [simp]: "byte (CHR 0x5C) = 0x5C"
  by (simp add: byte_def)

lemma cr_hex4:
  "compact_raw True ([CHR 0x5C, CHR ''u''] @ hex4 n @ s) = [CHR 0x5C, CHR ''u''] @ hex4 n @ compact_raw True s"
  by (simp add: hex4_def cr_escape cr_hex)

lemma skip_str_hex4: "skip_str ([CHR 0x5C, CHR ''u''] @ hex4 n @ s) = skip_str s"
  by (simp add: hex4_def simple_escapes_def)

section \<open>String literals\<close>

definition str_seg :: "string \<Rightarrow> string \<Rightarrow> bool" where
  "str_seg p v \<longleftrightarrow> p \<noteq> [] \<and> v \<noteq> [] \<and> (\<forall>t. skip_str (p @ t) = Some t) \<and> (\<forall>t. skip_str (v @ t) = Some t) \<and>
     (\<forall>t. compact_raw True (p @ t) = v @ compact_raw False t) \<and>
     (\<forall>t. compact_raw True (v @ t) = v @ compact_raw False t) \<and>
     (\<forall>t t'. ls2 (p @ t) = ls2 (v @ t')) \<and> low (hd p) = low (hd v)"

lemma str_seg_escaped:
  assumes "str_seg p v" and "q \<noteq> []" and "\<not> low (hd q)" and "\<And>t. \<not> ls2 (q @ t)"
    and "\<And>t. skip_str (q @ t) = skip_str t" and "\<And>t. compact_raw True (q @ t) = ([CHR 0x5C, CHR ''u''] @ hex4 n) @ compact_raw True t"
  shows "str_seg (q @ p) (([CHR 0x5C, CHR ''u''] @ hex4 n) @ v)"
proof -
  have l: "\<not> ls2 (CHR 0x5C # x)" for x by (auto simp: ls2_def chr_eq byte_def)
  have "\<not> low (CHR 0x5C)" by (simp add: low_def)
  then show ?thesis
    using assms(1-4) l cr_hex4 [of n] skip_str_hex4 [of n] assms(5,6)
    unfolding str_seg_def by (simp add: assms(5,6) cr_hex4 [of n, simplified] skip_str_hex4 [of n, simplified])
qed

lemma skip_str_segment: "skip_str s = Some r \<Longrightarrow> \<exists>p v. s = p @ r \<and> str_seg p v"
proof (induction s arbitrary: r rule: length_induct)
  case (1 s)
  from 1(2) obtain c s' where s: "s = c # s'" by (cases s) auto
  have ih: "\<exists>p v. u = p @ r \<and> str_seg p v" if "skip_str u = Some r" "length u \<le> length s'" for u
    using 1(1) that s by simp
  consider (quote) "byte c = 0x22" | (escape) "byte c = 0x5C" | (special) "special c"
    | (sep) "byte c = 0xE2" "ls2 s'"
    | (plain) "byte c \<noteq> 0x22" "byte c \<noteq> 0x5C" "\<not> special c" "\<not> (byte c = 0xE2 \<and> ls2 s')" by blast
  then show ?case
  proof cases
    case quote
    then have ns: "\<not> special c" "byte c \<noteq> 0xE2" "\<not> low c" by (auto simp: special_def low_def)
    have "compact_raw True (c # t) = c # compact_raw False t" for t using cr_plain [of c t] quote ns by simp
    moreover have "\<not> ls2 (c # t)" for t using quote by (auto simp: ls2_def chr_eq)
    ultimately have "str_seg [c] [c]" using quote ns by (simp add: str_seg_def)
    with 1(2) s quote show ?thesis by (intro exI [of _ "[c]"]) auto
  next
    case plain
    with 1(2) s have k: "skip_str s' = Some r" "\<not> byte c < 0x20" by (auto split: if_splits)
    from ih [OF this(1)] obtain p v where pv: "s' = p @ r" "str_seg p v" by auto
    from pv(2) have ne: "p \<noteq> []" "v \<noteq> []" and ls: "ls2 (p @ t) = ls2 (v @ t')" and lw: "low (hd p) = low (hd v)" for t t'
      unfolding str_seg_def by blast+
    have e: "byte c = 0xE2 \<Longrightarrow> \<not> ls2 (p @ t) \<and> \<not> ls2 (v @ t)" for t
      using plain(4) pv(1) ls by metis
    have "str_seg (c # p) (c # v)"
      using pv(2) plain k(2) e cr_plain [of c "p @ _"] cr_plain [of c "v @ _"] ls2_Cons ne lw
      unfolding str_seg_def by auto
    with s pv(1) show ?thesis by (intro exI [of _ "c # p"] exI [of _ "c # v"]) simp
  next
    case special
    then have "byte c \<noteq> 0x22" "byte c \<noteq> 0x5C" "\<not> byte c < 0x20" "byte c \<noteq> 0x80" "\<not> low c"
      by (auto simp: special_def low_def)
    note c = this
    with 1(2) s have k: "skip_str s' = Some r" by (auto split: if_splits)
    from ih [OF this(1)] obtain p v where pv: "s' = p @ r" "str_seg p v" by auto
    have "str_seg ([c] @ p) (([CHR 0x5C, CHR ''u''] @ hex4 (byte c)) @ v)"
    proof (rule str_seg_escaped [OF pv(2)])
      show "\<not> ls2 ([c] @ t)" for t using c(4) by (auto simp: ls2_def chr_eq)
      show "compact_raw True ([c] @ t) = ([CHR 0x5C, CHR ''u''] @ hex4 (byte c)) @ compact_raw True t" for t
        using cr_special [OF special] by simp
    qed (use c in simp_all)
    with s pv(1) show ?thesis by (intro exI [of _ "[c] @ p"] exI conjI) simp_all
  next
    case sep
    then obtain u where "s' = chr 0x80 # chr 0xA8 # u \<or> s' = chr 0x80 # chr 0xA9 # u"
      by (auto simp: ls2_def prefix_def)
    then obtain a b where u: "s' = a # b # u" "byte a = 0x80" "low b"
      by (auto simp: low_def)
    with sep 1(2) s have k: "skip_str u = Some r" by (auto simp: low_def)
    from ih [OF this] u obtain p v where pv: "u = p @ r" "str_seg p v" by auto
    define n :: nat where "n = (if byte b = 0xA8 then 0x2028 else 0x2029)"
    have n: "compact_raw True (c # a # b # t) = [CHR 0x5C, CHR ''u''] @ hex4 n @ compact_raw True t" for t
      unfolding n_def by (rule cr_sep [OF sep(1) u(2,3)])
    have "str_seg ([c, a, b] @ p) (([CHR 0x5C, CHR ''u''] @ hex4 n) @ v)"
    proof (rule str_seg_escaped [OF pv(2)])
      show "\<not> ls2 ([c, a, b] @ t)" for t using sep(1) by (auto simp: ls2_def chr_eq)
      show "skip_str ([c, a, b] @ t) = skip_str t" for t using sep(1) u by (auto simp: low_def)
      show "compact_raw True ([c, a, b] @ t) = ([CHR 0x5C, CHR ''u''] @ hex4 n) @ compact_raw True t" for t
        using n by simp
    qed (use sep(1) in \<open>simp_all add: low_def\<close>)
    with s u pv(1) show ?thesis by (intro exI [of _ "[c, a, b] @ p"] exI conjI) simp_all
  next
    case escape
    have c: "byte c \<noteq> 0x22" "\<not> special c" "byte c \<noteq> 0x80" "\<not> low c" using escape by (auto simp: special_def low_def)
    from 1(2) s escape obtain e t where t: "s' = e # t" by (cases s') auto
    show ?thesis
    proof (cases "map_of simple_escapes e \<noteq> None")
      case True
      with 1(2) s escape t have k: "skip_str t = Some r" by simp
      from ih [OF this] t obtain p v where pv: "t = p @ r" "str_seg p v" by auto
      have "str_seg (c # e # p) (c # e # v)"
        using pv(2) escape c True cr_escape [OF escape] ls2_Cons [of "e # p @ _" c] ls2_Cons [of "e # v @ _" c]
        unfolding str_seg_def by simp
      with s t pv(1) show ?thesis by (intro exI [of _ "c # e # p"] exI [of _ "c # e # v"]) simp
    next
      case False
      with 1(2) s escape t have e: "e = CHR ''u''" by (auto split: if_splits)
      with 1(2) s escape t False obtain a1 a2 a3 a4 u where u: "t = a1 # a2 # a3 # a4 # u" "hex_value a1 \<noteq> None"
          "hex_value a2 \<noteq> None" "hex_value a3 \<noteq> None" "hex_value a4 \<noteq> None" "skip_str u = Some r"
        by (auto split: list.splits if_splits)
      from ih [OF u(6)] t u(1) obtain p v where pv: "u = p @ r" "str_seg p v" by auto
      have h: "compact_raw True (a # x) = a # compact_raw True x" if "hex_value a \<noteq> None" for a x
        using that by (subst cr_plain) (auto simp: hex_value_def special_def Let_def split: if_splits)
      have "str_seg (c # e # a1 # a2 # a3 # a4 # p) (c # e # a1 # a2 # a3 # a4 # v)"
        using pv(2) escape c False e u(2-5) h cr_escape [OF escape] ls2_Cons
        unfolding str_seg_def by simp
      with s t u(1) pv(1) show ?thesis by (intro exI [of _ "c # e # a1 # a2 # a3 # a4 # p"] exI [of _ "c # e # a1 # a2 # a3 # a4 # v"]) simp
    qed
  qed
qed

section \<open>Numbers\<close>

text \<open>What may follow a value: nothing, white space, or the byte after it in an array or an object.\<close>

definition stop :: "string \<Rightarrow> bool" where
  "stop t \<longleftrightarrow> (case t of [] \<Rightarrow> True | c # _ \<Rightarrow> is_ws c \<or> c = CHR '','' \<or> c = CHR '']'' \<or> c = CHR ''}'')"

definition numch :: "char \<Rightarrow> bool" where
  "numch c \<longleftrightarrow> is_digit c \<or> c = CHR ''-'' \<or> c = CHR ''+'' \<or> c = CHR ''.'' \<or> c = CHR ''e'' \<or> c = CHR ''E''"

text \<open>The text does not start with a character of the set.\<close>

definition starts_not :: "(char \<Rightarrow> bool) \<Rightarrow> string \<Rightarrow> bool" where
  "starts_not P t \<longleftrightarrow> (case t of [] \<Rightarrow> True | c # _ \<Rightarrow> \<not> P c)"

lemma starts_not_simps [simp]: "starts_not P []" "starts_not P (c # t) \<longleftrightarrow> \<not> P c"
  by (simp_all add: starts_not_def)

lemma stop_not_num: "stop t \<Longrightarrow> starts_not numch t"
  by (cases t) (auto simp: stop_def numch_def is_ws_def is_digit_def byte_def)

definition sign_part :: "string \<Rightarrow> string" where
  "sign_part s = (case s of c # t \<Rightarrow> if c = CHR ''-'' then t else s | [] \<Rightarrow> s)"

definition int_part :: "string \<Rightarrow> string option" where
  "int_part s = (case s of c # t \<Rightarrow> if c = CHR ''0'' then Some t else skip_digits1 s | [] \<Rightarrow> None)"

definition frac_part :: "string \<Rightarrow> string option" where
  "frac_part s = (case s of c # t \<Rightarrow> if c = CHR ''.'' then skip_digits1 t else Some s | [] \<Rightarrow> Some s)"

definition exp_sign :: "string \<Rightarrow> string" where
  "exp_sign t = (case t of d # u \<Rightarrow> if d = CHR ''+'' \<or> d = CHR ''-'' then u else t | [] \<Rightarrow> t)"

definition exp_part :: "string \<Rightarrow> string option" where
  "exp_part s = (case s of c # t \<Rightarrow> if c = CHR ''e'' \<or> c = CHR ''E'' then skip_digits1 (exp_sign t) else Some s
     | [] \<Rightarrow> Some s)"

lemma skip_number_parts:
  "skip_number s = (case int_part (sign_part s) of None \<Rightarrow> None
     | Some s2 \<Rightarrow> (case frac_part s2 of None \<Rightarrow> None | Some s3 \<Rightarrow> exp_part s3))"
  unfolding skip_number_def sign_part_def int_part_def frac_part_def exp_sign_def exp_part_def Let_def
  by (rule refl)

lemma digit_numch: "list_all is_digit ds \<Longrightarrow> list_all numch ds"
  by (auto simp: list_all_iff numch_def)

lemma digits_segment:
  assumes "skip_digits1 s = Some r"
  obtains ds where "s = ds @ r" "ds \<noteq> []" "list_all is_digit ds"
    "\<And>t. starts_not is_digit t \<Longrightarrow> skip_digits1 (ds @ t) = Some t"
proof -
  from assms obtain c t where s: "s = c # t" "is_digit c" "r = dropWhile is_digit t"
    by (auto simp: skip_digits1_def split: list.splits if_splits)
  let ?ds = "takeWhile is_digit t"
  have d: "dropWhile is_digit (?ds @ u) = u" if "starts_not is_digit u" for u
  proof -
    have "dropWhile is_digit (?ds @ u) = dropWhile is_digit u"
      by (rule dropWhile_append2) (blast dest: set_takeWhileD)
    also have "\<dots> = u" using that by (cases u) simp_all
    finally show ?thesis .
  qed
  show ?thesis
  proof (rule that [of "c # ?ds"])
    show "s = (c # ?ds) @ r" using s by simp
    show "list_all is_digit (c # ?ds)" using s(2) by (auto simp: list_all_iff dest: set_takeWhileD)
    show "skip_digits1 ((c # ?ds) @ t) = Some t" if "starts_not is_digit t" for t
      using d [OF that] s(2) by (simp add: skip_digits1_def)
  qed simp
qed

lemma int_segment:
  assumes "int_part s = Some r"
  obtains p where "s = p @ r" "p \<noteq> []" "list_all is_digit p"
    "\<And>t. starts_not is_digit t \<Longrightarrow> int_part (p @ t) = Some t"
proof -
  from assms obtain c t where s: "s = c # t" by (auto simp: int_part_def split: list.splits)
  show ?thesis
  proof (cases "c = CHR ''0''")
    case True
    with assms s show ?thesis
      by (intro that [of "[c]"]) (auto simp: int_part_def is_digit_def byte_def)
  next
    case False
    with assms s have "skip_digits1 s = Some r" by (simp add: int_part_def)
    then obtain ds where ds: "s = ds @ r" "ds \<noteq> []" "list_all is_digit ds"
      "\<And>t. starts_not is_digit t \<Longrightarrow> skip_digits1 (ds @ t) = Some t" by (rule digits_segment) blast
    with s have "hd ds = c" by (cases ds) auto
    with False ds show ?thesis by (intro that [of ds]) (cases ds; auto simp: int_part_def)+
  qed
qed

lemma frac_segment:
  assumes "frac_part s = Some r"
  obtains p where "s = p @ r" "list_all numch p" "p = [] \<or> hd p = CHR ''.''"
    "\<And>t. starts_not is_digit t \<Longrightarrow> starts_not (\<lambda>c. c = CHR ''.'') t \<Longrightarrow> frac_part (p @ t) = Some t"
proof (cases "\<exists>t. s = CHR ''.'' # t")
  case True
  then obtain t where s: "s = CHR ''.'' # t" by blast
  with assms have "skip_digits1 t = Some r" by (simp add: frac_part_def)
  then obtain ds where ds: "t = ds @ r" "ds \<noteq> []" "list_all is_digit ds"
    "\<And>t. starts_not is_digit t \<Longrightarrow> skip_digits1 (ds @ t) = Some t" by (rule digits_segment) blast
  with s digit_numch [OF ds(3)] show ?thesis
    by (intro that [of "CHR ''.'' # ds"]) (auto simp: frac_part_def numch_def)
next
  case False
  with assms have "r = s" by (auto simp: frac_part_def split: list.splits if_splits)
  then show ?thesis by (intro that [of "[]"]) (auto simp: frac_part_def split: list.splits)
qed

lemma exp_segment:
  assumes "exp_part s = Some r"
  obtains p where "s = p @ r" "list_all numch p" "p = [] \<or> hd p = CHR ''e'' \<or> hd p = CHR ''E''"
    "\<And>t. starts_not numch t \<Longrightarrow> exp_part (p @ t) = Some t"
proof (cases "\<exists>c t. s = c # t \<and> (c = CHR ''e'' \<or> c = CHR ''E'')")
  case True
  then obtain c t where s: "s = c # t" "c = CHR ''e'' \<or> c = CHR ''E''" by blast
  with assms have "skip_digits1 (exp_sign t) = Some r" by (auto simp: exp_part_def)
  then obtain ds where ds: "exp_sign t = ds @ r" "ds \<noteq> []" "list_all is_digit ds"
    "\<And>t. starts_not is_digit t \<Longrightarrow> skip_digits1 (ds @ t) = Some t" by (rule digits_segment) blast
  obtain sg where sg: "t = sg @ exp_sign t" "list_all numch sg" "\<And>x. exp_sign (sg @ ds @ x) = ds @ x"
  proof (cases "exp_sign t = t")
    case True
    with ds(1,2) have "exp_sign (ds @ x) = ds @ x" for x by (cases ds) (auto simp: exp_sign_def split: if_splits)
    with True show ?thesis by (intro that [of "[]"]) auto
  next
    case False
    then obtain d where "t = d # exp_sign t" "d = CHR ''+'' \<or> d = CHR ''-''"
      by (auto simp: exp_sign_def split: list.splits if_splits)
    then show ?thesis by (intro that [of "[d]"]) (auto simp: exp_sign_def numch_def)
  qed
  have n: "starts_not is_digit x" if "starts_not numch x" for x using that by (cases x) (auto simp: numch_def)
  show ?thesis
  proof (rule that [of "c # sg @ ds"])
    show "s = (c # sg @ ds) @ r" using s sg(1) ds(1) by simp
    show "list_all numch (c # sg @ ds)" using s sg(2) digit_numch [OF ds(3)] by (auto simp: numch_def)
    show "exp_part ((c # sg @ ds) @ t) = Some t" if "starts_not numch t" for t
      using s(2) sg(3) ds(4) n [OF that] by (auto simp: exp_part_def)
  qed (use s in simp)
next
  case False
  with assms have "r = s" by (auto simp: exp_part_def split: list.splits if_splits)
  then show ?thesis by (intro that [of "[]"]) (auto simp: exp_part_def numch_def split: list.splits)
qed

lemma number_segment:
  assumes "skip_number s = Some r"
  obtains p where "s = p @ r" "p \<noteq> []" "list_all numch p" "is_digit (hd p) \<or> hd p = CHR ''-''"
    "\<And>t. stop t \<Longrightarrow> skip_number (p @ t) = Some t"
proof -
  from assms obtain s2 s3 where st: "int_part (sign_part s) = Some s2" "frac_part s2 = Some s3" "exp_part s3 = Some r"
    by (auto simp: skip_number_parts split: option.splits)
  obtain ip where ip: "sign_part s = ip @ s2" "ip \<noteq> []" "list_all is_digit ip"
    "\<And>t. starts_not is_digit t \<Longrightarrow> int_part (ip @ t) = Some t" using int_segment [OF st(1)] by blast
  obtain fp where fp: "s2 = fp @ s3" "list_all numch fp" "fp = [] \<or> hd fp = CHR ''.''"
    "\<And>t. starts_not is_digit t \<Longrightarrow> starts_not (\<lambda>c. c = CHR ''.'') t \<Longrightarrow> frac_part (fp @ t) = Some t"
    using frac_segment [OF st(2)] by blast
  obtain ep where ep: "s3 = ep @ r" "list_all numch ep" "ep = [] \<or> hd ep = CHR ''e'' \<or> hd ep = CHR ''E''"
    "\<And>t. starts_not numch t \<Longrightarrow> exp_part (ep @ t) = Some t" using exp_segment [OF st(3)] by blast
  have dig: "is_digit (hd ip)" using ip(2,3) by (cases ip) auto
  obtain sg where sg: "s = sg @ sign_part s" "list_all numch sg" "sg = [] \<or> sg = ''-''"
    "\<And>x. sign_part (sg @ ip @ x) = ip @ x"
  proof (cases "sign_part s = s")
    case True
    have "sign_part (ip @ x) = ip @ x" for x
      using ip(2) dig by (cases ip) (auto simp: sign_part_def is_digit_def byte_def)
    with True show ?thesis by (intro that [of "[]"]) auto
  next
    case False
    then have "s = CHR ''-'' # sign_part s" by (auto simp: sign_part_def split: list.splits if_splits)
    then show ?thesis by (intro that [of "''-''"]) (auto simp: sign_part_def numch_def)
  qed
  have nd: "\<not> is_digit (CHR ''.'')" "\<not> is_digit (CHR ''e'')" "\<not> is_digit (CHR ''E'')"
    by (simp_all add: is_digit_def byte_def)
  show ?thesis
  proof (rule that [of "sg @ ip @ fp @ ep"])
    show "s = (sg @ ip @ fp @ ep) @ r" using sg(1) ip(1) fp(1) ep(1) by simp
    show "list_all numch (sg @ ip @ fp @ ep)" using sg(2) digit_numch [OF ip(3)] fp(2) ep(2) by simp
    show "is_digit (hd (sg @ ip @ fp @ ep)) \<or> hd (sg @ ip @ fp @ ep) = CHR ''-''"
      using sg(3) dig ip(2) by auto
    show "skip_number ((sg @ ip @ fp @ ep) @ t) = Some t" if "stop t" for t
    proof -
      have t: "starts_not numch t" using stop_not_num [OF that] .
      have e: "starts_not is_digit (ep @ t)" "starts_not (\<lambda>c. c = CHR ''.'') (ep @ t)"
        using ep(3) t nd by (cases ep; cases t; auto simp: numch_def)+
      have f: "starts_not is_digit (fp @ ep @ t)" using fp(3) e(1) nd by (cases fp) auto
      show ?thesis using ip(4) [OF f] fp(4) [OF e] ep(4) [OF t] by (simp add: skip_number_parts sg(4))
    qed
  qed (use ip(2) in simp)
qed

section \<open>Values\<close>

definition comp :: "string \<Rightarrow> string \<Rightarrow> bool" where
  "comp p v \<longleftrightarrow> (\<forall>t. compact_raw False (p @ t) = v @ compact_raw False t)"

lemma comp_append: "comp p v \<Longrightarrow> comp q w \<Longrightarrow> comp (p @ q) (v @ w)"
  by (simp add: comp_def)

lemma comp_ws: "list_all is_ws w \<Longrightarrow> comp w []"
  by (induction w) (simp_all add: comp_def cr_ws)

lemma comp_char: "byte c < 0x80 \<Longrightarrow> \<not> special c \<Longrightarrow> \<not> is_ws c \<Longrightarrow> byte c \<noteq> 0x22 \<Longrightarrow> comp [c] [c]"
  by (simp add: comp_def cr_out)

lemma comp_plain:
  "list_all (\<lambda>c. byte c < 0x80 \<and> \<not> special c \<and> \<not> is_ws c \<and> byte c \<noteq> 0x22) p \<Longrightarrow> comp p p"
  by (induction p) (simp_all add: comp_def cr_out)

lemma comp_number: "list_all numch p \<Longrightarrow> comp p p"
  by (rule comp_plain) (auto simp: list_all_iff numch_def is_digit_def special_def is_ws_def byte_def)

lemma comp_string: "str_seg p v \<Longrightarrow> byte q = 0x22 \<Longrightarrow> comp (q # p) (q # v) \<and> comp (q # v) (q # v)"
  by (simp add: comp_def str_seg_def cr_out special_def is_ws_def)

lemma comp_structural [simp]:
  "comp ''{'' ''{''" "comp ''}'' ''}''" "comp ''['' ''[''" "comp '']'' '']''" "comp '','' '',''" "comp '':'' '':''"
  by (simp_all add: comp_char special_def is_ws_def byte_def)

lemma skip_ws_all [simp]: "list_all is_ws w \<Longrightarrow> skip_ws (w @ s) = skip_ws s"
  by (induction w) (simp_all add: skip_ws_def)

lemma skip_ws_id [simp]: "\<not> is_ws c \<Longrightarrow> skip_ws (c # s) = c # s"
  by (simp add: skip_ws_def)

lemma skip_ws_split:
  assumes "skip_ws s = t"
  obtains w where "s = w @ t" "list_all is_ws w"
proof (rule that)
  show "s = takeWhile is_ws s @ t" using assms unfolding skip_ws_def by (metis takeWhile_dropWhile_id)
  show "list_all is_ws (takeWhile is_ws s)" by (auto simp: list_all_iff dest: set_takeWhileD)
qed

lemma skip_ws_head: "skip_ws s = c # t \<Longrightarrow> \<not> is_ws c"
  unfolding skip_ws_def by (metis dropWhile_eq_Cons_conv)

lemma structural_not_ws [simp]:
  "\<not> is_ws (CHR ''{'')" "\<not> is_ws (CHR ''}'')" "\<not> is_ws (CHR ''['')" "\<not> is_ws (CHR '']'')"
  "\<not> is_ws (CHR '','')" "\<not> is_ws (CHR '':'')"
  by (simp_all add: is_ws_def byte_def)

lemma skip_val_ws: "list_all is_ws w \<Longrightarrow> skip_val n (w @ s) = skip_val n s"
  by (cases n) simp_all

lemma quote_not_ws: "byte q = 0x22 \<Longrightarrow> \<not> is_ws q"
  by (simp add: is_ws_def)

lemma sv_simps:
  "byte q = 0x22 \<Longrightarrow> skip_val (Suc n) (q # t) = skip_str t"
  "skip_ws t = CHR ''}'' # u \<Longrightarrow> skip_val (Suc n) (CHR ''{'' # t) = Some u"
  "skip_ws t = d # u \<Longrightarrow> d \<noteq> CHR ''}'' \<Longrightarrow> skip_val (Suc n) (CHR ''{'' # t) = skip_mems n (d # u)"
  "skip_ws t = CHR '']'' # u \<Longrightarrow> skip_val (Suc n) (CHR ''['' # t) = Some u"
  "skip_ws t = d # u \<Longrightarrow> d \<noteq> CHR '']'' \<Longrightarrow> skip_val (Suc n) (CHR ''['' # t) = skip_elems n (d # u)"
  "skip_val (Suc n) (CHR ''t'' # t) = skip_lit ''true'' (CHR ''t'' # t)"
  "skip_val (Suc n) (CHR ''f'' # t) = skip_lit ''false'' (CHR ''f'' # t)"
  "skip_val (Suc n) (CHR ''n'' # t) = skip_lit ''null'' (CHR ''n'' # t)"
  "is_digit c \<or> c = CHR ''-'' \<Longrightarrow> skip_val (Suc n) (c # t) = skip_number (c # t)"
proof -
  show "byte q = 0x22 \<Longrightarrow> skip_val (Suc n) (q # t) = skip_str t" by (simp add: quote_not_ws)
  show "is_digit c \<or> c = CHR ''-'' \<Longrightarrow> skip_val (Suc n) (c # t) = skip_number (c # t)"
  proof -
    assume c: "is_digit c \<or> c = CHR ''-''"
    then have "\<not> is_ws c" "byte c \<noteq> 0x22" "c \<noteq> CHR ''{''" "c \<noteq> CHR ''[''" "c \<noteq> CHR ''t''" "c \<noteq> CHR ''f''" "c \<noteq> CHR ''n''"
      by (auto simp: is_digit_def is_ws_def byte_def)
    then show ?thesis by simp
  qed
qed (simp_all add: byte_def is_ws_def)

lemma se_simps:
  "skip_val n s = Some r \<Longrightarrow> skip_ws r = CHR '','' # t \<Longrightarrow> skip_elems (Suc n) s = skip_elems n t"
  "skip_val n s = Some r \<Longrightarrow> skip_ws r = CHR '']'' # t \<Longrightarrow> skip_elems (Suc n) s = Some t"
  by simp_all

lemma sm_simps:
  assumes "skip_ws s = q # k" and "byte q = 0x22" and "skip_str k = Some r" and "skip_ws r = CHR '':'' # t"
    and "skip_val n t = Some u"
  shows "skip_ws u = CHR '','' # v \<Longrightarrow> skip_mems (Suc n) s = skip_mems n v"
    and "skip_ws u = CHR ''}'' # v \<Longrightarrow> skip_mems (Suc n) s = Some v"
  using assms by simp_all

declare skip_val.simps [simp del] skip_elems.simps [simp del] skip_mems.simps [simp del]

text \<open>How a value may start.\<close>

definition vhead :: "char \<Rightarrow> bool" where
  "vhead c \<longleftrightarrow> \<not> is_ws c \<and> c \<noteq> CHR '','' \<and> c \<noteq> CHR '']'' \<and> c \<noteq> CHR ''}''"

definition val_seg :: "(string \<Rightarrow> string option) \<Rightarrow> string \<Rightarrow> string \<Rightarrow> bool" where
  "val_seg f p v \<longleftrightarrow> p \<noteq> [] \<and> v \<noteq> [] \<and> hd v = hd p \<and> vhead (hd p) \<and> comp p v \<and> comp v v \<and>
     (\<forall>t. stop t \<longrightarrow> f (p @ t) = Some t) \<and> (\<forall>t. stop t \<longrightarrow> f (v @ t) = Some t)"

definition tail_seg :: "(string \<Rightarrow> string option) \<Rightarrow> string \<Rightarrow> string \<Rightarrow> bool" where
  "tail_seg f p v \<longleftrightarrow> p \<noteq> [] \<and> v \<noteq> [] \<and> vhead (hd v) \<and> comp p v \<and> comp v v \<and>
     (\<forall>t. f (p @ t) = Some t) \<and> (\<forall>t. f (v @ t) = Some t)"

lemma stop_ws: "list_all is_ws w \<Longrightarrow> stop (c # t) \<Longrightarrow> stop (w @ c # t)"
  by (cases w) (simp_all add: stop_def)

lemma stop_simps [simp]: "stop []" "stop (CHR '','' # t)" "stop (CHR '']'' # t)" "stop (CHR ''}'' # t)"
  by (simp_all add: stop_def)

lemma vhead_simps [simp]:
  "byte q = 0x22 \<Longrightarrow> vhead q" "vhead (CHR ''{'')" "vhead (CHR ''['')" "vhead (CHR ''t'')" "vhead (CHR ''f'')"
  "vhead (CHR ''n'')" "is_digit c \<Longrightarrow> vhead c" "vhead (CHR ''-'')"
  by (auto simp: vhead_def is_ws_def is_digit_def byte_def)

lemma literal_seg:
  assumes "skip_lit l s = Some r" and "l \<noteq> []" and "comp l l" and "vhead (hd l)"
    and "\<And>t. f (l @ t) = skip_lit l (l @ t)"
  shows "s = l @ r \<and> val_seg f l l"
  using assms by (auto simp: skip_lit_def val_seg_def prefix_def split: if_splits)

lemma lit_comp: "comp ''true'' ''true''" "comp ''false'' ''false''" "comp ''null'' ''null''"
  by (rule comp_plain, simp add: special_def is_ws_def byte_def)+

lemma seg_array:
  assumes "tail_seg (skip_elems n) p v" and "list_all is_ws w" and "skip_ws p = p" and "hd p \<noteq> CHR '']''"
  shows "val_seg (skip_val (Suc n)) (CHR ''['' # w @ p) (CHR ''['' # v)"
proof -
  from assms(1) have t: "p \<noteq> []" "v \<noteq> []" "vhead (hd v)" "comp p v" "comp v v"
      "\<And>t. skip_elems n (p @ t) = Some t" "\<And>t. skip_elems n (v @ t) = Some t" by (auto simp: tail_seg_def)
  then obtain c x d y where cd: "p = c # x" "v = d # y" by (metis neq_Nil_conv)
  with assms(3,4) t(3) have "\<not> is_ws c" "c \<noteq> CHR '']''" "\<not> is_ws d" "d \<noteq> CHR '']''"
    using skip_ws_head [of p c x] by (auto simp: vhead_def)
  then have "skip_val (Suc n) (CHR ''['' # w @ p @ t) = Some t" "skip_val (Suc n) (CHR ''['' # v @ t) = Some t" for t
    using t(6,7) [of t] assms(2) cd by (simp_all add: sv_simps(5))
  moreover have "comp (''['' @ w @ p) (''['' @ [] @ v)" "comp (''['' @ v) (''['' @ v)"
    by (intro comp_append comp_structural t comp_ws assms(2))+
  ultimately show ?thesis by (simp add: val_seg_def)
qed

lemma seg_object:
  assumes "tail_seg (skip_mems n) p v" and "list_all is_ws w" and "skip_ws p = p" and "hd p \<noteq> CHR ''}''"
  shows "val_seg (skip_val (Suc n)) (CHR ''{'' # w @ p) (CHR ''{'' # v)"
proof -
  from assms(1) have t: "p \<noteq> []" "v \<noteq> []" "vhead (hd v)" "comp p v" "comp v v"
      "\<And>t. skip_mems n (p @ t) = Some t" "\<And>t. skip_mems n (v @ t) = Some t" by (auto simp: tail_seg_def)
  then obtain c x d y where cd: "p = c # x" "v = d # y" by (metis neq_Nil_conv)
  with assms(3,4) t(3) have "\<not> is_ws c" "c \<noteq> CHR ''}''" "\<not> is_ws d" "d \<noteq> CHR ''}''"
    using skip_ws_head [of p c x] by (auto simp: vhead_def)
  then have "skip_val (Suc n) (CHR ''{'' # w @ p @ t) = Some t" "skip_val (Suc n) (CHR ''{'' # v @ t) = Some t" for t
    using t(6,7) [of t] assms(2) cd by (simp_all add: sv_simps(3))
  moreover have "comp (''{'' @ w @ p) (''{'' @ [] @ v)" "comp (''{'' @ v) (''{'' @ v)"
    by (intro comp_append comp_structural t comp_ws assms(2))+
  ultimately show ?thesis by (simp add: val_seg_def)
qed

text \<open>An element, and a member, with what follows it.\<close>

lemma seg_elem:
  assumes "val_seg (skip_val n) p v" and "list_all is_ws w" and "list_all is_ws w2"
    and "(c = CHR '']'' \<and> q = [] \<and> z = []) \<or> (c = CHR '','' \<and> tail_seg (skip_elems n) q z)"
  shows "tail_seg (skip_elems (Suc n)) (w @ p @ w2 @ c # q) (v @ c # z)"
proof -
  from assms(1) have e: "v \<noteq> []" "vhead (hd v)" "comp p v" "comp v v"
    "\<And>t. stop t \<Longrightarrow> skip_val n (p @ t) = Some t" "\<And>t. stop t \<Longrightarrow> skip_val n (v @ t) = Some t" by (auto simp: val_seg_def)
  have c: "comp [c] [c]" "stop (c # t)" for t using assms(4) by auto
  have z: "comp q z" "comp z z" using assms(4) by (auto simp: tail_seg_def comp_def)
  have "comp (w @ p @ w2 @ [c] @ q) ([] @ v @ [] @ [c] @ z)" "comp (v @ [c] @ z) (v @ [c] @ z)"
    by (intro comp_append comp_ws assms e c z)+
  moreover have "skip_val n (w @ p @ w2 @ c # x) = Some (w2 @ c # x)" for x
    using e(5) [of "w2 @ c # x"] assms(2,3) c(2) by (simp add: skip_val_ws stop_ws)
  moreover have "skip_val n (v @ c # x) = Some (c # x)" for x using e(6) c(2) by blast
  ultimately show ?thesis
    using assms(3,4) e(1,2) by (auto simp: tail_seg_def se_simps)
qed

lemma seg_member:
  assumes "str_seg pk vk" and "byte q = 0x22" and "val_seg (skip_val n) p v"
    and "list_all is_ws w0" and "list_all is_ws w1" and "list_all is_ws w2" and "list_all is_ws w3"
    and "(c = CHR ''}'' \<and> q' = [] \<and> z = []) \<or> (c = CHR '','' \<and> tail_seg (skip_mems n) q' z)"
  shows "tail_seg (skip_mems (Suc n)) (w0 @ q # pk @ w1 @ CHR '':'' # w2 @ p @ w3 @ c # q') (q # vk @ CHR '':'' # v @ c # z)"
proof -
  from assms(3) have e: "v \<noteq> []" "vhead (hd v)" "comp p v" "comp v v"
    "\<And>t. stop t \<Longrightarrow> skip_val n (p @ t) = Some t" "\<And>t. stop t \<Longrightarrow> skip_val n (v @ t) = Some t" by (auto simp: val_seg_def)
  from assms(1) have k: "skip_str (pk @ t) = Some t" "skip_str (vk @ t) = Some t" for t by (auto simp: str_seg_def)
  have c: "comp [c] [c]" "stop (c # t)" for t using assms(8) by auto
  have z: "comp q' z" "comp z z" using assms(8) by (auto simp: tail_seg_def comp_def)
  have "comp (w0 @ (q # pk) @ w1 @ '':'' @ w2 @ p @ w3 @ [c] @ q') ([] @ (q # vk) @ [] @ '':'' @ [] @ v @ [] @ [c] @ z)"
       "comp ((q # vk) @ '':'' @ v @ [c] @ z) ((q # vk) @ '':'' @ v @ [c] @ z)"
    using comp_string [OF assms(1,2)] by (intro comp_append comp_ws assms e c z comp_structural; simp)+
  moreover have "skip_val n (w2 @ p @ w3 @ c # x) = Some (w3 @ c # x)" for x
    using e(5) [of "w3 @ c # x"] assms(6,7) c(2) by (simp add: skip_val_ws stop_ws)
  moreover have "skip_val n (v @ c # x) = Some (c # x)" for x using e(6) c(2) by blast
  ultimately show ?thesis
    using assms(2,4,5,7,8) e(1,2) k
    by (auto simp: tail_seg_def quote_not_ws sm_simps(1) [of "w0 @ q # y" q y for y]
        sm_simps(2) [of "w0 @ q # y" q y for y] sm_simps(1) [of "q # y" q y for y] sm_simps(2) [of "q # y" q y for y])
qed

lemma val_seg_string: "str_seg p v \<Longrightarrow> byte q = 0x22 \<Longrightarrow> val_seg (skip_val (Suc n)) (q # p) (q # v)"
  using comp_string [of p v q] by (simp add: val_seg_def str_seg_def sv_simps(1))

lemma val_seg_number:
  assumes "skip_number s = Some r"
  shows "\<exists>p. s = p @ r \<and> val_seg (skip_val (Suc n)) p p"
proof -
  obtain p where p: "s = p @ r" "p \<noteq> []" "list_all numch p" "is_digit (hd p) \<or> hd p = CHR ''-''"
    "\<And>t. stop t \<Longrightarrow> skip_number (p @ t) = Some t" using number_segment [OF assms] by blast
  then obtain c x where c: "p = c # x" by (cases p) auto
  have "skip_val (Suc n) (p @ t) = skip_number (p @ t)" for t using p(4) c by (simp add: sv_simps(9))
  then have "val_seg (skip_val (Suc n)) p p"
    using p(2,4,5) comp_number [OF p(3)] by (auto simp: val_seg_def)
  with p(1) show ?thesis by blast
qed

lemma scan_segment:
  "skip_val n s = Some r \<Longrightarrow> \<exists>w p v. s = w @ p @ r \<and> list_all is_ws w \<and> val_seg (skip_val n) p v"
  "skip_elems n s = Some r \<Longrightarrow> \<exists>p v. s = p @ r \<and> tail_seg (skip_elems n) p v"
  "skip_mems n s = Some r \<Longrightarrow> \<exists>p v. s = p @ r \<and> tail_seg (skip_mems n) p v"
proof (induction n s and n s and n s arbitrary: r and r and r rule: skip_val_skip_elems_skip_mems.induct)
  case (2 n s)
  from "2.prems" obtain c t where ct: "skip_ws s = c # t" by (auto simp: skip_val.simps split: list.splits)
  obtain w where w: "s = w @ c # t" "list_all is_ws w" using skip_ws_split [OF ct] by blast
  have sv: "skip_val (Suc n) (c # t) = Some r" using "2.prems" w by (simp add: skip_val_ws)
  have "\<exists>p v. c # t = p @ r \<and> val_seg (skip_val (Suc n)) p v"
  proof -
    consider "byte c = 0x22" | "byte c \<noteq> 0x22" "c = CHR ''{''" | "byte c \<noteq> 0x22" "c = CHR ''[''"
      | "c = CHR ''t''" | "c = CHR ''f''" | "c = CHR ''n''"
      | "byte c \<noteq> 0x22" "c \<noteq> CHR ''{''" "c \<noteq> CHR ''[''" "c \<noteq> CHR ''t''" "c \<noteq> CHR ''f''" "c \<noteq> CHR ''n''" by blast
    then show ?thesis
    proof cases
      case 1
      with sv have "skip_str t = Some r" by (simp add: sv_simps)
      then obtain p v where "t = p @ r" "str_seg p v" using skip_str_segment by blast
      with val_seg_string [OF this(2) 1] show ?thesis by (metis append_Cons)
    next
      case 2
      with "2.prems" ct obtain d u where du: "skip_ws t = d # u" by (auto simp: skip_val.simps split: list.splits)
      obtain w2 where w2: "t = w2 @ d # u" "list_all is_ws w2" using skip_ws_split [OF du] by blast
      show ?thesis
      proof (cases "d = CHR ''}''")
        case True
        with sv 2 du have r: "r = u" by (simp add: sv_simps(2))
        have "comp (''{'' @ w2 @ ''}'') (''{'' @ [] @ ''}'')" "comp (''{'' @ ''}'') (''{'' @ ''}'')"
          by (intro comp_append comp_structural comp_ws w2(2))+
        moreover have "skip_val (Suc n) (CHR ''{'' # w2 @ CHR ''}'' # x) = Some x" "skip_val (Suc n) (''{}'' @ x) = Some x" for x
          using w2(2) by (simp_all add: sv_simps(2))
        ultimately have "val_seg (skip_val (Suc n)) (CHR ''{'' # w2 @ ''}'') ''{}''" by (simp add: val_seg_def)
        then show ?thesis using 2(2) r True w2(1) by (intro exI [of _ "CHR ''{'' # w2 @ ''}''"] exI [of _ "''{}''"]) simp
      next
        case False
        with sv 2 du have "skip_mems n (d # u) = Some r" by (simp add: sv_simps(3))
        with "2.IH"(1) [OF ct 2 du False] obtain p v where pv: "d # u = p @ r" "tail_seg (skip_mems n) p v" by blast
        then have p: "hd p = d" "p \<noteq> []" by (cases p; auto simp: tail_seg_def)+
        then have "skip_ws p = p" using skip_ws_head [OF du] by (cases p) auto
        with seg_object [OF pv(2) w2(2)] p False have "val_seg (skip_val (Suc n)) (CHR ''{'' # w2 @ p) (CHR ''{'' # v)" by simp
        then show ?thesis using 2(2) w2(1) pv(1) by (intro exI [of _ "CHR ''{'' # w2 @ p"] exI [of _ "CHR ''{'' # v"]) simp
      qed
    next
      case 3
      with "2.prems" ct obtain d u where du: "skip_ws t = d # u" by (auto simp: skip_val.simps split: list.splits)
      obtain w2 where w2: "t = w2 @ d # u" "list_all is_ws w2" using skip_ws_split [OF du] by blast
      show ?thesis
      proof (cases "d = CHR '']''")
        case True
        with sv 3 du have r: "r = u" by (simp add: sv_simps(4))
        have "comp (''['' @ w2 @ '']'') (''['' @ [] @ '']'')" "comp (''['' @ '']'') (''['' @ '']'')"
          by (intro comp_append comp_structural comp_ws w2(2))+
        moreover have "skip_val (Suc n) (CHR ''['' # w2 @ CHR '']'' # x) = Some x" "skip_val (Suc n) (''[]'' @ x) = Some x" for x
          using w2(2) by (simp_all add: sv_simps(4))
        ultimately have "val_seg (skip_val (Suc n)) (CHR ''['' # w2 @ '']'') ''[]''" by (simp add: val_seg_def)
        then show ?thesis using 3(2) r True w2(1) by (intro exI [of _ "CHR ''['' # w2 @ '']''"] exI [of _ "''[]''"]) simp
      next
        case False
        with sv 3 du have e: "skip_elems n (d # u) = Some r" by (simp add: sv_simps(5))
        from 3 have "c \<noteq> CHR ''{''" by simp
        from "2.IH"(2) [OF ct 3(1) this 3(2) du False e] obtain p v where pv: "d # u = p @ r" "tail_seg (skip_elems n) p v" by blast
        then have p: "hd p = d" "p \<noteq> []" by (cases p; auto simp: tail_seg_def)+
        then have "skip_ws p = p" using skip_ws_head [OF du] by (cases p) auto
        with seg_array [OF pv(2) w2(2)] p False have "val_seg (skip_val (Suc n)) (CHR ''['' # w2 @ p) (CHR ''['' # v)" by simp
        then show ?thesis using 3(2) w2(1) pv(1) by (intro exI [of _ "CHR ''['' # w2 @ p"] exI [of _ "CHR ''['' # v"]) simp
      qed
    next
      case 4
      with sv literal_seg [of "''true''" "c # t" r "skip_val (Suc n)"] lit_comp(1) show ?thesis by (auto simp: sv_simps)
    next
      case 5
      with sv literal_seg [of "''false''" "c # t" r "skip_val (Suc n)"] lit_comp(2) show ?thesis by (auto simp: sv_simps)
    next
      case 6
      with sv literal_seg [of "''null''" "c # t" r "skip_val (Suc n)"] lit_comp(3) show ?thesis by (auto simp: sv_simps)
    next
      case 7
      with sv skip_ws_head [OF ct] have "skip_number (c # t) = Some r" by (simp add: skip_val.simps)
      then show ?thesis using val_seg_number by blast
    qed
  qed
  with w show ?case by (metis append_assoc)
next
  case (4 n s)
  from "4.prems" obtain r1 where v: "skip_val n s = Some r1" by (auto simp: skip_elems.simps split: option.splits)
  from "4.IH"(1) [OF v] obtain w p v1 where e: "s = w @ p @ r1" "list_all is_ws w" "val_seg (skip_val n) p v1" by blast
  from "4.prems" v obtain c t where ct: "skip_ws r1 = c # t" by (auto simp: skip_elems.simps split: list.splits)
  obtain w2 where w2: "r1 = w2 @ c # t" "list_all is_ws w2" using skip_ws_split [OF ct] by blast
  have "\<exists>q z. t = q @ r \<and> ((c = CHR '']'' \<and> q = [] \<and> z = []) \<or> (c = CHR '','' \<and> tail_seg (skip_elems n) q z))"
  proof (cases "c = CHR '',''")
    case True
    with "4.prems" v ct have "skip_elems n t = Some r" by (simp add: se_simps)
    with "4.IH"(2) [OF v ct True] True show ?thesis by blast
  next
    case False
    with "4.prems" v ct have "c = CHR '']''" "t = r" by (simp_all add: skip_elems.simps split: if_splits)
    then show ?thesis by auto
  qed
  then obtain q z where "t = q @ r" "(c = CHR '']'' \<and> q = [] \<and> z = []) \<or> (c = CHR '','' \<and> tail_seg (skip_elems n) q z)" by blast
  with seg_elem [OF e(3,2) w2(2) this(2)] e(1) w2(1) show ?case
    by (intro exI [of _ "w @ p @ w2 @ c # q"] exI [of _ "v1 @ c # z"]) simp
next
  case (6 n s)
  from "6.prems" obtain q k where qk: "skip_ws s = q # k" by (auto simp: skip_mems.simps split: list.splits)
  with "6.prems" have q: "\<not> byte q \<noteq> 0x22" by (auto simp: skip_mems.simps split: if_splits)
  from "6.prems" qk q obtain r1 where str: "skip_str k = Some r1" by (auto simp: skip_mems.simps split: option.splits)
  from "6.prems" qk q str obtain c t where ct: "skip_ws r1 = c # t" by (auto simp: skip_mems.simps split: list.splits)
  from "6.prems" qk q str ct have c: "\<not> c \<noteq> CHR '':''" by (auto simp: skip_mems.simps split: if_splits)
  from "6.prems" qk q str ct c obtain u where v: "skip_val n t = Some u" by (auto simp: skip_mems.simps split: option.splits)
  from "6.prems" qk q str ct c v obtain d x where dw: "skip_ws u = d # x" by (auto simp: skip_mems.simps split: list.splits)
  obtain w0 where w0: "s = w0 @ q # k" "list_all is_ws w0" using skip_ws_split [OF qk] by blast
  obtain pk vk where k: "k = pk @ r1" "str_seg pk vk" using skip_str_segment [OF str] by blast
  obtain w1 where w1: "r1 = w1 @ c # t" "list_all is_ws w1" using skip_ws_split [OF ct] by blast
  from "6.IH"(1) [OF qk q str ct c v] obtain w2 p v1 where e: "t = w2 @ p @ u" "list_all is_ws w2" "val_seg (skip_val n) p v1" by blast
  obtain w3 where w3: "u = w3 @ d # x" "list_all is_ws w3" using skip_ws_split [OF dw] by blast
  have "\<exists>q' z. x = q' @ r \<and> ((d = CHR ''}'' \<and> q' = [] \<and> z = []) \<or> (d = CHR '','' \<and> tail_seg (skip_mems n) q' z))"
  proof (cases "d = CHR '',''")
    case True
    with "6.prems" qk q str ct c v dw have "skip_mems n x = Some r" by (simp add: sm_simps)
    with "6.IH"(2) [OF qk q str ct c v dw True] True show ?thesis by blast
  next
    case False
    with "6.prems" qk q str ct c v dw have "d = CHR ''}''" "x = r" by (simp_all add: skip_mems.simps split: if_splits)
    then show ?thesis by auto
  qed
  then obtain q' z where z: "x = q' @ r" "(d = CHR ''}'' \<and> q' = [] \<and> z = []) \<or> (d = CHR '','' \<and> tail_seg (skip_mems n) q' z)" by blast
  from q have q: "byte q = 0x22" by simp
  from seg_member [OF k(2) q e(3) w0(2) w1(2) e(2) w3(2) z(2)]
  show ?case using w0(1) k(1) w1(1) e(1) w3(1) z(1) c
    by (intro exI [of _ "w0 @ q # pk @ w1 @ CHR '':'' # w2 @ p @ w3 @ d # q'"] exI [of _ "q # vk @ CHR '':'' # v1 @ d # z"]) simp
qed (simp_all add: skip_val.simps skip_elems.simps skip_mems.simps)

section \<open>Raw values and compact values\<close>

text \<open>\<open>seg p v\<close>: \<open>p\<close> is the text of one value, without white space around it, and \<open>v\<close> its compact
  form; \<open>solid v\<close>: \<open>v\<close> is a compact value.\<close>

definition seg :: "string \<Rightarrow> string \<Rightarrow> bool" where
  "seg p v \<longleftrightarrow> p \<noteq> [] \<and> v \<noteq> [] \<and> hd v = hd p \<and> vhead (hd p) \<and> comp p v \<and> comp v v \<and>
     (\<forall>t. stop t \<longrightarrow> scans (p @ t) t) \<and> (\<forall>t. stop t \<longrightarrow> scans (v @ t) t)"

abbreviation solid :: "string \<Rightarrow> bool" where
  "solid v \<equiv> seg v v"

lemma seg_solid: "seg p v \<Longrightarrow> solid v"
  by (simp add: seg_def)

lemma val_seg_seg: "val_seg (skip_val n) p v \<Longrightarrow> seg p v"
  unfolding val_seg_def seg_def scans_def by blast

lemma scans_segment:
  assumes "scans s r"
  obtains w p v where "s = w @ p @ r" "list_all is_ws w" "seg p v"
proof -
  from assms obtain n where "skip_val n s = Some r" unfolding scans_def by (rule exE)
  from scan_segment(1) [OF this] obtain w p v where "s = w @ p @ r" "list_all is_ws w" "val_seg (skip_val n) p v"
    by (elim exE conjE)
  then show ?thesis by (intro that [OF _ _ val_seg_seg])
qed

lemma seg_scans: "seg p v \<Longrightarrow> stop t \<Longrightarrow> scans (p @ t) t"
  by (simp add: seg_def)

lemma seg_skip_ws: "seg p v \<Longrightarrow> skip_ws (p @ t) = p @ t"
  by (cases p) (auto simp: seg_def vhead_def)

lemma seg_before: "seg p v \<Longrightarrow> before (skip_ws (p @ t)) t = p"
  by (simp add: seg_skip_ws before_def)

lemma scans_before:
  assumes "scans s r"
  shows "\<exists>v. seg (before (skip_ws s) r) v"
proof -
  obtain w p v where s: "s = w @ p @ r" "list_all is_ws w" "seg p v" using scans_segment [OF assms] .
  then have "before (skip_ws s) r = p" using seg_before [OF s(3), of r] by simp
  with s(3) show ?thesis by blast
qed

lemma skip_ws_Nil_iff: "skip_ws r = [] \<longleftrightarrow> list_all is_ws r"
  by (induction r) (simp_all add: skip_ws_def)

lemma json_valid_segment:
  assumes "json_valid s"
  obtains w p w' v where "s = w @ p @ w'" "list_all is_ws w" "list_all is_ws w'" "seg p v" "compact_raw False s = v"
proof -
  from assms obtain r where r: "scans s r" "skip_ws r = []" by (auto simp: json_valid_iff)
  obtain w p v where s: "s = w @ p @ r" "list_all is_ws w" "seg p v" using scans_segment [OF r(1)] .
  from r(2) have ws: "list_all is_ws r" by (simp add: skip_ws_Nil_iff)
  have "comp (w @ p @ r) ([] @ v @ [])" using s(2,3) ws by (intro comp_append comp_ws) (auto simp: seg_def)
  then have "compact_raw False ((w @ p @ r) @ []) = ([] @ v @ []) @ compact_raw False []" unfolding comp_def by blast
  then have "compact_raw False (w @ p @ r) = v" by simp
  with s ws show ?thesis by (intro that [of w p r v]) simp_all
qed

lemma seg_json_valid: "seg p v \<Longrightarrow> json_valid p"
  using seg_scans [of p v "[]"] by (auto simp: json_valid_iff skip_ws_def)

lemma seg_compact: "seg p v \<Longrightarrow> compact_raw False p = v"
proof -
  assume "seg p v"
  then have "compact_raw False (p @ []) = v @ compact_raw False []" unfolding seg_def comp_def by blast
  then show ?thesis by simp
qed

lemma json_valid_compact: "json_valid s \<Longrightarrow> solid (compact_raw False s)"
  by (erule json_valid_segment) (simp add: seg_solid)

text \<open>Compacting twice is compacting once.\<close>

lemma compact_compact: "json_valid s \<Longrightarrow> compact_raw False (compact_raw False s) = compact_raw False s"
  using json_valid_compact seg_compact by blast

lemma json_valid_nil: "\<not> json_valid []"
  by (simp add: json_valid_iff scans_def) (metis ended_length less_nat_zero_code list.size(3) skip_ended(1))

end
