(* ===== verification/JsonPrint.thy ===== *)
theory JsonPrint
  imports JsonScan
begin

text \<open>
  Printed JSON and what decoding it gives: the literal \<open>json_quote\<close> writes for a string decodes to
  that string, the arrays and objects that are put together from compact values decode into these
  values, and all of it is compact again. In the other direction, what the decoder cuts out of any
  text is one value each, and the strings it reads are valid UTF-8.
\<close>

section \<open>String literals\<close>

lemma quote_body_Nil [simp]: "quote_body [] = []"
  by (subst quote_body.simps) simp

lemma quote_body_ascii: "byte c < 0x80 \<Longrightarrow> quote_body (c # s) = quote_byte c @ quote_body s"
  by (subst quote_body.simps) (simp add: Let_def)

lemma quote_body_multi:
  assumes "u \<noteq> []" and "0x80 \<le> r" and "(r, length u) \<noteq> (rune_error, 1)" and "\<And>t. decode_rune (u @ t) = (r, length u)"
  shows "quote_body (u @ s) = (if r = 0x2028 \<or> r = 0x2029 then [CHR 0x5C, CHR ''u''] @ hex4 r else u) @ quote_body s"
  using assms by (subst quote_body.simps) (auto simp: Let_def)

lemma quote_body_bad:
  assumes "decode_rune (c # s) = (rune_error, 1)"
  shows "quote_body (c # s) = [CHR 0x5C, CHR ''u''] @ hex4 rune_error @ quote_body s"
proof -
  have "''ufffd'' = CHR ''u'' # hex4 rune_error"
    by (simp add: hex4_def hex_digit_def chr_eq2 byte_def rune_error_def)
  with assms show ?thesis by (subst quote_body.simps) (simp add: Let_def rune_error_def)
qed

lemma byte_quote [simp]: "byte (CHR 0x22) = 0x22"
  by (simp add: byte_def)

lemma byte_cases_quote:
  assumes "byte c < 0x80"
  obtains (esc) e where "map_of simple_escapes e = Some (byte c)" "e \<noteq> CHR ''u''" "quote_byte c = [CHR 0x5C, e]"
  | (hex) "quote_byte c = [CHR 0x5C, CHR ''u''] @ hex4 (byte c)"
  | (plain) "quote_byte c = [c]" "byte c \<noteq> 0x22" "byte c \<noteq> 0x5C" "\<not> byte c < 0x20" "\<not> special c"
proof -
  consider "byte c = 0x22" | "byte c = 0x5C" | "byte c = 0x08" | "byte c = 0x0C" | "byte c = 0x0A"
    | "byte c = 0x0D" | "byte c = 0x09"
    | "byte c \<noteq> 0x22" "byte c \<noteq> 0x5C" "byte c \<noteq> 0x08" "byte c \<noteq> 0x0C" "byte c \<noteq> 0x0A" "byte c \<noteq> 0x0D"
      "byte c \<noteq> 0x09" by blast
  then show ?thesis
  proof cases
    case 1
    then have "c = CHR 0x22" by (metis byte_quote byte_inject)
    then show ?thesis by (intro esc [of c]) (simp_all add: quote_byte_def simple_escapes_def byte_def)
  next
    case 2
    then have "c = CHR 0x5C" by (metis byte_backslash byte_inject)
    then show ?thesis by (intro esc [of c]) (simp_all add: quote_byte_def simple_escapes_def byte_def)
  next
    case 3
    then show ?thesis by (intro esc [of "CHR ''b''"]) (simp_all add: quote_byte_def simple_escapes_def)
  next
    case 4
    then show ?thesis by (intro esc [of "CHR ''f''"]) (simp_all add: quote_byte_def simple_escapes_def)
  next
    case 5
    then show ?thesis by (intro esc [of "CHR ''n''"]) (simp_all add: quote_byte_def simple_escapes_def)
  next
    case 6
    then show ?thesis by (intro esc [of "CHR ''r''"]) (simp_all add: quote_byte_def simple_escapes_def)
  next
    case 7
    then show ?thesis by (intro esc [of "CHR ''t''"]) (simp_all add: quote_byte_def simple_escapes_def)
  next
    case 8
    then show ?thesis
      using plain hex by (cases "byte c < 0x20 \<or> special c") (simp_all add: quote_byte_def special_def Let_def)
  qed
qed

lemma encode_rune_tl: "list_all (\<lambda>c. byte c < 0xC0) (tl (encode_rune r))"
proof -
  have "q mod 64 + 128 < (192::nat)" for q by (simp add: add.commute [of _ 128])
  then show ?thesis by (simp add: encode_rune_def add.commute)
qed

lemma cr_high:
  "list_all (\<lambda>c. 0x80 \<le> byte c \<and> byte c < 0xC0) u \<Longrightarrow> compact_raw True (u @ s) = u @ compact_raw True s"
  by (induction u) (auto simp: cr_plain special_def)

lemma skip_str_high: "list_all (\<lambda>c. 0x80 \<le> byte c) u \<Longrightarrow> skip_str (u @ s) = skip_str s"
  by (induction u) auto

lemma cr_multi:
  assumes "u \<noteq> []" and "list_all (\<lambda>c. 0x80 \<le> byte c) u" and "encode_rune r = u"
    and "\<And>t. decode_rune (u @ t) = (r, length u)" and "r \<noteq> 0x2028" and "r \<noteq> 0x2029"
  shows "compact_raw True (u @ s) = u @ compact_raw True s"
proof -
  obtain c u' where u: "u = c # u'" using assms(1) by (cases u) auto
  have tl: "list_all (\<lambda>c. 0x80 \<le> byte c \<and> byte c < 0xC0) u'"
    using assms(2) encode_rune_tl [of r] assms(3) u by (auto simp: list_all_iff)
  have n: "\<not> (byte c = 0xE2 \<and> ls2 (u' @ s))"
  proof
    assume a: "byte c = 0xE2 \<and> ls2 (u' @ s)"
    then obtain y where "u' @ s = chr 0x80 # chr 0xA8 # y \<or> u' @ s = chr 0x80 # chr 0xA9 # y"
      by (auto simp: ls2_def prefix_def)
    then have "decode_rune (u @ s) = (0x2028, 3) \<or> decode_rune (u @ s) = (0x2029, 3)"
      using a u by (auto simp: Let_def cont_byte_def)
    with assms(4) [of s] assms(5,6) show False by auto
  qed
  have "byte c \<noteq> 0x5C" "\<not> special c" "byte c \<noteq> 0x22" using assms(2) u by (auto simp: special_def)
  with n cr_high [OF tl] show ?thesis by (simp add: u cr_plain)
qed

lemma quote_body_scan:
  "skip_str (quote_body s @ CHR 0x22 # t) = Some t \<and>
   compact_raw True (quote_body s @ CHR 0x22 # t) = quote_body s @ CHR 0x22 # compact_raw False t"
proof (induction s rule: utf8_induct)
  case Nil
  show ?case by (simp add: cr_plain special_def)
next
  case (ascii c s)
  from ascii(1) show ?case
  proof (cases rule: byte_cases_quote)
    case (esc e)
    then show ?thesis using ascii by (simp add: quote_body_ascii cr_escape)
  next
    case hex
    then show ?thesis using ascii cr_hex4 [of "byte c" "quote_body s @ CHR 0x22 # t"]
        skip_str_hex4 [of "byte c" "quote_body s @ CHR 0x22 # t"] by (simp add: quote_body_ascii del: skip_str.simps)
  next
    case plain
    then show ?thesis using ascii by (simp add: quote_body_ascii cr_plain)
  qed
next
  case (multi u r s)
  note q = quote_body_multi [OF multi(1,3,5,6)]
  show ?case
  proof (cases "r = 0x2028 \<or> r = 0x2029")
    case True
    then show ?thesis using multi(7) q cr_hex4 [of r "quote_body s @ CHR 0x22 # t"]
        skip_str_hex4 [of r "quote_body s @ CHR 0x22 # t"] by (simp del: skip_str.simps)
  next
    case False
    with multi(7) q skip_str_high [OF multi(2)] cr_multi [OF multi(1,2,4,6)] show ?thesis by simp
  qed
next
  case (bad c s)
  then show ?case using quote_body_bad [OF bad(1)] cr_hex4 [of rune_error "quote_body s @ CHR 0x22 # t"]
      skip_str_hex4 [of rune_error "quote_body s @ CHR 0x22 # t"] by (simp del: skip_str.simps)
qed

lemma ub_quote: "byte c = 0x22 \<Longrightarrow> unquote_body (c # t) = []"
  by (subst unquote_body.simps) simp

lemma getu4_hex4:
  assumes "n < 65536"
  shows "getu4 (CHR 0x5C # CHR ''u'' # hex4 n @ s) = Some n"
proof -
  have m: "n div 4096 mod 16 = n div 4096" using assms by simp
  have "n div 4096 * 4096 + n div 256 mod 16 * 256 + n div 16 mod 16 * 16 + n mod 16 = n"
  proof -
    have "n div 256 = n div 4096 * 16 + n div 256 mod 16"
      using div_mult_mod_eq [of "n div 256" 16] by (simp add: div_mult2_eq [symmetric])
    moreover have "n div 16 = n div 256 * 16 + n div 16 mod 16"
      using div_mult_mod_eq [of "n div 16" 16] by (simp add: div_mult2_eq [symmetric])
    moreover have "n = n div 16 * 16 + n mod 16" by simp
    ultimately show ?thesis by linarith
  qed
  moreover have "n div 4096 < 16" using assms by simp
  ultimately show ?thesis by (simp add: hex4_def m)
qed

lemma ub_hex4:
  assumes "n < 65536" and "\<not> is_surrogate n"
  shows "unquote_body ([CHR 0x5C, CHR ''u''] @ hex4 n @ s) = encode_rune n @ unquote_body s"
proof -
  have d: "drop 6 (CHR 0x5C # CHR ''u'' # hex4 n @ s) = s" by (simp add: hex4_def)
  show ?thesis using getu4_hex4 [OF assms(1)] assms(2) d
    by (subst unquote_body.simps) (simp del: getu4.simps)
qed

lemma getu4_no_u: "e \<noteq> CHR ''u'' \<Longrightarrow> getu4 (c # e # s) = None"
  by (cases "c # e # s" rule: getu4.cases) auto

lemma ub_esc:
  "e \<noteq> CHR ''u'' \<Longrightarrow> map_of simple_escapes e = Some b \<Longrightarrow> unquote_body (CHR 0x5C # e # s) = chr b # unquote_body s"
  by (subst unquote_body.simps) (simp add: getu4_no_u)

lemma ub_plain:
  "byte c < 0x80 \<Longrightarrow> byte c \<noteq> 0x22 \<Longrightarrow> byte c \<noteq> 0x5C \<Longrightarrow> unquote_body (c # s) = c # unquote_body s"
  by (subst unquote_body.simps) (simp add: Let_def enc1)

lemma ub_multi:
  assumes "u \<noteq> []" and "list_all (\<lambda>c. 0x80 \<le> byte c) u" and "encode_rune r = u"
    and "\<And>t. decode_rune (u @ t) = (r, length u)"
  shows "unquote_body (u @ s) = u @ unquote_body s"
proof -
  obtain c u' where u: "u = c # u'" using assms(1) by (cases u) auto
  then have "byte c \<noteq> 0x22" "byte c \<noteq> 0x5C" using assms(2) by auto
  then show ?thesis using assms(3) assms(4) [of s] u
    by (subst unquote_body.simps) (simp del: decode_rune.simps)
qed

lemma unquote_quote: "valid_utf8 s \<Longrightarrow> unquote_body (quote_body s @ CHR 0x22 # t) = s"
proof (induction s rule: utf8_induct)
  case Nil
  show ?case by (simp add: ub_quote)
next
  case (ascii c s)
  then have ih: "unquote_body (quote_body s @ CHR 0x22 # t) = s" by simp
  from ascii(1) show ?case
  proof (cases rule: byte_cases_quote)
    case (esc e)
    then show ?thesis using ih ascii(1) by (simp add: quote_body_ascii ub_esc)
  next
    case hex
    then show ?thesis using ih ascii(1) ub_hex4 [of "byte c" "quote_body s @ CHR 0x22 # t"]
      by (simp add: quote_body_ascii is_surrogate_def enc1)
  next
    case plain
    then show ?thesis using ih ascii(1) by (simp add: quote_body_ascii ub_plain)
  qed
next
  case (multi u r s)
  note q = quote_body_multi [OF multi(1,3,5,6)]
  have ih: "unquote_body (quote_body s @ CHR 0x22 # t) = s"
    using multi(7,8) valid_utf8_multi [OF multi(1,5,6)] by simp
  show ?case
  proof (cases "r = 0x2028 \<or> r = 0x2029")
    case True
    then have "r < 65536" "\<not> is_surrogate r" by (auto simp: is_surrogate_def)
    with True ih q multi(4) ub_hex4 [of r "quote_body s @ CHR 0x22 # t"] show ?thesis by simp
  next
    case False
    with ih q ub_multi [OF multi(1,2,4,6)] show ?thesis by simp
  qed
next
  case (bad c s)
  then show ?case using valid_utf8_bad by blast
qed

lemma solid_quote [simp]: "solid (json_quote s)"
proof -
  have c: "comp (json_quote s) (json_quote s)"
    using quote_body_scan [of s] by (simp add: comp_def json_quote_def cr_out special_def is_ws_def)
  have "skip_val (Suc n) (json_quote s @ t) = Some t" for n t
    using quote_body_scan [of s t] by (simp add: json_quote_def sv_simps(1))
  then have "scans (json_quote s @ t) t" for t unfolding scans_def by blast
  moreover have "hd (json_quote s) = CHR 0x22" "json_quote s \<noteq> []" by (simp_all add: json_quote_def)
  ultimately show ?thesis using c by (simp add: seg_def)
qed

text \<open>A string survives \<open>json.Marshal\<close> followed by \<open>json.Unmarshal\<close>.\<close>

lemma unmarshal_quote [simp]: "valid_utf8 s \<Longrightarrow> unmarshal_string (json_quote s) = Some s"
  using seg_json_valid [OF solid_quote [of s]] unquote_quote [of s "[]"]
  by (simp add: unmarshal_string_def json_quote_def quote_not_ws)

section \<open>Strings that were read\<close>

lemma simple_escape_ascii: "map_of simple_escapes e = Some b \<Longrightarrow> b < 0x80"
  by (auto simp: simple_escapes_def split: if_splits)

lemma unquote_valid: "valid_utf8 (unquote_body s)"
proof (induction s rule: unquote_body.induct)
  case (1 s)
  show ?case
  proof (cases s)
    case Nil
    then show ?thesis by (subst unquote_body.simps) simp
  next
    case (Cons c t)
    show ?thesis
    proof (cases "byte c = 0x22 \<or> byte c \<noteq> 0x5C")
      case True
      then show ?thesis using Cons 1
        by (subst unquote_body.simps) (auto split: prod.splits simp del: decode_rune.simps)
    next
      case False
      then have c: "byte c \<noteq> 0x22" "byte c = 0x5C" by auto
      show ?thesis
      proof (cases "getu4 s")
        case None
        then show ?thesis using Cons c 1
          by (subst unquote_body.simps)
            (auto split: list.splits option.splits dest: simple_escape_ascii)
      next
        case (Some r1)
        then show ?thesis
          using Cons c 1 by (subst unquote_body.simps) (auto split: option.splits)
      qed
    qed
  qed
qed

lemma unmarshal_string_valid: "unmarshal_string s = Some x \<Longrightarrow> valid_utf8 x"
  by (auto simp: unmarshal_string_def unquote_valid split: if_splits list.splits)

section \<open>Arrays\<close>

definition print_array :: "string list \<Rightarrow> string" where
  "print_array vs = ''['' @ join '','' vs @ '']''"

fun elems_text :: "string list \<Rightarrow> string" where
  "elems_text [] = []"
| "elems_text [v] = v @ '']''"
| "elems_text (v # vs) = v @ '','' @ elems_text vs"

lemma join_elems: "vs \<noteq> [] \<Longrightarrow> join '','' vs @ '']'' = elems_text vs"
  by (induction vs rule: elems_text.induct) simp_all

lemma elems_text_Cons: "elems_text (v # vs) = v @ (if vs = [] then '']'' else '','' @ elems_text vs)"
  by (cases vs) simp_all

lemma elems_scan:
  "vs \<noteq> [] \<Longrightarrow> list_all solid vs \<Longrightarrow> \<exists>n. skip_elems n (elems_text vs @ t) = Some t"
proof (induction vs)
  case (Cons v vs)
  let ?x = "if vs = [] then '']'' @ t else '','' @ elems_text vs @ t"
  have "scans (v @ ?x) ?x" using Cons.prems(2) by (intro seg_scans [of v v]) simp_all
  then obtain n where n: "skip_val n (v @ ?x) = Some ?x" unfolding scans_def by blast
  show ?case
  proof (cases "vs = []")
    case True
    with n have "skip_elems (Suc n) (elems_text (v # vs) @ t) = Some t" by (simp add: elems_text_Cons se_simps)
    then show ?thesis ..
  next
    case False
    with Cons obtain m where m: "skip_elems m (elems_text vs @ t) = Some t" by auto
    let ?s = "elems_text vs @ t"
    define k where "k = max (2 * length (v @ ?x)) (2 * length ?s + 1)"
    have "skip_val k (v @ ?x) = Some ?x" by (rule skip_enough(1) [OF n]) (simp add: k_def)
    moreover have "skip_elems k ?s = Some t" by (rule skip_enough(2) [OF m]) (simp add: k_def)
    ultimately have "skip_elems (Suc k) (elems_text (v # vs) @ t) = Some t"
      using False by (simp add: elems_text_Cons se_simps(1) [of k "v @ CHR '','' # ?s" "CHR '','' # ?s"])
    then show ?thesis ..
  qed
qed simp

lemma comp_join: "list_all solid vs \<Longrightarrow> comp (join '','' vs) (join '','' vs)"
proof (induction vs rule: elems_text.induct)
  case (3 v w vs)
  have "comp (v @ '','' @ join '','' (w # vs)) (v @ '','' @ join '','' (w # vs))"
    using 3 by (intro comp_append comp_structural) (simp_all add: seg_def)
  then show ?case by simp
qed (simp_all add: seg_def comp_def)

lemma elems_head:
  assumes "vs \<noteq> []" and "list_all solid vs"
  obtains c x where "elems_text vs = c # x" "vhead c"
proof -
  from assms obtain v ws where v: "vs = v # ws" "solid v" by (cases vs) auto
  then obtain c y where "v = c # y" "vhead c" by (cases v) (auto simp: seg_def)
  then show ?thesis using v(1) by (intro that [of c]) (simp_all add: elems_text_Cons)
qed

lemma print_array_Nil [simp]: "print_array [] = ''[]''"
  by (simp add: print_array_def)

lemma print_array_ne: "vs \<noteq> [] \<Longrightarrow> print_array vs = CHR ''['' # elems_text vs"
  by (simp add: print_array_def join_elems)

lemma solid_array [simp]:
  assumes "list_all solid vs"
  shows "solid (print_array vs)"
proof -
  have c: "comp (print_array vs) (print_array vs)"
    unfolding print_array_def by (intro comp_append comp_structural comp_join assms)
  have "scans (print_array vs @ t) t" for t
  proof (cases "vs = []")
    case True
    have "skip_val (Suc 0) (''[]'' @ t) = Some t" by (simp add: sv_simps(4))
    with True show ?thesis unfolding scans_def by (intro exI) simp
  next
    case False
    obtain n where n: "skip_elems n (elems_text vs @ t) = Some t" using elems_scan [OF False assms] by blast
    obtain c x where h: "elems_text vs = c # x" "vhead c" using elems_head [OF False assms] .
    with n have "skip_val (Suc n) (print_array vs @ t) = Some t"
      using False by (simp add: print_array_ne sv_simps(5) vhead_def)
    then show ?thesis unfolding scans_def ..
  qed
  moreover have "print_array vs \<noteq> []" "hd (print_array vs) = CHR ''[''" by (simp_all add: print_array_def)
  ultimately show ?thesis using c by (simp add: seg_def)
qed

lemma cut_elems_print:
  "vs \<noteq> [] \<Longrightarrow> list_all solid vs \<Longrightarrow> length vs \<le> n \<Longrightarrow> cut_elems n (elems_text vs @ t) = vs"
proof (induction vs arbitrary: n)
  case (Cons v vs)
  then obtain m where n: "n = Suc m" by (cases n) auto
  let ?x = "if vs = [] then '']'' @ t else '','' @ elems_text vs @ t"
  have v: "solid v" using Cons.prems(2) by simp
  have sc: "scans (v @ ?x) ?x" by (rule seg_scans [OF v]) simp
  have s: "elems_text (v # vs) @ t = v @ ?x" by (simp add: elems_text_Cons)
  from seg_before [OF v] have b: "before (skip_ws (v @ ?x)) ?x = v" .
  have "cut_elems n (v @ ?x) = v # (case skip_ws ?x of [] \<Rightarrow> [] | c # t \<Rightarrow> if c = CHR '','' then cut_elems m t else [])"
    unfolding n cut_elems.simps using sc [folded fuel_enough] b by (simp del: if_split)
  also have "\<dots> = v # vs"
  proof (cases "vs = []")
    case False
    with Cons n show ?thesis by simp
  qed simp
  finally show ?case unfolding s .
qed simp

lemma elems_length: "list_all solid vs \<Longrightarrow> length vs \<le> length (elems_text vs)"
  by (induction vs rule: elems_text.induct) simp_all

text \<open>Decoding a printed array gives its elements back.\<close>

lemma unmarshal_print_array:
  assumes "list_all solid vs"
  shows "unmarshal_array (print_array vs) = Some vs"
proof -
  have v: "json_valid (print_array vs)" by (rule seg_json_valid [OF solid_array [OF assms]])
  show ?thesis
  proof (cases "vs = []")
    case True
    with v show ?thesis by (simp add: unmarshal_array_def)
  next
    case False
    obtain c x where h: "elems_text vs = c # x" "vhead c" using elems_head [OF False assms] .
    have "length vs \<le> length (print_array vs)" using elems_length [OF assms] False by (simp add: print_array_ne)
    from cut_elems_print [OF False assms this, of "[]"]
    show ?thesis using v False h by (simp add: unmarshal_array_def print_array_ne vhead_def)
  qed
qed

section \<open>Objects\<close>

definition print_member :: "string \<times> string \<Rightarrow> string" where
  "print_member m = json_quote (fst m) @ '':'' @ snd m"

definition print_object :: "(string \<times> string) list \<Rightarrow> string" where
  "print_object ms = ''{'' @ join '','' (map print_member ms) @ ''}''"

fun mems_text :: "(string \<times> string) list \<Rightarrow> string" where
  "mems_text [] = []"
| "mems_text (m # ms) = print_member m @ (if ms = [] then ''}'' else '','' @ mems_text ms)"

lemma join_mems: "ms \<noteq> [] \<Longrightarrow> join '','' (map print_member ms) @ ''}'' = mems_text ms"
  by (induction ms rule: induct_list012) simp_all

lemma print_object_Nil [simp]: "print_object [] = ''{}''"
  by (simp add: print_object_def)

lemma print_object_ne: "ms \<noteq> [] \<Longrightarrow> print_object ms = CHR ''{'' # mems_text ms"
  by (simp add: print_object_def join_mems)

lemma member_comp: "solid (snd m) \<Longrightarrow> comp (print_member m) (print_member m)"
  using solid_quote [of "fst m"] unfolding print_member_def
  by (intro comp_append comp_structural) (simp_all add: seg_def)

lemma comp_join_mems: "list_all (\<lambda>m. solid (snd m)) ms \<Longrightarrow> comp (join '','' (map print_member ms)) (join '','' (map print_member ms))"
proof (induction ms rule: induct_list012)
  case (3 m m' ms)
  have "comp (print_member m @ '','' @ join '','' (map print_member (m' # ms)))
      (print_member m @ '','' @ join '','' (map print_member (m' # ms)))"
    using 3 by (intro comp_append comp_structural member_comp) simp_all
  then show ?case by simp
qed (simp_all add: comp_def member_comp [unfolded comp_def])

lemma mems_text_shape:
  "mems_text (m # ms) @ t = CHR 0x22 # quote_body (fst m) @ CHR 0x22 # CHR '':'' # snd m @
     (if ms = [] then CHR ''}'' # t else CHR '','' # mems_text ms @ t)"
  by (simp add: print_member_def json_quote_def)

lemma mems_scan:
  "ms \<noteq> [] \<Longrightarrow> list_all (\<lambda>m. solid (snd m)) ms \<Longrightarrow> \<exists>n. skip_mems n (mems_text ms @ t) = Some t"
proof (induction ms)
  case (Cons m ms)
  let ?v = "snd m"
  let ?x = "if ms = [] then CHR ''}'' # t else CHR '','' # mems_text ms @ t"
  have "scans (?v @ ?x) ?x" using Cons.prems(2) by (intro seg_scans [of ?v ?v]) simp_all
  then obtain n where n: "skip_val n (?v @ ?x) = Some ?x" unfolding scans_def by blast
  let ?k = "CHR 0x22 # CHR '':'' # ?v @ ?x"
  have str: "skip_str (quote_body (fst m) @ ?k) = Some (CHR '':'' # ?v @ ?x)" using quote_body_scan by blast
  have ws: "skip_ws (mems_text (m # ms) @ t) = CHR 0x22 # quote_body (fst m) @ ?k"
    unfolding mems_text_shape by (simp add: quote_not_ws)
  have colon: "skip_ws (CHR '':'' # ?v @ ?x) = CHR '':'' # ?v @ ?x" by simp
  show ?case
  proof (cases "ms = []")
    case True
    have "skip_mems (Suc n) (mems_text (m # ms) @ t) = Some t"
      by (rule sm_simps(2) [OF ws byte_quote str colon n]) (use True in simp)
    then show ?thesis ..
  next
    case False
    with Cons obtain j where j: "skip_mems j (mems_text ms @ t) = Some t" by auto
    define k where "k = max (2 * length (?v @ ?x)) (2 * length (mems_text ms @ t) + 1)"
    have v: "skip_val k (?v @ ?x) = Some ?x" by (rule skip_enough(1) [OF n]) (simp add: k_def)
    have "skip_mems k (mems_text ms @ t) = Some t" by (rule skip_enough(3) [OF j]) (simp add: k_def)
    moreover have "skip_mems (Suc k) (mems_text (m # ms) @ t) = skip_mems k (mems_text ms @ t)"
      by (rule sm_simps(1) [OF ws byte_quote str colon v]) (use False in simp)
    ultimately show ?thesis by (intro exI) simp
  qed
qed simp

lemma mems_head: "ms \<noteq> [] \<Longrightarrow> \<exists>x. mems_text ms = CHR 0x22 # x"
  by (cases ms) (simp_all add: print_member_def json_quote_def)

lemma solid_object [simp]:
  assumes "list_all (\<lambda>m. solid (snd m)) ms"
  shows "solid (print_object ms)"
proof -
  have c: "comp (print_object ms) (print_object ms)"
    unfolding print_object_def by (intro comp_append comp_structural comp_join_mems assms)
  have "scans (print_object ms @ t) t" for t
  proof (cases "ms = []")
    case True
    have "skip_val (Suc 0) (''{}'' @ t) = Some t" by (simp add: sv_simps(2))
    with True show ?thesis unfolding scans_def by (intro exI) simp
  next
    case False
    obtain n where n: "skip_mems n (mems_text ms @ t) = Some t" using mems_scan [OF False assms] by blast
    obtain x where h: "mems_text ms = CHR 0x22 # x" using mems_head [OF False] by blast
    with n have "skip_val (Suc n) (print_object ms @ t) = Some t"
      using False by (simp add: print_object_ne sv_simps(3) quote_not_ws)
    then show ?thesis unfolding scans_def ..
  qed
  moreover have "print_object ms \<noteq> []" "hd (print_object ms) = CHR ''{''" by (simp_all add: print_object_def)
  ultimately show ?thesis using c by (simp add: seg_def)
qed

lemma cut_mems_print:
  "ms \<noteq> [] \<Longrightarrow> list_all (\<lambda>m. solid (snd m) \<and> valid_utf8 (fst m)) ms \<Longrightarrow> length ms \<le> n \<Longrightarrow>
     cut_mems n (mems_text ms @ t) = ms"
proof (induction ms arbitrary: n)
  case (Cons m ms)
  then obtain j where n: "n = Suc j" by (cases n) auto
  let ?v = "snd m"
  let ?x = "if ms = [] then CHR ''}'' # t else CHR '','' # mems_text ms @ t"
  have v: "solid ?v" and u: "valid_utf8 (fst m)" using Cons.prems(2) by simp_all
  have sc: "skip_val (fuel (?v @ ?x)) (?v @ ?x) = Some ?x" using seg_scans [OF v, of ?x] by (simp add: fuel_enough)
  let ?k = "CHR 0x22 # CHR '':'' # ?v @ ?x"
  have str: "skip_str (quote_body (fst m) @ ?k) = Some (CHR '':'' # ?v @ ?x)" using quote_body_scan by blast
  have ws: "skip_ws (mems_text (m # ms) @ t) = CHR 0x22 # quote_body (fst m) @ ?k"
    unfolding mems_text_shape by (simp add: quote_not_ws)
  have uq: "unquote_body (quote_body (fst m) @ ?k) = fst m" using u by (rule unquote_quote)
  have "cut_mems n (mems_text (m # ms) @ t) =
      (fst m, ?v) # (case skip_ws ?x of [] \<Rightarrow> [] | d # w \<Rightarrow> if d = CHR '','' then cut_mems j w else [])"
    unfolding n cut_mems.simps ws using str sc uq seg_before [OF v, of ?x]
    by (simp del: if_split cut_mems.simps skip_str.simps)
  also have "\<dots> = m # ms"
  proof (cases "ms = []")
    case False
    with Cons n show ?thesis by simp
  qed simp
  finally show ?case .
qed simp

lemma mems_length: "length ms \<le> length (mems_text ms)"
  by (induction ms) (simp_all add: print_member_def)

text \<open>Decoding a printed object gives its members back, in order.\<close>

lemma unmarshal_print_object:
  assumes "list_all (\<lambda>m. solid (snd m) \<and> valid_utf8 (fst m)) ms"
  shows "unmarshal_object (print_object ms) = Some ms"
proof -
  have "list_all (\<lambda>m. solid (snd m)) ms" using assms by (simp add: list_all_iff)
  then have v: "json_valid (print_object ms)" by (intro seg_json_valid [OF solid_object])
  show ?thesis
  proof (cases "ms = []")
    case True
    with v show ?thesis by (simp add: unmarshal_object_def)
  next
    case False
    obtain x where h: "mems_text ms = CHR 0x22 # x" using mems_head [OF False] by blast
    have "length ms \<le> length (print_object ms)" using mems_length [of ms] False by (simp add: print_object_ne)
    from cut_mems_print [OF False assms this, of "[]"]
    show ?thesis using v False h by (simp add: unmarshal_object_def print_object_ne quote_not_ws)
  qed
qed

section \<open>What the decoder cuts out\<close>

lemma cut_elems_values: "v \<in> set (cut_elems n s) \<Longrightarrow> \<exists>w. seg v w"
proof (induction n s rule: cut_elems.induct)
  case (2 n s)
  then obtain r where r: "skip_val (fuel s) s = Some r" by (cases "skip_val (fuel s) s") auto
  then have "\<exists>w. seg (before (skip_ws s) r) w" by (intro scans_before) (simp add: fuel_enough)
  moreover have "v = before (skip_ws s) r \<or> (\<exists>c t. skip_ws r = c # t \<and> c = CHR '','' \<and> v \<in> set (cut_elems n t))"
    using 2 r by (cases "skip_ws r") (auto split: if_splits)
  ultimately show ?case using "2.IH" [OF r] by auto
qed simp

lemma cut_mems_values: "m \<in> set (cut_mems n s) \<Longrightarrow> valid_utf8 (fst m) \<and> (\<exists>w. seg (snd m) w)"
proof (induction n s rule: cut_mems.induct)
  case (2 n s)
  from "2.prems" obtain q k where qk: "skip_ws s = q # k" by (cases "skip_ws s") auto
  with "2.prems" obtain r where str: "skip_str k = Some r" by (cases "skip_str k") auto
  define t where "t = tl (skip_ws r)"
  from "2.prems" qk str obtain u where u: "skip_val (fuel t) t = Some u"
    by (cases "skip_val (fuel t) t") (auto simp: t_def Let_def)
  then have "\<exists>w. seg (before (skip_ws t) u) w" by (intro scans_before) (simp add: fuel_enough)
  moreover have "m = (unquote_body k, before (skip_ws t) u) \<or>
      (\<exists>d v. skip_ws u = d # v \<and> d = CHR '','' \<and> m \<in> set (cut_mems n v))"
    using "2.prems" qk str u by (cases "skip_ws u") (auto simp: t_def [symmetric] Let_def split: if_splits)
  ultimately show ?case using "2.IH" [OF qk str t_def u] by (auto simp: unquote_valid)
qed simp

lemma unmarshal_array_values: "unmarshal_array s = Some vs \<Longrightarrow> v \<in> set vs \<Longrightarrow> \<exists>w. seg v w"
  by (auto simp: unmarshal_array_def intro: cut_elems_values split: if_splits list.splits)

lemma unmarshal_object_values:
  "unmarshal_object s = Some ms \<Longrightarrow> m \<in> set ms \<Longrightarrow> valid_utf8 (fst m) \<and> (\<exists>w. seg (snd m) w)"
  by (auto simp: unmarshal_object_def dest: cut_mems_values split: if_splits list.splits)

end
