(* ===== verification/ApiJson.thy ===== *)
theory ApiJson
  imports ApiTypes ChatContent JsonPrint
begin

text \<open>
  The JSON of the wire types the request converters print and read again: content blocks
  (\<open>AnthropicContentBlock\<close> with its \<open>MarshalJSON\<close>), Responses content parts and input items. A
  \<open>marshal_\<close> function is \<open>json.Marshal\<close>, with \<open>None\<close> for the error an invalid \<open>json.RawMessage\<close>
  causes; an \<open>unmarshal_\<close> function is \<open>json.Unmarshal\<close> into a new variable, with \<open>None\<close> for any
  error. A slice that is printed is an option, \<open>None\<close> for the nil slice: it prints as null.
  Printing and reading a well-formed value gives the value back, with its raw fields compacted
  (\<open>marshal_blocks_read\<close>, \<open>marshal_items_read\<close>).
\<close>

section \<open>Printing\<close>

definition omit_string :: "string \<Rightarrow> string \<Rightarrow> (string \<times> string) list" where
  "omit_string k s = (if s = [] then [] else [(k, json_quote s)])"

definition omit_raw :: "string \<Rightarrow> raw_message \<Rightarrow> (string \<times> string) list" where
  "omit_raw k r = (if r = [] then [] else [(k, compact_raw False r)])"

text \<open>\<open>encoding/json\<close> rejects a raw message that is not valid JSON.\<close>

definition raw_ok :: "raw_message \<Rightarrow> bool" where
  "raw_ok r \<longleftrightarrow> r = [] \<or> json_valid r"

definition cache_control_json :: "anthropic_cache_control \<Rightarrow> string" where
  "cache_control_json cc = print_object ((''type'', json_quote (cc_Type cc)) # omit_string ''ttl'' (cc_TTL cc))"

definition image_source_json :: "anthropic_image_source \<Rightarrow> string" where
  "image_source_json src = print_object [(''type'', json_quote (src_Type src)),
     (''media_type'', json_quote (src_MediaType src)), (''data'', json_quote (src_Data src))]"

definition block_members :: "anthropic_content_block \<Rightarrow> (string \<times> string) list" where
  "block_members b =
     (if blk_Type b = ''text'' then [(''text'', json_quote (blk_Text b))]
      else if blk_Type b = ''thinking'' then [(''thinking'', json_quote (blk_Thinking b))] else []) @
     [(''type'', json_quote (blk_Type b))] @
     (case blk_CacheControl b of None \<Rightarrow> [] | Some cc \<Rightarrow> [(''cache_control'', cache_control_json cc)]) @
     (if blk_Type b = ''text'' then [] else omit_string ''text'' (blk_Text b)) @
     (if blk_Type b = ''thinking'' then [] else omit_string ''thinking'' (blk_Thinking b)) @
     (case blk_Source b of None \<Rightarrow> [] | Some src \<Rightarrow> [(''source'', image_source_json src)]) @
     omit_string ''id'' (blk_ID b) @
     omit_string ''name'' (blk_Name b) @
     omit_raw ''input'' (blk_Input b) @
     omit_string ''tool_use_id'' (blk_ToolUseID b) @
     omit_raw ''content'' (blk_Content b) @
     (if blk_IsError b then [(''is_error'', ''true'')] else [])"

definition MarshalJSON :: "anthropic_content_block \<Rightarrow> string option" where
  "MarshalJSON b =
     (if raw_ok (blk_Input b) \<and> raw_ok (blk_Content b) then Some (print_object (block_members b)) else None)"

definition marshal_slice :: "('a \<Rightarrow> string option) \<Rightarrow> 'a list option \<Rightarrow> string option" where
  "marshal_slice f xs =
     (case xs of None \<Rightarrow> Some ''null''
      | Some ys \<Rightarrow> if list_all (\<lambda>y. f y \<noteq> None) ys then Some (print_array (map (\<lambda>y. the (f y)) ys)) else None)"

text \<open>A nil slice with elements appended.\<close>

definition slice :: "'a list \<Rightarrow> 'a list option" where
  "slice xs = (if xs = [] then None else Some xs)"

definition marshal_blocks :: "anthropic_content_block list option \<Rightarrow> string option" where
  "marshal_blocks = marshal_slice MarshalJSON"

definition content_part_json :: "responses_content_part \<Rightarrow> string" where
  "content_part_json p = print_object ((''type'', json_quote (rcp_Type p)) #
     omit_string ''text'' (rcp_Text p) @ omit_string ''image_url'' (rcp_ImageURL p))"

definition marshal_response_parts :: "responses_content_part list option \<Rightarrow> string" where
  "marshal_response_parts ps = (case ps of None \<Rightarrow> ''null'' | Some qs \<Rightarrow> print_array (map content_part_json qs))"

definition item_json :: "responses_input_item \<Rightarrow> string option" where
  "item_json it =
     (if raw_ok (it_Content it) then
        Some (print_object (omit_string ''type'' (it_Type it) @ omit_string ''role'' (it_Role it) @
          omit_raw ''content'' (it_Content it) @ omit_string ''call_id'' (it_CallID it) @
          omit_string ''name'' (it_Name it) @ omit_string ''arguments'' (it_Arguments it) @
          omit_string ''id'' (it_ID it) @ omit_string ''output'' (it_Output it)))
      else None)"

definition marshal_items :: "responses_input_item list option \<Rightarrow> string option" where
  "marshal_items = marshal_slice item_json"

section \<open>Reading\<close>

fun decode_list :: "(raw_message \<Rightarrow> 'a option) \<Rightarrow> raw_message list \<Rightarrow> 'a list option" where
  "decode_list f [] = Some []"
| "decode_list f (v # vs) =
     (case f v of None \<Rightarrow> None | Some x \<Rightarrow> map_option (\<lambda>xs. x # xs) (decode_list f vs))"

definition unmarshal_slice :: "(raw_message \<Rightarrow> 'a option) \<Rightarrow> raw_message \<Rightarrow> 'a list option option" where
  "unmarshal_slice f raw =
     (case unmarshal_array raw of
        None \<Rightarrow> None
      | Some vs \<Rightarrow> if is_null raw then Some None else map_option Some (decode_list f vs))"

text \<open>A pointer to a struct: null sets nil, an object is decoded into the struct that is there or a
  new one.\<close>

definition decode_pointer :: "('a \<Rightarrow> string \<times> raw_message \<Rightarrow> 'a option) \<Rightarrow> 'a \<Rightarrow> 'a option \<Rightarrow> raw_message \<Rightarrow> 'a option option" where
  "decode_pointer f zero old v =
     (if is_null v then Some None
      else map_option Some (decode_object f (case old of None \<Rightarrow> zero | Some x \<Rightarrow> x) v))"

definition decode_bool_field :: "raw_message \<Rightarrow> bool \<Rightarrow> bool option" where
  "decode_bool_field v old =
     (if is_null v then Some old else if v = ''true'' then Some True else if v = ''false'' then Some False else None)"

definition cache_control_field :: "anthropic_cache_control \<Rightarrow> string \<times> raw_message \<Rightarrow> anthropic_cache_control option" where
  "cache_control_field cc m =
     (if equal_fold (fst m) ''type'' then
        map_option (\<lambda>s. cc\<lparr>cc_Type := s\<rparr>) (decode_string_field (snd m) (cc_Type cc))
      else if equal_fold (fst m) ''ttl'' then
        map_option (\<lambda>s. cc\<lparr>cc_TTL := s\<rparr>) (decode_string_field (snd m) (cc_TTL cc))
      else Some cc)"

definition image_source_field :: "anthropic_image_source \<Rightarrow> string \<times> raw_message \<Rightarrow> anthropic_image_source option" where
  "image_source_field src m =
     (if equal_fold (fst m) ''type'' then
        map_option (\<lambda>s. src\<lparr>src_Type := s\<rparr>) (decode_string_field (snd m) (src_Type src))
      else if equal_fold (fst m) ''media_type'' then
        map_option (\<lambda>s. src\<lparr>src_MediaType := s\<rparr>) (decode_string_field (snd m) (src_MediaType src))
      else if equal_fold (fst m) ''data'' then
        map_option (\<lambda>s. src\<lparr>src_Data := s\<rparr>) (decode_string_field (snd m) (src_Data src))
      else Some src)"

definition zero_cache_control :: anthropic_cache_control where
  "zero_cache_control = \<lparr>cc_Type = [], cc_TTL = []\<rparr>"

definition zero_image_source :: anthropic_image_source where
  "zero_image_source = \<lparr>src_Type = [], src_MediaType = [], src_Data = []\<rparr>"

text \<open>A field of type \<open>json.RawMessage\<close> takes the text of any value, null included.\<close>

definition block_field :: "anthropic_content_block \<Rightarrow> string \<times> raw_message \<Rightarrow> anthropic_content_block option" where
  "block_field b m =
     (let k = fst m; v = snd m in
      if equal_fold k ''type'' then map_option (\<lambda>s. b\<lparr>blk_Type := s\<rparr>) (decode_string_field v (blk_Type b))
      else if equal_fold k ''cache_control'' then
        map_option (\<lambda>p. b\<lparr>blk_CacheControl := p\<rparr>)
          (decode_pointer cache_control_field zero_cache_control (blk_CacheControl b) v)
      else if equal_fold k ''text'' then map_option (\<lambda>s. b\<lparr>blk_Text := s\<rparr>) (decode_string_field v (blk_Text b))
      else if equal_fold k ''thinking'' then
        map_option (\<lambda>s. b\<lparr>blk_Thinking := s\<rparr>) (decode_string_field v (blk_Thinking b))
      else if equal_fold k ''source'' then
        map_option (\<lambda>p. b\<lparr>blk_Source := p\<rparr>)
          (decode_pointer image_source_field zero_image_source (blk_Source b) v)
      else if equal_fold k ''id'' then map_option (\<lambda>s. b\<lparr>blk_ID := s\<rparr>) (decode_string_field v (blk_ID b))
      else if equal_fold k ''name'' then map_option (\<lambda>s. b\<lparr>blk_Name := s\<rparr>) (decode_string_field v (blk_Name b))
      else if equal_fold k ''input'' then Some (b\<lparr>blk_Input := v\<rparr>)
      else if equal_fold k ''tool_use_id'' then
        map_option (\<lambda>s. b\<lparr>blk_ToolUseID := s\<rparr>) (decode_string_field v (blk_ToolUseID b))
      else if equal_fold k ''content'' then Some (b\<lparr>blk_Content := v\<rparr>)
      else if equal_fold k ''is_error'' then
        map_option (\<lambda>x. b\<lparr>blk_IsError := x\<rparr>) (decode_bool_field v (blk_IsError b))
      else Some b)"

definition unmarshal_blocks :: "raw_message \<Rightarrow> anthropic_content_block list option option" where
  "unmarshal_blocks = unmarshal_slice (decode_object block_field zero_block)"

definition response_part_field :: "responses_content_part \<Rightarrow> string \<times> raw_message \<Rightarrow> responses_content_part option" where
  "response_part_field p m =
     (if equal_fold (fst m) ''type'' then
        map_option (\<lambda>s. p\<lparr>rcp_Type := s\<rparr>) (decode_string_field (snd m) (rcp_Type p))
      else if equal_fold (fst m) ''text'' then
        map_option (\<lambda>s. p\<lparr>rcp_Text := s\<rparr>) (decode_string_field (snd m) (rcp_Text p))
      else if equal_fold (fst m) ''image_url'' then
        map_option (\<lambda>s. p\<lparr>rcp_ImageURL := s\<rparr>) (decode_string_field (snd m) (rcp_ImageURL p))
      else Some p)"

definition unmarshal_response_parts :: "raw_message \<Rightarrow> responses_content_part list option option" where
  "unmarshal_response_parts = unmarshal_slice (decode_object response_part_field zero_content_part)"

definition item_field :: "responses_input_item \<Rightarrow> string \<times> raw_message \<Rightarrow> responses_input_item option" where
  "item_field it m =
     (let k = fst m; v = snd m in
      if equal_fold k ''type'' then map_option (\<lambda>s. it\<lparr>it_Type := s\<rparr>) (decode_string_field v (it_Type it))
      else if equal_fold k ''role'' then map_option (\<lambda>s. it\<lparr>it_Role := s\<rparr>) (decode_string_field v (it_Role it))
      else if equal_fold k ''content'' then Some (it\<lparr>it_Content := v\<rparr>)
      else if equal_fold k ''call_id'' then map_option (\<lambda>s. it\<lparr>it_CallID := s\<rparr>) (decode_string_field v (it_CallID it))
      else if equal_fold k ''name'' then map_option (\<lambda>s. it\<lparr>it_Name := s\<rparr>) (decode_string_field v (it_Name it))
      else if equal_fold k ''arguments'' then
        map_option (\<lambda>s. it\<lparr>it_Arguments := s\<rparr>) (decode_string_field v (it_Arguments it))
      else if equal_fold k ''id'' then map_option (\<lambda>s. it\<lparr>it_ID := s\<rparr>) (decode_string_field v (it_ID it))
      else if equal_fold k ''output'' then map_option (\<lambda>s. it\<lparr>it_Output := s\<rparr>) (decode_string_field v (it_Output it))
      else Some it)"

definition unmarshal_items :: "raw_message \<Rightarrow> responses_input_item list option option" where
  "unmarshal_items = unmarshal_slice (decode_object item_field zero_item)"

section \<open>Printing and reading agree\<close>

declare skip_val.simps [simp del] skip_elems.simps [simp del] skip_mems.simps [simp del]
declare compact_raw.simps(2) [simp del]

named_theorems json_read \<open>decoding of printed members\<close>

lemma valid_keys [simp]:
  "valid_utf8 ''type''" "valid_utf8 ''ttl''" "valid_utf8 ''media_type''" "valid_utf8 ''data''" "valid_utf8 ''text''"
  "valid_utf8 ''thinking''" "valid_utf8 ''cache_control''" "valid_utf8 ''source''" "valid_utf8 ''id''" "valid_utf8 ''name''"
  "valid_utf8 ''input''" "valid_utf8 ''tool_use_id''" "valid_utf8 ''content''" "valid_utf8 ''is_error''"
  "valid_utf8 ''image_url''" "valid_utf8 ''role''" "valid_utf8 ''call_id''" "valid_utf8 ''arguments''" "valid_utf8 ''output''"
  by (simp_all add: byte_def)

lemma solid_true [simp]: "solid ''true''"
  by (rule val_seg_seg [of "Suc 0"], rule literal_seg [THEN conjunct2, of _ "''true''" "[]"])
    (simp_all add: lit_comp sv_simps skip_lit_def)

lemma solid_null [simp]: "solid ''null''"
  by (rule val_seg_seg [of "Suc 0"], rule literal_seg [THEN conjunct2, of _ "''null''" "[]"])
    (simp_all add: lit_comp sv_simps skip_lit_def)

abbreviation members_ok :: "(string \<times> string) list \<Rightarrow> bool" where
  "members_ok \<equiv> list_all (\<lambda>m. solid (snd m) \<and> valid_utf8 (fst m))"

lemma members_ok_solid: "members_ok ms \<Longrightarrow> list_all (\<lambda>m. solid (snd m)) ms"
  by (simp add: list_all_iff)

lemma print_object_solid: "members_ok ms \<Longrightarrow> solid (print_object ms)"
  by (intro solid_object members_ok_solid)

lemma omit_string_ok [simp]: "valid_utf8 k \<Longrightarrow> members_ok (omit_string k s)"
  by (simp add: omit_string_def)

lemma omit_raw_ok [simp]: "valid_utf8 k \<Longrightarrow> raw_ok r \<Longrightarrow> members_ok (omit_raw k r)"
  by (auto simp: omit_raw_def raw_ok_def json_valid_compact)

lemma cache_control_solid [simp]: "solid (cache_control_json cc)"
  unfolding cache_control_json_def by (rule print_object_solid) simp

lemma image_source_solid [simp]: "solid (image_source_json src)"
  unfolding image_source_json_def by (rule print_object_solid) simp

lemma block_members_ok: "raw_ok (blk_Input b) \<Longrightarrow> raw_ok (blk_Content b) \<Longrightarrow> members_ok (block_members b)"
  unfolding block_members_def by (simp split: option.split)

lemma content_part_solid [simp]: "solid (content_part_json p)"
  unfolding content_part_json_def by (rule print_object_solid) simp

lemma MarshalJSON_solid: "MarshalJSON b = Some t \<Longrightarrow> solid t"
  by (auto simp: MarshalJSON_def print_object_solid block_members_ok split: if_splits)

lemma item_json_solid: "item_json it = Some t \<Longrightarrow> solid t"
  by (auto simp: item_json_def print_object_solid split: if_splits)

lemma marshal_slice_solid:
  assumes "\<And>x t. f x = Some t \<Longrightarrow> solid t" and "marshal_slice f xs = Some t"
  shows "solid t"
proof (cases xs)
  case (Some ys)
  with assms(2) have "list_all (\<lambda>y. f y \<noteq> None) ys" "t = print_array (map (\<lambda>y. the (f y)) ys)"
    by (auto simp: marshal_slice_def split: if_splits)
  moreover from this(1) have "list_all solid (map (\<lambda>y. the (f y)) ys)"
    using assms(1) by (fastforce simp: list_all_iff)
  ultimately show ?thesis by simp
qed (use assms(2) in \<open>auto simp: marshal_slice_def\<close>)

lemma decode_fields_append:
  "decode_fields f x (ms @ ns) = (case decode_fields f x ms of None \<Rightarrow> None | Some y \<Rightarrow> decode_fields f y ns)"
  by (induction ms arbitrary: x) (auto split: option.splits)

lemma is_null_quote [simp]: "\<not> is_null (json_quote s)"
  by (simp add: is_null_def json_quote_def quote_not_ws)

lemma decode_quote [simp]: "valid_utf8 s \<Longrightarrow> decode_string_field (json_quote s) old = Some s"
  by (simp add: decode_string_field_def)

lemma decode_print_object:
  assumes "members_ok ms"
  shows "decode_object f x (print_object ms) = decode_fields f x ms"
proof -
  have "skip_ws (print_object ms) = print_object ms" by (cases ms) (simp_all add: print_object_def)
  moreover have "hd (print_object ms) = CHR ''{''" "print_object ms \<noteq> []" by (simp_all add: print_object_def)
  ultimately have "is_object (print_object ms)" "\<not> is_null (print_object ms)" by (simp_all add: is_object_def is_null_def)
  then show ?thesis using unmarshal_print_object [OF assms] by (simp add: decode_object_def)
qed

lemma not_null_object [simp]: "\<not> is_null (print_object ms)"
  by (simp add: is_null_def print_object_def)

lemma not_null_array [simp]: "\<not> is_null (print_array ms)"
  by (simp add: is_null_def print_array_def)

text \<open>Key comparison on the literal keys.\<close>

lemma to_lower_Cons: "to_lower (c # s) = lower_char c # to_lower s"
  by (simp add: to_lower_def)

lemma lower_char_id: "\<not> (65 \<le> byte c \<and> byte c \<le> 90) \<Longrightarrow> lower_char c = c"
  unfolding lower_char_def by (rule if_not_P)

lemma lower_keys:
  "to_lower ''type'' = ''type''"
  "to_lower ''ttl'' = ''ttl''"
  "to_lower ''media_type'' = ''media_type''"
  "to_lower ''data'' = ''data''"
  "to_lower ''text'' = ''text''"
  "to_lower ''thinking'' = ''thinking''"
  "to_lower ''cache_control'' = ''cache_control''"
  "to_lower ''source'' = ''source''"
  "to_lower ''id'' = ''id''"
  "to_lower ''name'' = ''name''"
  "to_lower ''input'' = ''input''"
  "to_lower ''tool_use_id'' = ''tool_use_id''"
  "to_lower ''content'' = ''content''"
  "to_lower ''is_error'' = ''is_error''"
  "to_lower ''image_url'' = ''image_url''"
  "to_lower ''role'' = ''role''"
  "to_lower ''call_id'' = ''call_id''"
  "to_lower ''arguments'' = ''arguments''"
  "to_lower ''output'' = ''output''"
  by (simp_all add: to_lower_Cons lower_char_id byte_def to_lower_def [of "[]"])

lemmas key_eval = equal_fold_def lower_keys

definition wf_cache_control :: "anthropic_cache_control \<Rightarrow> bool" where
  "wf_cache_control cc \<longleftrightarrow> valid_utf8 (cc_Type cc) \<and> valid_utf8 (cc_TTL cc)"

definition wf_image_source :: "anthropic_image_source \<Rightarrow> bool" where
  "wf_image_source src \<longleftrightarrow> valid_utf8 (src_Type src) \<and> valid_utf8 (src_MediaType src) \<and> valid_utf8 (src_Data src)"

text \<open>What decoding produces: valid UTF-8 in the strings, and raw fields that are values.\<close>

definition wf_block :: "anthropic_content_block \<Rightarrow> bool" where
  "wf_block b \<longleftrightarrow> valid_utf8 (blk_Type b) \<and> valid_utf8 (blk_Text b) \<and> valid_utf8 (blk_Thinking b) \<and>
     valid_utf8 (blk_ID b) \<and> valid_utf8 (blk_Name b) \<and> valid_utf8 (blk_ToolUseID b) \<and>
     pred_option wf_cache_control (blk_CacheControl b) \<and> pred_option wf_image_source (blk_Source b) \<and>
     raw_ok (blk_Input b) \<and> raw_ok (blk_Content b)"

definition compact_block :: "anthropic_content_block \<Rightarrow> anthropic_content_block" where
  "compact_block b = b\<lparr>blk_Input := compact_raw False (blk_Input b), blk_Content := compact_raw False (blk_Content b)\<rparr>"

lemma decode_cache_control [simp]:
  "wf_cache_control cc \<Longrightarrow> decode_pointer cache_control_field zero_cache_control None (cache_control_json cc) = Some (Some cc)"
  unfolding cache_control_json_def decode_pointer_def
  by (cases cc) (simp add: decode_print_object wf_cache_control_def omit_string_def cache_control_field_def
      zero_cache_control_def key_eval)

lemma decode_image_source [simp]:
  "wf_image_source src \<Longrightarrow> decode_pointer image_source_field zero_image_source None (image_source_json src) = Some (Some src)"
  unfolding image_source_json_def decode_pointer_def
  by (cases src) (simp add: decode_print_object wf_image_source_def image_source_field_def zero_image_source_def key_eval)

lemma block_field_keys [json_read]:
  "block_field b (''type'', v) = map_option (\<lambda>s. b\<lparr>blk_Type := s\<rparr>) (decode_string_field v (blk_Type b))"
  "block_field b (''cache_control'', v) = map_option (\<lambda>p. b\<lparr>blk_CacheControl := p\<rparr>)
     (decode_pointer cache_control_field zero_cache_control (blk_CacheControl b) v)"
  "block_field b (''text'', v) = map_option (\<lambda>s. b\<lparr>blk_Text := s\<rparr>) (decode_string_field v (blk_Text b))"
  "block_field b (''thinking'', v) = map_option (\<lambda>s. b\<lparr>blk_Thinking := s\<rparr>) (decode_string_field v (blk_Thinking b))"
  "block_field b (''source'', v) = map_option (\<lambda>p. b\<lparr>blk_Source := p\<rparr>)
     (decode_pointer image_source_field zero_image_source (blk_Source b) v)"
  "block_field b (''id'', v) = map_option (\<lambda>s. b\<lparr>blk_ID := s\<rparr>) (decode_string_field v (blk_ID b))"
  "block_field b (''name'', v) = map_option (\<lambda>s. b\<lparr>blk_Name := s\<rparr>) (decode_string_field v (blk_Name b))"
  "block_field b (''input'', v) = Some (b\<lparr>blk_Input := v\<rparr>)"
  "block_field b (''tool_use_id'', v) = map_option (\<lambda>s. b\<lparr>blk_ToolUseID := s\<rparr>) (decode_string_field v (blk_ToolUseID b))"
  "block_field b (''content'', v) = Some (b\<lparr>blk_Content := v\<rparr>)"
  "block_field b (''is_error'', v) = map_option (\<lambda>x. b\<lparr>blk_IsError := x\<rparr>) (decode_bool_field v (blk_IsError b))"
  by (simp_all add: block_field_def key_eval)

lemma decode_fields_if: "decode_fields f x (if c then ms else ns) = (if c then decode_fields f x ms else decode_fields f x ns)"
  by simp

lemma decode_bool_true [simp]: "decode_bool_field ''true'' old = Some True"
  by (simp add: decode_bool_field_def is_null_def skip_ws_def is_ws_def byte_def)

lemma decode_omitted [json_read]:
  "valid_utf8 s \<Longrightarrow> blk_Text b = [] \<Longrightarrow> decode_fields block_field b (omit_string ''text'' s) = Some (b\<lparr>blk_Text := s\<rparr>)"
  "valid_utf8 s \<Longrightarrow> blk_Thinking b = [] \<Longrightarrow> decode_fields block_field b (omit_string ''thinking'' s) = Some (b\<lparr>blk_Thinking := s\<rparr>)"
  "valid_utf8 s \<Longrightarrow> blk_ID b = [] \<Longrightarrow> decode_fields block_field b (omit_string ''id'' s) = Some (b\<lparr>blk_ID := s\<rparr>)"
  "valid_utf8 s \<Longrightarrow> blk_Name b = [] \<Longrightarrow> decode_fields block_field b (omit_string ''name'' s) = Some (b\<lparr>blk_Name := s\<rparr>)"
  "valid_utf8 s \<Longrightarrow> blk_ToolUseID b = [] \<Longrightarrow> decode_fields block_field b (omit_string ''tool_use_id'' s) = Some (b\<lparr>blk_ToolUseID := s\<rparr>)"
  "blk_Input b = [] \<Longrightarrow> decode_fields block_field b (omit_raw ''input'' r) = Some (b\<lparr>blk_Input := compact_raw False r\<rparr>)"
  "blk_Content b = [] \<Longrightarrow> decode_fields block_field b (omit_raw ''content'' r) = Some (b\<lparr>blk_Content := compact_raw False r\<rparr>)"
  by (cases b; cases "s = []"; cases "r = []"; simp add: omit_string_def omit_raw_def json_read)+

lemma decode_block_members:
  assumes "wf_block b"
  shows "decode_fields block_field zero_block (block_members b) = Some (compact_block b)"
proof -
  obtain ty cc tx th src i n inp tid con err where b: "b = \<lparr>blk_Type = ty, blk_CacheControl = cc, blk_Text = tx,
      blk_Thinking = th, blk_Source = src, blk_ID = i, blk_Name = n, blk_Input = inp, blk_ToolUseID = tid,
      blk_Content = con, blk_IsError = err\<rparr>" by (cases b)
  have v: "valid_utf8 ty" "valid_utf8 tx" "valid_utf8 th" "valid_utf8 i" "valid_utf8 n" "valid_utf8 tid"
    "pred_option wf_cache_control cc" "pred_option wf_image_source src"
    using assms by (simp_all add: wf_block_def b)
  let ?z = "\<lparr>blk_Type = ty, blk_CacheControl = None, blk_Text = if ty = ''text'' then tx else [],
      blk_Thinking = if ty = ''thinking'' then th else [], blk_Source = None, blk_ID = [], blk_Name = [],
      blk_Input = [], blk_ToolUseID = [], blk_Content = [], blk_IsError = False\<rparr>"
  let ?head = "(if ty = ''text'' then [(''text'', json_quote tx)]
      else if ty = ''thinking'' then [(''thinking'', json_quote th)] else []) @ [(''type'', json_quote ty)]"
  have h: "decode_fields block_field zero_block ?head = Some ?z" using v by (simp add: json_read)
  have c: "decode_fields block_field x (case cc of None \<Rightarrow> [] | Some cc \<Rightarrow> [(''cache_control'', cache_control_json cc)]) =
      Some (x\<lparr>blk_CacheControl := cc\<rparr>)" if "blk_CacheControl x = None" for x
    using v(7) that by (cases cc) (simp_all add: json_read)
  have s: "decode_fields block_field x (case src of None \<Rightarrow> [] | Some src \<Rightarrow> [(''source'', image_source_json src)]) =
      Some (x\<lparr>blk_Source := src\<rparr>)" if "blk_Source x = None" for x
    using v(8) that by (cases src) (simp_all add: json_read)
  have "block_members b = ?head @ (case cc of None \<Rightarrow> [] | Some cc \<Rightarrow> [(''cache_control'', cache_control_json cc)]) @
     (if ty = ''text'' then [] else omit_string ''text'' tx) @
     (if ty = ''thinking'' then [] else omit_string ''thinking'' th) @
     (case src of None \<Rightarrow> [] | Some src \<Rightarrow> [(''source'', image_source_json src)]) @
     omit_string ''id'' i @ omit_string ''name'' n @ omit_raw ''input'' inp @ omit_string ''tool_use_id'' tid @
     omit_raw ''content'' con @ (if err then [(''is_error'', ''true'')] else [])"
    by (simp add: block_members_def b)
  moreover have "decode_fields block_field x (if err then [(''is_error'', ''true'')] else []) = Some (x\<lparr>blk_IsError := err\<rparr>)"
    if "\<not> blk_IsError x" for x using that by (cases x) (simp add: json_read)
  moreover have "decode_fields block_field x (if ty = ''text'' then [] else omit_string ''text'' tx) = Some (x\<lparr>blk_Text := tx\<rparr>)"
    if "blk_Text x = (if ty = ''text'' then tx else [])" for x
    using that v by (cases x) (simp add: json_read)
  moreover have "decode_fields block_field x (if ty = ''thinking'' then [] else omit_string ''thinking'' th) = Some (x\<lparr>blk_Thinking := th\<rparr>)"
    if "blk_Thinking x = (if ty = ''thinking'' then th else [])" for x
    using that v by (cases x) (simp add: json_read)
  ultimately show ?thesis
    using v(1-6) by (simp add: decode_fields_append h c s json_read b compact_block_def del: if_split)
qed

lemma MarshalJSON_read:
  assumes "wf_block b"
  obtains t where "MarshalJSON b = Some t" "decode_object block_field zero_block t = Some (compact_block b)"
proof -
  from assms have r: "raw_ok (blk_Input b)" "raw_ok (blk_Content b)" by (simp_all add: wf_block_def)
  then have "MarshalJSON b = Some (print_object (block_members b))" by (simp add: MarshalJSON_def)
  then show ?thesis
    using decode_print_object [OF block_members_ok [OF r], of block_field zero_block] decode_block_members [OF assms]
    by (intro that) (simp_all only:)
qed

section \<open>Slices\<close>

lemma decode_list_map:
  "(\<And>x. x \<in> set xs \<Longrightarrow> f (g x) = Some (h x)) \<Longrightarrow> decode_list f (map g xs) = Some (map h xs)"
  by (induction xs) simp_all

lemma marshal_slice_read:
  assumes "\<And>x. x \<in> set xs \<Longrightarrow> \<exists>t. f x = Some t \<and> solid t \<and> d t = Some (h x)"
  shows "\<exists>t. marshal_slice f (Some xs) = Some t \<and> solid t \<and> unmarshal_slice d t = Some (Some (map h xs))"
proof -
  from assms obtain g where g: "f x = Some (g x) \<and> solid (g x) \<and> d (g x) = Some (h x)" if "x \<in> set xs" for x
    by metis
  then have l: "map (\<lambda>y. the (f y)) xs = map g xs" "list_all (\<lambda>y. f y \<noteq> None) xs" by (auto simp: list_all_iff)
  have s: "list_all solid (map g xs)" using g by (simp add: list_all_iff)
  have "unmarshal_slice d (print_array (map g xs)) = Some (Some (map h xs))"
    using g by (simp add: unmarshal_slice_def unmarshal_print_array [OF s] decode_list_map)
  moreover have "marshal_slice f (Some xs) = Some (print_array (map g xs))"
    using l(2) by (simp only: marshal_slice_def option.case l(1) if_True)
  ultimately show ?thesis using s by simp
qed

lemma unmarshal_null [simp]: "unmarshal_slice d ''null'' = Some None"
  using seg_json_valid [OF solid_null]
  by (simp add: unmarshal_slice_def unmarshal_array_def is_null_def skip_ws_def is_ws_def byte_def)

lemma unmarshal_string_null [simp]: "unmarshal_string ''null'' = Some []"
  using seg_json_valid [OF solid_null] by (simp add: unmarshal_string_def skip_ws_def is_ws_def byte_def)

lemma unmarshal_string_array: "list_all solid vs \<Longrightarrow> unmarshal_string (print_array vs) = None"
  by (simp add: unmarshal_string_def print_array_def byte_def)

lemma unmarshal_slice_quote [simp]: "unmarshal_slice d (json_quote s) = None"
  by (simp add: unmarshal_slice_def unmarshal_array_def json_quote_def quote_not_ws)

lemma marshal_blocks_read:
  assumes "list_all wf_block bs"
  obtains t where "marshal_blocks (Some bs) = Some t" "solid t"
    "unmarshal_blocks t = Some (Some (map compact_block bs))"
proof -
  have "\<exists>t. MarshalJSON b = Some t \<and> solid t \<and> decode_object block_field zero_block t = Some (compact_block b)"
    if "b \<in> set bs" for b
    using MarshalJSON_read [of b] MarshalJSON_solid that assms by (metis list_all_iff)
  from marshal_slice_read [of bs MarshalJSON, OF this]
  obtain t where "marshal_slice MarshalJSON (Some bs) = Some t" "solid t"
    "unmarshal_slice (decode_object block_field zero_block) t = Some (Some (map compact_block bs))" by blast
  then show ?thesis by (intro that [of t]) (simp_all only: marshal_blocks_def unmarshal_blocks_def)
qed

section \<open>What was read is well formed\<close>

lemma decode_fields_inv:
  assumes "\<And>x m y. P x \<Longrightarrow> \<exists>w. seg (snd m) w \<Longrightarrow> f x m = Some y \<Longrightarrow> P y"
  shows "P x \<Longrightarrow> list_all (\<lambda>m. \<exists>w. seg (snd m) w) ms \<Longrightarrow> decode_fields f x ms = Some y \<Longrightarrow> P y"
  by (induction ms arbitrary: x) (auto split: option.splits intro: assms)

lemma decode_object_inv:
  assumes "\<And>x m y. P x \<Longrightarrow> \<exists>w. seg (snd m) w \<Longrightarrow> f x m = Some y \<Longrightarrow> P y"
    and "P x" and "decode_object f x v = Some y"
  shows "P y"
proof (cases "is_null v")
  case True
  with assms show ?thesis by (simp add: decode_object_def)
next
  case False
  with assms(3) obtain ms where ms: "unmarshal_object v = Some ms" "decode_fields f x ms = Some y"
    by (auto simp: decode_object_def split: if_splits option.splits)
  have "list_all (\<lambda>m. \<exists>w. seg (snd m) w) ms" using unmarshal_object_values [OF ms(1)] by (auto simp: list_all_iff)
  from decode_fields_inv [of P f x ms y] assms(1,2) this ms(2) show ?thesis by blast
qed

lemma decode_list_inv: "(\<And>v x. f v = Some x \<Longrightarrow> P x) \<Longrightarrow> decode_list f vs = Some xs \<Longrightarrow> list_all P xs"
  by (induction vs arbitrary: xs) (auto split: option.splits)

lemma unmarshal_slice_inv:
  assumes "\<And>v x. f v = Some x \<Longrightarrow> P x" and "unmarshal_slice f raw = Some (Some xs)"
  shows "list_all P xs"
  using assms(2) decode_list_inv [OF assms(1), of f] by (auto simp: unmarshal_slice_def split: option.splits if_splits)

lemma decode_string_valid: "decode_string_field v old = Some s \<Longrightarrow> valid_utf8 old \<Longrightarrow> valid_utf8 s"
  by (auto simp: decode_string_field_def unmarshal_string_valid split: if_splits)

lemma seg_raw_ok: "\<exists>w. seg v w \<Longrightarrow> raw_ok v"
  using seg_json_valid by (auto simp: raw_ok_def)

lemma cache_control_field_wf:
  "wf_cache_control x \<Longrightarrow> cache_control_field x m = Some y \<Longrightarrow> wf_cache_control y"
  by (auto simp: cache_control_field_def wf_cache_control_def dest: decode_string_valid split: if_splits)

lemma image_source_field_wf:
  "wf_image_source x \<Longrightarrow> image_source_field x m = Some y \<Longrightarrow> wf_image_source y"
  by (auto simp: image_source_field_def wf_image_source_def dest: decode_string_valid split: if_splits)

lemma decode_pointer_wf:
  assumes "\<And>x m y. P x \<Longrightarrow> f x m = Some y \<Longrightarrow> P y" and "P zero" and "pred_option P old"
    and "decode_pointer f zero old v = Some p"
  shows "pred_option P p"
proof (cases "is_null v")
  case False
  with assms(4) obtain y where y: "decode_object f (case old of None \<Rightarrow> zero | Some x \<Rightarrow> x) v = Some y" "p = Some y"
    by (auto simp: decode_pointer_def)
  have "P (case old of None \<Rightarrow> zero | Some x \<Rightarrow> x)" using assms(2,3) by (cases old) simp_all
  from decode_object_inv [of P f, OF _ this y(1)] assms(1) show ?thesis by (simp add: y(2))
qed (use assms(4) in \<open>simp add: decode_pointer_def\<close>)

lemma block_field_wf:
  assumes "wf_block x" and "\<exists>w. seg (snd m) w" and "block_field x m = Some y"
  shows "wf_block y"
proof -
  have "wf_cache_control zero_cache_control" "wf_image_source zero_image_source"
    by (simp_all add: wf_cache_control_def zero_cache_control_def wf_image_source_def zero_image_source_def)
  then have p: "decode_pointer cache_control_field zero_cache_control old v = Some c \<Longrightarrow> pred_option wf_cache_control old \<Longrightarrow>
      pred_option wf_cache_control c"
    "decode_pointer image_source_field zero_image_source old' v = Some c' \<Longrightarrow> pred_option wf_image_source old' \<Longrightarrow>
      pred_option wf_image_source c'" for old old' v c c'
    using decode_pointer_wf [of wf_cache_control cache_control_field] cache_control_field_wf
      decode_pointer_wf [of wf_image_source image_source_field] image_source_field_wf by blast+
  show ?thesis using assms seg_raw_ok [OF assms(2)]
    by (auto simp: block_field_def wf_block_def Let_def dest: decode_string_valid p split: if_splits)
qed

lemma wf_zero_block [simp]: "wf_block zero_block"
  by (simp add: wf_block_def raw_ok_def)

lemma unmarshal_blocks_wf: "unmarshal_blocks raw = Some (Some bs) \<Longrightarrow> list_all wf_block bs"
  unfolding unmarshal_blocks_def
  by (erule unmarshal_slice_inv [rotated]) (rule decode_object_inv [where P = wf_block, OF block_field_wf wf_zero_block])

lemma compact_block_wf [simp]: "wf_block b \<Longrightarrow> wf_block (compact_block b)"
  using json_valid_compact seg_json_valid by (auto simp: wf_block_def compact_block_def raw_ok_def)

lemma compact_block_idem [simp]: "wf_block b \<Longrightarrow> compact_block (compact_block b) = compact_block b"
  by (auto simp: wf_block_def compact_block_def raw_ok_def compact_compact)

lemma compact_block_sel [simp]:
  "blk_Type (compact_block b) = blk_Type b" "blk_ID (compact_block b) = blk_ID b"
  "blk_ToolUseID (compact_block b) = blk_ToolUseID b" "blk_Text (compact_block b) = blk_Text b"
  by (simp_all add: compact_block_def)

section \<open>Input items and content parts\<close>

definition wf_item :: "responses_input_item \<Rightarrow> bool" where
  "wf_item it \<longleftrightarrow> valid_utf8 (it_Type it) \<and> valid_utf8 (it_Role it) \<and> valid_utf8 (it_CallID it) \<and>
     valid_utf8 (it_Name it) \<and> valid_utf8 (it_Arguments it) \<and> valid_utf8 (it_ID it) \<and>
     valid_utf8 (it_Output it) \<and> raw_ok (it_Content it)"

definition compact_item :: "responses_input_item \<Rightarrow> responses_input_item" where
  "compact_item it = it\<lparr>it_Content := compact_raw False (it_Content it)\<rparr>"

lemma item_field_keys [json_read]:
  "item_field it (''type'', v) = map_option (\<lambda>s. it\<lparr>it_Type := s\<rparr>) (decode_string_field v (it_Type it))"
  "item_field it (''role'', v) = map_option (\<lambda>s. it\<lparr>it_Role := s\<rparr>) (decode_string_field v (it_Role it))"
  "item_field it (''content'', v) = Some (it\<lparr>it_Content := v\<rparr>)"
  "item_field it (''call_id'', v) = map_option (\<lambda>s. it\<lparr>it_CallID := s\<rparr>) (decode_string_field v (it_CallID it))"
  "item_field it (''name'', v) = map_option (\<lambda>s. it\<lparr>it_Name := s\<rparr>) (decode_string_field v (it_Name it))"
  "item_field it (''arguments'', v) = map_option (\<lambda>s. it\<lparr>it_Arguments := s\<rparr>) (decode_string_field v (it_Arguments it))"
  "item_field it (''id'', v) = map_option (\<lambda>s. it\<lparr>it_ID := s\<rparr>) (decode_string_field v (it_ID it))"
  "item_field it (''output'', v) = map_option (\<lambda>s. it\<lparr>it_Output := s\<rparr>) (decode_string_field v (it_Output it))"
  by (simp_all add: item_field_def key_eval)

lemma decode_omitted_item [json_read]:
  "valid_utf8 s \<Longrightarrow> it_Type it = [] \<Longrightarrow> decode_fields item_field it (omit_string ''type'' s) = Some (it\<lparr>it_Type := s\<rparr>)"
  "valid_utf8 s \<Longrightarrow> it_Role it = [] \<Longrightarrow> decode_fields item_field it (omit_string ''role'' s) = Some (it\<lparr>it_Role := s\<rparr>)"
  "it_Content it = [] \<Longrightarrow> decode_fields item_field it (omit_raw ''content'' r) = Some (it\<lparr>it_Content := compact_raw False r\<rparr>)"
  "valid_utf8 s \<Longrightarrow> it_CallID it = [] \<Longrightarrow> decode_fields item_field it (omit_string ''call_id'' s) = Some (it\<lparr>it_CallID := s\<rparr>)"
  "valid_utf8 s \<Longrightarrow> it_Name it = [] \<Longrightarrow> decode_fields item_field it (omit_string ''name'' s) = Some (it\<lparr>it_Name := s\<rparr>)"
  "valid_utf8 s \<Longrightarrow> it_Arguments it = [] \<Longrightarrow> decode_fields item_field it (omit_string ''arguments'' s) = Some (it\<lparr>it_Arguments := s\<rparr>)"
  "valid_utf8 s \<Longrightarrow> it_ID it = [] \<Longrightarrow> decode_fields item_field it (omit_string ''id'' s) = Some (it\<lparr>it_ID := s\<rparr>)"
  "valid_utf8 s \<Longrightarrow> it_Output it = [] \<Longrightarrow> decode_fields item_field it (omit_string ''output'' s) = Some (it\<lparr>it_Output := s\<rparr>)"
  by (cases it; cases "s = []"; cases "r = []"; simp add: omit_string_def omit_raw_def json_read)+

lemma item_json_read:
  assumes "wf_item it"
  shows "\<exists>t. item_json it = Some t \<and> solid t \<and> decode_object item_field zero_item t = Some (compact_item it)"
proof -
  from assms have w: "valid_utf8 (it_Type it)" "valid_utf8 (it_Role it)" "valid_utf8 (it_CallID it)"
    "valid_utf8 (it_Name it)" "valid_utf8 (it_Arguments it)" "valid_utf8 (it_ID it)" "valid_utf8 (it_Output it)"
    "raw_ok (it_Content it)" by (simp_all add: wf_item_def)
  obtain t where t: "item_json it = Some t" using w(8) by (simp add: item_json_def)
  let ?ms = "omit_string ''type'' (it_Type it) @ omit_string ''role'' (it_Role it) @
          omit_raw ''content'' (it_Content it) @ omit_string ''call_id'' (it_CallID it) @
          omit_string ''name'' (it_Name it) @ omit_string ''arguments'' (it_Arguments it) @
          omit_string ''id'' (it_ID it) @ omit_string ''output'' (it_Output it)"
  have ok: "members_ok ?ms" using w(8) by simp
  have "decode_fields item_field zero_item ?ms = Some (compact_item it)"
    using w(1-7) by (simp add: decode_fields_append json_read) (simp add: compact_item_def)
  moreover have "t = print_object ?ms" using t w(8) by (simp add: item_json_def)
  ultimately have "decode_object item_field zero_item t = Some (compact_item it)"
    using decode_print_object [OF ok, of item_field zero_item] by (simp only:)
  with t item_json_solid show ?thesis by blast
qed

lemma marshal_items_read:
  assumes "list_all wf_item its"
  obtains t where "marshal_items (Some its) = Some t" "solid t"
    "unmarshal_items t = Some (Some (map compact_item its))" "unmarshal_string t = None"
proof -
  have "\<exists>t. item_json it = Some t \<and> solid t \<and> decode_object item_field zero_item t = Some (compact_item it)"
    if "it \<in> set its" for it
    using item_json_read that assms by (simp add: list_all_iff)
  from marshal_slice_read [of its item_json, OF this]
  obtain t where t: "marshal_slice item_json (Some its) = Some t" "solid t"
    "unmarshal_slice (decode_object item_field zero_item) t = Some (Some (map compact_item its))" by blast
  from t(1) obtain vs where vs: "t = print_array vs" by (auto simp: marshal_slice_def split: if_splits)
  have "unmarshal_string t = None" by (simp add: vs unmarshal_string_def print_array_def byte_def)
  with t show ?thesis by (intro that [of t]) (simp_all only: marshal_items_def unmarshal_items_def)
qed

lemma item_field_wf: "wf_item x \<Longrightarrow> \<exists>w. seg (snd m) w \<Longrightarrow> item_field x m = Some y \<Longrightarrow> wf_item y"
  using seg_raw_ok [of "snd m"] by (auto simp: item_field_def wf_item_def Let_def dest: decode_string_valid split: if_splits)

lemma wf_zero_item [simp]: "wf_item zero_item"
  by (simp add: wf_item_def raw_ok_def)

lemma unmarshal_items_wf: "unmarshal_items raw = Some (Some its) \<Longrightarrow> list_all wf_item its"
  unfolding unmarshal_items_def
  by (erule unmarshal_slice_inv [rotated]) (rule decode_object_inv [where P = wf_item, OF item_field_wf wf_zero_item])

definition wf_part :: "responses_content_part \<Rightarrow> bool" where
  "wf_part p \<longleftrightarrow> valid_utf8 (rcp_Type p) \<and> valid_utf8 (rcp_Text p) \<and> valid_utf8 (rcp_ImageURL p)"

lemma part_field_keys [json_read]:
  "response_part_field p (''type'', v) = map_option (\<lambda>s. p\<lparr>rcp_Type := s\<rparr>) (decode_string_field v (rcp_Type p))"
  "response_part_field p (''text'', v) = map_option (\<lambda>s. p\<lparr>rcp_Text := s\<rparr>) (decode_string_field v (rcp_Text p))"
  "response_part_field p (''image_url'', v) = map_option (\<lambda>s. p\<lparr>rcp_ImageURL := s\<rparr>) (decode_string_field v (rcp_ImageURL p))"
  by (simp_all add: response_part_field_def key_eval)

lemma content_part_read:
  "wf_part p \<Longrightarrow> decode_object response_part_field zero_content_part (content_part_json p) = Some p"
  unfolding content_part_json_def wf_part_def
  by (cases p) (simp add: decode_print_object decode_fields_append json_read omit_string_def)

lemma marshal_parts_read:
  assumes "list_all wf_part ps"
  shows "unmarshal_response_parts (marshal_response_parts (Some ps)) = Some (Some ps)"
proof -
  have "marshal_slice (\<lambda>p. Some (content_part_json p)) (Some ps) = Some (marshal_response_parts (Some ps))"
    by (simp add: marshal_slice_def marshal_response_parts_def list_all_iff)
  moreover have "\<exists>t. marshal_slice (\<lambda>p. Some (content_part_json p)) (Some ps) = Some t \<and> solid t \<and>
      unmarshal_slice (decode_object response_part_field zero_content_part) t = Some (Some (map (\<lambda>p. p) ps))"
    by (rule marshal_slice_read) (use assms content_part_read in \<open>auto simp: list_all_iff\<close>)
  ultimately show ?thesis by (auto simp: unmarshal_response_parts_def)
qed

lemma parts_not_string: "unmarshal_string (marshal_response_parts (Some ps)) = None"
  by (simp add: marshal_response_parts_def unmarshal_string_def print_array_def byte_def)

lemma marshal_parts_solid [simp]: "solid (marshal_response_parts (Some ps))"
  by (simp add: marshal_response_parts_def list_all_iff)

lemma part_field_wf: "wf_part x \<Longrightarrow> response_part_field x m = Some y \<Longrightarrow> wf_part y"
  by (auto simp: response_part_field_def wf_part_def dest: decode_string_valid split: if_splits)

lemma unmarshal_parts_wf: "unmarshal_response_parts raw = Some (Some ps) \<Longrightarrow> list_all wf_part ps"
  unfolding unmarshal_response_parts_def
  by (erule unmarshal_slice_inv [rotated])
    (rule decode_object_inv [where P = wf_part and f = response_part_field and x = zero_content_part],
      auto simp: part_field_wf, simp add: wf_part_def)

end
