(* ===== verification/ImageMedia.thy ===== *)
theory ImageMedia
  imports Utf8
begin

text \<open>
  \<open>image_media_type.go\<close>: the image format of base64 data, by its first bytes. The decoder of
  \<open>encoding/base64\<close> skips carriage returns and line feeds, wants padding with \<open>StdEncoding\<close> and
  rejects it with \<open>RawStdEncoding\<close>; unused bits of the last character are ignored. The property
  shows that the short cut over the base64 text finds what decoding the bytes would find.
\<close>

section \<open>Base64\<close>

definition b64_value :: "char \<Rightarrow> nat option" where
  "b64_value c =
     (let b = byte c in
      if 65 \<le> b \<and> b \<le> 90 then Some (b - 65)
      else if 97 \<le> b \<and> b \<le> 122 then Some (b - 71)
      else if 48 \<le> b \<and> b \<le> 57 then Some (b + 4)
      else if b = 43 then Some 62
      else if b = 47 then Some 63
      else None)"

definition not_newline :: "char \<Rightarrow> bool" where
  "not_newline c \<longleftrightarrow> byte c \<noteq> 10 \<and> byte c \<noteq> 13"

definition byte1 :: "nat \<Rightarrow> nat \<Rightarrow> char" where
  "byte1 a b = chr (a * 4 + b div 16)"

definition byte2 :: "nat \<Rightarrow> nat \<Rightarrow> char" where
  "byte2 b c = chr (b mod 16 * 16 + c div 4)"

definition byte3 :: "nat \<Rightarrow> nat \<Rightarrow> char" where
  "byte3 c d = chr (c mod 4 * 64 + d)"

definition b64_pair :: "char \<Rightarrow> char \<Rightarrow> string option" where
  "b64_pair a b =
     (case (b64_value a, b64_value b) of (Some x, Some y) \<Rightarrow> Some [byte1 x y] | _ \<Rightarrow> None)"

definition b64_triple :: "char \<Rightarrow> char \<Rightarrow> char \<Rightarrow> string option" where
  "b64_triple a b c =
     (case (b64_value a, b64_value b, b64_value c) of
        (Some x, Some y, Some z) \<Rightarrow> Some [byte1 x y, byte2 y z] | _ \<Rightarrow> None)"

definition b64_quad :: "char \<Rightarrow> char \<Rightarrow> char \<Rightarrow> char \<Rightarrow> string option" where
  "b64_quad a b c d =
     (case (b64_value a, b64_value b, b64_value c, b64_value d) of
        (Some x, Some y, Some z, Some w) \<Rightarrow> Some [byte1 x y, byte2 y z, byte3 z w] | _ \<Rightarrow> None)"

fun raw_decode :: "string \<Rightarrow> string option" where
  "raw_decode [] = Some []"
| "raw_decode [a] = None"
| "raw_decode [a, b] = b64_pair a b"
| "raw_decode [a, b, c] = b64_triple a b c"
| "raw_decode (a # b # c # d # s) =
     (case b64_quad a b c d of None \<Rightarrow> None | Some q \<Rightarrow> map_option (\<lambda>r. q @ r) (raw_decode s))"

fun std_decode :: "string \<Rightarrow> string option" where
  "std_decode [] = Some []"
| "std_decode (a # b # c # d # s) =
     (if d = CHR ''='' then
        (if s \<noteq> [] then None else if c = CHR ''='' then b64_pair a b else b64_triple a b c)
      else (case b64_quad a b c d of None \<Rightarrow> None | Some q \<Rightarrow> map_option (\<lambda>r. q @ r) (std_decode s)))"
| "std_decode _ = None"

text \<open>\<open>base64.StdEncoding.DecodeString\<close> and \<open>base64.RawStdEncoding.DecodeString\<close>.\<close>

definition StdDecodeString :: "string \<Rightarrow> string option" where
  "StdDecodeString s = std_decode (filter not_newline s)"

definition RawDecodeString :: "string \<Rightarrow> string option" where
  "RawDecodeString s = raw_decode (filter not_newline s)"

section \<open>Detection\<close>

definition decodePrefix :: "string \<Rightarrow> string option" where
  "decodePrefix p = (case StdDecodeString (p @ ''=='') of Some d \<Rightarrow> Some d | None \<Rightarrow> RawDecodeString p)"

definition detectWebP :: "string \<Rightarrow> string" where
  "detectWebP b64Data =
     (if length b64Data < 16 then []
      else (case decodePrefix (take 16 b64Data) of
              None \<Rightarrow> []
            | Some decoded \<Rightarrow>
                if 12 \<le> length decoded \<and> take 4 (drop 8 decoded) = ''WEBP'' then ''image/webp'' else []))"

definition magicType :: "string \<Rightarrow> string" where
  "magicType decoded =
     (if map byte (take 3 decoded) = [0xFF, 0xD8, 0xFF] then ''image/jpeg''
      else if map byte (take 3 decoded) = [0x89, 0x50, 0x4E] then ''image/png''
      else if map byte (take 3 decoded) = [0x47, 0x49, 0x46] then ''image/gif''
      else [])"

definition DetectImageMediaType :: "string \<Rightarrow> string" where
  "DetectImageMediaType b64Data =
     (if length b64Data < 8 then []
      else if take 4 b64Data = ''/9j/'' then ''image/jpeg''
      else if take 5 b64Data = ''iVBOR'' then ''image/png''
      else if take 4 b64Data = ''R0lG'' then ''image/gif''
      else if take 5 b64Data = ''UklGR'' then detectWebP b64Data
      else (case decodePrefix (take 24 b64Data) of
              None \<Rightarrow> []
            | Some decoded \<Rightarrow> if length decoded < 3 then [] else magicType decoded))"

section \<open>The short cut agrees with the bytes\<close>

lemma std_quad:
  assumes "b64_quad a b c d = Some q" and "std_decode (a # b # c # d # s) = Some x"
  shows "take 3 x = q"
proof -
  have "d \<noteq> CHR ''=''" using assms(1) by (auto simp: b64_quad_def b64_value_def byte_def split: option.splits)
  moreover have "length q = 3" using assms(1) by (auto simp: b64_quad_def split: option.splits)
  ultimately show ?thesis using assms by auto
qed

lemma raw_quad:
  assumes "b64_quad a b c d = Some q" and "raw_decode (a # b # c # d # s) = Some x"
  shows "take 3 x = q"
proof -
  have "length q = 3" using assms(1) by (auto simp: b64_quad_def split: option.splits)
  with assms show ?thesis by auto
qed

lemma value_not_newline: "b64_value a = Some x \<Longrightarrow> not_newline a"
  by (auto simp: b64_value_def not_newline_def Let_def)

lemma quad_not_newline:
  "b64_quad a b c d = Some q \<Longrightarrow> not_newline a \<and> not_newline b \<and> not_newline c \<and> not_newline d"
  by (auto simp: b64_quad_def value_not_newline split: option.splits)

lemma decodePrefix_quad:
  assumes "take 4 s = [a, b, c, d]" and "b64_quad a b c d = Some q" and "decodePrefix (take 24 s) = Some x"
  shows "take 3 x = q"
proof -
  have s: "take 24 s = a # b # c # d # take 20 (drop 4 s)"
    using take_add [of 4 20 s] assms(1) by simp
  have "filter not_newline (take 24 s @ t) = a # b # c # d # filter not_newline (take 20 (drop 4 s) @ t)" for t
    using quad_not_newline [OF assms(2)] by (simp add: s)
  from this [of "''==''"] this [of "[]"] show ?thesis
    using assms(3) std_quad [OF assms(2)] raw_quad [OF assms(2)]
    by (auto simp: decodePrefix_def StdDecodeString_def RawDecodeString_def split: option.splits)
qed

lemma magic_values:
  "b64_quad (CHR ''/'') (CHR ''9'') (CHR ''j'') (CHR ''/'') = Some (map chr [0xFF, 0xD8, 0xFF])"
  "b64_quad (CHR ''i'') (CHR ''V'') (CHR ''B'') (CHR ''O'') = Some (map chr [0x89, 0x50, 0x4E])"
  "b64_quad (CHR ''R'') (CHR ''0'') (CHR ''l'') (CHR ''G'') = Some (map chr [0x47, 0x49, 0x46])"
  by (simp_all add: b64_quad_def b64_value_def byte1_def byte2_def byte3_def byte_def)

lemma magicType_of:
  "take 3 d = map chr [0xFF, 0xD8, 0xFF] \<Longrightarrow> magicType d = ''image/jpeg''"
  "take 3 d = map chr [0x89, 0x50, 0x4E] \<Longrightarrow> magicType d = ''image/png''"
  "take 3 d = map chr [0x47, 0x49, 0x46] \<Longrightarrow> magicType d = ''image/gif''"
  "length d < 3 \<Longrightarrow> magicType d = []"
  by (auto simp: magicType_def dest: arg_cong [where f = length])

text \<open>
  For every base64 text whose beginning can be decoded, other than the RIFF container, the
  detected media type is the one the first decoded bytes have: the comparison of the base64 text
  itself, which avoids decoding, is only a short cut.
\<close>

theorem image_type_by_content:
  assumes "8 \<le> length s" and "take 5 s \<noteq> ''UklGR''" and "decodePrefix (take 24 s) = Some d"
  shows "DetectImageMediaType s = magicType d"
proof -
  have png: "take 4 s = ''iVBO''" if "take 5 s = ''iVBOR''"
    using arg_cong [OF that, of "take 4"] by simp
  show ?thesis
    using assms magicType_of decodePrefix_quad [OF _ magic_values(1) assms(3)]
      decodePrefix_quad [OF _ magic_values(2) assms(3)] decodePrefix_quad [OF _ magic_values(3) assms(3)] png
    unfolding DetectImageMediaType_def by (auto simp del: take_Suc_Cons)
qed

theorem image_type_by_content_witness:
  "DetectImageMediaType ''iVBOAAAA'' = ''image/png'' \<and> DetectImageMediaType ''R0lGODlh'' = ''image/gif''"
proof -
  have d: "decodePrefix (take 24 ''iVBOAAAA'') = Some (map chr [0x89, 0x50, 0x4E, 0, 0, 0])"
      "decodePrefix (take 24 ''R0lGODlh'') = Some (map chr [0x47, 0x49, 0x46, 0x38, 0x39, 0x61])"
    by (simp_all add: decodePrefix_def StdDecodeString_def RawDecodeString_def not_newline_def b64_quad_def b64_pair_def
        b64_value_def byte1_def byte2_def byte3_def byte_def)
  show ?thesis
    using image_type_by_content [OF _ _ d(1)] image_type_by_content [OF _ _ d(2)] by (simp add: magicType_def)
qed

end
