(* ===== verification/ToAnthropicRequest.thy ===== *)
theory ToAnthropicRequest
  imports ApiJson ImageMedia
begin

text \<open>
  \<open>responses_to_anthropic_request.go\<close>: a Responses API request becomes an Anthropic Messages request
  (\<open>ResponsesToAnthropicRequest\<close>). Every input item becomes a message of its own; the messages are
  then merged, their tool calls and tool results put next to each other, and merged again
  (\<open>repairMessages\<close>). The content of a message stays a raw JSON text throughout, as in the code,
  and is parsed again by every pass.
\<close>

declare skip_val.simps [simp del] skip_elems.simps [simp del] skip_mems.simps [simp del]
declare compact_raw.simps(2) [simp del]

text \<open>The errors of the request converters.\<close>

datatype convert_error = ParseInput | ParseContent | ParseToolChoice | MarshalFailed

definition or_marshal_error :: "'a option \<Rightarrow> convert_error + 'a" where
  "or_marshal_error r = (case r of None \<Rightarrow> Inl MarshalFailed | Some x \<Rightarrow> Inr x)"

section \<open>Small mappings\<close>

definition defaultThinkingBudget :: "string \<Rightarrow> int" where
  "defaultThinkingBudget effort =
     (if effort = ''low'' then 1024 else if effort = ''medium'' then 4096 else if effort = ''high'' then 10240
      else if effort = ''max'' then 32768 else 10240)"

definition mapResponsesEffortToAnthropic :: "string \<Rightarrow> string" where
  "mapResponsesEffortToAnthropic effort = (if effort = ''xhigh'' then ''max'' else effort)"

definition fromResponsesCallIDToAnthropic :: "string \<Rightarrow> string" where
  "fromResponsesCallIDToAnthropic callid =
     (let after = drop 3 callid in
      if prefix ''fc_'' callid \<and> (prefix ''toolu_'' after \<or> prefix ''call_'' after) then after
      else if \<not> prefix ''toolu_'' callid \<and> \<not> prefix ''call_'' callid then ''toolu_'' @ callid
      else callid)"

text \<open>The text before the first occurrence of a byte and the text after it (\<open>strings.Index\<close>).\<close>

definition cut_at :: "char \<Rightarrow> string \<Rightarrow> (string \<times> string) option" where
  "cut_at c s = (if c \<in> set s then Some (takeWhile (\<lambda>d. d \<noteq> c) s, tl (dropWhile (\<lambda>d. d \<noteq> c) s)) else None)"

definition dataURIToAnthropicImageSource :: "string \<Rightarrow> anthropic_image_source option" where
  "dataURIToAnthropicImageSource dataURI =
     (if \<not> prefix ''data:'' dataURI then None
      else (case cut_at (CHR '';'') (drop 5 dataURI) of
              None \<Rightarrow> None
            | Some (mediaType, rest) \<Rightarrow>
                if \<not> prefix ''base64,'' rest then None
                else (let imgdata = drop 7 rest; corrected = DetectImageMediaType imgdata in
                      Some \<lparr>src_Type = ''base64'',
                        src_MediaType = (if corrected \<noteq> [] \<and> corrected \<noteq> mediaType then corrected else mediaType),
                        src_Data = imgdata\<rparr>)))"

section \<open>Message contents\<close>

definition text_block :: "string \<Rightarrow> anthropic_content_block" where
  "text_block t = zero_block\<lparr>blk_Type := ''text'', blk_Text := t\<rparr>"

definition extractTextFromContent :: "raw_message \<Rightarrow> string" where
  "extractTextFromContent raw =
     (if raw = [] then []
      else (case unmarshal_string raw of
              Some s \<Rightarrow> s
            | None \<Rightarrow>
                (case unmarshal_response_parts raw of
                   Some ps \<Rightarrow> join paragraph_break (map rcp_Text
                     (filter (\<lambda>p. (rcp_Type p = ''input_text'' \<or> rcp_Type p = ''output_text'' \<or> rcp_Type p = ''text'') \<and>
                        rcp_Text p \<noteq> []) (case ps of None \<Rightarrow> [] | Some qs \<Rightarrow> qs)))
                 | None \<Rightarrow> [])))"

definition userPartBlocks :: "responses_content_part \<Rightarrow> anthropic_content_block list" where
  "userPartBlocks p =
     (if rcp_Type p = ''input_text'' \<or> rcp_Type p = ''text'' then
        (if rcp_Text p \<noteq> [] then [text_block (rcp_Text p)] else [])
      else if rcp_Type p = ''input_image'' then
        (case dataURIToAnthropicImageSource (rcp_ImageURL p) of
           None \<Rightarrow> [] | Some src \<Rightarrow> [zero_block\<lparr>blk_Type := ''image'', blk_Source := Some src\<rparr>])
      else [])"

definition convertResponsesUserToAnthropicContent :: "raw_message \<Rightarrow> raw_message option" where
  "convertResponsesUserToAnthropicContent raw =
     (if raw = [] then Some (json_quote [])
      else (case unmarshal_string raw of
              Some s \<Rightarrow> Some (json_quote s)
            | None \<Rightarrow>
                (case unmarshal_response_parts raw of
                   None \<Rightarrow> Some raw
                 | Some ps \<Rightarrow>
                     (let blocks = concat (map userPartBlocks (case ps of None \<Rightarrow> [] | Some qs \<Rightarrow> qs)) in
                      if blocks = [] then Some (json_quote []) else marshal_blocks (Some blocks)))))"

definition assistantPartBlocks :: "responses_content_part \<Rightarrow> anthropic_content_block list" where
  "assistantPartBlocks p =
     (if (rcp_Type p = ''output_text'' \<or> rcp_Type p = ''text'') \<and> rcp_Text p \<noteq> []
      then [text_block (rcp_Text p)] else [])"

definition convertResponsesAssistantToAnthropicContent :: "raw_message \<Rightarrow> raw_message option" where
  "convertResponsesAssistantToAnthropicContent raw =
     (if raw = [] then marshal_blocks (Some [text_block []])
      else (case unmarshal_string raw of
              Some s \<Rightarrow> marshal_blocks (Some [text_block s])
            | None \<Rightarrow>
                (case unmarshal_response_parts raw of
                   None \<Rightarrow> Some raw
                 | Some ps \<Rightarrow>
                     (let blocks = concat (map assistantPartBlocks (case ps of None \<Rightarrow> [] | Some qs \<Rightarrow> qs)) in
                      marshal_blocks (Some (if blocks = [] then [text_block []] else blocks))))))"

section \<open>Repairing the message sequence\<close>

text \<open>\<open>None\<close> is the nil slice.\<close>

definition parseContentBlocks :: "raw_message \<Rightarrow> anthropic_content_block list option" where
  "parseContentBlocks raw =
     (case unmarshal_blocks raw of
        Some bs \<Rightarrow> bs
      | None \<Rightarrow> (case unmarshal_string raw of Some s \<Rightarrow> Some [text_block s] | None \<Rightarrow> None))"

definition elems :: "'a list option \<Rightarrow> 'a list" where
  "elems xs = (case xs of None \<Rightarrow> [] | Some ys \<Rightarrow> ys)"

text \<open>\<open>append(a, b...)\<close>: nothing appended to the nil slice leaves it nil.\<close>

definition append_slice :: "'a list option \<Rightarrow> 'a list \<Rightarrow> 'a list option" where
  "append_slice a b = (if a = None \<and> b = [] then None else Some (elems a @ b))"

text \<open>A marshalling error is ignored and leaves the content nil.\<close>

definition or_nil :: "raw_message option \<Rightarrow> raw_message" where
  "or_nil r = (case r of None \<Rightarrow> [] | Some t \<Rightarrow> t)"

definition anthropicMessageFromBlocks :: "string \<Rightarrow> anthropic_content_block list \<Rightarrow> anthropic_message" where
  "anthropicMessageFromBlocks role blocks = \<lparr>am_Role = role, am_Content = or_nil (marshal_blocks (Some blocks))\<rparr>"

definition mergeMessage :: "anthropic_message list \<Rightarrow> anthropic_message \<Rightarrow> anthropic_message list" where
  "mergeMessage merged msg =
     (if merged = [] \<or> am_Role (last merged) \<noteq> am_Role msg then merged @ [msg]
      else butlast merged @ [(last merged)\<lparr>am_Content := or_nil (marshal_blocks
        (append_slice (parseContentBlocks (am_Content (last merged))) (elems (parseContentBlocks (am_Content msg)))))\<rparr>])"

definition mergeConsecutiveMessages :: "anthropic_message list \<Rightarrow> anthropic_message list" where
  "mergeConsecutiveMessages messages =
     (if length messages \<le> 1 then messages else foldl mergeMessage [] messages)"

definition blocks_of :: "anthropic_message \<Rightarrow> anthropic_content_block list" where
  "blocks_of m = elems (parseContentBlocks (am_Content m))"

definition isToolResult :: "anthropic_content_block \<Rightarrow> bool" where
  "isToolResult b \<longleftrightarrow> blk_Type b = ''tool_result''"

definition isToolUse :: "anthropic_content_block \<Rightarrow> bool" where
  "isToolUse b \<longleftrightarrow> blk_Type b = ''tool_use''"

text \<open>The tool results by the identifier of their call; of several with one identifier the last.\<close>

definition toolResultIndex :: "anthropic_message list \<Rightarrow> string \<Rightarrow> anthropic_content_block option" where
  "toolResultIndex messages =
     map_of (rev (map (\<lambda>b. (blk_ToolUseID b, b))
       (filter (\<lambda>b. isToolResult b \<and> blk_ToolUseID b \<noteq> [])
         (concat (map blocks_of (filter (\<lambda>m. am_Role m = ''user'') messages))))))"

definition pairAssistantMessage :: "(string \<Rightarrow> anthropic_content_block option) \<Rightarrow> anthropic_message \<Rightarrow> anthropic_message list" where
  "pairAssistantMessage results m =
     (let toolUses = filter isToolUse (blocks_of m);
          others = filter (\<lambda>b. \<not> isToolUse b) (blocks_of m);
          kept = filter (\<lambda>b. results (blk_ID b) \<noteq> None) toolUses
      in if toolUses = [] then [m]
         else if kept = [] then (if others \<noteq> [] then [anthropicMessageFromBlocks ''assistant'' others] else [])
         else [anthropicMessageFromBlocks ''assistant'' (others @ kept),
               anthropicMessageFromBlocks ''user'' (map (\<lambda>b. the (results (blk_ID b))) kept)])"

definition pairUserMessage :: "anthropic_message \<Rightarrow> anthropic_message list" where
  "pairUserMessage m =
     (let nonResult = filter (\<lambda>b. \<not> isToolResult b) (blocks_of m)
      in if \<not> list_ex isToolResult (blocks_of m) then [m]
         else if nonResult \<noteq> [] then [anthropicMessageFromBlocks ''user'' nonResult] else [])"

definition pairMessage :: "(string \<Rightarrow> anthropic_content_block option) \<Rightarrow> anthropic_message \<Rightarrow> anthropic_message list" where
  "pairMessage results m =
     (if am_Role m = ''assistant'' then pairAssistantMessage results m
      else if am_Role m = ''user'' then pairUserMessage m
      else [m])"

definition normalizeAnthropicToolPairing :: "anthropic_message list \<Rightarrow> anthropic_message list" where
  "normalizeAnthropicToolPairing messages = concat (map (pairMessage (toolResultIndex messages)) messages)"

definition repairMessages :: "anthropic_message list \<Rightarrow> anthropic_message list" where
  "repairMessages messages =
     mergeConsecutiveMessages (normalizeAnthropicToolPairing (mergeConsecutiveMessages messages))"

section \<open>The input items\<close>

definition functionCallMessage :: "responses_input_item \<Rightarrow> anthropic_message" where
  "functionCallMessage it =
     anthropicMessageFromBlocks ''assistant''
       [zero_block\<lparr>blk_Type := ''tool_use'', blk_ID := fromResponsesCallIDToAnthropic (it_CallID it),
          blk_Name := it_Name it, blk_Input := (if it_Arguments it \<noteq> [] then it_Arguments it else ''{}'')\<rparr>]"

definition functionOutputMessage :: "responses_input_item \<Rightarrow> anthropic_message" where
  "functionOutputMessage it =
     anthropicMessageFromBlocks ''user''
       [zero_block\<lparr>blk_Type := ''tool_result'', blk_ToolUseID := fromResponsesCallIDToAnthropic (it_CallID it),
          blk_Content := json_quote (if it_Output it = [] then ''(empty)'' else it_Output it)\<rparr>]"

definition addMessage :: "string \<Rightarrow> raw_message option \<Rightarrow> raw_message \<times> anthropic_message list \<Rightarrow>
    convert_error + (raw_message \<times> anthropic_message list)" where
  "addMessage role content acc =
     (case content of
        None \<Rightarrow> Inl MarshalFailed
      | Some c \<Rightarrow> Inr (fst acc, snd acc @ [\<lparr>am_Role = role, am_Content = c\<rparr>]))"

definition convertInputItem :: "raw_message \<times> anthropic_message list \<Rightarrow> responses_input_item \<Rightarrow>
    convert_error + (raw_message \<times> anthropic_message list)" where
  "convertInputItem acc it =
     (if it_Role it = ''system'' then
        (let t = extractTextFromContent (it_Content it) in
         Inr (if t \<noteq> [] then (json_quote t, snd acc) else acc))
      else if it_Type it = ''function_call'' then Inr (fst acc, snd acc @ [functionCallMessage it])
      else if it_Type it = ''function_call_output'' then Inr (fst acc, snd acc @ [functionOutputMessage it])
      else if it_Role it = ''user'' then
        addMessage ''user'' (convertResponsesUserToAnthropicContent (it_Content it)) acc
      else if it_Role it = ''assistant'' then
        addMessage ''assistant'' (convertResponsesAssistantToAnthropicContent (it_Content it)) acc
      else if it_Content it \<noteq> [] then addMessage ''user'' (Some (it_Content it)) acc
      else Inr acc)"

fun convertInputItems :: "raw_message \<times> anthropic_message list \<Rightarrow> responses_input_item list \<Rightarrow>
    convert_error + (raw_message \<times> anthropic_message list)" where
  "convertInputItems acc [] = Inr acc"
| "convertInputItems acc (it # its) =
     (case convertInputItem acc it of Inl e \<Rightarrow> Inl e | Inr acc' \<Rightarrow> convertInputItems acc' its)"

definition convertResponsesInputToAnthropic :: "raw_message \<Rightarrow> convert_error + (raw_message \<times> anthropic_message list)" where
  "convertResponsesInputToAnthropic inputRaw =
     (case unmarshal_string inputRaw of
        Some s \<Rightarrow> Inr ([], [\<lparr>am_Role = ''user'', am_Content = json_quote s\<rparr>])
      | None \<Rightarrow>
          (case unmarshal_items inputRaw of
             None \<Rightarrow> Inl ParseInput
           | Some items \<Rightarrow>
               (case convertInputItems ([], []) (elems items) of
                  Inl e \<Rightarrow> Inl e
                | Inr (system, messages) \<Rightarrow> Inr (system, repairMessages messages))))"

section \<open>Tools and tool choice\<close>

definition empty_schema :: raw_message where
  "empty_schema = ''{'' @ json_quote ''type'' @ '':'' @ json_quote ''object'' @ '','' @ json_quote ''properties'' @ '':{}}''"

definition normalizeAnthropicInputSchema :: "raw_message \<Rightarrow> raw_message" where
  "normalizeAnthropicInputSchema schema = (if schema = [] \<or> schema = ''null'' then empty_schema else schema)"

definition convertResponsesToAnthropicTool :: "responses_tool \<Rightarrow> anthropic_tool" where
  "convertResponsesToAnthropicTool t =
     (if rt_Type t = ''web_search'' \<or> rt_Type t = ''google_search'' \<or> rt_Type t = ''web_search_20250305'' then
        \<lparr>at_Type = ''web_search_20250305'', at_Name = ''web_search'', at_Description = [], at_InputSchema = [],
         at_CacheControl = None\<rparr>
      else if rt_Type t = ''function'' then
        \<lparr>at_Type = [], at_Name = rt_Name t, at_Description = rt_Description t,
         at_InputSchema = normalizeAnthropicInputSchema (rt_Parameters t), at_CacheControl = None\<rparr>
      else
        \<lparr>at_Type = rt_Type t, at_Name = rt_Name t, at_Description = rt_Description t,
         at_InputSchema = rt_Parameters t, at_CacheControl = None\<rparr>)"

definition convertResponsesToAnthropicTools :: "responses_tool list \<Rightarrow> anthropic_tool list" where
  "convertResponsesToAnthropicTools tools = map convertResponsesToAnthropicTool tools"

record tool_choice =
  tch_Type :: string
  tch_Name :: string
  tch_FunctionName :: string

definition function_name_field :: "string \<Rightarrow> string \<times> raw_message \<Rightarrow> string option" where
  "function_name_field n m = (if equal_fold (fst m) ''name'' then decode_string_field (snd m) n else Some n)"

definition tool_choice_field :: "tool_choice \<Rightarrow> string \<times> raw_message \<Rightarrow> tool_choice option" where
  "tool_choice_field tc m =
     (if equal_fold (fst m) ''type'' then
        map_option (\<lambda>s. tc\<lparr>tch_Type := s\<rparr>) (decode_string_field (snd m) (tch_Type tc))
      else if equal_fold (fst m) ''name'' then
        map_option (\<lambda>s. tc\<lparr>tch_Name := s\<rparr>) (decode_string_field (snd m) (tch_Name tc))
      else if equal_fold (fst m) ''function'' then
        map_option (\<lambda>s. tc\<lparr>tch_FunctionName := s\<rparr>) (decode_object function_name_field (tch_FunctionName tc) (snd m))
      else Some tc)"

definition unmarshal_tool_choice :: "raw_message \<Rightarrow> tool_choice option" where
  "unmarshal_tool_choice raw =
     (if json_valid raw then decode_object tool_choice_field \<lparr>tch_Type = [], tch_Name = [], tch_FunctionName = []\<rparr> raw
      else None)"

definition choice_type :: "string \<Rightarrow> raw_message" where
  "choice_type t = marshal_object [(''type'', json_quote t)]"

definition convertResponsesToAnthropicToolChoice :: "raw_message \<Rightarrow> raw_message" where
  "convertResponsesToAnthropicToolChoice raw =
     (case unmarshal_string raw of
        Some s \<Rightarrow>
          (if s = ''auto'' then choice_type ''auto'' else if s = ''required'' then choice_type ''any''
           else if s = ''none'' then choice_type ''none'' else raw)
      | None \<Rightarrow>
          (case unmarshal_tool_choice raw of
             Some tc \<Rightarrow>
               (if tch_Type tc = ''function'' then
                  (let n0 = trim_space (tch_Name tc);
                       n = (if n0 = [] then trim_space (tch_FunctionName tc) else n0)
                   in if n = [] then raw
                      else marshal_object [(''type'', json_quote ''tool''), (''name'', json_quote n)])
                else raw)
           | None \<Rightarrow> raw))"

section \<open>The request\<close>

definition ResponsesToAnthropicRequest :: "responses_request \<Rightarrow> convert_error + anthropic_request" where
  "ResponsesToAnthropicRequest req =
     (case convertResponsesInputToAnthropic (rq_Input req) of
        Inl e \<Rightarrow> Inl e
      | Inr (system, messages) \<Rightarrow>
          (let maxTokens = (case rq_MaxOutputTokens req of Some n \<Rightarrow> if 0 < n then n else 0 | None \<Rightarrow> 0);
               effort = (case rq_Reasoning req of Some r \<Rightarrow> rre_Effort r | None \<Rightarrow> []);
               mapped = mapResponsesEffortToAnthropic effort
           in Inr (zero_anthropic_request\<lparr>
                aq_Model := rq_Model req, aq_Messages := messages, aq_Temperature := rq_Temperature req,
                aq_TopP := rq_TopP req, aq_Stream := rq_Stream req, aq_System := system,
                aq_MaxTokens := (if maxTokens = 0 then 8192 else maxTokens),
                aq_Tools := convertResponsesToAnthropicTools (rq_Tools req),
                aq_ToolChoice := (if rq_ToolChoice req \<noteq> []
                  then convertResponsesToAnthropicToolChoice (rq_ToolChoice req) else []),
                aq_OutputConfig := (if effort \<noteq> [] then Some \<lparr>aoc_Effort = mapped\<rparr> else None),
                aq_Thinking := (if effort \<noteq> [] \<and> mapped \<noteq> ''low''
                  then Some \<lparr>ath_Type = ''enabled'', ath_BudgetTokens = defaultThinkingBudget mapped\<rparr> else None)\<rparr>)))"

section \<open>Parsing what was printed\<close>

lemma text_block_wf: "valid_utf8 t \<Longrightarrow> wf_block (text_block t)"
  by (simp add: text_block_def wf_block_def raw_ok_def)

lemma compact_text_block [simp]: "compact_block (text_block t) = text_block t"
  by (simp add: text_block_def compact_block_def)

lemma parse_wf: "list_all wf_block (elems (parseContentBlocks raw))"
  using unmarshal_blocks_wf [of raw] unmarshal_string_valid [of raw]
  by (auto simp: parseContentBlocks_def elems_def text_block_wf split: option.splits)

lemma blocks_of_wf [simp]: "list_all wf_block (blocks_of m)"
  by (simp add: blocks_of_def parse_wf)

lemma parse_marshal:
  assumes "list_all wf_block bs"
  shows "elems (parseContentBlocks (or_nil (marshal_blocks (Some bs)))) = map compact_block bs"
proof -
  obtain t where t: "marshal_blocks (Some bs) = Some t" "unmarshal_blocks t = Some (Some (map compact_block bs))"
    using marshal_blocks_read [OF assms] by blast
  then show ?thesis by (simp add: or_nil_def parseContentBlocks_def elems_def)
qed

lemma blocks_of_from [simp]:
  "list_all wf_block bs \<Longrightarrow> blocks_of (anthropicMessageFromBlocks role bs) = map compact_block bs"
  by (simp add: blocks_of_def anthropicMessageFromBlocks_def parse_marshal)

lemma parse_append:
  assumes "list_all wf_block (elems a)" and "list_all wf_block b"
  shows "elems (parseContentBlocks (or_nil (marshal_blocks (append_slice a b)))) = map compact_block (elems a @ b)"
proof (cases "a = None \<and> b = []")
  case True
  then have "marshal_blocks (append_slice a b) = Some ''null''"
    by (simp add: append_slice_def marshal_blocks_def marshal_slice_def)
  with True show ?thesis by (simp add: or_nil_def parseContentBlocks_def unmarshal_blocks_def elems_def)
next
  case False
  then have "append_slice a b = Some (elems a @ b)" unfolding append_slice_def by (rule if_not_P)
  with assms show ?thesis by (simp add: parse_marshal del: map_append)
qed

section \<open>Turns: messages without their text\<close>

text \<open>
  A turn is a role and the blocks of its content, with their raw fields compacted. The abstract
  repair works on turns; \<open>repair_refines\<close> shows that \<open>repairMessages\<close>, which prints and parses the
  contents between its passes, implements it.
\<close>

type_synonym turn = "string \<times> anthropic_content_block list"

definition turn_of :: "anthropic_message \<Rightarrow> turn" where
  "turn_of m = (am_Role m, map compact_block (blocks_of m))"

fun merge_from :: "turn \<Rightarrow> turn list \<Rightarrow> turn list" where
  "merge_from cur [] = [cur]"
| "merge_from cur (t # ts) =
     (if fst cur = fst t then merge_from (fst cur, snd cur @ snd t) ts else cur # merge_from t ts)"

definition merge_turns :: "turn list \<Rightarrow> turn list" where
  "merge_turns ts = (case ts of [] \<Rightarrow> [] | t # us \<Rightarrow> merge_from t us)"

text \<open>The blocks of the turns of one role, in order.\<close>

definition role_blocks :: "string \<Rightarrow> turn list \<Rightarrow> anthropic_content_block list" where
  "role_blocks r ts = concat (map snd (filter (\<lambda>t. fst t = r) ts))"

definition answer :: "turn list \<Rightarrow> string \<Rightarrow> anthropic_content_block option" where
  "answer ts = map_of (rev (map (\<lambda>b. (blk_ToolUseID b, b))
     (filter (\<lambda>b. isToolResult b \<and> blk_ToolUseID b \<noteq> []) (role_blocks ''user'' ts))))"

definition pair_turn :: "(string \<Rightarrow> anthropic_content_block option) \<Rightarrow> turn \<Rightarrow> turn list" where
  "pair_turn ans t =
     (let calls = filter isToolUse (snd t); others = filter (\<lambda>b. \<not> isToolUse b) (snd t);
          kept = filter (\<lambda>b. ans (blk_ID b) \<noteq> None) calls;
          rest = filter (\<lambda>b. \<not> isToolResult b) (snd t)
      in if fst t = ''assistant'' then
           (if calls = [] then [t]
            else if kept = [] then (if others \<noteq> [] then [(''assistant'', others)] else [])
            else [(''assistant'', others @ kept), (''user'', map (\<lambda>b. the (ans (blk_ID b))) kept)])
         else if fst t = ''user'' then
           (if \<not> list_ex isToolResult (snd t) then [t] else if rest \<noteq> [] then [(''user'', rest)] else [])
         else [t])"

definition repair_turns :: "turn list \<Rightarrow> turn list" where
  "repair_turns ts = (let us = merge_turns ts in merge_turns (concat (map (pair_turn (answer us)) us)))"

lemma turn_of_sel [simp]: "fst (turn_of m) = am_Role m" "snd (turn_of m) = map compact_block (blocks_of m)"
  by (simp_all add: turn_of_def)

lemma map_compact_idem [simp]: "list_all wf_block bs \<Longrightarrow> map compact_block (map compact_block bs) = map compact_block bs"
  by (induction bs) simp_all

lemma turn_of_from [simp]:
  "list_all wf_block bs \<Longrightarrow> turn_of (anthropicMessageFromBlocks role bs) = (role, map compact_block bs)"
  by (simp add: turn_of_def anthropicMessageFromBlocks_def del: map_map)
    (simp add: blocks_of_def parse_marshal del: map_map)

lemma turn_of_merged:
  "turn_of (m\<lparr>am_Content := or_nil (marshal_blocks
     (append_slice (parseContentBlocks (am_Content m)) (elems (parseContentBlocks (am_Content m')))))\<rparr>) =
   (am_Role m, snd (turn_of m) @ snd (turn_of m'))"
  using parse_append [OF parse_wf [of "am_Content m"] parse_wf [of "am_Content m'"]]
    map_compact_idem [of "elems (parseContentBlocks (am_Content m)) @ elems (parseContentBlocks (am_Content m'))"]
    parse_wf [of "am_Content m"] parse_wf [of "am_Content m'"]
  by (simp add: turn_of_def blocks_of_def del: map_map)

lemma merge_refines_from:
  "ms \<noteq> [] \<Longrightarrow> map turn_of (foldl mergeMessage ms ns) =
     butlast (map turn_of ms) @ merge_from (turn_of (last ms)) (map turn_of ns)"
proof (induction ns arbitrary: ms)
  case (Cons n ns)
  show ?case
  proof (cases "am_Role (last ms) = am_Role n")
    case True
    let ?m = "(last ms)\<lparr>am_Content := or_nil (marshal_blocks
      (append_slice (parseContentBlocks (am_Content (last ms))) (elems (parseContentBlocks (am_Content n)))))\<rparr>"
    have "mergeMessage ms n = butlast ms @ [?m]" using Cons.prems True by (simp add: mergeMessage_def)
    with Cons.IH [of "butlast ms @ [?m]"] True show ?thesis by (simp add: turn_of_merged map_butlast)
  next
    case False
    then have "mergeMessage ms n = ms @ [n]" using Cons.prems by (simp add: mergeMessage_def)
    moreover have "map turn_of ms = butlast (map turn_of ms) @ [turn_of (last ms)]"
      using Cons.prems append_butlast_last_id [of "map turn_of ms"] by (simp add: last_map)
    ultimately show ?thesis using Cons.IH [of "ms @ [n]"] False by simp
  qed
next
  case Nil
  then show ?case using append_butlast_last_id [of "map turn_of ms"] by (simp add: last_map)
qed

lemma merge_refines: "map turn_of (mergeConsecutiveMessages ms) = merge_turns (map turn_of ms)"
proof (cases ms)
  case (Cons m ns)
  have "foldl mergeMessage [] (m # ns) = foldl mergeMessage [m] ns" by (simp add: mergeMessage_def)
  with merge_refines_from [of "[m]" ns] Cons show ?thesis
    by (cases ns) (simp_all add: mergeConsecutiveMessages_def merge_turns_def)
qed (simp add: mergeConsecutiveMessages_def merge_turns_def)

lemma tool_kind [simp]:
  "isToolUse (compact_block b) = isToolUse b" "isToolResult (compact_block b) = isToolResult b"
  by (simp_all add: isToolUse_def isToolResult_def)

lemma role_blocks_turns:
  "role_blocks r (map turn_of ms) = map compact_block (concat (map blocks_of (filter (\<lambda>m. am_Role m = r) ms)))"
  by (induction ms) (simp_all add: role_blocks_def)

lemma map_of_map_snd: "map_of (map (\<lambda>b. (k b, g b)) bs) x = map_option g (map_of (map (\<lambda>b. (k b, b)) bs) x)"
  by (induction bs) simp_all

lemma filter_comp_map: "filter P (map compact_block bs) = map compact_block (filter (\<lambda>b. P (compact_block b)) bs)"
  by (induction bs) simp_all

lemma answer_refines: "answer (map turn_of ms) x = map_option compact_block (toolResultIndex ms x)"
  unfolding answer_def role_blocks_turns toolResultIndex_def filter_comp_map map_map o_def
  using map_of_map_snd [of blk_ToolUseID compact_block "rev (filter (\<lambda>b. isToolResult b \<and> blk_ToolUseID b \<noteq> [])
      (concat (map blocks_of (filter (\<lambda>m. am_Role m = ''user'') ms))))" x]
  by (simp add: rev_map o_def)

lemma toolResultIndex_SomeD:
  assumes "toolResultIndex ms x = Some b"
  shows "wf_block b \<and> isToolResult b \<and> blk_ToolUseID b = x \<and> x \<noteq> []"
proof -
  from map_of_SomeD [OF assms [unfolded toolResultIndex_def]]
  obtain m where "m \<in> set ms" "b \<in> set (blocks_of m)" "isToolResult b" "blk_ToolUseID b = x" "x \<noteq> []"
    by auto
  moreover from this(2) have "wf_block b" using blocks_of_wf [of m] by (auto simp: list_all_iff)
  ultimately show ?thesis by blast
qed

lemma list_all_filter: "list_all P xs \<Longrightarrow> list_all P (filter Q xs)"
  by (simp add: list_all_iff)

lemma pair_refines:
  "map turn_of (pairMessage (toolResultIndex ms) m) = pair_turn (answer (map turn_of ms)) (turn_of m)"
proof -
  let ?r = "toolResultIndex ms"
  let ?kept = "filter (\<lambda>b. ?r (blk_ID b) \<noteq> None) (filter isToolUse (blocks_of m))"
  have wf: "list_all wf_block (filter P (blocks_of m))" "list_all wf_block (filter Q (filter P (blocks_of m)))" for P Q
    by (intro list_all_filter blocks_of_wf)+
  have "list_all wf_block (map (\<lambda>b. the (?r (blk_ID b))) ?kept)"
    using toolResultIndex_SomeD [of ms] by (auto simp: list_all_iff)
  note t = turn_of_from [OF this] turn_of_from [OF wf(1)]
    turn_of_from [of "filter (\<lambda>b. \<not> isToolUse b) (blocks_of m) @ ?kept"]
  have k: "filter (\<lambda>b. answer (map turn_of ms) (blk_ID b) \<noteq> None) (filter isToolUse (map compact_block (blocks_of m))) =
      map compact_block ?kept"
    by (simp add: filter_comp_map answer_refines del: filter_filter)
  have r: "map (\<lambda>b. the (answer (map turn_of ms) (blk_ID b))) (map compact_block ?kept) =
      map compact_block (map (\<lambda>b. the (?r (blk_ID b))) ?kept)"
    by (auto simp: answer_refines)
  have e: "list_ex isToolResult (map compact_block bs) = list_ex isToolResult bs" for bs by (induction bs) simp_all
  show ?thesis
    unfolding pairMessage_def pair_turn_def Let_def turn_of_sel pairAssistantMessage_def pairUserMessage_def k r e
    using wf t by (simp add: filter_comp_map turn_of_def [of m] del: filter_filter map_map)
qed

lemma normalize_refines:
  "map turn_of (normalizeAnthropicToolPairing ms) =
     concat (map (pair_turn (answer (map turn_of ms))) (map turn_of ms))"
proof -
  have "map turn_of (concat (map (pairMessage (toolResultIndex ms)) ns)) =
      concat (map (pair_turn (answer (map turn_of ms))) (map turn_of ns))" for ns
    by (induction ns) (simp_all add: pair_refines)
  then show ?thesis by (simp add: normalizeAnthropicToolPairing_def)
qed

section \<open>The protocol of a request\<close>

definition alternating :: "turn list \<Rightarrow> bool" where
  "alternating ts \<longleftrightarrow> successively (\<lambda>s t. fst s \<noteq> fst t) ts"

definition roles_ok :: "turn list \<Rightarrow> bool" where
  "roles_ok ts \<longleftrightarrow> list_all (\<lambda>t. fst t = ''user'' \<or> fst t = ''assistant'') ts"

definition call_ids :: "anthropic_content_block list \<Rightarrow> string list" where
  "call_ids bs = map blk_ID (filter isToolUse bs)"

definition result_ids :: "anthropic_content_block list \<Rightarrow> string list" where
  "result_ids bs = map blk_ToolUseID (filter isToolResult bs)"

text \<open>
  \<open>tool_paired calls ts\<close>: the results of every user turn are those of the calls of the assistant
  turn before it, in the order of the calls, and no call is left without its results; \<open>calls\<close> are
  the calls the first turn has to answer.
\<close>

fun tool_paired :: "string list \<Rightarrow> turn list \<Rightarrow> bool" where
  "tool_paired calls [] \<longleftrightarrow> calls = []"
| "tool_paired calls ((role, bs) # ts) \<longleftrightarrow>
     (if role = ''user'' then result_ids bs = calls \<and> tool_paired [] ts
      else calls = [] \<and> tool_paired (call_ids bs) ts)"

lemma ids_append [simp]: "call_ids (xs @ ys) = call_ids xs @ call_ids ys" "result_ids (xs @ ys) = result_ids xs @ result_ids ys"
  by (simp_all add: call_ids_def result_ids_def)

lemma merge_from_hd: "merge_from cur ts \<noteq> [] \<and> fst (hd (merge_from cur ts)) = fst cur"
  by (induction ts arbitrary: cur) auto

lemma merge_from_alternating: "alternating (merge_from cur ts)"
proof (induction ts arbitrary: cur)
  case (Cons t ts)
  from Cons.IH [of t] Cons.IH [of "(fst cur, snd cur @ snd t)"] show ?case using merge_from_hd [of t ts]
    by (cases "merge_from t ts") (auto simp: alternating_def)
qed (simp add: alternating_def)

lemma merge_alternating: "alternating (merge_turns ts)"
  by (cases ts) (simp_all add: merge_turns_def merge_from_alternating, simp add: alternating_def)

lemma merge_from_roles: "roles_ok (merge_from cur ts) \<longleftrightarrow> roles_ok (cur # ts)"
  by (induction ts arbitrary: cur) (auto simp: roles_ok_def)

lemma merge_roles: "roles_ok (merge_turns ts) \<longleftrightarrow> roles_ok ts"
  by (cases ts) (simp_all add: merge_turns_def merge_from_roles)

lemma role_distinct [simp]: "''user'' \<noteq> ''assistant''" "''assistant'' \<noteq> ''user''"
  by simp_all

lemma answer_SomeD: "answer ts x = Some b \<Longrightarrow> isToolResult b \<and> blk_ToolUseID b = x"
  unfolding answer_def by (drule map_of_SomeD) auto

lemma filter_none: "filter P (filter (\<lambda>b. \<not> P b) xs) = []"
  by (induction xs) simp_all

lemma calls_of_others [simp]:
  "call_ids (filter (\<lambda>b. \<not> isToolUse b) bs) = []" "result_ids (filter (\<lambda>b. \<not> isToolResult b) bs) = []"
  unfolding call_ids_def result_ids_def filter_none by simp_all

lemma calls_of_kept [simp]:
  "call_ids (filter P (filter isToolUse bs)) = map blk_ID (filter P (filter isToolUse bs))"
  unfolding call_ids_def filter_filter by (simp add: conj_commute conj_left_commute)

lemma result_ids_answers:
  assumes "list_all (\<lambda>b. answer ts (blk_ID b) \<noteq> None) bs"
  shows "result_ids (map (\<lambda>b. the (answer ts (blk_ID b))) bs) = map blk_ID bs"
  using assms answer_SomeD [of ts] by (induction bs) (auto simp: result_ids_def)

text \<open>A run of turns a merge may continue with: what one turn is paired into.\<close>

lemma paired_turns:
  assumes "fst t = ''user'' \<or> fst t = ''assistant''"
    and "\<And>cur calls. fst cur = ''user'' \<Longrightarrow> result_ids (snd cur) = calls \<Longrightarrow> tool_paired calls (merge_from cur us)"
    and "\<And>cur. fst cur = ''assistant'' \<Longrightarrow> call_ids (snd cur) = [] \<Longrightarrow> tool_paired [] (merge_from cur us)"
  shows "fst cur = ''user'' \<Longrightarrow> result_ids (snd cur) = calls \<Longrightarrow> tool_paired calls (merge_from cur (pair_turn (answer ts) t @ us))"
    and "fst cur = ''assistant'' \<Longrightarrow> call_ids (snd cur) = [] \<Longrightarrow> tool_paired [] (merge_from cur (pair_turn (answer ts) t @ us))"
proof -
  let ?a = "answer ts"
  let ?kept = "filter (\<lambda>b. ?a (blk_ID b) \<noteq> None) (filter isToolUse (snd t))"
  have ids: "result_ids (map (\<lambda>b. the (?a (blk_ID b))) ?kept) = map blk_ID ?kept"
    by (rule result_ids_answers) (simp add: list_all_iff)
  consider (plain) "fst t = ''assistant''" "filter isToolUse (snd t) = []"
    | (lost) "fst t = ''assistant''" "filter isToolUse (snd t) \<noteq> []" "?kept = []"
    | (kept) "fst t = ''assistant''" "filter isToolUse (snd t) \<noteq> []" "?kept \<noteq> []"
    | (user) "fst t = ''user''" "\<not> list_ex isToolResult (snd t)"
    | (results) "fst t = ''user''" "list_ex isToolResult (snd t)" using assms(1) by blast
  note cs = this
  have nr: "\<not> list_ex isToolResult (snd t) \<Longrightarrow> result_ids (snd t) = []"
    by (auto simp: result_ids_def list_ex_iff filter_empty_conv)
  obtain r bs where t: "t = (r, bs)" by (cases t)
  have p: "fst cur = ''user'' \<Longrightarrow> tool_paired calls (cur # xs) \<longleftrightarrow> result_ids (snd cur) = calls \<and> tool_paired [] xs"
    "fst cur = ''assistant'' \<Longrightarrow> tool_paired calls (cur # xs) \<longleftrightarrow> calls = [] \<and> tool_paired (call_ids (snd cur)) xs"
    for cur :: turn and calls xs by (cases cur; simp)+
  show "tool_paired calls (merge_from cur (pair_turn ?a t @ us))" if "fst cur = ''user''" "result_ids (snd cur) = calls"
    using cs assms(2,3) that ids nr
    by cases (simp_all add: pair_turn_def Let_def p t call_ids_def del: filter_filter)
  show "tool_paired [] (merge_from cur (pair_turn ?a t @ us))" if "fst cur = ''assistant''" "call_ids (snd cur) = []"
    using cs assms(2,3) that ids nr
    by cases (simp_all add: pair_turn_def Let_def p t call_ids_def del: filter_filter)
qed

lemma paired_from:
  "list_all (\<lambda>t. fst t = ''user'' \<or> fst t = ''assistant'') us \<Longrightarrow>
    (fst cur = ''user'' \<longrightarrow> result_ids (snd cur) = calls \<longrightarrow>
       tool_paired calls (merge_from cur (concat (map (pair_turn (answer ts)) us)))) \<and>
    (fst cur = ''assistant'' \<longrightarrow> call_ids (snd cur) = [] \<longrightarrow>
       tool_paired [] (merge_from cur (concat (map (pair_turn (answer ts)) us))))"
proof (induction us arbitrary: cur calls)
  case (Cons u us)
  then have u: "fst u = ''user'' \<or> fst u = ''assistant''" by simp
  show ?case
    using paired_turns [OF u, of "concat (map (pair_turn (answer ts)) us)"] Cons by simp
next
  case Nil
  show ?case by (cases cur) simp
qed

lemma repaired_paired:
  assumes "roles_ok us"
  shows "tool_paired [] (merge_turns (concat (map (pair_turn (answer ts)) us)))"
proof -
  have base: "tool_paired [] (merge_turns (pair_turn (answer ts) u @ concat (map (pair_turn (answer ts)) vs)))"
    if "fst u = ''user'' \<or> fst u = ''assistant''" "list_all (\<lambda>t. fst t = ''user'' \<or> fst t = ''assistant'') vs"
      "tool_paired [] (merge_turns (concat (map (pair_turn (answer ts)) vs)))" for u vs
  proof (cases "pair_turn (answer ts) u")
    case Nil
    with that(3) show ?thesis by simp
  next
    case (Cons t rest)
    let ?vs = "concat (map (pair_turn (answer ts)) vs)"
    note pv = paired_from [OF that(2), of _ _ ts]
    show ?thesis
    proof (cases "fst u = ''user''")
      case True
      with Cons have "rest = []" "fst t = ''user''" "result_ids (snd t) = []"
        by (auto simp: pair_turn_def Let_def result_ids_def list_ex_iff filter_empty_conv split: if_splits)
      then show ?thesis using pv [of t "[]"] Cons by (simp add: merge_turns_def)
    next
      case False
      with that(1) have a: "fst u = ''assistant''" by simp
      have "tool_paired [] (merge_from (''assistant'', []) (pair_turn (answer ts) u @ ?vs))"
        using paired_turns(2) [where t = u and us = ?vs and ts = ts and cur = "(''assistant'', [])"] pv that(1) by (simp add: call_ids_def)
      moreover have "fst t = ''assistant''" using a Cons by (auto simp: pair_turn_def Let_def split: if_splits)
      ultimately show ?thesis using Cons by (cases t) (simp add: merge_turns_def)
    qed
  qed
  show ?thesis using assms
  proof (induction us)
    case (Cons u us)
    then show ?case using base [of u us] by (simp add: roles_ok_def)
  qed (simp add: merge_turns_def)
qed

lemma pair_turn_roles: "roles_ok us \<Longrightarrow> roles_ok (concat (map (pair_turn a) us))"
  by (induction us) (auto simp: roles_ok_def pair_turn_def Let_def)

section \<open>What a repair keeps\<close>

definition stream :: "turn list \<Rightarrow> (string \<times> anthropic_content_block) list" where
  "stream ts = concat (map (\<lambda>t. map (Pair (fst t)) (snd t)) ts)"

definition is_call :: "string \<times> anthropic_content_block \<Rightarrow> bool" where
  "is_call x \<longleftrightarrow> fst x = ''assistant'' \<and> isToolUse (snd x)"

definition is_result :: "string \<times> anthropic_content_block \<Rightarrow> bool" where
  "is_result x \<longleftrightarrow> fst x = ''user'' \<and> isToolResult (snd x)"

definition is_plain :: "string \<times> anthropic_content_block \<Rightarrow> bool" where
  "is_plain x \<longleftrightarrow> \<not> is_call x \<and> \<not> is_result x"

lemma stream_simps [simp]:
  "stream [] = []" "stream (t # ts) = map (Pair (fst t)) (snd t) @ stream ts" "stream (ts @ us) = stream ts @ stream us"
  by (simp_all add: stream_def)

lemma stream_merge_from: "stream (merge_from cur ts) = stream (cur # ts)"
  by (induction ts arbitrary: cur) auto

lemma stream_merge [simp]: "stream (merge_turns ts) = stream ts"
  by (cases ts) (simp_all add: merge_turns_def stream_merge_from)

lemma role_blocks_stream: "role_blocks r ts = map snd (filter (\<lambda>x. fst x = r) (stream ts))"
  by (induction ts) (auto simp: role_blocks_def filter_map o_def)

lemma answer_merge [simp]: "answer (merge_turns ts) = answer ts"
  by (simp add: answer_def role_blocks_stream)

lemma filter_role:
  "filter is_call (map (Pair r) bs) = (if r = ''assistant'' then map (Pair r) (filter isToolUse bs) else [])"
  "filter is_result (map (Pair r) bs) = (if r = ''user'' then map (Pair r) (filter isToolResult bs) else [])"
  "filter is_plain (map (Pair r) bs) = map (Pair r) (filter (\<lambda>b. \<not> (r = ''assistant'' \<and> isToolUse b) \<and>
     \<not> (r = ''user'' \<and> isToolResult b)) bs)"
  by (induction bs) (auto simp: is_call_def is_result_def is_plain_def)

lemma answers_are_results:
  assumes "list_all (\<lambda>b. answer ts (blk_ID b) \<noteq> None) bs"
  shows "filter isToolResult (map (\<lambda>b. the (answer ts (blk_ID b))) bs) = map (\<lambda>b. the (answer ts (blk_ID b))) bs"
    and "filter (\<lambda>b. \<not> isToolResult b) (map (\<lambda>b. the (answer ts (blk_ID b))) bs) = []"
  using assms answer_SomeD [of ts] by (induction bs) auto

lemma pair_turn_stream:
  fixes ts t
  defines "s \<equiv> stream (pair_turn (answer ts) t)" and "s0 \<equiv> map (Pair (fst t)) (snd t)"
  shows "filter is_plain s = filter is_plain s0"
    and "filter is_call s = filter (\<lambda>x. is_call x \<and> answer ts (blk_ID (snd x)) \<noteq> None) s0"
    and "map snd (filter is_result s) = map (\<lambda>x. the (answer ts (blk_ID (snd x)))) (filter is_call s)"
proof -
  obtain r bs where t: "t = (r, bs)" by (cases t)
  let ?a = "answer ts"
  let ?kept = "filter (\<lambda>b. ?a (blk_ID b) \<noteq> None) (filter isToolUse bs)"
  have k: "list_all (\<lambda>b. ?a (blk_ID b) \<noteq> None) ?kept" by (simp add: list_all_iff)
  note ans = answers_are_results [OF k]
  have calls: "filter (\<lambda>x. is_call x \<and> ?a (blk_ID (snd x)) \<noteq> None) (map (Pair r) bs) =
      (if r = ''assistant'' then map (Pair r) ?kept else [])"
    by (induction bs) (auto simp: is_call_def)
  have none: "filter isToolUse (filter (\<lambda>b. \<not> isToolUse b) bs) = []" "filter isToolResult (filter (\<lambda>b. \<not> isToolResult b) bs) = []"
    by (induction bs) simp_all
  have ex: "\<not> list_ex isToolResult bs \<longleftrightarrow> filter isToolResult bs = []" by (induction bs) auto
  have kk: "filter isToolUse ?kept = ?kept" "filter (\<lambda>b. \<not> isToolUse b) ?kept = []"
    by (rule filter_True filter_False; simp)+
  have e: "filter isToolUse bs = [] \<Longrightarrow> filter (\<lambda>b. \<not> isToolUse b) bs = bs" "filter isToolUse bs = [] \<Longrightarrow> ?kept = []"
    by (auto simp: filter_empty_conv filter_id_conv)
  have pt: "pair_turn ?a t =
      (if r = ''assistant'' then
         (if filter isToolUse bs = [] then [t]
          else if K = [] then (if Ot \<noteq> [] then [(''assistant'', Ot)] else [])
          else [(''assistant'', Ot @ K), (''user'', map (\<lambda>b. the (?a (blk_ID b))) K)])
       else if r = ''user'' then
         (if filter isToolResult bs = [] then [t] else if Rs \<noteq> [] then [(''user'', Rs)] else [])
       else [t])"
    if "K = ?kept" "Ot = filter (\<lambda>b. \<not> isToolUse b) bs" "Rs = filter (\<lambda>b. \<not> isToolResult b) bs" for K Ot Rs
    unfolding that pair_turn_def Let_def t fst_conv snd_conv ex by (rule refl)
  define K where "K = ?kept"
  define Ot where "Ot = filter (\<lambda>b. \<not> isToolUse b) bs"
  define Rs where "Rs = filter (\<lambda>b. \<not> isToolResult b) bs"
  note pt = pt [OF K_def Ot_def Rs_def]
  consider (plain) "r = ''assistant''" "filter isToolUse bs = []" "pair_turn ?a t = [t]"
    | (lost) "r = ''assistant''" "K = []" "pair_turn ?a t = [(''assistant'', Ot)]"
    | (gone) "r = ''assistant''" "K = []" "Ot = []" "pair_turn ?a t = []"
    | (kept) "r = ''assistant''" "pair_turn ?a t = [(''assistant'', Ot @ K), (''user'', map (\<lambda>b. the (?a (blk_ID b))) K)]"
    | (user) "r = ''user''" "filter isToolResult bs = []" "pair_turn ?a t = [t]"
    | (rest) "r = ''user''" "pair_turn ?a t = [(''user'', Rs)]"
    | (results) "r = ''user''" "Rs = []" "pair_turn ?a t = []"
    | (other) "r \<noteq> ''user''" "r \<noteq> ''assistant''" "pair_turn ?a t = [t]"
    using pt by metis
  note cs = this
  show "filter is_plain s = filter is_plain s0"
    unfolding s_def s0_def using cs
    by cases (use ans kk none e in \<open>simp_all add: t K_def Ot_def Rs_def filter_role del: filter_filter map_map\<close>)
  show "filter is_call s = filter (\<lambda>x. is_call x \<and> ?a (blk_ID (snd x)) \<noteq> None) s0"
    unfolding s_def s0_def t fst_conv snd_conv calls unfolding t [symmetric] using cs
    by cases (use kk none e in \<open>simp_all add: t K_def Ot_def Rs_def filter_role del: filter_filter map_map\<close>)
  show "map snd (filter is_result s) = map (\<lambda>x. the (?a (blk_ID (snd x)))) (filter is_call s)"
    unfolding s_def using cs
    by cases (use ans kk none e in \<open>simp_all add: t K_def Ot_def Rs_def filter_role del: filter_filter map_map\<close>, simp_all add: o_def)
qed

lemma pair_turns_stream:
  fixes ts us
  defines "s \<equiv> stream (concat (map (pair_turn (answer ts)) us))"
  shows "filter is_plain s = filter is_plain (stream us)"
    and "filter is_call s = filter (\<lambda>x. is_call x \<and> answer ts (blk_ID (snd x)) \<noteq> None) (stream us)"
    and "map snd (filter is_result s) = map (\<lambda>x. the (answer ts (blk_ID (snd x)))) (filter is_call s)"
  unfolding s_def
  by (induction us) (simp_all add: pair_turn_stream del: filter_filter)

text \<open>The messages the input items become.\<close>

definition message_ok :: "anthropic_message \<Rightarrow> bool" where
  "message_ok m \<longleftrightarrow> am_Role m = ''user'' \<or> am_Role m = ''assistant''"

lemma convertInputItem_roles:
  "convertInputItem acc it = Inr acc' \<Longrightarrow> list_all message_ok (snd acc) \<Longrightarrow> list_all message_ok (snd acc')"
  by (auto simp: convertInputItem_def addMessage_def message_ok_def functionCallMessage_def functionOutputMessage_def
      anthropicMessageFromBlocks_def Let_def split: if_splits option.splits)

lemma convertInputItems_roles:
  "convertInputItems acc its = Inr acc' \<Longrightarrow> list_all message_ok (snd acc) \<Longrightarrow> list_all message_ok (snd acc')"
  by (induction its arbitrary: acc) (auto split: sum.splits dest: convertInputItem_roles)

lemma turns_roles: "list_all message_ok ms \<Longrightarrow> roles_ok (map turn_of ms)"
  by (simp add: roles_ok_def message_ok_def list_all_iff)

text \<open>
  Refinement: printing and parsing the message contents between the passes of the repair does
  not matter. Seen as turns (a role and its content blocks, with compact raw fields) the repaired
  messages are what the abstract repair, which works on the turns alone, makes of the messages.
\<close>

theorem repair_refines: "map turn_of (repairMessages ms) = repair_turns (map turn_of ms)"
  by (simp add: repairMessages_def repair_turns_def Let_def merge_refines normalize_refines)

text \<open>
  C39. The repair keeps what it has to: every block that is neither a tool call of the assistant nor
  a tool result of the user keeps its place in the conversation, the calls that remain are exactly
  those that were answered somewhere, in order, and the results that remain are, call by call, the
  last result given under the call's identifier.
\<close>

theorem repair_keeps_content:
  "let before = stream (map turn_of ms); after = stream (map turn_of (repairMessages ms));
       ans = answer (map turn_of ms)
   in filter is_plain after = filter is_plain before \<and>
      filter is_call after = filter (\<lambda>x. is_call x \<and> ans (blk_ID (snd x)) \<noteq> None) before \<and>
      map snd (filter is_result after) = map (\<lambda>x. the (ans (blk_ID (snd x)))) (filter is_call after)"
proof -
  have "stream (repair_turns ts) = stream (concat (map (pair_turn (answer ts)) (merge_turns ts)))" for ts
    by (simp add: repair_turns_def Let_def)
  moreover have "map turn_of (repairMessages ms) = repair_turns (map turn_of ms)"
    by (simp add: repairMessages_def repair_turns_def Let_def merge_refines normalize_refines)
  ultimately show ?thesis
    using pair_turns_stream [of "map turn_of ms" "merge_turns (map turn_of ms)"] by (simp add: Let_def)
qed

lemma repaired_turns:
  assumes "list_all message_ok ms"
  shows "roles_ok (map turn_of (repairMessages ms)) \<and> alternating (map turn_of (repairMessages ms)) \<and>
    tool_paired [] (map turn_of (repairMessages ms))"
proof -
  have t: "map turn_of (repairMessages ms) = repair_turns (map turn_of ms)"
    by (simp add: repairMessages_def repair_turns_def Let_def merge_refines normalize_refines)
  let ?us = "merge_turns (map turn_of ms)"
  have "roles_ok ?us" using turns_roles [OF assms] by (simp add: merge_roles)
  then show ?thesis
    unfolding t repair_turns_def Let_def
    using merge_alternating repaired_paired pair_turn_roles by (simp add: merge_roles)
qed

lemma input_turns:
  assumes "convertResponsesInputToAnthropic raw = Inr (system, ms)"
  shows "roles_ok (map turn_of ms) \<and> alternating (map turn_of ms) \<and> tool_paired [] (map turn_of ms)"
proof (cases "unmarshal_string raw")
  case (Some s)
  with assms have "ms = [\<lparr>am_Role = ''user'', am_Content = json_quote s\<rparr>]"
    by (simp add: convertResponsesInputToAnthropic_def)
  moreover have "blocks_of \<lparr>am_Role = ''user'', am_Content = json_quote s\<rparr> = [text_block s]"
    using unmarshal_string_valid [OF Some]
    by (simp add: blocks_of_def parseContentBlocks_def unmarshal_blocks_def elems_def)
  ultimately show ?thesis
    by (simp add: turn_of_def roles_ok_def alternating_def result_ids_def isToolResult_def text_block_def)
next
  case None
  with assms obtain items ms' where "convertInputItems ([], []) items = Inr (system, ms')" "ms = repairMessages ms'"
    by (auto simp: convertResponsesInputToAnthropic_def split: option.splits sum.splits)
  with convertInputItems_roles [OF this(1)] show ?thesis by (simp add: repaired_turns)
qed

text \<open>
  C37. Every request this converter sends to the Anthropic API keeps to its protocol, whatever items
  the client interleaved: the roles are user and assistant and alternate, the results in a user turn
  are those of the calls of the turn before, in the order of the calls, and every call is answered
  in the turn after it.
\<close>

theorem anthropic_request_protocol:
  assumes "ResponsesToAnthropicRequest req = Inr out"
  shows "roles_ok (map turn_of (aq_Messages out)) \<and> alternating (map turn_of (aq_Messages out)) \<and>
    tool_paired [] (map turn_of (aq_Messages out))"
proof -
  from assms obtain system where "convertResponsesInputToAnthropic (rq_Input req) = Inr (system, aq_Messages out)"
    by (auto simp: ResponsesToAnthropicRequest_def Let_def split: sum.splits)
  then show ?thesis by (rule input_turns)
qed

section \<open>A conversation with an injected message\<close>

text \<open>Two parallel calls, a developer notice in between, and the output of the first call only.\<close>

definition demo_items :: "responses_input_item list" where
  "demo_items =
     [zero_item\<lparr>it_Type := ''function_call'', it_CallID := ''call_1'', it_Name := ''ls''\<rparr>,
      zero_item\<lparr>it_Type := ''function_call'', it_CallID := ''call_2'', it_Name := ''ps''\<rparr>,
      zero_item\<lparr>it_Role := ''developer'', it_Content := json_quote ''note''\<rparr>,
      zero_item\<lparr>it_Type := ''function_call_output'', it_CallID := ''call_1'', it_Output := ''ok''\<rparr>]"

definition demo_request :: responses_request where
  "demo_request = zero_responses_request\<lparr>rq_Input := the (marshal_items (Some demo_items))\<rparr>"

lemma empty_object [simp]: "solid ''{}''" "raw_ok ''{}''" "compact_raw False ''{}'' = ''{}''"
proof -
  show s: "solid ''{}''" using solid_object [of "[]"] by simp
  show "raw_ok ''{}''" using seg_json_valid [OF s] by (simp add: raw_ok_def)
  show "compact_raw False ''{}'' = ''{}''" using seg_compact [OF s] .
qed

lemma compact_quote [simp]: "compact_raw False (json_quote s) = json_quote s"
  by (rule seg_compact) simp

lemma raw_ok_quote [simp]: "raw_ok (json_quote s)"
  using seg_json_valid [OF solid_quote] by (simp add: raw_ok_def)

lemma json_quote_ne [simp]: "json_quote s \<noteq> []"
  by (simp add: json_quote_def)

lemma parse_quote [simp]: "valid_utf8 s \<Longrightarrow> elems (parseContentBlocks (json_quote s)) = [text_block s]"
  by (simp add: parseContentBlocks_def unmarshal_blocks_def elems_def)

lemma demo_input:
  "unmarshal_string (rq_Input demo_request) = None" "unmarshal_items (rq_Input demo_request) = Some (Some demo_items)"
proof -
  have wf: "list_all wf_item demo_items" by (simp add: demo_items_def wf_item_def raw_ok_def [of "[]"] byte_def)
  obtain t where t: "marshal_items (Some demo_items) = Some t" "unmarshal_items t = Some (Some (map compact_item demo_items))"
    "unmarshal_string t = None" using marshal_items_read [OF wf] by blast
  have "map compact_item demo_items = demo_items" by (simp add: demo_items_def compact_item_def)
  with t show "unmarshal_string (rq_Input demo_request) = None" "unmarshal_items (rq_Input demo_request) = Some (Some demo_items)"
    by (simp_all add: demo_request_def)
qed

definition demo_messages :: "anthropic_message list" where
  "demo_messages = [functionCallMessage (demo_items ! 0), functionCallMessage (demo_items ! 1),
     \<lparr>am_Role = ''user'', am_Content = json_quote ''note''\<rparr>, functionOutputMessage (demo_items ! 3)]"

lemma demo_convert: "convertResponsesInputToAnthropic (rq_Input demo_request) = Inr ([], repairMessages demo_messages)"
  unfolding convertResponsesInputToAnthropic_def demo_input
  by (simp add: elems_def demo_items_def demo_messages_def convertInputItem_def addMessage_def)

definition demo_call :: "string \<Rightarrow> string \<Rightarrow> anthropic_content_block" where
  "demo_call i n = zero_block\<lparr>blk_Type := ''tool_use'', blk_ID := i, blk_Name := n, blk_Input := ''{}''\<rparr>"

definition demo_result :: anthropic_content_block where
  "demo_result = zero_block\<lparr>blk_Type := ''tool_result'', blk_ToolUseID := ''call_1'', blk_Content := json_quote ''ok''\<rparr>"

lemma demo_turns: "map turn_of demo_messages =
  [(''assistant'', [demo_call ''call_1'' ''ls'']), (''assistant'', [demo_call ''call_2'' ''ps'']),
   (''user'', [text_block ''note'']), (''user'', [demo_result])]"
proof -
  have wf: "list_all wf_block [demo_call ''call_1'' ''ls'']" "list_all wf_block [demo_call ''call_2'' ''ps'']" "list_all wf_block [demo_result]"
    by (simp_all add: wf_block_def demo_call_def demo_result_def raw_ok_def [of "[]"] byte_def)
  have "turn_of \<lparr>am_Role = ''user'', am_Content = json_quote ''note''\<rparr> = (''user'', [text_block ''note''])"
    by (simp add: turn_of_def blocks_of_def byte_def)
  moreover have "functionCallMessage (demo_items ! 0) = anthropicMessageFromBlocks ''assistant'' [demo_call ''call_1'' ''ls'']"
    "functionCallMessage (demo_items ! 1) = anthropicMessageFromBlocks ''assistant'' [demo_call ''call_2'' ''ps'']"
    "functionOutputMessage (demo_items ! 3) = anthropicMessageFromBlocks ''user'' [demo_result]"
    by (simp_all add: functionCallMessage_def functionOutputMessage_def demo_items_def demo_call_def demo_result_def
        fromResponsesCallIDToAnthropic_def)
  ultimately show ?thesis
    using turn_of_from [OF wf(1), of "''assistant''"] turn_of_from [OF wf(2), of "''assistant''"] turn_of_from [OF wf(3), of "''user''"]
    by (simp add: demo_messages_def) (simp add: compact_block_def demo_call_def demo_result_def)
qed

lemma demo_repaired: "map turn_of (repairMessages demo_messages) =
  [(''assistant'', [demo_call ''call_1'' ''ls'']), (''user'', [demo_result, text_block ''note''])]"
proof -
  have "map turn_of (repairMessages demo_messages) = repair_turns (map turn_of demo_messages)"
    by (simp add: repairMessages_def repair_turns_def Let_def merge_refines normalize_refines)
  also have "\<dots> = [(''assistant'', [demo_call ''call_1'' ''ls'']), (''user'', [demo_result, text_block ''note''])]"
    unfolding demo_turns
    by (simp add: repair_turns_def merge_turns_def Let_def pair_turn_def answer_def role_blocks_def
        demo_call_def demo_result_def text_block_def isToolUse_def isToolResult_def)
  finally show ?thesis .
qed

theorem anthropic_request_protocol_witness:
  "\<exists>out. ResponsesToAnthropicRequest demo_request = Inr out \<and>
     map turn_of (aq_Messages out) = [(''assistant'', [demo_call ''call_1'' ''ls'']), (''user'', [demo_result, text_block ''note''])] \<and>
     tool_paired [] (map turn_of (aq_Messages out))"
proof -
  obtain out where out: "ResponsesToAnthropicRequest demo_request = Inr out" "aq_Messages out = repairMessages demo_messages"
    using demo_convert by (simp add: ResponsesToAnthropicRequest_def Let_def)
  with anthropic_request_protocol [OF out(1)] demo_repaired show ?thesis by auto
qed

section \<open>Well-formed requests and errors\<close>

definition content_ok :: "anthropic_message \<Rightarrow> bool" where
  "content_ok m \<longleftrightarrow> raw_ok (am_Content m)"

lemma marshal_raw_ok: "marshal_blocks x = Some t \<Longrightarrow> raw_ok t"
  unfolding marshal_blocks_def raw_ok_def
  using marshal_slice_solid [of MarshalJSON x t] MarshalJSON_solid seg_json_valid by blast

lemma or_nil_raw_ok [simp]: "raw_ok (or_nil (marshal_blocks x))"
  by (cases "marshal_blocks x") (auto simp: or_nil_def raw_ok_def dest: marshal_raw_ok [unfolded raw_ok_def])

lemma from_blocks_ok [simp]: "content_ok (anthropicMessageFromBlocks role bs)"
  by (simp add: content_ok_def anthropicMessageFromBlocks_def)

lemma merge_content_ok: "list_all content_ok ms \<Longrightarrow> list_all content_ok (mergeConsecutiveMessages ms)"
proof -
  have "list_all content_ok ns \<Longrightarrow> list_all content_ok ms \<Longrightarrow> list_all content_ok (foldl mergeMessage ns ms)" for ns
  proof (induction ms arbitrary: ns)
    case (Cons m ms)
    have "list_all content_ok (mergeMessage ns m)"
      using Cons.prems by (auto simp: mergeMessage_def content_ok_def list_all_iff dest: in_set_butlastD)
    with Cons show ?case by simp
  qed simp
  then show "list_all content_ok ms \<Longrightarrow> ?thesis" by (simp add: mergeConsecutiveMessages_def)
qed

lemma repair_content_ok: "list_all content_ok ms \<Longrightarrow> list_all content_ok (repairMessages ms)"
proof -
  assume ms: "list_all content_ok ms"
  have "list_all content_ok (concat (map (pairMessage a) ns))" if "list_all content_ok ns" for a ns
    using that by (induction ns) (auto simp: pairMessage_def pairAssistantMessage_def pairUserMessage_def Let_def)
  with ms show ?thesis by (simp add: repairMessages_def merge_content_ok normalizeAnthropicToolPairing_def)
qed

lemma text_blocks_marshal:
  assumes "list_all (\<lambda>b. blk_Input b = [] \<and> blk_Content b = []) bs"
  shows "\<exists>t. marshal_blocks (Some bs) = Some t \<and> raw_ok t"
proof -
  have "list_all (\<lambda>b. MarshalJSON b \<noteq> None) bs"
    using assms by (auto simp: list_all_iff MarshalJSON_def raw_ok_def)
  then obtain t where "marshal_blocks (Some bs) = Some t" by (simp add: marshal_blocks_def marshal_slice_def)
  with marshal_raw_ok [OF this] show ?thesis by blast
qed

lemma part_blocks_plain:
  "list_all (\<lambda>b. blk_Input b = [] \<and> blk_Content b = []) (concat (map userPartBlocks ps))"
  "list_all (\<lambda>b. blk_Input b = [] \<and> blk_Content b = []) (concat (map assistantPartBlocks ps))"
  by (induction ps) (auto simp: userPartBlocks_def assistantPartBlocks_def text_block_def split: option.split)

lemma user_content: "\<exists>t. convertResponsesUserToAnthropicContent raw = Some t \<and> (raw_ok raw \<longrightarrow> raw_ok t)"
proof -
  obtain f where "marshal_blocks (Some (concat (map userPartBlocks ps))) = Some (f ps) \<and> raw_ok (f ps)" for ps
    using text_blocks_marshal [OF part_blocks_plain(1)] by metis
  then show ?thesis
    by (cases "unmarshal_response_parts raw")
      (simp_all add: convertResponsesUserToAnthropicContent_def Let_def split: option.split)
qed

lemma assistant_content: "\<exists>t. convertResponsesAssistantToAnthropicContent raw = Some t \<and> (raw_ok raw \<longrightarrow> raw_ok t)"
proof -
  have "\<exists>t. marshal_blocks (Some [text_block s]) = Some t \<and> raw_ok t" for s
    by (rule text_blocks_marshal) (simp add: text_block_def)
  then obtain g where "marshal_blocks (Some [text_block s]) = Some (g s) \<and> raw_ok (g s)" for s by metis
  moreover obtain f where "marshal_blocks (Some (concat (map assistantPartBlocks ps))) = Some (f ps) \<and> raw_ok (f ps)" for ps
    using text_blocks_marshal [OF part_blocks_plain(2)] by metis
  ultimately show ?thesis
    by (cases "unmarshal_response_parts raw")
      (simp_all add: convertResponsesAssistantToAnthropicContent_def Let_def split: option.split)
qed

lemma convertInputItem_ok:
  "\<exists>acc'. convertInputItem acc it = Inr acc' \<and>
     (wf_item it \<longrightarrow> raw_ok (fst acc) \<longrightarrow> list_all content_ok (snd acc) \<longrightarrow>
      raw_ok (fst acc') \<and> list_all content_ok (snd acc'))"
proof (cases acc)
  case (Pair sys ms)
  obtain t t' where "convertResponsesUserToAnthropicContent (it_Content it) = Some t" "raw_ok (it_Content it) \<longrightarrow> raw_ok t"
    "convertResponsesAssistantToAnthropicContent (it_Content it) = Some t'" "raw_ok (it_Content it) \<longrightarrow> raw_ok t'"
    using user_content [of "it_Content it"] assistant_content [of "it_Content it"] by blast
  then show ?thesis
    by (simp add: Pair convertInputItem_def addMessage_def Let_def wf_item_def functionCallMessage_def functionOutputMessage_def)
      (simp add: content_ok_def)
qed

lemma convertInputItems_ok:
  "\<exists>acc'. convertInputItems acc its = Inr acc' \<and>
     (list_all wf_item its \<longrightarrow> raw_ok (fst acc) \<longrightarrow> list_all content_ok (snd acc) \<longrightarrow>
      raw_ok (fst acc') \<and> list_all content_ok (snd acc'))"
proof (induction its arbitrary: acc)
  case (Cons it its)
  obtain acc1 where 1: "convertInputItem acc it = Inr acc1"
    "wf_item it \<longrightarrow> raw_ok (fst acc) \<longrightarrow> list_all content_ok (snd acc) \<longrightarrow> raw_ok (fst acc1) \<and> list_all content_ok (snd acc1)"
    using convertInputItem_ok by blast
  with Cons.IH [of acc1] show ?case by auto
qed simp



text \<open>
  The only error is an input that is neither a string nor an array of items: once the input can
  be read, the conversion succeeds.
\<close>

theorem anthropic_request_errors:
  "ResponsesToAnthropicRequest req = Inl e \<longleftrightarrow>
     e = ParseInput \<and> unmarshal_string (rq_Input req) = None \<and> unmarshal_items (rq_Input req) = None"
proof -
  have "\<exists>acc. convertInputItems ([], []) its = Inr acc" for its using convertInputItems_ok by blast
  then have "\<exists>acc. convertInputItems ([], []) (elems its) = Inr acc" for its by blast
  then show ?thesis
    by (auto simp: ResponsesToAnthropicRequest_def convertResponsesInputToAnthropic_def Let_def split: sum.splits option.splits)
      (metis Inl_Inr_False)+
qed

lemma blocks_of_nil [simp]: "blocks_of \<lparr>am_Role = r, am_Content = []\<rparr> = []"
  by (simp add: blocks_of_def parseContentBlocks_def unmarshal_blocks_def unmarshal_slice_def unmarshal_array_def
      unmarshal_string_def elems_def json_valid_nil)

lemma valid_call_id: "valid_utf8 i \<Longrightarrow> valid_utf8 (fromResponsesCallIDToAnthropic i)"
  by (auto simp: fromResponsesCallIDToAnthropic_def Let_def prefix_def byte_def)

text \<open>
  A call whose arguments are not valid JSON is lost, and its output with it: the marshalling
  error is ignored, the message of the call gets no content, and the repair drops the output because
  nothing announces it any more. The call and its output together become one assistant message
  without content.
\<close>

theorem invalid_arguments_lose_call:
  assumes "it_Arguments it \<noteq> []" and "\<not> json_valid (it_Arguments it)" and "valid_utf8 (it_CallID it)"
    and "it_CallID it' = it_CallID it"
  shows "repairMessages [functionCallMessage it, functionOutputMessage it'] = [\<lparr>am_Role = ''assistant'', am_Content = []\<rparr>]"
proof -
  have "MarshalJSON (zero_block\<lparr>blk_Type := ''tool_use'', blk_ID := fromResponsesCallIDToAnthropic (it_CallID it),
      blk_Name := it_Name it, blk_Input := it_Arguments it\<rparr>) = None"
    using assms(1,2) by (simp add: MarshalJSON_def raw_ok_def)
  then have c: "functionCallMessage it = \<lparr>am_Role = ''assistant'', am_Content = []\<rparr>"
    using assms(1) by (simp add: functionCallMessage_def anthropicMessageFromBlocks_def marshal_blocks_def marshal_slice_def or_nil_def)
  let ?o = "functionOutputMessage it'"
  let ?res = "zero_block\<lparr>blk_Type := ''tool_result'', blk_ToolUseID := fromResponsesCallIDToAnthropic (it_CallID it'),
      blk_Content := json_quote (if it_Output it' = [] then ''(empty)'' else it_Output it')\<rparr>"
  have "wf_block ?res" using assms(3,4) valid_call_id by (simp add: wf_block_def raw_ok_def [of "[]"] byte_def)
  then have o: "blocks_of ?o = [compact_block ?res]" "am_Role ?o = ''user''"
    by (simp_all add: functionOutputMessage_def) (simp add: anthropicMessageFromBlocks_def)
  have "isToolResult ?res" by (simp add: isToolResult_def)
  then show ?thesis
    unfolding c by (simp add: repairMessages_def mergeConsecutiveMessages_def mergeMessage_def o
        normalizeAnthropicToolPairing_def pairMessage_def pairAssistantMessage_def pairUserMessage_def Let_def)
qed

text \<open>The arguments here are an object that is cut off.\<close>

theorem invalid_arguments_lose_call_witness:
  "repairMessages [functionCallMessage (zero_item\<lparr>it_CallID := ''call_1'', it_Arguments := ''{''\<rparr>),
     functionOutputMessage (zero_item\<lparr>it_CallID := ''call_1'', it_Output := ''ok''\<rparr>)] =
   [\<lparr>am_Role = ''assistant'', am_Content = []\<rparr>]"
proof -
  have "skip_val n ''{'' = None" for n by (cases n) (simp_all add: skip_val.simps byte_def skip_ws_def is_ws_def)
  then have "\<not> json_valid ''{''" by (simp add: json_valid_iff scans_def)
  then show ?thesis by (intro invalid_arguments_lose_call) (simp_all add: byte_def)
qed

end
