(* ===== verification/ToResponsesRequest.thy ===== *)
theory ToResponsesRequest
  imports ToAnthropicRequest
begin

text \<open>
  The two converters into Responses API requests: \<open>anthropic_to_responses.go\<close>
  (\<open>AnthropicToResponses\<close>) and \<open>chatcompletions_to_responses.go\<close> (\<open>ChatCompletionsToResponses\<close>).
  Both build a list of input items and print it into the raw \<open>input\<close> field. Go's
  \<open>[]map[string]any\<close>, into which structured assistant content is decoded, needs the numbers in it
  to fit a \<open>float64\<close>; \<open>float64_fits\<close> is that check of \<open>strconv.ParseFloat\<close>.
\<close>

declare skip_val.simps [simp del] skip_elems.simps [simp del] skip_mems.simps [simp del]
declare compact_raw.simps(2) [simp del]

definition minMaxOutputTokens :: int where
  "minMaxOutputTokens = 128"

definition isReasoningModel :: "string \<Rightarrow> bool" where
  "isReasoningModel model = prefix ''gpt-5'' model"

definition clampedOutputTokens :: "int \<Rightarrow> int option" where
  "clampedOutputTokens n = (if 0 < n then Some (if n < minMaxOutputTokens then minMaxOutputTokens else n) else None)"

definition encrypted_reasoning :: "string list" where
  "encrypted_reasoning = [''reasoning.encrypted_content'']"

section \<open>Anthropic content\<close>

definition isAnthropicBillingHeaderText :: "string \<Rightarrow> bool" where
  "isAnthropicBillingHeaderText t = prefix ''x-anthropic-billing-header: '' t"

definition input_text_part :: "string \<Rightarrow> responses_content_part" where
  "input_text_part t = zero_content_part\<lparr>rcp_Type := ''input_text'', rcp_Text := t\<rparr>"

definition output_text_part :: "string \<Rightarrow> responses_content_part" where
  "output_text_part t = zero_content_part\<lparr>rcp_Type := ''output_text'', rcp_Text := t\<rparr>"

definition input_image_part :: "string \<Rightarrow> responses_content_part" where
  "input_image_part u = zero_content_part\<lparr>rcp_Type := ''input_image'', rcp_ImageURL := u\<rparr>"

definition parseAnthropicSystemContentParts :: "raw_message \<Rightarrow> responses_content_part list option" where
  "parseAnthropicSystemContentParts raw =
     (case unmarshal_string raw of
        Some s \<Rightarrow> Some (if isAnthropicBillingHeaderText s \<or> s = [] then [] else [input_text_part s])
      | None \<Rightarrow>
          map_option (\<lambda>bs. map (\<lambda>b. input_text_part (blk_Text b))
            (filter (\<lambda>b. blk_Type b = ''text'' \<and> blk_Text b \<noteq> [] \<and> \<not> isAnthropicBillingHeaderText (blk_Text b))
              (elems bs))) (unmarshal_blocks raw))"

definition anthropicImageToDataURI :: "anthropic_image_source option \<Rightarrow> string" where
  "anthropicImageToDataURI src =
     (case src of
        None \<Rightarrow> []
      | Some s \<Rightarrow>
          if src_Data s = [] then []
          else ''data:'' @ (if src_MediaType s = [] then ''image/png'' else src_MediaType s) @ '';base64,'' @ src_Data s)"

definition imageParts :: "anthropic_content_block \<Rightarrow> responses_content_part list" where
  "imageParts b =
     (let uri = anthropicImageToDataURI (blk_Source b) in if uri \<noteq> [] then [input_image_part uri] else [])"

definition nonempty_texts :: "anthropic_content_block list \<Rightarrow> string list" where
  "nonempty_texts bs = map blk_Text (filter (\<lambda>b. blk_Type b = ''text'' \<and> blk_Text b \<noteq> []) bs)"

definition or_empty_note :: "string \<Rightarrow> string" where
  "or_empty_note t = (if t = [] then ''(empty)'' else t)"

definition convertToolResultOutput :: "anthropic_content_block \<Rightarrow> string \<times> responses_content_part list" where
  "convertToolResultOutput b =
     (if blk_Content b = [] then (''(empty)'', [])
      else (case unmarshal_string (blk_Content b) of
              Some s \<Rightarrow> (or_empty_note s, [])
            | None \<Rightarrow>
                (case unmarshal_blocks (blk_Content b) of
                   None \<Rightarrow> (''(empty)'', [])
                 | Some inner \<Rightarrow>
                     (or_empty_note (join paragraph_break (nonempty_texts (elems inner))),
                      concat (map imageParts (filter (\<lambda>ib. blk_Type ib = ''image'') (elems inner)))))))"

definition extractAnthropicTextFromBlocks :: "anthropic_content_block list \<Rightarrow> string" where
  "extractAnthropicTextFromBlocks blocks = join paragraph_break (nonempty_texts blocks)"

definition message_item :: "string \<Rightarrow> responses_content_part list \<Rightarrow> responses_input_item" where
  "message_item role parts =
     zero_item\<lparr>it_Type := ''message'', it_Role := role, it_Content := marshal_response_parts (Some parts)\<rparr>"

definition toolOutputItem :: "anthropic_content_block \<Rightarrow> responses_input_item" where
  "toolOutputItem b =
     zero_item\<lparr>it_Type := ''function_call_output'', it_CallID := toResponsesCallID (blk_ToolUseID b),
       it_Output := fst (convertToolResultOutput b)\<rparr>"

definition userBlockParts :: "anthropic_content_block \<Rightarrow> responses_content_part list" where
  "userBlockParts b =
     (if blk_Type b = ''text'' then (if blk_Text b \<noteq> [] then [input_text_part (blk_Text b)] else [])
      else if blk_Type b = ''image'' then imageParts b
      else [])"

definition anthropicUserToResponses :: "raw_message \<Rightarrow> convert_error + responses_input_item list" where
  "anthropicUserToResponses raw =
     (case unmarshal_string raw of
        Some s \<Rightarrow> Inr [message_item ''user'' [input_text_part s]]
      | None \<Rightarrow>
          (case unmarshal_blocks raw of
             None \<Rightarrow> Inl ParseContent
           | Some bs \<Rightarrow>
               (let blocks = elems bs;
                    results = filter isToolResult blocks;
                    parts = concat (map userBlockParts blocks) @
                      concat (map (\<lambda>b. snd (convertToolResultOutput b)) results)
                in Inr (map toolOutputItem results @ (if parts \<noteq> [] then [message_item ''user'' parts] else [])))))"

definition functionCallItem :: "anthropic_content_block \<Rightarrow> responses_input_item" where
  "functionCallItem b =
     zero_item\<lparr>it_Type := ''function_call'', it_CallID := toResponsesCallID (blk_ID b), it_Name := blk_Name b,
       it_Arguments := (if blk_Input b \<noteq> [] then blk_Input b else ''{}'')\<rparr>"

definition anthropicAssistantToResponses :: "raw_message \<Rightarrow> convert_error + responses_input_item list" where
  "anthropicAssistantToResponses raw =
     (case unmarshal_string raw of
        Some s \<Rightarrow> Inr [message_item ''assistant'' [output_text_part s]]
      | None \<Rightarrow>
          (case unmarshal_blocks raw of
             None \<Rightarrow> Inl ParseContent
           | Some bs \<Rightarrow>
               (let blocks = elems bs; t = extractAnthropicTextFromBlocks blocks
                in Inr ((if t \<noteq> [] then [message_item ''assistant'' [output_text_part t]] else []) @
                     map functionCallItem (filter isToolUse blocks)))))"

definition anthropicMsgToResponsesItems :: "anthropic_message \<Rightarrow> convert_error + responses_input_item list" where
  "anthropicMsgToResponsesItems m =
     (if am_Role m = ''user'' then anthropicUserToResponses (am_Content m)
      else if am_Role m = ''assistant'' then anthropicAssistantToResponses (am_Content m)
      else anthropicUserToResponses (am_Content m))"

text \<open>A loop that appends the items of each message and stops at the first error.\<close>

fun collect_items :: "('m \<Rightarrow> convert_error + 'i list) \<Rightarrow> 'm list \<Rightarrow> convert_error + 'i list" where
  "collect_items f [] = Inr []"
| "collect_items f (m # ms) =
     (case f m of Inl e \<Rightarrow> Inl e
      | Inr its \<Rightarrow> (case collect_items f ms of Inl e \<Rightarrow> Inl e | Inr rest \<Rightarrow> Inr (its @ rest)))"

definition systemItems :: "raw_message \<Rightarrow> convert_error + responses_input_item list" where
  "systemItems system =
     (if system = [] then Inr []
      else (case parseAnthropicSystemContentParts system of
              None \<Rightarrow> Inl ParseContent
            | Some ps \<Rightarrow> Inr (if ps \<noteq> [] then [message_item ''developer'' ps] else [])))"

definition convertAnthropicToResponsesInput :: "raw_message \<Rightarrow> anthropic_message list \<Rightarrow> convert_error + responses_input_item list" where
  "convertAnthropicToResponsesInput system msgs =
     (case systemItems system of
        Inl e \<Rightarrow> Inl e
      | Inr its \<Rightarrow>
          (case collect_items anthropicMsgToResponsesItems msgs of
             Inl e \<Rightarrow> Inl e | Inr rest \<Rightarrow> Inr (its @ rest)))"

section \<open>Anthropic tools and settings\<close>

definition mapAnthropicEffortToResponses :: "string \<Rightarrow> string" where
  "mapAnthropicEffortToResponses effort = (if effort = ''max'' then ''xhigh'' else effort)"

definition normalizeToolParameters :: "raw_message \<Rightarrow> raw_message" where
  "normalizeToolParameters schema =
     (if schema = [] \<or> schema = ''null'' then empty_schema
      else (case unmarshal_object schema of
              None \<Rightarrow> schema
            | Some m \<Rightarrow>
                if raw_field m ''type'' \<noteq> json_quote ''object'' then schema
                else if raw_get m ''properties'' \<noteq> None then schema
                else marshal_object (m @ [(''properties'', ''{}'')])))"

definition convertAnthropicToolToResponses :: "anthropic_tool \<Rightarrow> responses_tool" where
  "convertAnthropicToolToResponses t =
     (if prefix ''web_search'' (at_Type t) then
        \<lparr>rt_Type = ''web_search'', rt_Name = [], rt_Description = [], rt_Parameters = [], rt_Strict = None\<rparr>
      else
        \<lparr>rt_Type = ''function'', rt_Name = at_Name t, rt_Description = at_Description t,
         rt_Parameters = normalizeToolParameters (at_InputSchema t), rt_Strict = Some False\<rparr>)"

definition convertAnthropicToolsToResponses :: "anthropic_tool list \<Rightarrow> responses_tool list" where
  "convertAnthropicToolsToResponses tools = map convertAnthropicToolToResponses tools"

definition convertAnthropicToolChoiceToResponses :: "raw_message \<Rightarrow> convert_error + raw_message" where
  "convertAnthropicToolChoiceToResponses raw =
     (case (if json_valid raw then decode_object (\<lambda>tc m.
              if equal_fold (fst m) ''type'' then
                map_option (\<lambda>s. tc\<lparr>tch_Type := s\<rparr>) (decode_string_field (snd m) (tch_Type tc))
              else if equal_fold (fst m) ''name'' then
                map_option (\<lambda>s. tc\<lparr>tch_Name := s\<rparr>) (decode_string_field (snd m) (tch_Name tc))
              else Some tc) \<lparr>tch_Type = [], tch_Name = [], tch_FunctionName = []\<rparr> raw else None) of
        None \<Rightarrow> Inl ParseToolChoice
      | Some tc \<Rightarrow>
          Inr (if tch_Type tc = ''auto'' then json_quote ''auto''
               else if tch_Type tc = ''any'' then json_quote ''required''
               else if tch_Type tc = ''none'' then json_quote ''none''
               else if tch_Type tc = ''tool'' then
                 marshal_object [(''type'', json_quote ''function''), (''name'', json_quote (tch_Name tc))]
               else raw))"

definition toolChoiceOrEmpty :: "raw_message \<Rightarrow> (raw_message \<Rightarrow> convert_error + raw_message) \<Rightarrow> convert_error + raw_message" where
  "toolChoiceOrEmpty raw f = (if raw \<noteq> [] then f raw else Inr [])"

definition AnthropicToResponses :: "anthropic_request \<Rightarrow> convert_error + responses_request" where
  "AnthropicToResponses req =
     (case convertAnthropicToResponsesInput (aq_System req) (aq_Messages req) of
        Inl e \<Rightarrow> Inl e
      | Inr input \<Rightarrow>
          (case marshal_items (slice input) of
             None \<Rightarrow> Inl MarshalFailed
           | Some inputJSON \<Rightarrow>
               (case toolChoiceOrEmpty (aq_ToolChoice req) convertAnthropicToolChoiceToResponses of
                  Inl e \<Rightarrow> Inl e
                | Inr tc \<Rightarrow>
                    (let effort = (case aq_OutputConfig req of
                           Some oc \<Rightarrow> if aoc_Effort oc \<noteq> [] then aoc_Effort oc else ''medium'' | None \<Rightarrow> ''medium'')
                     in Inr (zero_responses_request\<lparr>
                          rq_Model := aq_Model req, rq_Input := inputJSON, rq_Stream := aq_Stream req,
                          rq_Include := encrypted_reasoning,
                          rq_Temperature := (if isReasoningModel (aq_Model req) then None else aq_Temperature req),
                          rq_TopP := (if isReasoningModel (aq_Model req) then None else aq_TopP req),
                          rq_Store := Some False, rq_ParallelToolCalls := Some True,
                          rq_TextVerbosity := Some ''medium'',
                          rq_MaxOutputTokens := clampedOutputTokens (aq_MaxTokens req),
                          rq_Tools := convertAnthropicToolsToResponses (aq_Tools req),
                          rq_Reasoning := Some \<lparr>rre_Effort = mapAnthropicEffortToResponses effort, rre_Summary = ''auto''\<rparr>,
                          rq_ToolChoice := tc\<rparr>)))))"

section \<open>Numbers in free-form JSON\<close>

lemma skip_str_shorter: "skip_str s = Some r \<Longrightarrow> length r < length s"
  using ended_length [OF skip_str_ended] .

lemma skip_number_shorter: "skip_number s = Some r \<Longrightarrow> length r < length s"
  using ended_length [OF skip_number_ended] .

text \<open>The number literals of a valid JSON text.\<close>

function number_tokens :: "string \<Rightarrow> string list" where
  "number_tokens s =
     (case s of
        [] \<Rightarrow> []
      | c # t \<Rightarrow>
          if byte c = 0x22 then (case skip_str t of None \<Rightarrow> [] | Some r \<Rightarrow> number_tokens r)
          else if is_digit c \<or> c = CHR ''-'' then
            (case skip_number s of None \<Rightarrow> [] | Some r \<Rightarrow> before s r # number_tokens r)
          else number_tokens t)"
  by pat_completeness auto
termination
proof (relation "measure length", goal_cases)
  case (2 s c t r)
  then show ?case using skip_str_shorter [of t r] by simp
next
  case (3 s c t r)
  then show ?case using skip_number_shorter [of s r] by simp
qed auto

declare number_tokens.simps [simp del]

definition digits_value :: "string \<Rightarrow> nat" where
  "digits_value ds = foldl (\<lambda>n c. n * 10 + (byte c - 48)) 0 ds"

text \<open>
  Whether the number, rounded to the nearest \<open>float64\<close>, is finite: the smallest magnitude that is
  rounded up to infinity is \<open>2 ^ 1024 - 2 ^ 970\<close>.
\<close>

definition float64_fits :: "string \<Rightarrow> bool" where
  "float64_fits n =
     (let s1 = sign_part n;
          ip = takeWhile is_digit s1; s2 = drop (length ip) s1;
          fp = (case s2 of c # t \<Rightarrow> if c = CHR ''.'' then takeWhile is_digit t else [] | [] \<Rightarrow> []);
          s3 = (if fp = [] then s2 else drop (Suc (length fp)) s2);
          ep = (case s3 of [] \<Rightarrow> [] | _ # t \<Rightarrow> t);
          e0 = int (digits_value (exp_sign ep));
          e = (if prefix ''-'' ep then - e0 else e0) - int (length fp);
          m = digits_value (ip @ fp);
          bound = 2 ^ 1024 - (2 ^ 970 :: nat)
      in if 0 \<le> e then m * 10 ^ nat e < bound else m < bound * 10 ^ nat (- e))"

text \<open>Decoding into \<open>[]map[string]any\<close>: every element an object or null, every number a \<open>float64\<close>.\<close>

definition unmarshal_any_maps :: "raw_message \<Rightarrow> (string \<times> raw_message) list list option" where
  "unmarshal_any_maps raw =
     (case unmarshal_array raw of
        None \<Rightarrow> None
      | Some vs \<Rightarrow>
          if list_all float64_fits (number_tokens raw)
          then decode_list (\<lambda>v. if is_null v then Some [] else if is_object v then unmarshal_object v else None) vs
          else None)"

text \<open>\<open>p[key].(string)\<close>, with the empty string when the value is missing or no string.\<close>

definition any_string :: "(string \<times> raw_message) list \<Rightarrow> string \<Rightarrow> string" where
  "any_string p key =
     (case raw_get p key of
        None \<Rightarrow> []
      | Some v \<Rightarrow> if is_null v then [] else (case unmarshal_string v of Some s \<Rightarrow> s | None \<Rightarrow> []))"

section \<open>Chat Completions content\<close>

record chat_message_content =
  cmc_Text :: "string option"
  cmc_Parts :: "chat_content_part list"

definition parseChatMessageContent :: "raw_message \<Rightarrow> chat_message_content option" where
  "parseChatMessageContent raw =
     (if raw = [] then Some \<lparr>cmc_Text = Some [], cmc_Parts = []\<rparr>
      else (case unmarshal_string raw of
              Some s \<Rightarrow> Some \<lparr>cmc_Text = Some s, cmc_Parts = []\<rparr>
            | None \<Rightarrow>
                map_option (\<lambda>ps. \<lparr>cmc_Text = None, cmc_Parts = ps\<rparr>) (unmarshal_chat_parts raw)))"

definition isEmptyBase64DataURI :: "string \<Rightarrow> bool" where
  "isEmptyBase64DataURI raw =
     (if \<not> prefix ''data:'' raw then False
      else (case cut_at (CHR '';'') (drop 5 raw) of
              None \<Rightarrow> False
            | Some (_, rest) \<Rightarrow> prefix ''base64,'' rest \<and> trim_space (drop 7 rest) = []))"

definition chatPartToResponses :: "chat_content_part \<Rightarrow> responses_content_part list" where
  "chatPartToResponses p =
     (if ccp_Type p = ''text'' then (if ccp_Text p \<noteq> [] then [input_text_part (ccp_Text p)] else [])
      else if ccp_Type p = ''image_url'' then
        (case ccp_ImageURL p of
           None \<Rightarrow> []
         | Some u \<Rightarrow> if iu_URL u \<noteq> [] \<and> \<not> isEmptyBase64DataURI (iu_URL u) then [input_image_part (iu_URL u)] else [])
      else [])"

definition convertChatContentPartsToResponses :: "chat_content_part list \<Rightarrow> responses_content_part list" where
  "convertChatContentPartsToResponses parts = concat (map chatPartToResponses parts)"

definition marshalChatInputContent :: "chat_message_content \<Rightarrow> raw_message" where
  "marshalChatInputContent content =
     (case cmc_Text content of
        Some t \<Rightarrow> json_quote t
      | None \<Rightarrow>
          (let parts = convertChatContentPartsToResponses (cmc_Parts content) in
           if length parts = 0 then json_quote [] else marshal_response_parts (Some parts)))"

definition flattenChatContentParts :: "chat_content_part list \<Rightarrow> string" where
  "flattenChatContentParts parts =
     concat (map ccp_Text (filter (\<lambda>p. ccp_Type p = ''text'' \<and> ccp_Text p \<noteq> []) parts))"

definition parseChatContent :: "raw_message \<Rightarrow> string option" where
  "parseChatContent raw =
     map_option (\<lambda>c. case cmc_Text c of Some t \<Rightarrow> t | None \<Rightarrow> flattenChatContentParts (cmc_Parts c))
       (parseChatMessageContent raw)"

definition in_thinking_tags :: "string \<Rightarrow> string" where
  "in_thinking_tags t = ''<thinking>'' @ t @ ''</thinking>''"

definition assistantPartText :: "(string \<times> raw_message) list \<Rightarrow> string" where
  "assistantPartText p =
     (let typ = any_string p ''type''; t = any_string p ''text''; thinking = any_string p ''thinking'' in
      if typ = ''thinking'' \<or> typ = ''reasoning'' then
        (if thinking \<noteq> [] then in_thinking_tags thinking else if t \<noteq> [] then in_thinking_tags t else [])
      else t)"

definition parseAssistantContent :: "raw_message \<Rightarrow> string" where
  "parseAssistantContent raw =
     (if raw = [] then []
      else (case unmarshal_string raw of
              Some s \<Rightarrow> s
            | None \<Rightarrow> (case unmarshal_any_maps raw of None \<Rightarrow> [] | Some ps \<Rightarrow> concat (map assistantPartText ps))))"

section \<open>Chat Completions messages\<close>

definition role_item :: "string \<Rightarrow> raw_message \<Rightarrow> responses_input_item" where
  "role_item role content = zero_item\<lparr>it_Role := role, it_Content := content\<rparr>"

definition or_parse_error :: "'a option \<Rightarrow> convert_error + 'a" where
  "or_parse_error r = (case r of None \<Rightarrow> Inl ParseContent | Some x \<Rightarrow> Inr x)"

definition chatSystemToResponses :: "chat_message \<Rightarrow> convert_error + responses_input_item list" where
  "chatSystemToResponses m =
     or_parse_error (map_option (\<lambda>c. [role_item ''system'' (marshalChatInputContent c)]) (parseChatMessageContent (cm_Content m)))"

definition chatUserToResponses :: "chat_message \<Rightarrow> convert_error + responses_input_item list" where
  "chatUserToResponses m =
     or_parse_error (map_option (\<lambda>c. [role_item ''user'' (marshalChatInputContent c)]) (parseChatMessageContent (cm_Content m)))"

definition chatAssistantText :: "chat_message \<Rightarrow> string" where
  "chatAssistantText m =
     (let content = (if cm_ReasoningContent m \<noteq> [] then in_thinking_tags (cm_ReasoningContent m) else []);
          s = parseAssistantContent (cm_Content m)
      in if s \<noteq> [] then content @ (if content \<noteq> [] then [CHR 0x0A] else []) @ s else content)"

definition chatToolCallItem :: "chat_tool_call \<Rightarrow> responses_input_item" where
  "chatToolCallItem tc =
     zero_item\<lparr>it_Type := ''function_call'', it_CallID := tc_ID tc, it_Name := cf_Name (tc_Function tc),
       it_Arguments := (if cf_Arguments (tc_Function tc) = [] then ''{}'' else cf_Arguments (tc_Function tc))\<rparr>"

definition chatAssistantToResponses :: "chat_message \<Rightarrow> convert_error + responses_input_item list" where
  "chatAssistantToResponses m =
     (let content = chatAssistantText m in
      Inr ((if content \<noteq> [] then [role_item ''assistant'' (marshal_response_parts (Some [output_text_part content]))] else []) @
        map chatToolCallItem (cm_ToolCalls m)))"

definition toolOutput :: "string \<Rightarrow> raw_message \<Rightarrow> convert_error + responses_input_item list" where
  "toolOutput callid raw =
     or_parse_error (map_option (\<lambda>t. [zero_item\<lparr>it_Type := ''function_call_output'', it_CallID := callid,
       it_Output := or_empty_note t\<rparr>]) (parseChatContent raw))"

definition chatToolToResponses :: "chat_message \<Rightarrow> convert_error + responses_input_item list" where
  "chatToolToResponses m = toolOutput (cm_ToolCallID m) (cm_Content m)"

definition chatFunctionToResponses :: "chat_message \<Rightarrow> convert_error + responses_input_item list" where
  "chatFunctionToResponses m = toolOutput (cm_Name m) (cm_Content m)"

definition chatMessageToResponsesItems :: "chat_message \<Rightarrow> convert_error + responses_input_item list" where
  "chatMessageToResponsesItems m =
     (if cm_Role m = ''system'' then chatSystemToResponses m
      else if cm_Role m = ''user'' then chatUserToResponses m
      else if cm_Role m = ''assistant'' then chatAssistantToResponses m
      else if cm_Role m = ''tool'' then chatToolToResponses m
      else if cm_Role m = ''function'' then chatFunctionToResponses m
      else chatUserToResponses m)"

definition convertChatMessagesToResponsesInput :: "chat_message list \<Rightarrow> convert_error + responses_input_item list" where
  "convertChatMessagesToResponsesInput msgs = collect_items chatMessageToResponsesItems msgs"

section \<open>Chat Completions tools and request\<close>

definition defaultStrictFalse :: "bool option \<Rightarrow> bool option" where
  "defaultStrictFalse src = (if src = None then Some False else src)"

definition chatFunctionTool :: "chat_function \<Rightarrow> responses_tool" where
  "chatFunctionTool f =
     \<lparr>rt_Type = ''function'', rt_Name = fn_Name f, rt_Description = fn_Description f,
      rt_Parameters = fn_Parameters f, rt_Strict = defaultStrictFalse (fn_Strict f)\<rparr>"

definition convertChatToolsToResponses :: "chat_tool list \<Rightarrow> chat_function list \<Rightarrow> responses_tool list" where
  "convertChatToolsToResponses tools functions =
     concat (map (\<lambda>t. case ct_Function t of
         None \<Rightarrow> [] | Some f \<Rightarrow> if ct_Type t = ''function'' then [chatFunctionTool f] else []) tools) @
     map chatFunctionTool functions"

definition convertChatFunctionCallToToolChoice :: "raw_message \<Rightarrow> convert_error + raw_message" where
  "convertChatFunctionCallToToolChoice raw =
     (case unmarshal_string raw of
        Some s \<Rightarrow> Inr (json_quote s)
      | None \<Rightarrow>
          (case (if json_valid raw then decode_object function_name_field [] raw else None) of
             None \<Rightarrow> Inl ParseToolChoice
           | Some n \<Rightarrow> Inr (marshal_object [(''type'', json_quote ''function''), (''name'', json_quote n)])))"

definition ChatCompletionsToResponses :: "chat_completions_request \<Rightarrow> convert_error + responses_request" where
  "ChatCompletionsToResponses req =
     (case convertChatMessagesToResponsesInput (cq_Messages req) of
        Inl e \<Rightarrow> Inl e
      | Inr input \<Rightarrow>
          (case marshal_items (slice input) of
             None \<Rightarrow> Inl MarshalFailed
           | Some inputJSON \<Rightarrow>
               (case (if cq_ToolChoice req \<noteq> [] then Inr (cq_ToolChoice req)
                      else toolChoiceOrEmpty (cq_FunctionCall req) convertChatFunctionCallToToolChoice) of
                  Inl e \<Rightarrow> Inl e
                | Inr tc \<Rightarrow>
                    (let maxTokens = (case cq_MaxCompletionTokens req of Some n \<Rightarrow> n
                           | None \<Rightarrow> (case cq_MaxTokens req of Some n \<Rightarrow> n | None \<Rightarrow> 0))
                     in Inr (zero_responses_request\<lparr>
                          rq_Model := cq_Model req, rq_Instructions := cq_Instructions req, rq_Input := inputJSON,
                          rq_Stream := True, rq_Include := encrypted_reasoning, rq_ServiceTier := cq_ServiceTier req,
                          rq_Temperature := (if isReasoningModel (cq_Model req) then None else cq_Temperature req),
                          rq_TopP := (if isReasoningModel (cq_Model req) then None else cq_TopP req),
                          rq_Store := Some False,
                          rq_MaxOutputTokens := clampedOutputTokens maxTokens,
                          rq_Reasoning := (if cq_ReasoningEffort req \<noteq> []
                            then Some \<lparr>rre_Effort = cq_ReasoningEffort req, rre_Summary = ''auto''\<rparr> else None),
                          rq_Tools := convertChatToolsToResponses (cq_Tools req) (cq_Functions req),
                          rq_ToolChoice := tc\<rparr>)))))"

end
