(* ===== verification/RequestChain.thy ===== *)
theory RequestChain
  imports ToResponsesRequest
begin

text \<open>
  The request converters chained, as \<open>ForwardAsChatCompletions\<close> chains them: a Chat Completions
  request becomes a Responses request, and that an Anthropic request. The properties follow the
  input items through their printed form, and the tool calls and settings through both converters.
\<close>

declare skip_val.simps [simp del] skip_elems.simps [simp del] skip_mems.simps [simp del]
declare compact_raw.simps(2) [simp del]

section \<open>What a decoded Chat Completions request looks like\<close>

text \<open>The strings of a request that was decoded from JSON are valid UTF-8.\<close>

definition wf_tool_call :: "chat_tool_call \<Rightarrow> bool" where
  "wf_tool_call tc \<longleftrightarrow> valid_utf8 (tc_ID tc) \<and> valid_utf8 (cf_Name (tc_Function tc)) \<and>
     valid_utf8 (cf_Arguments (tc_Function tc))"

definition wf_chat_message :: "chat_message \<Rightarrow> bool" where
  "wf_chat_message m \<longleftrightarrow> valid_utf8 (cm_ReasoningContent m) \<and> valid_utf8 (cm_Name m) \<and> valid_utf8 (cm_ToolCallID m) \<and>
     list_all wf_tool_call (cm_ToolCalls m)"

definition wf_chat_part :: "chat_content_part \<Rightarrow> bool" where
  "wf_chat_part p \<longleftrightarrow> valid_utf8 (ccp_Text p) \<and> pred_option (\<lambda>u. valid_utf8 (iu_URL u)) (ccp_ImageURL p)"

lemma image_url_field_wf: "valid_utf8 (iu_URL x) \<Longrightarrow> image_url_field x m = Some y \<Longrightarrow> valid_utf8 (iu_URL y)"
  by (auto simp: image_url_field_def dest: decode_string_valid split: if_splits)

lemma chat_part_field_wf:
  assumes "wf_chat_part x" and "content_part_field x m = Some y"
  shows "wf_chat_part y"
proof -
  have u: "valid_utf8 (iu_URL u)" if "valid_utf8 (iu_URL z)" "decode_object image_url_field z v = Some u" for z v u
    using decode_object_inv [where P = "\<lambda>u. valid_utf8 (iu_URL u)" and f = image_url_field, OF _ that] image_url_field_wf by blast
  have v: "valid_utf8 (iu_URL u)" if "decode_object image_url_field \<lparr>iu_URL = [], iu_Detail = []\<rparr> w = Some u" for w u
    using u [OF _ that] by simp
  show ?thesis
    using assms by (auto simp: content_part_field_def wf_chat_part_def dest: decode_string_valid u v split: if_splits option.splits)
qed

lemma decode_parts_wf: "decode_parts vs = Some ps \<Longrightarrow> list_all wf_chat_part ps"
proof (induction vs arbitrary: ps)
  case (Cons v vs)
  then obtain p qs where p: "decode_object content_part_field \<lparr>ccp_Type = [], ccp_Text = [], ccp_ImageURL = None\<rparr> v = Some p"
    "decode_parts vs = Some qs" "ps = p # qs" by (auto split: option.splits)
  have "wf_chat_part p"
    by (rule decode_object_inv [where P = wf_chat_part, OF chat_part_field_wf _ p(1)]) (simp_all add: wf_chat_part_def)
  with Cons.IH p show ?case by simp
qed simp

definition wf_content :: "chat_message_content \<Rightarrow> bool" where
  "wf_content c \<longleftrightarrow> pred_option valid_utf8 (cmc_Text c) \<and> list_all wf_chat_part (cmc_Parts c)"

lemma parse_content_wf: "parseChatMessageContent raw = Some c \<Longrightarrow> wf_content c"
  by (auto simp: parseChatMessageContent_def wf_content_def unmarshal_chat_parts_def unmarshal_string_valid decode_parts_wf
      split: if_splits option.splits)

lemma valid_concat: "list_all valid_utf8 ss \<Longrightarrow> valid_utf8 (concat ss)"
  by (induction ss) auto

lemma flatten_valid: "list_all wf_chat_part ps \<Longrightarrow> valid_utf8 (flattenChatContentParts ps)"
  unfolding flattenChatContentParts_def by (rule valid_concat) (auto simp: list_all_iff wf_chat_part_def)

lemma parse_text_valid: "parseChatContent raw = Some t \<Longrightarrow> valid_utf8 t"
  using parse_content_wf [of raw]
  by (auto simp: parseChatContent_def wf_content_def flatten_valid split: option.splits)

section \<open>The parts of a user message\<close>

lemma chat_part_wf: "wf_chat_part p \<Longrightarrow> list_all wf_part (chatPartToResponses p)"
  by (auto simp: chatPartToResponses_def wf_chat_part_def wf_part_def input_text_part_def input_image_part_def byte_def
      split: option.splits)

lemma chat_parts_wf: "list_all wf_chat_part ps \<Longrightarrow> list_all wf_part (convertChatContentPartsToResponses ps)"
  by (induction ps) (simp_all add: convertChatContentPartsToResponses_def chat_part_wf)

lemma cut_at_valid: "cut_at c s = Some (a, b) \<Longrightarrow> valid_utf8 s \<Longrightarrow> byte c < 0x80 \<Longrightarrow> valid_utf8 a \<and> valid_utf8 b"
proof -
  assume a: "cut_at c s = Some (a, b)" "valid_utf8 s" "byte c < 0x80"
  then have "c \<in> set s" "a = takeWhile (\<lambda>d. d \<noteq> c) s" "b = tl (dropWhile (\<lambda>d. d \<noteq> c) s)"
    by (auto simp: cut_at_def split: if_splits)
  moreover obtain d u where "dropWhile (\<lambda>d. d \<noteq> c) s = d # u" using \<open>c \<in> set s\<close>
    by (cases "dropWhile (\<lambda>d. d \<noteq> c) s") auto
  moreover from this have "d = c" by (metis (mono_tags, lifting) dropWhile_eq_Cons_conv)
  ultimately have "s = a @ c # b" using takeWhile_dropWhile_id [of "\<lambda>d. d \<noteq> c" s] by simp
  with valid_utf8_split a(2,3) show ?thesis by blast
qed

lemma valid_prefix_drop:
  assumes "prefix p s" and "list_all (\<lambda>c. byte c < 0x80) p" and "valid_utf8 s"
  shows "valid_utf8 (drop (length p) s)"
proof -
  from assms(1) obtain t where "s = p @ t" by (auto simp: prefix_def)
  with valid_utf8_append [OF valid_utf8_ascii [OF assms(2)], of t] assms(3) show ?thesis by simp
qed

lemma detected_valid [simp]: "valid_utf8 (DetectImageMediaType d)"
proof -
  have "valid_utf8 ''image/jpeg''" "valid_utf8 ''image/png''" "valid_utf8 ''image/gif''" "valid_utf8 ''image/webp''"
    by (simp_all add: byte_def)
  then show ?thesis
    unfolding DetectImageMediaType_def detectWebP_def magicType_def by (simp split: option.split)
qed

lemma data_uri_valid:
  assumes "valid_utf8 u" and "dataURIToAnthropicImageSource u = Some src"
  shows "wf_image_source src"
proof -
  from assms(2) obtain mt rest where c: "prefix ''data:'' u" "cut_at (CHR '';'') (drop 5 u) = Some (mt, rest)"
    "prefix ''base64,'' rest" "src_Type src = ''base64''" "src_Data src = drop 7 rest"
    "src_MediaType src = mt \<or> src_MediaType src = DetectImageMediaType (drop 7 rest)"
    by (auto simp: dataURIToAnthropicImageSource_def Let_def split: if_splits option.splits)
  have n: "length ''data:'' = 5" "length ''base64,'' = 7" by simp_all
  have "valid_utf8 (drop 5 u)" using valid_prefix_drop [OF c(1) _ assms(1)] unfolding n by (simp add: byte_def)
  from cut_at_valid [OF c(2) this] have v: "valid_utf8 mt" "valid_utf8 rest" by (simp_all add: byte_def)
  have "valid_utf8 (drop 7 rest)" using valid_prefix_drop [OF c(3) _ v(2)] unfolding n by (simp add: byte_def)
  with v c(4-6) show ?thesis by (auto simp: wf_image_source_def byte_def)
qed

lemma user_part_blocks:
  "wf_part p \<Longrightarrow> list_all (\<lambda>b. wf_block b \<and> \<not> isToolResult b \<and> \<not> isToolUse b) (userPartBlocks p)"
  using data_uri_valid [of "rcp_ImageURL p"]
  by (auto simp: userPartBlocks_def wf_part_def text_block_wf isToolResult_def isToolUse_def wf_block_def raw_ok_def byte_def
      split: option.splits) (simp_all add: text_block_def)

lemma user_parts_blocks:
  "list_all wf_part ps \<Longrightarrow> list_all (\<lambda>b. wf_block b \<and> \<not> isToolResult b \<and> \<not> isToolUse b) (concat (map userPartBlocks ps))"
  by (induction ps) (simp_all add: user_part_blocks)
section \<open>A chat conversation as content blocks\<close>

text \<open>
  What the messages of a Chat Completions request say, as roles and Anthropic content blocks: the
  specification of the two converters in a row. A tool call whose arguments are no JSON says nothing.
\<close>

definition chat_call_arguments :: "chat_tool_call \<Rightarrow> string" where
  "chat_call_arguments tc = (if cf_Arguments (tc_Function tc) = [] then ''{}'' else cf_Arguments (tc_Function tc))"

definition chat_call_block :: "chat_tool_call \<Rightarrow> anthropic_content_block" where
  "chat_call_block tc =
     zero_block\<lparr>blk_Type := ''tool_use'', blk_ID := fromResponsesCallIDToAnthropic (tc_ID tc),
       blk_Name := cf_Name (tc_Function tc), blk_Input := compact_raw False (chat_call_arguments tc)\<rparr>"

definition chat_result_block :: "string \<Rightarrow> raw_message \<Rightarrow> anthropic_content_block" where
  "chat_result_block callid content =
     zero_block\<lparr>blk_Type := ''tool_result'', blk_ToolUseID := fromResponsesCallIDToAnthropic callid,
       blk_Content := json_quote (or_empty_note (case parseChatContent content of Some t \<Rightarrow> t | None \<Rightarrow> []))\<rparr>"

definition chat_user_blocks :: "chat_message_content \<Rightarrow> anthropic_content_block list" where
  "chat_user_blocks c =
     (case cmc_Text c of
        Some t \<Rightarrow> [text_block t]
      | None \<Rightarrow>
          (let bs = concat (map userPartBlocks (convertChatContentPartsToResponses (cmc_Parts c)))
           in if bs = [] then [text_block []] else bs))"

definition chat_stream :: "chat_message \<Rightarrow> (string \<times> anthropic_content_block) list" where
  "chat_stream m =
     (if cm_Role m = ''system'' then []
      else if cm_Role m = ''assistant'' then
        map (Pair ''assistant'') ((if chatAssistantText m \<noteq> [] then [text_block (chatAssistantText m)] else []) @
          map chat_call_block (filter (\<lambda>tc. json_valid (chat_call_arguments tc)) (cm_ToolCalls m)))
      else if cm_Role m = ''tool'' then [(''user'', chat_result_block (cm_ToolCallID m) (cm_Content m))]
      else if cm_Role m = ''function'' then [(''user'', chat_result_block (cm_Name m) (cm_Content m))]
      else map (Pair ''user'') (case parseChatMessageContent (cm_Content m) of Some c \<Rightarrow> chat_user_blocks c | None \<Rightarrow> []))"

text \<open>The system prompt: the last system message with any text.\<close>

definition system_text :: "raw_message \<Rightarrow> string" where
  "system_text raw = (case parseChatMessageContent raw of
     None \<Rightarrow> []
   | Some c \<Rightarrow> (case cmc_Text c of
       Some t \<Rightarrow> t
     | None \<Rightarrow> join paragraph_break (map rcp_Text (filter (\<lambda>p. rcp_Type p = ''input_text'' \<and> rcp_Text p \<noteq> [])
         (convertChatContentPartsToResponses (cmc_Parts c))))))"

definition system_after :: "chat_message \<Rightarrow> raw_message \<Rightarrow> raw_message" where
  "system_after m old =
     (if cm_Role m = ''system'' \<and> system_text (cm_Content m) \<noteq> [] then json_quote (system_text (cm_Content m)) else old)"

section \<open>The items of a chat message\<close>

lemma convertInputItems_append:
  "convertInputItems acc (xs @ ys) =
     (case convertInputItems acc xs of Inl e \<Rightarrow> Inl e | Inr acc' \<Rightarrow> convertInputItems acc' ys)"
  by (induction xs arbitrary: acc) (auto split: sum.splits)

lemma compact_role_item: "solid c \<Longrightarrow> compact_item (role_item r c) = role_item r c"
  by (simp add: compact_item_def role_item_def seg_compact)

lemma wf_role_item: "valid_utf8 r \<Longrightarrow> solid c \<Longrightarrow> wf_item (role_item r c)"
  using seg_json_valid by (simp add: wf_item_def role_item_def raw_ok_def)

lemma chat_content_solid [simp]: "solid (marshalChatInputContent c)"
  by (simp add: marshalChatInputContent_def Let_def split: option.split)

lemma parts_not_empty: "marshal_response_parts (Some ps) \<noteq> []"
  by (simp add: marshal_response_parts_def print_array_def)

definition user_content_blocks :: "raw_message \<Rightarrow> anthropic_content_block list" where
  "user_content_blocks raw = elems (parseContentBlocks (or_nil (convertResponsesUserToAnthropicContent raw)))"

lemma plain_compact: "list_all (\<lambda>b. blk_Input b = [] \<and> blk_Content b = []) bs \<Longrightarrow> map compact_block bs = bs"
  by (induction bs) (auto simp: compact_block_def)

lemma marshalled_user_blocks:
  assumes "wf_content c"
  shows "map compact_block (user_content_blocks (marshalChatInputContent c)) = chat_user_blocks c"
proof (cases "cmc_Text c")
  case (Some t)
  with assms have "valid_utf8 t" by (simp add: wf_content_def)
  with Some show ?thesis
    by (simp add: user_content_blocks_def marshalChatInputContent_def convertResponsesUserToAnthropicContent_def
        chat_user_blocks_def or_nil_def)
next
  case None
  let ?ps = "convertChatContentPartsToResponses (cmc_Parts c)"
  have wf: "list_all wf_part ?ps" using assms chat_parts_wf by (simp add: wf_content_def)
  let ?bs = "concat (map userPartBlocks ?ps)"
  have b: "list_all wf_block ?bs" using user_parts_blocks [OF wf] by (simp add: list_all_iff)
  have c: "map compact_block ?bs = ?bs" by (rule plain_compact [OF part_blocks_plain(1)])
  show ?thesis
  proof (cases "?ps = []")
    case True
    with None show ?thesis
      by (simp add: user_content_blocks_def marshalChatInputContent_def convertResponsesUserToAnthropicContent_def
          chat_user_blocks_def or_nil_def)
  next
    case False
    with None have "marshalChatInputContent c = marshal_response_parts (Some ?ps)" by (simp add: marshalChatInputContent_def)
    then have "convertResponsesUserToAnthropicContent (marshalChatInputContent c) =
        (if ?bs = [] then Some (json_quote []) else marshal_blocks (Some ?bs))"
      using marshal_parts_read [OF wf] parts_not_empty [of ?ps]
      by (simp add: convertResponsesUserToAnthropicContent_def parts_not_string Let_def)
    then show ?thesis using None c parse_marshal [OF b]
      by (simp add: user_content_blocks_def chat_user_blocks_def Let_def) (simp add: or_nil_def)
  qed
qed

abbreviation say :: "anthropic_message list \<Rightarrow> (string \<times> anthropic_content_block) list" where
  "say ms \<equiv> stream (map turn_of ms)"

lemma turn_of_raw: "turn_of \<lparr>am_Role = r, am_Content = t\<rparr> = (r, map compact_block (elems (parseContentBlocks t)))"
  by (simp add: turn_of_def blocks_of_def)

lemma user_item_read:
  assumes "wf_content c"
  shows "\<exists>acc'. convertInputItem acc (role_item ''user'' (marshalChatInputContent c)) = Inr acc' \<and>
    say (snd acc') = say (snd acc) @ map (Pair ''user'') (chat_user_blocks c) \<and> fst acc' = fst acc"
proof -
  obtain t where t: "convertResponsesUserToAnthropicContent (marshalChatInputContent c) = Some t"
    using user_content by blast
  with marshalled_user_blocks [OF assms] show ?thesis
    by (auto simp: convertInputItem_def role_item_def addMessage_def user_content_blocks_def or_nil_def turn_of_raw
        simp del: map_map)
qed

lemma chat_part_types: "filter (\<lambda>p. (rcp_Type p = ''input_text'' \<or> rcp_Type p = ''output_text'' \<or> rcp_Type p = ''text'') \<and> rcp_Text p \<noteq> [])
    (convertChatContentPartsToResponses ps) =
  filter (\<lambda>p. rcp_Type p = ''input_text'' \<and> rcp_Text p \<noteq> []) (convertChatContentPartsToResponses ps)"
proof -
  have "list_all (\<lambda>p. rcp_Type p = ''input_text'' \<or> rcp_Type p = ''input_image'') (chatPartToResponses p)" for p
    by (simp add: chatPartToResponses_def input_text_part_def input_image_part_def split: option.split)
  then have "list_all (\<lambda>p. rcp_Type p = ''input_text'' \<or> rcp_Type p = ''input_image'') (convertChatContentPartsToResponses ps)"
    by (induction ps) (simp_all add: convertChatContentPartsToResponses_def)
  then show ?thesis by (intro filter_cong) (auto simp: list_all_iff)
qed

lemma system_content:
  assumes "parseChatMessageContent raw = Some c"
  shows "extractTextFromContent (marshalChatInputContent c) = system_text raw"
proof (cases "cmc_Text c")
  case (Some t)
  with assms parse_content_wf [OF assms] show ?thesis
    by (simp add: wf_content_def extractTextFromContent_def marshalChatInputContent_def system_text_def)
next
  case None
  let ?ps = "convertChatContentPartsToResponses (cmc_Parts c)"
  have wf: "list_all wf_part ?ps" using parse_content_wf [OF assms] chat_parts_wf by (simp add: wf_content_def)
  show ?thesis
  proof (cases "?ps = []")
    case True
    with None assms show ?thesis
      by (simp add: extractTextFromContent_def marshalChatInputContent_def system_text_def paragraph_break_def)
  next
    case False
    with None have "marshalChatInputContent c = marshal_response_parts (Some ?ps)" by (simp add: marshalChatInputContent_def)
    with marshal_parts_read [OF wf] parts_not_empty [of ?ps] show ?thesis
      by (simp add: extractTextFromContent_def parts_not_string system_text_def assms None chat_part_types)
  qed
qed

lemma system_item_read:
  assumes "parseChatMessageContent (cm_Content m) = Some c" and "cm_Role m = ''system''"
  shows "convertInputItem acc (role_item ''system'' (marshalChatInputContent c)) = Inr (system_after m (fst acc), snd acc)"
  using system_content [OF assms(1)] assms(2)
  by (cases acc) (simp add: convertInputItem_def role_item_def system_after_def Let_def)

lemma assistant_item_read:
  assumes "valid_utf8 t" and "t \<noteq> []"
  shows "\<exists>acc'. convertInputItem acc (role_item ''assistant'' (marshal_response_parts (Some [output_text_part t]))) = Inr acc' \<and>
    say (snd acc') = say (snd acc) @ [(''assistant'', text_block t)] \<and> fst acc' = fst acc"
proof -
  have wf: "list_all wf_part [output_text_part t]" using assms by (simp add: wf_part_def output_text_part_def byte_def)
  have b: "list_all wf_block [text_block t]" using assms(1) by (simp add: text_block_wf)
  obtain c where c: "marshal_blocks (Some [text_block t]) = Some c"
    using text_blocks_marshal [of "[text_block t]"] by (auto simp: text_block_def)
  have "convertResponsesAssistantToAnthropicContent (marshal_response_parts (Some [output_text_part t])) = Some c"
    using marshal_parts_read [OF wf] parts_not_empty [of "[output_text_part t]"] assms(2) c
    by (simp add: convertResponsesAssistantToAnthropicContent_def parts_not_string assistantPartBlocks_def output_text_part_def)
  moreover have "elems (parseContentBlocks c) = [text_block t]" using parse_marshal [OF b] c by (simp add: or_nil_def)
  ultimately show ?thesis by (simp add: convertInputItem_def role_item_def addMessage_def turn_of_raw)
qed


lemma call_item_message:
  "convertInputItem acc (chatToolCallItem tc) = Inr (fst acc, snd acc @ [functionCallMessage (chatToolCallItem tc)])"
  by (simp add: convertInputItem_def chatToolCallItem_def)

lemma call_arguments_ne: "chat_call_arguments tc \<noteq> []"
  by (simp add: chat_call_arguments_def)

lemma functionCall_blocks:
  assumes "it_Arguments it \<noteq> []" and "valid_utf8 (it_CallID it)" and "valid_utf8 (it_Name it)"
  shows "turn_of (functionCallMessage it) = (''assistant'', if json_valid (it_Arguments it)
    then [zero_block\<lparr>blk_Type := ''tool_use'', blk_ID := fromResponsesCallIDToAnthropic (it_CallID it),
      blk_Name := it_Name it, blk_Input := compact_raw False (it_Arguments it)\<rparr>] else [])"
proof (cases "json_valid (it_Arguments it)")
  case True
  let ?b = "zero_block\<lparr>blk_Type := ''tool_use'', blk_ID := fromResponsesCallIDToAnthropic (it_CallID it),
      blk_Name := it_Name it, blk_Input := it_Arguments it\<rparr>"
  have "list_all wf_block [?b]" using assms True valid_call_id by (simp add: wf_block_def raw_ok_def byte_def)
  from turn_of_from [OF this, of "''assistant''"] assms(1) True show ?thesis
    by (simp add: functionCallMessage_def) (simp add: compact_block_def)
next
  case False
  with assms(1) have "functionCallMessage it = \<lparr>am_Role = ''assistant'', am_Content = []\<rparr>"
    by (simp add: functionCallMessage_def anthropicMessageFromBlocks_def marshal_blocks_def marshal_slice_def or_nil_def
        MarshalJSON_def raw_ok_def)
  with False show ?thesis by (simp add: turn_of_def)
qed

lemma functionOutput_blocks:
  assumes "valid_utf8 (it_CallID it)"
  shows "turn_of (functionOutputMessage it) = (''user'', [zero_block\<lparr>blk_Type := ''tool_result'',
    blk_ToolUseID := fromResponsesCallIDToAnthropic (it_CallID it),
    blk_Content := json_quote (or_empty_note (it_Output it))\<rparr>])"
proof -
  let ?b = "zero_block\<lparr>blk_Type := ''tool_result'', blk_ToolUseID := fromResponsesCallIDToAnthropic (it_CallID it),
      blk_Content := json_quote (or_empty_note (it_Output it))\<rparr>"
  have "list_all wf_block [?b]" using assms valid_call_id by (simp add: wf_block_def raw_ok_def [of "[]"] byte_def)
  from turn_of_from [OF this, of "''user''"] show ?thesis
    by (simp add: functionOutputMessage_def or_empty_note_def) (simp add: compact_block_def)
qed

lemma call_items_read:
  "list_all wf_tool_call tcs \<Longrightarrow>
   \<exists>acc'. convertInputItems acc (map chatToolCallItem tcs) = Inr acc' \<and> fst acc' = fst acc \<and>
     say (snd acc') = say (snd acc) @ map (Pair ''assistant'')
       (map chat_call_block (filter (\<lambda>tc. json_valid (chat_call_arguments tc)) tcs))"
proof (induction tcs arbitrary: acc)
  case (Cons tc tcs)
  have "turn_of (functionCallMessage (chatToolCallItem tc)) =
      (''assistant'', if json_valid (chat_call_arguments tc) then [chat_call_block tc] else [])"
    using functionCall_blocks [of "chatToolCallItem tc"] Cons.prems call_arguments_ne [of tc]
    by (simp add: chatToolCallItem_def wf_tool_call_def chat_call_block_def chat_call_arguments_def)
  with Cons.IH [of "(fst acc, snd acc @ [functionCallMessage (chatToolCallItem tc)])"] Cons.prems
  show ?case by (cases "json_valid (chat_call_arguments tc)") (simp_all add: call_item_message)
qed simp

lemma output_item_read:
  assumes "valid_utf8 callid" and "toolOutput callid raw = Inr its"
  shows "list_all wf_item its \<and> map compact_item its = its \<and>
    (\<exists>acc'. convertInputItems acc its = Inr acc' \<and> fst acc' = fst acc \<and>
       say (snd acc') = say (snd acc) @ [(''user'', chat_result_block callid raw)])"
proof -
  from assms(2) obtain t where t: "parseChatContent raw = Some t"
    "its = [zero_item\<lparr>it_Type := ''function_call_output'', it_CallID := callid, it_Output := or_empty_note t\<rparr>]"
    by (auto simp: toolOutput_def or_parse_error_def split: option.splits)
  have n: "or_empty_note (or_empty_note t) = or_empty_note t" "valid_utf8 (or_empty_note t)"
    using parse_text_valid [OF t(1)] by (simp_all add: or_empty_note_def byte_def)
  with t assms(1) functionOutput_blocks [of "hd its"] show ?thesis
    by (simp add: convertInputItem_def chat_result_block_def wf_item_def raw_ok_def [of "[]"] compact_item_def byte_def)
qed

lemma any_string_valid: "valid_utf8 (any_string p k)"
  by (auto simp: any_string_def unmarshal_string_valid split: option.split)

lemma assistant_text_valid: "valid_utf8 (cm_ReasoningContent m) \<Longrightarrow> valid_utf8 (chatAssistantText m)"
proof -
  have tags: "valid_utf8 s \<Longrightarrow> valid_utf8 (in_thinking_tags s)" for s
    by (simp add: in_thinking_tags_def valid_utf8_append byte_def)
  have "valid_utf8 (assistantPartText p)" for p
    using any_string_valid tags by (simp add: assistantPartText_def Let_def)
  then have "valid_utf8 (concat (map assistantPartText ps))" for ps by (intro valid_concat) (simp add: list_all_iff)
  then have "valid_utf8 (parseAssistantContent raw)" for raw
    by (auto simp: parseAssistantContent_def unmarshal_string_valid split: option.split)
  with tags show "valid_utf8 (cm_ReasoningContent m) \<Longrightarrow> ?thesis" by (simp add: chatAssistantText_def Let_def valid_utf8_append byte_def)
qed

lemma chatToolCallItem_wf: "wf_tool_call tc \<Longrightarrow> wf_item (chatToolCallItem tc) \<and> compact_item (chatToolCallItem tc) = chatToolCallItem tc"
  by (simp add: wf_tool_call_def wf_item_def chatToolCallItem_def compact_item_def raw_ok_def [of "[]"] byte_def)

lemma call_items_wf:
  "list_all wf_tool_call tcs \<Longrightarrow> list_all wf_item (map chatToolCallItem tcs) \<and>
     map compact_item (map chatToolCallItem tcs) = map chatToolCallItem tcs"
  by (induction tcs) (simp_all add: chatToolCallItem_wf)

text \<open>What one chat message becomes when the items are read back by the second converter.\<close>

definition items_say :: "responses_input_item list \<Rightarrow> (raw_message \<Rightarrow> raw_message) \<Rightarrow>
    (string \<times> anthropic_content_block) list \<Rightarrow> bool" where
  "items_say its sys st \<longleftrightarrow> list_all wf_item its \<and> map compact_item its = its \<and>
     (\<forall>acc. \<exists>acc'. convertInputItems acc its = Inr acc' \<and> fst acc' = sys (fst acc) \<and>
        say (snd acc') = say (snd acc) @ st)"

lemma items_say_append:
  assumes "items_say xs f s" and "items_say ys g t"
  shows "items_say (xs @ ys) (\<lambda>o'. g (f o')) (s @ t)"
  unfolding items_say_def
proof (intro conjI allI)
  show "list_all wf_item (xs @ ys)" "map compact_item (xs @ ys) = xs @ ys" using assms by (simp_all add: items_say_def)
  fix acc
  from assms(1) obtain acc1 where 1: "convertInputItems acc xs = Inr acc1" "fst acc1 = f (fst acc)" "say (snd acc1) = say (snd acc) @ s"
    unfolding items_say_def by blast
  from assms(2) obtain acc2 where "convertInputItems acc1 ys = Inr acc2" "fst acc2 = g (fst acc1)" "say (snd acc2) = say (snd acc1) @ t"
    unfolding items_say_def by blast
  with 1 show "\<exists>acc'. convertInputItems acc (xs @ ys) = Inr acc' \<and> fst acc' = g (f (fst acc)) \<and> say (snd acc') = say (snd acc) @ s @ t"
    by (simp add: convertInputItems_append)
qed

lemma items_say_nil [simp]: "items_say [] (\<lambda>x. x) []"
  by (simp add: items_say_def)

lemma items_say_single:
  assumes "wf_item it" and "compact_item it = it"
    and "\<And>acc. \<exists>acc'. convertInputItem acc it = Inr acc' \<and> say (snd acc') = say (snd acc) @ st \<and> fst acc' = f (fst acc)"
  shows "items_say [it] f st"
  unfolding items_say_def
proof (intro conjI allI)
  fix acc
  from assms(3) [of acc] obtain acc' where "convertInputItem acc it = Inr acc'" "say (snd acc') = say (snd acc) @ st" "fst acc' = f (fst acc)"
    by blast
  then show "\<exists>acc'. convertInputItems acc [it] = Inr acc' \<and> fst acc' = f (fst acc) \<and> say (snd acc') = say (snd acc) @ st"
    by simp
qed (use assms in simp_all)

lemma chat_user_items:
  assumes "chatUserToResponses m = Inr its"
  shows "items_say its (\<lambda>x. x) (map (Pair ''user'')
    (case parseChatMessageContent (cm_Content m) of Some c \<Rightarrow> chat_user_blocks c | None \<Rightarrow> []))"
proof -
  from assms obtain c where c: "parseChatMessageContent (cm_Content m) = Some c"
    "its = [role_item ''user'' (marshalChatInputContent c)]"
    by (auto simp: chatUserToResponses_def or_parse_error_def split: option.splits)
  have "valid_utf8 ''user''" by (simp add: byte_def)
  with items_say_single [OF wf_role_item compact_role_item user_item_read [OF parse_content_wf [OF c(1)]]] c
  show ?thesis by simp
qed

lemma chat_assistant_items:
  assumes "chatAssistantToResponses m = Inr its" and "wf_chat_message m"
  shows "items_say its (\<lambda>x. x) (map (Pair ''assistant'')
    ((if chatAssistantText m \<noteq> [] then [text_block (chatAssistantText m)] else []) @
     map chat_call_block (filter (\<lambda>tc. json_valid (chat_call_arguments tc)) (cm_ToolCalls m))))"
proof -
  let ?t = "chatAssistantText m"
  let ?c = "marshal_response_parts (Some [output_text_part ?t])"
  have v: "valid_utf8 ?t" using assms(2) by (intro assistant_text_valid) (simp add: wf_chat_message_def)
  have "valid_utf8 ''assistant''" by (simp add: byte_def)
  then have 1: "items_say (if ?t \<noteq> [] then [role_item ''assistant'' ?c] else []) (\<lambda>x. x)
      (map (Pair ''assistant'') (if ?t \<noteq> [] then [text_block ?t] else []))"
    using items_say_single [OF wf_role_item compact_role_item assistant_item_read [OF v]] by simp
  have 2: "items_say (map chatToolCallItem (cm_ToolCalls m)) (\<lambda>x. x) (map (Pair ''assistant'')
      (map chat_call_block (filter (\<lambda>tc. json_valid (chat_call_arguments tc)) (cm_ToolCalls m))))"
    using assms(2) call_items_wf [of "cm_ToolCalls m"] call_items_read [of "cm_ToolCalls m"]
    by (simp add: items_say_def wf_chat_message_def del: map_map)
  from assms(1) have "its = (if ?t \<noteq> [] then [role_item ''assistant'' ?c] else []) @ map chatToolCallItem (cm_ToolCalls m)"
    by (simp add: chatAssistantToResponses_def Let_def)
  with items_say_append [OF 1 2] show ?thesis by (simp only: map_append)
qed

lemma chat_message_items:
  assumes "chatMessageToResponsesItems m = Inr its" and "wf_chat_message m"
  shows "items_say its (system_after m) (chat_stream m)"
proof -
  have out: "toolOutput i (cm_Content m) = Inr its \<Longrightarrow> valid_utf8 i \<Longrightarrow>
      items_say its (\<lambda>x. x) [(''user'', chat_result_block i (cm_Content m))]" for i
    using output_item_read [of i "cm_Content m" its] unfolding items_say_def by blast
  have sys: "items_say its (system_after m) []" if r: "cm_Role m = ''system''" "chatSystemToResponses m = Inr its"
  proof -
    from r obtain c where c: "parseChatMessageContent (cm_Content m) = Some c"
      "its = [role_item ''system'' (marshalChatInputContent c)]"
      by (auto simp: chatSystemToResponses_def or_parse_error_def split: option.splits)
    have "valid_utf8 ''system''" by (simp add: byte_def)
    with system_item_read [OF c(1) r(1)] c(2) show ?thesis
      by (simp add: items_say_def wf_role_item compact_role_item)
  qed
  have "cm_Role m \<noteq> ''system'' \<Longrightarrow> system_after m = (\<lambda>x. x)" by (auto simp: system_after_def)
  with assms sys out chat_user_items [of m its] chat_assistant_items [of m its] show ?thesis
    unfolding chatMessageToResponsesItems_def chat_stream_def chatToolToResponses_def chatFunctionToResponses_def
    by (auto simp: wf_chat_message_def simp del: map_append split: if_splits)
qed

text \<open>The system prompt after all messages, and what they say.\<close>

definition chat_system :: "chat_message list \<Rightarrow> raw_message" where
  "chat_system ms = fold system_after ms []"

definition conversation :: "chat_message list \<Rightarrow> (string \<times> anthropic_content_block) list" where
  "conversation ms = concat (map chat_stream ms)"

lemma chat_messages_items:
  "convertChatMessagesToResponsesInput ms = Inr its \<Longrightarrow> list_all wf_chat_message ms \<Longrightarrow>
     items_say its (fold system_after ms) (conversation ms)"
proof (induction ms arbitrary: its)
  case (Cons m ms)
  from Cons.prems(1) obtain xs ys where 1: "chatMessageToResponsesItems m = Inr xs"
    "convertChatMessagesToResponsesInput ms = Inr ys" "its = xs @ ys"
    by (auto simp: convertChatMessagesToResponsesInput_def split: sum.splits)
  with items_say_append [OF chat_message_items [OF 1(1)] Cons.IH [OF 1(2)]] Cons.prems(2)
  show ?case by (simp add: conversation_def o_def)
qed (auto simp: convertChatMessagesToResponsesInput_def conversation_def id_def)

lemma printed_items:
  assumes "list_all wf_item its" and "its \<noteq> []"
  obtains t where "marshal_items (slice its) = Some t" "unmarshal_items t = Some (Some (map compact_item its))"
    "unmarshal_string t = None"
proof -
  obtain t where "marshal_items (Some its) = Some t" "unmarshal_items t = Some (Some (map compact_item its))"
    "unmarshal_string t = None" using marshal_items_read [OF assms(1)] by blast
  then show ?thesis using assms(2) by (intro that [of t]) (simp_all add: slice_def)
qed

text \<open>A repaired conversation, as a relation between what went in and what came out.\<close>

definition answers_of :: "(string \<times> anthropic_content_block) list \<Rightarrow> string \<Rightarrow> anthropic_content_block option" where
  "answers_of st = map_of (rev (map (\<lambda>x. (blk_ToolUseID (snd x), snd x))
     (filter (\<lambda>x. is_result x \<and> blk_ToolUseID (snd x) \<noteq> []) st)))"

definition repaired_from :: "(string \<times> anthropic_content_block) list \<Rightarrow> (string \<times> anthropic_content_block) list \<Rightarrow> bool" where
  "repaired_from said sent \<longleftrightarrow>
     filter is_plain sent = filter is_plain said \<and>
     filter is_call sent = filter (\<lambda>x. is_call x \<and> answers_of said (blk_ID (snd x)) \<noteq> None) said \<and>
     map snd (filter is_result sent) = map (\<lambda>x. the (answers_of said (blk_ID (snd x)))) (filter is_call sent)"

lemma answer_stream: "answer ts = answers_of (stream ts)"
proof -
  have "map (\<lambda>b. (blk_ToolUseID b, b)) (filter (\<lambda>b. isToolResult b \<and> blk_ToolUseID b \<noteq> [])
      (map snd (filter (\<lambda>x. fst x = ''user'') st))) =
    map (\<lambda>x. (blk_ToolUseID (snd x), snd x)) (filter (\<lambda>x. is_result x \<and> blk_ToolUseID (snd x) \<noteq> []) st)" for st
    by (induction st) (auto simp: is_result_def)
  then show ?thesis by (simp add: answer_def answers_of_def role_blocks_stream)
qed

lemma repair_repaired: "repaired_from (say ms) (say (repairMessages ms))"
proof -
  have "stream (repair_turns ts) = stream (concat (map (pair_turn (answer ts)) (merge_turns ts)))" for ts
    by (simp add: repair_turns_def Let_def)
  moreover have "map turn_of (repairMessages ms) = repair_turns (map turn_of ms)"
    by (simp add: repairMessages_def repair_turns_def Let_def merge_refines normalize_refines)
  ultimately show ?thesis
    using pair_turns_stream [of "map turn_of ms" "merge_turns (map turn_of ms)"]
    by (simp add: repaired_from_def answer_stream)
qed

lemma ResponsesToAnthropicRequest_messages:
  "convertResponsesInputToAnthropic (rq_Input r) = Inr (system, ms) \<Longrightarrow>
   \<exists>out. ResponsesToAnthropicRequest r = Inr out \<and> aq_Messages out = ms \<and> aq_System out = system"
  by (simp add: ResponsesToAnthropicRequest_def Let_def)

lemma chat_request_chain:
  assumes "list_all wf_chat_message (cq_Messages req)" and "list_ex (\<lambda>m. cm_Role m \<noteq> ''assistant'') (cq_Messages req)"
    and "ChatCompletionsToResponses req = Inr r"
  shows "\<exists>out. ResponsesToAnthropicRequest r = Inr out \<and> aq_System out = chat_system (cq_Messages req) \<and>
    repaired_from (conversation (cq_Messages req)) (say (aq_Messages out))"
proof -
  from assms(3) obtain its t where its: "convertChatMessagesToResponsesInput (cq_Messages req) = Inr its"
    "marshal_items (slice its) = Some t" "rq_Input r = t"
    by (auto simp: ChatCompletionsToResponses_def Let_def split: sum.splits option.splits)
  note say = chat_messages_items [OF its(1) assms(1)]
  have one: "its \<noteq> []" if "convertChatMessagesToResponsesInput ms = Inr its" "list_ex (\<lambda>m. cm_Role m \<noteq> ''assistant'') ms" for ms its
    using that
  proof (induction ms arbitrary: its)
    case (Cons m ms)
    then obtain xs ys where x: "chatMessageToResponsesItems m = Inr xs" "convertChatMessagesToResponsesInput ms = Inr ys" "its = xs @ ys"
      by (auto simp: convertChatMessagesToResponsesInput_def split: sum.splits)
    show ?case
    proof (cases "cm_Role m = ''assistant''")
      case False
      then have "xs \<noteq> []" using x(1)
        by (auto simp: chatMessageToResponsesItems_def chatSystemToResponses_def chatUserToResponses_def chatToolToResponses_def
            chatFunctionToResponses_def toolOutput_def or_parse_error_def split: if_splits option.splits)
      with x show ?thesis by simp
    next
      case True
      with Cons.IH [OF x(2)] Cons.prems(2) x(3) show ?thesis by simp
    qed
  qed simp
  from say have wf: "list_all wf_item its" and c: "map compact_item its = its" by (simp_all add: items_say_def)
  from printed_items [OF wf one [OF its(1) assms(2)]] its(2)
  have u: "unmarshal_items (rq_Input r) = Some (Some its)" "unmarshal_string (rq_Input r) = None"
    unfolding c its(3) by auto
  from say obtain acc where acc: "convertInputItems ([], []) its = Inr acc" "fst acc = chat_system (cq_Messages req)"
    "say (snd acc) = conversation (cq_Messages req)" unfolding items_say_def chat_system_def by fastforce
  then have "convertResponsesInputToAnthropic (rq_Input r) = Inr (chat_system (cq_Messages req), repairMessages (snd acc))"
    by (cases acc) (simp add: convertResponsesInputToAnthropic_def u elems_def)
  from ResponsesToAnthropicRequest_messages [OF this] repair_repaired [of "snd acc"] acc(3) show ?thesis by auto
qed

section \<open>Properties of the chain\<close>


definition chat_request :: "chat_message list \<Rightarrow> chat_completions_request" where
  "chat_request ms = \<lparr>cq_Model = ''gpt-5'', cq_Messages = ms, cq_Instructions = ''be kind'', cq_MaxTokens = None,
     cq_MaxCompletionTokens = None, cq_Temperature = None, cq_TopP = None, cq_Stream = False, cq_StreamOptions = None,
     cq_Tools = [], cq_ToolChoice = [], cq_ReasoningEffort = [], cq_ServiceTier = [], cq_Stop = [], cq_Functions = [],
     cq_FunctionCall = []\<rparr>"

lemma chat_request_sel [simp]: "cq_Messages (chat_request ms) = ms" by (simp add: chat_request_def)

lemma parse_chat_quote [simp]:
  "valid_utf8 s \<Longrightarrow> parseChatMessageContent (json_quote s) = Some \<lparr>cmc_Text = Some s, cmc_Parts = []\<rparr>"
  by (simp add: parseChatMessageContent_def)

lemma chat_request_ok:
  assumes "convertChatMessagesToResponsesInput ms = Inr its" and "list_all wf_chat_message ms"
  obtains r where "ChatCompletionsToResponses (chat_request ms) = Inr r"
proof -
  have wf: "list_all wf_item its" using chat_messages_items [OF assms] by (simp add: items_say_def)
  obtain t where "marshal_items (slice its) = Some t"
  proof (cases "its = []")
    case True
    then show ?thesis using that by (simp add: slice_def marshal_items_def marshal_slice_def)
  next
    case False
    with printed_items [OF wf] that show ?thesis by blast
  qed
  with assms(1) show ?thesis
    by (intro that) (simp add: ChatCompletionsToResponses_def chat_request_def Let_def toolChoiceOrEmpty_def)
qed

text \<open>A system message, a question, a tool call and its reply.\<close>

definition demo_chat :: "chat_message list" where
  "demo_chat =
     [zero_chat_message\<lparr>cm_Role := ''system'', cm_Content := json_quote ''be brief''\<rparr>,
      zero_chat_message\<lparr>cm_Role := ''user'', cm_Content := json_quote ''hi''\<rparr>,
      zero_chat_message\<lparr>cm_Role := ''assistant'', cm_ToolCalls := [zero_tool_call\<lparr>tc_ID := ''call_1'',
        tc_Function := \<lparr>cf_Name = ''ls'', cf_Arguments = []\<rparr>\<rparr>]\<rparr>,
      zero_chat_message\<lparr>cm_Role := ''tool'', cm_ToolCallID := ''call_1'', cm_Content := json_quote ''ok''\<rparr>]"

lemma valid_demo [simp]: "valid_utf8 ''be brief''" "valid_utf8 ''hi''" "valid_utf8 ''ok''" "valid_utf8 ''call_1''" "valid_utf8 ''ls''" "valid_utf8 ''get''"
  by (simp_all add: byte_def)

lemma empty_json_valid [simp]: "json_valid ''{}''"
  using empty_object(2) by (simp add: raw_ok_def)

lemma demo_chat_wf: "list_all wf_chat_message demo_chat"
  by (simp add: demo_chat_def wf_chat_message_def wf_tool_call_def)

lemma demo_chat_items: "\<exists>its. convertChatMessagesToResponsesInput demo_chat = Inr its"
  by (simp add: convertChatMessagesToResponsesInput_def demo_chat_def chatMessageToResponsesItems_def chatSystemToResponses_def
      chatUserToResponses_def chatAssistantToResponses_def chatToolToResponses_def toolOutput_def or_parse_error_def
      parseChatContent_def Let_def)

lemma demo_conversation: "conversation demo_chat =
  [(''user'', text_block ''hi''), (''assistant'', demo_call ''call_1'' ''ls''), (''user'', demo_result)]"
  by (simp add: conversation_def demo_chat_def chat_stream_def chatAssistantText_def Let_def parseAssistantContent_def
      chat_user_blocks_def chat_call_block_def chat_call_arguments_def demo_call_def chat_result_block_def demo_result_def
      fromResponsesCallIDToAnthropic_def parseChatContent_def or_empty_note_def)


lemma system_after_others: "list_all (\<lambda>m. cm_Role m \<noteq> ''system'') ms \<Longrightarrow> fold system_after ms old = old"
  by (induction ms arbitrary: old) (simp_all add: system_after_def)

text \<open>
  Of several system messages only the last one with any text reaches the Anthropic API, and the
  \<open>instructions\<close> of the request do not reach it at all: the second converter neither joins the
  system messages nor reads the instructions.
\<close>

theorem earlier_instructions_lost:
  assumes "list_all wf_chat_message (cq_Messages req)" and "cq_Messages req = ms @ [m] @ ms'"
    and "cm_Role m = ''system''" and "system_text (cm_Content m) \<noteq> []"
    and "list_all (\<lambda>m. cm_Role m \<noteq> ''system'') ms'" and "ChatCompletionsToResponses req = Inr r"
  shows "\<exists>out. ResponsesToAnthropicRequest r = Inr out \<and> aq_System out = json_quote (system_text (cm_Content m)) \<and>
    (\<forall>i. ResponsesToAnthropicRequest (r\<lparr>rq_Instructions := i\<rparr>) = Inr out)"
proof -
  have "list_ex (\<lambda>m. cm_Role m \<noteq> ''assistant'') (cq_Messages req)" using assms(2,3) by simp
  from chat_request_chain [OF assms(1) this assms(6)] obtain out where
    "ResponsesToAnthropicRequest r = Inr out" "aq_System out = chat_system (cq_Messages req)" by blast
  moreover have "chat_system (cq_Messages req) = json_quote (system_text (cm_Content m))"
    using assms(2-5) by (simp add: chat_system_def system_after_others system_after_def)
  moreover have "ResponsesToAnthropicRequest (r\<lparr>rq_Instructions := i\<rparr>) = ResponsesToAnthropicRequest r" for i
    by (cases r) (simp only: ResponsesToAnthropicRequest_def responses_request.simps responses_request.update_convs)
  ultimately show ?thesis by simp
qed

text \<open>The prompt of the demo is followed by a second one; the request also has instructions.\<close>

theorem earlier_instructions_lost_witness:
  "\<exists>r out. ChatCompletionsToResponses (chat_request (demo_chat @ [zero_chat_message\<lparr>cm_Role := ''system'', cm_Content := json_quote ''ok''\<rparr>])) = Inr r \<and>
     ResponsesToAnthropicRequest r = Inr out \<and> aq_System out = json_quote ''ok'' \<and> rq_Instructions r = ''be kind''"
proof -
  let ?m = "zero_chat_message\<lparr>cm_Role := ''system'', cm_Content := json_quote ''ok''\<rparr>"
  let ?req = "chat_request (demo_chat @ [?m])"
  have wf: "list_all wf_chat_message (demo_chat @ [?m])" using demo_chat_wf by (simp add: wf_chat_message_def)
  have "\<exists>its. convertChatMessagesToResponsesInput (demo_chat @ [?m]) = Inr its"
    by (simp add: convertChatMessagesToResponsesInput_def demo_chat_def chatMessageToResponsesItems_def chatSystemToResponses_def
        chatUserToResponses_def chatAssistantToResponses_def chatToolToResponses_def toolOutput_def or_parse_error_def
        parseChatContent_def Let_def)
  then obtain r where r: "ChatCompletionsToResponses ?req = Inr r" using chat_request_ok [OF _ wf] by blast
  have t: "system_text (cm_Content ?m) = ''ok''" by (simp add: system_text_def)
  have "rq_Instructions r = ''be kind''"
    using r by (auto simp: ChatCompletionsToResponses_def chat_request_def Let_def split: sum.splits option.splits)
  moreover obtain out where "ResponsesToAnthropicRequest r = Inr out" "aq_System out = json_quote (system_text (cm_Content ?m))"
    using earlier_instructions_lost [of ?req demo_chat ?m "[]" r] wf r t by auto
  ultimately show ?thesis using r t by auto
qed

text \<open>
  A conversation in the legacy function calling format loses its functions: the
  \<open>function_call\<close> of an assistant message is not converted, so nothing announces the reply in the
  \<open>function\<close> message, and the repair of the message sequence drops it. No call and no reply
  reaches the Anthropic API.
\<close>

theorem legacy_function_replies_lost:
  assumes "list_all wf_chat_message (cq_Messages req)" and "list_ex (\<lambda>m. cm_Role m \<noteq> ''assistant'') (cq_Messages req)"
    and "list_all (\<lambda>m. cm_ToolCalls m = []) (cq_Messages req)" and "ChatCompletionsToResponses req = Inr r"
  shows "\<exists>out. ResponsesToAnthropicRequest r = Inr out \<and>
    filter is_call (stream (map turn_of (aq_Messages out))) = [] \<and> filter is_result (stream (map turn_of (aq_Messages out))) = []"
proof -
  have "filter is_call (chat_stream m) = []" if "cm_ToolCalls m = []" for m
    using that by (simp add: chat_stream_def filter_role) (simp add: is_call_def text_block_def isToolUse_def)
  then have "filter is_call (conversation ms) = []" if "list_all (\<lambda>m. cm_ToolCalls m = []) ms" for ms
    using that by (induction ms) (simp_all add: conversation_def)
  then have "filter is_call (conversation (cq_Messages req)) = []" using assms(3) .
  then have none: "filter (\<lambda>x. is_call x \<and> P x) (conversation (cq_Messages req)) = []" for P
    by (auto simp: filter_empty_conv)
  from chat_request_chain [OF assms(1,2,4)] obtain out where
    "ResponsesToAnthropicRequest r = Inr out" "repaired_from (conversation (cq_Messages req)) (say (aq_Messages out))" by blast
  with none show ?thesis by (auto simp: repaired_from_def)
qed

definition legacy_chat :: "chat_message list" where
  "legacy_chat =
     [zero_chat_message\<lparr>cm_Role := ''user'', cm_Content := json_quote ''hi''\<rparr>,
      zero_chat_message\<lparr>cm_Role := ''assistant'', cm_FunctionCall := Some \<lparr>cf_Name = ''get'', cf_Arguments = ''{}''\<rparr>\<rparr>,
      zero_chat_message\<lparr>cm_Role := ''function'', cm_Name := ''get'', cm_Content := json_quote ''ok''\<rparr>]"

theorem legacy_function_replies_lost_witness:
  "\<exists>r out. ChatCompletionsToResponses (chat_request legacy_chat) = Inr r \<and> ResponsesToAnthropicRequest r = Inr out \<and>
     filter is_result (conversation legacy_chat) \<noteq> [] \<and> filter is_result (stream (map turn_of (aq_Messages out))) = []"
proof -
  have wf: "list_all wf_chat_message legacy_chat" by (simp add: legacy_chat_def wf_chat_message_def)
  have "\<exists>its. convertChatMessagesToResponsesInput legacy_chat = Inr its"
    by (simp add: convertChatMessagesToResponsesInput_def legacy_chat_def chatMessageToResponsesItems_def
        chatUserToResponses_def chatAssistantToResponses_def chatFunctionToResponses_def toolOutput_def or_parse_error_def
        parseChatContent_def Let_def)
  then obtain r where r: "ChatCompletionsToResponses (chat_request legacy_chat) = Inr r" using chat_request_ok [OF _ wf] by blast
  have "list_ex (\<lambda>m. cm_Role m \<noteq> ''assistant'') legacy_chat" "list_all (\<lambda>m. cm_ToolCalls m = []) legacy_chat"
    by (simp_all add: legacy_chat_def)
  with legacy_function_replies_lost [of "chat_request legacy_chat" r] wf r obtain out where
    "ResponsesToAnthropicRequest r = Inr out" "filter is_result (stream (map turn_of (aq_Messages out))) = []" by auto
  moreover have "filter is_result (conversation legacy_chat) \<noteq> []"
    by (simp add: conversation_def legacy_chat_def chat_stream_def chat_result_block_def is_result_def isToolResult_def)
  ultimately show ?thesis using r by blast
qed

section \<open>Developer messages\<close>

lemma convertInputItem_extends: "convertInputItem acc it = Inr acc' \<Longrightarrow> \<exists>ms. snd acc' = snd acc @ ms"
  by (auto simp: convertInputItem_def addMessage_def Let_def split: if_splits option.splits)

lemma convertInputItems_extends: "convertInputItems acc its = Inr acc' \<Longrightarrow> \<exists>ms. snd acc' = snd acc @ ms"
proof (induction its arbitrary: acc)
  case (Cons it its)
  then obtain a where "convertInputItem acc it = Inr a" "convertInputItems a its = Inr acc'" by (auto split: sum.splits)
  with Cons.IH [OF this(2)] convertInputItem_extends [OF this(1)] show ?case by auto
qed simp

lemma input_text_as_block:
  assumes "valid_utf8 t" and "t \<noteq> []"
  shows "elems (parseContentBlocks (marshal_response_parts (Some [input_text_part t]))) =
    [zero_block\<lparr>blk_Type := ''input_text'', blk_Text := t\<rparr>]"
proof -
  let ?ms = "[(''type'', json_quote ''input_text''), (''text'', json_quote t)]"
  have v: "valid_utf8 ''input_text''" by (simp add: byte_def)
  have p: "marshal_response_parts (Some [input_text_part t]) = print_array [print_object ?ms]"
    using assms(2) by (simp add: marshal_response_parts_def content_part_json_def input_text_part_def omit_string_def)
  have "solid (print_object ?ms)" by (rule print_object_solid) simp
  then have "unmarshal_array (print_array [print_object ?ms]) = Some [print_object ?ms]" by (intro unmarshal_print_array) simp
  moreover have "decode_object block_field zero_block (print_object ?ms) = Some (zero_block\<lparr>blk_Type := ''input_text'', blk_Text := t\<rparr>)"
    using decode_print_object [of ?ms block_field zero_block] assms(1) v by (simp add: json_read)
  ultimately show ?thesis
    unfolding p by (simp add: parseContentBlocks_def unmarshal_blocks_def unmarshal_slice_def elems_def)
qed

text \<open>
  A developer message, in which \<open>AnthropicToResponses\<close> and Codex put the system prompt, is not
  converted back: it becomes a message of the user, with a content block of the type \<open>input_text\<close>,
  which the Anthropic API does not know.
\<close>

theorem developer_message_not_converted:
  assumes "unmarshal_string (rq_Input req) = None"
    and "unmarshal_items (rq_Input req) = Some (Some (xs @ [message_item ''developer'' [input_text_part t]] @ ys))"
    and "valid_utf8 t" and "t \<noteq> []"
  shows "\<exists>out. ResponsesToAnthropicRequest req = Inr out \<and>
    (''user'', zero_block\<lparr>blk_Type := ''input_text'', blk_Text := t\<rparr>) \<in> set (stream (map turn_of (aq_Messages out)))"
proof -
  let ?it = "message_item ''developer'' [input_text_part t]" and ?b = "zero_block\<lparr>blk_Type := ''input_text'', blk_Text := t\<rparr>"
  let ?c = "marshal_response_parts (Some [input_text_part t])"
  obtain a where a: "convertInputItems ([], []) xs = Inr a" using convertInputItems_ok by blast
  have b: "convertInputItem a ?it = Inr (fst a, snd a @ [\<lparr>am_Role = ''user'', am_Content = ?c\<rparr>])"
    using parts_not_empty by (simp add: convertInputItem_def message_item_def addMessage_def)
  obtain acc where c: "convertInputItems (fst a, snd a @ [\<lparr>am_Role = ''user'', am_Content = ?c\<rparr>]) ys = Inr acc"
    using convertInputItems_ok by blast
  from convertInputItems_extends [OF c] obtain ms where ms: "snd acc = snd a @ [\<lparr>am_Role = ''user'', am_Content = ?c\<rparr>] @ ms" by auto
  have all: "convertInputItems ([], []) (xs @ [?it] @ ys) = Inr acc" using a b c by (simp add: convertInputItems_append)
  have "compact_block ?b = ?b" by (simp add: compact_block_def)
  then have "(''user'', ?b) \<in> set (say (snd acc))"
    unfolding ms using input_text_as_block [OF assms(3,4)] by (simp add: turn_of_raw)
  moreover have "is_plain (''user'', ?b)" by (simp add: is_plain_def is_call_def is_result_def isToolResult_def)
  ultimately have "(''user'', ?b) \<in> set (filter is_plain (say (snd acc)))" by simp
  also have "filter is_plain (say (snd acc)) = filter is_plain (say (repairMessages (snd acc)))"
    using repair_repaired [of "snd acc"] by (simp add: repaired_from_def)
  finally have "(''user'', ?b) \<in> set (say (repairMessages (snd acc)))" by simp
  moreover have "convertResponsesInputToAnthropic (rq_Input req) = Inr (fst acc, repairMessages (snd acc))"
    using all by (cases acc) (simp add: convertResponsesInputToAnthropic_def assms(1,2) elems_def)
  from ResponsesToAnthropicRequest_messages [OF this] obtain out where
    "ResponsesToAnthropicRequest req = Inr out" "aq_Messages out = repairMessages (snd acc)" by blast
  ultimately show ?thesis by auto
qed

text \<open>An Anthropic request with a system prompt and no other message, there and back.\<close>

theorem developer_message_not_converted_witness:
  "\<exists>r out. AnthropicToResponses (zero_anthropic_request\<lparr>aq_System := json_quote ''be brief''\<rparr>) = Inr r \<and>
     ResponsesToAnthropicRequest r = Inr out \<and>
     (''user'', zero_block\<lparr>blk_Type := ''input_text'', blk_Text := ''be brief''\<rparr>) \<in> set (stream (map turn_of (aq_Messages out)))"
proof -
  let ?it = "message_item ''developer'' [input_text_part ''be brief'']"
  have "\<not> isAnthropicBillingHeaderText ''be brief''" by (simp add: isAnthropicBillingHeaderText_def)
  then have s: "systemItems (json_quote ''be brief'') = Inr [?it]"
    by (simp add: systemItems_def parseAnthropicSystemContentParts_def)
  have wf: "list_all wf_item [?it]"
    using seg_json_valid [OF marshal_parts_solid] by (simp add: wf_item_def message_item_def raw_ok_def byte_def)
  have c: "map compact_item [?it] = [?it]" using seg_compact [OF marshal_parts_solid] by (simp add: compact_item_def message_item_def)
  obtain t where t: "marshal_items (slice [?it]) = Some t" "unmarshal_items t = Some (Some ([] @ [?it] @ []))" "unmarshal_string t = None"
    using printed_items [OF wf] unfolding c by auto
  obtain r where r: "AnthropicToResponses (zero_anthropic_request\<lparr>aq_System := json_quote ''be brief''\<rparr>) = Inr r" "rq_Input r = t"
    using s t(1) by (simp add: AnthropicToResponses_def convertAnthropicToResponsesInput_def toolChoiceOrEmpty_def Let_def)
  from developer_message_not_converted [of r "[]" "''be brief''" "[]"] t r show ?thesis by auto
qed

end
