(* ===== verification/RequestSettings.thy ===== *)
theory RequestSettings
  imports ToResponsesRequest
begin

text \<open>
  Tools, tool choice and settings of a request on their way between the formats:
  \<open>normalizeToolParameters\<close> and what becomes of the settings of an Anthropic request that goes to
  the Responses format (\<open>AnthropicToResponses\<close>) and back (\<open>ResponsesToAnthropicRequest\<close>). The first
  lemmas say what \<open>json.Marshal\<close> makes of a map: the members sorted by key, each key once, with the
  last value stored under it.
\<close>

declare skip_val.simps [simp del] skip_elems.simps [simp del] skip_mems.simps [simp del]
declare compact_raw.simps(2) [simp del]

section \<open>Printing a map\<close>

lemma bytes_le_antisym: "bytes_le s t \<Longrightarrow> bytes_le t s \<Longrightarrow> s = t"
proof (induction s t rule: bytes_le.induct)
  case (1 t)
  then show ?case by (cases t) simp_all
qed auto

lemma bytes_le_trans: "bytes_le s t \<Longrightarrow> bytes_le t u \<Longrightarrow> bytes_le s u"
proof (induction s arbitrary: t u)
  case (Cons a s)
  then obtain b t' where t: "t = b # t'" by (cases t) auto
  with Cons.prems obtain c u' where "u = c # u'" by (cases u) auto
  with Cons t show ?case by auto
qed simp

lemma bytes_le_total: "bytes_le s t \<or> bytes_le t s"
proof (induction s t rule: bytes_le.induct)
  case (3 a s b t)
  then show ?case using byte_inject [of a b] by (auto simp del: byte_inject)
qed simp_all

definition keys_sorted :: "(string \<times> string) list \<Rightarrow> bool" where
  "keys_sorted ms \<longleftrightarrow> sorted_wrt (\<lambda>x y. bytes_le (fst x) (fst y) \<and> fst x \<noteq> fst y) ms"

lemma insert_key_keys: "fst ` set (insert_key m xs) = insert (fst m) (fst ` set xs)"
  by (induction xs) auto

lemma insert_key_members: "x \<in> set (insert_key m xs) \<Longrightarrow> x = m \<or> x \<in> set xs"
  by (induction xs) (auto split: if_splits)

lemma insert_key_sorted: "keys_sorted xs \<Longrightarrow> keys_sorted (insert_key m xs)"
proof (induction xs)
  case (Cons x xs)
  from Cons.prems have x: "\<And>y. y \<in> set xs \<Longrightarrow> bytes_le (fst x) (fst y) \<and> fst x \<noteq> fst y" and xs: "keys_sorted xs"
    by (simp_all add: keys_sorted_def)
  consider (same) "fst m = fst x" | (less) "fst m \<noteq> fst x" "bytes_le (fst m) (fst x)"
    | (more) "fst m \<noteq> fst x" "\<not> bytes_le (fst m) (fst x)" by blast
  then show ?case
  proof cases
    case same
    with x xs show ?thesis by (simp add: keys_sorted_def)
  next
    case less
    with x have "bytes_le (fst m) (fst y) \<and> fst m \<noteq> fst y" if "y \<in> set xs" for y
      using that bytes_le_trans bytes_le_antisym by metis
    with less x xs show ?thesis by (simp add: keys_sorted_def)
  next
    case more
    then have "bytes_le (fst x) (fst m)" using bytes_le_total by blast
    with more x have "bytes_le (fst x) (fst y) \<and> fst x \<noteq> fst y" if "y \<in> set (insert_key m xs)" for y
      using insert_key_members [OF that] by metis
    with more Cons.IH [OF xs] show ?thesis by (simp add: keys_sorted_def)
  qed
qed (simp add: keys_sorted_def)

lemma insert_key_lookup: "map_of (insert_key m xs) = (map_of xs)(fst m \<mapsto> snd m)"
  by (induction xs) (auto simp: fun_eq_iff)

lemma sort_fold:
  assumes "keys_sorted acc"
  shows "keys_sorted (fold insert_key ms acc) \<and> map_of (fold insert_key ms acc) = map_of acc ++ map_of (rev ms) \<and>
    set (fold insert_key ms acc) \<subseteq> set acc \<union> set ms"
  using assms
proof (induction ms arbitrary: acc)
  case (Cons m ms)
  from Cons.IH [OF insert_key_sorted [OF Cons.prems, of m]] insert_key_members [of _ m acc]
  show ?case by (auto simp: insert_key_lookup fun_eq_iff map_add_def split: option.split)
qed simp

lemma keys_sorted_distinct: "keys_sorted ms \<Longrightarrow> distinct (map fst ms)"
  by (induction ms) (auto simp: keys_sorted_def)

lemma sort_mems_props:
  "distinct (map fst (sort_mems ms))" "map_of (sort_mems ms) k = raw_get ms k" "set (sort_mems ms) \<subseteq> set ms"
  using sort_fold [of "[]" ms] keys_sorted_distinct
  by (auto simp: sort_mems_def raw_get_def keys_sorted_def)

lemma marshal_object_print: "marshal_object ms = print_object (map (\<lambda>m. (fst m, compact_raw False (snd m))) (sort_mems ms))"
  by (simp add: marshal_object_def print_object_def print_member_def o_def case_prod_unfold)

lemma map_of_distinct_rev:
  assumes "distinct (map fst xs)"
  shows "map_of (rev xs) = map_of xs"
  using assms by (induction xs) (auto simp: fun_eq_iff map_add_def dom_map_of_conv_image_fst split: option.split
      dest: map_of_SomeD, metis fst_conv image_eqI)

lemma map_of_map_values: "map_of (map (\<lambda>m. (fst m, f (snd m))) xs) k = map_option f (map_of xs k)"
  by (induction xs) auto

lemma marshal_object_read:
  assumes "list_all (\<lambda>m. raw_ok (snd m) \<and> snd m \<noteq> [] \<and> valid_utf8 (fst m)) ms"
  obtains out where "unmarshal_object (marshal_object ms) = Some out" "json_valid (marshal_object ms)"
    "\<And>k. raw_get out k = map_option (compact_raw False) (raw_get ms k)"
proof -
  let ?out = "map (\<lambda>m. (fst m, compact_raw False (snd m))) (sort_mems ms)"
  have m: "members_ok ?out"
    using assms sort_mems_props(3) [of ms] json_valid_compact by (fastforce simp: list_all_iff raw_ok_def)
  have "raw_get ?out k = map_of ?out k" for k
    using sort_mems_props(1) [of ms] map_of_distinct_rev [of ?out] by (simp add: raw_get_def o_def)
  also have "map_of ?out k = map_option (compact_raw False) (raw_get ms k)" for k
    by (simp add: map_of_map_values sort_mems_props(2))
  finally have "\<And>k. raw_get ?out k = map_option (compact_raw False) (raw_get ms k)" .
  moreover have "json_valid (marshal_object ms)"
    unfolding marshal_object_print by (rule seg_json_valid [OF print_object_solid [OF m]])
  ultimately show ?thesis using unmarshal_print_object [OF m] by (intro that [of ?out]) (simp_all add: marshal_object_print)
qed

section \<open>The schemas sent to the Responses API\<close>

text \<open>
  An object schema that is sent has \<open>properties\<close>, which the Responses API requires: whatever
  object the client gave is sent with all its members, compacted where it is printed anew, and
  \<open>properties\<close> is added when the type is object and it was missing.
\<close>

theorem tool_parameters_have_properties:
  assumes "unmarshal_object schema = Some m" and "schema \<noteq> ''null''"
  shows "\<exists>out. unmarshal_object (normalizeToolParameters schema) = Some out \<and>
    (raw_field out ''type'' = json_quote ''object'' \<or> raw_field m ''type'' = json_quote ''object'' \<longrightarrow> raw_get out ''properties'' \<noteq> None) \<and>
    (\<forall>k v. raw_get m k = Some v \<longrightarrow> (\<exists>w. raw_get out k = Some w \<and> compact_raw False w = compact_raw False v)) \<and>
    (\<forall>k. raw_get m k = None \<longrightarrow> k \<noteq> ''properties'' \<longrightarrow> raw_get out k = None)"
proof -
  have ne: "schema \<noteq> []" using assms(1) by (auto simp: unmarshal_object_def json_valid_nil)
  consider (same) "normalizeToolParameters schema = schema"
      "raw_field m ''type'' = json_quote ''object'' \<longrightarrow> raw_get m ''properties'' \<noteq> None"
    | (more) "normalizeToolParameters schema = marshal_object (m @ [(''properties'', ''{}'')])" "raw_get m ''properties'' = None"
    using assms ne
    by (cases "raw_field m ''type'' = json_quote ''object''"; cases "raw_get m ''properties''")
      (simp_all add: normalizeToolParameters_def)
  then show ?thesis
  proof cases
    case same
    with assms(1) show ?thesis by auto
  next
    case more
    have seg: "\<exists>w. seg (snd x) w" "valid_utf8 (fst x)" if "x \<in> set m" for x
      using unmarshal_object_values [OF assms(1) that] by simp_all
    have "list_all (\<lambda>x. raw_ok (snd x) \<and> snd x \<noteq> [] \<and> valid_utf8 (fst x)) (m @ [(''properties'', ''{}'')])"
      using seg seg_raw_ok seg_def by (auto simp: list_all_iff byte_def)
    from marshal_object_read [OF this] obtain out where out: "unmarshal_object (normalizeToolParameters schema) = Some out"
      "\<And>k. raw_get out k = map_option (compact_raw False) (raw_get (m @ [(''properties'', ''{}'')]) k)"
      unfolding more(1) by blast
    have get: "raw_get out ''properties'' = Some ''{}''" "k \<noteq> ''properties'' \<Longrightarrow> raw_get out k = map_option (compact_raw False) (raw_get m k)" for k
      by (simp_all add: out(2)) (simp_all add: raw_get_def)
    have "compact_raw False (compact_raw False v) = compact_raw False v" if g: "raw_get m k = Some v" for k v
    proof -
      from g have "(k, v) \<in> set m" by (auto simp: raw_get_def dest: map_of_SomeD)
      from seg(1) [OF this] show ?thesis using seg_json_valid compact_compact by auto
    qed
    with get more(2) show ?thesis
      by (intro exI [of _ out] conjI out(1) allI impI) (metis option.distinct(1) option.simps(9) option.simps(8))+
  qed
qed

text \<open>The schema of a tool without parameters, as some clients write it.\<close>

theorem tool_parameters_have_properties_witness:
  "\<exists>out. unmarshal_object (normalizeToolParameters (print_object [(''type'', json_quote ''object'')])) = Some out \<and>
     raw_get out ''type'' \<noteq> None \<and> raw_get out ''properties'' \<noteq> None"
proof -
  let ?s = "print_object [(''type'', json_quote ''object'')]"
  let ?m = "[(''type'', json_quote ''object'')]"
  have m: "unmarshal_object ?s = Some ?m" by (rule unmarshal_print_object) (simp add: byte_def)
  have "?s \<noteq> ''null''" by (simp add: print_object_def)
  from tool_parameters_have_properties [OF m this] obtain out where
    "unmarshal_object (normalizeToolParameters ?s) = Some out"
    "raw_field ?m ''type'' = json_quote ''object'' \<longrightarrow> raw_get out ''properties'' \<noteq> None"
    "\<forall>k v. raw_get ?m k = Some v \<longrightarrow> raw_get out k \<noteq> None" by blast
  moreover have "raw_get ?m ''type'' = Some (json_quote ''object'')" by (simp add: raw_get_def)
  ultimately show ?thesis by (auto simp: raw_field_def)
qed

section \<open>Settings that come back\<close>

text \<open>A tool choice as the Anthropic API writes it.\<close>

definition anthropic_choice :: "string \<Rightarrow> string \<Rightarrow> raw_message" where
  "anthropic_choice kind n =
     (if kind = ''tool'' then marshal_object [(''type'', json_quote ''tool''), (''name'', json_quote n)] else choice_type kind)"

lemma compact_quoted [simp]: "compact_raw False (json_quote s) = json_quote s"
  by (rule seg_compact) simp

lemma marshal_type_print: "marshal_object [(''type'', json_quote t)] = print_object [(''type'', json_quote t)]"
  by (simp add: marshal_object_print sort_mems_def)

lemma marshal_choice_print:
  "marshal_object [(''type'', json_quote t), (''name'', json_quote n)] = print_object [(''name'', json_quote n), (''type'', json_quote t)]"
  by (simp add: marshal_object_print sort_mems_def byte_def)

lemma lower_name: "to_lower ''name'' = ''name''" "to_lower ''function'' = ''function''"
  by (simp_all add: to_lower_Cons lower_char_id byte_def to_lower_def [of "[]"])

lemma tool_choice_keys:
  "tool_choice_field tc (''type'', v) = map_option (\<lambda>s. tc\<lparr>tch_Type := s\<rparr>) (decode_string_field v (tch_Type tc))"
  "tool_choice_field tc (''name'', v) = map_option (\<lambda>s. tc\<lparr>tch_Name := s\<rparr>) (decode_string_field v (tch_Name tc))"
  by (simp_all add: tool_choice_field_def key_eval lower_name)

lemma object_not_string: "unmarshal_string (print_object ms) = None"
  by (simp add: unmarshal_string_def print_object_def byte_def)

lemma function_choice_back:
  assumes "valid_utf8 n" and "trim_space n = n" and "n \<noteq> []"
  shows "convertResponsesToAnthropicToolChoice (marshal_object [(''type'', json_quote ''function''), (''name'', json_quote n)]) =
    anthropic_choice ''tool'' n"
proof -
  let ?p = "print_object [(''name'', json_quote n), (''type'', json_quote ''function'')]"
  have f: "valid_utf8 ''function''" by (simp add: byte_def)
  have ok: "members_ok [(''name'', json_quote n), (''type'', json_quote ''function'')]" by simp
  have "json_valid ?p" by (rule seg_json_valid [OF print_object_solid [OF ok]])
  then have "unmarshal_tool_choice ?p = Some \<lparr>tch_Type = ''function'', tch_Name = n, tch_FunctionName = []\<rparr>"
    using decode_print_object [OF ok, of tool_choice_field] assms(1) f
    by (simp add: unmarshal_tool_choice_def tool_choice_keys)
  then show ?thesis
    unfolding marshal_choice_print using assms(2,3)
    by (simp add: convertResponsesToAnthropicToolChoice_def object_not_string anthropic_choice_def marshal_choice_print)
qed

lemma anthropic_choice_read:
  assumes "valid_utf8 kind" and "valid_utf8 n" and "kind = ''tool'' \<or> kind = ''auto'' \<or> kind = ''any'' \<or> kind = ''none''"
  shows "convertAnthropicToolChoiceToResponses (anthropic_choice kind n) =
    Inr (if kind = ''auto'' then json_quote ''auto'' else if kind = ''any'' then json_quote ''required''
      else if kind = ''none'' then json_quote ''none''
      else marshal_object [(''type'', json_quote ''function''), (''name'', json_quote n)])"
proof -
  let ?f = "\<lambda>tc m. if equal_fold (fst m) ''type'' then
        map_option (\<lambda>s. tc\<lparr>tch_Type := s\<rparr>) (decode_string_field (snd m) (tch_Type tc))
      else if equal_fold (fst m) ''name'' then
        map_option (\<lambda>s. tc\<lparr>tch_Name := s\<rparr>) (decode_string_field (snd m) (tch_Name tc))
      else Some tc"
  let ?z = "\<lparr>tch_Type = [], tch_Name = [], tch_FunctionName = []\<rparr>"
  let ?ms = "(if kind = ''tool'' then [(''name'', json_quote n)] else []) @ [(''type'', json_quote kind)]"
  have ok: "members_ok ?ms" by simp
  have c: "anthropic_choice kind n = print_object ?ms"
    by (simp add: anthropic_choice_def marshal_choice_print choice_type_def marshal_type_print)
  have "decode_object ?f ?z (print_object ?ms) = decode_fields ?f ?z ?ms" by (rule decode_print_object [OF ok])
  moreover have "valid_utf8 ''tool''" by (simp add: byte_def)
  then have "decode_fields ?f ?z ?ms = Some \<lparr>tch_Type = kind, tch_Name = if kind = ''tool'' then n else [], tch_FunctionName = []\<rparr>"
    using assms(1,2) by (simp add: key_eval lower_name)
  ultimately have d: "decode_object ?f ?z (print_object ?ms) =
    Some \<lparr>tch_Type = kind, tch_Name = if kind = ''tool'' then n else [], tch_FunctionName = []\<rparr>" by (simp only:)
  have v: "json_valid (print_object ?ms)" by (rule seg_json_valid [OF print_object_solid [OF ok]])
  show ?thesis
    using assms(3) unfolding convertAnthropicToolChoiceToResponses_def c d if_P [OF v] by auto
qed

text \<open>
  The tool choice of an Anthropic request survives the way through the Responses format: every
  kind the API knows comes back as it was, with the name of the tool that is forced.
\<close>

theorem tool_choice_roundtrip:
  assumes "kind \<in> {''auto'', ''any'', ''none'', ''tool''}" and "valid_utf8 n" and "trim_space n = n" and "n \<noteq> []"
  shows "\<exists>raw. convertAnthropicToolChoiceToResponses (anthropic_choice kind n) = Inr raw \<and>
    convertResponsesToAnthropicToolChoice raw = anthropic_choice kind n"
proof -
  have kinds: "valid_utf8 ''auto''" "valid_utf8 ''any''" "valid_utf8 ''none''" "valid_utf8 ''tool''" "valid_utf8 ''required''"
    by (simp_all add: byte_def)
  with assms(1) have "valid_utf8 kind" by auto
  then have "convertAnthropicToolChoiceToResponses (anthropic_choice kind n) =
    Inr (if kind = ''auto'' then json_quote ''auto'' else if kind = ''any'' then json_quote ''required''
      else if kind = ''none'' then json_quote ''none''
      else marshal_object [(''type'', json_quote ''function''), (''name'', json_quote n)])"
    by (rule anthropic_choice_read) (use assms in auto)
  moreover have "convertResponsesToAnthropicToolChoice (json_quote ''auto'') = choice_type ''auto''"
    "convertResponsesToAnthropicToolChoice (json_quote ''required'') = choice_type ''any''"
    "convertResponsesToAnthropicToolChoice (json_quote ''none'') = choice_type ''none''"
    using kinds by (simp_all add: convertResponsesToAnthropicToolChoice_def)
  moreover note function_choice_back [OF assms(2-4)]
  ultimately show ?thesis using assms(1) by (auto simp: anthropic_choice_def)
qed

theorem tool_choice_roundtrip_witness:
  "\<exists>raw. convertAnthropicToolChoiceToResponses (anthropic_choice ''tool'' ''ls'') = Inr raw \<and>
     convertResponsesToAnthropicToolChoice raw = anthropic_choice ''tool'' ''ls''"
proof (rule tool_choice_roundtrip)
  show "trim_space ''ls'' = ''ls''"
    by (simp add: trim_space_def trim_seqs.simps [of _ "''ls''"] trim_seqs.simps [of _ "''sl''"] space_seqs_def)
qed (simp_all add: byte_def)

section \<open>The other settings\<close>

definition effort_setting :: "anthropic_request \<Rightarrow> string" where
  "effort_setting req = (case aq_OutputConfig req of Some oc \<Rightarrow> if aoc_Effort oc \<noteq> [] then aoc_Effort oc else ''medium''
     | None \<Rightarrow> ''medium'')"

definition request_effort :: "responses_request \<Rightarrow> string" where
  "request_effort r = (case rq_Reasoning r of Some x \<Rightarrow> rre_Effort x | None \<Rightarrow> [])"

lemma converted_settings:
  assumes "ResponsesToAnthropicRequest r = Inr out"
  shows "aq_Model out = rq_Model r \<and> aq_Stream out = rq_Stream r \<and> aq_Temperature out = rq_Temperature r \<and> aq_TopP out = rq_TopP r \<and>
    aq_MaxTokens out = (case rq_MaxOutputTokens r of Some n \<Rightarrow> if 0 < n then n else 8192 | None \<Rightarrow> 8192) \<and>
    length (aq_Tools out) = length (convertResponsesToAnthropicTools (rq_Tools r)) \<and>
    aq_OutputConfig out = (if request_effort r \<noteq> [] then Some \<lparr>aoc_Effort = mapResponsesEffortToAnthropic (request_effort r)\<rparr> else None) \<and>
    (aq_Thinking out \<noteq> None \<longleftrightarrow> request_effort r \<noteq> [] \<and> mapResponsesEffortToAnthropic (request_effort r) \<noteq> ''low'')"
proof -
  from assms obtain system msgs where "convertResponsesInputToAnthropic (rq_Input r) = Inr (system, msgs)"
    by (auto simp: ResponsesToAnthropicRequest_def split: sum.splits)
  with assms show ?thesis
    unfolding ResponsesToAnthropicRequest_def request_effort_def [symmetric] by (auto simp: Let_def split: option.split)
qed

text \<open>
  The settings of an Anthropic request survive the way through the Responses format: the model,
  streaming, the effort (the default for an absent one is medium, and xhigh, which is not an Anthropic level, comes
  back as max), the budget that belongs to it, the limit on tokens raised to the 128 the Responses API wants (8192
  where there was none), and the sampling settings of models that take them.
\<close>

theorem settings_roundtrip:
  assumes "AnthropicToResponses req = Inr r" and "ResponsesToAnthropicRequest r = Inr out"
  shows "aq_Model out = aq_Model req \<and> aq_Stream out = aq_Stream req \<and>
    aq_MaxTokens out = (if 0 < aq_MaxTokens req then max 128 (aq_MaxTokens req) else 8192) \<and>
    aq_OutputConfig out = Some \<lparr>aoc_Effort = (if effort_setting req = ''xhigh'' then ''max'' else effort_setting req)\<rparr> \<and>
    (aq_Thinking out = None \<longleftrightarrow> effort_setting req = ''low'') \<and>
    aq_Temperature out = (if prefix ''gpt-5'' (aq_Model req) then None else aq_Temperature req) \<and>
    aq_TopP out = (if prefix ''gpt-5'' (aq_Model req) then None else aq_TopP req) \<and>
    length (aq_Tools out) = length (aq_Tools req)"
proof -
  from assms(1) obtain input tc where r: "r = zero_responses_request\<lparr>
      rq_Model := aq_Model req, rq_Input := input, rq_Stream := aq_Stream req,
      rq_Include := encrypted_reasoning,
      rq_Temperature := (if isReasoningModel (aq_Model req) then None else aq_Temperature req),
      rq_TopP := (if isReasoningModel (aq_Model req) then None else aq_TopP req),
      rq_Store := Some False, rq_ParallelToolCalls := Some True, rq_TextVerbosity := Some ''medium'',
      rq_MaxOutputTokens := clampedOutputTokens (aq_MaxTokens req),
      rq_Tools := convertAnthropicToolsToResponses (aq_Tools req),
      rq_Reasoning := Some \<lparr>rre_Effort = mapAnthropicEffortToResponses (effort_setting req), rre_Summary = ''auto''\<rparr>,
      rq_ToolChoice := tc\<rparr>"
    by (auto simp: AnthropicToResponses_def Let_def effort_setting_def split: sum.splits option.splits)
  have e: "effort_setting req \<noteq> []" by (simp add: effort_setting_def split: option.split)
  then have m: "mapAnthropicEffortToResponses (effort_setting req) \<noteq> []"
    "mapResponsesEffortToAnthropic (mapAnthropicEffortToResponses (effort_setting req)) =
       (if effort_setting req = ''xhigh'' then ''max'' else effort_setting req)"
    by (simp_all add: mapAnthropicEffortToResponses_def mapResponsesEffortToAnthropic_def)
  have t: "length (convertResponsesToAnthropicTools (convertAnthropicToolsToResponses ts)) = length ts" for ts
    by (simp add: convertResponsesToAnthropicTools_def convertAnthropicToolsToResponses_def)
  have low: "mapResponsesEffortToAnthropic (mapAnthropicEffortToResponses e) = ''low'' \<longleftrightarrow> e = ''low''" for e
    by (simp add: mapAnthropicEffortToResponses_def mapResponsesEffortToAnthropic_def)
  note out = converted_settings [OF assms(2)]
  have f: "rq_Model r = aq_Model req" "rq_Stream r = aq_Stream req" "request_effort r = mapAnthropicEffortToResponses (effort_setting req)"
    "rq_MaxOutputTokens r = clampedOutputTokens (aq_MaxTokens req)" "rq_Tools r = convertAnthropicToolsToResponses (aq_Tools req)"
    "rq_Temperature r = (if prefix ''gpt-5'' (aq_Model req) then None else aq_Temperature req)"
    "rq_TopP r = (if prefix ''gpt-5'' (aq_Model req) then None else aq_TopP req)"
    by (simp_all add: r request_effort_def isReasoningModel_def)
  show ?thesis using out unfolding f low unfolding m(2) t
    by (cases "aq_Thinking out") (auto simp: m(1) clampedOutputTokens_def minMaxOutputTokens_def)
qed

theorem settings_roundtrip_witness:
  "\<exists>r out. AnthropicToResponses (zero_anthropic_request\<lparr>aq_Model := ''gpt-4'', aq_MaxTokens := 100, aq_OutputConfig := Some \<lparr>aoc_Effort = ''max''\<rparr>\<rparr>) = Inr r \<and>
     ResponsesToAnthropicRequest r = Inr out \<and> aq_MaxTokens out = 128 \<and> aq_OutputConfig out = Some \<lparr>aoc_Effort = ''max''\<rparr>"
proof -
  let ?req = "zero_anthropic_request\<lparr>aq_Model := ''gpt-4'', aq_MaxTokens := 100, aq_OutputConfig := Some \<lparr>aoc_Effort = ''max''\<rparr>\<rparr>"
  obtain r where r: "AnthropicToResponses ?req = Inr r" "rq_Input r = ''null''"
    by (simp add: AnthropicToResponses_def convertAnthropicToResponsesInput_def systemItems_def slice_def marshal_items_def
        marshal_slice_def toolChoiceOrEmpty_def Let_def)
  obtain out where out: "ResponsesToAnthropicRequest r = Inr out"
    by (simp add: ResponsesToAnthropicRequest_def r(2) convertResponsesInputToAnthropic_def Let_def)
  from settings_roundtrip [OF r(1) out] r out show ?thesis
    by (intro exI [of _ r] exI [of _ out]) (simp add: effort_setting_def)
qed

section \<open>Errors\<close>

text \<open>A message content that is neither a string nor an array of blocks.\<close>

definition unreadable :: "raw_message \<Rightarrow> bool" where
  "unreadable raw \<longleftrightarrow> unmarshal_string raw = None \<and> unmarshal_blocks raw = None"

lemma anthropicMsg_errors:
  "unreadable (am_Content m) \<Longrightarrow> anthropicMsgToResponsesItems m = Inl ParseContent"
  "\<not> unreadable (am_Content m) \<Longrightarrow> \<exists>its. anthropicMsgToResponsesItems m = Inr its"
  by (auto simp: anthropicMsgToResponsesItems_def anthropicUserToResponses_def anthropicAssistantToResponses_def
      unreadable_def Let_def split: option.splits)

lemma collect_items_errors:
  "if list_ex (\<lambda>m. unreadable (am_Content m)) ms then collect_items anthropicMsgToResponsesItems ms = Inl ParseContent
   else \<exists>its. collect_items anthropicMsgToResponsesItems ms = Inr its"
proof (induction ms)
  case (Cons m ms)
  show ?case
  proof (cases "unreadable (am_Content m)")
    case True
    with anthropicMsg_errors(1) show ?thesis by simp
  next
    case False
    with anthropicMsg_errors(2) obtain its where "anthropicMsgToResponsesItems m = Inr its" by blast
    with Cons.IH False show ?thesis by (cases "list_ex (\<lambda>m. unreadable (am_Content m)) ms") auto
  qed
qed simp

lemma systemItems_errors:
  "if system \<noteq> [] \<and> unreadable system then systemItems system = Inl ParseContent else \<exists>its. systemItems system = Inr its"
  by (auto simp: systemItems_def parseAnthropicSystemContentParts_def unreadable_def split: option.splits)

lemma item_contents [simp]:
  "raw_ok (it_Content (message_item role ps))" "raw_ok (it_Content (toolOutputItem b))" "raw_ok (it_Content (functionCallItem b))"
  using seg_json_valid [OF marshal_parts_solid, of ps]
  by (simp_all add: message_item_def toolOutputItem_def functionCallItem_def raw_ok_def)

lemma items_map_content: "(\<And>x. raw_ok (it_Content (f x))) \<Longrightarrow> list_all (\<lambda>it. raw_ok (it_Content it)) (map f xs)"
  by (induction xs) simp_all

lemma anthropic_item_content:
  "anthropicMsgToResponsesItems m = Inr its \<Longrightarrow> list_all (\<lambda>it. raw_ok (it_Content it)) its"
  unfolding anthropicMsgToResponsesItems_def anthropicUserToResponses_def anthropicAssistantToResponses_def Let_def
  by (auto simp: items_map_content split: option.splits if_splits)

lemma collect_items_content:
  "collect_items anthropicMsgToResponsesItems ms = Inr its \<Longrightarrow> list_all (\<lambda>it. raw_ok (it_Content it)) its"
  by (induction ms arbitrary: its) (auto dest: anthropic_item_content split: sum.splits)

lemma systemItems_content: "systemItems system = Inr its \<Longrightarrow> list_all (\<lambda>it. raw_ok (it_Content it)) its"
  by (auto simp: systemItems_def split: option.splits if_splits)

lemma marshal_items_ok:
  assumes "list_all (\<lambda>it. raw_ok (it_Content it)) its"
  shows "\<exists>t. marshal_items (slice its) = Some t"
proof -
  have "list_all (\<lambda>it. item_json it \<noteq> None) its" using assms by (auto simp: item_json_def list_all_iff)
  then show ?thesis by (simp add: marshal_items_def slice_def marshal_slice_def)
qed

text \<open>
  \<open>AnthropicToResponses\<close> fails exactly when the system prompt or a message has a content that is
  neither a string nor an array of blocks, or else the tool choice cannot be decoded; what it prints
  itself can always be printed.
\<close>

theorem anthropic_to_responses_errors:
  "AnthropicToResponses req = Inl e \<longleftrightarrow>
     (let bad = (aq_System req \<noteq> [] \<and> unreadable (aq_System req)) \<or> list_ex (\<lambda>m. unreadable (am_Content m)) (aq_Messages req)
      in e = ParseContent \<and> bad \<or>
         e = ParseToolChoice \<and> \<not> bad \<and> aq_ToolChoice req \<noteq> [] \<and>
           convertAnthropicToolChoiceToResponses (aq_ToolChoice req) = Inl ParseToolChoice)"
proof -
  let ?s = "systemItems (aq_System req)" and ?c = "collect_items anthropicMsgToResponsesItems (aq_Messages req)"
  let ?bad = "aq_System req \<noteq> [] \<and> unreadable (aq_System req) \<or> list_ex (\<lambda>m. unreadable (am_Content m)) (aq_Messages req)"
  have tc: "\<exists>v. convertAnthropicToolChoiceToResponses raw = Inr v \<or> convertAnthropicToolChoiceToResponses raw = Inl ParseToolChoice" for raw
    by (auto simp: convertAnthropicToolChoiceToResponses_def split: option.splits)
  show ?thesis
  proof (cases ?bad)
    case True
    then have "convertAnthropicToResponsesInput (aq_System req) (aq_Messages req) = Inl ParseContent"
      using systemItems_errors [of "aq_System req"] collect_items_errors [of "aq_Messages req"]
      by (cases ?s) (auto simp: convertAnthropicToResponsesInput_def split: if_splits)
    then have "AnthropicToResponses req = Inl ParseContent" by (simp add: AnthropicToResponses_def)
    with True show ?thesis by (simp only: Let_def sum.inject) blast
  next
    case False
    with systemItems_errors [of "aq_System req"] collect_items_errors [of "aq_Messages req"]
    obtain xs ys where i: "?s = Inr xs" "?c = Inr ys" by (auto split: if_splits)
    with systemItems_content collect_items_content have "list_all (\<lambda>it. raw_ok (it_Content it)) (xs @ ys)"
      by (simp only: list_all_append)
    from marshal_items_ok [OF this] obtain t where t: "marshal_items (slice (xs @ ys)) = Some t" ..
    have "AnthropicToResponses req = Inl e \<longleftrightarrow>
        toolChoiceOrEmpty (aq_ToolChoice req) convertAnthropicToolChoiceToResponses = Inl e"
      by (simp add: AnthropicToResponses_def convertAnthropicToResponsesInput_def i t Let_def split: sum.split)
    moreover have "toolChoiceOrEmpty (aq_ToolChoice req) convertAnthropicToolChoiceToResponses = Inl e \<longleftrightarrow>
        e = ParseToolChoice \<and> aq_ToolChoice req \<noteq> [] \<and> convertAnthropicToolChoiceToResponses (aq_ToolChoice req) = Inl ParseToolChoice"
      using tc [of "aq_ToolChoice req"] by (auto simp: toolChoiceOrEmpty_def)
    ultimately show ?thesis using False by (simp only: Let_def) blast
  qed
qed

end
