(* ===== verification/Redis.thy ===== *)
theory Redis
  imports GoText
begin

text \<open>
  What the gateway uses of Redis, as an interface: a record of the commands its Lua scripts and
  pipelines call, and the locale \<open>redis_laws\<close> with what the Redis documentation promises of them.
  Every command gets the clock of the server in whole seconds, as \<open>TIME\<close> returns it; a key whose
  time to live has run out is gone. \<open>map_redis\<close> is an instance over association lists.
\<close>

section \<open>The commands\<close>

text \<open>
  \<open>SCAN\<close> stands for a whole iteration with a pattern \<open>p*\<close> and yields its batches of keys.
  \<open>ZREMRANGEBYSCORE\<close> removes from minus infinity, \<open>ZRANGE\<close> is called with 0 and -1. \<open>GET\<close> is used on
  counters only.
\<close>

record 'r redis =
  ZSCORE :: "int \<Rightarrow> string \<Rightarrow> string \<Rightarrow> 'r \<Rightarrow> int option"
  ZCARD :: "int \<Rightarrow> string \<Rightarrow> 'r \<Rightarrow> int"
  ZRANGE :: "int \<Rightarrow> string \<Rightarrow> 'r \<Rightarrow> string list"
  ZADD :: "int \<Rightarrow> string \<Rightarrow> int \<Rightarrow> string \<Rightarrow> 'r \<Rightarrow> 'r"
  ZREM :: "int \<Rightarrow> string \<Rightarrow> string \<Rightarrow> 'r \<Rightarrow> 'r"
  ZREMRANGEBYSCORE :: "int \<Rightarrow> string \<Rightarrow> int \<Rightarrow> 'r \<Rightarrow> 'r"
  GET :: "int \<Rightarrow> string \<Rightarrow> 'r \<Rightarrow> int option"
  INCR :: "int \<Rightarrow> string \<Rightarrow> 'r \<Rightarrow> 'r"
  DECR :: "int \<Rightarrow> string \<Rightarrow> 'r \<Rightarrow> 'r"
  EXPIRE :: "int \<Rightarrow> string \<Rightarrow> int \<Rightarrow> 'r \<Rightarrow> 'r"
  DEL :: "int \<Rightarrow> string \<Rightarrow> 'r \<Rightarrow> 'r"
  SCAN :: "int \<Rightarrow> string \<Rightarrow> 'r \<Rightarrow> string list list"

text \<open>A key that a command left alone, from the time \<open>t\<close> on.\<close>

definition same_key :: "'r redis \<Rightarrow> int \<Rightarrow> string \<Rightarrow> 'r \<Rightarrow> 'r \<Rightarrow> bool" where
  "same_key R t k r r' \<longleftrightarrow>
     (\<forall>t'\<ge>t. (\<forall>m. ZSCORE R t' k m r' = ZSCORE R t' k m r) \<and> GET R t' k r' = GET R t' k r)"

text \<open>A key that keeps its contents until the time \<open>d\<close> when no command touches it.\<close>

definition lives :: "'r redis \<Rightarrow> int \<Rightarrow> string \<Rightarrow> int \<Rightarrow> 'r \<Rightarrow> bool" where
  "lives R t k d r \<longleftrightarrow>
     (\<forall>t'. t \<le> t' \<longrightarrow> t' < d \<longrightarrow> (\<forall>m. ZSCORE R t' k m r = ZSCORE R t k m r) \<and> GET R t' k r = GET R t k r)"

locale redis_laws =
  fixes R :: "'r redis"
  assumes zrange: "set (ZRANGE R t k r) = {m. ZSCORE R t k m r \<noteq> None}"
    and zcard: "ZCARD R t k r = int (card {m. ZSCORE R t k m r \<noteq> None})"
    and members_expire: "t \<le> t' \<Longrightarrow> ZSCORE R t' k m r = Some s \<Longrightarrow> ZSCORE R t k m r = Some s"
    and counter_expires: "t \<le> t' \<Longrightarrow> GET R t' k r = Some n \<Longrightarrow> GET R t k r = Some n"
    and zadd: "ZSCORE R t k m' (ZADD R t k s m r) = (if m' = m then Some s else ZSCORE R t k m' r)"
    and zrem: "ZSCORE R t k m' (ZREM R t k m r) = (if m' = m then None else ZSCORE R t k m' r)"
    and zremrange: "ZSCORE R t k m (ZREMRANGEBYSCORE R t k b r) =
      (case ZSCORE R t k m r of None \<Rightarrow> None | Some s \<Rightarrow> if s \<le> b then None else Some s)"
    and incr: "GET R t k (INCR R t k r) = Some (case GET R t k r of None \<Rightarrow> 1 | Some n \<Rightarrow> n + 1)"
    and decr: "GET R t k (DECR R t k r) = Some (case GET R t k r of None \<Rightarrow> - 1 | Some n \<Rightarrow> n - 1)"
    and expire: "0 < ttl \<Longrightarrow> ZSCORE R t k m (EXPIRE R t k ttl r) = ZSCORE R t k m r"
      "0 < ttl \<Longrightarrow> GET R t k (EXPIRE R t k ttl r) = GET R t k r"
      "0 < ttl \<Longrightarrow> lives R t k (t + ttl) (EXPIRE R t k ttl r)"
    and del: "ZSCORE R t k m (DEL R t k r) = None" "GET R t k (DEL R t k r) = None"
    and keeps_lives: "lives R t k d r \<Longrightarrow> lives R t k d (ZADD R t k s m r)"
      "lives R t k d r \<Longrightarrow> lives R t k d (ZREM R t k m r)"
      "lives R t k d r \<Longrightarrow> lives R t k d (ZREMRANGEBYSCORE R t k b r)"
      "lives R t k d r \<Longrightarrow> lives R t k d (INCR R t k r)"
      "lives R t k d r \<Longrightarrow> lives R t k d (DECR R t k r)"
    and other_keys: "k' \<noteq> k \<Longrightarrow> same_key R t k' r (ZADD R t k s m r)"
      "k' \<noteq> k \<Longrightarrow> same_key R t k' r (ZREM R t k m r)"
      "k' \<noteq> k \<Longrightarrow> same_key R t k' r (ZREMRANGEBYSCORE R t k b r)"
      "k' \<noteq> k \<Longrightarrow> same_key R t k' r (INCR R t k r)"
      "k' \<noteq> k \<Longrightarrow> same_key R t k' r (DECR R t k r)"
      "k' \<noteq> k \<Longrightarrow> same_key R t k' r (EXPIRE R t k ttl r)"
      "k' \<noteq> k \<Longrightarrow> same_key R t k' r (DEL R t k r)"
    and counters_apart: "GET R t k (ZADD R t k s m r) = GET R t k r" "GET R t k (ZREM R t k m r) = GET R t k r"
      "GET R t k (ZREMRANGEBYSCORE R t k b r) = GET R t k r"
    and scan: "prefix p k \<Longrightarrow> ZSCORE R t k m r \<noteq> None \<or> GET R t k r \<noteq> None \<Longrightarrow> k \<in> set (concat (SCAN R t p r))"
      "k \<in> set (concat (SCAN R t p r)) \<Longrightarrow> prefix p k"
begin

abbreviation members :: "int \<Rightarrow> string \<Rightarrow> 'r \<Rightarrow> string set" where
  "members t k r \<equiv> {m. ZSCORE R t k m r \<noteq> None}"

lemma finite_members [simp]: "finite (members t k r)"
  by (metis zrange List.finite_set)

lemma lives_score: "lives R t k d r \<Longrightarrow> t \<le> t' \<Longrightarrow> t' < d \<Longrightarrow> ZSCORE R t' k m r = ZSCORE R t k m r"
  unfolding lives_def by blast

lemma lives_counter: "lives R t k d r \<Longrightarrow> t \<le> t' \<Longrightarrow> t' < d \<Longrightarrow> GET R t' k r = GET R t k r"
  unfolding lives_def by blast

lemma lives_later: "lives R t k d r \<Longrightarrow> t \<le> t' \<Longrightarrow> lives R t' k d r"
proof -
  assume l: "lives R t k d r" and t: "t \<le> t'"
  show "lives R t' k d r"
    unfolding lives_def [of R t']
  proof (intro allI impI)
    fix u assume u: "t' \<le> u" "u < d"
    with t have "t \<le> u" "t' < d" by simp_all
    with l t u show "(\<forall>m. ZSCORE R u k m r = ZSCORE R t' k m r) \<and> GET R u k r = GET R t' k r"
      using lives_score [OF l, of u] lives_score [OF l t] lives_counter [OF l, of u] lives_counter [OF l t] by simp
  qed
qed

lemma same_score: "same_key R t k r r' \<Longrightarrow> t \<le> t' \<Longrightarrow> ZSCORE R t' k m r' = ZSCORE R t' k m r"
  unfolding same_key_def by blast

lemma same_counter: "same_key R t k r r' \<Longrightarrow> t \<le> t' \<Longrightarrow> GET R t' k r' = GET R t' k r"
  unfolding same_key_def by blast

lemma same_refl [simp]: "same_key R t k r r"
  by (simp add: same_key_def)

lemma same_trans: "same_key R t k r r' \<Longrightarrow> same_key R t k r' r'' \<Longrightarrow> same_key R t k r r''"
  unfolding same_key_def by metis

end

section \<open>An instance\<close>

record redis_map =
  rm_zsets :: "(string \<times> (string \<times> int) list \<times> int option) list"
  rm_counts :: "(string \<times> int \<times> int option) list"

text \<open>What is stored under a key, with its deadline, unless the deadline has passed.\<close>

definition in_time :: "int \<Rightarrow> int option \<Rightarrow> bool" where
  "in_time t d = (case d of None \<Rightarrow> True | Some e \<Rightarrow> t < e)"

definition stored :: "int \<Rightarrow> (string \<times> 'v \<times> int option) list \<Rightarrow> string \<Rightarrow> ('v \<times> int option) option" where
  "stored t m k = (case map_of m k of None \<Rightarrow> None | Some (v, d) \<Rightarrow> if in_time t d then Some (v, d) else None)"

definition stored_set :: "int \<Rightarrow> string \<Rightarrow> redis_map \<Rightarrow> (string \<times> int) list \<times> int option" where
  "stored_set t k r = (case stored t (rm_zsets r) k of None \<Rightarrow> ([], None) | Some x \<Rightarrow> if fst x = [] then ([], None) else x)"

text \<open>An empty sorted set is no key.\<close>

definition put_set :: "string \<Rightarrow> (string \<times> int) list \<times> int option \<Rightarrow> redis_map \<Rightarrow> redis_map" where
  "put_set k x r = r\<lparr>rm_zsets := (if fst x = [] then [] else [(k, x)]) @ filter (\<lambda>e. fst e \<noteq> k) (rm_zsets r)\<rparr>"

definition put_count :: "string \<Rightarrow> (int \<times> int option) option \<Rightarrow> redis_map \<Rightarrow> redis_map" where
  "put_count k x r = r\<lparr>rm_counts := (case x of None \<Rightarrow> [] | Some y \<Rightarrow> [(k, y)]) @ filter (\<lambda>e. fst e \<noteq> k) (rm_counts r)\<rparr>"

definition add_count :: "int \<Rightarrow> int \<Rightarrow> string \<Rightarrow> redis_map \<Rightarrow> redis_map" where
  "add_count i t k r =
     put_count k (Some (case stored t (rm_counts r) k of None \<Rightarrow> (i, None) | Some (n, d) \<Rightarrow> (n + i, d))) r"

definition map_redis :: "redis_map redis" where
  "map_redis =
     \<lparr>ZSCORE = (\<lambda>t k m r. map_of (fst (stored_set t k r)) m),
      ZCARD = (\<lambda>t k r. int (length (remdups (map fst (fst (stored_set t k r)))))),
      ZRANGE = (\<lambda>t k r. map fst (fst (stored_set t k r))),
      ZADD = (\<lambda>t k s m r. put_set k ((m, s) # fst (stored_set t k r), snd (stored_set t k r)) r),
      ZREM = (\<lambda>t k m r. put_set k (filter (\<lambda>x. fst x \<noteq> m) (fst (stored_set t k r)), snd (stored_set t k r)) r),
      ZREMRANGEBYSCORE = (\<lambda>t k b r. put_set k
        (filter (\<lambda>x. map_of (fst (stored_set t k r)) (fst x) = Some (snd x) \<and> b < snd x) (fst (stored_set t k r)),
         snd (stored_set t k r)) r),
      GET = (\<lambda>t k r. map_option fst (stored t (rm_counts r) k)),
      INCR = add_count 1,
      DECR = add_count (- 1),
      EXPIRE = (\<lambda>t k ttl r. put_set k (fst (stored_set t k r), Some (t + ttl))
        (put_count k (map_option (\<lambda>x. (fst x, Some (t + ttl))) (stored t (rm_counts r) k)) r)),
      DEL = (\<lambda>t k r. put_set k ([], None) (put_count k None r)),
      SCAN = (\<lambda>t p r. [filter (prefix p) (map fst (rm_zsets r) @ map fst (rm_counts r))])\<rparr>"

lemma stored_put [simp]:
  "stored t (rm_zsets (put_set k x r)) k' =
     (if k' = k then (if fst x = [] then None else if in_time t (snd x) then Some x else None) else stored t (rm_zsets r) k')"
  "stored t (rm_counts (put_count k y r)) k' =
     (if k' = k then (case y of None \<Rightarrow> None | Some z \<Rightarrow> if in_time t (snd z) then Some z else None) else stored t (rm_counts r) k')"
  "rm_counts (put_set k x r) = rm_counts r" "rm_zsets (put_count k y r) = rm_zsets r"
proof -
  have f: "map_of (filter (\<lambda>e. fst e \<noteq> k) m) k'' = (if k'' = k then None else map_of m k'')" for m :: "(string \<times> 'v) list" and k''
    by (induction m) auto
  show "stored t (rm_zsets (put_set k x r)) k' =
     (if k' = k then (if fst x = [] then None else if in_time t (snd x) then Some x else None) else stored t (rm_zsets r) k')"
    by (cases x) (simp add: stored_def put_set_def f split: option.split)
  show "stored t (rm_counts (put_count k y r)) k' =
     (if k' = k then (case y of None \<Rightarrow> None | Some z \<Rightarrow> if in_time t (snd z) then Some z else None) else stored t (rm_counts r) k')"
    by (cases y) (auto simp: stored_def put_count_def f split: option.split)
qed (simp_all add: put_set_def put_count_def)

lemma set_put:
  "stored_set t k' (put_set k x r) = (if k' = k then (if in_time t (snd x) then (if fst x = [] then ([], None) else x) else ([], None))
     else stored_set t k' r)"
  "stored_set t k' (put_count k y r) = stored_set t k' r"
  by (cases x; simp add: stored_set_def)+

lemma stored_earlier: "t \<le> t' \<Longrightarrow> stored t' m k = Some x \<Longrightarrow> stored t m k = Some x"
  by (auto simp: stored_def in_time_def split: option.splits if_splits)

lemma stored_in_time: "stored t m k = Some x \<Longrightarrow> in_time t (snd x)"
  by (auto simp: stored_def split: option.splits if_splits)

lemma set_in_time: "in_time t (snd (stored_set t k r))"
proof (cases "stored t (rm_zsets r) k")
  case (Some x)
  then show ?thesis using stored_in_time [OF Some] by (simp add: stored_set_def) (simp add: in_time_def)
qed (simp add: stored_set_def in_time_def)

lemma map_commands:
  "ZADD map_redis t k s m r = put_set k ((m, s) # fst (stored_set t k r), snd (stored_set t k r)) r"
  "ZREM map_redis t k m r = put_set k (filter (\<lambda>x. fst x \<noteq> m) (fst (stored_set t k r)), snd (stored_set t k r)) r"
  "ZREMRANGEBYSCORE map_redis t k b r = put_set k
     (filter (\<lambda>x. map_of (fst (stored_set t k r)) (fst x) = Some (snd x) \<and> b < snd x) (fst (stored_set t k r)), snd (stored_set t k r)) r"
  "INCR map_redis t k r = add_count 1 t k r" "DECR map_redis t k r = add_count (- 1) t k r"
  "EXPIRE map_redis t k ttl r = put_set k (fst (stored_set t k r), Some (t + ttl))
     (put_count k (map_option (\<lambda>x. (fst x, Some (t + ttl))) (stored t (rm_counts r) k)) r)"
  "DEL map_redis t k r = put_set k ([], None) (put_count k None r)"
  "SCAN map_redis t p r = [filter (prefix p) (map fst (rm_zsets r) @ map fst (rm_counts r))]"
  by (simp_all add: map_redis_def)

text \<open>The members a sorted set shows.\<close>

lemma map_score: "ZSCORE map_redis t k m r = map_of (fst (stored_set t k r)) m"
  by (simp add: map_redis_def)

lemma map_get: "GET map_redis t k r = map_option fst (stored t (rm_counts r) k)"
  by (simp add: map_redis_def)

lemma map_of_visible:
  "map_of (filter (\<lambda>x. map_of xs (fst x) = Some (snd x) \<and> b < snd x) xs) m =
     (case map_of xs m of None \<Rightarrow> None | Some s \<Rightarrow> if s \<le> (b::int) then None else Some s)"
proof -
  have "map_of (filter (\<lambda>x. V (fst x) = Some (snd x) \<and> b < snd x) ys) m =
      (case V m of None \<Rightarrow> None | Some s \<Rightarrow> if s \<le> b then None else if (m, s) \<in> set ys then Some s else None)" for V ys
    by (induction ys) (auto split: option.splits)
  then show ?thesis by (auto split: option.split dest: map_of_SomeD)
qed

lemma map_of_removed: "map_of (filter (\<lambda>x. fst x \<noteq> m) xs) m' = (if m' = m then None else map_of xs m')"
  by (induction xs) auto

lemma map_members: "{m. ZSCORE map_redis t k m r \<noteq> None} = fst ` set (fst (stored_set t k r))"
  by (simp add: map_score map_of_eq_None_iff [symmetric] set_eq_iff) (metis map_of_eq_None_iff option.distinct(1) not_None_eq)

text \<open>Nothing but the deadline takes a key away.\<close>

lemma map_lives:
  "lives map_redis t k d r \<longleftrightarrow> (\<forall>t'. t \<le> t' \<longrightarrow> t' < d \<longrightarrow>
     map_of (fst (stored_set t' k r)) = map_of (fst (stored_set t k r)) \<and>
     map_option fst (stored t' (rm_counts r) k) = map_option fst (stored t (rm_counts r) k))"
  by (simp only: lives_def map_score map_get fun_eq_iff)

lemma set_later:
  assumes "t \<le> t'"
  shows "stored_set t' k r = (if in_time t' (snd (stored_set t k r)) then stored_set t k r else ([], None))"
proof (cases "map_of (rm_zsets r) k")
  case (Some x)
  with assms show ?thesis by (cases x) (auto simp: stored_set_def stored_def in_time_def split: option.splits)
qed (simp add: stored_set_def stored_def)

lemma count_later:
  "t \<le> t' \<Longrightarrow> stored t' m k = (case stored t m k of None \<Rightarrow> None | Some x \<Rightarrow> if in_time t' (snd x) then Some x else None)"
  by (auto simp: stored_def in_time_def split: option.splits if_splits)

lemma map_of_Nil_iff: "map_of xs = Map.empty \<longleftrightarrow> xs = []"
  by (cases xs) (auto simp: fun_eq_iff)

lemma lives_deadline:
  assumes "lives map_redis t k d r" and "t \<le> t'" and "t' < d"
  shows "fst (stored_set t k r) \<noteq> [] \<Longrightarrow> in_time t' (snd (stored_set t k r))"
    and "stored t (rm_counts r) k = Some x \<Longrightarrow> in_time t' (snd x)"
  using assms set_later [OF assms(2), of k r] count_later [OF assms(2), of "rm_counts r" k]
  by (auto simp: map_lives map_of_Nil_iff split: if_splits)

lemma put_set_lives:
  assumes "lives map_redis t k d r" and "snd x = snd (stored_set t k r)" and "fst (stored_set t k r) = [] \<Longrightarrow> snd x = None"
  shows "lives map_redis t k d (put_set k x r)"
proof -
  have "in_time t' (snd x)" if "t \<le> t'" "t' < d" for t'
    using lives_deadline(1) [OF assms(1) that] assms(2,3) by (cases "fst (stored_set t k r) = []") (auto simp: in_time_def)
  note i = this
  show ?thesis
    unfolding map_lives
  proof (intro allI impI)
    fix t' assume t': "t \<le> t'" "t' < d"
    have "map_option fst (stored t' (rm_counts r) k) = map_option fst (stored t (rm_counts r) k)"
      using assms(1) t' unfolding map_lives by blast
    with i [OF t'] i [of t] t' show "map_of (fst (stored_set t' k (put_set k x r))) = map_of (fst (stored_set t k (put_set k x r))) \<and>
        map_option fst (stored t' (rm_counts (put_set k x r)) k) = map_option fst (stored t (rm_counts (put_set k x r)) k)"
      by (simp add: set_put)
  qed
qed

lemma empty_set_deadline: "fst (stored_set t k r) = [] \<Longrightarrow> snd (stored_set t k r) = None"
  by (auto simp: stored_set_def split: option.split)

lemma put_count_lives:
  assumes "lives map_redis t k d r" and i: "\<And>t'. t \<le> t' \<Longrightarrow> t' < d \<Longrightarrow> in_time t' (snd x)"
  shows "lives map_redis t k d (put_count k (Some x) r)"
  unfolding map_lives
proof (intro allI impI)
  fix t' assume t': "t \<le> t'" "t' < d"
  then have "in_time t (snd x)" using i [of t] by simp
  moreover have "map_of (fst (stored_set t' k r)) = map_of (fst (stored_set t k r))"
    using assms(1) t' unfolding map_lives by blast
  ultimately show "map_of (fst (stored_set t' k (put_count k (Some x) r))) = map_of (fst (stored_set t k (put_count k (Some x) r))) \<and>
      map_option fst (stored t' (rm_counts (put_count k (Some x) r)) k) = map_option fst (stored t (rm_counts (put_count k (Some x) r)) k)"
    using i [OF t'] by (simp add: set_put)
qed

lemma add_count_lives:
  assumes "lives map_redis t k d r"
  shows "lives map_redis t k d (add_count i t k r)"
  unfolding add_count_def
proof (rule put_count_lives [OF assms])
  fix t' assume t': "t \<le> t'" "t' < d"
  show "in_time t' (snd (case stored t (rm_counts r) k of None \<Rightarrow> (i, None) | Some (n, d) \<Rightarrow> (n + i, d)))"
  proof (cases "stored t (rm_counts r) k")
    case (Some x)
    with lives_deadline(2) [OF assms t' Some] show ?thesis by (cases x) simp
  qed (simp add: in_time_def)
qed

lemma score_put: "map_of (fst (stored_set t k (put_set k x r))) = (if in_time t (snd x) then map_of (fst x) else Map.empty)"
  by (simp add: set_put)

lemma stored_keys: "stored t m k \<noteq> None \<Longrightarrow> k \<in> fst ` set m"
proof (cases "map_of m k")
  case (Some x)
  from map_of_SomeD [OF this] show ?thesis by force
qed (simp add: stored_def)

lemma map_same_key: "same_key map_redis t k r r' \<longleftrightarrow> (\<forall>t'\<ge>t. map_of (fst (stored_set t' k r')) = map_of (fst (stored_set t' k r)) \<and>
    map_option fst (stored t' (rm_counts r') k) = map_option fst (stored t' (rm_counts r) k))"
  by (simp only: same_key_def map_score map_get fun_eq_iff)

interpretation mr: redis_laws map_redis
proof (unfold_locales, goal_cases)
  case (1 t k r)
  show ?case unfolding map_members by (simp add: map_redis_def)
next
  case (2 t k r)
  have "card (fst ` set xs) = length (remdups (map fst xs))" for xs :: "(string \<times> int) list"
    by (metis list.set_map length_remdups_card_conv)
  then show ?case unfolding map_members by (simp add: map_redis_def)
next
  case (3 t t' k m r s)
  then show ?case using set_later [of t t' k r] by (auto simp: map_score split: if_splits)
next
  case (4 t t' k r n)
  then show ?case using count_later [of t t' "rm_counts r" k] by (auto simp: map_get split: option.splits if_splits)
next
  case (5 t k m' s m r)
  show ?case using set_in_time [of t k r] by (simp add: map_score) (simp add: map_commands score_put)
next
  case (6 t k m' m r)
  show ?case using set_in_time [of t k r] by (simp add: map_score) (simp add: map_commands score_put map_of_removed)
next
  case (7 t k m b r)
  show ?case using set_in_time [of t k r]
    by (simp add: map_score) (simp add: map_commands score_put map_of_visible)
next
  case (8 t k r)
  show ?case using stored_in_time [of t "rm_counts r" k]
    by (auto simp: map_get map_commands add_count_def in_time_def split: option.split)
next
  case (9 t k r)
  show ?case using stored_in_time [of t "rm_counts r" k]
    by (auto simp: map_get map_commands add_count_def in_time_def split: option.split)
next
  case (10 ttl t k m r)
  then show ?case by (simp add: map_score) (simp add: map_commands set_put in_time_def)
next
  case (11 ttl t k r)
  then show ?case by (simp add: map_get) (auto simp: map_commands in_time_def split: option.split)
next
  case (12 ttl t k r)
  then show ?case by (simp add: map_lives) (auto simp: map_commands set_put in_time_def split: option.split)
next
  case (13 t k m r)
  then show ?case by (simp add: map_score) (simp add: map_commands set_put in_time_def)
next
  case (14 t k r)
  then show ?case by (simp add: map_get) (simp add: map_commands)
next
  case (15 t k d r s m)
  then show ?case unfolding map_commands by (rule put_set_lives) (simp_all add: empty_set_deadline)
next
  case (16 t k d r m)
  then show ?case unfolding map_commands by (rule put_set_lives) (simp_all add: empty_set_deadline)
next
  case (17 t k d r b)
  then show ?case unfolding map_commands by (rule put_set_lives) (simp_all add: empty_set_deadline)
next
  case (30 p k t m r)
  then show ?case unfolding map_commands map_score map_get
    using stored_keys [of t "rm_zsets r" k] stored_keys [of t "rm_counts r" k]
    by (auto simp: stored_set_def split: option.splits)
next
  case (31 k t p r)
  then show ?case by (auto simp: map_commands)
qed (simp_all add: map_commands map_same_key set_put add_count_lives, simp_all add: add_count_def map_get map_same_key set_put)

end
