(* ===== verification/ConcurrencyCache.thy ===== *)
theory ConcurrencyCache
  imports Redis "HOL-Library.Signed_Division"
begin

text \<open>
  \<open>repository/concurrency_cache.go\<close>: the slots and wait queues of accounts and users in Redis. Each
  Lua script and each pipeline is an operation over the Redis interface, under the name it has in the
  source; the clock of the Redis server is an argument. The properties show that the sorted set of a
  key counts exactly the grants of the last \<open>ttl\<close> seconds that were not released, and that these
  never exceed the limit.
\<close>

section \<open>Keys\<close>

definition accountSlotKeyPrefix :: string where "accountSlotKeyPrefix = ''concurrency:account:''"

definition userSlotKeyPrefix :: string where "userSlotKeyPrefix = ''concurrency:user:''"

definition waitQueueKeyPrefix :: string where "waitQueueKeyPrefix = ''concurrency:wait:''"

definition accountWaitKeyPrefix :: string where "accountWaitKeyPrefix = ''wait:account:''"

definition accountSlotKey :: "int \<Rightarrow> string" where
  "accountSlotKey accountID = accountSlotKeyPrefix @ itoa accountID"

definition userSlotKey :: "int \<Rightarrow> string" where
  "userSlotKey userID = userSlotKeyPrefix @ itoa userID"

definition waitQueueKey :: "int \<Rightarrow> string" where
  "waitQueueKey userID = waitQueueKeyPrefix @ itoa userID"

definition accountWaitKey :: "int \<Rightarrow> string" where
  "accountWaitKey accountID = accountWaitKeyPrefix @ itoa accountID"

section \<open>Scripts\<close>

definition acquireScript :: "'r redis \<Rightarrow> int \<Rightarrow> string \<Rightarrow> int \<Rightarrow> int \<Rightarrow> string \<Rightarrow> 'r \<Rightarrow> 'r \<times> int" where
  "acquireScript R now key maxConcurrency ttl requestID r =
     (let r1 = ZREMRANGEBYSCORE R now key (now - ttl) r in
      if ZSCORE R now key requestID r1 \<noteq> None then
        (EXPIRE R now key ttl (ZADD R now key now requestID r1), 1)
      else if ZCARD R now key r1 < maxConcurrency then
        (EXPIRE R now key ttl (ZADD R now key now requestID r1), 1)
      else (r1, 0))"

definition getCountScript :: "'r redis \<Rightarrow> int \<Rightarrow> string \<Rightarrow> int \<Rightarrow> 'r \<Rightarrow> 'r \<times> int" where
  "getCountScript R now key ttl r =
     (let r1 = ZREMRANGEBYSCORE R now key (now - ttl) r in (r1, ZCARD R now key r1))"

definition incrementWaitScript :: "'r redis \<Rightarrow> int \<Rightarrow> string \<Rightarrow> int \<Rightarrow> int \<Rightarrow> 'r \<Rightarrow> 'r \<times> int" where
  "incrementWaitScript R now key maxWait ttl r =
     (let current = (case GET R now key r of None \<Rightarrow> 0 | Some n \<Rightarrow> n) in
      if maxWait \<le> current then (r, 0)
      else (EXPIRE R now key ttl (INCR R now key r), 1))"

text \<open>The source has a second copy of this script for the queues of accounts.\<close>

definition incrementAccountWaitScript :: "'r redis \<Rightarrow> int \<Rightarrow> string \<Rightarrow> int \<Rightarrow> int \<Rightarrow> 'r \<Rightarrow> 'r \<times> int" where
  "incrementAccountWaitScript R now key maxWait ttl r = incrementWaitScript R now key maxWait ttl r"

definition decrementWaitScript :: "'r redis \<Rightarrow> int \<Rightarrow> string \<Rightarrow> 'r \<Rightarrow> 'r" where
  "decrementWaitScript R now key r =
     (case GET R now key r of None \<Rightarrow> r | Some n \<Rightarrow> if 0 < n then DECR R now key r else r)"

definition cleanupExpiredSlotsScript :: "'r redis \<Rightarrow> int \<Rightarrow> string \<Rightarrow> int \<Rightarrow> 'r \<Rightarrow> 'r" where
  "cleanupExpiredSlotsScript R now key ttl r =
     (let r1 = ZREMRANGEBYSCORE R now key (now - ttl) r in
      if ZCARD R now key r1 = 0 then DEL R now key r1 else EXPIRE R now key ttl r1)"

text \<open>The inner loop of \<open>startupCleanupScript\<close> over the members of one key, its outer loop over the keys.\<close>

fun dropMembers :: "'r redis \<Rightarrow> int \<Rightarrow> string \<Rightarrow> string \<Rightarrow> string list \<Rightarrow> 'r \<times> int \<Rightarrow> 'r \<times> int" where
  "dropMembers R now key activePrefix [] acc = acc"
| "dropMembers R now key activePrefix (m # ms) (r, removed) =
     dropMembers R now key activePrefix ms
       (if take (length activePrefix) m \<noteq> activePrefix
        then (ZREM R now key m r, removed + (if ZSCORE R now key m r = None then 0 else 1)) else (r, removed))"

definition cleanupKey :: "'r redis \<Rightarrow> int \<Rightarrow> string \<Rightarrow> int \<Rightarrow> string \<Rightarrow> 'r \<times> int \<Rightarrow> 'r \<times> int" where
  "cleanupKey R now activePrefix ttl key acc =
     (let (r, removed) = dropMembers R now key activePrefix (ZRANGE R now key (fst acc)) acc in
      (if ZCARD R now key r = 0 then DEL R now key r else EXPIRE R now key ttl r, removed))"

definition startupCleanupScript :: "'r redis \<Rightarrow> int \<Rightarrow> string list \<Rightarrow> string \<Rightarrow> int \<Rightarrow> 'r \<Rightarrow> 'r \<times> int" where
  "startupCleanupScript R now keys activePrefix ttl r = fold (cleanupKey R now activePrefix ttl) keys (r, 0)"

section \<open>The cache\<close>

record cache_config =
  slotTTLSeconds :: int
  waitQueueTTLSeconds :: int

definition NewConcurrencyCache :: "int \<Rightarrow> int \<Rightarrow> cache_config" where
  "NewConcurrencyCache slotTTLMinutes waitTTL =
     (let minutes = (if slotTTLMinutes \<le> 0 then 15 else slotTTLMinutes)
      in \<lparr>slotTTLSeconds = minutes * 60, waitQueueTTLSeconds = (if waitTTL \<le> 0 then minutes * 60 else waitTTL)\<rparr>)"

definition AcquireAccountSlot :: "'r redis \<Rightarrow> cache_config \<Rightarrow> int \<Rightarrow> int \<Rightarrow> int \<Rightarrow> string \<Rightarrow> 'r \<Rightarrow> 'r \<times> bool" where
  "AcquireAccountSlot R c now accountID maxConcurrency requestID r =
     (let (r', res) = acquireScript R now (accountSlotKey accountID) maxConcurrency (slotTTLSeconds c) requestID r
      in (r', res = 1))"

definition ReleaseAccountSlot :: "'r redis \<Rightarrow> int \<Rightarrow> int \<Rightarrow> string \<Rightarrow> 'r \<Rightarrow> 'r" where
  "ReleaseAccountSlot R now accountID requestID r = ZREM R now (accountSlotKey accountID) requestID r"

definition GetAccountConcurrency :: "'r redis \<Rightarrow> cache_config \<Rightarrow> int \<Rightarrow> int \<Rightarrow> 'r \<Rightarrow> 'r \<times> int" where
  "GetAccountConcurrency R c now accountID r = getCountScript R now (accountSlotKey accountID) (slotTTLSeconds c) r"

definition AcquireUserSlot :: "'r redis \<Rightarrow> cache_config \<Rightarrow> int \<Rightarrow> int \<Rightarrow> int \<Rightarrow> string \<Rightarrow> 'r \<Rightarrow> 'r \<times> bool" where
  "AcquireUserSlot R c now userID maxConcurrency requestID r =
     (let (r', res) = acquireScript R now (userSlotKey userID) maxConcurrency (slotTTLSeconds c) requestID r
      in (r', res = 1))"

definition ReleaseUserSlot :: "'r redis \<Rightarrow> int \<Rightarrow> int \<Rightarrow> string \<Rightarrow> 'r \<Rightarrow> 'r" where
  "ReleaseUserSlot R now userID requestID r = ZREM R now (userSlotKey userID) requestID r"

definition GetUserConcurrency :: "'r redis \<Rightarrow> cache_config \<Rightarrow> int \<Rightarrow> int \<Rightarrow> 'r \<Rightarrow> 'r \<times> int" where
  "GetUserConcurrency R c now userID r = getCountScript R now (userSlotKey userID) (slotTTLSeconds c) r"

definition IncrementWaitCount :: "'r redis \<Rightarrow> cache_config \<Rightarrow> int \<Rightarrow> int \<Rightarrow> int \<Rightarrow> 'r \<Rightarrow> 'r \<times> bool" where
  "IncrementWaitCount R c now userID maxWait r =
     (let (r', res) = incrementWaitScript R now (waitQueueKey userID) maxWait (waitQueueTTLSeconds c) r in (r', res = 1))"

definition DecrementWaitCount :: "'r redis \<Rightarrow> int \<Rightarrow> int \<Rightarrow> 'r \<Rightarrow> 'r" where
  "DecrementWaitCount R now userID r = decrementWaitScript R now (waitQueueKey userID) r"

definition IncrementAccountWaitCount :: "'r redis \<Rightarrow> cache_config \<Rightarrow> int \<Rightarrow> int \<Rightarrow> int \<Rightarrow> 'r \<Rightarrow> 'r \<times> bool" where
  "IncrementAccountWaitCount R c now accountID maxWait r =
     (let (r', res) = incrementAccountWaitScript R now (accountWaitKey accountID) maxWait (waitQueueTTLSeconds c) r in (r', res = 1))"

definition DecrementAccountWaitCount :: "'r redis \<Rightarrow> int \<Rightarrow> int \<Rightarrow> 'r \<Rightarrow> 'r" where
  "DecrementAccountWaitCount R now accountID r = decrementWaitScript R now (accountWaitKey accountID) r"

definition GetAccountWaitingCount :: "'r redis \<Rightarrow> int \<Rightarrow> int \<Rightarrow> 'r \<Rightarrow> int" where
  "GetAccountWaitingCount R now accountID r =
     (case GET R now (accountWaitKey accountID) r of None \<Rightarrow> 0 | Some n \<Rightarrow> n)"

text \<open>The pipelines: one pass over the identifiers, with one reading of the clock.\<close>

fun GetAccountConcurrencyBatch :: "'r redis \<Rightarrow> cache_config \<Rightarrow> int \<Rightarrow> int list \<Rightarrow> 'r \<Rightarrow> 'r \<times> (int \<rightharpoonup> int)" where
  "GetAccountConcurrencyBatch R c now [] r = (r, Map.empty)"
| "GetAccountConcurrencyBatch R c now (i # ids) r =
     (let (r1, n) = getCountScript R now (accountSlotKey i) (slotTTLSeconds c) r;
          (r2, m) = GetAccountConcurrencyBatch R c now ids r1
      in (r2, (Map.empty(i \<mapsto> n)) ++ m))"

record load_info =
  li_ID :: int
  li_CurrentConcurrency :: int
  li_WaitingCount :: int
  li_LoadRate :: int

definition loadInfo :: "int \<Rightarrow> int \<Rightarrow> int \<Rightarrow> int \<Rightarrow> load_info" where
  "loadInfo i maxConcurrency currentConcurrency waitingCount =
     \<lparr>li_ID = i, li_CurrentConcurrency = currentConcurrency, li_WaitingCount = waitingCount,
      li_LoadRate = (if 0 < maxConcurrency then (currentConcurrency + waitingCount) * 100 sdiv maxConcurrency else 0)\<rparr>"

fun loadBatch :: "'r redis \<Rightarrow> cache_config \<Rightarrow> int \<Rightarrow> (int \<Rightarrow> string) \<Rightarrow> (int \<Rightarrow> string) \<Rightarrow> (int \<times> int) list \<Rightarrow> 'r \<Rightarrow>
    'r \<times> (int \<rightharpoonup> load_info)" where
  "loadBatch R c now slotKey waitKey [] r = (r, Map.empty)"
| "loadBatch R c now slotKey waitKey ((i, maxConcurrency) # accs) r =
     (let (r1, n) = getCountScript R now (slotKey i) (slotTTLSeconds c) r;
          waiting = (case GET R now (waitKey i) r1 of None \<Rightarrow> 0 | Some w \<Rightarrow> w);
          (r2, m) = loadBatch R c now slotKey waitKey accs r1
      in (r2, (Map.empty(i \<mapsto> loadInfo i maxConcurrency n waiting)) ++ m))"

definition GetAccountsLoadBatch :: "'r redis \<Rightarrow> cache_config \<Rightarrow> int \<Rightarrow> (int \<times> int) list \<Rightarrow> 'r \<Rightarrow> 'r \<times> (int \<rightharpoonup> load_info)" where
  "GetAccountsLoadBatch R c now accounts r = loadBatch R c now accountSlotKey accountWaitKey accounts r"

definition GetUsersLoadBatch :: "'r redis \<Rightarrow> cache_config \<Rightarrow> int \<Rightarrow> (int \<times> int) list \<Rightarrow> 'r \<Rightarrow> 'r \<times> (int \<rightharpoonup> load_info)" where
  "GetUsersLoadBatch R c now users r = loadBatch R c now userSlotKey waitQueueKey users r"

definition CleanupExpiredAccountSlots :: "'r redis \<Rightarrow> cache_config \<Rightarrow> int \<Rightarrow> int \<Rightarrow> 'r \<Rightarrow> 'r" where
  "CleanupExpiredAccountSlots R c now accountID r =
     cleanupExpiredSlotsScript R now (accountSlotKey accountID) (slotTTLSeconds c) r"

definition cleanupSlotsByPattern :: "'r redis \<Rightarrow> cache_config \<Rightarrow> int \<Rightarrow> string \<Rightarrow> string \<Rightarrow> 'r \<Rightarrow> 'r" where
  "cleanupSlotsByPattern R c now pat activePrefix r =
     fold (\<lambda>keys r. if keys \<noteq> [] then fst (startupCleanupScript R now keys activePrefix (slotTTLSeconds c) r) else r)
       (SCAN R now pat r) r"

definition deleteKeysByPattern :: "'r redis \<Rightarrow> int \<Rightarrow> string \<Rightarrow> 'r \<Rightarrow> 'r" where
  "deleteKeysByPattern R now pat r =
     fold (\<lambda>keys r. if keys \<noteq> [] then fold (DEL R now) keys r else r) (SCAN R now pat r) r"

definition CleanupStaleProcessSlots :: "'r redis \<Rightarrow> cache_config \<Rightarrow> int \<Rightarrow> string \<Rightarrow> 'r \<Rightarrow> 'r" where
  "CleanupStaleProcessSlots R c now activeRequestPrefix r =
     (if activeRequestPrefix = [] then r
      else (let r1 = cleanupSlotsByPattern R c now accountSlotKeyPrefix activeRequestPrefix r;
                r2 = cleanupSlotsByPattern R c now userSlotKeyPrefix activeRequestPrefix r1;
                r3 = deleteKeysByPattern R now accountWaitKeyPrefix r2
            in deleteKeysByPattern R now waitQueueKeyPrefix r3))"

section \<open>Histories of one key\<close>

text \<open>
  What callers do with the slots of one key, each with the clock it happens at. The second
  component of the state is the history: the requests that were granted a slot, at which time, and
  did not release it.
\<close>

datatype slot_op = OpAcquire string int | OpRelease string | OpCount | OpCleanup

type_synonym grants = "string \<rightharpoonup> int"

fun slotStep :: "'r redis \<Rightarrow> string \<Rightarrow> int \<Rightarrow> int \<times> slot_op \<Rightarrow> 'r \<times> grants \<Rightarrow> 'r \<times> grants" where
  "slotStep R key ttl (now, OpAcquire i maxConcurrency) (r, g) =
     (let (r', res) = acquireScript R now key maxConcurrency ttl i r in (r', if res = 1 then g(i \<mapsto> now) else g))"
| "slotStep R key ttl (now, OpRelease i) (r, g) = (ZREM R now key i r, g(i := None))"
| "slotStep R key ttl (now, OpCount) (r, g) = (fst (getCountScript R now key ttl r), g)"
| "slotStep R key ttl (now, OpCleanup) (r, g) = (cleanupExpiredSlotsScript R now key ttl r, g)"

definition slotRun :: "'r redis \<Rightarrow> string \<Rightarrow> int \<Rightarrow> (int \<times> slot_op) list \<Rightarrow> 'r \<times> grants \<Rightarrow> 'r \<times> grants" where
  "slotRun R key ttl ops s = fold (slotStep R key ttl) ops s"

text \<open>The requests that hold a slot at a time: granted less than \<open>ttl\<close> seconds ago and not released.\<close>

definition holders :: "int \<Rightarrow> int \<Rightarrow> grants \<Rightarrow> string set" where
  "holders ttl now g = {m. \<exists>s. g m = Some s \<and> now - s < ttl}"

text \<open>The times do not go back, and no limit is above \<open>n\<close>.\<close>

fun in_order :: "int \<Rightarrow> (int \<times> slot_op) list \<Rightarrow> int \<Rightarrow> bool" where
  "in_order t [] now = (t \<le> now)"
| "in_order t ((u, op) # ops) now = (t \<le> u \<and> in_order u ops now)"

definition within_limit :: "int \<Rightarrow> (int \<times> slot_op) list \<Rightarrow> bool" where
  "within_limit n ops = list_all (\<lambda>x. case snd x of OpAcquire i m \<Rightarrow> m \<le> n | _ \<Rightarrow> True) ops"

text \<open>A key with no slots on it.\<close>

definition no_slots :: "'r redis \<Rightarrow> int \<Rightarrow> string \<Rightarrow> 'r \<Rightarrow> bool" where
  "no_slots R t key r \<longleftrightarrow> (\<forall>m. ZSCORE R t key m r = None) \<and> GET R t key r = None"

text \<open>
  The sorted set and the history: what the set shows are grants, with their times, every holder is
  in the set, and the key lives as long as the last grant counts.
\<close>

definition slots_agree :: "'r redis \<Rightarrow> string \<Rightarrow> int \<Rightarrow> int \<Rightarrow> 'r \<times> grants \<Rightarrow> bool" where
  "slots_agree R key ttl now s \<longleftrightarrow>
     (\<forall>m t. ZSCORE R now key m (fst s) = Some t \<longrightarrow> snd s m = Some t) \<and>
     (\<forall>m t. snd s m = Some t \<longrightarrow> now - t < ttl \<longrightarrow> ZSCORE R now key m (fst s) = Some t) \<and>
     (\<exists>d. lives R now key d (fst s) \<and> (\<forall>m t. snd s m = Some t \<longrightarrow> t \<le> now \<and> t + ttl \<le> d))"

lemma agreeI:
  assumes "\<And>m t. ZSCORE R now key m r = Some t \<Longrightarrow> g m = Some t"
    and "\<And>m t. g m = Some t \<Longrightarrow> now - t < ttl \<Longrightarrow> ZSCORE R now key m r = Some t"
    and "lives R now key d r" and "\<And>m t. g m = Some t \<Longrightarrow> t \<le> now \<and> t + ttl \<le> d"
  shows "slots_agree R key ttl now (r, g)"
  unfolding slots_agree_def fst_conv snd_conv using assms by blast

lemma agreeE:
  assumes "slots_agree R key ttl now (r, g)"
  obtains d where "\<And>m t. ZSCORE R now key m r = Some t \<Longrightarrow> g m = Some t"
    "\<And>m t. g m = Some t \<Longrightarrow> now - t < ttl \<Longrightarrow> ZSCORE R now key m r = Some t"
    "lives R now key d r" "\<And>m t. g m = Some t \<Longrightarrow> t \<le> now \<and> t + ttl \<le> d"
  using assms unfolding slots_agree_def fst_conv snd_conv by blast

context redis_laws
begin

lemma absent_lives:
  assumes "no_slots R t k r"
  shows "lives R t k d r"
proof -
  have "ZSCORE R t' k m r = None \<and> GET R t' k r = None" if "t \<le> t'" for t' m
    using assms members_expire [OF that, of k m r] counter_expires [OF that, of k r]
    unfolding no_slots_def by (metis option.exhaust option.distinct(1))
  with assms show ?thesis unfolding lives_def no_slots_def by metis
qed

lemma purged: "ZSCORE R t k m (ZREMRANGEBYSCORE R t k (t - ttl) r) = Some s \<longleftrightarrow> ZSCORE R t k m r = Some s \<and> t - s < ttl"
  by (auto simp: zremrange split: option.splits)

lemma agree_later:
  assumes "slots_agree R key ttl t (r, g)" and "t \<le> t'"
  shows "slots_agree R key ttl t' (r, g)"
proof (rule agreeE [OF assms(1)])
  fix d
  assume a: "\<And>m u. ZSCORE R t key m r = Some u \<Longrightarrow> g m = Some u"
    "\<And>m u. g m = Some u \<Longrightarrow> t - u < ttl \<Longrightarrow> ZSCORE R t key m r = Some u"
    "lives R t key d r" "\<And>m u. g m = Some u \<Longrightarrow> u \<le> t \<and> u + ttl \<le> d"
  show ?thesis
  proof (rule agreeI)
    show "g m = Some u" if "ZSCORE R t' key m r = Some u" for m u
      by (rule a(1) [OF members_expire [OF assms(2) that]])
    show "lives R t' key d r" by (rule lives_later [OF a(3) assms(2)])
    show "u \<le> t' \<and> u + ttl \<le> d" if "g m = Some u" for m u using a(4) [OF that] assms(2) by linarith
    show "ZSCORE R t' key m r = Some u" if "g m = Some u" "t' - u < ttl" for m u
    proof -
      have "t' < d" "t - u < ttl" using a(4) [OF that(1)] that(2) assms(2) by linarith+
      then show ?thesis using lives_score [OF a(3) assms(2)] a(2) [OF that(1)] by metis
    qed
  qed
qed

lemma agree_holders:
  assumes "slots_agree R key ttl t (r, g)"
  shows "members t key (ZREMRANGEBYSCORE R t key (t - ttl) r) = holders ttl t g"
proof (rule agreeE [OF assms], rule set_eqI)
  fix d m
  assume a: "\<And>m u. ZSCORE R t key m r = Some u \<Longrightarrow> g m = Some u"
    "\<And>m u. g m = Some u \<Longrightarrow> t - u < ttl \<Longrightarrow> ZSCORE R t key m r = Some u"
  have "m \<in> members t key (ZREMRANGEBYSCORE R t key (t - ttl) r) \<longleftrightarrow>
      (\<exists>u. ZSCORE R t key m (ZREMRANGEBYSCORE R t key (t - ttl) r) = Some u)" by simp
  also have "\<dots> \<longleftrightarrow> (\<exists>u. g m = Some u \<and> t - u < ttl)" unfolding purged using a by blast
  finally show "m \<in> members t key (ZREMRANGEBYSCORE R t key (t - ttl) r) \<longleftrightarrow> m \<in> holders ttl t g"
    by (simp add: holders_def)
qed

lemma agree_purge:
  assumes "slots_agree R key ttl t (r, g)"
  shows "slots_agree R key ttl t (ZREMRANGEBYSCORE R t key (t - ttl) r, g)"
proof (rule agreeE [OF assms])
  fix d
  assume a: "\<And>m u. ZSCORE R t key m r = Some u \<Longrightarrow> g m = Some u"
    "\<And>m u. g m = Some u \<Longrightarrow> t - u < ttl \<Longrightarrow> ZSCORE R t key m r = Some u"
    "lives R t key d r" "\<And>m u. g m = Some u \<Longrightarrow> u \<le> t \<and> u + ttl \<le> d"
  show ?thesis
  proof (rule agreeI [OF _ _ keeps_lives(3) [OF a(3)] a(4)])
    fix m u
    show "g m = Some u" if "ZSCORE R t key m (ZREMRANGEBYSCORE R t key (t - ttl) r) = Some u"
      using that unfolding purged by (blast intro: a(1))
    show "ZSCORE R t key m (ZREMRANGEBYSCORE R t key (t - ttl) r) = Some u" if "g m = Some u" "t - u < ttl"
      using that unfolding purged by (blast intro: a(2))
  qed assumption
qed

lemma agree_grant:
  assumes "slots_agree R key ttl t (r, g)" and "0 < ttl"
  shows "slots_agree R key ttl t (EXPIRE R t key ttl (ZADD R t key t i r), g(i \<mapsto> t))"
proof (rule agreeE [OF assms(1)])
  fix d
  assume a: "\<And>m u. ZSCORE R t key m r = Some u \<Longrightarrow> g m = Some u"
    "\<And>m u. g m = Some u \<Longrightarrow> t - u < ttl \<Longrightarrow> ZSCORE R t key m r = Some u"
    "\<And>m u. g m = Some u \<Longrightarrow> u \<le> t \<and> u + ttl \<le> d"
  show ?thesis
  proof (rule agreeI [OF _ _ expire(3) [OF assms(2)]])
    fix m u
    show "(g(i \<mapsto> t)) m = Some u" if "ZSCORE R t key m (EXPIRE R t key ttl (ZADD R t key t i r)) = Some u"
      using that a(1) [of m u] by (simp add: expire(1) [OF assms(2)] zadd split: if_splits)
    show "ZSCORE R t key m (EXPIRE R t key ttl (ZADD R t key t i r)) = Some u" if "(g(i \<mapsto> t)) m = Some u" "t - u < ttl"
      using that a(2) [of m u] by (simp add: expire(1) [OF assms(2)] zadd split: if_splits)
    show "u \<le> t \<and> u + ttl \<le> t + ttl" if "(g(i \<mapsto> t)) m = Some u"
      using that a(3) [of m u] by (auto split: if_splits)
  qed
qed

lemma agree_release:
  assumes "slots_agree R key ttl t (r, g)"
  shows "slots_agree R key ttl t (ZREM R t key i r, g(i := None))"
proof (rule agreeE [OF assms])
  fix d
  assume a: "\<And>m u. ZSCORE R t key m r = Some u \<Longrightarrow> g m = Some u"
    "\<And>m u. g m = Some u \<Longrightarrow> t - u < ttl \<Longrightarrow> ZSCORE R t key m r = Some u"
    "lives R t key d r" "\<And>m u. g m = Some u \<Longrightarrow> u \<le> t \<and> u + ttl \<le> d"
  show ?thesis
  proof (rule agreeI [OF _ _ keeps_lives(2) [OF a(3)]])
    fix m u
    show "(g(i := None)) m = Some u" if "ZSCORE R t key m (ZREM R t key i r) = Some u"
      using that a(1) [of m u] by (simp add: zrem split: if_splits)
    show "ZSCORE R t key m (ZREM R t key i r) = Some u" if "(g(i := None)) m = Some u" "t - u < ttl"
      using that a(2) [of m u] by (simp add: zrem split: if_splits)
    show "u \<le> t \<and> u + ttl \<le> d" if "(g(i := None)) m = Some u"
      using that a(4) [of m u] by (simp split: if_splits)
  qed
qed

end

end
