(* ===== verification/ConcurrencySafety.thy ===== *)
theory ConcurrencySafety
  imports ConcurrencyCache
begin

text \<open>
  The properties of the concurrency slots over the history of a key: the sorted set counts exactly
  the grants of the last \<open>ttl\<close> seconds that were not released, these never exceed the limit, and
  what this leaves open, slots older than \<open>ttl\<close> and slots of other processes.
\<close>

section \<open>Every operation keeps set and history in step\<close>

context redis_laws
begin

lemma no_members:
  assumes "ZCARD R t k r = 0"
  shows "ZSCORE R t k m r = None"
proof -
  have "card (members t k r) = 0" using assms by (simp add: zcard)
  then have "members t k r = {}" using finite_members [of t k r] by (simp only: card_0_eq)
  then show ?thesis by blast
qed

lemma agree_cleanup:
  assumes "slots_agree R key ttl t (r, g)" and "0 < ttl"
  shows "slots_agree R key ttl t (cleanupExpiredSlotsScript R t key ttl r, g)"
proof -
  let ?r = "ZREMRANGEBYSCORE R t key (t - ttl) r"
  from agree_purge [OF assms(1)] show ?thesis
  proof (rule agreeE)
    fix d
    assume a: "\<And>m u. ZSCORE R t key m ?r = Some u \<Longrightarrow> g m = Some u"
      "\<And>m u. g m = Some u \<Longrightarrow> t - u < ttl \<Longrightarrow> ZSCORE R t key m ?r = Some u"
      "\<And>m u. g m = Some u \<Longrightarrow> u \<le> t \<and> u + ttl \<le> d"
    show ?thesis
    proof (cases "ZCARD R t key ?r = 0")
      case True
      have "no_slots R t key (DEL R t key ?r)" by (simp add: no_slots_def del)
      from absent_lives [OF this] have l: "lives R t key d (DEL R t key ?r)" .
      have "slots_agree R key ttl t (DEL R t key ?r, g)"
      proof (rule agreeI [OF _ _ l a(3)])
        fix m u
        show "g m = Some u" if "ZSCORE R t key m (DEL R t key ?r) = Some u" using that by (simp add: del)
        show "ZSCORE R t key m (DEL R t key ?r) = Some u" if "g m = Some u" "t - u < ttl"
          using a(2) [OF that] no_members [OF True, of m] by simp
      qed assumption
      with True show ?thesis by (simp add: cleanupExpiredSlotsScript_def)
    next
      case False
      have "slots_agree R key ttl t (EXPIRE R t key ttl ?r, g)"
      proof (rule agreeI [OF _ _ expire(3) [OF assms(2)]])
        fix m u
        show "g m = Some u" if "ZSCORE R t key m (EXPIRE R t key ttl ?r) = Some u"
          using that a(1) [of m u] by (simp add: expire(1) [OF assms(2)])
        show "ZSCORE R t key m (EXPIRE R t key ttl ?r) = Some u" if "g m = Some u" "t - u < ttl"
          using a(2) [OF that] by (simp add: expire(1) [OF assms(2)])
        show "u \<le> t \<and> u + ttl \<le> t + ttl" if "g m = Some u" using a(3) [OF that] by simp
      qed
      with False show ?thesis by (simp add: cleanupExpiredSlotsScript_def)
    qed
  qed
qed

lemma finite_holders: "slots_agree R key ttl t (r, g) \<Longrightarrow> finite (holders ttl t g)"
  using agree_holders [of key ttl t r g] finite_members by metis

text \<open>What \<open>acquireScript\<close> sees and does, in terms of the holders.\<close>

lemma acquire_cases:
  assumes "slots_agree R key ttl t (r, g)"
  defines "r1 \<equiv> ZREMRANGEBYSCORE R t key (t - ttl) r"
  shows "acquireScript R t key maxc ttl i r =
    (if i \<in> holders ttl t g \<or> int (card (holders ttl t g)) < maxc
     then (EXPIRE R t key ttl (ZADD R t key t i r1), 1) else (r1, 0))"
proof -
  have "ZSCORE R t key i r1 \<noteq> None \<longleftrightarrow> i \<in> holders ttl t g"
    using agree_holders [OF assms(1)] unfolding r1_def by blast
  moreover have "ZCARD R t key r1 = int (card (holders ttl t g))"
    using agree_holders [OF assms(1)] unfolding r1_def by (simp only: zcard)
  ultimately show ?thesis by (simp add: acquireScript_def Let_def r1_def)
qed

lemma step_agree:
  assumes "slots_agree R key ttl t (r, g)" and "0 < ttl"
  shows "slots_agree R key ttl t (slotStep R key ttl (t, op) (r, g))"
proof (cases op)
  case (OpAcquire i maxc)
  show ?thesis
    using agree_grant [OF agree_purge [OF assms(1)] assms(2), of i] agree_purge [OF assms(1)]
    unfolding OpAcquire slotStep.simps acquire_cases [OF assms(1)] by (simp add: Let_def)
next
  case (OpRelease i)
  with agree_release [OF assms(1)] show ?thesis by simp
next
  case OpCount
  with agree_purge [OF assms(1)] show ?thesis by (simp add: getCountScript_def Let_def)
next
  case OpCleanup
  with agree_cleanup [OF assms] show ?thesis by simp
qed

lemma step_bound:
  assumes "slots_agree R key ttl t (r, g)" and "0 < ttl" and "int (card (holders ttl t g)) \<le> n"
    and "within_limit n [(t, op)]"
  shows "int (card (holders ttl t (snd (slotStep R key ttl (t, op) (r, g))))) \<le> n"
proof (cases op)
  case (OpAcquire i maxc)
  note fin = finite_holders [OF assms(1)]
  have h: "holders ttl t (g(i \<mapsto> t)) = insert i (holders ttl t g)"
    using assms(2) by (auto simp: holders_def)
  have "maxc \<le> n" using assms(4) by (simp add: within_limit_def OpAcquire)
  then have "i \<in> holders ttl t g \<or> int (card (holders ttl t g)) < maxc \<Longrightarrow> int (card (insert i (holders ttl t g))) \<le> n"
    using assms(3) fin by (auto simp: card_insert_if insert_absorb)
  then show ?thesis
    unfolding OpAcquire slotStep.simps acquire_cases [OF assms(1)] using assms(3) by (auto simp: Let_def h)
next
  case (OpRelease i)
  have "holders ttl t (g(i := None)) \<subseteq> holders ttl t g" by (auto simp: holders_def)
  from card_mono [OF finite_holders [OF assms(1)] this] assms(3) show ?thesis by (simp add: OpRelease)
qed (use assms(3) in simp_all)

lemma holders_later: "t \<le> u \<Longrightarrow> holders ttl u g \<subseteq> holders ttl t g"
  by (auto simp: holders_def)

lemma run_inv:
  assumes "0 < ttl"
  shows "slots_agree R key ttl t s \<Longrightarrow> int (card (holders ttl t (snd s))) \<le> n \<Longrightarrow> in_order t ops now \<Longrightarrow> within_limit n ops \<Longrightarrow>
    slots_agree R key ttl now (slotRun R key ttl ops s) \<and> int (card (holders ttl now (snd (slotRun R key ttl ops s)))) \<le> n"
proof (induction ops arbitrary: t s)
  case Nil
  then have "t \<le> now" by simp
  have "slots_agree R key ttl now s" using Nil agree_later [of key ttl t "fst s" "snd s" now] by simp
  moreover have "card (holders ttl now (snd s)) \<le> card (holders ttl t (snd s))"
    using card_mono [OF finite_holders [of key ttl t "fst s" "snd s"] holders_later [OF \<open>t \<le> now\<close>]] Nil by simp
  ultimately show ?case using Nil by (simp add: slotRun_def)
next
  case (Cons x ops)
  obtain u op where x: "x = (u, op)" by (cases x)
  obtain r g where s: "s = (r, g)" by (cases s)
  from Cons.prems x have u: "t \<le> u" "in_order u ops now" by simp_all
  have a: "slots_agree R key ttl u (r, g)" using agree_later Cons.prems(1) u(1) s by blast
  have "card (holders ttl u g) \<le> card (holders ttl t g)"
    using card_mono [OF finite_holders holders_later [OF u(1)]] Cons.prems(1) s by blast
  then have b: "int (card (holders ttl u g)) \<le> n" using Cons.prems(2) s by simp
  have w: "within_limit n [(u, op)]" "within_limit n ops" using Cons.prems(4) x by (simp_all add: within_limit_def)
  from Cons.IH [OF step_agree [OF a assms] step_bound [OF a assms b w(1)] u(2) w(2)] show ?case
    by (simp add: slotRun_def x s)
qed

lemma some_limit: "\<exists>n. 0 \<le> n \<and> within_limit n ops"
proof (induction ops)
  case (Cons x ops)
  then obtain n where n: "0 \<le> n" "within_limit n ops" by blast
  obtain u op where x: "x = (u, op)" by (cases x)
  define k where "k = (case op of OpAcquire i m \<Rightarrow> max n m | _ \<Rightarrow> n)"
  have "n \<le> k" by (simp add: k_def split: slot_op.split)
  with n have "0 \<le> k \<and> within_limit k (x # ops)"
    by (auto simp: within_limit_def x k_def list_all_iff split: slot_op.splits)
  then show ?case ..
qed (simp add: within_limit_def exI [of _ 0])

lemma initial_agree: "no_slots R t key r \<Longrightarrow> slots_agree R key ttl t (r, Map.empty)"
  by (rule agreeI [OF _ _ absent_lives]) (simp_all add: no_slots_def)

end

section \<open>The limit\<close>

text \<open>
  C7. The limit holds: whatever callers do with the slots of a key, at no time do more than \<open>n\<close>
  requests hold a slot that was granted less than \<open>ttl\<close> seconds ago and not released, when no caller
  asked for more than \<open>n\<close>.
\<close>

theorem slots_bounded:
  assumes "redis_laws R" and "0 < ttl" and "0 \<le> n" and "no_slots R t key r"
    and "in_order t ops now" and "within_limit n ops"
  shows "int (card (holders ttl now (snd (slotRun R key ttl ops (r, Map.empty))))) \<le> n"
  using redis_laws.run_inv [OF assms(1,2) redis_laws.initial_agree [OF assms(1,4)] _ assms(5,6)] assms(3)
  by (simp add: holders_def)

text \<open>An empty Redis, two requests for one slot, and a third one after the first was released.\<close>

definition empty_redis :: redis_map where
  "empty_redis = \<lparr>rm_zsets = [], rm_counts = []\<rparr>"

lemma empty_no_slots: "no_slots map_redis t key empty_redis"
  by (simp add: no_slots_def map_score map_get empty_redis_def stored_set_def stored_def)

definition demo_ops :: "(int \<times> slot_op) list" where
  "demo_ops = [(100, OpAcquire ''a'' 1), (101, OpAcquire ''b'' 1), (150, OpRelease ''a''), (160, OpAcquire ''c'' 1)]"

lemma demo_grants: "snd (slotRun map_redis ''k'' 900 demo_ops (empty_redis, Map.empty)) = [''c'' \<mapsto> 160]"
  by (simp add: slotRun_def demo_ops_def acquireScript_def map_redis_def empty_redis_def put_set_def put_count_def
      stored_set_def stored_def in_time_def Let_def)

theorem slots_bounded_witness:
  "int (card (holders 900 170 (snd (slotRun map_redis ''k'' 900 demo_ops (empty_redis, Map.empty))))) \<le> 1 \<and>
   snd (slotRun map_redis ''k'' 900 demo_ops (empty_redis, Map.empty)) = [''c'' \<mapsto> 160]"
  using slots_bounded [OF mr.redis_laws_axioms, of 900 1 100 "''k''" empty_redis demo_ops 170] empty_no_slots demo_grants
  by (simp add: demo_ops_def within_limit_def)

text \<open>
  C24. Exact accounting: after any history \<open>getCountScript\<close> returns the number of requests that hold
  a slot, and \<open>acquireScript\<close> grants one exactly when the request already holds a slot or fewer than
  \<open>maxc\<close> requests do.
\<close>

theorem slot_count_exact:
  assumes "redis_laws R" and "0 < ttl" and "no_slots R t key r" and "in_order t ops now"
  shows "let (r', g) = slotRun R key ttl ops (r, Map.empty) in
    snd (getCountScript R now key ttl r') = int (card (holders ttl now g)) \<and>
    (snd (acquireScript R now key maxc ttl i r') = 1 \<longleftrightarrow> i \<in> holders ttl now g \<or> int (card (holders ttl now g)) < maxc)"
proof -
  obtain r' g where run: "slotRun R key ttl ops (r, Map.empty) = (r', g)" by (cases "slotRun R key ttl ops (r, Map.empty)")
  obtain n where n: "0 \<le> n" "within_limit n ops" using redis_laws.some_limit [OF assms(1)] by blast
  have a: "slots_agree R key ttl now (r', g)"
    using redis_laws.run_inv [OF assms(1,2) redis_laws.initial_agree [OF assms(1,3)] _ assms(4) n(2)] n(1) run
    by (simp add: holders_def)
  have "snd (getCountScript R now key ttl r') = int (card (holders ttl now g))"
    using redis_laws.agree_holders [OF assms(1) a] by (simp only: getCountScript_def Let_def snd_conv redis_laws.zcard [OF assms(1)])
  with redis_laws.acquire_cases [OF assms(1) a, of maxc i] show ?thesis by (simp add: run)
qed

theorem slot_count_exact_witness:
  "snd (getCountScript map_redis 170 ''k'' 900 (fst (slotRun map_redis ''k'' 900 demo_ops (empty_redis, Map.empty)))) = 1"
proof -
  have "holders 900 170 [''c'' \<mapsto> 160] = {''c''}" by (auto simp: holders_def)
  then show ?thesis
    using slot_count_exact [OF mr.redis_laws_axioms, of 900 100 "''k''" empty_redis demo_ops 170] empty_no_slots demo_grants
    by (simp add: demo_ops_def Let_def case_prod_beta)
qed

text \<open>
  A slot is counted for \<open>ttl\<close> seconds only, and nothing renews it: a request that runs longer, as
  a long stream does, loses its slot while it runs, and with a limit of one a second request is let
  in beside it.
\<close>

theorem long_request_not_counted:
  assumes "redis_laws R" and "0 < ttl" and "no_slots R t key r" and "t + ttl \<le> now"
  shows "snd (acquireScript R t key 1 ttl i r) = 1 \<and>
    snd (acquireScript R now key 1 ttl j (fst (acquireScript R t key 1 ttl i r))) = 1"
proof -
  have a: "slots_agree R key ttl t (r, Map.empty)" by (rule redis_laws.initial_agree [OF assms(1,3)])
  have "holders ttl t Map.empty = {}" by (simp add: holders_def)
  then have 1: "snd (acquireScript R t key 1 ttl i r) = 1" by (simp add: redis_laws.acquire_cases [OF assms(1) a])
  then have "slots_agree R key ttl t (fst (acquireScript R t key 1 ttl i r), [i \<mapsto> t])"
    using redis_laws.step_agree [OF assms(1) a assms(2), of "OpAcquire i 1"] by (simp add: Let_def case_prod_beta)
  from redis_laws.agree_later [OF assms(1) this, of now] assms(2,4)
  have b: "slots_agree R key ttl now (fst (acquireScript R t key 1 ttl i r), [i \<mapsto> t])" by simp
  have "holders ttl now [i \<mapsto> t] = {}" using assms(4) by (auto simp: holders_def)
  with 1 show ?thesis by (simp add: redis_laws.acquire_cases [OF assms(1) b])
qed

theorem long_request_not_counted_witness:
  "snd (acquireScript map_redis 1000 ''k'' 1 900 ''b'' (fst (acquireScript map_redis 100 ''k'' 1 900 ''a'' empty_redis))) = 1"
  using long_request_not_counted [OF mr.redis_laws_axioms, of 900 100 "''k''" empty_redis 1000] empty_no_slots by simp

section \<open>The cleanup at start\<close>

context redis_laws
begin

lemma drop_members:
  "ZSCORE R t key m (fst (dropMembers R t key p ms (r, c))) =
     (if m \<in> set ms \<and> \<not> prefix p m then None else ZSCORE R t key m r)"
  "k \<noteq> key \<Longrightarrow> same_key R t k r (fst (dropMembers R t key p ms (r, c)))"
proof (induction ms arbitrary: r c)
  case (Cons x ms)
  have p: "take (length p) x \<noteq> p \<longleftrightarrow> \<not> prefix p x" by (metis append_eq_conv_conj prefix_def)
  {
    case 1
    show ?case using Cons.IH(1) [of "ZREM R t key x r"] Cons.IH(1) [of r] by (auto simp: p zrem)
  next
    case 2
    then show ?case
      using Cons.IH(2) [OF 2, of r] same_trans [OF other_keys(2) [OF 2] Cons.IH(2) [OF 2]] by (simp add: p)
  }
qed simp_all

lemma cleanup_key:
  assumes "0 < ttl"
  shows "ZSCORE R t k m (fst (cleanupKey R t p ttl key acc)) =
    (if k = key \<and> \<not> prefix p m then None else ZSCORE R t k m (fst acc))"
proof -
  obtain r c where acc: "acc = (r, c)" by (cases acc)
  obtain r1 c1 where d: "dropMembers R t key p (ZRANGE R t key r) (r, c) = (r1, c1)"
    by (cases "dropMembers R t key p (ZRANGE R t key r) (r, c)")
  have own: "ZSCORE R t key m r1 = (if \<not> prefix p m then None else ZSCORE R t key m r)" for m
    using drop_members(1) [of t key m p "ZRANGE R t key r" r c] by (auto simp: d zrange)
  have e: "fst (cleanupKey R t p ttl key acc) = (if ZCARD R t key r1 = 0 then DEL R t key r1 else EXPIRE R t key ttl r1)"
    by (simp add: cleanupKey_def acc d)
  show ?thesis
  proof (cases "k = key")
    case True
    with own [of m] show ?thesis
      using no_members [of t key r1 m]
      by (cases "ZCARD R t key r1 = 0"; cases "prefix p m") (simp_all add: e [unfolded acc] acc del expire(1) [OF assms])
  next
    case False
    have "same_key R t k r r1" using drop_members(2) [OF False, of t r p _ c] d by (metis fst_conv)
    then have "same_key R t k r (fst (cleanupKey R t p ttl key acc))"
      using same_trans other_keys(6,7) [OF False] by (simp add: e)
    from same_score [OF this order_refl] False show ?thesis by (simp add: acc)
  qed
qed

lemma cleanup_keys:
  assumes "0 < ttl"
  shows "ZSCORE R t k m (fst (fold (cleanupKey R t p ttl) keys acc)) =
    (if k \<in> set keys \<and> \<not> prefix p m then None else ZSCORE R t k m (fst acc))"
  by (induction keys arbitrary: acc) (auto simp: cleanup_key [OF assms])

lemma cleanup_pattern:
  assumes "0 < slotTTLSeconds c"
  shows "ZSCORE R t k m (cleanupSlotsByPattern R c t pat p r) =
    (if prefix pat k \<and> \<not> prefix p m then None else ZSCORE R t k m r)"
proof -
  have f: "ZSCORE R t k m (fold (\<lambda>keys r. if keys \<noteq> [] then fst (startupCleanupScript R t keys p (slotTTLSeconds c) r) else r) bs r') =
      (if k \<in> set (concat bs) \<and> \<not> prefix p m then None else ZSCORE R t k m r')" for bs r'
    by (induction bs arbitrary: r') (auto simp: startupCleanupScript_def cleanup_keys [OF assms])
  show ?thesis
  proof (cases "k \<in> set (concat (SCAN R t pat r))")
    case True
    with scan(2) [OF True] show ?thesis by (simp add: cleanupSlotsByPattern_def f)
  next
    case False
    then have "prefix pat k \<Longrightarrow> ZSCORE R t k m r = None" using scan(1) by blast
    with False show ?thesis by (auto simp: cleanupSlotsByPattern_def f)
  qed
qed

lemma delete_pattern:
  "ZSCORE R t k m (deleteKeysByPattern R t pat r) = (if prefix pat k then None else ZSCORE R t k m r)"
  "GET R t k (deleteKeysByPattern R t pat r) = (if prefix pat k then None else GET R t k r)"
proof -
  have s: "ZSCORE R t k m (DEL R t key r') = (if k = key then None else ZSCORE R t k m r')"
    "GET R t k (DEL R t key r') = (if k = key then None else GET R t k r')" for key r'
    using same_score [OF other_keys(7) order_refl] same_counter [OF other_keys(7) order_refl] del by metis+
  have d: "ZSCORE R t k m (fold (DEL R t) ks r') = (if k \<in> set ks then None else ZSCORE R t k m r')"
    "GET R t k (fold (DEL R t) ks r') = (if k \<in> set ks then None else GET R t k r')" for ks r'
    by (induction ks arbitrary: r') (auto simp: s)
  have f: "ZSCORE R t k m (fold (\<lambda>keys r. if keys \<noteq> [] then fold (DEL R t) keys r else r) bs r') =
      (if k \<in> set (concat bs) then None else ZSCORE R t k m r')"
    "GET R t k (fold (\<lambda>keys r. if keys \<noteq> [] then fold (DEL R t) keys r else r) bs r') =
      (if k \<in> set (concat bs) then None else GET R t k r')" for bs r'
    by (induction bs arbitrary: r') (auto simp: d)
  have "k \<notin> set (concat (SCAN R t pat r)) \<Longrightarrow> prefix pat k \<Longrightarrow> ZSCORE R t k m r = None \<and> GET R t k r = None"
    using scan(1) by blast
  then show "ZSCORE R t k m (deleteKeysByPattern R t pat r) = (if prefix pat k then None else ZSCORE R t k m r)"
    "GET R t k (deleteKeysByPattern R t pat r) = (if prefix pat k then None else GET R t k r)"
    using scan(2) [of k t pat r] by (auto simp: deleteKeysByPattern_def f)
qed

end

text \<open>
  At its start a process removes from all slots every member that does not carry its own prefix,
  keeps its own, and resets the wait queues. A second instance that starts beside a running one
  therefore takes the running requests of the first off the count.
\<close>

theorem startup_drops_other_processes:
  assumes "redis_laws R" and "0 < slotTTLSeconds c" and "p \<noteq> []"
  shows "(prefix accountSlotKeyPrefix k \<or> prefix userSlotKeyPrefix k \<longrightarrow>
      ZSCORE R now k m (CleanupStaleProcessSlots R c now p r) = (if prefix p m then ZSCORE R now k m r else None)) \<and>
    GET R now (accountWaitKey i) (CleanupStaleProcessSlots R c now p r) = None \<and>
    GET R now (waitQueueKey i) (CleanupStaleProcessSlots R c now p r) = None"
proof -
  note d = redis_laws.delete_pattern [OF assms(1)] and c = redis_laws.cleanup_pattern [OF assms(1,2)]
  have w: "prefix accountWaitKeyPrefix (accountWaitKey i)" "prefix waitQueueKeyPrefix (waitQueueKey i)"
    by (simp_all add: accountWaitKey_def waitQueueKey_def)
  have n: "\<not> prefix accountWaitKeyPrefix k \<and> \<not> prefix waitQueueKeyPrefix k" if "prefix accountSlotKeyPrefix k \<or> prefix userSlotKeyPrefix k"
    using that by (auto simp: prefix_def accountWaitKeyPrefix_def waitQueueKeyPrefix_def accountSlotKeyPrefix_def userSlotKeyPrefix_def)
  have e: "\<not> (prefix accountSlotKeyPrefix k \<and> prefix userSlotKeyPrefix k)"
    by (auto simp: prefix_def accountSlotKeyPrefix_def userSlotKeyPrefix_def)
  show ?thesis
    using assms(3) n e w by (auto simp: CleanupStaleProcessSlots_def Let_def d c)
qed

text \<open>Two instances with one Redis: the slot of the first is gone when the second one has started.\<close>

theorem startup_drops_other_processes_witness:
  "let r1 = fst (AcquireAccountSlot map_redis (NewConcurrencyCache 15 0) 100 7 1 ''r1-1'' empty_redis) in
   ZSCORE map_redis 101 (accountSlotKey 7) ''r1-1'' r1 = Some 100 \<and>
   ZSCORE map_redis 101 (accountSlotKey 7) ''r1-1'' (CleanupStaleProcessSlots map_redis (NewConcurrencyCache 15 0) 101 ''r2'' r1) = None"
proof -
  let ?r1 = "fst (AcquireAccountSlot map_redis (NewConcurrencyCache 15 0) 100 7 1 ''r1-1'' empty_redis)"
  have "ZSCORE map_redis 101 (accountSlotKey 7) ''r1-1'' ?r1 = Some 100"
    by (simp add: AcquireAccountSlot_def NewConcurrencyCache_def acquireScript_def map_redis_def empty_redis_def put_set_def put_count_def
      stored_set_def stored_def in_time_def Let_def)
  moreover have "prefix accountSlotKeyPrefix (accountSlotKey 7)" by (simp add: accountSlotKey_def)
  ultimately show ?thesis
    using startup_drops_other_processes [OF mr.redis_laws_axioms, of "NewConcurrencyCache 15 0" "''r2''" "accountSlotKey 7" 101 "''r1-1''" ?r1]
    by (simp add: NewConcurrencyCache_def Let_def)
qed

end
