(* ===== verification/ConcurrencyService.thy ===== *)
theory ConcurrencyService
  imports ConcurrencySafety Complex_Main "HOL-Library.Log_Nat" "HOL-Library.Word"
begin

text \<open>
  \<open>service/concurrency_service.go\<close>: the service between the gateway handlers and the concurrency
  cache. The Go interface \<open>ConcurrencyCache\<close> is the record \<open>conc_cache\<close>; its operations take the
  clock of the cache server and run on a world \<open>'w\<close>, and each of them may fail. The locale
  \<open>slot_cache\<close> states what the service relies on, and \<open>redis_cache\<close> provides it with the
  operations of \<open>repository/concurrency_cache.go\<close> over a network that loses calls and replies.
\<close>

section \<open>The interface of the cache\<close>

record 'w conc_cache =
  ccAcquireAccountSlot :: "int \<Rightarrow> int \<Rightarrow> int \<Rightarrow> string \<Rightarrow> 'w \<Rightarrow> 'w \<times> (string + bool)"
  ccReleaseAccountSlot :: "int \<Rightarrow> int \<Rightarrow> string \<Rightarrow> 'w \<Rightarrow> 'w \<times> (string + unit)"
  ccGetAccountConcurrencyBatch :: "int \<Rightarrow> int list \<Rightarrow> 'w \<Rightarrow> 'w \<times> (string + (int \<rightharpoonup> int))"
  ccIncrementAccountWaitCount :: "int \<Rightarrow> int \<Rightarrow> int \<Rightarrow> 'w \<Rightarrow> 'w \<times> (string + bool)"
  ccDecrementAccountWaitCount :: "int \<Rightarrow> int \<Rightarrow> 'w \<Rightarrow> 'w \<times> (string + unit)"
  ccGetAccountWaitingCount :: "int \<Rightarrow> int \<Rightarrow> 'w \<Rightarrow> 'w \<times> (string + int)"
  ccAcquireUserSlot :: "int \<Rightarrow> int \<Rightarrow> int \<Rightarrow> string \<Rightarrow> 'w \<Rightarrow> 'w \<times> (string + bool)"
  ccReleaseUserSlot :: "int \<Rightarrow> int \<Rightarrow> string \<Rightarrow> 'w \<Rightarrow> 'w \<times> (string + unit)"
  ccIncrementWaitCount :: "int \<Rightarrow> int \<Rightarrow> int \<Rightarrow> 'w \<Rightarrow> 'w \<times> (string + bool)"
  ccDecrementWaitCount :: "int \<Rightarrow> int \<Rightarrow> 'w \<Rightarrow> 'w \<times> (string + unit)"
  ccGetAccountsLoadBatch :: "int \<Rightarrow> (int \<times> int) list \<Rightarrow> 'w \<Rightarrow> 'w \<times> (string + (int \<rightharpoonup> load_info))"
  ccGetUsersLoadBatch :: "int \<Rightarrow> (int \<times> int) list \<Rightarrow> 'w \<Rightarrow> 'w \<times> (string + (int \<rightharpoonup> load_info))"
  ccCleanupExpiredAccountSlots :: "int \<Rightarrow> int \<Rightarrow> 'w \<Rightarrow> 'w \<times> (string + unit)"
  ccCleanupStaleProcessSlots :: "int \<Rightarrow> string \<Rightarrow> 'w \<Rightarrow> 'w \<times> (string + unit)"

text \<open>The two kinds of slot; the operations of one kind.\<close>

datatype slot_kind = UserSlot | AccountSlot

definition acquireOf :: "'w conc_cache \<Rightarrow> slot_kind \<Rightarrow> int \<Rightarrow> int \<Rightarrow> int \<Rightarrow> string \<Rightarrow> 'w \<Rightarrow> 'w \<times> (string + bool)" where
  "acquireOf C k = (case k of UserSlot \<Rightarrow> ccAcquireUserSlot C | AccountSlot \<Rightarrow> ccAcquireAccountSlot C)"

definition releaseOf :: "'w conc_cache \<Rightarrow> slot_kind \<Rightarrow> int \<Rightarrow> int \<Rightarrow> string \<Rightarrow> 'w \<Rightarrow> 'w \<times> (string + unit)" where
  "releaseOf C k = (case k of UserSlot \<Rightarrow> ccReleaseUserSlot C | AccountSlot \<Rightarrow> ccReleaseAccountSlot C)"

text \<open>
  What the service relies on: \<open>has k now i w\<close> are the requests that hold a slot of \<open>i\<close>,
  \<open>waits now i w\<close> is the length of the wait queue of a user, and \<open>queue_lives now i d w\<close> says
  that it is kept until the time \<open>d\<close>. An operation that fails may have been carried out. Slots run
  out as time passes and never come back by themselves.
\<close>

locale slot_cache =
  fixes C :: "'w conc_cache"
    and has :: "slot_kind \<Rightarrow> int \<Rightarrow> int \<Rightarrow> 'w \<Rightarrow> string set"
    and waits :: "int \<Rightarrow> int \<Rightarrow> 'w \<Rightarrow> int"
    and queue_lives :: "int \<Rightarrow> int \<Rightarrow> int \<Rightarrow> 'w \<Rightarrow> bool"
    and queue_ttl :: int
  assumes acquired: "acquireOf C k t i n m w = (w', Inr True) \<Longrightarrow> has k t i w' = insert m (has k t i w)"
    and refused: "acquireOf C k t i n m w = (w', Inr False) \<Longrightarrow> has k t i w' = has k t i w"
    and acquire_failed: "acquireOf C k t i n m w = (w', Inl e) \<Longrightarrow> has k t i w' \<subseteq> insert m (has k t i w)"
    and released: "releaseOf C k t i m w = (w', Inr u) \<Longrightarrow> has k t i w' = has k t i w - {m}"
    and release_failed: "releaseOf C k t i m w = (w', Inl e) \<Longrightarrow> has k t i w' \<subseteq> has k t i w"
    and slots_expire: "t \<le> t' \<Longrightarrow> has k t' i w \<subseteq> has k t i w"
    and queue_keeps_slots: "has k t j (fst (ccIncrementWaitCount C t i n w)) = has k t j w"
      "has k t j (fst (ccDecrementWaitCount C t i w)) = has k t j w"
    and queued: "ccIncrementWaitCount C t i n w = (w', Inr b) \<Longrightarrow> b = (waits t i w < n)"
      "ccIncrementWaitCount C t i n w = (w', Inr True) \<Longrightarrow> waits t i w' = waits t i w + 1"
      "ccIncrementWaitCount C t i n w = (w', Inr True) \<Longrightarrow> queue_lives t i (t + queue_ttl) w'"
      "ccIncrementWaitCount C t i n w = (w', Inr False) \<Longrightarrow> waits t i w' = waits t i w"
      "ccIncrementWaitCount C t i n w = (w', Inr False) \<Longrightarrow> queue_lives t i d w \<Longrightarrow> queue_lives t i d w'"
    and unqueued: "ccDecrementWaitCount C t i w = (w', Inr u) \<Longrightarrow>
      waits t i w' = (if 0 < waits t i w then waits t i w - 1 else waits t i w)"
    and queue_kept: "queue_lives t i d w \<Longrightarrow> t \<le> t' \<Longrightarrow> t' < d \<Longrightarrow> waits t' i w = waits t i w"
      "queue_lives t i d w \<Longrightarrow> t \<le> t' \<Longrightarrow> queue_lives t' i d w"
    and slots_keep_queue: "waits t j (fst (acquireOf C k t i n m w)) = waits t j w"
      "queue_lives t j d w \<Longrightarrow> queue_lives t j d (fst (acquireOf C k t i n m w))"

section \<open>Request identifiers\<close>

text \<open>\<open>strconv.FormatUint\<close> with base 36.\<close>

definition digit36 :: "nat \<Rightarrow> char" where
  "digit36 d = (if d < 10 then chr (48 + d) else chr (87 + d))"

fun format36 :: "nat \<Rightarrow> string" where
  "format36 n = (if n < 36 then [digit36 n] else format36 (n div 36) @ [digit36 (n mod 36)])"

declare format36.simps [simp del]

text \<open>The random bytes are absent when \<open>rand.Read\<close> failed.\<close>

definition initRequestIDPrefix :: "64 word option \<Rightarrow> 64 word \<Rightarrow> 64 word \<Rightarrow> string" where
  "initRequestIDPrefix rand nanos pid =
     (case rand of Some b \<Rightarrow> ''r'' @ format36 (unat b)
      | None \<Rightarrow> ''r'' @ format36 (unat (xor nanos (push_bit 16 pid))))"

record 'w svc =
  svcWorld :: 'w
  requestIDCounter :: "64 word"

definition generateRequestID :: "string \<Rightarrow> 'w svc \<Rightarrow> 'w svc \<times> string" where
  "generateRequestID requestIDPrefix s =
     (let seq = requestIDCounter s + 1
      in (s\<lparr>requestIDCounter := seq\<rparr>, requestIDPrefix @ ''-'' @ format36 (unat seq)))"

section \<open>Slots\<close>

text \<open>
  The errors a caller sees; \<open>NilCache\<close> is the panic of a call through the nil interface. A release
  function is what it captured; \<open>NoRelease\<close> does nothing.
\<close>

datatype conc_error = CacheError string | NilCache | ContextDone string | WriteFailed string
  | StreamingUnsupported | ConcurrencyError slot_kind bool | WaitQueueFull slot_kind

datatype release_func = NoRelease | ReleaseSlot slot_kind int string

text \<open>The cache interface of the service may be nil; every operation on it runs on the world.\<close>

definition on_world :: "('w \<Rightarrow> 'w \<times> 'a) \<Rightarrow> 'w svc \<Rightarrow> 'w svc \<times> 'a" where
  "on_world f s = (let (w, a) = f (svcWorld s) in (s\<lparr>svcWorld := w\<rparr>, a))"

definition svcAcquireAccountSlot ::
    "'w conc_cache option \<Rightarrow> string \<Rightarrow> int \<Rightarrow> int \<Rightarrow> int \<Rightarrow> 'w svc \<Rightarrow> 'w svc \<times> (conc_error + release_func option)" where
  "svcAcquireAccountSlot cache pre now accountID maxConcurrency s =
     (if maxConcurrency \<le> 0 then (s, Inr (Some NoRelease))
      else let (s1, requestID) = generateRequestID pre s in
        case cache of None \<Rightarrow> (s1, Inl NilCache)
        | Some C \<Rightarrow>
          let (s2, res) = on_world (ccAcquireAccountSlot C now accountID maxConcurrency requestID) s1 in
          case res of Inl e \<Rightarrow> (s2, Inl (CacheError e))
          | Inr True \<Rightarrow> (s2, Inr (Some (ReleaseSlot AccountSlot accountID requestID)))
          | Inr False \<Rightarrow> (s2, Inr None))"

definition svcAcquireUserSlot ::
    "'w conc_cache option \<Rightarrow> string \<Rightarrow> int \<Rightarrow> int \<Rightarrow> int \<Rightarrow> 'w svc \<Rightarrow> 'w svc \<times> (conc_error + release_func option)" where
  "svcAcquireUserSlot cache pre now userID maxConcurrency s =
     (if maxConcurrency \<le> 0 then (s, Inr (Some NoRelease))
      else let (s1, requestID) = generateRequestID pre s in
        case cache of None \<Rightarrow> (s1, Inl NilCache)
        | Some C \<Rightarrow>
          let (s2, res) = on_world (ccAcquireUserSlot C now userID maxConcurrency requestID) s1 in
          case res of Inl e \<Rightarrow> (s2, Inl (CacheError e))
          | Inr True \<Rightarrow> (s2, Inr (Some (ReleaseSlot UserSlot userID requestID)))
          | Inr False \<Rightarrow> (s2, Inr None))"

text \<open>Calling a release function; a failure is logged only.\<close>

definition callRelease :: "'w conc_cache \<Rightarrow> int \<Rightarrow> release_func \<Rightarrow> 'w svc \<Rightarrow> 'w svc" where
  "callRelease C now f s =
     (case f of NoRelease \<Rightarrow> s
      | ReleaseSlot UserSlot i m \<Rightarrow> fst (on_world (ccReleaseUserSlot C now i m) s)
      | ReleaseSlot AccountSlot i m \<Rightarrow> fst (on_world (ccReleaseAccountSlot C now i m) s))"

section \<open>Wait queues\<close>

text \<open>When the cache fails the request is let in.\<close>

definition svcIncrementWaitCount :: "'w conc_cache option \<Rightarrow> int \<Rightarrow> int \<Rightarrow> int \<Rightarrow> 'w svc \<Rightarrow> 'w svc \<times> bool" where
  "svcIncrementWaitCount cache now userID maxWait s =
     (case cache of None \<Rightarrow> (s, True)
      | Some C \<Rightarrow>
        let (s1, res) = on_world (ccIncrementWaitCount C now userID maxWait) s in
        case res of Inl e \<Rightarrow> (s1, True) | Inr b \<Rightarrow> (s1, b))"

definition svcDecrementWaitCount :: "'w conc_cache option \<Rightarrow> int \<Rightarrow> int \<Rightarrow> 'w svc \<Rightarrow> 'w svc" where
  "svcDecrementWaitCount cache now userID s =
     (case cache of None \<Rightarrow> s | Some C \<Rightarrow> fst (on_world (ccDecrementWaitCount C now userID) s))"

definition svcIncrementAccountWaitCount :: "'w conc_cache option \<Rightarrow> int \<Rightarrow> int \<Rightarrow> int \<Rightarrow> 'w svc \<Rightarrow> 'w svc \<times> bool" where
  "svcIncrementAccountWaitCount cache now accountID maxWait s =
     (case cache of None \<Rightarrow> (s, True)
      | Some C \<Rightarrow>
        let (s1, res) = on_world (ccIncrementAccountWaitCount C now accountID maxWait) s in
        case res of Inl e \<Rightarrow> (s1, True) | Inr b \<Rightarrow> (s1, b))"

definition svcDecrementAccountWaitCount :: "'w conc_cache option \<Rightarrow> int \<Rightarrow> int \<Rightarrow> 'w svc \<Rightarrow> 'w svc" where
  "svcDecrementAccountWaitCount cache now accountID s =
     (case cache of None \<Rightarrow> s | Some C \<Rightarrow> fst (on_world (ccDecrementAccountWaitCount C now accountID) s))"

definition svcGetAccountWaitingCount :: "'w conc_cache option \<Rightarrow> int \<Rightarrow> int \<Rightarrow> 'w svc \<Rightarrow> 'w svc \<times> (string + int)" where
  "svcGetAccountWaitingCount cache now accountID s =
     (case cache of None \<Rightarrow> (s, Inr 0) | Some C \<Rightarrow> on_world (ccGetAccountWaitingCount C now accountID) s)"

definition defaultExtraWaitSlots :: int where "defaultExtraWaitSlots = 20"

definition CalculateMaxWait :: "int \<Rightarrow> int" where
  "CalculateMaxWait userConcurrency =
     (let n = (if userConcurrency \<le> 0 then 1 else userConcurrency) in add64 n defaultExtraWaitSlots)"

section \<open>Reads and cleanup\<close>

definition svcGetUsersLoadBatch ::
    "'w conc_cache option \<Rightarrow> int \<Rightarrow> (int \<times> int) list \<Rightarrow> 'w svc \<Rightarrow> 'w svc \<times> (string + (int \<rightharpoonup> load_info))" where
  "svcGetUsersLoadBatch cache now users s =
     (case cache of None \<Rightarrow> (s, Inr Map.empty) | Some C \<Rightarrow> on_world (ccGetUsersLoadBatch C now users) s)"

definition svcCleanupExpiredAccountSlots :: "'w conc_cache option \<Rightarrow> int \<Rightarrow> int \<Rightarrow> 'w svc \<Rightarrow> 'w svc \<times> (string + unit)" where
  "svcCleanupExpiredAccountSlots cache now accountID s =
     (case cache of None \<Rightarrow> (s, Inr ()) | Some C \<Rightarrow> on_world (ccCleanupExpiredAccountSlots C now accountID) s)"

definition svcCleanupStaleProcessSlots :: "'w conc_cache option \<Rightarrow> string \<Rightarrow> int \<Rightarrow> 'w svc \<Rightarrow> 'w svc \<times> (string + unit)" where
  "svcCleanupStaleProcessSlots cache pre now s =
     (case cache of None \<Rightarrow> (s, Inr ()) | Some C \<Rightarrow> on_world (ccCleanupStaleProcessSlots C now pre) s)"

text \<open>
  One run of the cleanup worker over the result of \<open>ListSchedulable\<close>, with the clock at which each
  account is reached; a failure at one account does not stop the others.
\<close>

fun cleanAccounts :: "'w conc_cache \<Rightarrow> (int \<times> int) list \<Rightarrow> 'w svc \<Rightarrow> 'w svc" where
  "cleanAccounts C [] s = s"
| "cleanAccounts C ((now, i) # accounts) s =
     cleanAccounts C accounts (fst (on_world (ccCleanupExpiredAccountSlots C now i) s))"

definition runCleanup :: "'w conc_cache \<Rightarrow> string + (int \<times> int) list \<Rightarrow> 'w svc \<Rightarrow> 'w svc" where
  "runCleanup C listed s = (case listed of Inl e \<Rightarrow> s | Inr accounts \<Rightarrow> cleanAccounts C accounts s)"

definition svcGetAccountConcurrencyBatch ::
    "'w conc_cache option \<Rightarrow> int \<Rightarrow> int list \<Rightarrow> 'w svc \<Rightarrow> 'w svc \<times> (string + (int \<rightharpoonup> int))" where
  "svcGetAccountConcurrencyBatch cache now accountIDs s =
     (if accountIDs = [] then (s, Inr Map.empty)
      else case cache of
        None \<Rightarrow> (s, Inr (\<lambda>i. if i \<in> set accountIDs then Some 0 else None))
      | Some C \<Rightarrow> on_world (ccGetAccountConcurrencyBatch C now accountIDs) s)"

section \<open>The cache over Redis\<close>

text \<open>
  What may happen to a call on its way: it is answered, it is lost, or it is carried out and its
  reply is lost. The caller cannot tell the last two apart. The list holds the fates of the next
  calls, all later ones are answered.
\<close>

datatype fate = Answered | CallLost | ReplyLost

type_synonym 'r net = "'r \<times> fate list"

definition remote :: "('r \<Rightarrow> 'r \<times> 'a) \<Rightarrow> 'r net \<Rightarrow> 'r net \<times> (string + 'a)" where
  "remote f w =
     (case snd w of
        [] \<Rightarrow> (let (r, a) = f (fst w) in ((r, []), Inr a))
      | Answered # fs \<Rightarrow> (let (r, a) = f (fst w) in ((r, fs), Inr a))
      | CallLost # fs \<Rightarrow> ((fst w, fs), Inl ''connection lost'')
      | ReplyLost # fs \<Rightarrow> ((fst (f (fst w)), fs), Inl ''connection lost''))"

definition redis_cache :: "'r redis \<Rightarrow> cache_config \<Rightarrow> 'r net conc_cache" where
  "redis_cache R c =
     \<lparr>ccAcquireAccountSlot = (\<lambda>now i n m. remote (AcquireAccountSlot R c now i n m)),
      ccReleaseAccountSlot = (\<lambda>now i m. remote (\<lambda>r. (ReleaseAccountSlot R now i m r, ()))),
      ccGetAccountConcurrencyBatch = (\<lambda>now ids. remote (GetAccountConcurrencyBatch R c now ids)),
      ccIncrementAccountWaitCount = (\<lambda>now i n. remote (IncrementAccountWaitCount R c now i n)),
      ccDecrementAccountWaitCount = (\<lambda>now i. remote (\<lambda>r. (DecrementAccountWaitCount R now i r, ()))),
      ccGetAccountWaitingCount = (\<lambda>now i. remote (\<lambda>r. (r, GetAccountWaitingCount R now i r))),
      ccAcquireUserSlot = (\<lambda>now i n m. remote (AcquireUserSlot R c now i n m)),
      ccReleaseUserSlot = (\<lambda>now i m. remote (\<lambda>r. (ReleaseUserSlot R now i m r, ()))),
      ccIncrementWaitCount = (\<lambda>now i n. remote (IncrementWaitCount R c now i n)),
      ccDecrementWaitCount = (\<lambda>now i. remote (\<lambda>r. (DecrementWaitCount R now i r, ()))),
      ccGetAccountsLoadBatch = (\<lambda>now accs. remote (GetAccountsLoadBatch R c now accs)),
      ccGetUsersLoadBatch = (\<lambda>now users. remote (GetUsersLoadBatch R c now users)),
      ccCleanupExpiredAccountSlots = (\<lambda>now i. remote (\<lambda>r. (CleanupExpiredAccountSlots R c now i r, ()))),
      ccCleanupStaleProcessSlots = (\<lambda>now pre. remote (\<lambda>r. (CleanupStaleProcessSlots R c now pre r, ())))\<rparr>"

definition slotKey :: "slot_kind \<Rightarrow> int \<Rightarrow> string" where
  "slotKey k i = (case k of UserSlot \<Rightarrow> userSlotKey i | AccountSlot \<Rightarrow> accountSlotKey i)"

definition redis_has :: "'r redis \<Rightarrow> cache_config \<Rightarrow> slot_kind \<Rightarrow> int \<Rightarrow> int \<Rightarrow> 'r net \<Rightarrow> string set" where
  "redis_has R c k now i w = {m. \<exists>s. ZSCORE R now (slotKey k i) m (fst w) = Some s \<and> now - s < slotTTLSeconds c}"

definition redis_waits :: "'r redis \<Rightarrow> int \<Rightarrow> int \<Rightarrow> 'r net \<Rightarrow> int" where
  "redis_waits R now i w = (case GET R now (waitQueueKey i) (fst w) of None \<Rightarrow> 0 | Some n \<Rightarrow> n)"

definition redis_queue_lives :: "'r redis \<Rightarrow> int \<Rightarrow> int \<Rightarrow> int \<Rightarrow> 'r net \<Rightarrow> bool" where
  "redis_queue_lives R now i d w = lives R now (waitQueueKey i) d (fst w)"

lemma slotKey_apart [simp]: "slotKey k i \<noteq> waitQueueKey j" "waitQueueKey j \<noteq> slotKey k i"
  by (cases k; simp add: slotKey_def userSlotKey_def accountSlotKey_def waitQueueKey_def userSlotKeyPrefix_def
      accountSlotKeyPrefix_def waitQueueKeyPrefix_def)+

lemma acquireOf_redis:
  "acquireOf (redis_cache R c) k t i n m =
     remote (\<lambda>r. let (r', res) = acquireScript R t (slotKey k i) n (slotTTLSeconds c) m r in (r', res = 1))"
  by (cases k) (simp_all add: acquireOf_def redis_cache_def slotKey_def AcquireUserSlot_def [abs_def] AcquireAccountSlot_def [abs_def])

lemma releaseOf_redis:
  "releaseOf (redis_cache R c) k t i m = remote (\<lambda>r. (ZREM R t (slotKey k i) m r, ()))"
  by (cases k) (simp_all add: releaseOf_def redis_cache_def slotKey_def ReleaseUserSlot_def ReleaseAccountSlot_def)

text \<open>A call either happened, with or without an answer, or changed nothing.\<close>

lemma remote_cases:
  assumes "remote f w = (w', res)"
  obtains (answered) "fst w' = fst (f (fst w))" "res = Inr (snd (f (fst w)))"
    | (lost) e where "fst w' = fst w" "res = Inl e"
    | (unanswered) e where "fst w' = fst (f (fst w))" "res = Inl e"
  using assms by (auto simp: remote_def split: list.splits fate.splits prod.splits)

context redis_laws
begin

lemma score_after_acquire:
  assumes "0 < ttl"
  shows "{x. \<exists>s. ZSCORE R t key x (fst (acquireScript R t key n ttl m r)) = Some s \<and> t - s < ttl} =
    (if snd (acquireScript R t key n ttl m r) = 1 then insert m {x. \<exists>s. ZSCORE R t key x r = Some s \<and> t - s < ttl}
     else {x. \<exists>s. ZSCORE R t key x r = Some s \<and> t - s < ttl})"
proof -
  let ?r = "ZREMRANGEBYSCORE R t key (t - ttl) r"
  have z: "ZSCORE R t key x (EXPIRE R t key ttl (ZADD R t key t m ?r)) = (if x = m then Some t else ZSCORE R t key x ?r)" for x
    by (simp add: expire(1) [OF assms] zadd)
  have p: "{x. \<exists>s. ZSCORE R t key x ?r = Some s \<and> t - s < ttl} = {x. \<exists>s. ZSCORE R t key x r = Some s \<and> t - s < ttl}"
    unfolding purged by simp
  have i: "{x. \<exists>s. (if x = m then Some t else ZSCORE R t key x ?r) = Some s \<and> t - s < ttl} =
      insert m {x. \<exists>s. ZSCORE R t key x ?r = Some s \<and> t - s < ttl}"
    using assms by (auto split: if_splits)
  show ?thesis by (simp add: acquireScript_def Let_def z i p)
qed

lemma acquire_other:
  assumes "key' \<noteq> key"
  shows "same_key R t key' r (fst (acquireScript R t key n ttl m r))"
proof -
  note o = other_keys(1,3,6) [OF assms]
  have "same_key R t key' r (EXPIRE R t key ttl (ZADD R t key t m (ZREMRANGEBYSCORE R t key (t - ttl) r)))"
    by (rule same_trans [OF same_trans [OF o(2) o(1)] o(3)])
  with o(2) show ?thesis by (simp add: acquireScript_def Let_def)
qed

lemma increment_other: "key' \<noteq> key \<Longrightarrow> same_key R t key' r (fst (incrementWaitScript R t key n ttl r))"
  using same_trans [OF other_keys(4) other_keys(6)] by (simp add: incrementWaitScript_def Let_def)

lemma decrement_other: "key' \<noteq> key \<Longrightarrow> same_key R t key' r (decrementWaitScript R t key r)"
  using other_keys(5) by (simp add: decrementWaitScript_def split: option.split)

lemma same_lives: "same_key R t k r r' \<Longrightarrow> lives R t k d r \<Longrightarrow> lives R t k d r'"
proof -
  assume s: "same_key R t k r r'" and l: "lives R t k d r"
  show ?thesis
    unfolding lives_def
  proof (intro allI impI)
    fix u assume "t \<le> u" "u < d"
    then show "(\<forall>m. ZSCORE R u k m r' = ZSCORE R t k m r') \<and> GET R u k r' = GET R t k r'"
      using lives_score [OF l, of u] lives_counter [OF l, of u] same_score [OF s] same_counter [OF s] by simp
  qed
qed

lemma same_has: "same_key R t (slotKey k j) (fst w) (fst w') \<Longrightarrow> redis_has R c k t j w' = redis_has R c k t j w"
  by (simp add: redis_has_def same_score)

lemma same_waits: "same_key R t (waitQueueKey j) (fst w) (fst w') \<Longrightarrow> redis_waits R t j w' = redis_waits R t j w"
  by (simp add: redis_waits_def same_counter)

text \<open>A remote call leaves a key alone when the operation does.\<close>

lemma remote_same:
  assumes "same_key R t k (fst w) (fst (f (fst w)))"
  shows "same_key R t k (fst w) (fst (fst (remote f w)))"
proof -
  obtain w' res where e: "remote f w = (w', res)" by fastforce
  then show ?thesis using assms by (cases rule: remote_cases) (simp_all add: e)
qed

end

text \<open>Redis provides what the service relies on.\<close>

lemma redis_slot_cache:
  assumes "redis_laws R" and t: "0 < slotTTLSeconds c" "0 < waitQueueTTLSeconds c"
  shows "slot_cache (redis_cache R c) (redis_has R c) (redis_waits R) (redis_queue_lives R) (waitQueueTTLSeconds c)"
proof
  note L = assms(1)
  let ?C = "redis_cache R c"
  let ?inc = "\<lambda>t i n r. let (r', res) = incrementWaitScript R t (waitQueueKey i) n (waitQueueTTLSeconds c) r in (r', res = 1)"
  have inc: "ccIncrementWaitCount ?C t i n = remote (?inc t i n)" for t i n
    by (simp add: redis_cache_def IncrementWaitCount_def [abs_def])
  have dec: "ccDecrementWaitCount ?C t i = remote (\<lambda>r. (decrementWaitScript R t (waitQueueKey i) r, ()))" for t i
    by (simp add: redis_cache_def DecrementWaitCount_def)
  note acq = redis_laws.score_after_acquire [OF L t(1)]
  {
    fix k t i n m w w'
    show "redis_has R c k t i w' = insert m (redis_has R c k t i w)" if "acquireOf ?C k t i n m w = (w', Inr True)"
      using that [unfolded acquireOf_redis]
      by (cases rule: remote_cases) (auto simp: redis_has_def Let_def case_prod_beta acq)
    show "redis_has R c k t i w' = redis_has R c k t i w" if "acquireOf ?C k t i n m w = (w', Inr False)"
      using that [unfolded acquireOf_redis]
      by (cases rule: remote_cases) (auto simp: redis_has_def Let_def case_prod_beta acq)
    show "redis_has R c k t i w' \<subseteq> insert m (redis_has R c k t i w)" if "acquireOf ?C k t i n m w = (w', Inl e)" for e
      using that [unfolded acquireOf_redis]
      by (cases rule: remote_cases) (auto simp: redis_has_def Let_def case_prod_beta acq)
    show "redis_has R c k t i w' = redis_has R c k t i w - {m}" if "releaseOf ?C k t i m w = (w', Inr u)" for u
      using that [unfolded releaseOf_redis] redis_laws.zrem [OF L]
      by (cases rule: remote_cases) (auto simp: redis_has_def split: if_splits)
    show "redis_has R c k t i w' \<subseteq> redis_has R c k t i w" if "releaseOf ?C k t i m w = (w', Inl e)" for e
      using that [unfolded releaseOf_redis] redis_laws.zrem [OF L]
      by (cases rule: remote_cases) (auto simp: redis_has_def split: if_splits)
    show "redis_has R c k t' i w \<subseteq> redis_has R c k t i w" if "t \<le> t'" for t'
      using redis_laws.members_expire [OF L that] that by (fastforce simp: redis_has_def)
    show "redis_waits R t j (fst (acquireOf ?C k t i n m w)) = redis_waits R t j w" for j
      unfolding acquireOf_redis
      by (intro redis_laws.same_waits [OF L] redis_laws.remote_same [OF L])
        (simp add: Let_def case_prod_beta redis_laws.acquire_other [OF L])
    show "redis_queue_lives R t j d (fst (acquireOf ?C k t i n m w))" if "redis_queue_lives R t j d w" for j d
      unfolding redis_queue_lives_def acquireOf_redis
      by (rule redis_laws.same_lives [OF L redis_laws.remote_same [OF L] that [unfolded redis_queue_lives_def]])
        (simp add: Let_def case_prod_beta redis_laws.acquire_other [OF L])
  next
    fix k t j i n and w :: "_ net"
    show "redis_has R c k t j (fst (ccIncrementWaitCount ?C t i n w)) = redis_has R c k t j w"
      unfolding inc
      by (intro redis_laws.same_has [OF L] redis_laws.remote_same [OF L])
        (simp add: Let_def case_prod_beta redis_laws.increment_other [OF L])
    show "redis_has R c k t j (fst (ccDecrementWaitCount ?C t i w)) = redis_has R c k t j w"
      unfolding dec
      by (intro redis_laws.same_has [OF L] redis_laws.remote_same [OF L]) (simp add: redis_laws.decrement_other [OF L])
  next
    fix t i n w w'
    note ex = redis_laws.expire(2) [OF L t(2)]
    have decr: "fst w' = decrementWaitScript R t (waitQueueKey i) (fst w) \<Longrightarrow>
        redis_waits R t i w' = (if 0 < redis_waits R t i w then redis_waits R t i w - 1 else redis_waits R t i w)"
    proof -
      assume "fst w' = decrementWaitScript R t (waitQueueKey i) (fst w)"
      then show ?thesis
        by (cases "GET R t (waitQueueKey i) (fst w)")
          (simp_all add: redis_waits_def decrementWaitScript_def redis_laws.decr [OF L])
    qed
    show "b = (redis_waits R t i w < n)" if "ccIncrementWaitCount ?C t i n w = (w', Inr b)" for b
      using that [unfolded inc] by (cases rule: remote_cases)
        (auto simp: redis_waits_def incrementWaitScript_def Let_def split: option.splits if_splits)
    show "redis_waits R t i w' = redis_waits R t i w + 1" if "ccIncrementWaitCount ?C t i n w = (w', Inr True)"
      using that [unfolded inc] by (cases rule: remote_cases)
        (auto simp: redis_waits_def incrementWaitScript_def Let_def ex redis_laws.incr [OF L] split: option.splits if_splits)
    show "redis_queue_lives R t i (t + waitQueueTTLSeconds c) w'" if "ccIncrementWaitCount ?C t i n w = (w', Inr True)"
      using that [unfolded inc] redis_laws.expire(3) [OF L t(2)] by (cases rule: remote_cases)
        (auto simp: redis_queue_lives_def incrementWaitScript_def Let_def split: option.splits if_splits)
    show "redis_waits R t i w' = redis_waits R t i w" if "ccIncrementWaitCount ?C t i n w = (w', Inr False)"
      using that [unfolded inc] by (cases rule: remote_cases)
        (auto simp: redis_waits_def incrementWaitScript_def Let_def split: option.splits if_splits)
    show "redis_queue_lives R t i d w'" if "ccIncrementWaitCount ?C t i n w = (w', Inr False)" "redis_queue_lives R t i d w" for d
      using that(1) [unfolded inc] that(2) by (cases rule: remote_cases)
        (auto simp: redis_queue_lives_def incrementWaitScript_def Let_def split: option.splits if_splits)
    show "redis_waits R t i w' = (if 0 < redis_waits R t i w then redis_waits R t i w - 1 else redis_waits R t i w)"
      if "ccDecrementWaitCount ?C t i w = (w', Inr u)" for u
    proof (rule decr)
      show "fst w' = decrementWaitScript R t (waitQueueKey i) (fst w)"
        using that [unfolded dec] by (cases rule: remote_cases) simp_all
    qed
    show "redis_waits R t' i w = redis_waits R t i w" if "redis_queue_lives R t i d w" "t \<le> t'" "t' < d" for t' d
      by (simp add: redis_waits_def redis_laws.lives_counter [OF L that(1) [unfolded redis_queue_lives_def] that(2,3)])
    show "redis_queue_lives R t' i d w" if "redis_queue_lives R t i d w" "t \<le> t'" for t' d
      using redis_laws.lives_later [OF L that(1) [unfolded redis_queue_lives_def] that(2)] by (simp add: redis_queue_lives_def)
  }
qed

text \<open>The default configuration: slots and queues live for 15 minutes.\<close>

abbreviation default_cache :: cache_config where
  "default_cache \<equiv> NewConcurrencyCache 15 0"

lemma default_cache_ttl: "slotTTLSeconds default_cache = 900" "waitQueueTTLSeconds default_cache = 900"
  by (simp_all add: NewConcurrencyCache_def Let_def)

interpretation rc: slot_cache "redis_cache map_redis default_cache" "redis_has map_redis default_cache"
  "redis_waits map_redis" "redis_queue_lives map_redis" "waitQueueTTLSeconds default_cache"
  by (rule redis_slot_cache [OF mr.redis_laws_axioms]) (simp_all add: default_cache_ttl)

end
