(* ===== verification/ConcurrencyWait.thy ===== *)
theory ConcurrencyWait
  imports ConcurrencyService
begin

text \<open>
  \<open>handler/gateway_helper.go\<close>: how a gateway handler gets a slot for its request. It tries at once,
  then queues and polls with an increasing, jittered backoff, sending pings to a streaming client,
  until it gets the slot, the wait times out or the client goes away. What the \<open>select\<close> of the loop
  receives is a list of events; before each of them the rest of the system may have done anything.
\<close>

section \<open>Floating point\<close>

text \<open>
  Go's \<open>float64\<close> for values in its normal range: \<open>fl\<close> rounds to 53 significant bits, halves to
  even; a conversion to an integer truncates.
\<close>

definition round_even :: "rat \<Rightarrow> int" where
  "round_even x =
     (let n = \<lfloor>x\<rfloor>; d = x - of_int n
      in if d < 1 / 2 then n else if 1 / 2 < d then n + 1 else if even n then n else n + 1)"

definition pow2 :: "int \<Rightarrow> rat" where
  "pow2 e = (if 0 \<le> e then 2 ^ nat e else 1 / 2 ^ nat (- e))"

definition exponent :: "rat \<Rightarrow> int" where
  "exponent x =
     (let (p, q) = quotient_of \<bar>x\<bar>; e = int (nat (bitlen p)) - int (nat (bitlen q))
      in if pow2 e \<le> \<bar>x\<bar> then e else e - 1)"

definition fl :: "rat \<Rightarrow> rat" where
  "fl x = (if x = 0 then 0 else let u = pow2 (exponent x - 52) in of_int (round_even (x / u)) * u)"

definition truncate :: "rat \<Rightarrow> int" where
  "truncate x = (if 0 \<le> x then \<lfloor>x\<rfloor> else \<lceil>x\<rceil>)"

section \<open>The backoff\<close>

text \<open>Durations are in nanoseconds.\<close>

definition initialBackoff :: int where "initialBackoff = 100000000"

definition maxBackoff :: int where "maxBackoff = 2000000000"

definition maxConcurrencyWait :: int where "maxConcurrencyWait = 30000000000"

definition defaultPingInterval :: int where "defaultPingInterval = 10000000000"

text \<open>\<open>rnd\<close> is the result of \<open>rand.Float64\<close>, from 0 to below 1.\<close>

definition nextBackoff :: "int \<Rightarrow> rat \<Rightarrow> int" where
  "nextBackoff current rnd =
     (let next1 = truncate (fl (fl (of_int current) * (3 / 2)));
          next2 = (if maxBackoff < next1 then maxBackoff else next1);
          jitter = fl (fl (8 / 10) + fl (rnd * fl (4 / 10)));
          jittered = truncate (fl (fl (of_int next2) * jitter))
      in if jittered < initialBackoff then initialBackoff
         else if maxBackoff < jittered then maxBackoff else jittered)"

section \<open>The helper\<close>

record helper =
  pingFormat :: string
  pingInterval :: int
  userWaitTimeout :: int

definition NewConcurrencyHelper :: "string \<Rightarrow> int \<Rightarrow> int \<Rightarrow> helper" where
  "NewConcurrencyHelper format interval timeout =
     \<lparr>pingFormat = format, pingInterval = (if interval \<le> 0 then defaultPingInterval else interval),
      userWaitTimeout = (if timeout \<le> 0 then maxConcurrencyWait else timeout)\<rparr>"

text \<open>
  The texts of the errors, and \<open>wrapReleaseOnDone\<close>: of the calls of the wrapped function, by the
  handler or by the end of the context, only the first one releases.
\<close>

definition slotTypeName :: "slot_kind \<Rightarrow> string" where
  "slotTypeName k = (case k of UserSlot \<Rightarrow> ''user'' | AccountSlot \<Rightarrow> ''account'')"

definition concurrencyErrorText :: "slot_kind \<Rightarrow> bool \<Rightarrow> string" where
  "concurrencyErrorText slotType isTimeout =
     (if isTimeout then ''timeout waiting for '' @ slotTypeName slotType @ '' concurrency slot''
      else slotTypeName slotType @ '' concurrency limit reached'')"

fun wrappedCalls :: "'w conc_cache \<Rightarrow> release_func \<Rightarrow> int list \<Rightarrow> bool \<times> 'w svc \<Rightarrow> bool \<times> 'w svc" where
  "wrappedCalls C f [] (done, s) = (done, s)"
| "wrappedCalls C f (now # calls) (done, s) =
     wrappedCalls C f calls (if done then (True, s) else (True, callRelease C now f s))"

section \<open>Acquiring\<close>

definition TryAcquireUserSlot ::
    "'w conc_cache option \<Rightarrow> string \<Rightarrow> int \<Rightarrow> int \<Rightarrow> int \<Rightarrow> 'w svc \<Rightarrow> 'w svc \<times> (conc_error + release_func option)" where
  "TryAcquireUserSlot cache pre now userID maxConcurrency s =
     (let (s1, result) = svcAcquireUserSlot cache pre now userID maxConcurrency s in
      case result of Inl e \<Rightarrow> (s1, Inl e) | Inr None \<Rightarrow> (s1, Inr None) | Inr (Some f) \<Rightarrow> (s1, Inr (Some f)))"

definition TryAcquireAccountSlot ::
    "'w conc_cache option \<Rightarrow> string \<Rightarrow> int \<Rightarrow> int \<Rightarrow> int \<Rightarrow> 'w svc \<Rightarrow> 'w svc \<times> (conc_error + release_func option)" where
  "TryAcquireAccountSlot cache pre now accountID maxConcurrency s =
     (let (s1, result) = svcAcquireAccountSlot cache pre now accountID maxConcurrency s in
      case result of Inl e \<Rightarrow> (s1, Inl e) | Inr None \<Rightarrow> (s1, Inr None) | Inr (Some f) \<Rightarrow> (s1, Inr (Some f)))"

text \<open>The closure \<open>acquireSlot\<close> of the wait.\<close>

definition acquireSlot ::
    "'w conc_cache option \<Rightarrow> string \<Rightarrow> slot_kind \<Rightarrow> int \<Rightarrow> int \<Rightarrow> int \<Rightarrow> 'w svc \<Rightarrow> 'w svc \<times> (conc_error + release_func option)" where
  "acquireSlot cache pre slotType now i maxConcurrency =
     (case slotType of UserSlot \<Rightarrow> svcAcquireUserSlot cache pre now i maxConcurrency
      | AccountSlot \<Rightarrow> svcAcquireAccountSlot cache pre now i maxConcurrency)"

text \<open>
  What the loop receives: the end of its context, with the error of the request's context when that
  has ended, a tick of the ping ticker, with the error of the write, or the timer, with the random
  number for the next backoff. An event has the time it is received at, in nanoseconds, the clock
  of the cache server, and what the rest of the system did since the event before.
\<close>

datatype wait_signal = CtxDone "string option" | PingTick "string option" | TimerTick rat

record 'w wait_event =
  evAt :: int
  evNow :: int
  evMeanwhile :: "'w svc \<Rightarrow> 'w svc"
  evSignal :: wait_signal

text \<open>What the client got: whether the headers are out, and the body.\<close>

record wait_output =
  streamStarted :: bool
  written :: string

definition sendPing :: "helper \<Rightarrow> string option \<Rightarrow> wait_output \<Rightarrow> wait_output" where
  "sendPing h failed out =
     (let out1 = (if \<not> streamStarted out then out\<lparr>streamStarted := True\<rparr> else out)
      in case failed of Some e \<Rightarrow> out1 | None \<Rightarrow> out1\<lparr>written := written out1 @ pingFormat h\<rparr>)"

text \<open>
  The timers of the loop: the end of its context, the start and the next tick of the ping ticker,
  the time the backoff timer is armed for, the time of the event before, and the backoff. An event
  is receivable when its timer has fired; the request's context may end at any time, and without
  pings the ping channel is nil and never ready.
\<close>

record timers =
  deadline :: int
  pingStart :: int
  nextPing :: int
  armed :: int
  lastAt :: int
  backoff :: int

definition startTimers :: "helper \<Rightarrow> int \<Rightarrow> int \<Rightarrow> timers" where
  "startTimers h start timeout =
     \<lparr>deadline = start + timeout, pingStart = start, nextPing = start + pingInterval h,
      armed = start + initialBackoff, lastAt = start, backoff = initialBackoff\<rparr>"

definition receivable :: "bool \<Rightarrow> timers \<Rightarrow> 'w wait_event \<Rightarrow> bool" where
  "receivable needPing tm ev \<longleftrightarrow> lastAt tm \<le> evAt ev \<and>
     (case evSignal ev of
        CtxDone parent \<Rightarrow> parent \<noteq> None \<or> deadline tm \<le> evAt ev
      | PingTick failed \<Rightarrow> needPing \<and> nextPing tm \<le> evAt ev
      | TimerTick rnd \<Rightarrow> armed tm \<le> evAt ev)"

text \<open>After a tick the ticker fires at the next multiple of its interval; ticks nobody took are dropped.\<close>

definition pingTicked :: "helper \<Rightarrow> int \<Rightarrow> timers \<Rightarrow> timers" where
  "pingTicked h received tm =
     tm\<lparr>lastAt := received, nextPing := pingStart tm + ((received - pingStart tm) div pingInterval h + 1) * pingInterval h\<rparr>"

definition timerReset :: "int \<Rightarrow> rat \<Rightarrow> timers \<Rightarrow> timers" where
  "timerReset received rnd tm =
     (let b = nextBackoff (backoff tm) rnd in tm\<lparr>lastAt := received, backoff := b, armed := received + b\<rparr>)"

text \<open>One round of the \<open>select\<close>: it returns from the loop or goes on.\<close>

definition waitRound ::
    "'w conc_cache option \<Rightarrow> string \<Rightarrow> helper \<Rightarrow> slot_kind \<Rightarrow> int \<Rightarrow> int \<Rightarrow> 'w wait_event \<Rightarrow>
     'w svc \<times> wait_output \<times> timers \<Rightarrow> ('w svc \<times> wait_output \<times> timers) \<times> (conc_error + release_func) option" where
  "waitRound cache pre h slotType i maxConcurrency ev st =
     (let (s0, out, tm) = st; s = evMeanwhile ev s0
      in case evSignal ev of
        CtxDone parent \<Rightarrow>
          ((s, out, tm), Some (Inl (case parent of Some e \<Rightarrow> ContextDone e | None \<Rightarrow> ConcurrencyError slotType True)))
      | PingTick failed \<Rightarrow>
          ((s, sendPing h failed out, pingTicked h (evAt ev) tm),
           (case failed of Some e \<Rightarrow> Some (Inl (WriteFailed e)) | None \<Rightarrow> None))
      | TimerTick rnd \<Rightarrow>
          (let (s1, result) = acquireSlot cache pre slotType (evNow ev) i maxConcurrency s in
           case result of
             Inl e \<Rightarrow> ((s1, out, tm), Some (Inl e))
           | Inr (Some f) \<Rightarrow> ((s1, out, tm), Some (Inr f))
           | Inr None \<Rightarrow> ((s1, out, timerReset (evAt ev) rnd tm), None)))"

text \<open>The loop over the events; it is \<open>None\<close> while it waits for the next one.\<close>

fun waitLoop ::
    "'w conc_cache option \<Rightarrow> string \<Rightarrow> helper \<Rightarrow> slot_kind \<Rightarrow> int \<Rightarrow> int \<Rightarrow> bool \<Rightarrow> 'w wait_event list \<Rightarrow>
     'w svc \<times> wait_output \<times> timers \<Rightarrow> ('w svc \<times> wait_output \<times> timers) \<times> (conc_error + release_func) option" where
  "waitLoop cache pre h slotType i maxConcurrency needPing [] st = (st, None)"
| "waitLoop cache pre h slotType i maxConcurrency needPing (ev # evs) st =
     (if \<not> receivable needPing (snd (snd st)) ev
      then waitLoop cache pre h slotType i maxConcurrency needPing evs st
      else case waitRound cache pre h slotType i maxConcurrency ev st of
          (st', Some r) \<Rightarrow> (st', Some r)
        | (st', None) \<Rightarrow> waitLoop cache pre h slotType i maxConcurrency needPing evs st')"

text \<open>\<open>flushes\<close> says whether the response writer is a flusher.\<close>

definition waitForSlotWithPingTimeout ::
    "'w conc_cache option \<Rightarrow> string \<Rightarrow> helper \<Rightarrow> int \<Rightarrow> int \<Rightarrow> slot_kind \<Rightarrow> int \<Rightarrow> int \<Rightarrow> int \<Rightarrow> bool \<Rightarrow> bool \<Rightarrow> bool \<Rightarrow>
     'w wait_event list \<Rightarrow> 'w svc \<times> wait_output \<Rightarrow> ('w svc \<times> wait_output) \<times> (conc_error + release_func) option" where
  "waitForSlotWithPingTimeout cache pre h now start slotType i maxConcurrency timeout isStream flushes tryImmediate evs st =
     (let (s, out) = st;
          (s1, early) = (if tryImmediate
            then (case acquireSlot cache pre slotType now i maxConcurrency s of
                (s1, Inl e) \<Rightarrow> (s1, Some (Inl e)) | (s1, Inr (Some f)) \<Rightarrow> (s1, Some (Inr f)) | (s1, Inr None) \<Rightarrow> (s1, None))
            else (s, None))
      in case early of Some res \<Rightarrow> ((s1, out), Some res)
         | None \<Rightarrow>
           let needPing = (isStream \<and> pingFormat h \<noteq> []) in
           if needPing \<and> \<not> flushes then ((s1, out), Some (Inl StreamingUnsupported))
           else let ((s2, out2, tm), res) =
                  waitLoop cache pre h slotType i maxConcurrency needPing evs (s1, out, startTimers h start timeout)
                in ((s2, out2), res))"

definition waitForSlotWithPing ::
    "'w conc_cache option \<Rightarrow> string \<Rightarrow> helper \<Rightarrow> int \<Rightarrow> int \<Rightarrow> slot_kind \<Rightarrow> int \<Rightarrow> int \<Rightarrow> bool \<Rightarrow> bool \<Rightarrow>
     'w wait_event list \<Rightarrow> 'w svc \<times> wait_output \<Rightarrow> ('w svc \<times> wait_output) \<times> (conc_error + release_func) option" where
  "waitForSlotWithPing cache pre h now start slotType i maxConcurrency isStream flushes evs st =
     waitForSlotWithPingTimeout cache pre h now start slotType i maxConcurrency maxConcurrencyWait isStream flushes False evs st"

text \<open>
  A call of the handler: the clocks of the cache server at which it tries, enters the queue and
  leaves it, what the rest of the system does before it enters and leaves, and the events between.
\<close>

record 'w visit =
  atTry :: int
  atQueue :: int
  atLeave :: int
  waitStart :: int
  beforeQueue :: "'w svc \<Rightarrow> 'w svc"
  beforeLeave :: "'w svc \<Rightarrow> 'w svc"
  waitEvents :: "'w wait_event list"

text \<open>The deferred decrement runs when the wait returns.\<close>

definition acquireUserSlotWithWaitTimeout ::
    "'w conc_cache option \<Rightarrow> string \<Rightarrow> helper \<Rightarrow> 'w visit \<Rightarrow> int \<Rightarrow> int \<Rightarrow> int \<Rightarrow> bool \<Rightarrow> bool \<Rightarrow>
     'w svc \<times> wait_output \<Rightarrow> ('w svc \<times> wait_output) \<times> (conc_error + release_func) option" where
  "acquireUserSlotWithWaitTimeout cache pre h v userID maxConcurrency timeout isStream flushes st =
     (let (s, out) = st;
          (s1, tried) = TryAcquireUserSlot cache pre (atTry v) userID maxConcurrency s
      in case tried of
           Inl e \<Rightarrow> ((s1, out), Some (Inl e))
         | Inr (Some f) \<Rightarrow> ((s1, out), Some (Inr f))
         | Inr None \<Rightarrow>
           (let limit = sub64 (CalculateMaxWait maxConcurrency) maxConcurrency;
                queueLimit = (if limit < 1 then 1 else limit);
                (s2, canWait) = svcIncrementWaitCount cache (atQueue v) userID queueLimit (beforeQueue v s1)
            in if \<not> canWait then ((s2, out), Some (Inl (WaitQueueFull UserSlot)))
               else let ((s3, out3), res) = waitForSlotWithPingTimeout cache pre h (atQueue v) (waitStart v) UserSlot userID
                          maxConcurrency timeout isStream flushes False (waitEvents v) (s2, out)
                    in case res of None \<Rightarrow> ((s3, out3), None)
                       | Some r \<Rightarrow> ((svcDecrementWaitCount cache (atLeave v) userID (beforeLeave v s3), out3), Some r)))"

definition AcquireUserSlotWithWait ::
    "'w conc_cache option \<Rightarrow> string \<Rightarrow> helper \<Rightarrow> 'w visit \<Rightarrow> int \<Rightarrow> int \<Rightarrow> bool \<Rightarrow> bool \<Rightarrow>
     'w svc \<times> wait_output \<Rightarrow> ('w svc \<times> wait_output) \<times> (conc_error + release_func) option" where
  "AcquireUserSlotWithWait cache pre h v userID maxConcurrency isStream flushes st =
     (let timeout = (if userWaitTimeout h \<le> 0 then maxConcurrencyWait else userWaitTimeout h)
      in acquireUserSlotWithWaitTimeout cache pre h v userID maxConcurrency timeout isStream flushes st)"

definition AcquireAccountSlotWithWait ::
    "'w conc_cache option \<Rightarrow> string \<Rightarrow> helper \<Rightarrow> int \<Rightarrow> int \<Rightarrow> int \<Rightarrow> int \<Rightarrow> bool \<Rightarrow> bool \<Rightarrow>
     'w wait_event list \<Rightarrow> 'w svc \<times> wait_output \<Rightarrow> ('w svc \<times> wait_output) \<times> (conc_error + release_func) option" where
  "AcquireAccountSlotWithWait cache pre h now start accountID maxConcurrency isStream flushes evs st =
     (let (s, out) = st;
          (s1, tried) = TryAcquireAccountSlot cache pre now accountID maxConcurrency s
      in case tried of
           Inl e \<Rightarrow> ((s1, out), Some (Inl e))
         | Inr (Some f) \<Rightarrow> ((s1, out), Some (Inr f))
         | Inr None \<Rightarrow> waitForSlotWithPing cache pre h now start AccountSlot accountID maxConcurrency isStream flushes evs (s1, out))"

definition AcquireAccountSlotWithWaitTimeout ::
    "'w conc_cache option \<Rightarrow> string \<Rightarrow> helper \<Rightarrow> int \<Rightarrow> int \<Rightarrow> int \<Rightarrow> int \<Rightarrow> int \<Rightarrow> bool \<Rightarrow> bool \<Rightarrow>
     'w wait_event list \<Rightarrow> 'w svc \<times> wait_output \<Rightarrow> ('w svc \<times> wait_output) \<times> (conc_error + release_func) option" where
  "AcquireAccountSlotWithWaitTimeout cache pre h now start accountID maxConcurrency timeout isStream flushes evs st =
     waitForSlotWithPingTimeout cache pre h now start AccountSlot accountID maxConcurrency timeout isStream flushes True evs st"

end
