(* ===== verification/WaitSafety.thy ===== *)
theory WaitSafety
  imports ConcurrencyWait
begin

text \<open>
  The properties of the wait for a slot: it ends, it leaves no slot behind that nobody releases, it
  takes back its place in the queue, and the two ways in which a failing cache breaks this.
\<close>

section \<open>The wait ends\<close>

lemma nextBackoff_bounds: "initialBackoff \<le> nextBackoff b rnd" "nextBackoff b rnd \<le> maxBackoff"
  by (simp_all add: nextBackoff_def Let_def initialBackoff_def maxBackoff_def)

text \<open>The events are received one after the other until the loop returns.\<close>

fun receives ::
    "'w conc_cache option \<Rightarrow> string \<Rightarrow> helper \<Rightarrow> slot_kind \<Rightarrow> int \<Rightarrow> int \<Rightarrow> bool \<Rightarrow> 'w wait_event list \<Rightarrow>
     'w svc \<times> wait_output \<times> timers \<Rightarrow> bool" where
  "receives cache pre h slotType i maxConcurrency needPing [] st = True"
| "receives cache pre h slotType i maxConcurrency needPing (ev # evs) st =
     (receivable needPing (snd (snd st)) ev \<and>
      (case waitRound cache pre h slotType i maxConcurrency ev st of
         (st', None) \<Rightarrow> receives cache pre h slotType i maxConcurrency needPing evs st'
       | (st', Some r) \<Rightarrow> True))"

text \<open>A tick that is received although the context is done, as the choice of a \<open>select\<close> is random.\<close>

definition late :: "int \<Rightarrow> 'w wait_event \<Rightarrow> bool" where
  "late d ev \<longleftrightarrow> d \<le> evAt ev \<and> (case evSignal ev of CtxDone p \<Rightarrow> False | _ \<Rightarrow> True)"

text \<open>The ticks before \<open>d\<close> of a timer that fires at \<open>x\<close> and every \<open>q\<close> from then on.\<close>

definition ticks_left :: "int \<Rightarrow> int \<Rightarrow> int \<Rightarrow> nat" where
  "ticks_left d x q = nat ((d - x + q - 1) div q)"

lemma ticks_left_mono: "0 < q \<Longrightarrow> x \<le> x' \<Longrightarrow> ticks_left d x' q \<le> ticks_left d x q"
  by (simp add: ticks_left_def nat_mono zdiv_mono1)

lemma ticks_left_step:
  assumes "0 < q" and "x < d" and "x + q \<le> x'"
  shows "ticks_left d x' q < ticks_left d x q"
proof -
  have "(d - x' + q - 1) div q \<le> (d - x + q - 1 - q) div q"
    using assms by (intro zdiv_mono1) simp_all
  also have "\<dots> = (d - x + q - 1) div q - 1"
  proof -
    have "d - x + q - 1 = (d - x - 1) + q" "d - x + q - 1 - q = d - x - 1" by simp_all
    with assms(1) div_add_self2 [of q "d - x - 1"] show ?thesis by (metis add_diff_cancel_right' less_irrefl)
  qed
  finally have a: "(d - x' + q - 1) div q < (d - x + q - 1) div q" by simp
  have "0 < (d - x + q - 1) div q" using assms pos_imp_zdiv_pos_iff [of q "d - x + q - 1"] by simp
  with a show ?thesis by (simp add: ticks_left_def)
qed

lemma ticks_left_start: "0 < q \<Longrightarrow> 0 \<le> T \<Longrightarrow> int (ticks_left (s + T) (s + q) q) \<le> T div q"
  using zdiv_mono1 [of "T - 1" T q] by (auto simp: ticks_left_def zdiv_mono1 nat_le_iff pos_imp_zdiv_nonneg_iff)

text \<open>The next tick of the ping ticker.\<close>

lemma next_ping:
  assumes "0 < p" and "y = b + k * p" and "y \<le> u"
  shows "y + p \<le> b + ((u - b) div p + 1) * (p::int)"
proof -
  have "k = (k * p) div p" using assms(1) by simp
  also have "\<dots> \<le> (u - b) div p" using assms by (intro zdiv_mono1) simp_all
  finally have "k * p \<le> (u - b) div p * p" using assms(1) by simp
  then show ?thesis using assms(2) by (simp add: algebra_simps)
qed

definition pings_aligned :: "helper \<Rightarrow> timers \<Rightarrow> bool" where
  "pings_aligned h tm \<longleftrightarrow> (\<exists>k. nextPing tm = pingStart tm + k * pingInterval h)"

abbreviation rounds_left :: "helper \<Rightarrow> timers \<Rightarrow> nat" where
  "rounds_left h tm \<equiv> ticks_left (deadline tm) (armed tm) initialBackoff + ticks_left (deadline tm) (nextPing tm) (pingInterval h)"

lemma round_progress:
  assumes "waitRound cache pre h k i n ev (s, out, tm) = ((s', out', tm'), None)" and "receivable needPing tm ev"
    and "0 < pingInterval h" and "pings_aligned h tm"
  shows "deadline tm' = deadline tm \<and> pings_aligned h tm' \<and>
    (if late (deadline tm) ev then rounds_left h tm' \<le> rounds_left h tm else rounds_left h tm' < rounds_left h tm)"
proof (cases "evSignal ev")
  case (CtxDone p)
  with assms(1) show ?thesis by (simp add: waitRound_def Let_def)
next
  case (PingTick failed)
  from assms(1) PingTick have tm': "tm' = pingTicked h (evAt ev) tm"
    by (auto simp: waitRound_def Let_def split: option.splits)
  from assms(4) obtain j where j: "nextPing tm = pingStart tm + j * pingInterval h" by (auto simp: pings_aligned_def)
  have r: "nextPing tm \<le> evAt ev" using assms(2) PingTick by (simp add: receivable_def)
  have n: "nextPing tm + pingInterval h \<le> nextPing tm'"
    using next_ping [OF assms(3) j r] by (simp add: tm' pingTicked_def)
  have e: "deadline tm' = deadline tm" "armed tm' = armed tm" "pings_aligned h tm'"
    by (auto simp: tm' pingTicked_def pings_aligned_def)
  show ?thesis
    using e r n ticks_left_step [OF assms(3) _ n, of "deadline tm"] ticks_left_mono [OF assms(3), of "nextPing tm" "nextPing tm'" "deadline tm"]
      assms(3) PingTick by (auto simp: late_def)
next
  case (TimerTick rnd)
  from assms(1) TimerTick have tm': "tm' = timerReset (evAt ev) rnd tm"
    by (auto simp: waitRound_def Let_def split: prod.splits sum.splits option.splits)
  have r: "armed tm \<le> evAt ev" using assms(2) TimerTick by (simp add: receivable_def)
  have q: "0 < initialBackoff" by (simp add: initialBackoff_def)
  have n: "armed tm + initialBackoff \<le> armed tm'"
    using nextBackoff_bounds(1) [of "backoff tm" rnd] r by (simp add: tm' timerReset_def Let_def)
  have e: "deadline tm' = deadline tm" "nextPing tm' = nextPing tm" "pings_aligned h tm'"
    using assms(4) by (auto simp: tm' timerReset_def Let_def pings_aligned_def)
  show ?thesis
    using e r n ticks_left_step [OF q _ n, of "deadline tm"] ticks_left_mono [OF q, of "armed tm" "armed tm'" "deadline tm"]
      q TimerTick by (auto simp: late_def)
qed

lemma waiting_rounds:
  assumes "0 < pingInterval h"
  shows "receives cache pre h k i n needPing evs (s, out, tm) \<Longrightarrow> pings_aligned h tm \<Longrightarrow>
    snd (waitLoop cache pre h k i n needPing evs (s, out, tm)) = None \<Longrightarrow>
    length evs \<le> rounds_left h tm + length (filter (late (deadline tm)) evs)"
proof (induction evs arbitrary: s out tm)
  case (Cons ev evs)
  obtain s' out' tm' res where e: "waitRound cache pre h k i n ev (s, out, tm) = ((s', out', tm'), res)"
    by (metis prod.collapse)
  from Cons.prems(1) have r: "receivable needPing tm ev" by simp
  with Cons.prems(3) e have n: "res = None" by (cases res) simp_all
  from round_progress [OF e [unfolded n] r assms Cons.prems(2)]
  have p: "deadline tm' = deadline tm" "pings_aligned h tm'"
    "rounds_left h tm' + (if late (deadline tm) ev then 0 else 1) \<le> rounds_left h tm" by (auto split: if_splits)
  have "length evs \<le> rounds_left h tm' + length (filter (late (deadline tm')) evs)"
    by (rule Cons.IH [OF _ p(2)]) (use Cons.prems e n r in simp_all)
  with p show ?case by (simp split: if_splits)
qed simp

text \<open>
  C22. The wait for a slot ends: the loop returns after at most \<open>timeout / 100 ms\<close> tries and
  \<open>timeout / pingInterval\<close> pings, and as many more rounds as the \<open>select\<close> prefers a tick to the end
  of the context.
\<close>

theorem wait_ends:
  assumes "0 < pingInterval h" and "0 \<le> timeout"
    and "receives cache pre h slotType i n needPing evs (s, out, startTimers h start timeout)"
    and "length (filter (late (start + timeout)) evs) \<le> k"
    and "timeout div initialBackoff + timeout div pingInterval h + int k < int (length evs)"
  shows "\<exists>st r. waitLoop cache pre h slotType i n needPing evs (s, out, startTimers h start timeout) = (st, Some r)"
proof (rule ccontr)
  let ?tm = "startTimers h start timeout" and ?r = "waitLoop cache pre h slotType i n needPing evs (s, out, startTimers h start timeout)"
  assume "\<not> ?thesis"
  then have n: "snd ?r = None" by (metis option.exhaust prod.collapse)
  have a: "pings_aligned h ?tm" by (auto simp: pings_aligned_def startTimers_def intro: exI [of _ 1])
  have q: "0 < initialBackoff" by (simp add: initialBackoff_def)
  have "int (rounds_left h ?tm) \<le> timeout div initialBackoff + timeout div pingInterval h"
    using ticks_left_start [OF q assms(2), of start] ticks_left_start [OF assms(1,2), of start] by (simp add: startTimers_def)
  moreover have "length evs \<le> rounds_left h ?tm + length (filter (late (start + timeout)) evs)"
    using waiting_rounds [OF assms(1,3) a n] by (simp add: startTimers_def)
  ultimately show False using assms(4,5) by linarith
qed

text \<open>A full account, a wait of 150 milliseconds, one refused try and the end of the context.\<close>

definition one_holder :: "redis_map net svc" where
  "one_holder = \<lparr>svcWorld = (fst (acquireScript map_redis 100 (userSlotKey 7) 1 900 ''a'' empty_redis), []), requestIDCounter = 0\<rparr>"

definition no_output :: wait_output where
  "no_output = \<lparr>streamStarted = False, written = []\<rparr>"

definition refused_wait :: "redis_map net wait_event list" where
  "refused_wait =
     [\<lparr>evAt = 100000000, evNow = 100, evMeanwhile = id, evSignal = TimerTick (1 / 2)\<rparr>,
      \<lparr>evAt = 150000000, evNow = 100, evMeanwhile = id, evSignal = CtxDone None\<rparr>]"

lemma one_holder_refuses:
  "svcAcquireUserSlot (Some (redis_cache map_redis default_cache)) ''p'' 100 7 1 one_holder =
     (\<lparr>svcWorld = svcWorld one_holder, requestIDCounter = 1\<rparr>, Inr None)"
  by (simp add: svcAcquireUserSlot_def generateRequestID_def Let_def on_world_def redis_cache_def AcquireUserSlot_def remote_def
      one_holder_def acquireScript_def map_redis_def empty_redis_def put_set_def put_count_def stored_set_def stored_def in_time_def
      default_cache_ttl format36.simps digit36_def chr_def)

theorem wait_ends_witness:
  "\<exists>st r. waitLoop (Some (redis_cache map_redis default_cache)) ''p'' (NewConcurrencyHelper [] 0 0) UserSlot 7 1 False refused_wait
     (one_holder, no_output, startTimers (NewConcurrencyHelper [] 0 0) 0 150000000) = (st, Some r)"
  by (rule wait_ends [where k = 0])
    (simp_all add: NewConcurrencyHelper_def defaultPingInterval_def refused_wait_def receivable_def startTimers_def initialBackoff_def
      waitRound_def acquireSlot_def one_holder_refuses Let_def timerReset_def late_def)

section \<open>No slot is left behind\<close>

text \<open>
  What the rest of the system does before an event does not give \<open>m\<close> a slot of \<open>i\<close>: request
  identifiers are not shared. The clock of the cache server does not go back.
\<close>

definition never_grants :: "(slot_kind \<Rightarrow> int \<Rightarrow> int \<Rightarrow> 'w \<Rightarrow> string set) \<Rightarrow> slot_kind \<Rightarrow> int \<Rightarrow> string \<Rightarrow> int \<Rightarrow> ('w svc \<Rightarrow> 'w svc) \<Rightarrow> bool" where
  "never_grants has k i m t f \<longleftrightarrow> (\<forall>s. m \<in> has k t i (svcWorld (f s)) \<longrightarrow> m \<in> has k t i (svcWorld s))"

fun clocked :: "int \<Rightarrow> 'w wait_event list \<Rightarrow> int \<Rightarrow> bool" where
  "clocked t [] t' = (t \<le> t')"
| "clocked t (ev # evs) t' = (t \<le> evNow ev \<and> clocked (evNow ev) evs t')"

lemma clocked_le: "clocked t evs t' \<Longrightarrow> t \<le> t'"
  by (induction evs arbitrary: t) fastforce+

lemma clocked_earlier: "clocked t evs t' \<Longrightarrow> u \<le> t \<Longrightarrow> clocked u evs t'"
  by (cases evs) auto

definition undisturbed :: "(slot_kind \<Rightarrow> int \<Rightarrow> int \<Rightarrow> 'w \<Rightarrow> string set) \<Rightarrow> int \<Rightarrow> string \<Rightarrow> 'w visit \<Rightarrow> bool" where
  "undisturbed has i m v \<longleftrightarrow> atTry v \<le> atQueue v \<and> clocked (atQueue v) (waitEvents v) (atLeave v) \<and>
     list_all (\<lambda>ev. never_grants has UserSlot i m (evNow ev) (evMeanwhile ev)) (waitEvents v) \<and>
     never_grants has UserSlot i m (atQueue v) (beforeQueue v) \<and> never_grants has UserSlot i m (atLeave v) (beforeLeave v)"

text \<open>What is left to do about the slot of a request when its acquisition has come to a result.\<close>

definition settled ::
    "(slot_kind \<Rightarrow> int \<Rightarrow> int \<Rightarrow> 'w \<Rightarrow> string set) \<Rightarrow> slot_kind \<Rightarrow> int \<Rightarrow> string \<Rightarrow> int \<Rightarrow> 'w svc \<Rightarrow> (conc_error + release_func) option \<Rightarrow> bool" where
  "settled has k i m t s res \<longleftrightarrow>
     (case res of
        Some (Inl (CacheError e)) \<Rightarrow> True
      | Some (Inr f) \<Rightarrow> m \<in> has k t i (svcWorld s) \<longrightarrow> f = ReleaseSlot k i m
      | _ \<Rightarrow> m \<notin> has k t i (svcWorld s))"

lemma on_world_eq: "on_world f s = (s\<lparr>svcWorld := fst (f (svcWorld s))\<rparr>, snd (f (svcWorld s)))"
  by (simp add: on_world_def Let_def case_prod_beta)

context slot_cache
begin

lemma settled_later: "settled has k i m t s res \<Longrightarrow> t \<le> t' \<Longrightarrow> settled has k i m t' s res"
  using slots_expire [of t t' k i "svcWorld s"] by (auto simp: settled_def split: option.splits sum.splits conc_error.splits)

lemma acquireSlot_eq:
  "acquireSlot (Some C) pre k t i n s =
    (if n \<le> 0 then (s, Inr (Some NoRelease))
     else let (s1, m) = generateRequestID pre s; (w, res) = acquireOf C k t i n m (svcWorld s1)
       in (s1\<lparr>svcWorld := w\<rparr>, case res of Inl e \<Rightarrow> Inl (CacheError e)
         | Inr b \<Rightarrow> Inr (if b then Some (ReleaseSlot k i m) else None)))"
  by (cases k) (auto simp: acquireSlot_def svcAcquireUserSlot_def svcAcquireAccountSlot_def acquireOf_def on_world_eq Let_def
      split: prod.splits sum.splits bool.splits)

lemma acquire_settles:
  assumes "m \<notin> has k t i (svcWorld s)" and "acquireSlot (Some C) pre k t i n s = (s', res)"
  shows "settled has k i m t s' (case res of Inl e \<Rightarrow> Some (Inl e) | Inr None \<Rightarrow> None | Inr (Some f) \<Rightarrow> Some (Inr f))"
proof (cases "n \<le> 0")
  case True
  with assms show ?thesis by (auto simp: acquireSlot_eq settled_def)
next
  case False
  obtain s1 m' where g: "generateRequestID pre s = (s1, m')" by fastforce
  then have w: "svcWorld s1 = svcWorld s" by (auto simp: generateRequestID_def Let_def)
  obtain w' r where a: "acquireOf C k t i n m' (svcWorld s) = (w', r)" by fastforce
  have s': "s' = s1\<lparr>svcWorld := w'\<rparr>" and res: "res = (case r of Inl e \<Rightarrow> Inl (CacheError e)
      | Inr b \<Rightarrow> Inr (if b then Some (ReleaseSlot k i m') else None))"
    using assms(2) False by (simp_all add: acquireSlot_eq g w a)
  show ?thesis
  proof (cases r)
    case (Inl e)
    then show ?thesis by (simp add: res settled_def)
  next
    case (Inr b)
    then show ?thesis using assms(1) acquired [of k t i n m' "svcWorld s" w'] refused [of k t i n m' "svcWorld s" w'] a
      by (cases b) (auto simp: s' res settled_def)
  qed
qed

lemma loop_settles:
  "m \<notin> has k t i (svcWorld s) \<Longrightarrow> clocked t evs t' \<Longrightarrow>
   list_all (\<lambda>ev. never_grants has k i m (evNow ev) (evMeanwhile ev)) evs \<Longrightarrow>
   waitLoop (Some C) pre h k i n needPing evs (s, out, tm) = ((s', out', tm'), res) \<Longrightarrow> settled has k i m t' s' res"
proof (induction evs arbitrary: s out tm t)
  case Nil
  then show ?case using slots_expire [of t t' k i "svcWorld s"] by (auto simp: settled_def)
next
  case (Cons ev evs)
  let ?s = "evMeanwhile ev s"
  from Cons.prems(2) have t: "t \<le> evNow ev" "clocked (evNow ev) evs t'" by simp_all
  have "m \<notin> has k (evNow ev) i (svcWorld s)" using slots_expire [OF t(1)] Cons.prems(1) by blast
  with Cons.prems(3) have m: "m \<notin> has k (evNow ev) i (svcWorld ?s)" by (simp add: never_grants_def) blast
  have le: "evNow ev \<le> t'" by (rule clocked_le [OF t(2)])
  note IH = Cons.IH [OF _ t(2)]
  show ?case
  proof (cases "receivable needPing tm ev")
    case False
    with Cons.prems(4) show ?thesis
      using Cons.IH [OF Cons.prems(1) clocked_earlier [OF t(2,1)]] Cons.prems(3) by simp
  next
    case True
    show ?thesis
    proof (cases "evSignal ev")
      case (CtxDone p)
      with True Cons.prems(4) have "s' = ?s" "\<exists>e. res = Some (Inl e) \<and> (\<forall>x. e \<noteq> CacheError x)"
        by (auto simp: waitRound_def Let_def split: option.splits)
      with m have "settled has k i m (evNow ev) s' res" by (auto simp: settled_def split: conc_error.split)
      then show ?thesis by (rule settled_later [OF _ le])
    next
      case (PingTick failed)
      show ?thesis
      proof (cases failed)
        case None
        with True PingTick Cons.prems(4) IH [OF m] Cons.prems(3) show ?thesis by (simp add: waitRound_def Let_def)
      next
        case (Some e)
        with True PingTick Cons.prems(4) m have "settled has k i m (evNow ev) s' res"
          by (auto simp: settled_def waitRound_def Let_def)
        then show ?thesis by (rule settled_later [OF _ le])
      qed
    next
      case (TimerTick rnd)
      obtain s1 r where a: "acquireSlot (Some C) pre k (evNow ev) i n ?s = (s1, r)" by fastforce
      note st = acquire_settles [OF m a]
      show ?thesis
      proof (cases r)
        case (Inl e)
        with True TimerTick Cons.prems(4) a st have "settled has k i m (evNow ev) s' res" by (simp add: waitRound_def Let_def)
        then show ?thesis by (rule settled_later [OF _ le])
      next
        case (Inr f)
        show ?thesis
        proof (cases f)
          case None
          with Inr st have "m \<notin> has k (evNow ev) i (svcWorld s1)" by (simp add: settled_def)
          from IH [OF this] True TimerTick Cons.prems(3,4) a Inr None show ?thesis by (simp add: waitRound_def Let_def)
        next
          case (Some g)
          with Inr True TimerTick Cons.prems(4) a st have "settled has k i m (evNow ev) s' res" by (simp add: waitRound_def Let_def)
          then show ?thesis by (rule settled_later [OF _ le])
        qed
      qed
    qed
  qed
qed

lemma try_eq: "TryAcquireUserSlot cache pre t i n s = acquireSlot cache pre UserSlot t i n s"
  by (simp add: TryAcquireUserSlot_def acquireSlot_def Let_def split: prod.split sum.split option.split)

lemma increment_world:
  "has k t j (svcWorld (fst (svcIncrementWaitCount (Some C) t i n s))) = has k t j (svcWorld s)"
  "has k t j (svcWorld (svcDecrementWaitCount (Some C) t i s)) = has k t j (svcWorld s)"
  using queue_keeps_slots [of k t j i]
  by (simp_all add: svcIncrementWaitCount_def svcDecrementWaitCount_def on_world_eq Let_def split: sum.split)

lemma wait_settles:
  assumes "m \<notin> has k t i (svcWorld s)" and "clocked t evs t'"
    and "list_all (\<lambda>ev. never_grants has k i m (evNow ev) (evMeanwhile ev)) evs"
    and "waitForSlotWithPingTimeout (Some C) pre h t start k i n timeout isStream flushes False evs (s, out) = ((s', out'), res)"
  shows "settled has k i m t' s' res"
proof (cases "isStream \<and> pingFormat h \<noteq> [] \<and> \<not> flushes")
  case True
  with assms(4) have "s' = s" "res = Some (Inl StreamingUnsupported)" by (auto simp: waitForSlotWithPingTimeout_def Let_def)
  with assms(1) have "settled has k i m t s' res" by (simp add: settled_def)
  then show ?thesis by (rule settled_later [OF _ clocked_le [OF assms(2)]])
next
  case False
  then obtain tm' where "waitLoop (Some C) pre h k i n (isStream \<and> pingFormat h \<noteq> []) evs (s, out, startTimers h start timeout) =
      ((s', out', tm'), res)"
    using assms(4) by (auto simp: waitForSlotWithPingTimeout_def Let_def split: prod.splits)
  then show ?thesis by (rule loop_settles [OF assms(1-3)])
qed

lemma visit_settles:
  assumes "m \<notin> has UserSlot (atTry v) i (svcWorld s)" and "undisturbed has i m v"
    and "acquireUserSlotWithWaitTimeout (Some C) pre h v i n timeout isStream flushes (s, out) = ((s', out'), Some res)"
  shows "settled has UserSlot i m (atLeave v) s' (Some res)"
proof -
  from assms(2) have t: "atTry v \<le> atQueue v" "clocked (atQueue v) (waitEvents v) (atLeave v)"
    and g: "list_all (\<lambda>ev. never_grants has UserSlot i m (evNow ev) (evMeanwhile ev)) (waitEvents v)"
      "never_grants has UserSlot i m (atQueue v) (beforeQueue v)" "never_grants has UserSlot i m (atLeave v) (beforeLeave v)"
    by (simp_all add: undisturbed_def)
  have le: "atTry v \<le> atLeave v" "atQueue v \<le> atLeave v" using t clocked_le by fastforce+
  obtain s1 tried where a: "acquireSlot (Some C) pre UserSlot (atTry v) i n s = (s1, tried)" by fastforce
  note st = acquire_settles [OF assms(1) a]
  show ?thesis
  proof (cases "tried = Inr None")
    case False
    then have "s' = s1" "Some res = (case tried of Inl e \<Rightarrow> Some (Inl e) | Inr None \<Rightarrow> None | Inr (Some f) \<Rightarrow> Some (Inr f))"
      using assms(3) a by (auto simp: acquireUserSlotWithWaitTimeout_def try_eq Let_def split: sum.splits option.splits)
    with st show ?thesis using settled_later [OF _ le(1)] by simp
  next
    case True
    with st have "m \<notin> has UserSlot (atTry v) i (svcWorld s1)" by (simp add: settled_def)
    with slots_expire [OF t(1)] g(2) have b: "m \<notin> has UserSlot (atQueue v) i (svcWorld (beforeQueue v s1))"
      unfolding never_grants_def by blast
    define q where "q = (let limit = sub64 (CalculateMaxWait n) n in if limit < 1 then 1 else limit)"
    obtain s2 canWait where c: "svcIncrementWaitCount (Some C) (atQueue v) i q (beforeQueue v s1) = (s2, canWait)" by fastforce
    with b have m2: "m \<notin> has UserSlot (atQueue v) i (svcWorld s2)"
      using increment_world(1) [of UserSlot "atQueue v" i i q "beforeQueue v s1"] by simp
    show ?thesis
    proof (cases canWait)
      case False
      with assms(3) a True c have "s' = s2" "res = Inl (WaitQueueFull UserSlot)"
        by (simp_all add: acquireUserSlotWithWaitTimeout_def try_eq Let_def q_def)
      with m2 have "settled has UserSlot i m (atQueue v) s' (Some res)" by (simp add: settled_def)
      then show ?thesis by (rule settled_later [OF _ le(2)])
    next
      case canWait: True
      obtain s3 out3 r where w: "waitForSlotWithPingTimeout (Some C) pre h (atQueue v) (waitStart v) UserSlot i n timeout isStream flushes False
          (waitEvents v) (s2, out) = ((s3, out3), r)" by (metis prod.collapse)
      with assms(3) a True c canWait have r: "r = Some res" "s' = svcDecrementWaitCount (Some C) (atLeave v) i (beforeLeave v s3)"
        by (auto simp: acquireUserSlotWithWaitTimeout_def try_eq Let_def q_def split: option.splits)
      have "settled has UserSlot i m (atLeave v) s3 (Some res)"
        using wait_settles [OF m2 t(2) g(1) w] r by simp
      then show ?thesis
        using g(3) increment_world(2) [of UserSlot "atLeave v" i i "beforeLeave v s3"]
        unfolding never_grants_def r settled_def by (auto split: sum.splits conc_error.splits)
    qed
  qed
qed

end

context redis_laws
begin

lemma release_shrinks:
  "redis_has R c k t i (svcWorld (callRelease (redis_cache R c) t f s)) \<subseteq> redis_has R c k t i (svcWorld s)"
proof (cases f)
  case (ReleaseSlot k' j m)
  have z: "ZSCORE R t key x (ZREM R t key' m r) = Some u \<Longrightarrow> ZSCORE R t key x r = Some u" for key key' x r u
    using same_score [OF other_keys(2) order_refl] zrem by (metis option.distinct(1))
  have w: "svcWorld (callRelease (redis_cache R c) t f s) = fst (releaseOf (redis_cache R c) k' t j m (svcWorld s))"
    by (cases k') (simp_all add: ReleaseSlot callRelease_def on_world_eq releaseOf_def)
  obtain w' res where e: "remote (\<lambda>r. (ZREM R t (slotKey k' j) m r, ())) (svcWorld s) = (w', res)" by fastforce
  then have "redis_has R c k t i w' \<subseteq> redis_has R c k t i (svcWorld s)"
    by (cases rule: remote_cases) (auto simp: redis_has_def dest: z)
  then show ?thesis by (simp add: w releaseOf_redis e)
qed (simp add: callRelease_def)

end

text \<open>
  C21. No slot is left behind: when the acquisition with waiting returns an error other than one of the cache
  itself, the request holds no slot, and when it returns a release function, it holds none after
  that was called, whatever the other requests did meanwhile.
\<close>

theorem no_slot_left_behind:
  assumes "redis_laws R" and "0 < slotTTLSeconds c" and "0 < waitQueueTTLSeconds c"
    and "m \<notin> redis_has R c UserSlot (atTry v) i (svcWorld s)"
    and "undisturbed (redis_has R c) i m v"
    and "acquireUserSlotWithWaitTimeout (Some (redis_cache R c)) pre h v i n timeout isStream flushes (s, out) = ((s', out'), Some res)"
    and "atLeave v \<le> t" and "snd (svcWorld s') = []"
  shows "case res of Inl (CacheError e) \<Rightarrow> True | Inl e \<Rightarrow> m \<notin> redis_has R c UserSlot t i (svcWorld s')
    | Inr f \<Rightarrow> m \<notin> redis_has R c UserSlot t i (svcWorld (callRelease (redis_cache R c) t f s'))"
proof -
  note C = redis_slot_cache [OF assms(1-3)]
  have st: "settled (redis_has R c) UserSlot i m t s' (Some res)"
    by (rule slot_cache.settled_later [OF C slot_cache.visit_settles [OF C assms(4-6)] assms(7)])
  show ?thesis
  proof (cases res)
    case (Inl e)
    with st show ?thesis by (cases e) (simp_all add: settled_def)
  next
    case (Inr f)
    have r: "releaseOf (redis_cache R c) UserSlot t i m (svcWorld s') = ((ZREM R t (slotKey UserSlot i) m (fst (svcWorld s')), []), Inr ())"
      using assms(8) by (simp add: releaseOf_redis remote_def)
    have "m \<notin> redis_has R c UserSlot t i (svcWorld (callRelease (redis_cache R c) t f s'))"
    proof (cases "f = ReleaseSlot UserSlot i m")
      case True
      with slot_cache.released [OF C r] r show ?thesis
        by (simp add: callRelease_def on_world_eq releaseOf_def)
    next
      case False
      with st Inr have "m \<notin> redis_has R c UserSlot t i (svcWorld s')" by (simp add: settled_def)
      with redis_laws.release_shrinks [OF assms(1)] show ?thesis by blast
    qed
    with Inr show ?thesis by simp
  qed
qed

text \<open>The holder of the only slot releases it while the request waits.\<close>

definition freed_visit :: "redis_map net visit" where
  "freed_visit = \<lparr>atTry = 100, atQueue = 100, atLeave = 101, waitStart = 0, beforeQueue = id, beforeLeave = id,
     waitEvents = [\<lparr>evAt = 100000000, evNow = 101,
       evMeanwhile = callRelease (redis_cache map_redis default_cache) 101 (ReleaseSlot UserSlot 7 ''a''), evSignal = TimerTick 0\<rparr>]\<rparr>"

abbreviation freed_result :: "(redis_map net svc \<times> wait_output) \<times> (conc_error + release_func) option" where
  "freed_result \<equiv> acquireUserSlotWithWaitTimeout (Some (redis_cache map_redis default_cache)) ''p'' (NewConcurrencyHelper [] 0 0) freed_visit 7 1
     30000000000 False False (one_holder, no_output)"

lemma freed_visit_result:
  "snd freed_result = Some (Inr (ReleaseSlot UserSlot 7 ''p-2'')) \<and> snd (svcWorld (fst (fst freed_result))) = []"
  by code_simp

theorem no_slot_left_behind_witness:
  "snd freed_result = Some (Inr (ReleaseSlot UserSlot 7 ''p-2'')) \<and>
   ''p-2'' \<notin> redis_has map_redis default_cache UserSlot 101 7
     (svcWorld (callRelease (redis_cache map_redis default_cache) 101 (ReleaseSlot UserSlot 7 ''p-2'') (fst (fst freed_result))))"
proof -
  from freed_visit_result have e: "freed_result =
      ((fst (fst freed_result), snd (fst freed_result)), Some (Inr (ReleaseSlot UserSlot 7 ''p-2'')))"
    and f: "snd (svcWorld (fst (fst freed_result))) = []" by (simp_all add: prod_eq_iff)
  have u: "undisturbed (redis_has map_redis default_cache) 7 ''p-2'' freed_visit"
    using mr.release_shrinks by (simp add: undisturbed_def freed_visit_def never_grants_def) blast
  have "ZSCORE map_redis 100 (slotKey UserSlot 7) ''p-2'' (fst (svcWorld one_holder)) = None" by code_simp
  then have m: "''p-2'' \<notin> redis_has map_redis default_cache UserSlot (atTry freed_visit) 7 (svcWorld one_holder)"
    by (simp add: redis_has_def freed_visit_def)
  from no_slot_left_behind [OF mr.redis_laws_axioms _ _ m u e _ f, of 101] freed_visit_result show ?thesis
    by (simp add: freed_visit_def default_cache_ttl)
qed

section \<open>The queue\<close>

text \<open>What every step of the wait keeps holds when it returns.\<close>

lemma loop_inv:
  assumes later: "\<And>u u' s. P u s \<Longrightarrow> u \<le> u' \<Longrightarrow> u' \<le> t' \<Longrightarrow> P u' s"
    and acq: "\<And>u s. P u s \<Longrightarrow> P u (fst (acquireSlot cache pre k u i n s))"
  shows "P t s \<Longrightarrow> clocked t evs t' \<Longrightarrow> list_all (\<lambda>ev. \<forall>s. P (evNow ev) s \<longrightarrow> P (evNow ev) (evMeanwhile ev s)) evs \<Longrightarrow>
    P t' (fst (fst (waitLoop cache pre h k i n needPing evs (s, out, tm))))"
proof (induction evs arbitrary: t s out tm)
  case Nil
  then show ?case using later [of t s t'] by simp
next
  case (Cons ev evs)
  let ?s = "evMeanwhile ev s"
  from Cons.prems(2) have t: "t \<le> evNow ev" "clocked (evNow ev) evs t'" by simp_all
  have le: "evNow ev \<le> t'" by (rule clocked_le [OF t(2)])
  from later [OF Cons.prems(1) t(1) le] Cons.prems(3) have P: "P (evNow ev) ?s" by simp
  have evs: "list_all (\<lambda>ev. \<forall>s. P (evNow ev) s \<longrightarrow> P (evNow ev) (evMeanwhile ev s)) evs" using Cons.prems(3) by simp
  note fin = later [OF _ le order_refl] and IH = Cons.IH [OF _ t(2) evs]
  show ?case
  proof (cases "receivable needPing tm ev")
    case False
    with Cons.IH [OF Cons.prems(1) clocked_earlier [OF t(2,1)] evs] show ?thesis by simp
  next
    case True
    obtain s1 out1 tm1 r where e: "waitRound cache pre h k i n ev (s, out, tm) = ((s1, out1, tm1), r)" by (metis prod.collapse)
    then have "s1 = ?s \<or> s1 = fst (acquireSlot cache pre k (evNow ev) i n ?s)"
      by (auto simp: waitRound_def Let_def split: wait_signal.splits prod.splits sum.splits option.splits)
    then have "P (evNow ev) s1" using P acq [OF P] by blast
    with True e show ?thesis using fin IH by (cases r) simp_all
  qed
qed

text \<open>
  The queue of a user, as long as only this call uses it: its length, kept until the time \<open>d\<close>, and
  every call to the cache from now on is answered.
\<close>

definition queue_is :: "'r redis \<Rightarrow> int \<Rightarrow> int \<Rightarrow> int \<Rightarrow> int \<Rightarrow> 'r net svc \<Rightarrow> bool" where
  "queue_is R i d q t s \<longleftrightarrow>
     redis_waits R t i (svcWorld s) = q \<and> redis_queue_lives R t i d (svcWorld s) \<and> snd (svcWorld s) = []"

definition leaves_queue :: "'r redis \<Rightarrow> int \<Rightarrow> int \<Rightarrow> ('r net svc \<Rightarrow> 'r net svc) \<Rightarrow> bool" where
  "leaves_queue R i t f \<longleftrightarrow> (\<forall>s. redis_waits R t i (svcWorld (f s)) = redis_waits R t i (svcWorld s) \<and>
     (\<forall>d. redis_queue_lives R t i d (svcWorld s) \<longrightarrow> redis_queue_lives R t i d (svcWorld (f s))) \<and>
     snd (svcWorld (f s)) = snd (svcWorld s))"

definition queue_to_itself :: "'r redis \<Rightarrow> int \<Rightarrow> 'r net visit \<Rightarrow> bool" where
  "queue_to_itself R i v \<longleftrightarrow> atTry v \<le> atQueue v \<and> clocked (atQueue v) (waitEvents v) (atLeave v) \<and>
     list_all (\<lambda>ev. leaves_queue R i (evNow ev) (evMeanwhile ev)) (waitEvents v) \<and>
     leaves_queue R i (atQueue v) (beforeQueue v) \<and> leaves_queue R i (atLeave v) (beforeLeave v)"

lemma leaves_queue_is: "leaves_queue R i t f \<Longrightarrow> queue_is R i d q t s \<Longrightarrow> queue_is R i d q t (f s)"
  by (simp add: leaves_queue_def queue_is_def)

lemma queue_later:
  assumes "redis_laws R" and "0 < slotTTLSeconds (c :: cache_config)" and "0 < waitQueueTTLSeconds c"
    and "queue_is R i d q t s" and "t \<le> t'" and "t' < d"
  shows "queue_is R i d q t' s"
proof -
  note C = redis_slot_cache [OF assms(1-3)]
  from assms(4) have q: "redis_queue_lives R t i d (svcWorld s)" by (simp add: queue_is_def)
  from slot_cache.queue_kept(1) [OF C q assms(5,6)] slot_cache.queue_kept(2) [OF C q assms(5)] assms(4)
  show ?thesis by (simp add: queue_is_def)
qed

lemma acquire_keeps_queue:
  assumes "redis_laws R" and "0 < slotTTLSeconds c" and "0 < waitQueueTTLSeconds c" and "queue_is R i d q t s"
  shows "queue_is R i d q t (fst (acquireSlot (Some (redis_cache R c)) pre k t j n s))"
proof -
  note C = redis_slot_cache [OF assms(1-3)]
  from assms(4) have q: "redis_queue_lives R t i d (svcWorld s)" "snd (svcWorld s) = []" by (simp_all add: queue_is_def)
  obtain s1 m where g: "generateRequestID pre s = (s1, m)" by fastforce
  then have w: "svcWorld s1 = svcWorld s" by (auto simp: generateRequestID_def Let_def)
  have "snd (fst (acquireOf (redis_cache R c) k t j n m (svcWorld s))) = []"
    using q(2) by (simp add: acquireOf_redis remote_def Let_def case_prod_beta)
  then show ?thesis
    using slot_cache.slots_keep_queue(1) [OF C, of t i k j n m "svcWorld s"] slot_cache.slots_keep_queue(2) [OF C q(1), of k j n m] assms(4)
    by (simp add: slot_cache.acquireSlot_eq [OF C] g w queue_is_def Let_def case_prod_beta)
qed

lemma wait_keeps_queue:
  assumes "redis_laws R" and "0 < slotTTLSeconds c" and "0 < waitQueueTTLSeconds c"
    and "queue_is R i d q t s" and "clocked t evs t'" and "t' < d"
    and "list_all (\<lambda>ev. leaves_queue R i (evNow ev) (evMeanwhile ev)) evs"
  shows "queue_is R i d q t'
    (fst (fst (waitForSlotWithPingTimeout (Some (redis_cache R c)) pre h t start k j n timeout isStream flushes False evs (s, out))))"
proof -
  note l = queue_later [OF assms(1-3)] and a = acquire_keeps_queue [OF assms(1-3)]
  have "list_all (\<lambda>ev. \<forall>s. queue_is R i d q (evNow ev) s \<longrightarrow> queue_is R i d q (evNow ev) (evMeanwhile ev s)) evs"
    using assms(7) leaves_queue_is by (fastforce simp: list_all_iff)
  from loop_inv [where P = "queue_is R i d q" and t' = t', OF l a assms(4,5) this] assms(6)
  have "queue_is R i d q t' (fst (fst (waitLoop (Some (redis_cache R c)) pre h k j n needPing evs (s, out, tm))))" for needPing tm
    by simp
  moreover have "queue_is R i d q t' s" by (rule l [OF assms(4) clocked_le [OF assms(5)] assms(6)])
  ultimately show ?thesis by (simp add: waitForSlotWithPingTimeout_def Let_def case_prod_beta)
qed

text \<open>The call from the point where it has been counted, or let in without: it leaves the queue at the end.\<close>

lemma leave_queue:
  assumes "redis_laws R" and "0 < slotTTLSeconds c" and "0 < waitQueueTTLSeconds c"
    and "queue_is R i d q t s" and "t < d"
  shows "redis_waits R t i (svcWorld (svcDecrementWaitCount (Some (redis_cache R c)) t i s)) = (if 0 < q then q - 1 else q)"
proof -
  note C = redis_slot_cache [OF assms(1-3)]
  obtain w where d: "ccDecrementWaitCount (redis_cache R c) t i (svcWorld s) = (w, Inr ())"
    using assms(4) by (simp add: redis_cache_def remote_def queue_is_def)
  from slot_cache.unqueued [OF C d] assms(4) show ?thesis
    by (simp add: svcDecrementWaitCount_def on_world_eq d queue_is_def)
qed

lemma leave_after_wait:
  assumes "redis_laws R" and "0 < slotTTLSeconds c" and "0 < waitQueueTTLSeconds c"
    and "queue_is R i d q (atQueue v) s" and "queue_to_itself R i v" and "atLeave v < d"
    and "waitForSlotWithPingTimeout (Some (redis_cache R c)) pre h (atQueue v) start k j n timeout isStream flushes False
      (waitEvents v) (s, out) = ((s', out'), r)"
  shows "redis_waits R (atLeave v) i (svcWorld (svcDecrementWaitCount (Some (redis_cache R c)) (atLeave v) i (beforeLeave v s'))) =
    (if 0 < q then q - 1 else q)"
proof -
  from assms(5) have v: "clocked (atQueue v) (waitEvents v) (atLeave v)"
    "list_all (\<lambda>ev. leaves_queue R i (evNow ev) (evMeanwhile ev)) (waitEvents v)" "leaves_queue R i (atLeave v) (beforeLeave v)"
    by (simp_all add: queue_to_itself_def)
  have "queue_is R i d q (atLeave v) s'"
    using wait_keeps_queue [OF assms(1-4) v(1) assms(6) v(2)] assms(7) by (metis fst_conv)
  from leave_queue [OF assms(1-3) leaves_queue_is [OF v(3) this] assms(6)] show ?thesis .
qed


text \<open>The wait that ends without a slot.\<close>

definition refused_visit :: "redis_map net visit" where
  "refused_visit = \<lparr>atTry = 100, atQueue = 100, atLeave = 101, waitStart = 0, beforeQueue = id, beforeLeave = id,
     waitEvents = [\<lparr>evAt = 150000000, evNow = 100, evMeanwhile = id, evSignal = CtxDone None\<rparr>]\<rparr>"

abbreviation refused_result :: "redis_map net svc \<Rightarrow> (redis_map net svc \<times> wait_output) \<times> (conc_error + release_func) option" where
  "refused_result s \<equiv> acquireUserSlotWithWaitTimeout (Some (redis_cache map_redis default_cache)) ''p'' (NewConcurrencyHelper [] 0 0)
     refused_visit 7 1 150000000 False False (s, no_output)"

lemma refused_visit_alone: "queue_to_itself map_redis 7 refused_visit"
  by (simp add: queue_to_itself_def refused_visit_def leaves_queue_def)

lemma split_result: "snd r = Some res \<Longrightarrow> r = ((fst (fst r), snd (fst r)), Some res)"
  by (simp add: prod_eq_iff)


text \<open>
  When the call that enters the queue is lost, the request waits without having been counted, and
  its leaving takes the place of another waiting request off the count.
\<close>

theorem lost_increment_takes_a_place:
  assumes "redis_laws R" and "0 < slotTTLSeconds c" and "0 < waitQueueTTLSeconds c"
    and "redis_waits R (atTry v) i (svcWorld s) = q" and "redis_queue_lives R (atTry v) i d (svcWorld s)"
    and "snd (svcWorld s) = [Answered, CallLost]" and "0 < q" and "0 < n" and "queue_to_itself R i v" and "atLeave v < d"
    and "snd (acquireSlot (Some (redis_cache R c)) pre UserSlot (atTry v) i n s) = Inr None"
    and "acquireUserSlotWithWaitTimeout (Some (redis_cache R c)) pre h v i n timeout isStream flushes (s, out) = ((s', out'), Some res)"
  shows "redis_waits R (atLeave v) i (svcWorld s') = q - 1"
proof -
  let ?C = "redis_cache R c"
  note C = redis_slot_cache [OF assms(1-3)]
  from assms(9) have v: "atTry v \<le> atQueue v" "clocked (atQueue v) (waitEvents v) (atLeave v)"
    "leaves_queue R i (atQueue v) (beforeQueue v)" by (simp_all add: queue_to_itself_def)
  have le: "atQueue v < d" using clocked_le [OF v(2)] assms(10) by simp
  obtain s1 where a: "acquireSlot (Some ?C) pre UserSlot (atTry v) i n s = (s1, Inr None)"
    using assms(11) by (metis prod.collapse)
  obtain s0 m where g: "generateRequestID pre s = (s0, m)" by fastforce
  then have w0: "svcWorld s0 = svcWorld s" by (auto simp: generateRequestID_def Let_def)
  have w1: "svcWorld s1 = fst (acquireOf ?C UserSlot (atTry v) i n m (svcWorld s))"
    using a assms(8) by (auto simp: slot_cache.acquireSlot_eq [OF C] g w0 Let_def split: prod.splits)
  have "redis_waits R (atTry v) i (svcWorld s1) = q" "redis_queue_lives R (atTry v) i d (svcWorld s1)"
    using slot_cache.slots_keep_queue [OF C, of "atTry v" i] assms(4,5) by (simp_all add: w1)
  then have q1: "redis_waits R (atQueue v) i (svcWorld s1) = q" "redis_queue_lives R (atQueue v) i d (svcWorld s1)"
    using slot_cache.queue_kept [OF C, of "atTry v" i d "svcWorld s1" "atQueue v"] v(1) le by simp_all
  have "snd (svcWorld s1) = [CallLost]"
    by (simp add: w1 acquireOf_redis remote_def assms(6) Let_def case_prod_beta)
  let ?s = "beforeQueue v s1"
  define lim where "lim = (let limit = sub64 (CalculateMaxWait n) n in if limit < 1 then 1 else limit)"
  have s: "redis_waits R (atQueue v) i (svcWorld ?s) = q" "redis_queue_lives R (atQueue v) i d (svcWorld ?s)" "snd (svcWorld ?s) = [CallLost]"
    using v(3) q1 \<open>snd (svcWorld s1) = [CallLost]\<close> by (simp_all add: leaves_queue_def)
  let ?s2 = "?s\<lparr>svcWorld := (fst (svcWorld ?s), [])\<rparr>"
  have inc: "svcIncrementWaitCount (Some ?C) (atQueue v) i lim ?s = (?s2, True)"
    by (simp add: svcIncrementWaitCount_def on_world_eq redis_cache_def remote_def s(3))
  have q2: "queue_is R i d q (atQueue v) ?s2"
    using s by (simp add: queue_is_def redis_waits_def redis_queue_lives_def)
  obtain s3 out3 r where e: "waitForSlotWithPingTimeout (Some ?C) pre h (atQueue v) (waitStart v) UserSlot i n timeout isStream flushes False
      (waitEvents v) (?s2, out) = ((s3, out3), r)" by (metis prod.collapse)
  with assms(12) a inc have s': "s' = svcDecrementWaitCount (Some ?C) (atLeave v) i (beforeLeave v s3)"
    by (auto simp: acquireUserSlotWithWaitTimeout_def slot_cache.try_eq [OF C] Let_def lim_def split: option.splits)
  from leave_after_wait [OF assms(1-3) q2 assms(9,10) e] assms(7) show ?thesis by (simp add: s')
qed

text \<open>One request waits in the queue; the call of a second one to enter it is lost.\<close>

definition one_waiting :: "redis_map net svc" where
  "one_waiting = \<lparr>svcWorld = (fst (incrementWaitScript map_redis 100 (waitQueueKey 7) 20 900 (fst (svcWorld one_holder))),
     [Answered, CallLost]), requestIDCounter = 1\<rparr>"

theorem lost_increment_takes_a_place_witness:
  "redis_waits map_redis 100 7 (svcWorld one_waiting) = 1 \<and>
   redis_waits map_redis 101 7 (svcWorld (fst (fst (refused_result one_waiting)))) = 0"
proof -
  have r: "snd (refused_result one_waiting) = Some (Inl (ConcurrencyError UserSlot True))" by code_simp
  have a: "snd (acquireSlot (Some (redis_cache map_redis default_cache)) ''p'' UserSlot (atTry refused_visit) 7 1 one_waiting) = Inr None"
    by code_simp
  have w: "redis_waits map_redis 100 7 (svcWorld one_waiting) = 1" by code_simp
  have g: "GET map_redis 100 (waitQueueKey 7) (fst (svcWorld one_holder)) = None" by code_simp
  have "lives map_redis 100 (waitQueueKey 7) 1000 (fst (svcWorld one_waiting))"
    using mr.expire(3) [of 900 100 "waitQueueKey 7"] by (simp add: one_waiting_def incrementWaitScript_def g)
  then have l: "redis_queue_lives map_redis (atTry refused_visit) 7 1000 (svcWorld one_waiting)"
    by (simp add: redis_queue_lives_def refused_visit_def)
  have "snd (svcWorld one_waiting) = [Answered, CallLost]" by (simp add: one_waiting_def)
  from lost_increment_takes_a_place [OF mr.redis_laws_axioms _ _ refl l this _ _ refused_visit_alone _ a split_result [OF r]] w show ?thesis
    by (simp add: default_cache_ttl refused_visit_def)
qed

text \<open>
  When the reply to an acquisition is lost, as when the client goes away while the call is under
  way, the caller gets an error and no release function, while the slot is taken and stays taken
  for its whole time to live.
\<close>

theorem lost_reply_leaks_slot:
  assumes "redis_laws R" and "0 < slotTTLSeconds c" and "0 < waitQueueTTLSeconds c"
    and "snd (svcWorld s) = ReplyLost # fs" and "int (card (redis_has R c UserSlot (atTry v) i (svcWorld s))) < n"
    and "atTry v \<le> t" and "t < atTry v + slotTTLSeconds c"
  shows "\<exists>s' e. acquireUserSlotWithWaitTimeout (Some (redis_cache R c)) pre h v i n timeout isStream flushes (s, out) =
      ((s', out), Some (Inl (CacheError e))) \<and>
    snd (generateRequestID pre s) \<in> redis_has R c UserSlot t i (svcWorld s')"
proof -
  let ?C = "redis_cache R c" and ?key = "slotKey UserSlot i" and ?t = "atTry v" and ?ttl = "slotTTLSeconds c"
  let ?r = "fst (svcWorld s)"
  note C = redis_slot_cache [OF assms(1-3)]
  obtain s1 m where g: "generateRequestID pre s = (s1, m)" by fastforce
  then have w: "svcWorld s1 = svcWorld s" by (auto simp: generateRequestID_def Let_def)
  have n: "\<not> n \<le> 0" using assms(5) by linarith
  let ?p = "ZREMRANGEBYSCORE R ?t ?key (?t - ?ttl) ?r"
  let ?r' = "EXPIRE R ?t ?key ?ttl (ZADD R ?t ?key ?t m ?p)"
  have "{x. ZSCORE R ?t ?key x ?p \<noteq> None} = redis_has R c UserSlot ?t i (svcWorld s)"
    using redis_laws.purged [OF assms(1)] by (force simp: redis_has_def)
  then have "ZCARD R ?t ?key ?p < n" using assms(5) redis_laws.zcard [OF assms(1)] by simp
  then have r': "fst (acquireScript R ?t ?key n ?ttl m ?r) = ?r'" by (simp add: acquireScript_def Let_def)
  obtain e where "acquireSlot (Some ?C) pre UserSlot ?t i n s = (s1\<lparr>svcWorld := (?r', fs)\<rparr>, Inl (CacheError e))"
    using assms(4) n r' by (auto simp: slot_cache.acquireSlot_eq [OF C] g w acquireOf_redis remote_def Let_def case_prod_beta)
  then have a: "acquireUserSlotWithWaitTimeout (Some ?C) pre h v i n timeout isStream flushes (s, out) =
      ((s1\<lparr>svcWorld := (?r', fs)\<rparr>, out), Some (Inl (CacheError e)))"
    by (simp add: acquireUserSlotWithWaitTimeout_def slot_cache.try_eq [OF C] Let_def)
  have "ZSCORE R t ?key m ?r' = ZSCORE R ?t ?key m ?r'"
    by (rule redis_laws.lives_score [OF assms(1) redis_laws.expire(3) [OF assms(1,2)] assms(6,7)])
  also have "\<dots> = Some ?t"
    by (simp add: redis_laws.expire(1) [OF assms(1,2)] redis_laws.zadd [OF assms(1)])
  finally have "m \<in> redis_has R c UserSlot t i (?r', fs)" using assms(7) by (simp add: redis_has_def)
  with a g show ?thesis by auto
qed

theorem lost_reply_leaks_slot_witness:
  "\<exists>s' e. acquireUserSlotWithWaitTimeout (Some (redis_cache map_redis default_cache)) ''p'' (NewConcurrencyHelper [] 0 0) refused_visit 7 1
      150000000 False False (\<lparr>svcWorld = (empty_redis, [ReplyLost]), requestIDCounter = 0\<rparr>, no_output) =
      ((s', no_output), Some (Inl (CacheError e))) \<and>
    ''p-1'' \<in> redis_has map_redis default_cache UserSlot 999 7 (svcWorld s')"
proof -
  let ?s = "\<lparr>svcWorld = (empty_redis, [ReplyLost]), requestIDCounter = 0\<rparr>"
  have g: "snd (generateRequestID ''p'' ?s) = ''p-1''" by code_simp
  have "redis_has map_redis default_cache UserSlot 100 7 (svcWorld ?s) = {}"
    using empty_no_slots [of 100 "slotKey UserSlot 7"] by (simp add: redis_has_def no_slots_def)
  with lost_reply_leaks_slot [OF mr.redis_laws_axioms, of default_cache ?s "[]" refused_visit 7 1 999 "''p''" "NewConcurrencyHelper [] 0 0"
      150000000 False False no_output] g
  show ?thesis by (simp add: default_cache_ttl refused_visit_def)
qed

end
