(* ===== verification/LoadCache.thy ===== *)
theory LoadCache
  imports ConcurrencyService Utf8
begin

text \<open>
  The short-lived cache of account loads in \<open>service/concurrency_service.go\<close>: at most 256 answers,
  each kept for a fraction of a second under a hash of the accounts it is for. Durations and times
  are in nanoseconds. SHA-256 is the parameter \<open>sha\<close>, the order of a Go map the parameter \<open>pick\<close>.
\<close>

section \<open>The key\<close>

text \<open>\<open>binary.LittleEndian.PutUint64\<close> of an \<open>int64\<close>.\<close>

fun le_bytes :: "nat \<Rightarrow> nat \<Rightarrow> string" where
  "le_bytes 0 x = []"
| "le_bytes (Suc n) x = chr (x mod 256) # le_bytes n (x div 256)"

definition putUint64 :: "int \<Rightarrow> string" where
  "putUint64 x = le_bytes 8 (nat (x mod 2 ^ 64))"

definition hashedAccounts :: "(int \<times> int) list \<Rightarrow> string" where
  "hashedAccounts accounts = concat (map (\<lambda>(i, maxConcurrency). putUint64 i @ putUint64 maxConcurrency) accounts)"

definition accountLoadBatchCacheKey :: "(string \<Rightarrow> string) \<Rightarrow> (int \<times> int) list \<Rightarrow> string" where
  "accountLoadBatchCacheKey sha accounts =
     itoa (int (length accounts)) @ '':'' @ hex_encode (sha (hashedAccounts accounts))"

section \<open>The cache\<close>

record cached_batch =
  cbLoadMap :: "int \<rightharpoonup> load_info"
  cbExpiresAt :: int

record load_cache =
  accountLoadCacheTTL :: int
  accountLoadCache :: "(string \<times> cached_batch) list"

definition defaultAccountLoadBatchCacheTTL :: int where "defaultAccountLoadBatchCacheTTL = 200000000"

definition maxAccountLoadBatchCacheEntries :: nat where "maxAccountLoadBatchCacheEntries = 256"

definition SetAccountLoadBatchCacheTTL :: "int \<Rightarrow> load_cache \<Rightarrow> load_cache" where
  "SetAccountLoadBatchCacheTTL ttl lc =
     (let lc1 = lc\<lparr>accountLoadCacheTTL := ttl\<rparr> in if ttl \<le> 0 then lc1\<lparr>accountLoadCache := []\<rparr> else lc1)"

definition NewConcurrencyService :: load_cache where
  "NewConcurrencyService =
     SetAccountLoadBatchCacheTTL defaultAccountLoadBatchCacheTTL \<lparr>accountLoadCacheTTL = 0, accountLoadCache = []\<rparr>"

definition cloneAccountLoadMap :: "(int \<rightharpoonup> load_info) \<Rightarrow> (int \<rightharpoonup> load_info)" where
  "cloneAccountLoadMap loadMap = (\<lambda>i. case loadMap i of None \<Rightarrow> None | Some info \<Rightarrow> Some info)"

text \<open>An expired entry is deleted by the read that finds it.\<close>

definition getCachedAccountLoadBatch :: "string \<Rightarrow> int \<Rightarrow> load_cache \<Rightarrow> load_cache \<times> (int \<rightharpoonup> load_info) option" where
  "getCachedAccountLoadBatch key now lc =
     (case map_of (accountLoadCache lc) key of
        None \<Rightarrow> (lc, None)
      | Some cached \<Rightarrow>
          if \<not> now < cbExpiresAt cached
          then (lc\<lparr>accountLoadCache := filter (\<lambda>(k, b). k \<noteq> key) (accountLoadCache lc)\<rparr>, None)
          else (lc, Some (cbLoadMap cached)))"

text \<open>The two loops of a store into a full cache: over the expired entries, then one by one over any.\<close>

definition dropExpired :: "int \<Rightarrow> (string \<times> cached_batch) list \<Rightarrow> (string \<times> cached_batch) list" where
  "dropExpired now entries = filter (\<lambda>(k, b). now < cbExpiresAt b) entries"

function dropAny :: "(nat \<Rightarrow> nat) \<Rightarrow> (string \<times> cached_batch) list \<Rightarrow> (string \<times> cached_batch) list" where
  "dropAny pick entries =
     (if length entries < maxAccountLoadBatchCacheEntries then entries
      else let key = fst (entries ! (pick (length entries) mod length entries))
        in dropAny pick (filter (\<lambda>(k, b). k \<noteq> key) entries))"
  by pat_completeness auto

termination dropAny
proof (relation "measure (\<lambda>(pick, entries). length entries)")
  fix pick :: "nat \<Rightarrow> nat" and entries :: "(string \<times> cached_batch) list" and key
  assume full: "\<not> length entries < maxAccountLoadBatchCacheEntries"
    and key: "key = fst (entries ! (pick (length entries) mod length entries))"
  from full have "0 < length entries" by (auto simp: maxAccountLoadBatchCacheEntries_def)
  then have "entries ! (pick (length entries) mod length entries) \<in> set entries" by simp
  then have "length (filter (\<lambda>(k, b). k \<noteq> key) entries) < length entries"
    using length_filter_less [of _ entries "\<lambda>(k, b). k \<noteq> key"] key by (auto split: prod.split)
  then show "((pick, filter (\<lambda>(k, b). k \<noteq> key) entries), pick, entries) \<in> measure (\<lambda>(pick, entries). length entries)"
    by simp
qed simp

declare dropAny.simps [simp del]

definition storeCachedAccountLoadBatch ::
    "(nat \<Rightarrow> nat) \<Rightarrow> int \<Rightarrow> string \<Rightarrow> (int \<rightharpoonup> load_info) \<Rightarrow> int \<Rightarrow> load_cache \<Rightarrow> load_cache" where
  "storeCachedAccountLoadBatch pick now key loadMap expiresAt lc =
     (let entries = accountLoadCache lc;
          room = (if maxAccountLoadBatchCacheEntries \<le> length entries then dropAny pick (dropExpired now entries) else entries)
      in lc\<lparr>accountLoadCache :=
           (key, \<lparr>cbLoadMap = loadMap, cbExpiresAt = expiresAt\<rparr>) # filter (\<lambda>(k, b). k \<noteq> key) room\<rparr>)"

text \<open>
  The reads. A read looks at the clock up to three times; \<open>singleflight\<close> runs the function of the
  first of several concurrent calls with one key, so a call that runs alone runs its own.
\<close>

record load_clock =
  atLookup :: int
  atFlight :: int
  atStore :: int
  atServer :: int

definition fetchAccountsLoadBatch ::
    "'w conc_cache option \<Rightarrow> int \<Rightarrow> (int \<times> int) list \<Rightarrow> 'w svc \<Rightarrow> 'w svc \<times> (string + (int \<rightharpoonup> load_info))" where
  "fetchAccountsLoadBatch cache now accounts s =
     (case cache of None \<Rightarrow> (s, Inr Map.empty) | Some C \<Rightarrow> on_world (ccGetAccountsLoadBatch C now accounts) s)"

definition loadFlight ::
    "'w conc_cache option \<Rightarrow> (nat \<Rightarrow> nat) \<Rightarrow> load_clock \<Rightarrow> string \<Rightarrow> (int \<times> int) list \<Rightarrow> 'w svc \<times> load_cache \<Rightarrow>
     ('w svc \<times> load_cache) \<times> (string + (int \<rightharpoonup> load_info))" where
  "loadFlight cache pick clk key accounts st =
     (let (s, lc) = st; (lc1, hit) = getCachedAccountLoadBatch key (atFlight clk) lc
      in case hit of Some m \<Rightarrow> ((s, lc1), Inr m)
         | None \<Rightarrow>
           (let (s1, fetched) = fetchAccountsLoadBatch cache (atServer clk) accounts s
            in case fetched of Inl e \<Rightarrow> ((s1, lc1), Inl e)
               | Inr loadMap \<Rightarrow>
                 (let cached = cloneAccountLoadMap loadMap
                  in ((s1, storeCachedAccountLoadBatch pick (atStore clk) key cached (atFlight clk + accountLoadCacheTTL lc) lc1),
                      Inr cached))))"

definition getAccountsLoadBatch ::
    "'w conc_cache option \<Rightarrow> (string \<Rightarrow> string) \<Rightarrow> (nat \<Rightarrow> nat) \<Rightarrow> load_clock \<Rightarrow> (int \<times> int) list \<Rightarrow> bool \<Rightarrow> 'w svc \<times> load_cache \<Rightarrow>
     ('w svc \<times> load_cache) \<times> (string + (int \<rightharpoonup> load_info))" where
  "getAccountsLoadBatch cache sha pick clk accounts allowCache st =
     (if accounts = [] \<or> Option.is_none cache then (st, Inr Map.empty)
      else let (s, lc) = st; ttl = accountLoadCacheTTL lc
        in if \<not> allowCache \<or> ttl \<le> 0
           then (let (s1, res) = fetchAccountsLoadBatch cache (atServer clk) accounts s in ((s1, lc), res))
           else let key = accountLoadBatchCacheKey sha accounts; (lc1, hit) = getCachedAccountLoadBatch key (atLookup clk) lc
             in case hit of Some m \<Rightarrow> ((s, lc1), Inr m)
                | None \<Rightarrow> loadFlight cache pick clk key accounts (s, lc1))"

section \<open>Different accounts have different keys\<close>

lemma le_bytes_length [simp]: "length (le_bytes n x) = n"
  by (induction n arbitrary: x) simp_all

lemma le_bytes_inj: "le_bytes n x = le_bytes n y \<Longrightarrow> x < 256 ^ n \<Longrightarrow> y < 256 ^ n \<Longrightarrow> x = y"
proof (induction n arbitrary: x y)
  case (Suc n)
  have c: "chr a = chr b \<Longrightarrow> a < 256 \<Longrightarrow> b < 256 \<Longrightarrow> a = b" for a b
    by (metis byte_chr)
  from Suc.prems have "x mod 256 = y mod 256" "le_bytes n (x div 256) = le_bytes n (y div 256)"
    using c [of "x mod 256" "y mod 256"] by simp_all
  moreover have "x div 256 < 256 ^ n" "y div 256 < 256 ^ n" using Suc.prems(2,3) by (simp_all add: less_mult_imp_div_less)
  ultimately have "x div 256 = y div 256" "x mod 256 = y mod 256" using Suc.IH by simp_all
  then show ?case by (metis mult_div_mod_eq)
qed simp

lemma putUint64_length [simp]: "length (putUint64 x) = 8"
  by (simp add: putUint64_def)

lemma putUint64_inj:
  assumes "putUint64 x = putUint64 y" and "int64_range x" and "int64_range y"
  shows "x = y"
proof -
  have b: "nat (z mod 2 ^ 64) < 256 ^ 8" for z :: int by (simp add: nat_less_iff)
  have "nat (x mod 2 ^ 64) = nat (y mod 2 ^ 64)"
    using assms(1) by (intro le_bytes_inj [of 8] b) (simp add: putUint64_def)
  then have "x mod 2 ^ 64 = y mod 2 ^ 64" by (simp add: nat_eq_iff)
  then have "wrap64 x = wrap64 y" unfolding wrap64_def by (metis mod_add_left_eq)
  then show ?thesis using assms(2,3) by (simp add: wrap64_id)
qed

definition in_range :: "(int \<times> int) list \<Rightarrow> bool" where
  "in_range accounts \<longleftrightarrow> list_all (\<lambda>(i, n). int64_range i \<and> int64_range n) accounts"

lemma hashedAccounts_simps [simp]:
  "hashedAccounts [] = []"
  "hashedAccounts ((i, n) # accounts) = putUint64 i @ putUint64 n @ hashedAccounts accounts"
  by (simp_all add: hashedAccounts_def)

lemma hashedAccounts_length: "length (hashedAccounts accounts) = 16 * length accounts"
  by (induction accounts) auto

lemma hashedAccounts_inj:
  "hashedAccounts xs = hashedAccounts ys \<Longrightarrow> in_range xs \<Longrightarrow> in_range ys \<Longrightarrow> xs = ys"
proof (induction xs arbitrary: ys)
  case Nil
  then have "length (hashedAccounts ys) = 0" by simp
  then show ?case by (simp add: hashedAccounts_length)
next
  case (Cons x xs)
  have "length (hashedAccounts ys) = 16 + 16 * length xs"
    using arg_cong [OF Cons.prems(1), of length] by (simp add: hashedAccounts_length)
  then obtain y zs where ys: "ys = y # zs" by (cases ys) simp_all
  obtain i n j m where x: "x = (i, n)" "y = (j, m)" by fastforce
  from Cons.prems(1) have e: "putUint64 i = putUint64 j" "putUint64 n = putUint64 m" "hashedAccounts xs = hashedAccounts zs"
    by (simp_all add: ys x)
  from Cons.prems(2,3) have r: "int64_range i" "int64_range n" "int64_range j" "int64_range m" "in_range xs" "in_range zs"
    by (simp_all add: ys x in_range_def)
  from putUint64_inj [OF e(1) r(1,3)] putUint64_inj [OF e(2) r(2,4)] Cons.IH [OF e(3) r(5,6)] show ?case by (simp add: ys x)
qed

lemma hex_digit_inj: "hex_digit a = hex_digit b \<Longrightarrow> a < 16 \<Longrightarrow> b < 16 \<Longrightarrow> a = b"
proof -
  assume h: "hex_digit a = hex_digit b" "a < 16" "b < 16"
  have d: "byte (hex_digit x) = (if x < 10 then 48 + x else 87 + x)" if "x < 16" for x
    using that by (simp add: hex_digit_def)
  from h(1) have "byte (hex_digit a) = byte (hex_digit b)" by simp
  then show "a = b" unfolding d [OF h(2)] d [OF h(3)] by (simp split: if_splits)
qed

lemma hex_encode_inj: "hex_encode xs = hex_encode ys \<Longrightarrow> xs = ys"
proof (induction xs arbitrary: ys)
  case Nil
  then show ?case by (cases ys) (simp_all add: hex_encode_def)
next
  case (Cons x xs)
  obtain y zs where ys: "ys = y # zs" using Cons.prems by (cases ys) (simp_all add: hex_encode_def)
  have b: "byte c div 16 < 16" "byte c mod 16 < 16" for c
    using byte_less [of c] by (simp_all add: less_mult_imp_div_less)
  from Cons.prems have "byte x div 16 = byte y div 16" "byte x mod 16 = byte y mod 16" "hex_encode xs = hex_encode zs"
    using b hex_digit_inj by (simp_all add: hex_encode_def ys)
  then have "byte x = byte y" by (metis mult_div_mod_eq)
  with Cons.IH [OF \<open>hex_encode xs = hex_encode zs\<close>] show ?case by (simp add: ys byte_def)
qed

lemma hex_encode_length [simp]: "length (hex_encode xs) = 2 * length xs"
  by (induction xs) (simp_all add: hex_encode_def)

text \<open>What is known of SHA-256: its length, and that the lists in use do not collide.\<close>

definition no_collision :: "(string \<Rightarrow> string) \<Rightarrow> (int \<times> int) list set \<Rightarrow> bool" where
  "no_collision sha S \<longleftrightarrow> (\<forall>x. length (sha x) = 32) \<and> inj_on sha (hashedAccounts ` S)"

lemma key_inj:
  assumes "accountLoadBatchCacheKey sha xs = accountLoadBatchCacheKey sha ys"
    and "no_collision sha S" and "xs \<in> S" and "ys \<in> S" and "in_range xs" and "in_range ys"
  shows "xs = ys"
proof -
  have l: "length (hex_encode (sha (hashedAccounts xs))) = length (hex_encode (sha (hashedAccounts ys)))"
    using assms(2) by (simp add: no_collision_def)
  from assms(1) have "(itoa (int (length xs)) @ '':'') @ hex_encode (sha (hashedAccounts xs)) =
      (itoa (int (length ys)) @ '':'') @ hex_encode (sha (hashedAccounts ys))"
    by (simp add: accountLoadBatchCacheKey_def)
  with l have "hex_encode (sha (hashedAccounts xs)) = hex_encode (sha (hashedAccounts ys))"
    by (metis append_eq_append_conv)
  then have "sha (hashedAccounts xs) = sha (hashedAccounts ys)" by (rule hex_encode_inj)
  with assms(2-4) have "hashedAccounts xs = hashedAccounts ys" by (auto simp: no_collision_def dest: inj_onD)
  then show ?thesis by (rule hashedAccounts_inj [OF _ assms(5,6)])
qed

section \<open>Histories\<close>

text \<open>
  What happens to the cache of a service: reads, each after the rest of the system did something,
  and changes of the time to live. The history records what was fetched from the server, when and
  for which accounts.
\<close>

datatype 'w load_op = OpLoad "'w svc \<Rightarrow> 'w svc" load_clock "nat \<Rightarrow> nat" "(int \<times> int) list" bool | OpTTL int

type_synonym load_log = "(int \<times> (int \<times> int) list \<times> (int \<rightharpoonup> load_info)) list"

definition fetchesNow :: "(string \<Rightarrow> string) \<Rightarrow> load_clock \<Rightarrow> (int \<times> int) list \<Rightarrow> bool \<Rightarrow> load_cache \<Rightarrow> bool" where
  "fetchesNow sha clk accounts allowCache lc \<longleftrightarrow>
     (let key = accountLoadBatchCacheKey sha accounts; (lc1, hit) = getCachedAccountLoadBatch key (atLookup clk) lc
      in \<not> allowCache \<or> accountLoadCacheTTL lc \<le> 0 \<or> hit = None \<and> snd (getCachedAccountLoadBatch key (atFlight clk) lc1) = None)"

fun loadStep :: "'w conc_cache \<Rightarrow> (string \<Rightarrow> string) \<Rightarrow> 'w load_op \<Rightarrow> ('w svc \<times> load_cache) \<times> load_log \<Rightarrow> ('w svc \<times> load_cache) \<times> load_log" where
  "loadStep C sha (OpLoad env clk pick accounts allowCache) ((s, lc), h) =
     (fst (getAccountsLoadBatch (Some C) sha pick clk accounts allowCache (env s, lc)),
      (if accounts \<noteq> [] \<and> fetchesNow sha clk accounts allowCache lc then
         (case snd (fetchAccountsLoadBatch (Some C) (atServer clk) accounts (env s)) of
            Inl e \<Rightarrow> h | Inr m \<Rightarrow> (atFlight clk, accounts, m) # h)
       else h))"
| "loadStep C sha (OpTTL ttl) ((s, lc), h) = ((s, SetAccountLoadBatchCacheTTL ttl lc), h)"

definition loadRun :: "'w conc_cache \<Rightarrow> (string \<Rightarrow> string) \<Rightarrow> 'w load_op list \<Rightarrow> 'w svc \<Rightarrow> ('w svc \<times> load_cache) \<times> load_log" where
  "loadRun C sha ops s = fold (loadStep C sha) ops ((s, NewConcurrencyService), [])"

section \<open>The invariant\<close>

text \<open>
  At most 256 entries, one per key, and each of them is an answer of the server, for accounts with
  this key, that was fetched less than \<open>T\<close> before it expires.
\<close>

definition cache_ok :: "(string \<Rightarrow> string) \<Rightarrow> int \<Rightarrow> load_cache \<times> load_log \<Rightarrow> bool" where
  "cache_ok sha T x \<longleftrightarrow>
     (let (lc, h) = x
      in length (accountLoadCache lc) \<le> maxAccountLoadBatchCacheEntries \<and> distinct (map fst (accountLoadCache lc)) \<and>
         accountLoadCacheTTL lc \<le> T \<and>
         (\<forall>(key, b)\<in>set (accountLoadCache lc). \<exists>u accounts. (u, accounts, cbLoadMap b) \<in> set h \<and>
            key = accountLoadBatchCacheKey sha accounts \<and> cbExpiresAt b \<le> u + T))"

lemma distinct_filter_fst: "distinct (map fst xs) \<Longrightarrow> distinct (map fst (filter P xs))"
  by (induction xs) auto

lemma dropAny_props:
  "length (dropAny pick xs) < maxAccountLoadBatchCacheEntries"
  "set (dropAny pick xs) \<subseteq> set xs"
  "distinct (map fst xs) \<Longrightarrow> distinct (map fst (dropAny pick xs))"
proof (induction pick xs rule: dropAny.induct)
  case IH: (1 pick xs)
  {
    case 1
    show ?case using IH(1) [OF _ refl] by (subst dropAny.simps) (auto simp: Let_def)
  next
    case 2
    show ?case using IH(2) [OF _ refl] by (subst dropAny.simps) (auto simp: Let_def)
  next
    case 3
    then show ?case using IH(3) [OF _ refl] by (subst dropAny.simps) (auto simp: Let_def distinct_filter_fst)
  }
qed

lemma store_props:
  assumes lc'_def: "lc' = storeCachedAccountLoadBatch pick now key m e (lc :: load_cache)"
    and "length (accountLoadCache lc) \<le> maxAccountLoadBatchCacheEntries" and "distinct (map fst (accountLoadCache lc))"
  shows "length (accountLoadCache lc') \<le> maxAccountLoadBatchCacheEntries"
    and "distinct (map fst (accountLoadCache lc'))"
    and "set (accountLoadCache lc') \<subseteq> insert (key, \<lparr>cbLoadMap = m, cbExpiresAt = e\<rparr>) (set (accountLoadCache lc))"
    and "accountLoadCacheTTL lc' = accountLoadCacheTTL lc"
    and "map_of (accountLoadCache lc') key = Some \<lparr>cbLoadMap = m, cbExpiresAt = e\<rparr>"
proof -
  define room where "room = (if maxAccountLoadBatchCacheEntries \<le> length (accountLoadCache lc)
    then dropAny pick (dropExpired now (accountLoadCache lc)) else accountLoadCache lc)"
  have lc': "accountLoadCache lc' = (key, \<lparr>cbLoadMap = m, cbExpiresAt = e\<rparr>) # filter (\<lambda>(k, b). k \<noteq> key) room"
    by (simp add: lc'_def storeCachedAccountLoadBatch_def room_def Let_def)
  have r: "length room < maxAccountLoadBatchCacheEntries" "set room \<subseteq> set (accountLoadCache lc)" "distinct (map fst room)"
    using dropAny_props [where pick = pick and xs = "dropExpired now (accountLoadCache lc)"] assms(3)
    by (auto simp: room_def dropExpired_def distinct_filter_fst)
  have "length (filter (\<lambda>(k, b). k \<noteq> key) room) \<le> length room" by simp
  with r(1) show "length (accountLoadCache lc') \<le> maxAccountLoadBatchCacheEntries"
    unfolding lc' length_Cons by linarith
  show "distinct (map fst (accountLoadCache lc'))" using distinct_filter_fst [OF r(3)] by (auto simp: lc')
  show "set (accountLoadCache lc') \<subseteq> insert (key, \<lparr>cbLoadMap = m, cbExpiresAt = e\<rparr>) (set (accountLoadCache lc))"
    using r(2) by (auto simp: lc')
  show "accountLoadCacheTTL lc' = accountLoadCacheTTL lc" by (simp add: lc'_def storeCachedAccountLoadBatch_def Let_def)
  show "map_of (accountLoadCache lc') key = Some \<lparr>cbLoadMap = m, cbExpiresAt = e\<rparr>" by (simp add: lc')
qed

lemma get_props:
  assumes "getCachedAccountLoadBatch key now lc = (lc', hit)" and "cache_ok sha T (lc, h)"
  shows "cache_ok sha T (lc', h)" and "accountLoadCacheTTL lc' = accountLoadCacheTTL lc"
    and "hit = Some m \<Longrightarrow> \<exists>u accounts. (u, accounts, m) \<in> set h \<and> key = accountLoadBatchCacheKey sha accounts \<and> now < u + T"
proof -
  let ?f = "filter (\<lambda>(k, b). k \<noteq> key) (accountLoadCache lc)"
  have f: "length ?f \<le> length (accountLoadCache lc)" "set ?f \<subseteq> set (accountLoadCache lc)" by auto
  from assms(1) have "lc' = lc \<or> lc' = lc\<lparr>accountLoadCache := ?f\<rparr>"
    by (auto simp: getCachedAccountLoadBatch_def split: option.splits if_splits)
  then show "cache_ok sha T (lc', h)" "accountLoadCacheTTL lc' = accountLoadCacheTTL lc"
    using assms(2) f order_trans [OF f(1)] by (auto simp: cache_ok_def distinct_filter_fst)
  assume "hit = Some m"
  with assms(1) obtain b where b: "map_of (accountLoadCache lc) key = Some b" "now < cbExpiresAt b" "cbLoadMap b = m"
    by (auto simp: getCachedAccountLoadBatch_def split: option.splits if_splits)
  from map_of_SomeD [OF b(1)] assms(2) obtain u accounts where "(u, accounts, cbLoadMap b) \<in> set h"
    "key = accountLoadBatchCacheKey sha accounts" "cbExpiresAt b \<le> u + T"
    by (fastforce simp: cache_ok_def)
  with b show "\<exists>u accounts. (u, accounts, m) \<in> set h \<and> key = accountLoadBatchCacheKey sha accounts \<and> now < u + T"
    by fastforce
qed

lemma ok_more: "cache_ok sha T (lc, h) \<Longrightarrow> set h \<subseteq> set h' \<Longrightarrow> cache_ok sha T (lc, h')"
  unfolding cache_ok_def Let_def by fastforce

text \<open>One read: the invariant is kept, and the answer is one the server gave for accounts with the same key.\<close>

lemma read_props:
  assumes ok: "cache_ok sha T (lc, h)" and "0 < T"
    and g: "getAccountsLoadBatch (Some C) sha pick clk accounts allowCache (s, lc) = ((s', lc'), res)"
    and h': "h' = (if accounts \<noteq> [] \<and> fetchesNow sha clk accounts allowCache lc then
         (case snd (fetchAccountsLoadBatch (Some C) (atServer clk) accounts s) of Inl e \<Rightarrow> h | Inr m \<Rightarrow> (atFlight clk, accounts, m) # h)
       else h)" and clk: "atLookup clk \<le> atFlight clk"
  shows "cache_ok sha T (lc', h')"
    and "res = Inr m \<Longrightarrow> accounts \<noteq> [] \<Longrightarrow> \<exists>u accs. (u, accs, m) \<in> set h' \<and>
      accountLoadBatchCacheKey sha accs = accountLoadBatchCacheKey sha accounts \<and> atLookup clk < u + T"
proof -
  let ?key = "accountLoadBatchCacheKey sha accounts"
  obtain lc1 hit1 where g1: "getCachedAccountLoadBatch ?key (atLookup clk) lc = (lc1, hit1)" by fastforce
  obtain lc2 hit2 where g2: "getCachedAccountLoadBatch ?key (atFlight clk) lc1 = (lc2, hit2)" by fastforce
  obtain s1 f where f: "fetchAccountsLoadBatch (Some C) (atServer clk) accounts s = (s1, f)" by fastforce
  note p1 = get_props [OF g1 ok] and p2 = get_props [OF g2 get_props(1) [OF g1 ok]]
  have clone: "cloneAccountLoadMap x = x" for x by (auto simp: cloneAccountLoadMap_def split: option.split)
  have sub: "set h \<subseteq> set h'" by (auto simp: h' split: sum.split)
  have "cache_ok sha T (lc', h') \<and> (res = Inr m \<longrightarrow> accounts \<noteq> [] \<longrightarrow>
      (\<exists>u accs. (u, accs, m) \<in> set h' \<and> accountLoadBatchCacheKey sha accs = ?key \<and> atLookup clk < u + T))"
  proof -
    consider (none) "accounts = []" | (direct) "accounts \<noteq> []" "\<not> allowCache \<or> accountLoadCacheTTL lc \<le> 0"
      | (hit1) x where "accounts \<noteq> []" "allowCache" "0 < accountLoadCacheTTL lc" "hit1 = Some x"
      | (hit2) x where "accounts \<noteq> []" "allowCache" "0 < accountLoadCacheTTL lc" "hit1 = None" "hit2 = Some x"
      | (miss) "accounts \<noteq> []" "allowCache" "0 < accountLoadCacheTTL lc" "hit1 = None" "hit2 = None"
      by (cases hit1; cases hit2) force+
    then show ?thesis
    proof cases
      case none
      with g ok sub show ?thesis by (auto simp: getAccountsLoadBatch_def intro: ok_more)
    next
      case direct
      then have "fetchesNow sha clk accounts allowCache lc" by (auto simp: fetchesNow_def Let_def split: prod.split)
      with direct f have "(atFlight clk, accounts, y) \<in> set h'" if "f = Inr y" for y using that by (simp add: h')
      then have ex: "\<exists>u accs. (u, accs, y) \<in> set h' \<and> accountLoadBatchCacheKey sha accs = ?key \<and> atLookup clk < u + T"
        if "f = Inr y" for y using that assms(2) clk by (intro exI [of _ "atFlight clk"] exI [of _ accounts]) simp
      from direct g f have "lc' = lc" "res = f" by (auto simp: getAccountsLoadBatch_def)
      with ok_more [OF ok sub] ex show ?thesis by simp
    next
      case hit1
      with g g1 have "lc' = lc1" "res = Inr x" by (simp_all add: getAccountsLoadBatch_def Let_def)
      moreover have "\<exists>u accs. (u, accs, x) \<in> set h' \<and> accountLoadBatchCacheKey sha accs = ?key \<and> atLookup clk < u + T"
        using p1(3) [OF hit1(4)] sub by fastforce
      moreover have "cache_ok sha T (lc1, h')" by (rule ok_more [OF p1(1) sub])
      ultimately show ?thesis by blast
    next
      case hit2
      with g g1 g2 have "lc' = lc2" "res = Inr x" by (simp_all add: getAccountsLoadBatch_def loadFlight_def Let_def)
      moreover have "\<exists>u accs. (u, accs, x) \<in> set h' \<and> accountLoadBatchCacheKey sha accs = ?key \<and> atLookup clk < u + T"
        using p2(3) [OF hit2(5)] sub clk by fastforce
      moreover have "cache_ok sha T (lc2, h')" by (rule ok_more [OF p2(1) sub])
      ultimately show ?thesis by blast
    next
      case miss
      then have n: "fetchesNow sha clk accounts allowCache lc" by (simp add: fetchesNow_def Let_def g1 g2)
      show ?thesis
      proof (cases f)
        case (Inl e)
        with miss g g1 g2 f have "lc' = lc2" "res = Inl e" by (simp_all add: getAccountsLoadBatch_def loadFlight_def Let_def)
        with p2(1) sub show ?thesis by (auto intro: ok_more)
      next
        case (Inr y)
        have h'': "h' = (atFlight clk, accounts, y) # h" using n miss(1) f Inr by (simp add: h')
        from miss g g1 g2 f Inr p1(2) have r: "res = Inr y"
          "lc' = storeCachedAccountLoadBatch pick (atStore clk) ?key y (atFlight clk + accountLoadCacheTTL lc) lc2"
          by (simp_all add: getAccountsLoadBatch_def loadFlight_def Let_def clone)
        from p2(1) have l: "length (accountLoadCache lc2) \<le> maxAccountLoadBatchCacheEntries" "distinct (map fst (accountLoadCache lc2))"
          by (simp_all add: cache_ok_def)
        note st = store_props [OF r(2) l]
        have t: "accountLoadCacheTTL lc2 = accountLoadCacheTTL lc" "accountLoadCacheTTL lc \<le> T"
          using p1(2) p2(2) ok by (simp_all add: cache_ok_def)
        have "cache_ok sha T (lc', h')"
          unfolding cache_ok_def Let_def prod.case
        proof (intro conjI ballI)
          fix x assume x: "x \<in> set (accountLoadCache lc')"
          show "case x of (key, b) \<Rightarrow> \<exists>u accounts. (u, accounts, cbLoadMap b) \<in> set h' \<and>
              key = accountLoadBatchCacheKey sha accounts \<and> cbExpiresAt b \<le> u + T"
          proof (cases "x \<in> set (accountLoadCache lc2)")
            case True
            with ok_more [OF p2(1) sub] show ?thesis unfolding cache_ok_def Let_def prod.case by blast
          next
            case False
            with st(3) x have "x = (?key, \<lparr>cbLoadMap = y, cbExpiresAt = atFlight clk + accountLoadCacheTTL lc\<rparr>)" by blast
            with t(2) show ?thesis by (auto simp: h'' intro!: exI [of _ "atFlight clk"] exI [of _ accounts])
          qed
        qed (use st t in simp_all)
        moreover have "\<exists>u accs. (u, accs, y) \<in> set h' \<and> accountLoadBatchCacheKey sha accs = ?key \<and> atLookup clk < u + T"
          using assms(2) clk by (intro exI [of _ "atFlight clk"] exI [of _ accounts]) (simp add: h'')
        ultimately show ?thesis using r(1) by blast
      qed
    qed
  qed
  then show "cache_ok sha T (lc', h')" and "res = Inr m \<Longrightarrow> accounts \<noteq> [] \<Longrightarrow> \<exists>u accs. (u, accs, m) \<in> set h' \<and>
      accountLoadBatchCacheKey sha accs = ?key \<and> atLookup clk < u + T" by blast+
qed

text \<open>Operations whose clocks do not go back and whose times to live are below \<open>T\<close>, on accounts in \<open>S\<close>.\<close>

definition load_op_ok :: "int \<Rightarrow> (int \<times> int) list set \<Rightarrow> 'w load_op \<Rightarrow> bool" where
  "load_op_ok T S op =
     (case op of OpLoad env clk pick accounts allowCache \<Rightarrow> atLookup clk \<le> atFlight clk \<and> accounts \<in> S | OpTTL ttl \<Rightarrow> ttl \<le> T)"

lemma step_ok:
  assumes "cache_ok sha T (lc, h)" and "0 < T" and "load_op_ok T S op" and "fst ` snd ` set h \<subseteq> S"
    and e: "loadStep C sha op ((s, lc), h) = ((s', lc'), h')"
  shows "cache_ok sha T (lc', h')" and "fst ` snd ` set h' \<subseteq> S"
proof -
  have "cache_ok sha T (lc', h') \<and> fst ` snd ` set h' \<subseteq> S"
  proof (cases op)
    case (OpLoad env clk pick accounts allowCache)
    obtain res where g: "getAccountsLoadBatch (Some C) sha pick clk accounts allowCache (env s, lc) = ((s', lc'), res)"
      using e by (cases "getAccountsLoadBatch (Some C) sha pick clk accounts allowCache (env s, lc)") (simp add: OpLoad)
    have "cache_ok sha T (lc', h')"
      by (rule read_props(1) [OF assms(1,2) g]) (use e assms(3) in \<open>simp_all add: OpLoad load_op_ok_def\<close>)
    moreover have "set h' \<subseteq> set h \<union> {x. fst (snd x) = accounts}"
      using e by (auto simp: OpLoad split: if_splits sum.splits)
    then have "fst ` snd ` set h' \<subseteq> S" using assms(3,4) by (fastforce simp: OpLoad load_op_ok_def)
    ultimately show ?thesis ..
  next
    case (OpTTL ttl)
    with e assms(1,3,4) show ?thesis
      by (cases "ttl \<le> 0") (auto simp: load_op_ok_def SetAccountLoadBatchCacheTTL_def Let_def cache_ok_def)
  qed
  then show "cache_ok sha T (lc', h')" "fst ` snd ` set h' \<subseteq> S" by simp_all
qed

lemma run_ok:
  assumes "list_all (load_op_ok T S) ops" and "defaultAccountLoadBatchCacheTTL \<le> T"
  shows "cache_ok sha T (snd (fst (loadRun C sha ops s)), snd (loadRun C sha ops s)) \<and> fst ` snd ` set (snd (loadRun C sha ops s)) \<subseteq> S"
proof -
  have T: "0 < T" using assms(2) by (simp add: defaultAccountLoadBatchCacheTTL_def)
  have "cache_ok sha T (snd (fst x), snd x) \<Longrightarrow> fst ` snd ` set (snd x) \<subseteq> S \<Longrightarrow>
      cache_ok sha T (snd (fst (fold (loadStep C sha) ops x)), snd (fold (loadStep C sha) ops x)) \<and>
      fst ` snd ` set (snd (fold (loadStep C sha) ops x)) \<subseteq> S" for x
    using assms(1)
  proof (induction ops arbitrary: x)
    case (Cons op ops)
    obtain s lc h where x: "x = ((s, lc), h)" by (metis prod.collapse)
    obtain s' lc' h' where e: "loadStep C sha op ((s, lc), h) = ((s', lc'), h')" by (metis prod.collapse)
    from Cons.prems(3) have o: "load_op_ok T S op" by simp
    have "cache_ok sha T (lc, h)" "fst ` snd ` set h \<subseteq> S" using Cons.prems(1,2) by (simp_all add: x)
    from step_ok [OF this(1) T o this(2) e] Cons.IH [of "((s', lc'), h')"] Cons.prems(3) show ?case by (simp add: x e)
  qed simp
  moreover have "cache_ok sha T (NewConcurrencyService, [])"
    using assms(2) by (simp add: cache_ok_def NewConcurrencyService_def SetAccountLoadBatchCacheTTL_def defaultAccountLoadBatchCacheTTL_def)
  ultimately show ?thesis by (simp add: loadRun_def)
qed

section \<open>Properties\<close>

text \<open>
  C26. The cache of account loads never holds more than 256 answers, whatever is read and in
  whatever order a full cache gives up its entries.
\<close>

theorem load_cache_bounded:
  assumes "list_all (load_op_ok T S) ops" and "defaultAccountLoadBatchCacheTTL \<le> T"
  shows "length (accountLoadCache (snd (fst (loadRun C sha ops s)))) \<le> maxAccountLoadBatchCacheEntries"
  using run_ok [OF assms, of sha C s] by (auto simp: cache_ok_def Let_def)

text \<open>
  C25. Every answer of a cached read is one the server gave for exactly these accounts, with these
  limits, less than the longest time to live ago: entries of other accounts, also of the same ones
  in another order, are not mixed up as long as SHA-256 does not collide on the lists in use.
\<close>

theorem cached_load_is_recent:
  assumes "list_all (load_op_ok T S) ops" and "defaultAccountLoadBatchCacheTTL \<le> T"
    and "no_collision sha S" and "\<forall>xs\<in>S. in_range xs"
    and "accounts \<in> S" and "accounts \<noteq> []" and "atLookup clk \<le> atFlight clk"
    and "loadRun C sha ops s = ((s1, lc1), h)"
    and "loadStep C sha (OpLoad env clk pick accounts allowCache) ((s1, lc1), h) = (st, h')"
    and "snd (getAccountsLoadBatch (Some C) sha pick clk accounts allowCache (env s1, lc1)) = Inr m"
  shows "\<exists>u. (u, accounts, m) \<in> set h' \<and> atLookup clk < u + T"
proof -
  have T: "0 < T" using assms(2) by (simp add: defaultAccountLoadBatchCacheTTL_def)
  from run_ok [OF assms(1,2), of sha C s] assms(8) have ok: "cache_ok sha T (lc1, h)" "fst ` snd ` set h \<subseteq> S" by simp_all
  obtain s2 lc2 where g: "getAccountsLoadBatch (Some C) sha pick clk accounts allowCache (env s1, lc1) = ((s2, lc2), Inr m)"
    using assms(10) by (metis prod.collapse)
  from assms(9) g have h': "h' = (if accounts \<noteq> [] \<and> fetchesNow sha clk accounts allowCache lc1 then
      (case snd (fetchAccountsLoadBatch (Some C) (atServer clk) accounts (env s1)) of Inl e \<Rightarrow> h | Inr m \<Rightarrow> (atFlight clk, accounts, m) # h)
    else h)" and st: "st = (s2, lc2)" by simp_all
  from read_props(2) [OF ok(1) T g h' assms(7) refl assms(6)] obtain u accs where
    a: "(u, accs, m) \<in> set h'" "accountLoadBatchCacheKey sha accs = accountLoadBatchCacheKey sha accounts" "atLookup clk < u + T"
    by blast
  have "load_op_ok T S (OpLoad env clk pick accounts allowCache)" using assms(5,7) by (simp add: load_op_ok_def)
  from step_ok(2) [OF ok(1) T this ok(2)] assms(9) st have "fst ` snd ` set h' \<subseteq> S" by metis
  with a(1) have "accs \<in> S" by force
  from key_inj [OF a(2) assms(3) this assms(5)] assms(4,5) \<open>accs \<in> S\<close> have "accs = accounts" by blast
  with a show ?thesis by blast
qed

text \<open>Two reads for one account half a second apart: the second one is answered from the first.\<close>

definition half_second_apart :: "redis_map net load_op list" where
  "half_second_apart =
     [OpTTL 800000000,
      OpLoad id \<lparr>atLookup = 1000000000, atFlight = 1000000000, atStore = 1000000000, atServer = 1\<rparr> (\<lambda>n. 0) [(7, 2)] True]"

abbreviation no_slots_yet :: "redis_map net svc" where
  "no_slots_yet \<equiv> \<lparr>svcWorld = (empty_redis, []), requestIDCounter = 0\<rparr>"

abbreviation half_second_state :: "(redis_map net svc \<times> load_cache) \<times> load_log" where
  "half_second_state \<equiv> loadRun (redis_cache map_redis default_cache) (\<lambda>x. replicate 32 CHR ''h'') half_second_apart no_slots_yet"

theorem load_cache_bounded_witness:
  "length (accountLoadCache (snd (fst half_second_state))) = 1 \<and>
   length (accountLoadCache (snd (fst half_second_state))) \<le> maxAccountLoadBatchCacheEntries"
proof -
  have "length (accountLoadCache (snd (fst half_second_state))) = 1" by code_simp
  moreover have "length (accountLoadCache (snd (fst half_second_state))) \<le> maxAccountLoadBatchCacheEntries"
    by (rule load_cache_bounded [of 800000000 "{[(7, 2)]}"])
      (simp_all add: half_second_apart_def load_op_ok_def defaultAccountLoadBatchCacheTTL_def)
  ultimately show ?thesis ..
qed

theorem cached_load_is_recent_witness:
  "let clk = \<lparr>atLookup = 1500000000, atFlight = 1500000000, atStore = 1500000000, atServer = 2\<rparr>;
       ((s, lc), h) = half_second_state
   in \<exists>m u. snd (getAccountsLoadBatch (Some (redis_cache map_redis default_cache)) (\<lambda>x. replicate 32 CHR ''h'') (\<lambda>n. 0) clk [(7, 2)] True (s, lc)) = Inr m \<and>
     (u, [(7, 2)], m) \<in> set h \<and> 1500000000 < u + 800000000"
proof -
  define clk where "clk = \<lparr>atLookup = 1500000000, atFlight = 1500000000, atStore = 1500000000, atServer = 2\<rparr>"
  let ?C = "redis_cache map_redis default_cache" and ?sha = "\<lambda>x. replicate 32 CHR ''h''"
  obtain s lc h where st: "half_second_state = ((s, lc), h)" by (metis prod.collapse)
  obtain t h' where t: "loadStep ?C ?sha (OpLoad id clk (\<lambda>n. 0) [(7, 2)] True) ((s, lc), h) = (t, h')" by fastforce
  have "\<not> fetchesNow ?sha \<lparr>atLookup = 1500000000, atFlight = 1500000000, atStore = 1500000000, atServer = 2\<rparr> [(7, 2)] True (snd (fst half_second_state))"
    by code_simp
  then have n: "\<not> fetchesNow ?sha clk [(7, 2)] True lc" by (simp add: st clk_def)
  have "case snd (getAccountsLoadBatch (Some ?C) ?sha (\<lambda>n. 0) \<lparr>atLookup = 1500000000, atFlight = 1500000000, atStore = 1500000000, atServer = 2\<rparr>
        [(7, 2)] True (fst half_second_state)) of Inl e \<Rightarrow> False | Inr m \<Rightarrow> True"
    by code_simp
  then obtain m where m: "snd (getAccountsLoadBatch (Some ?C) ?sha (\<lambda>n. 0) clk [(7, 2)] True (id s, lc)) = Inr m"
    unfolding st fst_conv clk_def [symmetric] id_apply
    by (cases "snd (getAccountsLoadBatch (Some ?C) ?sha (\<lambda>n. 0) clk [(7, 2)] True (s, lc))") simp_all
  from t n have h': "h' = h" by simp
  have o: "list_all (load_op_ok 800000000 {[(7, 2)]}) half_second_apart"
    by (simp add: half_second_apart_def load_op_ok_def)
  have d: "defaultAccountLoadBatchCacheTTL \<le> 800000000" by (simp add: defaultAccountLoadBatchCacheTTL_def)
  have "\<exists>u. (u, [(7, 2)], m) \<in> set h' \<and> atLookup clk < u + 800000000"
    by (rule cached_load_is_recent [OF o d _ _ _ _ _ st t m]) (simp_all add: no_collision_def in_range_def int64_range_def clk_def)
  with m h' show ?thesis by (auto simp: Let_def st clk_def)
qed

end
