(* ===== verification/Programs.thy ===== *)
theory Programs
  imports Prelude
begin

text \<open>
  Programs as sequences of calls, for the services whose statements interleave. A request is a \<open>prog\<close>:
  it is back with a value, or it makes one call to the database or to another service and goes on
  with the reply. A call changes the world at once, as a statement or a transaction of the database
  does; between two calls of one request anything may happen. \<open>run\<close> executes one request alone under a
  script that says which calls answer, which fail without effect, and which take effect while the
  reply is lost. \<open>sys_step\<close> lets any number of requests take turns, fail, lose replies and die. \<open>safe\<close>
  is a rely-guarantee calculus over programs and the locale \<open>rely_guarantee\<close> proves it sound once.
\<close>

section \<open>Programs\<close>

datatype ('c, 'r, 'a) prog = Done 'a | Call 'c "'r \<Rightarrow> ('c, 'r, 'a) prog"

primrec bind :: "('c, 'r, 'a) prog \<Rightarrow> ('a \<Rightarrow> ('c, 'r, 'b) prog) \<Rightarrow> ('c, 'r, 'b) prog" where
  "bind (Done a) f = f a"
| "bind (Call c k) f = Call c (\<lambda>r. bind (k r) f)"

lemma bind_Done [simp]: "bind m Done = m"
  by (induction m) auto

lemma bind_assoc: "bind (bind m f) g = bind m (\<lambda>a. bind (f a) g)"
  by (induction m) auto

text \<open>A Go function that returns \<open>(T, error)\<close> is followed by its caller's \<open>if err != nil\<close>.\<close>

definition try_bind :: "('c, 'r, 'e + 'a) prog \<Rightarrow> ('a \<Rightarrow> ('c, 'r, 'e + 'b) prog) \<Rightarrow> ('c, 'r, 'e + 'b) prog" where
  "try_bind m f = bind m (\<lambda>r. case r of Inl e \<Rightarrow> Done (Inl e) | Inr a \<Rightarrow> f a)"

primrec for_each :: "('x \<Rightarrow> 'b \<Rightarrow> ('c, 'r, 'b) prog) \<Rightarrow> 'x list \<Rightarrow> 'b \<Rightarrow> ('c, 'r, 'b) prog" where
  "for_each f [] b = Done b"
| "for_each f (x # xs) b = bind (f x b) (for_each f xs)"

text \<open>The calls a program may make.\<close>

primrec only :: "('c \<Rightarrow> bool) \<Rightarrow> ('c, 'r, 'a) prog \<Rightarrow> bool" where
  "only P (Done a) \<longleftrightarrow> True"
| "only P (Call c k) \<longleftrightarrow> P c \<and> (\<forall>r. only P (k r))"

lemma only_bind: "only P m \<Longrightarrow> (\<And>a. only P (f a)) \<Longrightarrow> only P (bind m f)"
  by (induction m) auto

lemma only_try_bind: "only P m \<Longrightarrow> (\<And>a. only P (f a)) \<Longrightarrow> only P (try_bind m f)"
  unfolding try_bind_def by (rule only_bind) (auto split: sum.split)

lemma only_for_each: "(\<And>x b. only P (f x b)) \<Longrightarrow> only P (for_each f xs b)"
  by (induction xs arbitrary: b) (auto intro: only_bind)

section \<open>One request alone\<close>

text \<open>
  What becomes of a call: it answers, it fails, or it takes effect and its reply is lost. The value
  is what the world does not determine (the reply of a service outside the model). A call may be
  reliable (the clock), it may fail, or its reply may be lost too; the script of \<open>run\<close> has one entry
  for each call that is not reliable, and what comes after the script answers.
\<close>

datatype risk = Reliable | MayFail | MayLose

datatype 'r outcome = Answer 'r | Fails | Lost 'r

primrec run :: "('c \<Rightarrow> 'r \<Rightarrow> 'w \<Rightarrow> 'w \<times> 'r) \<Rightarrow> 'r \<Rightarrow> ('c \<Rightarrow> risk) \<Rightarrow> ('c, 'r, 'a) prog \<Rightarrow> 'r outcome list \<Rightarrow> 'w \<Rightarrow>
    'a \<times> 'r outcome list \<times> 'w" where
  "run eff err risky (Done a) sc w = (a, sc, w)"
| "run eff err risky (Call c k) sc w =
     (if risky c = Reliable then (let (w', r) = eff c err w in run eff err risky (k r) sc w')
      else (case sc of
              [] \<Rightarrow> (let (w', r) = eff c err w in run eff err risky (k r) [] w')
            | Answer x # xs \<Rightarrow> (let (w', r) = eff c x w in run eff err risky (k r) xs w')
            | Fails # xs \<Rightarrow> run eff err risky (k err) xs w
            | Lost x # xs \<Rightarrow> run eff err risky (k err) xs (fst (eff c x w))))"

lemma run_bind:
  "run eff err risky (bind m f) sc w =
     (case run eff err risky m sc w of (a, sc', w') \<Rightarrow> run eff err risky (f a) sc' w')"
  by (induction m arbitrary: sc w) (auto split: outcome.splits list.splits prod.splits)

section \<open>Requests that take turns\<close>

type_synonym ('c, 'r) threads = "nat \<Rightarrow> ('c, 'r, unit) prog option"

text \<open>
  \<open>starts\<close> are the requests that may arrive, \<open>moves\<close> what the world does by itself, and \<open>risky\<close> says what
  can go wrong with a call.
\<close>

inductive sys_step :: "('c \<Rightarrow> 'r \<Rightarrow> 'w \<Rightarrow> 'w \<times> 'r) \<Rightarrow> 'r \<Rightarrow> ('c \<Rightarrow> risk) \<Rightarrow> ('c, 'r, unit) prog set \<Rightarrow> ('w \<Rightarrow> 'w \<Rightarrow> bool) \<Rightarrow>
    ('c, 'r) threads \<times> 'w \<Rightarrow> ('c, 'r) threads \<times> 'w \<Rightarrow> bool"
  for eff err risky starts moves where
  answered: "ts i = Some (Call c k) \<Longrightarrow> eff c x w = (w', r) \<Longrightarrow>
     sys_step eff err risky starts moves (ts, w) (ts(i \<mapsto> k r), w')"
| failed: "ts i = Some (Call c k) \<Longrightarrow> risky c \<noteq> Reliable \<Longrightarrow> sys_step eff err risky starts moves (ts, w) (ts(i \<mapsto> k err), w)"
| lost: "ts i = Some (Call c k) \<Longrightarrow> risky c = MayLose \<Longrightarrow> eff c x w = (w', r) \<Longrightarrow>
     sys_step eff err risky starts moves (ts, w) (ts(i \<mapsto> k err), w')"
| arrives: "ts i = None \<Longrightarrow> p \<in> starts \<Longrightarrow> sys_step eff err risky starts moves (ts, w) (ts(i \<mapsto> p), w)"
| ends: "sys_step eff err risky starts moves (ts, w) (ts(i := None), w)"
| moved: "moves w w' \<Longrightarrow> sys_step eff err risky starts moves (ts, w) (ts, w')"

inductive reachable :: "('c \<Rightarrow> 'r \<Rightarrow> 'w \<Rightarrow> 'w \<times> 'r) \<Rightarrow> 'r \<Rightarrow> ('c \<Rightarrow> risk) \<Rightarrow> ('c, 'r, unit) prog set \<Rightarrow> ('w \<Rightarrow> 'w \<Rightarrow> bool) \<Rightarrow>
    'w \<Rightarrow> ('c, 'r) threads \<times> 'w \<Rightarrow> bool"
  for eff err risky starts moves w0 where
  start: "reachable eff err risky starts moves w0 (\<lambda>i. None, w0)"
| step: "reachable eff err risky starts moves w0 s \<Longrightarrow> sys_step eff err risky starts moves s s' \<Longrightarrow>
     reachable eff err risky starts moves w0 s'"

section \<open>A request alone is one way the system runs\<close>

text \<open>With a reply lost in the script, every call that may fail must be one whose reply may be lost.\<close>

lemma run_reachable:
  assumes "reachable eff err risky starts moves w0 (ts(i \<mapsto> p), w)" and "\<And>x c. Lost x \<in> set sc \<Longrightarrow> risky c \<noteq> MayFail"
  shows "\<exists>a. reachable eff err risky starts moves w0 (ts(i \<mapsto> Done a), snd (snd (run eff err risky p sc w)))"
  using assms
proof (induction p arbitrary: sc w)
  case (Done a)
  then show ?case by auto
next
  case (Call c k)
  note start = Call.prems(1)
  have step: "reachable eff err risky starts moves w0 (ts(i \<mapsto> q), w')"
    if "sys_step eff err risky starts moves (ts(i \<mapsto> Call c k), w) (ts(i \<mapsto> q), w')" for q w'
    using reachable.step [OF start that] .
  have a: "reachable eff err risky starts moves w0 (ts(i \<mapsto> k (snd (eff c x w))), fst (eff c x w))" for x
    by (rule step) (use sys_step.answered [of "ts(i \<mapsto> Call c k)" i c k eff x w] in force)
  have f: "reachable eff err risky starts moves w0 (ts(i \<mapsto> k err), w)" if "risky c \<noteq> Reliable"
    by (rule step) (use sys_step.failed [of "ts(i \<mapsto> Call c k)" i c k] that in force)
  have l: "reachable eff err risky starts moves w0 (ts(i \<mapsto> k err), fst (eff c x w))" if "risky c = MayLose" for x
    by (rule step) (use that sys_step.lost [of "ts(i \<mapsto> Call c k)" i c k risky eff x w "fst (eff c x w)" "snd (eff c x w)" err starts moves]
      in simp)
  note IH = Call.IH [OF rangeI]
  show ?case
  proof (cases "risky c = Reliable")
    case True
    then show ?thesis using IH [OF a [of err]] Call.prems(2) by (simp add: case_prod_beta)
  next
    case False
    show ?thesis
    proof (cases sc)
      case Nil
      then show ?thesis using False IH [OF a [of err], of "[]"] by (simp add: case_prod_beta)
    next
      case (Cons e xs)
      have rest: "Lost x \<in> set xs \<Longrightarrow> risky d \<noteq> MayFail" for x d using Call.prems(2) [of x d] Cons by simp
      show ?thesis
      proof (cases e)
        case (Answer x)
        then show ?thesis using False Cons IH [OF a [of x] rest] by (simp add: case_prod_beta)
      next
        case Fails
        then show ?thesis using False Cons IH [OF f rest] by simp
      next
        case (Lost x)
        then have "risky c = MayLose" using Call.prems(2) [of x c] False Cons by (cases "risky c") auto
        then show ?thesis using Lost False Cons IH [OF l rest] by simp
      qed
    qed
  qed
qed

section \<open>A rely-guarantee calculus\<close>

text \<open>
  A request carries facts about the world that stay true whatever the others do. \<open>guar F w w'\<close> is what a
  step of a request with the facts \<open>F\<close> may change; a fact with a key is a lock, which one request
  holds at a time. \<open>safe\<close> says that every call keeps the invariant and the guarantee.
\<close>

record ('w, 'f, 'k) contract =
  ct_inv :: "'w \<Rightarrow> bool"
  ct_holds :: "'f \<Rightarrow> 'w \<Rightarrow> bool"
  ct_guar :: "'f set \<Rightarrow> 'w \<Rightarrow> 'w \<Rightarrow> bool"
  ct_keys :: "'f \<Rightarrow> 'k set"
  ct_locked :: "'w \<Rightarrow> 'k \<Rightarrow> bool"

definition keys_of :: "('w, 'f, 'k) contract \<Rightarrow> 'f set \<Rightarrow> 'k set" where
  "keys_of ct F = \<Union> (ct_keys ct ` F)"

definition holds_all :: "('w, 'f, 'k) contract \<Rightarrow> 'f set \<Rightarrow> 'w \<Rightarrow> bool" where
  "holds_all ct F w \<longleftrightarrow> (\<forall>f\<in>F. ct_holds ct f w)"

text \<open>The facts a request has after its step: they hold, and its new locks were free.\<close>

definition learns :: "('w, 'f, 'k) contract \<Rightarrow> 'f set \<Rightarrow> 'w \<Rightarrow> 'f set \<Rightarrow> 'w \<Rightarrow> bool" where
  "learns ct F w F' w' \<longleftrightarrow> holds_all ct F' w' \<and> (\<forall>k \<in> keys_of ct F' - keys_of ct F. \<not> ct_locked ct w k)"

primrec safe :: "('w, 'f, 'k) contract \<Rightarrow> ('c \<Rightarrow> 'r \<Rightarrow> 'w \<Rightarrow> 'w \<times> 'r) \<Rightarrow> 'r \<Rightarrow> ('c \<Rightarrow> risk) \<Rightarrow>
    ('c, 'r, 'a) prog \<Rightarrow> 'f set \<Rightarrow> ('a \<Rightarrow> 'f set \<Rightarrow> bool) \<Rightarrow> bool" where
  "safe ct eff err risky (Done a) F Q \<longleftrightarrow> Q a F"
| "safe ct eff err risky (Call c k) F Q \<longleftrightarrow>
     (risky c \<noteq> Reliable \<longrightarrow> safe ct eff err risky (k err) F Q) \<and>
     (\<forall>w x w' r. ct_inv ct w \<longrightarrow> holds_all ct F w \<longrightarrow> eff c x w = (w', r) \<longrightarrow>
        ct_inv ct w' \<and> ct_guar ct F w w' \<and>
        (\<exists>F'. learns ct F w F' w' \<and> safe ct eff err risky (k r) F' Q) \<and>
        (risky c = MayLose \<longrightarrow> (\<exists>F'. learns ct F w F' w' \<and> safe ct eff err risky (k err) F' Q)))"

lemma safe_mono:
  assumes "safe ct eff err risky p F Q" and "\<And>a F. Q a F \<Longrightarrow> R a F"
  shows "safe ct eff err risky p F R"
  using assms(1)
proof (induction p arbitrary: F)
  case (Done a)
  then show ?case using assms(2) by simp
next
  case (Call c k)
  have IH: "safe ct eff err risky (k r) F Q \<Longrightarrow> safe ct eff err risky (k r) F R" for r F
    by (rule Call.IH) auto
  show ?case using Call.prems IH by simp meson
qed

lemma safe_bind:
  assumes "safe ct eff err risky m F (\<lambda>a F'. safe ct eff err risky (f a) F' Q)"
  shows "safe ct eff err risky (bind m f) F Q"
  using assms
proof (induction m arbitrary: F)
  case (Done a)
  then show ?case by simp
next
  case (Call c k)
  have IH: "safe ct eff err risky (k r) F (\<lambda>a F'. safe ct eff err risky (f a) F' Q) \<Longrightarrow>
     safe ct eff err risky (bind (k r) f) F Q" for r F
    by (rule Call.IH) auto
  show ?case using Call.prems IH by simp meson
qed

lemma safe_try_bind:
  assumes "safe ct eff err risky m F (\<lambda>r F'. case r of Inl e \<Rightarrow> Q (Inl e) F' | Inr a \<Rightarrow> safe ct eff err risky (f a) F' Q)"
  shows "safe ct eff err risky (try_bind m f) F Q"
  unfolding try_bind_def by (rule safe_bind, rule safe_mono [OF assms]) (auto split: sum.splits)

text \<open>What the others do leaves a request's facts alone.\<close>

locale rely_guarantee =
  fixes ct :: "('w, 'f, 'k) contract"
    and eff :: "'c \<Rightarrow> 'r \<Rightarrow> 'w \<Rightarrow> 'w \<times> 'r" and err :: 'r and risky :: "'c \<Rightarrow> risk"
    and starts :: "('c, 'r, unit) prog set" and moves :: "'w \<Rightarrow> 'w \<Rightarrow> bool"
  assumes stable: "ct_holds ct f w \<Longrightarrow> ct_guar ct F w w' \<Longrightarrow> ct_keys ct f \<inter> keys_of ct F = {} \<Longrightarrow> ct_holds ct f w'"
    and key_locked: "ct_holds ct f w \<Longrightarrow> k \<in> ct_keys ct f \<Longrightarrow> ct_locked ct w k"
    and moves_ok: "ct_inv ct w \<Longrightarrow> moves w w' \<Longrightarrow> ct_inv ct w' \<and> ct_guar ct {} w w'"
    and starts_ok: "p \<in> starts \<Longrightarrow> safe ct eff err risky p {} (\<lambda>a F. True)"
    and guar_refl: "ct_guar ct F w w"
begin

definition sound :: "('c, 'r) threads \<times> 'w \<Rightarrow> (nat \<Rightarrow> 'f set) \<Rightarrow> bool" where
  "sound s G \<longleftrightarrow> ct_inv ct (snd s) \<and>
     (\<forall>i p. fst s i = Some p \<longrightarrow> safe ct eff err risky p (G i) (\<lambda>a F. True)) \<and>
     (\<forall>i. holds_all ct (G i) (snd s)) \<and>
     (\<forall>i j. i \<noteq> j \<longrightarrow> keys_of ct (G i) \<inter> keys_of ct (G j) = {})"

lemma others_keep:
  assumes "holds_all ct H w" and "ct_guar ct F w w'" and "keys_of ct H \<inter> keys_of ct F = {}"
  shows "holds_all ct H w'"
  using assms stable unfolding holds_all_def keys_of_def by (smt (verit) Int_commute Union_disjoint image_eqI)

lemma sound_step:
  assumes s: "sound (ts, w) G" and inv: "ct_inv ct w'" and guar: "ct_guar ct (G i) w w'"
    and new: "learns ct (G i) w F' w'" and p: "safe ct eff err risky p F' (\<lambda>a F. True)"
  shows "sound (ts(i \<mapsto> p), w') (G(i := F'))"
proof -
  have rest: "holds_all ct (G j) w'" if "j \<noteq> i" for j
    using s that others_keep [OF _ guar, of "G j"] unfolding sound_def by simp
  have disj: "keys_of ct F' \<inter> keys_of ct (G j) = {}" if "j \<noteq> i" for j
  proof -
    have "k \<notin> keys_of ct (G j)" if k: "k \<in> keys_of ct F'" for k
    proof (cases "k \<in> keys_of ct (G i)")
      case True
      then show ?thesis using s \<open>j \<noteq> i\<close> unfolding sound_def by blast
    next
      case False
      then have "\<not> ct_locked ct w k" using new k unfolding learns_def by blast
      moreover have "holds_all ct (G j) w" using s unfolding sound_def by simp
      ultimately show ?thesis using key_locked unfolding keys_of_def holds_all_def by blast
    qed
    then show ?thesis by blast
  qed
  show ?thesis
    using s inv p new rest disj unfolding sound_def learns_def by (auto simp: Int_commute)
qed

lemma soundD:
  assumes "sound (ts, w) G"
  shows "ct_inv ct w" and "ts i = Some p \<Longrightarrow> safe ct eff err risky p (G i) (\<lambda>a F. True)" and "holds_all ct (G i) w"
  using assms by (simp_all add: sound_def)

lemma sound_preserved:
  assumes "sys_step eff err risky starts moves s s'" and "sound s G"
  shows "\<exists>G'. sound s' G' \<and> (\<exists>F. ct_guar ct F (snd s) (snd s'))"
  using assms
proof (cases rule: sys_step.cases)
  case (answered ts i c k x w w' r)
  then have snd: "sound (ts, w) G" using assms(2) by simp
  note d = soundD [OF snd]
  from d(2) [OF answered(3)] d(1,3) answered(4)
  obtain F' where "ct_inv ct w'" "ct_guar ct (G i) w w'" "learns ct (G i) w F' w'"
      "safe ct eff err risky (k r) F' (\<lambda>a F. True)"
    by simp blast
  from sound_step [OF snd this] answered this(2) show ?thesis by auto
next
  case (failed ts i c k w)
  then have "safe ct eff err risky (Call c k) (G i) (\<lambda>a F. True)" using soundD(2) [of ts w G i] assms(2) by simp
  then have "sound s' G" using assms(2) failed unfolding sound_def by auto
  then show ?thesis using failed guar_refl by auto
next
  case (lost ts i c k x w w' r)
  then have snd: "sound (ts, w) G" using assms(2) by simp
  note d = soundD [OF snd]
  from d(2) [OF lost(3)] d(1,3) lost(4,5)
  obtain F' where "ct_inv ct w'" "ct_guar ct (G i) w w'" "learns ct (G i) w F' w'"
      "safe ct eff err risky (k err) F' (\<lambda>a F. True)"
    by simp blast
  from sound_step [OF snd this] lost this(2) show ?thesis by auto
next
  case (arrives ts i p w)
  have "sound s' (G(i := {}))"
    using assms(2) arrives starts_ok [of p] unfolding sound_def by (auto simp: holds_all_def keys_of_def)
  then show ?thesis using arrives guar_refl by auto
next
  case (ends ts w i)
  then have "sound s' G" using assms(2) unfolding sound_def by auto
  then show ?thesis using ends guar_refl by auto
next
  case (moved w w' ts)
  then have "ct_inv ct w'" "ct_guar ct {} w w'" using moves_ok assms(2) unfolding sound_def by auto
  moreover have "holds_all ct (G i) w'" for i
    using assms(2) moved others_keep [OF _ \<open>ct_guar ct {} w w'\<close>] unfolding sound_def keys_of_def by auto
  ultimately have "sound s' G" using assms(2) moved unfolding sound_def by auto
  then show ?thesis using \<open>ct_guar ct {} w w'\<close> moved by auto
qed

lemma reachable_sound:
  assumes "reachable eff err risky starts moves w0 s" and "ct_inv ct w0"
  shows "\<exists>G. sound s G"
  using assms(1)
proof (induction rule: reachable.induct)
  case start
  then show ?case using assms(2) by (intro exI [of _ "\<lambda>i. {}"]) (simp add: sound_def holds_all_def keys_of_def)
next
  case (step s s')
  then show ?case using sound_preserved by blast
qed

text \<open>The two facts a client takes from the calculus.\<close>

lemma system_inv:
  assumes "reachable eff err risky starts moves w0 s" and "ct_inv ct w0"
  shows "ct_inv ct (snd s)"
  using reachable_sound [OF assms] unfolding sound_def by blast

lemma reachable_guar:
  assumes "reachable eff err risky starts moves w0 s" and "ct_inv ct w0"
    and "sys_step eff err risky starts moves s s'"
  shows "\<exists>F. ct_guar ct F (snd s) (snd s')"
  using reachable_sound [OF assms(1,2)] sound_preserved [OF assms(3)] by blast

end

end
