(* ===== verification/PayAmount.thy ===== *)
theory PayAmount
  imports GoText ApiTypes
begin

text \<open>
  The amounts of the payment service: currencies and their minor units (\<open>payment/currency.go\<close>), the
  price of an order and its fee (\<open>payment/fee.go\<close>, \<open>calculateCreateOrderPayAmount\<close>), the tolerance of a
  notification and the amount a gateway refunds (\<open>payment_amounts.go\<close>, \<open>payment_fulfillment.go\<close>). A
  \<open>float64\<close> is the rational it stands for, with \<open>pl_fl\<close> the rounding of a result and the infinities and
  NaN as values of \<open>gofloat\<close>. The decimals of \<open>shopspring/decimal\<close> are rationals; the operations of the
  library that round are a parameter (\<open>decimal_laws\<close> of \<open>PayAmounts\<close> is what its documentation says of them). The
  text of an amount is the decimal it denotes.
\<close>

datatype gofloat = Fin float64 | PosInf | NegInf | NaN

record pay_lib =
  pl_fl :: "rat \<Rightarrow> float64"
  pl_NewFromFloat :: "float64 \<Rightarrow> rat"
  pl_InexactFloat64 :: "rat \<Rightarrow> float64"
  pl_Div :: "rat \<Rightarrow> rat \<Rightarrow> rat"
  pl_Round :: "rat \<Rightarrow> nat \<Rightarrow> rat"
  pl_RoundUp :: "rat \<Rightarrow> nat \<Rightarrow> rat"
  pl_Truncate :: "rat \<Rightarrow> rat"
  pl_IntPart :: "rat \<Rightarrow> int"

text \<open>Rounding to \<open>d\<close> decimal places, half away from zero: what a \<open>numeric\<close> column stores.\<close>

definition round_away :: "nat \<Rightarrow> rat \<Rightarrow> rat" where
  "round_away d x = (if 0 \<le> x then of_int \<lfloor>x * 10 ^ d + 1 / 2\<rfloor> else of_int \<lceil>x * 10 ^ d - 1 / 2\<rceil>) / 10 ^ d"

section \<open>Currencies\<close>

record amount_unit =
  au_apiMinorUnit :: nat
  au_maxFractionDigits :: nat

definition zeroDecimalAmountUnit :: amount_unit where
  "zeroDecimalAmountUnit = \<lparr>au_apiMinorUnit = 0, au_maxFractionDigits = 0\<rparr>"

definition twoDecimalAmountUnit :: amount_unit where
  "twoDecimalAmountUnit = \<lparr>au_apiMinorUnit = 2, au_maxFractionDigits = 2\<rparr>"

definition threeDecimalAmountUnit :: amount_unit where
  "threeDecimalAmountUnit = \<lparr>au_apiMinorUnit = 3, au_maxFractionDigits = 3\<rparr>"

definition stripeLegacyZeroAmount :: amount_unit where
  "stripeLegacyZeroAmount = \<lparr>au_apiMinorUnit = 2, au_maxFractionDigits = 0\<rparr>"

definition paymentCurrencyAmountUnits :: "(string \<times> amount_unit) list" where
  "paymentCurrencyAmountUnits =
     map (\<lambda>c. (c, zeroDecimalAmountUnit))
       [''BIF'', ''CLP'', ''DJF'', ''GNF'', ''JPY'', ''KMF'', ''KRW'', ''MGA'', ''PYG'', ''RWF'', ''VND'',
        ''VUV'', ''XAF'', ''XOF'', ''XPF''] @
     map (\<lambda>c. (c, stripeLegacyZeroAmount)) [''ISK'', ''UGX''] @
     map (\<lambda>c. (c, threeDecimalAmountUnit)) [''BHD'', ''IQD'', ''JOD'', ''KWD'', ''LYD'', ''OMR'', ''TND'']"

definition DefaultPaymentCurrency :: string where
  "DefaultPaymentCurrency = ''CNY''"

text \<open>\<open>strings.ToUpper\<close> on ASCII letters.\<close>

definition to_upper :: "string \<Rightarrow> string" where
  "to_upper s = map (\<lambda>c. if 97 \<le> byte c \<and> byte c \<le> 122 then chr (byte c - 32) else c) s"

definition NormalizePaymentCurrency :: "string \<Rightarrow> string option" where
  "NormalizePaymentCurrency raw =
     (let currency = to_upper (trim_space raw) in
      if currency = [] then Some DefaultPaymentCurrency
      else if length currency \<noteq> 3 then None
      else if list_ex (\<lambda>ch. byte ch < 65 \<or> 90 < byte ch) currency then None
      else Some currency)"

definition paymentCurrencyAmountUnitFor :: "string \<Rightarrow> amount_unit" where
  "paymentCurrencyAmountUnitFor currency =
     (case NormalizePaymentCurrency currency of
        None \<Rightarrow> twoDecimalAmountUnit
      | Some normalized \<Rightarrow>
          (case map_of paymentCurrencyAmountUnits normalized of
             Some amountUnit \<Rightarrow> amountUnit
           | None \<Rightarrow> twoDecimalAmountUnit))"

definition CurrencyMinorUnit :: "string \<Rightarrow> nat" where
  "CurrencyMinorUnit currency = au_apiMinorUnit (paymentCurrencyAmountUnitFor currency)"

definition CurrencyMaxFractionDigits :: "string \<Rightarrow> nat" where
  "CurrencyMaxFractionDigits currency = au_maxFractionDigits (paymentCurrencyAmountUnitFor currency)"

section \<open>Minor units\<close>

datatype amount_error = InvalidCurrency | NotWhole string | TooManyDigits string nat

definition AmountToMinorUnit :: "pay_lib \<Rightarrow> rat \<Rightarrow> string \<Rightarrow> amount_error + int" where
  "AmountToMinorUnit L d currency =
     (case NormalizePaymentCurrency currency of
        None \<Rightarrow> Inl InvalidCurrency
      | Some normalizedCurrency \<Rightarrow>
          (let amountUnit = paymentCurrencyAmountUnitFor normalizedCurrency;
               scaledForPrecision = d * 10 ^ au_maxFractionDigits amountUnit
           in if scaledForPrecision \<noteq> pl_Truncate L scaledForPrecision then
                (if au_maxFractionDigits amountUnit = 0 then Inl (NotWhole normalizedCurrency)
                 else Inl (TooManyDigits normalizedCurrency (au_maxFractionDigits amountUnit)))
              else Inr (pl_IntPart L (d * 10 ^ au_apiMinorUnit amountUnit))))"

definition MinorUnitToAmount :: "pay_lib \<Rightarrow> int \<Rightarrow> string \<Rightarrow> float64" where
  "MinorUnitToAmount L v currency = pl_InexactFloat64 L (pl_Div L (of_int v) (10 ^ CurrencyMinorUnit currency))"

definition YuanToFen :: "pay_lib \<Rightarrow> rat \<Rightarrow> amount_error + int" where
  "YuanToFen L yuan = AmountToMinorUnit L yuan DefaultPaymentCurrency"

definition FenToYuan :: "pay_lib \<Rightarrow> int \<Rightarrow> float64" where
  "FenToYuan L fen = MinorUnitToAmount L fen DefaultPaymentCurrency"

definition FormatAmountForCurrency :: "pay_lib \<Rightarrow> float64 \<Rightarrow> string \<Rightarrow> rat" where
  "FormatAmountForCurrency L amount currency =
     pl_Round L (pl_NewFromFloat L amount) (CurrencyMaxFractionDigits currency)"

section \<open>The price of an order\<close>

definition CalculatePayAmountForCurrency :: "pay_lib \<Rightarrow> float64 \<Rightarrow> float64 \<Rightarrow> string \<Rightarrow> rat" where
  "CalculatePayAmountForCurrency L rechargeAmount feeRate currency =
     (let fractionDigits = CurrencyMaxFractionDigits currency;
          amount = pl_NewFromFloat L rechargeAmount
      in if feeRate \<le> 0 then pl_Round L amount fractionDigits
         else (let rate = pl_NewFromFloat L feeRate;
                   fee = pl_RoundUp L (pl_Div L (amount * rate) 100) fractionDigits
               in pl_Round L (amount + fee) fractionDigits))"

definition validateCreateOrderAmountCurrency :: "pay_lib \<Rightarrow> float64 \<Rightarrow> string \<Rightarrow> amount_error option" where
  "validateCreateOrderAmountCurrency L amount currency =
     (case AmountToMinorUnit L (pl_NewFromFloat L amount) currency of Inl e \<Rightarrow> Some e | Inr v \<Rightarrow> None)"

definition calculateCreateOrderPayAmount ::
    "pay_lib \<Rightarrow> float64 \<Rightarrow> float64 \<Rightarrow> string \<Rightarrow> amount_error + rat \<times> float64" where
  "calculateCreateOrderPayAmount L limitAmount feeRate currency =
     (case validateCreateOrderAmountCurrency L limitAmount currency of
        Some e \<Rightarrow> Inl e
      | None \<Rightarrow>
          (let payAmountStr = CalculatePayAmountForCurrency L limitAmount feeRate currency in
           case AmountToMinorUnit L payAmountStr currency of
             Inl e \<Rightarrow> Inl e
           | Inr v \<Rightarrow> Inr (payAmountStr, pl_InexactFloat64 L payAmountStr)))"

definition normalizeBalanceRechargeMultiplier :: "gofloat \<Rightarrow> float64" where
  "normalizeBalanceRechargeMultiplier multiplier =
     (case multiplier of Fin m \<Rightarrow> (if m \<le> 0 then 1 else m) | _ \<Rightarrow> 1)"

definition calculateCreditedBalance :: "pay_lib \<Rightarrow> float64 \<Rightarrow> gofloat \<Rightarrow> float64" where
  "calculateCreditedBalance L paymentAmount multiplier =
     pl_InexactFloat64 L (pl_Round L
       (pl_NewFromFloat L paymentAmount * pl_NewFromFloat L (normalizeBalanceRechargeMultiplier multiplier)) 2)"

section \<open>The amount of a notification and of a refund\<close>

definition amountToleranceCNY :: "pay_lib \<Rightarrow> float64" where
  "amountToleranceCNY L = pl_fl L (1 / 100)"

definition paymentAmountToleranceForCurrency :: "pay_lib \<Rightarrow> string \<Rightarrow> float64" where
  "paymentAmountToleranceForCurrency L currency =
     (let minorUnit = CurrencyMinorUnit currency in
      if minorUnit \<le> 2 then amountToleranceCNY L
      else pl_fl L (pl_fl L (1 / 10 ^ minorUnit) / 2))"

fun isValidProviderAmount :: "gofloat \<Rightarrow> bool" where
  "isValidProviderAmount (Fin amount) = (amount > 0)"
| "isValidProviderAmount _ = False"

definition calculateGatewayRefundAmount ::
    "pay_lib \<Rightarrow> float64 \<Rightarrow> float64 \<Rightarrow> float64 \<Rightarrow> string \<Rightarrow> float64" where
  "calculateGatewayRefundAmount L orderAmount payAmount refundAmount currency =
     (if orderAmount \<le> 0 \<or> payAmount \<le> 0 \<or> refundAmount \<le> 0 then 0
      else (let fractionDigits = CurrencyMaxFractionDigits currency in
            if \<bar>pl_fl L (refundAmount - orderAmount)\<bar> \<le> paymentAmountToleranceForCurrency L currency
            then pl_InexactFloat64 L (pl_Round L (pl_NewFromFloat L payAmount) fractionDigits)
            else pl_InexactFloat64 L (pl_Round L
                   (pl_Div L (pl_NewFromFloat L payAmount * pl_NewFromFloat L refundAmount)
                      (pl_NewFromFloat L orderAmount)) fractionDigits)))"

end
