(* ===== verification/PayWorld.thy ===== *)
theory PayWorld
  imports Programs PayAmount
begin

text \<open>
  The data of the payment service and the calls its requests make: orders (\<open>ent/schema/payment_order.go\<close>),
  audit rows, users, redeem codes, subscriptions and provider instances, and \<open>effect\<close>, what each statement
  or transaction of the repositories does to them. An update of an order moves \<open>updated_at\<close>, the audit table
  has one row per order and action (migration 131), amounts are rounded by their columns. The replies of
  the payment providers, of Redis and of the affiliate rule are not determined by the world: the caller
  of \<open>effect\<close> supplies them. \<open>pw_Credits\<close>, \<open>pw_Rebates\<close> and \<open>pw_Refunds\<close> record the balances credited for redeem codes,
  the rebates accrued and the refunds a provider accepted. Order metadata, notes, usage windows and
  caches are left out, and a date advances by days of 24 hours.
\<close>

section \<open>Data\<close>

datatype order_status = PENDING | PAID | RECHARGING | COMPLETED | EXPIRED | CANCELLED | FAILED
  | REFUND_REQUESTED | REFUNDING | PARTIALLY_REFUNDED | REFUNDED | REFUND_FAILED

datatype pay_error = Coded string | Plain string | ErrOrderNotFound

text \<open>A value of \<open>provider_snapshot\<close>, the JSON column: text, a number, or anything else.\<close>

datatype snapshot_value = SnapText string | SnapNumber rat | SnapOther

record pay_order =
  po_ID :: int
  po_UserID :: int
  po_Amount :: float64
  po_PayAmount :: float64
  po_RechargeCode :: string
  po_OutTradeNo :: string
  po_PaymentType :: string
  po_PaymentTradeNo :: string
  po_OrderType :: string
  po_SubscriptionGroupID :: "int option"
  po_SubscriptionDays :: "int option"
  po_ProviderInstanceID :: "string option"
  po_ProviderKey :: "string option"
  po_ProviderSnapshot :: "(string \<times> snapshot_value) list"
  po_Status :: order_status
  po_RefundAmount :: float64
  po_RefundReason :: "string option"
  po_RefundAt :: "int option"
  po_ForceRefund :: bool
  po_RefundRequestedAt :: "int option"
  po_RefundRequestReason :: "string option"
  po_RefundRequestedBy :: "string option"
  po_ExpiresAt :: int
  po_PaidAt :: "int option"
  po_CompletedAt :: "int option"
  po_FailedAt :: "int option"
  po_FailedReason :: "pay_error option"
  po_CreatedAt :: int
  po_UpdatedAt :: int

record audit_log =
  al_OrderID :: int
  al_Action :: string
  al_Operator :: string
  al_CreatedAt :: int

record pay_user =
  ur_Balance :: float64
  ur_TotalRecharged :: float64
  ur_Concurrency :: int

record redeem_code =
  rd_Code :: string
  rd_Type :: string
  rd_Value :: float64
  rd_Status :: string
  rd_UsedBy :: "int option"
  rd_UsedAt :: "int option"
  rd_ExpiresAt :: "int option"
  rd_GroupID :: "int option"
  rd_ValidityDays :: int

record user_sub =
  us_ID :: int
  us_UserID :: int
  us_GroupID :: int
  us_StartsAt :: int
  us_ExpiresAt :: int
  us_Status :: string

record provider_instance =
  pi_ID :: int
  pi_ProviderKey :: string
  pi_SupportedTypes :: string
  pi_AllowUserRefund :: bool
  pi_RefundEnabled :: bool
  pi_Enabled :: bool

record sub_group =
  sg_Status :: string
  sg_IsSubscriptionType :: bool

record pay_world =
  pw_Now :: int
  pw_Orders :: "pay_order list"
  pw_Audits :: "audit_log list"
  pw_Users :: "(int \<times> pay_user) list"
  pw_Codes :: "redeem_code list"
  pw_Subs :: "user_sub list"
  pw_NextSub :: int
  pw_Instances :: "provider_instance list"
  pw_Groups :: "(int \<times> sub_group) list"
  pw_Credits :: "(string \<times> int \<times> float64) list"
  pw_Rebates :: "(int \<times> float64) list"
  pw_Refunds :: "(int \<times> float64) list"

definition day :: int where
  "day = 24 * 3600 * 1000000000"

text \<open>The 31st of December 2099, 23:59:59 UTC, in nanoseconds since 1970.\<close>

definition MaxExpiresAt :: int where
  "MaxExpiresAt = 4102444799 * 1000000000"

definition AddDays :: "int \<Rightarrow> int \<Rightarrow> int" where
  "AddDays t n = t + n * day"

definition StatusUnused :: string where "StatusUnused = ''unused''"
definition StatusUsed :: string where "StatusUsed = ''used''"
definition StatusExpired :: string where "StatusExpired = ''expired''"
definition SubscriptionStatusActive :: string where "SubscriptionStatusActive = ''active''"
definition SubscriptionStatusExpired :: string where "SubscriptionStatusExpired = ''expired''"

section \<open>Calls and replies\<close>

text \<open>What a redeem code grants inside the transaction that uses it up.\<close>

datatype grant = AddToBalance float64 | AddToConcurrency int | AssignDays int int | ReduceDays int int

record query_response =
  qr_TradeNo :: string
  qr_Status :: string
  qr_Amount :: gofloat
  qr_Metadata :: "(string \<times> string) list"

datatype pay_call =
    TimeNow
  | GetOrder int
  | OrderByOutTradeNo string
  | OrdersWhere "pay_order \<Rightarrow> bool"
  | UpdateOrders int "pay_order \<Rightarrow> bool" "pay_order \<Rightarrow> pay_order"
  | UpdateOneOrder int "pay_order \<Rightarrow> pay_order"
  | CreateAudit int string string
  | CountAudit int string
  | CodeByCode string
  | CreateRedeemCode redeem_code
  | RedeemTx string int grant
  | RedeemAttempts int
  | CountRedeemError int
  | LockRedeem string
  | UnlockRedeem string
  | UserByID int
  | DeductUserBalance int float64
  | UpdateUserBalance int float64
  | RebateTx int int float64
  | GroupByID int
  | SubByUserAndGroup int int
  | SubByID int
  | ActiveSub int int
  | CreateSub user_sub
  | RenewTx user_sub
  | ExtendTx int int bool
  | ExtendExpiry int int
  | UpdateSubStatus int string
  | DeleteSub int
  | GetInstance int
  | InstancesWhere "provider_instance \<Rightarrow> bool"
  | MakeProvider int string
  | RegistryProvider string
  | QueryProvider string string
  | CancelAtProvider string string
  | MerchantIdentity string
  | RefundAtProvider int string string rat string

text \<open>\<open>RErr\<close> is an error the caller cannot tell from a failure of the database, \<open>RNone\<close> a missing row.\<close>

datatype pay_reply =
    RErr | RNone | RRefused | RUnit | RBool bool | RCount nat | RTime int | RAmount float64 | RText string
  | ROrder pay_order | ROrders "pay_order list" | RCode redeem_code | RUser pay_user | RGroup sub_group
  | RSub user_sub | RInstance provider_instance | RInstances "provider_instance list"
  | RQuery query_response | RRefund "string option" | RMeta "(string \<times> string) list"

type_synonym 'a pay_prog = "(pay_call, pay_reply, 'a) prog"
type_synonym 'a pay_result = "(pay_call, pay_reply, pay_error + 'a) prog"

section \<open>What a call does\<close>

definition order_of :: "pay_world \<Rightarrow> int \<Rightarrow> pay_order option" where
  "order_of w i = find (\<lambda>x. po_ID x = i) (pw_Orders w)"

definition code_of :: "pay_world \<Rightarrow> string \<Rightarrow> redeem_code option" where
  "code_of w c = find (\<lambda>rd. rd_Code rd = c) (pw_Codes w)"

definition user_of :: "pay_world \<Rightarrow> int \<Rightarrow> pay_user option" where
  "user_of w u = map_of (pw_Users w) u"

definition sub_of :: "pay_world \<Rightarrow> int \<Rightarrow> user_sub option" where
  "sub_of w i = find (\<lambda>s. us_ID s = i) (pw_Subs w)"

definition sub_for :: "pay_world \<Rightarrow> int \<Rightarrow> int \<Rightarrow> user_sub option" where
  "sub_for w u g = find (\<lambda>s. us_UserID s = u \<and> us_GroupID s = g) (pw_Subs w)"

definition audited :: "pay_world \<Rightarrow> int \<Rightarrow> string \<Rightarrow> bool" where
  "audited w i action \<longleftrightarrow> (\<exists>a \<in> set (pw_Audits w). al_OrderID a = i \<and> al_Action a = action)"

definition put_audit :: "int \<Rightarrow> string \<Rightarrow> string \<Rightarrow> pay_world \<Rightarrow> pay_world" where
  "put_audit i action operator w =
     w\<lparr>pw_Audits := pw_Audits w @ [\<lparr>al_OrderID = i, al_Action = action, al_Operator = operator, al_CreatedAt = pw_Now w\<rparr>]\<rparr>"

definition write_order :: "(pay_order \<Rightarrow> pay_order) \<Rightarrow> int \<Rightarrow> pay_world \<Rightarrow> pay_world" where
  "write_order f i w =
     w\<lparr>pw_Orders := map (\<lambda>x. if po_ID x = i then (f x)\<lparr>po_UpdatedAt := pw_Now w\<rparr> else x) (pw_Orders w)\<rparr>"

definition write_sub :: "(user_sub \<Rightarrow> user_sub) \<Rightarrow> int \<Rightarrow> pay_world \<Rightarrow> pay_world" where
  "write_sub f i w = w\<lparr>pw_Subs := map (\<lambda>s. if us_ID s = i then f s else s) (pw_Subs w)\<rparr>"

definition write_user :: "(pay_user \<Rightarrow> pay_user) \<Rightarrow> int \<Rightarrow> pay_world \<Rightarrow> pay_world" where
  "write_user f u w = w\<lparr>pw_Users := map (\<lambda>(v, x). (v, if v = u then f x else x)) (pw_Users w)\<rparr>"

definition insert_sub :: "user_sub \<Rightarrow> pay_world \<Rightarrow> pay_world" where
  "insert_sub s w = w\<lparr>pw_Subs := pw_Subs w @ [s\<lparr>us_ID := pw_NextSub w\<rparr>], pw_NextSub := pw_NextSub w + 1\<rparr>"

text \<open>\<open>UpdateBalance\<close> and \<open>DeductBalance\<close> of \<open>user_repo.go\<close>: only the first counts as a recharge.\<close>

definition UpdateBalance :: "float64 \<Rightarrow> pay_user \<Rightarrow> pay_user" where
  "UpdateBalance amount u =
     (let u1 = u\<lparr>ur_Balance := round_away 8 (ur_Balance u + amount)\<rparr> in
      if amount > 0 then u1\<lparr>ur_TotalRecharged := round_away 8 (ur_TotalRecharged u + amount)\<rparr> else u1)"

definition DeductBalance :: "float64 \<Rightarrow> pay_user \<Rightarrow> pay_user" where
  "DeductBalance amount u = u\<lparr>ur_Balance := round_away 8 (ur_Balance u - amount)\<rparr>"

section \<open>Subscription terms\<close>

definition MaxValidityDays :: int where
  "MaxValidityDays = 36500"

definition normalizeAssignValidityDays :: "int \<Rightarrow> int" where
  "normalizeAssignValidityDays days =
     (let d = (if days \<le> 0 then 30 else days) in if d > MaxValidityDays then MaxValidityDays else d)"

text \<open>Where an assignment of \<open>days\<close> moves the end of an existing subscription.\<close>

definition extendedExpiry :: "user_sub \<Rightarrow> int \<Rightarrow> int \<Rightarrow> int" where
  "extendedExpiry existingSub now days =
     (let isExpired = (us_ExpiresAt existingSub \<le> now);
          newExpiresAt = (if \<not> isExpired then AddDays (us_ExpiresAt existingSub) days else AddDays now days)
      in if newExpiresAt > MaxExpiresAt then MaxExpiresAt else newExpiresAt)"

definition renewedSubscriptionTerm :: "user_sub \<Rightarrow> int \<Rightarrow> int \<Rightarrow> user_sub" where
  "renewedSubscriptionTerm existingSub startsAt expiresAt =
     existingSub\<lparr>us_StartsAt := startsAt, us_ExpiresAt := expiresAt, us_Status := SubscriptionStatusActive\<rparr>"

definition newSubscription :: "int \<Rightarrow> int \<Rightarrow> int \<Rightarrow> int \<Rightarrow> user_sub" where
  "newSubscription userID groupID now days =
     (let expiresAt = AddDays now (normalizeAssignValidityDays days) in
      \<lparr>us_ID = 0, us_UserID = userID, us_GroupID = groupID, us_StartsAt = now,
       us_ExpiresAt = (if expiresAt > MaxExpiresAt then MaxExpiresAt else expiresAt),
       us_Status = SubscriptionStatusActive\<rparr>)"

text \<open>The two transactions of \<open>updateExistingSubscriptionTerm\<close>; \<open>None\<close> when the row is gone.\<close>

definition renew_tx :: "user_sub \<Rightarrow> pay_world \<Rightarrow> pay_world option" where
  "renew_tx renewed w =
     (if sub_of w (us_ID renewed) = None then None else Some (write_sub (\<lambda>s. renewed) (us_ID renewed) w))"

definition extend_tx :: "int \<Rightarrow> int \<Rightarrow> bool \<Rightarrow> pay_world \<Rightarrow> pay_world option" where
  "extend_tx i newExpiresAt activate w =
     (if sub_of w i = None then None
      else Some (write_sub (\<lambda>s. let s1 = s\<lparr>us_ExpiresAt := newExpiresAt\<rparr> in
                            if activate then s1\<lparr>us_Status := SubscriptionStatusActive\<rparr> else s1) i w))"

definition create_sub :: "user_sub \<Rightarrow> pay_world \<Rightarrow> pay_world option" where
  "create_sub s w =
     (if sub_for w (us_UserID s) (us_GroupID s) \<noteq> None then None else Some (insert_sub s w))"

text \<open>\<open>AssignOrExtendSubscription\<close> and \<open>reduceOrCancelSubscription\<close> inside the transaction of a redeem code.\<close>

definition assign_days :: "int \<Rightarrow> int \<Rightarrow> int \<Rightarrow> pay_world \<Rightarrow> pay_world option" where
  "assign_days uid gid days w =
     (case map_of (pw_Groups w) gid of
        None \<Rightarrow> None
      | Some g \<Rightarrow>
          if \<not> sg_IsSubscriptionType g then None
          else (case sub_for w uid gid of
                  None \<Rightarrow> create_sub (newSubscription uid gid (pw_Now w) days) w
                | Some existingSub \<Rightarrow>
                    (let newExpiresAt = extendedExpiry existingSub (pw_Now w) (normalizeAssignValidityDays days) in
                     if us_ExpiresAt existingSub \<le> pw_Now w
                     then renew_tx (renewedSubscriptionTerm existingSub (pw_Now w) newExpiresAt) w
                     else extend_tx (us_ID existingSub) newExpiresAt
                            (us_Status existingSub \<noteq> SubscriptionStatusActive) w)))"

definition reduce_days :: "int \<Rightarrow> int \<Rightarrow> int \<Rightarrow> pay_world \<Rightarrow> pay_world option" where
  "reduce_days uid gid days w =
     (case sub_for w uid gid of
        None \<Rightarrow> None
      | Some sub \<Rightarrow>
          (let remaining = max 0 ((us_ExpiresAt sub - pw_Now w) div day) in
           if remaining \<le> days
           then Some (write_sub (\<lambda>s. s\<lparr>us_Status := SubscriptionStatusExpired, us_ExpiresAt := pw_Now w\<rparr>) (us_ID sub) w)
           else Some (write_sub (\<lambda>s. s\<lparr>us_ExpiresAt := AddDays (us_ExpiresAt sub) (- days)\<rparr>) (us_ID sub) w)))"

fun apply_grant :: "string \<Rightarrow> int \<Rightarrow> grant \<Rightarrow> pay_world \<Rightarrow> pay_world option" where
  "apply_grant c uid (AddToBalance amount) w =
     (if user_of w uid = None then None
      else Some ((write_user (UpdateBalance amount) uid w)\<lparr>pw_Credits := pw_Credits w @ [(c, uid, amount)]\<rparr>))"
| "apply_grant c uid (AddToConcurrency delta) w =
     (if user_of w uid = None then None
      else Some (write_user (\<lambda>u. u\<lparr>ur_Concurrency := ur_Concurrency u + delta\<rparr>) uid w))"
| "apply_grant c uid (AssignDays gid days) w = assign_days uid gid days w"
| "apply_grant c uid (ReduceDays gid days) w = reduce_days uid gid days w"

text \<open>
  The transaction of \<open>Redeem\<close>: \<open>UPDATE \<dots> WHERE status = 'unused'\<close>, then the grant; an error rolls both back.
\<close>

definition redeem_tx :: "string \<Rightarrow> int \<Rightarrow> grant \<Rightarrow> pay_world \<Rightarrow> pay_world \<times> pay_reply" where
  "redeem_tx c uid g w =
     (case code_of w c of
        Some rd \<Rightarrow>
          if rd_Status rd \<noteq> StatusUnused then (w, RRefused)
          else (let w1 = w\<lparr>pw_Codes := map (\<lambda>x. if rd_Code x = c
                        then x\<lparr>rd_Status := StatusUsed, rd_UsedBy := Some uid, rd_UsedAt := Some (pw_Now w)\<rparr> else x) (pw_Codes w)\<rparr>
                in case apply_grant c uid g w1 of Some w2 \<Rightarrow> (w2, RUnit) | None \<Rightarrow> (w, RErr))
      | None \<Rightarrow> (w, RRefused))"

text \<open>
  The commit of \<open>Redeem\<close> may fail (the reply \<open>RBool False\<close> stands for it): all is rolled back then, except the term of an
  existing subscription, which \<open>withSubscriptionUpdateTx\<close> writes in a transaction of its own on the root client.
\<close>

definition redeem_call :: "string \<Rightarrow> int \<Rightarrow> grant \<Rightarrow> pay_reply \<Rightarrow> pay_world \<Rightarrow> pay_world \<times> pay_reply" where
  "redeem_call c uid g x w =
     (case (x, redeem_tx c uid g w) of
        (RBool False, (w2, RUnit)) \<Rightarrow>
          (case g of
             AssignDays gid days \<Rightarrow>
               (if sub_for w uid gid = None then w else (case assign_days uid gid days w of Some w' \<Rightarrow> w' | None \<Rightarrow> w), RErr)
           | _ \<Rightarrow> (w, RErr))
      | (_, done_tx) \<Rightarrow> done_tx)"

text \<open>
  The transaction of \<open>applyAffiliateRebateForOrder\<close>: the claim in the audit table, the accrual with
  the amount the affiliate rule returns, and the outcome in the claimed row.
\<close>

definition rebate_tx :: "int \<Rightarrow> pay_reply \<Rightarrow> pay_world \<Rightarrow> pay_world \<times> pay_reply" where
  "rebate_tx i x w =
     (if audited w i ''AFFILIATE_REBATE_APPLIED'' \<or> audited w i ''AFFILIATE_REBATE_SKIPPED'' then (w, RBool False)
      else (case x of
              RAmount rebate \<Rightarrow>
                if rebate \<le> 0 then (put_audit i ''AFFILIATE_REBATE_SKIPPED'' ''system'' w, RBool True)
                else ((put_audit i ''AFFILIATE_REBATE_APPLIED'' ''system'' w)\<lparr>pw_Rebates := pw_Rebates w @ [(i, rebate)]\<rparr>, RBool True)
            | _ \<Rightarrow> (w, RErr)))"

section \<open>The effect of a call\<close>

definition accepted_refund :: "string option \<Rightarrow> bool" where
  "accepted_refund status =
     (case status of None \<Rightarrow> False | Some s \<Rightarrow> trim_space s \<in> {''success'', ''refunded'', ''pending''})"

definition found :: "('a \<Rightarrow> pay_reply) \<Rightarrow> 'a option \<Rightarrow> pay_reply" where
  "found f x = (case x of None \<Rightarrow> RNone | Some a \<Rightarrow> f a)"

definition written :: "pay_world \<Rightarrow> pay_world option \<Rightarrow> pay_world \<times> pay_reply" where
  "written w x = (case x of None \<Rightarrow> (w, RNone) | Some w' \<Rightarrow> (w', RUnit))"

primrec effect :: "pay_call \<Rightarrow> pay_reply \<Rightarrow> pay_world \<Rightarrow> pay_world \<times> pay_reply" where
  "effect TimeNow x w = (w, RTime (pw_Now w))"
| "effect (GetOrder i) x w = (w, found ROrder (order_of w i))"
| "effect (OrderByOutTradeNo s) x w =
     (w, case filter (\<lambda>y. po_OutTradeNo y = s) (pw_Orders w) of [] \<Rightarrow> RNone | [y] \<Rightarrow> ROrder y | _ \<Rightarrow> RErr)"
| "effect (OrdersWhere P) x w = (w, ROrders (filter P (pw_Orders w)))"
| "effect (UpdateOrders i P f) x w =
     (case order_of w i of
        Some y \<Rightarrow> if P y then (write_order f i w, RCount 1) else (w, RCount 0)
      | None \<Rightarrow> (w, RCount 0))"
| "effect (UpdateOneOrder i f) x w =
     (case order_of w i of Some y \<Rightarrow> (write_order f i w, RUnit) | None \<Rightarrow> (w, RErr))"
| "effect (CreateAudit i action operator) x w =
     (if audited w i action then (w, RErr) else (put_audit i action operator w, RUnit))"
| "effect (CountAudit i action) x w = (w, RCount (if audited w i action then 1 else 0))"
| "effect (CodeByCode c) x w = (w, found RCode (code_of w c))"
| "effect (CreateRedeemCode rd) x w =
     (if code_of w (rd_Code rd) \<noteq> None then (w, RErr) else (w\<lparr>pw_Codes := pw_Codes w @ [rd]\<rparr>, RUnit))"
| "effect (RedeemTx c uid g) x w = redeem_call c uid g x w"
| "effect (RedeemAttempts uid) x w = (w, x)"
| "effect (CountRedeemError uid) x w = (w, x)"
| "effect (LockRedeem c) x w = (w, x)"
| "effect (UnlockRedeem c) x w = (w, x)"
| "effect (UserByID uid) x w = (w, found RUser (user_of w uid))"
| "effect (DeductUserBalance uid amount) x w =
     (if user_of w uid = None then (w, RNone) else (write_user (DeductBalance amount) uid w, RUnit))"
| "effect (UpdateUserBalance uid amount) x w =
     (if user_of w uid = None then (w, RNone) else (write_user (UpdateBalance amount) uid w, RUnit))"
| "effect (RebateTx i uid amount) x w = rebate_tx i x w"
| "effect (GroupByID g) x w = (w, found RGroup (map_of (pw_Groups w) g))"
| "effect (SubByUserAndGroup u g) x w = (w, found RSub (sub_for w u g))"
| "effect (SubByID i) x w = (w, found RSub (sub_of w i))"
| "effect (ActiveSub u g) x w =
     (w, found RSub (find (\<lambda>s. us_UserID s = u \<and> us_GroupID s = g \<and> us_Status s = SubscriptionStatusActive \<and>
                               us_ExpiresAt s > pw_Now w) (pw_Subs w)))"
| "effect (CreateSub s) x w =
     (case create_sub s w of None \<Rightarrow> (w, RNone) | Some w' \<Rightarrow> (w', RSub (s\<lparr>us_ID := pw_NextSub w\<rparr>)))"
| "effect (RenewTx s) x w = written w (renew_tx s w)"
| "effect (ExtendTx i t activate) x w = written w (extend_tx i t activate w)"
| "effect (ExtendExpiry i t) x w = written w (extend_tx i t False w)"
| "effect (UpdateSubStatus i st) x w =
     written w (if sub_of w i = None then None else Some (write_sub (\<lambda>s. s\<lparr>us_Status := st\<rparr>) i w))"
| "effect (DeleteSub i) x w = (w\<lparr>pw_Subs := filter (\<lambda>s. us_ID s \<noteq> i) (pw_Subs w)\<rparr>, RUnit)"
| "effect (GetInstance i) x w = (w, found RInstance (find (\<lambda>p. pi_ID p = i) (pw_Instances w)))"
| "effect (InstancesWhere P) x w = (w, RInstances (filter P (pw_Instances w)))"
| "effect (MakeProvider i k) x w = (w, x)"
| "effect (RegistryProvider t) x w = (w, x)"
| "effect (QueryProvider k ref) x w = (w, x)"
| "effect (CancelAtProvider k ref) x w = (w, x)"
| "effect (MerchantIdentity k) x w = (w, x)"
| "effect (RefundAtProvider i k tradeNo amount reason) x w =
     ((case x of
         RRefund status \<Rightarrow> if accepted_refund status then w\<lparr>pw_Refunds := pw_Refunds w @ [(i, amount)]\<rparr> else w
       | _ \<Rightarrow> w), x)"

end
