(* ===== verification/PayProvider.thy ===== *)
theory PayProvider
  imports PayWorld
begin

text \<open>
  The calls of the payment service as functions, and the provider of an order: the snapshot taken
  when the order was created (\<open>payment_order_provider_snapshot.go\<close>), the provider instance that processed
  it (\<open>payment_refund.go\<close>, \<open>payment_order_lifecycle.go\<close>), and the checks of a notification against both.
  A provider is known by its key; making one from its stored configuration and the fallback to the
  registry are calls.
\<close>

record pay_env =
  pe_lib :: pay_lib
  pe_registryKey :: "string \<Rightarrow> string"
  pe_cancelable :: "string \<Rightarrow> bool"
  pe_affiliate :: bool
  pe_redeemCache :: bool

section \<open>Calls\<close>

definition ask :: "pay_call \<Rightarrow> (pay_reply \<Rightarrow> 'a) \<Rightarrow> 'a pay_prog" where
  "ask c f = Call c (\<lambda>r. Done (f r))"

definition timeNow :: "int pay_prog" where
  "timeNow = ask TimeNow (\<lambda>r. case r of RTime t \<Rightarrow> t | _ \<Rightarrow> 0)"

definition getOrder :: "int \<Rightarrow> pay_order option pay_prog" where
  "getOrder i = ask (GetOrder i) (\<lambda>r. case r of ROrder y \<Rightarrow> Some y | _ \<Rightarrow> None)"

text \<open>The rows an update changed; \<open>None\<close> for an error.\<close>

definition updateOrders :: "int \<Rightarrow> (pay_order \<Rightarrow> bool) \<Rightarrow> (pay_order \<Rightarrow> pay_order) \<Rightarrow> nat option pay_prog" where
  "updateOrders i P f = ask (UpdateOrders i P f) (\<lambda>r. case r of RCount n \<Rightarrow> Some n | _ \<Rightarrow> None)"

definition succeeds :: "pay_reply \<Rightarrow> bool" where
  "succeeds r = (case r of RUnit \<Rightarrow> True | _ \<Rightarrow> False)"

definition updateOneOrder :: "int \<Rightarrow> (pay_order \<Rightarrow> pay_order) \<Rightarrow> bool pay_prog" where
  "updateOneOrder i f = ask (UpdateOneOrder i f) succeeds"

text \<open>\<open>writeAuditLog\<close> logs an error and goes on; \<open>hasAuditLog\<close> takes one for no row.\<close>

definition writeAuditLog :: "int \<Rightarrow> string \<Rightarrow> string \<Rightarrow> unit pay_prog" where
  "writeAuditLog i action operator = ask (CreateAudit i action operator) (\<lambda>r. ())"

definition hasAuditLog :: "int \<Rightarrow> string \<Rightarrow> bool pay_prog" where
  "hasAuditLog i action = ask (CountAudit i action) (\<lambda>r. case r of RCount n \<Rightarrow> n > 0 | _ \<Rightarrow> False)"

section \<open>Integers in text\<close>

text \<open>\<open>strconv.ParseInt(s, 10, 64)\<close>.\<close>

definition parse_int64 :: "string \<Rightarrow> int option" where
  "parse_int64 s =
     (let neg = (s \<noteq> [] \<and> hd s = CHR ''-'');
          ds = (if s \<noteq> [] \<and> (hd s = CHR ''-'' \<or> hd s = CHR ''+'') then tl s else s)
      in if ds = [] \<or> list_ex (\<lambda>c. byte c < 48 \<or> 57 < byte c) ds then None
         else (let v = foldl (\<lambda>a c. 10 * a + int (byte c - 48)) 0 ds;
                   n = (if neg then - v else v)
               in if int64_range n then Some n else None))"

section \<open>The snapshot of an order\<close>

record order_snapshot =
  ps_SchemaVersion :: int
  ps_ProviderInstanceID :: string
  ps_ProviderKey :: string
  ps_PaymentMode :: string
  ps_MerchantAppID :: string
  ps_MerchantID :: string
  ps_Currency :: string

definition psSnapshotStringValue :: "snapshot_value option \<Rightarrow> string" where
  "psSnapshotStringValue v = (case v of Some (SnapText s) \<Rightarrow> trim_space s | _ \<Rightarrow> [])"

definition psSnapshotIntValue :: "snapshot_value option \<Rightarrow> int" where
  "psSnapshotIntValue v =
     (case v of
        Some (SnapNumber q) \<Rightarrow> (if q < 0 then \<lceil>q\<rceil> else \<lfloor>q\<rfloor>)
      | Some (SnapText s) \<Rightarrow> (case parse_int64 (trim_space s) of Some n \<Rightarrow> n | None \<Rightarrow> 0)
      | _ \<Rightarrow> 0)"

definition psOrderProviderSnapshot :: "pay_order \<Rightarrow> order_snapshot option" where
  "psOrderProviderSnapshot order =
     (if po_ProviderSnapshot order = [] then None
      else (let at_key = map_of (po_ProviderSnapshot order);
                snapshot = \<lparr>ps_SchemaVersion = psSnapshotIntValue (at_key ''schema_version''),
                  ps_ProviderInstanceID = psSnapshotStringValue (at_key ''provider_instance_id''),
                  ps_ProviderKey = psSnapshotStringValue (at_key ''provider_key''),
                  ps_PaymentMode = psSnapshotStringValue (at_key ''payment_mode''),
                  ps_MerchantAppID = psSnapshotStringValue (at_key ''merchant_app_id''),
                  ps_MerchantID = psSnapshotStringValue (at_key ''merchant_id''),
                  ps_Currency = psSnapshotStringValue (at_key ''currency'')\<rparr>
            in if ps_SchemaVersion snapshot = 0 \<and> ps_ProviderInstanceID snapshot = [] \<and> ps_ProviderKey snapshot = [] \<and>
                  ps_PaymentMode snapshot = [] \<and> ps_MerchantAppID snapshot = [] \<and> ps_MerchantID snapshot = [] \<and>
                  ps_Currency snapshot = []
               then None else Some snapshot))"

definition PaymentOrderCurrency :: "pay_order \<Rightarrow> string" where
  "PaymentOrderCurrency order =
     (case psOrderProviderSnapshot order of
        None \<Rightarrow> DefaultPaymentCurrency
      | Some snapshot \<Rightarrow>
          (case NormalizePaymentCurrency (ps_Currency snapshot) of
             Some currency \<Rightarrow> currency
           | None \<Rightarrow> DefaultPaymentCurrency))"

definition psStringValue :: "string option \<Rightarrow> string" where
  "psStringValue v = (case v of None \<Rightarrow> [] | Some s \<Rightarrow> s)"

section \<open>Payment types\<close>

definition GetBasePaymentType :: "string \<Rightarrow> string" where
  "GetBasePaymentType t =
     (if t = ''easypay'' then ''easypay''
      else if t = ''airwallex'' then ''airwallex''
      else if t = ''stripe'' \<or> t = ''card'' \<or> t = ''link'' then ''stripe''
      else if prefix ''alipay'' t then ''alipay''
      else if prefix ''wxpay'' t then ''wxpay''
      else t)"

definition normalizeVisibleMethodSupportType :: "string \<Rightarrow> string" where
  "normalizeVisibleMethodSupportType t =
     (let s = trim_space t in
      if s = ''alipay'' \<or> s = ''alipay_direct'' then ''alipay''
      else if s = ''wxpay'' \<or> s = ''wxpay_direct'' then ''wxpay''
      else s)"

fun split_on :: "char \<Rightarrow> string \<Rightarrow> string list" where
  "split_on c [] = [[]]"
| "split_on c (x # xs) =
     (if x = c then [] # split_on c xs
      else (case split_on c xs of [] \<Rightarrow> [[x]] | y # ys \<Rightarrow> (x # y) # ys))"

definition InstanceSupportsType :: "string \<Rightarrow> string \<Rightarrow> bool" where
  "InstanceSupportsType supportedTypes target =
     (supportedTypes = [] \<or>
      list_ex (\<lambda>t. let supported = trim_space t in
                 supported = target \<or>
                 normalizeVisibleMethodSupportType supported = normalizeVisibleMethodSupportType target)
        (split_on CHR '','' supportedTypes))"

section \<open>The provider instance of an order\<close>

definition psLegacyOrderMatchesInstance :: "string \<Rightarrow> provider_instance \<Rightarrow> bool" where
  "psLegacyOrderMatchesInstance orderPaymentType inst =
     (let baseType = GetBasePaymentType (trim_space orderPaymentType);
          instanceProviderKey = trim_space (pi_ProviderKey inst)
      in if baseType = [] then False
         else if baseType = ''stripe'' then instanceProviderKey = ''stripe''
         else if instanceProviderKey = ''stripe'' then False
         else if instanceProviderKey = baseType then True
         else InstanceSupportsType (pi_SupportedTypes inst) baseType)"

definition psFilterLegacyOrderProviderInstances :: "string \<Rightarrow> provider_instance list \<Rightarrow> provider_instance list" where
  "psFilterLegacyOrderProviderInstances orderPaymentType instances =
     (if trim_space orderPaymentType = [] then instances
      else filter (psLegacyOrderMatchesInstance orderPaymentType) instances)"

definition getInstance :: "int \<Rightarrow> (pay_error + provider_instance option) pay_prog" where
  "getInstance i = ask (GetInstance i)
     (\<lambda>r. case r of RInstance p \<Rightarrow> Inr (Some p) | RNone \<Rightarrow> Inr None | _ \<Rightarrow> Inl (Plain ''get instance''))"

definition instancesWhere :: "(provider_instance \<Rightarrow> bool) \<Rightarrow> (pay_error + provider_instance list) pay_prog" where
  "instancesWhere P = ask (InstancesWhere P)
     (\<lambda>r. case r of RInstances ps \<Rightarrow> Inr ps | _ \<Rightarrow> Inl (Plain ''query instances''))"

definition only_one :: "provider_instance list \<Rightarrow> pay_error + provider_instance option" where
  "only_one matched = (case matched of [inst] \<Rightarrow> Inr (Some inst) | _ \<Rightarrow> Inr None)"

definition resolveUniqueLegacyOrderProviderInstance :: "pay_order \<Rightarrow> (pay_error + provider_instance option) pay_prog" where
  "resolveUniqueLegacyOrderProviderInstance y =
     (let paymentType = GetBasePaymentType (trim_space (po_PaymentType y));
          providerKey = trim_space (psStringValue (po_ProviderKey y))
      in if providerKey \<noteq> [] then
           try_bind (instancesWhere (\<lambda>p. pi_ProviderKey p = providerKey)) (\<lambda>instances.
             Done (only_one (psFilterLegacyOrderProviderInstances paymentType instances)))
         else if paymentType = [] then Done (Inr None)
         else try_bind (instancesWhere (\<lambda>p. True)) (\<lambda>instances.
             Done (only_one (psFilterLegacyOrderProviderInstances paymentType instances))))"

definition resolveSnapshotOrderProviderInstance ::
    "pay_order \<Rightarrow> order_snapshot \<Rightarrow> (pay_error + provider_instance option) pay_prog" where
  "resolveSnapshotOrderProviderInstance order snapshot =
     (let columnInstanceID = trim_space (psStringValue (po_ProviderInstanceID order));
          snapshotInstanceID = (if trim_space (ps_ProviderInstanceID snapshot) = [] then columnInstanceID
                                else trim_space (ps_ProviderInstanceID snapshot))
      in if snapshotInstanceID = [] then Done (Inl (Plain ''snapshot is missing provider_instance_id''))
         else if columnInstanceID \<noteq> [] \<and> ps_ProviderInstanceID snapshot \<noteq> [] \<and>
                 \<not> equal_fold columnInstanceID (ps_ProviderInstanceID snapshot)
         then Done (Inl (Plain ''snapshot instance mismatch''))
         else (case parse_int64 snapshotInstanceID of
                 None \<Rightarrow> Done (Inl (Plain ''snapshot instance id is invalid''))
               | Some instID \<Rightarrow>
                   try_bind (getInstance instID) (\<lambda>found_inst.
                     case found_inst of
                       None \<Rightarrow> Done (Inl (Plain ''snapshot instance is missing''))
                     | Some inst \<Rightarrow>
                         if ps_ProviderKey snapshot \<noteq> [] \<and> \<not> equal_fold (trim_space (pi_ProviderKey inst)) (ps_ProviderKey snapshot)
                         then Done (Inl (Plain ''snapshot key mismatch''))
                         else Done (Inr (Some inst)))))"

definition getOrderProviderInstance :: "pay_order \<Rightarrow> (pay_error + provider_instance option) pay_prog" where
  "getOrderProviderInstance y =
     (case psOrderProviderSnapshot y of
        Some snapshot \<Rightarrow> resolveSnapshotOrderProviderInstance y snapshot
      | None \<Rightarrow>
          (let instIDStr = trim_space (psStringValue (po_ProviderInstanceID y)) in
           if instIDStr = [] then resolveUniqueLegacyOrderProviderInstance y
           else (case parse_int64 instIDStr of
                   None \<Rightarrow> Done (Inr None)
                 | Some instID \<Rightarrow>
                     try_bind (getInstance instID) (\<lambda>found_inst.
                       case found_inst of None \<Rightarrow> Done (Inl (Plain ''not found'')) | Some inst \<Rightarrow> Done (Inr (Some inst))))))"

definition getRefundOrderProviderInstance :: "pay_order \<Rightarrow> (pay_error + provider_instance option) pay_prog" where
  "getRefundOrderProviderInstance y =
     (case psOrderProviderSnapshot y of
        Some snapshot \<Rightarrow> resolveSnapshotOrderProviderInstance y snapshot
      | None \<Rightarrow>
          (let instIDStr = trim_space (psStringValue (po_ProviderInstanceID y)) in
           if instIDStr = [] then Done (Inr None)
           else (case parse_int64 instIDStr of
                   None \<Rightarrow> Done (Inl (Plain ''refund provider instance id is invalid''))
                 | Some instID \<Rightarrow>
                     try_bind (getInstance instID) (\<lambda>found_inst.
                       case found_inst of
                         None \<Rightarrow> Done (Inl (Plain ''refund provider instance is missing''))
                       | Some inst \<Rightarrow> Done (Inr (Some inst))))))"

section \<open>The provider of an order\<close>

definition makeProvider :: "provider_instance \<Rightarrow> (pay_error + string) pay_prog" where
  "makeProvider inst = ask (MakeProvider (pi_ID inst) (pi_ProviderKey inst))
     (\<lambda>r. case r of RText k \<Rightarrow> Inr k | _ \<Rightarrow> Inl (Plain ''create provider from instance''))"

definition registryProvider :: "string \<Rightarrow> (pay_error + string) pay_prog" where
  "registryProvider t = ask (RegistryProvider t)
     (\<lambda>r. case r of RText k \<Rightarrow> Inr k | _ \<Rightarrow> Inl (Plain ''get provider''))"

definition paymentOrderAllowsRegistryFallback :: "pay_order \<Rightarrow> bool" where
  "paymentOrderAllowsRegistryFallback order \<longleftrightarrow>
     psOrderProviderSnapshot order = None \<and> trim_space (psStringValue (po_ProviderInstanceID order)) = [] \<and>
     trim_space (psStringValue (po_ProviderKey order)) = []"

definition paymentOrderFallbackProviderKey :: "pay_env \<Rightarrow> pay_order \<Rightarrow> string" where
  "paymentOrderFallbackProviderKey env order =
     (let key = trim_space (pe_registryKey env (po_PaymentType order)) in
      if key \<noteq> [] then key else trim_space (GetBasePaymentType (trim_space (po_PaymentType order))))"

definition webhookRegistryFallbackAllowed :: "string \<Rightarrow> bool pay_prog" where
  "webhookRegistryFallbackAllowed providerKey0 =
     (let providerKey = trim_space providerKey0 in
      if providerKey = [] then Done False
      else bind (instancesWhere (\<lambda>p. pi_ProviderKey p = providerKey \<and> pi_Enabled p)) (\<lambda>r.
        case r of Inl e \<Rightarrow> Done False | Inr ps \<Rightarrow> Done (length ps \<le> 1)))"

definition getOrderProvider :: "pay_env \<Rightarrow> pay_order \<Rightarrow> (pay_error + string) pay_prog" where
  "getOrderProvider env y =
     try_bind (getOrderProviderInstance y) (\<lambda>found_inst.
       case found_inst of
         Some inst \<Rightarrow> makeProvider inst
       | None \<Rightarrow>
           if \<not> paymentOrderAllowsRegistryFallback y then Done (Inl (Plain ''provider instance is unresolved''))
           else (let providerKey = paymentOrderFallbackProviderKey env y in
                 if providerKey = [] then Done (Inl (Plain ''provider fallback key is missing''))
                 else bind (webhookRegistryFallbackAllowed providerKey) (\<lambda>allowed.
                   if \<not> allowed then Done (Inl (Plain ''provider fallback is ambiguous''))
                   else registryProvider (po_PaymentType y))))"

definition getRefundProvider :: "pay_order \<Rightarrow> (pay_error + string) pay_prog" where
  "getRefundProvider y =
     try_bind (getRefundOrderProviderInstance y) (\<lambda>found_inst.
       case found_inst of
         None \<Rightarrow> Done (Inl (Plain ''refund provider instance is unavailable''))
       | Some inst \<Rightarrow> makeProvider inst)"

definition paymentOrderQueryReference :: "pay_order \<Rightarrow> string \<Rightarrow> string" where
  "paymentOrderQueryReference order prov =
     (let k1 = trim_space prov;
          k2 = (if k1 = [] then (case psOrderProviderSnapshot order of
                                   Some snapshot \<Rightarrow> trim_space (ps_ProviderKey snapshot) | None \<Rightarrow> []) else k1);
          k3 = (if k2 = [] then trim_space (psStringValue (po_ProviderKey order)) else k2);
          k4 = (if k3 = [] then trim_space (po_PaymentType order) else k3)
      in if GetBasePaymentType k4 \<in> {''alipay'', ''easypay'', ''wxpay''} then trim_space (po_OutTradeNo order)
         else if trim_space (po_PaymentTradeNo order) \<noteq> [] then trim_space (po_PaymentTradeNo order)
         else trim_space (po_OutTradeNo order))"

definition paymentOrderShouldPersistUpstreamTradeNo :: "string \<Rightarrow> string \<Rightarrow> string \<Rightarrow> bool" where
  "paymentOrderShouldPersistUpstreamTradeNo queryRef upstreamTradeNo0 currentTradeNo =
     (let upstreamTradeNo = trim_space upstreamTradeNo0 in
      if upstreamTradeNo = [] then False
      else if equal_fold upstreamTradeNo (trim_space currentTradeNo) then False
      else if equal_fold upstreamTradeNo (trim_space queryRef) then False
      else True)"

section \<open>A notification and the order it names\<close>

definition expectedNotificationProviderKey :: "pay_env \<Rightarrow> string \<Rightarrow> string \<Rightarrow> string \<Rightarrow> string" where
  "expectedNotificationProviderKey env orderPaymentType orderProviderKey instanceProviderKey =
     (if trim_space instanceProviderKey \<noteq> [] then trim_space instanceProviderKey
      else if trim_space orderProviderKey \<noteq> [] then trim_space orderProviderKey
      else if trim_space (pe_registryKey env orderPaymentType) \<noteq> [] then trim_space (pe_registryKey env orderPaymentType)
      else trim_space orderPaymentType)"

definition expectedNotificationProviderKeyForOrder :: "pay_env \<Rightarrow> pay_order \<Rightarrow> string \<Rightarrow> string" where
  "expectedNotificationProviderKeyForOrder env order instanceProviderKey =
     (let orderProviderKey = (case psOrderProviderSnapshot order of
            Some snapshot \<Rightarrow> if ps_ProviderKey snapshot \<noteq> [] then ps_ProviderKey snapshot
                             else psStringValue (po_ProviderKey order)
          | None \<Rightarrow> psStringValue (po_ProviderKey order))
      in expectedNotificationProviderKey env (po_PaymentType order) orderProviderKey instanceProviderKey)"

definition meta :: "(string \<times> string) list \<Rightarrow> string \<Rightarrow> string" where
  "meta metadata k = (case map_of metadata k of Some v \<Rightarrow> v | None \<Rightarrow> [])"

text \<open>One expected value: nothing is expected, or the notification must carry the same.\<close>

definition expects :: "string \<Rightarrow> string \<Rightarrow> bool" where
  "expects expected0 actual \<longleftrightarrow>
     (let expected = trim_space expected0 in expected = [] \<or> (actual \<noteq> [] \<and> equal_fold expected actual))"

definition state_matches :: "string \<Rightarrow> string \<Rightarrow> bool" where
  "state_matches actual expected \<longleftrightarrow> trim_space actual = [] \<or> equal_fold (trim_space actual) expected"

text \<open>True when the source returns no error.\<close>

definition validateProviderSnapshotMetadata :: "pay_order \<Rightarrow> string \<Rightarrow> (string \<times> string) list \<Rightarrow> bool" where
  "validateProviderSnapshotMetadata order providerKey metadata =
     (if metadata = [] then True
      else case psOrderProviderSnapshot order of
        None \<Rightarrow> True
      | Some snapshot \<Rightarrow>
          (let k = trim_space providerKey;
               field = (\<lambda>name. trim_space (meta metadata name));
               upper_field = (\<lambda>name. to_upper (trim_space (meta metadata name)))
           in if k = ''wxpay'' then
                expects (ps_MerchantAppID snapshot) (field ''appid'') \<and>
                expects (ps_MerchantID snapshot) (field ''mchid'') \<and>
                expects (ps_Currency snapshot) (upper_field ''currency'') \<and>
                state_matches (meta metadata ''trade_state'') ''SUCCESS''
              else if k = ''alipay'' then expects (ps_MerchantAppID snapshot) (field ''app_id'')
              else if k = ''easypay'' then expects (ps_MerchantID snapshot) (field ''pid'')
              else if k = ''stripe'' then expects (ps_Currency snapshot) (upper_field ''currency'')
              else if k = ''airwallex'' then
                expects (ps_MerchantID snapshot) (field ''account_id'') \<and>
                expects (ps_Currency snapshot) (upper_field ''currency'') \<and>
                state_matches (meta metadata ''status'') ''SUCCEEDED''
              else True))"

end
