(* ===== verification/PaySubscription.thy ===== *)
theory PaySubscription
  imports PayProvider
begin

text \<open>
  The subscription service as payments use it (\<open>service/subscription_service.go\<close>): assigning or extending,
  shortening, revoking and finding a subscription. A term is computed from the row read before and
  written as an absolute date.
\<close>

definition getSubFor :: "int \<Rightarrow> int \<Rightarrow> user_sub option pay_prog" where
  "getSubFor u g = ask (SubByUserAndGroup u g) (\<lambda>r. case r of RSub s \<Rightarrow> Some s | _ \<Rightarrow> None)"

definition getSub :: "int \<Rightarrow> user_sub option pay_prog" where
  "getSub i = ask (SubByID i) (\<lambda>r. case r of RSub s \<Rightarrow> Some s | _ \<Rightarrow> None)"

definition getGroup :: "int \<Rightarrow> sub_group option pay_prog" where
  "getGroup g = ask (GroupByID g) (\<lambda>r. case r of RGroup x \<Rightarrow> Some x | _ \<Rightarrow> None)"

definition getActiveSubscription :: "int \<Rightarrow> int \<Rightarrow> user_sub option pay_prog" where
  "getActiveSubscription u g = ask (ActiveSub u g) (\<lambda>r. case r of RSub s \<Rightarrow> Some s | _ \<Rightarrow> None)"

definition writes :: "pay_call \<Rightarrow> bool pay_prog" where
  "writes c = ask c succeeds"

definition updateExistingSubscriptionTerm :: "user_sub \<Rightarrow> int \<Rightarrow> int \<Rightarrow> bool \<Rightarrow> bool pay_prog" where
  "updateExistingSubscriptionTerm existingSub startsAt newExpiresAt isExpired =
     (if isExpired then writes (RenewTx (renewedSubscriptionTerm existingSub startsAt newExpiresAt))
      else writes (ExtendTx (us_ID existingSub) newExpiresAt (us_Status existingSub \<noteq> SubscriptionStatusActive)))"

definition createSubscription :: "int \<Rightarrow> int \<Rightarrow> int \<Rightarrow> user_sub pay_result" where
  "createSubscription userID groupID days =
     bind timeNow (\<lambda>t.
     bind (ask (CreateSub (newSubscription userID groupID t days)) (\<lambda>r. case r of RSub s \<Rightarrow> Some s | _ \<Rightarrow> None)) (\<lambda>created.
     case created of
       None \<Rightarrow> Done (Inl (Plain ''create subscription''))
     | Some c \<Rightarrow> bind (getSub (us_ID c)) (\<lambda>sub.
         case sub of Some s \<Rightarrow> Done (Inr s) | None \<Rightarrow> Done (Inl (Plain ''get subscription'')))))"

definition AssignOrExtendSubscription :: "int \<Rightarrow> int \<Rightarrow> int \<Rightarrow> (user_sub \<times> bool) pay_result" where
  "AssignOrExtendSubscription userID groupID days =
     bind (getGroup groupID) (\<lambda>group.
     case group of
       None \<Rightarrow> Done (Inl (Plain ''group not found''))
     | Some g \<Rightarrow>
         if \<not> sg_IsSubscriptionType g then Done (Inl (Coded ''GROUP_NOT_SUBSCRIPTION_TYPE''))
         else bind (getSubFor userID groupID) (\<lambda>existing.
           let validityDays = normalizeAssignValidityDays days in
           case existing of
             Some existingSub \<Rightarrow>
               bind timeNow (\<lambda>t.
               let newExpiresAt = extendedExpiry existingSub t validityDays in
               bind (updateExistingSubscriptionTerm existingSub t newExpiresAt (us_ExpiresAt existingSub \<le> t)) (\<lambda>ok.
               if \<not> ok then Done (Inl (Plain ''extend subscription''))
               else bind (getSub (us_ID existingSub)) (\<lambda>sub.
                 case sub of Some s \<Rightarrow> Done (Inr (s, True)) | None \<Rightarrow> Done (Inl (Plain ''get subscription'')))))
           | None \<Rightarrow> try_bind (createSubscription userID groupID days) (\<lambda>s. Done (Inr (s, False)))))"

text \<open>\<open>ExtendSubscription\<close>, with negative days to shorten.\<close>

definition clampDays :: "int \<Rightarrow> int" where
  "clampDays days = max (- MaxValidityDays) (min MaxValidityDays days)"

definition ExtendSubscription :: "int \<Rightarrow> int \<Rightarrow> user_sub pay_result" where
  "ExtendSubscription subscriptionID days0 =
     bind (getSub subscriptionID) (\<lambda>found_sub.
     case found_sub of
       None \<Rightarrow> Done (Inl (Coded ''SUBSCRIPTION_NOT_FOUND''))
     | Some sub \<Rightarrow>
         (let days = clampDays days0 in
          bind timeNow (\<lambda>t.
          let isExpired = (us_ExpiresAt sub \<le> t);
              e = (if isExpired then AddDays t days else AddDays (us_ExpiresAt sub) days);
              newExpiresAt = (if e > MaxExpiresAt then MaxExpiresAt else e)
          in if isExpired \<and> days < 0 then Done (Inl (Coded ''CANNOT_SHORTEN_EXPIRED''))
             else if newExpiresAt \<le> t then Done (Inl (Coded ''ADJUST_WOULD_EXPIRE''))
             else bind (writes (ExtendExpiry subscriptionID newExpiresAt)) (\<lambda>ok.
               if \<not> ok then Done (Inl (Plain ''extend expiry''))
               else bind (if us_Status sub = SubscriptionStatusExpired
                          then writes (UpdateSubStatus subscriptionID SubscriptionStatusActive) else Done True) (\<lambda>ok2.
                 if \<not> ok2 then Done (Inl (Plain ''update status''))
                 else bind (getSub subscriptionID) (\<lambda>sub2.
                   case sub2 of Some s \<Rightarrow> Done (Inr s) | None \<Rightarrow> Done (Inl (Coded ''SUBSCRIPTION_NOT_FOUND''))))))))"

definition RevokeSubscription :: "int \<Rightarrow> bool pay_prog" where
  "RevokeSubscription subscriptionID =
     bind (getSub subscriptionID) (\<lambda>sub.
     case sub of None \<Rightarrow> Done False | Some s \<Rightarrow> writes (DeleteSub subscriptionID))"

end
