(* ===== verification/PayFulfill.thy ===== *)
theory PayFulfill
  imports PaySubscription
begin

text \<open>
  From a provider's notification to the credited balance or the subscription: \<open>Redeem\<close> of
  \<open>redeem_service.go\<close> and \<open>payment_fulfillment.go\<close>. Every update of an order names the states it may
  start from. E-mails are left out, the details of an audit row too.
\<close>

section \<open>Redeem codes\<close>

definition IsExpiredAt :: "redeem_code \<Rightarrow> int \<Rightarrow> bool" where
  "IsExpiredAt r t \<longleftrightarrow> rd_Status r = StatusExpired \<or>
     (rd_Status r = StatusUnused \<and> (case rd_ExpiresAt r of None \<Rightarrow> False | Some e \<Rightarrow> e \<le> t))"

definition CanUse :: "redeem_code \<Rightarrow> int \<Rightarrow> bool" where
  "CanUse r t \<longleftrightarrow> rd_Status r = StatusUnused \<and> \<not> IsExpiredAt r t"

definition redeemMaxErrorsPerHour :: nat where
  "redeemMaxErrorsPerHour = 20"

text \<open>The code, or whether the lookup found none (\<open>Inl True\<close>) or failed (\<open>Inl False\<close>).\<close>

definition getByCode :: "string \<Rightarrow> (bool + redeem_code) pay_prog" where
  "getByCode c = ask (CodeByCode c) (\<lambda>r. case r of RCode rd \<Rightarrow> Inr rd | RNone \<Rightarrow> Inl True | _ \<Rightarrow> Inl False)"

definition getUser :: "int \<Rightarrow> pay_user option pay_prog" where
  "getUser u = ask (UserByID u) (\<lambda>r. case r of RUser x \<Rightarrow> Some x | _ \<Rightarrow> None)"

text \<open>Redis only helps: without it, or when it fails, a redemption goes on.\<close>

definition checkRedeemRateLimit :: "pay_env \<Rightarrow> int \<Rightarrow> bool pay_prog" where
  "checkRedeemRateLimit env userID =
     (if \<not> pe_redeemCache env then Done True
      else ask (RedeemAttempts userID) (\<lambda>r. case r of RCount n \<Rightarrow> n < redeemMaxErrorsPerHour | _ \<Rightarrow> True))"

definition incrementRedeemErrorCount :: "pay_env \<Rightarrow> int \<Rightarrow> unit pay_prog" where
  "incrementRedeemErrorCount env userID =
     (if \<not> pe_redeemCache env then Done () else ask (CountRedeemError userID) (\<lambda>r. ()))"

definition acquireRedeemLock :: "pay_env \<Rightarrow> string \<Rightarrow> bool pay_prog" where
  "acquireRedeemLock env c =
     (if \<not> pe_redeemCache env then Done True
      else ask (LockRedeem c) (\<lambda>r. case r of RBool b \<Rightarrow> b | _ \<Rightarrow> True))"

definition releaseRedeemLock :: "pay_env \<Rightarrow> string \<Rightarrow> unit pay_prog" where
  "releaseRedeemLock env c = (if \<not> pe_redeemCache env then Done () else ask (UnlockRedeem c) (\<lambda>r. ()))"

definition redeemTx :: "string \<Rightarrow> int \<Rightarrow> grant \<Rightarrow> unit pay_result" where
  "redeemTx c userID g = ask (RedeemTx c userID g)
     (\<lambda>r. case r of RUnit \<Rightarrow> Inr () | RRefused \<Rightarrow> Inl (Coded ''REDEEM_CODE_USED'') | _ \<Rightarrow> Inl (Plain ''redeem transaction''))"

text \<open>The \<open>switch\<close> over the type of the code.\<close>

definition redeem_grant :: "pay_user \<Rightarrow> redeem_code \<Rightarrow> grant option" where
  "redeem_grant user rd =
     (if rd_Type rd = ''balance'' then
        (let amount = rd_Value rd in
         Some (AddToBalance (if amount < 0 \<and> ur_Balance user + amount < 0 then - ur_Balance user else amount)))
      else if rd_Type rd = ''concurrency'' then
        (let delta = (if rd_Value rd < 0 then \<lceil>rd_Value rd\<rceil> else \<lfloor>rd_Value rd\<rfloor>) in
         Some (AddToConcurrency (if delta < 0 \<and> ur_Concurrency user + delta < 0 then - ur_Concurrency user else delta)))
      else if rd_Type rd = ''subscription'' then
        (case rd_GroupID rd of
           None \<Rightarrow> None
         | Some gid \<Rightarrow> Some (if rd_ValidityDays rd < 0 then ReduceDays gid (- rd_ValidityDays rd)
                              else AssignDays gid (if rd_ValidityDays rd = 0 then 30 else rd_ValidityDays rd)))
      else None)"

text \<open>Between taking and releasing the lock.\<close>

definition redeemLocked :: "pay_env \<Rightarrow> int \<Rightarrow> string \<Rightarrow> redeem_code pay_result" where
  "redeemLocked env userID c =
     bind (getByCode c) (\<lambda>found_code.
     case found_code of
       Inl missing \<Rightarrow>
         if missing then bind (incrementRedeemErrorCount env userID) (\<lambda>_. Done (Inl (Coded ''REDEEM_CODE_NOT_FOUND'')))
         else Done (Inl (Plain ''get redeem code''))
     | Inr redeemCode \<Rightarrow>
         bind timeNow (\<lambda>t.
         if IsExpiredAt redeemCode t then
           bind (incrementRedeemErrorCount env userID) (\<lambda>_. Done (Inl (Coded ''REDEEM_CODE_EXPIRED'')))
         else if \<not> CanUse redeemCode t then
           bind (incrementRedeemErrorCount env userID) (\<lambda>_. Done (Inl (Coded ''REDEEM_CODE_USED'')))
         else if rd_Type redeemCode = ''subscription'' \<and> rd_GroupID redeemCode = None then
           Done (Inl (Coded ''REDEEM_CODE_INVALID''))
         else bind (getUser userID) (\<lambda>found_user.
           case found_user of
             None \<Rightarrow> Done (Inl (Plain ''get user''))
           | Some user \<Rightarrow>
               (case redeem_grant user redeemCode of
                  None \<Rightarrow> Done (Inl (Plain ''unsupported redeem type''))
                | Some g \<Rightarrow>
                    try_bind (redeemTx c userID g) (\<lambda>_.
                    bind (getByCode c) (\<lambda>updated.
                      case updated of Inr rd \<Rightarrow> Done (Inr rd) | Inl _ \<Rightarrow> Done (Inl (Plain ''get updated redeem code''))))))))"

definition Redeem :: "pay_env \<Rightarrow> int \<Rightarrow> string \<Rightarrow> redeem_code pay_result" where
  "Redeem env userID c =
     bind (checkRedeemRateLimit env userID) (\<lambda>allowed.
     if \<not> allowed then Done (Inl (Coded ''REDEEM_RATE_LIMITED''))
     else bind (acquireRedeemLock env c) (\<lambda>locked.
       if \<not> locked then Done (Inl (Coded ''REDEEM_CODE_LOCKED''))
       else bind (redeemLocked env userID c) (\<lambda>r. bind (releaseRedeemLock env c) (\<lambda>_. Done r))))"

definition CreateCode :: "redeem_code \<Rightarrow> unit pay_result" where
  "CreateCode code0 =
     (let code1 = code0\<lparr>rd_Code := trim_space (rd_Code code0)\<rparr> in
      if rd_Code code1 = [] then Done (Inl (Plain ''code is required''))
      else (let code2 = (if rd_Type code1 = [] then code1\<lparr>rd_Type := ''balance''\<rparr> else code1) in
        if rd_Type code2 \<noteq> ''invitation'' \<and> rd_Value code2 = 0 then Done (Inl (Plain ''value must not be zero''))
        else (let code3 = (if rd_Status code2 = [] then code2\<lparr>rd_Status := StatusUnused\<rparr> else code2) in
          bind timeNow (\<lambda>t.
          if IsExpiredAt code3 t then Done (Inl (Coded ''REDEEM_CODE_EXPIRED''))
          else bind (writes (CreateRedeemCode code3)) (\<lambda>ok.
            if ok then Done (Inr ()) else Done (Inl (Plain ''create redeem code'')))))))"

section \<open>Completing and failing an order\<close>

definition psIsRefundStatus :: "order_status \<Rightarrow> bool" where
  "psIsRefundStatus s \<longleftrightarrow> s \<in> {REFUND_REQUESTED, REFUNDING, PARTIALLY_REFUNDED, REFUNDED, REFUND_FAILED}"

definition in_status :: "order_status list \<Rightarrow> pay_order \<Rightarrow> bool" where
  "in_status ss y \<longleftrightarrow> po_Status y \<in> set ss"

definition markCompleted :: "pay_order \<Rightarrow> string \<Rightarrow> unit pay_result" where
  "markCompleted y auditAction =
     bind timeNow (\<lambda>t.
     bind (updateOrders (po_ID y) (in_status [RECHARGING]) (\<lambda>z. z\<lparr>po_Status := COMPLETED, po_CompletedAt := Some t\<rparr>)) (\<lambda>c.
     case c of
       None \<Rightarrow> Done (Inl (Plain ''mark completed''))
     | Some n \<Rightarrow> bind (writeAuditLog (po_ID y) auditAction ''system'') (\<lambda>_. Done (Inr ()))))"

definition markFailed :: "int \<Rightarrow> pay_error \<Rightarrow> unit pay_prog" where
  "markFailed i cause =
     bind timeNow (\<lambda>t.
     bind (updateOrders i (in_status [RECHARGING])
             (\<lambda>z. z\<lparr>po_Status := FAILED, po_FailedAt := Some t, po_FailedReason := Some cause\<rparr>)) (\<lambda>c.
     case c of
       None \<Rightarrow> Done ()
     | Some n \<Rightarrow> if n > 0 then writeAuditLog i ''FULFILLMENT_FAILED'' ''system'' else Done ()))"

section \<open>Balance orders\<close>

definition rebateTx :: "int \<Rightarrow> int \<Rightarrow> float64 \<Rightarrow> unit pay_result" where
  "rebateTx i uid amount = ask (RebateTx i uid amount)
     (\<lambda>r. case r of RBool b \<Rightarrow> Inr () | _ \<Rightarrow> Inl (Plain ''affiliate rebate''))"

definition applyAffiliateRebateForOrder :: "pay_env \<Rightarrow> pay_order \<Rightarrow> unit pay_result" where
  "applyAffiliateRebateForOrder env y =
     (if po_OrderType y \<noteq> ''balance'' \<or> po_Amount y \<le> 0 then Done (Inr ())
      else if \<not> pe_affiliate env then Done (Inr ())
      else bind (rebateTx (po_ID y) (po_UserID y) (po_Amount y)) (\<lambda>r.
        case r of
          Inr u \<Rightarrow> Done (Inr ())
        | Inl e \<Rightarrow> bind (writeAuditLog (po_ID y) ''AFFILIATE_REBATE_FAILED'' ''system'') (\<lambda>_. Done (Inl e))))"

datatype redeemAction = redeemActionCreate | redeemActionRedeem | redeemActionSkipCompleted

definition resolveRedeemAction :: "bool + redeem_code \<Rightarrow> redeemAction" where
  "resolveRedeemAction existing =
     (case existing of
        Inl e \<Rightarrow> redeemActionCreate
      | Inr rd \<Rightarrow> if rd_Status rd = StatusUsed then redeemActionSkipCompleted else redeemActionRedeem)"

definition order_code :: "pay_order \<Rightarrow> redeem_code" where
  "order_code y = \<lparr>rd_Code = po_RechargeCode y, rd_Type = ''balance'', rd_Value = po_Amount y, rd_Status = StatusUnused,
     rd_UsedBy = None, rd_UsedAt = None, rd_ExpiresAt = None, rd_GroupID = None, rd_ValidityDays = 0\<rparr>"

definition doBalance :: "pay_env \<Rightarrow> pay_order \<Rightarrow> unit pay_result" where
  "doBalance env y =
     bind (getByCode (po_RechargeCode y)) (\<lambda>existing.
     let redeem_and_complete =
           try_bind (Redeem env (po_UserID y) (po_RechargeCode y)) (\<lambda>_.
           try_bind (applyAffiliateRebateForOrder env y) (\<lambda>_.
           markCompleted y ''RECHARGE_SUCCESS''))
     in case resolveRedeemAction existing of
          redeemActionSkipCompleted \<Rightarrow>
            try_bind (applyAffiliateRebateForOrder env y) (\<lambda>_. markCompleted y ''RECHARGE_SUCCESS'')
        | redeemActionCreate \<Rightarrow> try_bind (CreateCode (order_code y)) (\<lambda>_. redeem_and_complete)
        | redeemActionRedeem \<Rightarrow> redeem_and_complete)"

text \<open>The guards both kinds of order share; \<open>None\<close> lets the fulfillment go on.\<close>

definition fulfillment_refused :: "pay_order \<Rightarrow> (pay_error + unit) option" where
  "fulfillment_refused y =
     (if po_Status y = COMPLETED then Some (Inr ())
      else if psIsRefundStatus (po_Status y) then Some (Inl (Coded ''INVALID_STATUS''))
      else if po_Status y \<noteq> PAID \<and> po_Status y \<noteq> FAILED then Some (Inl (Coded ''INVALID_STATUS''))
      else None)"

text \<open>Take the order to \<open>RECHARGING\<close>, do the work, and mark a failure.\<close>

definition recharging :: "int \<Rightarrow> unit pay_result \<Rightarrow> unit pay_result" where
  "recharging i work =
     bind (updateOrders i (in_status [PAID, FAILED]) (\<lambda>z. z\<lparr>po_Status := RECHARGING\<rparr>)) (\<lambda>c.
     case c of
       None \<Rightarrow> Done (Inl (Plain ''lock''))
     | Some n \<Rightarrow>
         if n = 0 then Done (Inr ())
         else bind work (\<lambda>r. case r of
                Inr u \<Rightarrow> Done (Inr ())
              | Inl e \<Rightarrow> bind (markFailed i e) (\<lambda>_. Done (Inl e))))"

definition ExecuteBalanceFulfillment :: "pay_env \<Rightarrow> int \<Rightarrow> unit pay_result" where
  "ExecuteBalanceFulfillment env i =
     bind (getOrder i) (\<lambda>found_order.
     case found_order of
       None \<Rightarrow> Done (Inl (Coded ''NOT_FOUND''))
     | Some y \<Rightarrow> (case fulfillment_refused y of Some r \<Rightarrow> Done r | None \<Rightarrow> recharging i (doBalance env y)))"

section \<open>Subscription orders\<close>

definition doSub :: "pay_order \<Rightarrow> int \<Rightarrow> int \<Rightarrow> unit pay_result" where
  "doSub y gid days =
     bind (getGroup gid) (\<lambda>g.
     if (case g of None \<Rightarrow> True | Some x \<Rightarrow> sg_Status x \<noteq> ''active'') then Done (Inl (Plain ''group no longer exists or inactive''))
     else bind (hasAuditLog (po_ID y) ''SUBSCRIPTION_SUCCESS'') (\<lambda>assigned.
       if assigned then markCompleted y ''SUBSCRIPTION_SUCCESS''
       else bind (AssignOrExtendSubscription (po_UserID y) gid days) (\<lambda>r. case r of
              Inl e \<Rightarrow> Done (Inl (Plain ''assign subscription''))
            | Inr s \<Rightarrow> markCompleted y ''SUBSCRIPTION_SUCCESS'')))"

definition ExecuteSubscriptionFulfillment :: "int \<Rightarrow> unit pay_result" where
  "ExecuteSubscriptionFulfillment i =
     bind (getOrder i) (\<lambda>found_order.
     case found_order of
       None \<Rightarrow> Done (Inl (Coded ''NOT_FOUND''))
     | Some y \<Rightarrow>
         (case fulfillment_refused y of
            Some r \<Rightarrow> Done r
          | None \<Rightarrow>
              (case (po_SubscriptionGroupID y, po_SubscriptionDays y) of
                 (Some gid, Some days) \<Rightarrow> recharging i (doSub y gid days)
               | _ \<Rightarrow> Done (Inl (Coded ''INVALID_STATUS'')))))"

definition executeFulfillment :: "pay_env \<Rightarrow> int \<Rightarrow> unit pay_result" where
  "executeFulfillment env i =
     bind (getOrder i) (\<lambda>found_order.
     case found_order of
       None \<Rightarrow> Done (Inl (Plain ''get order''))
     | Some y \<Rightarrow> if po_OrderType y = ''subscription'' then ExecuteSubscriptionFulfillment i
                  else ExecuteBalanceFulfillment env i)"

definition RetryFulfillment :: "pay_env \<Rightarrow> int \<Rightarrow> unit pay_result" where
  "RetryFulfillment env i =
     bind (getOrder i) (\<lambda>found_order.
     case found_order of
       None \<Rightarrow> Done (Inl (Coded ''NOT_FOUND''))
     | Some y \<Rightarrow>
         if po_PaidAt y = None then Done (Inl (Coded ''INVALID_STATUS''))
         else if psIsRefundStatus (po_Status y) then Done (Inl (Coded ''INVALID_STATUS''))
         else if po_Status y = RECHARGING then Done (Inl (Coded ''CONFLICT''))
         else if po_Status y = COMPLETED then Done (Inl (Coded ''INVALID_STATUS''))
         else if po_Status y \<noteq> FAILED \<and> po_Status y \<noteq> PAID then Done (Inl (Coded ''INVALID_STATUS''))
         else bind (updateOrders i (in_status [FAILED, PAID])
                      (\<lambda>z. z\<lparr>po_Status := PAID, po_FailedAt := None, po_FailedReason := None\<rparr>)) (\<lambda>c.
           case c of
             None \<Rightarrow> Done (Inl (Plain ''reset for retry''))
           | Some n \<Rightarrow> bind (writeAuditLog i ''RECHARGE_RETRY'' ''admin'') (\<lambda>_. executeFulfillment env i)))"

section \<open>Notifications\<close>

record payment_notification =
  pn_TradeNo :: string
  pn_OrderID :: string
  pn_Amount :: gofloat
  pn_Status :: string
  pn_Metadata :: "(string \<times> string) list"

definition paymentGrace :: int where
  "paymentGrace = 5 * 60 * 1000000000"

definition orderIDPrefix :: string where
  "orderIDPrefix = ''sub2_''"

definition parseLegacyPaymentOrderID :: "string \<Rightarrow> int option" where
  "parseLegacyPaymentOrderID orderID0 =
     (let orderID = trim_space orderID0 in
      if \<not> prefix orderIDPrefix orderID then None
      else (let trimmed = drop (length orderIDPrefix) orderID in
        if trimmed = [] then None
        else (case parse_int64 trimmed of None \<Rightarrow> None | Some oid \<Rightarrow> if oid \<le> 0 then None else Some oid)))"

definition alreadyProcessed :: "pay_env \<Rightarrow> pay_order \<Rightarrow> unit pay_result" where
  "alreadyProcessed env y =
     bind (getOrder (po_ID y)) (\<lambda>found_order.
     case found_order of
       None \<Rightarrow> Done (Inr ())
     | Some cur \<Rightarrow>
         if po_Status cur = COMPLETED \<or> po_Status cur = REFUNDED then Done (Inr ())
         else if po_Status cur = FAILED then executeFulfillment env (po_ID y)
         else if po_Status cur = PAID \<or> po_Status cur = RECHARGING then Done (Inl (Plain ''order is being processed''))
         else if po_Status cur = EXPIRED then
           bind (writeAuditLog (po_ID y) ''PAYMENT_AFTER_EXPIRY'' ''system'') (\<lambda>_. Done (Inr ()))
         else Done (Inr ()))"

definition may_become_paid :: "int \<Rightarrow> pay_order \<Rightarrow> bool" where
  "may_become_paid grace y \<longleftrightarrow>
     po_Status y = PENDING \<or> po_Status y = CANCELLED \<or> (po_Status y = EXPIRED \<and> po_UpdatedAt y \<ge> grace)"

definition toPaid :: "pay_env \<Rightarrow> pay_order \<Rightarrow> string \<Rightarrow> float64 \<Rightarrow> string \<Rightarrow> unit pay_result" where
  "toPaid env y tradeNo paid pk =
     bind timeNow (\<lambda>t.
     bind (updateOrders (po_ID y) (may_become_paid (t - paymentGrace))
             (\<lambda>z. z\<lparr>po_Status := PAID, po_PayAmount := round_away 2 paid, po_PaymentTradeNo := tradeNo,
                    po_PaidAt := Some t, po_FailedAt := None, po_FailedReason := None\<rparr>)) (\<lambda>c.
     case c of
       None \<Rightarrow> Done (Inl (Plain ''update to PAID''))
     | Some n \<Rightarrow>
         if n = 0 then alreadyProcessed env y
         else bind (if po_Status y = CANCELLED \<or> po_Status y = EXPIRED
                    then writeAuditLog (po_ID y) ''ORDER_RECOVERED'' pk else Done ()) (\<lambda>_.
              bind (writeAuditLog (po_ID y) ''ORDER_PAID'' pk) (\<lambda>_.
              executeFulfillment env (po_ID y)))))"

definition refuse :: "pay_order \<Rightarrow> string \<Rightarrow> string \<Rightarrow> pay_error \<Rightarrow> unit pay_result" where
  "refuse y action pk e = bind (writeAuditLog (po_ID y) action pk) (\<lambda>_. Done (Inl e))"

definition confirmPayment :: "pay_env \<Rightarrow> int \<Rightarrow> string \<Rightarrow> gofloat \<Rightarrow> string \<Rightarrow> (string \<times> string) list \<Rightarrow> unit pay_result" where
  "confirmPayment env oid tradeNo paid pk metadata =
     bind (getOrder oid) (\<lambda>found_order.
     case found_order of
       None \<Rightarrow> Done (Inr ())
     | Some y \<Rightarrow>
         bind (getOrderProviderInstance y) (\<lambda>r.
         let instanceProviderKey = (case r of Inr (Some inst) \<Rightarrow> pi_ProviderKey inst | _ \<Rightarrow> []);
             expectedProviderKey = expectedNotificationProviderKeyForOrder env y instanceProviderKey
         in if expectedProviderKey \<noteq> [] \<and> trim_space pk \<noteq> [] \<and> \<not> equal_fold expectedProviderKey (trim_space pk) then
              refuse y ''PAYMENT_PROVIDER_MISMATCH'' pk (Plain ''provider mismatch'')
            else if \<not> validateProviderSnapshotMetadata y pk metadata then
              refuse y ''PAYMENT_PROVIDER_METADATA_MISMATCH'' pk (Plain ''metadata mismatch'')
            else if \<not> isValidProviderAmount paid then
              refuse y ''PAYMENT_INVALID_AMOUNT'' pk (Plain ''invalid paid amount from provider'')
            else (case paid of
                    Fin amount \<Rightarrow>
                      if \<bar>pl_fl (pe_lib env) (amount - po_PayAmount y)\<bar>
                           > paymentAmountToleranceForCurrency (pe_lib env) (PaymentOrderCurrency y)
                      then refuse y ''PAYMENT_AMOUNT_MISMATCH'' pk (Plain ''amount mismatch'')
                      else toPaid env y tradeNo amount pk
                  | _ \<Rightarrow> Done (Inl (Plain ''invalid paid amount from provider'')))))"

definition HandlePaymentNotification :: "pay_env \<Rightarrow> payment_notification \<Rightarrow> string \<Rightarrow> unit pay_result" where
  "HandlePaymentNotification env n pk =
     (if pn_Status n \<noteq> ''success'' then Done (Inr ())
      else bind (ask (OrderByOutTradeNo (pn_OrderID n)) id) (\<lambda>r.
        let confirm = (\<lambda>oid. confirmPayment env oid (pn_TradeNo n) (pn_Amount n) pk (pn_Metadata n)) in
        case r of
          ROrder order \<Rightarrow> confirm (po_ID order)
        | RNone \<Rightarrow> (case parseLegacyPaymentOrderID (pn_OrderID n) of
                       Some oid \<Rightarrow> confirm oid
                     | None \<Rightarrow> Done (Inl ErrOrderNotFound))
        | _ \<Rightarrow> Done (Inl (Plain ''lookup order failed''))))"

end
