(* ===== verification/PayLifecycle.thy ===== *)
theory PayLifecycle
  imports PayFulfill
begin

text \<open>
  Cancelling, expiring and verifying orders (\<open>payment_order_lifecycle.go\<close>). Before an order is given up
  its provider is asked whether it was paid. The sweep over timed-out orders and the one over pending
  WeChat orders are loops over the rows read first.
\<close>

datatype check_paid = AlreadyPaid | NotPaid

definition queryProvider :: "string \<Rightarrow> string \<Rightarrow> query_response option pay_prog" where
  "queryProvider prov ref = ask (QueryProvider prov ref) (\<lambda>r. case r of RQuery q \<Rightarrow> Some q | _ \<Rightarrow> None)"

definition requeryPaidOrderOnce :: "string \<Rightarrow> string \<Rightarrow> query_response option pay_prog" where
  "requeryPaidOrderOnce prov queryRef =
     (if trim_space queryRef = [] then Done None
      else bind (queryProvider prov queryRef) (\<lambda>resp.
        case resp of
          None \<Rightarrow> Done None
        | Some q \<Rightarrow> if qr_Status q \<noteq> ''paid'' \<or> \<not> isValidProviderAmount (qr_Amount q) then Done None else Done (Some q)))"

text \<open>The order was paid upstream: record the trade number and handle it as a notification.\<close>

definition recordPaid :: "pay_env \<Rightarrow> pay_order \<Rightarrow> string \<Rightarrow> string \<Rightarrow> query_response \<Rightarrow> check_paid pay_prog" where
  "recordPaid env y prov queryRef resp =
     (let upstreamTradeNo = trim_space (qr_TradeNo resp);
          persist = paymentOrderShouldPersistUpstreamTradeNo queryRef upstreamTradeNo (po_PaymentTradeNo y);
          notificationTradeNo = (if persist then upstreamTradeNo else po_PaymentTradeNo y);
          notification = \<lparr>pn_TradeNo = notificationTradeNo, pn_OrderID = po_OutTradeNo y, pn_Amount = qr_Amount resp,
            pn_Status = ''success'', pn_Metadata = qr_Metadata resp\<rparr>
      in bind (if persist then bind (updateOrders (po_ID y) (\<lambda>z. True) (\<lambda>z. z\<lparr>po_PaymentTradeNo := upstreamTradeNo\<rparr>)) (\<lambda>c. Done ())
               else Done ()) (\<lambda>_.
         bind (HandlePaymentNotification env notification prov) (\<lambda>r. Done AlreadyPaid)))"

definition checkPaidWithOptions :: "pay_env \<Rightarrow> pay_order \<Rightarrow> bool \<Rightarrow> check_paid pay_prog" where
  "checkPaidWithOptions env y cancelIfUnpaid =
     bind (getOrderProvider env y) (\<lambda>r. case r of
       Inl e \<Rightarrow> Done NotPaid
     | Inr prov \<Rightarrow>
         (let queryRef = paymentOrderQueryReference y prov in
          if queryRef = [] then Done NotPaid
          else bind (queryProvider prov queryRef) (\<lambda>resp. case resp of
                 None \<Rightarrow> Done NotPaid
               | Some q \<Rightarrow>
                   if qr_Status q = ''paid'' then
                     (if isValidProviderAmount (qr_Amount q) then recordPaid env y prov queryRef q
                      else bind (writeAuditLog (po_ID y) ''PAYMENT_INVALID_AMOUNT'' prov) (\<lambda>_.
                           bind (requeryPaidOrderOnce prov queryRef) (\<lambda>retried. case retried of
                             None \<Rightarrow> Done NotPaid
                           | Some q2 \<Rightarrow> recordPaid env y prov queryRef q2)))
                   else if \<not> cancelIfUnpaid then Done NotPaid
                   else if pe_cancelable env prov then ask (CancelAtProvider prov queryRef) (\<lambda>r. NotPaid)
                   else Done NotPaid)))"

text \<open>\<open>cancelCore\<close>: \<open>Inr AlreadyPaid\<close> and \<open>Inr NotPaid\<close> stand for its two outcomes \<open>already_paid\<close> and \<open>cancelled\<close>.\<close>

definition cancelCore :: "pay_env \<Rightarrow> pay_order \<Rightarrow> order_status \<Rightarrow> string \<Rightarrow> check_paid pay_result" where
  "cancelCore env y fs operator =
     bind (if po_PaymentTradeNo y \<noteq> [] \<or> po_PaymentType y \<noteq> [] then checkPaidWithOptions env y True else Done NotPaid) (\<lambda>paid.
     if paid = AlreadyPaid then Done (Inr AlreadyPaid)
     else bind (updateOrders (po_ID y) (in_status [PENDING]) (\<lambda>z. z\<lparr>po_Status := fs\<rparr>)) (\<lambda>c.
       case c of
         None \<Rightarrow> Done (Inl (Plain ''update order status''))
       | Some n \<Rightarrow>
           bind (if n > 0 then writeAuditLog (po_ID y) (if fs = EXPIRED then ''ORDER_EXPIRED'' else ''ORDER_CANCELLED'') operator
                 else Done ()) (\<lambda>_. Done (Inr NotPaid))))"

definition CancelOrder :: "pay_env \<Rightarrow> int \<Rightarrow> int \<Rightarrow> check_paid pay_result" where
  "CancelOrder env orderID userID =
     bind (getOrder orderID) (\<lambda>found_order.
     case found_order of
       None \<Rightarrow> Done (Inl (Coded ''NOT_FOUND''))
     | Some y \<Rightarrow>
         if po_UserID y \<noteq> userID then Done (Inl (Coded ''FORBIDDEN''))
         else if po_Status y \<noteq> PENDING then Done (Inl (Coded ''INVALID_STATUS''))
         else cancelCore env y CANCELLED (''user:'' @ itoa userID))"

definition AdminCancelOrder :: "pay_env \<Rightarrow> int \<Rightarrow> check_paid pay_result" where
  "AdminCancelOrder env orderID =
     bind (getOrder orderID) (\<lambda>found_order.
     case found_order of
       None \<Rightarrow> Done (Inl (Coded ''NOT_FOUND''))
     | Some y \<Rightarrow>
         if po_Status y \<noteq> PENDING then Done (Inl (Coded ''INVALID_STATUS''))
         else cancelCore env y CANCELLED ''admin'')"

definition ordersWhere :: "(pay_order \<Rightarrow> bool) \<Rightarrow> pay_order list option pay_prog" where
  "ordersWhere P = ask (OrdersWhere P) (\<lambda>r. case r of ROrders ys \<Rightarrow> Some ys | _ \<Rightarrow> None)"

definition ExpireTimedOutOrders :: "pay_env \<Rightarrow> nat pay_result" where
  "ExpireTimedOutOrders env =
     bind timeNow (\<lambda>t.
     bind (ordersWhere (\<lambda>z. po_Status z = PENDING \<and> po_ExpiresAt z \<le> t)) (\<lambda>rows.
     case rows of
       None \<Rightarrow> Done (Inl (Plain ''query expired''))
     | Some ys \<Rightarrow>
         bind (for_each (\<lambda>y n. bind (cancelCore env y EXPIRED ''system'') (\<lambda>r.
                 Done (if r = Inr NotPaid then n + 1 else n))) ys 0) (\<lambda>n. Done (Inr n))))"

definition is_wxpay :: "pay_order \<Rightarrow> bool" where
  "is_wxpay y \<longleftrightarrow> po_PaymentType y = ''wxpay'' \<or> prefix ''wxpay_'' (po_PaymentType y) \<or>
     (case po_ProviderKey y of None \<Rightarrow> False | Some k \<Rightarrow> k = ''wxpay'' \<or> prefix ''wxpay_'' k)"

definition pendingWxpayReconcileLimit :: nat where
  "pendingWxpayReconcileLimit = 20"

definition ReconcilePendingWxpayOrders :: "pay_env \<Rightarrow> nat pay_result" where
  "ReconcilePendingWxpayOrders env =
     bind timeNow (\<lambda>t.
     bind (ordersWhere (\<lambda>z. po_Status z = PENDING \<and> po_ExpiresAt z > t \<and> is_wxpay z)) (\<lambda>rows.
     case rows of
       None \<Rightarrow> Done (Inl (Plain ''query pending wxpay orders''))
     | Some ys \<Rightarrow>
         bind (for_each (\<lambda>y n. bind (checkPaidWithOptions env y False) (\<lambda>r.
                 Done (if r = AlreadyPaid then n + 1 else n)))
                (take pendingWxpayReconcileLimit (sort_key po_CreatedAt ys)) 0) (\<lambda>n. Done (Inr n))))"

text \<open>The two sweeps of one tick of the expiry service, on the instance that leads.\<close>

definition expiryRunOnce :: "pay_env \<Rightarrow> unit pay_prog" where
  "expiryRunOnce env =
     bind (ReconcilePendingWxpayOrders env) (\<lambda>_. bind (ExpireTimedOutOrders env) (\<lambda>_. Done ()))"

definition out_trade_no_char :: "char \<Rightarrow> bool" where
  "out_trade_no_char c \<longleftrightarrow>
     (97 \<le> byte c \<and> byte c \<le> 122) \<or> (65 \<le> byte c \<and> byte c \<le> 90) \<or> (48 \<le> byte c \<and> byte c \<le> 57) \<or> c = CHR ''_'' \<or> c = CHR ''-''"

definition normalizeOrderLookupOutTradeNo :: "string \<Rightarrow> pay_error + string" where
  "normalizeOrderLookupOutTradeNo raw =
     (let outTradeNo = trim_space raw in
      if outTradeNo = [] then Inl (Coded ''INVALID_OUT_TRADE_NO'')
      else if length outTradeNo > 64 then Inl (Coded ''INVALID_OUT_TRADE_NO'')
      else if \<not> list_all out_trade_no_char outTradeNo then Inl (Coded ''INVALID_OUT_TRADE_NO'')
      else Inr outTradeNo)"

definition orderByOutTradeNo :: "string \<Rightarrow> pay_order option pay_prog" where
  "orderByOutTradeNo s = ask (OrderByOutTradeNo s) (\<lambda>r. case r of ROrder y \<Rightarrow> Some y | _ \<Rightarrow> None)"

definition VerifyOrderByOutTradeNo :: "pay_env \<Rightarrow> string \<Rightarrow> int \<Rightarrow> pay_order pay_result" where
  "VerifyOrderByOutTradeNo env outTradeNo0 userID =
     (case normalizeOrderLookupOutTradeNo outTradeNo0 of
        Inl e \<Rightarrow> Done (Inl e)
      | Inr outTradeNo \<Rightarrow>
          bind (orderByOutTradeNo outTradeNo) (\<lambda>found_order.
          case found_order of
            None \<Rightarrow> Done (Inl (Coded ''NOT_FOUND''))
          | Some y \<Rightarrow>
              if po_UserID y \<noteq> userID then Done (Inl (Coded ''FORBIDDEN''))
              else if po_Status y = PENDING \<or> po_Status y = EXPIRED then
                bind (checkPaidWithOptions env y False) (\<lambda>result.
                if result = AlreadyPaid then
                  bind (getOrder (po_ID y)) (\<lambda>reloaded.
                    case reloaded of None \<Rightarrow> Done (Inl (Plain ''reload order'')) | Some z \<Rightarrow> Done (Inr z))
                else Done (Inr y))
              else Done (Inr y)))"

definition VerifyOrderPublic :: "string \<Rightarrow> pay_order pay_result" where
  "VerifyOrderPublic outTradeNo0 =
     (case normalizeOrderLookupOutTradeNo outTradeNo0 of
        Inl e \<Rightarrow> Done (Inl e)
      | Inr outTradeNo \<Rightarrow>
          bind (orderByOutTradeNo outTradeNo) (\<lambda>found_order.
          case found_order of None \<Rightarrow> Done (Inl (Coded ''NOT_FOUND'')) | Some y \<Rightarrow> Done (Inr y)))"

end
