(* ===== verification/PayRefund.thy ===== *)
theory PayRefund
  imports PayLifecycle
begin

text \<open>
  Refunds (\<open>payment_refund.go\<close>): a user's request, the plan an administrator makes, and its execution,
  which takes the order to \<open>REFUNDING\<close>, takes back what was credited, asks the provider for the refund,
  and undoes the deduction when the provider refuses.
\<close>

datatype deduction_type = DeductionTypeNone | DeductionTypeBalance | DeductionTypeSubscription

record refund_plan =
  rp_OrderID :: int
  rp_Order :: pay_order
  rp_RefundAmount :: float64
  rp_GatewayAmount :: float64
  rp_Reason :: string
  rp_Force :: bool
  rp_DeductBalance :: bool
  rp_DeductionType :: deduction_type
  rp_BalanceToDeduct :: float64
  rp_SubDaysToDeduct :: int
  rp_SubscriptionID :: int

record refund_result =
  rr_Success :: bool
  rr_RequireForce :: bool
  rr_BalanceDeducted :: float64
  rr_SubDaysDeducted :: int

definition refused_result :: "bool \<Rightarrow> refund_result" where
  "refused_result requireForce =
     \<lparr>rr_Success = False, rr_RequireForce = requireForce, rr_BalanceDeducted = 0, rr_SubDaysDeducted = 0\<rparr>"

section \<open>A user's request\<close>

definition validateRefundRequest :: "int \<Rightarrow> int \<Rightarrow> pay_order pay_result" where
  "validateRefundRequest oid uid =
     bind (getOrder oid) (\<lambda>found_order.
     case found_order of
       None \<Rightarrow> Done (Inl (Coded ''NOT_FOUND''))
     | Some y \<Rightarrow>
         if po_UserID y \<noteq> uid then Done (Inl (Coded ''FORBIDDEN''))
         else if po_OrderType y \<noteq> ''balance'' then Done (Inl (Coded ''INVALID_ORDER_TYPE''))
         else if po_Status y \<noteq> COMPLETED then Done (Inl (Coded ''INVALID_STATUS''))
         else bind (getRefundOrderProviderInstance y) (\<lambda>r. case r of
                Inr (Some inst) \<Rightarrow> if pi_AllowUserRefund inst then Done (Inr y) else Done (Inl (Coded ''USER_REFUND_DISABLED''))
              | _ \<Rightarrow> Done (Inl (Coded ''USER_REFUND_DISABLED''))))"

definition RequestRefund :: "int \<Rightarrow> int \<Rightarrow> string \<Rightarrow> unit pay_result" where
  "RequestRefund oid uid reason =
     try_bind (validateRefundRequest oid uid) (\<lambda>y.
     bind (getUser (po_UserID y)) (\<lambda>found_user.
     case found_user of
       None \<Rightarrow> Done (Inl (Plain ''get user''))
     | Some u \<Rightarrow>
         if ur_Balance u < po_Amount y then Done (Inl (Coded ''BALANCE_NOT_ENOUGH''))
         else bind timeNow (\<lambda>t.
           bind (updateOrders oid (\<lambda>z. po_UserID z = uid \<and> po_Status z = COMPLETED \<and> po_OrderType z = ''balance'')
                   (\<lambda>z. z\<lparr>po_Status := REFUND_REQUESTED, po_RefundRequestedAt := Some t,
                          po_RefundRequestReason := Some (trim_space reason), po_RefundRequestedBy := Some (itoa uid),
                          po_RefundAmount := round_away 2 (po_Amount y)\<rparr>)) (\<lambda>c.
           case c of
             None \<Rightarrow> Done (Inl (Plain ''update''))
           | Some n \<Rightarrow>
               if n = 0 then Done (Inl (Coded ''CONFLICT''))
               else bind (writeAuditLog oid ''REFUND_REQUESTED'' (''user:'' @ itoa uid)) (\<lambda>_. Done (Inr ()))))))"

section \<open>The plan\<close>

text \<open>\<open>Inl\<close> is the result the administrator sees when the plan needs force.\<close>

definition prepDeduct :: "pay_order \<Rightarrow> refund_plan \<Rightarrow> bool \<Rightarrow> (refund_result + refund_plan) pay_prog" where
  "prepDeduct y p force =
     (if po_OrderType y = ''subscription'' then
        (let p1 = p\<lparr>rp_DeductionType := DeductionTypeSubscription\<rparr> in
         case (po_SubscriptionGroupID y, po_SubscriptionDays y) of
           (Some gid, Some days) \<Rightarrow>
             (let p2 = p1\<lparr>rp_SubDaysToDeduct := days\<rparr> in
              bind (getActiveSubscription (po_UserID y) gid) (\<lambda>sub. case sub of
                Some s \<Rightarrow> Done (Inr (p2\<lparr>rp_SubscriptionID := us_ID s\<rparr>))
              | None \<Rightarrow> if \<not> force then Done (Inl (refused_result True)) else Done (Inr p2)))
         | _ \<Rightarrow> Done (Inr p1))
      else bind (getUser (po_UserID y)) (\<lambda>found_user. case found_user of
        None \<Rightarrow> if \<not> force then Done (Inl (refused_result True)) else Done (Inr p)
      | Some u \<Rightarrow> Done (Inr (p\<lparr>rp_DeductionType := DeductionTypeBalance,
                              rp_BalanceToDeduct := min (rp_RefundAmount p) (ur_Balance u)\<rparr>))))"

definition refund_reason :: "pay_order \<Rightarrow> string \<Rightarrow> string" where
  "refund_reason y reason =
     (let r1 = trim_space reason;
          r2 = (if r1 = [] then (case po_RefundRequestReason y of Some r \<Rightarrow> r | None \<Rightarrow> []) else r1)
      in if r2 = [] then ''refund order:'' @ itoa (po_ID y) else r2)"

definition PrepareRefund ::
    "pay_env \<Rightarrow> int \<Rightarrow> gofloat \<Rightarrow> string \<Rightarrow> bool \<Rightarrow> bool \<Rightarrow> (refund_result + refund_plan) pay_result" where
  "PrepareRefund env oid amt0 reason force deduct =
     bind (getOrder oid) (\<lambda>found_order.
     case found_order of
       None \<Rightarrow> Done (Inl (Coded ''NOT_FOUND''))
     | Some y \<Rightarrow>
         if \<not> in_status [COMPLETED, REFUND_REQUESTED, REFUND_FAILED] y then Done (Inl (Coded ''INVALID_STATUS''))
         else bind (getRefundOrderProviderInstance y) (\<lambda>r. case r of
           Inl e \<Rightarrow> Done (Inl (Coded ''PROVIDER_LOOKUP_FAILED''))
         | Inr None \<Rightarrow> Done (Inl (Coded ''REFUND_DISABLED''))
         | Inr (Some inst) \<Rightarrow>
             if \<not> pi_RefundEnabled inst then Done (Inl (Coded ''REFUND_DISABLED''))
             else (case amt0 of
               Fin a \<Rightarrow>
                 (let amt = (if a \<le> 0 then po_Amount y else a);
                      orderCurrency = PaymentOrderCurrency y
                  in if pl_fl (pe_lib env) (amt - po_Amount y) > paymentAmountToleranceForCurrency (pe_lib env) orderCurrency
                     then Done (Inl (Coded ''REFUND_AMOUNT_EXCEEDED''))
                     else (let ga = calculateGatewayRefundAmount (pe_lib env) (po_Amount y) (po_PayAmount y) amt orderCurrency;
                               p = \<lparr>rp_OrderID = oid, rp_Order = y, rp_RefundAmount = amt, rp_GatewayAmount = ga,
                                    rp_Reason = refund_reason y reason, rp_Force = force, rp_DeductBalance = deduct,
                                    rp_DeductionType = DeductionTypeNone, rp_BalanceToDeduct = 0, rp_SubDaysToDeduct = 0,
                                    rp_SubscriptionID = 0\<rparr>
                           in if deduct then bind (prepDeduct y p force) (\<lambda>d. Done (Inr d)) else Done (Inr (Inr p))))
             | _ \<Rightarrow> Done (Inl (Coded ''INVALID_AMOUNT'')))))"

section \<open>The execution\<close>

definition restoreStatus :: "refund_plan \<Rightarrow> unit pay_prog" where
  "restoreStatus p =
     (let rs = (if po_Status (rp_Order p) = REFUND_REQUESTED then REFUND_REQUESTED else COMPLETED) in
      bind (updateOneOrder (rp_OrderID p) (\<lambda>z. z\<lparr>po_Status := rs\<rparr>)) (\<lambda>_. Done ()))"

definition validateRefundProviderResponse :: "string option \<Rightarrow> bool" where
  "validateRefundProviderResponse resp =
     (case resp of
        None \<Rightarrow> False
      | Some s \<Rightarrow> (let status = trim_space s in status = ''success'' \<or> status = ''refunded'' \<or> status = ''pending''))"

text \<open>\<open>None\<close> when the provider has taken the refund, otherwise the error.\<close>

definition gwRefund :: "pay_env \<Rightarrow> refund_plan \<Rightarrow> pay_error option pay_prog" where
  "gwRefund env p =
     (let y = rp_Order p in
      if po_PaymentTradeNo y = [] then
        bind (writeAuditLog (po_ID y) ''REFUND_NO_TRADE_NO'' ''admin'') (\<lambda>_. Done None)
      else bind (getRefundProvider y) (\<lambda>r. case r of
        Inl e \<Rightarrow> Done (Some (Plain ''get refund provider''))
      | Inr prov \<Rightarrow>
          bind (ask (MerchantIdentity prov) (\<lambda>r. case r of RMeta m \<Rightarrow> m | _ \<Rightarrow> [])) (\<lambda>metadata.
          if \<not> validateProviderSnapshotMetadata y prov metadata then
            bind (writeAuditLog (po_ID y) ''REFUND_PROVIDER_METADATA_MISMATCH'' ''admin'') (\<lambda>_. Done (Some (Plain ''metadata mismatch'')))
          else bind (ask (RefundAtProvider (po_ID y) prov (po_PaymentTradeNo y)
                            (FormatAmountForCurrency (pe_lib env) (rp_GatewayAmount p) (PaymentOrderCurrency y)) (rp_Reason p))
                       (\<lambda>r. case r of RRefund resp \<Rightarrow> Some resp | _ \<Rightarrow> None)) (\<lambda>reply. case reply of
                 None \<Rightarrow> Done (Some (Plain ''refund''))
               | Some resp \<Rightarrow> if validateRefundProviderResponse resp then Done None
                              else Done (Some (Plain ''payment refund failed''))))))"

definition markRefundOk :: "refund_plan \<Rightarrow> refund_result pay_result" where
  "markRefundOk p =
     (let fs = (if rp_RefundAmount p < po_Amount (rp_Order p) then PARTIALLY_REFUNDED else REFUNDED) in
      bind timeNow (\<lambda>t.
      bind (updateOneOrder (rp_OrderID p)
              (\<lambda>z. z\<lparr>po_Status := fs, po_RefundAmount := round_away 2 (rp_RefundAmount p), po_RefundReason := Some (rp_Reason p),
                     po_RefundAt := Some t, po_ForceRefund := rp_Force p\<rparr>)) (\<lambda>ok.
      if \<not> ok then Done (Inl (Plain ''mark refund''))
      else bind (writeAuditLog (rp_OrderID p) ''REFUND_SUCCESS'' ''admin'') (\<lambda>_.
        Done (Inr \<lparr>rr_Success = True, rr_RequireForce = False, rr_BalanceDeducted = rp_BalanceToDeduct p,
                   rr_SubDaysDeducted = rp_SubDaysToDeduct p\<rparr>)))))"

definition RollbackRefund :: "refund_plan \<Rightarrow> bool pay_prog" where
  "RollbackRefund p =
     bind (if rp_DeductionType p = DeductionTypeBalance \<and> rp_BalanceToDeduct p > 0
           then writes (UpdateUserBalance (po_UserID (rp_Order p)) (rp_BalanceToDeduct p)) else Done True) (\<lambda>ok.
     if \<not> ok then bind (writeAuditLog (rp_OrderID p) ''REFUND_ROLLBACK_FAILED'' ''admin'') (\<lambda>_. Done False)
     else if rp_DeductionType p = DeductionTypeSubscription \<and> rp_SubDaysToDeduct p > 0 \<and> rp_SubscriptionID p > 0 then
       bind (ExtendSubscription (rp_SubscriptionID p) (rp_SubDaysToDeduct p)) (\<lambda>r. case r of
         Inr s \<Rightarrow> Done True
       | Inl e \<Rightarrow> bind (writeAuditLog (rp_OrderID p) ''REFUND_ROLLBACK_FAILED'' ''admin'') (\<lambda>_. Done False))
     else Done True)"

definition handleGwFail :: "refund_plan \<Rightarrow> pay_error \<Rightarrow> refund_result pay_result" where
  "handleGwFail p gErr =
     bind (RollbackRefund p) (\<lambda>rolled_back.
     if rolled_back then
       bind (restoreStatus p) (\<lambda>_.
       bind (writeAuditLog (rp_OrderID p) ''REFUND_GATEWAY_FAILED'' ''admin'') (\<lambda>_.
       Done (Inr (refused_result False))))
     else bind timeNow (\<lambda>t.
       bind (updateOneOrder (rp_OrderID p)
               (\<lambda>z. z\<lparr>po_Status := REFUND_FAILED, po_FailedAt := Some t, po_FailedReason := Some gErr\<rparr>)) (\<lambda>_.
       bind (writeAuditLog (rp_OrderID p) ''REFUND_FAILED'' ''admin'') (\<lambda>_.
       Done (Inl (Coded ''REFUND_FAILED''))))))"

text \<open>The deductions; \<open>Inl\<close> aborts the refund, the order is then back in its former state.\<close>

definition deductBalance :: "refund_plan \<Rightarrow> refund_plan pay_result" where
  "deductBalance p =
     (if rp_DeductionType p = DeductionTypeBalance \<and> rp_BalanceToDeduct p > 0 then
        bind (hasAuditLog (rp_OrderID p) ''REFUND_ROLLBACK_FAILED'') (\<lambda>kept.
        if kept then Done (Inr (p\<lparr>rp_BalanceToDeduct := 0\<rparr>))
        else bind (writes (DeductUserBalance (po_UserID (rp_Order p)) (rp_BalanceToDeduct p))) (\<lambda>ok.
          if ok then Done (Inr p) else bind (restoreStatus p) (\<lambda>_. Done (Inl (Plain ''deduction'')))))
      else Done (Inr p))"

definition deductSubscription :: "refund_plan \<Rightarrow> refund_plan pay_result" where
  "deductSubscription p =
     (if rp_DeductionType p = DeductionTypeSubscription \<and> rp_SubDaysToDeduct p > 0 \<and> rp_SubscriptionID p > 0 then
        bind (hasAuditLog (rp_OrderID p) ''REFUND_ROLLBACK_FAILED'') (\<lambda>kept.
        if kept then Done (Inr (p\<lparr>rp_SubDaysToDeduct := 0\<rparr>))
        else bind (ExtendSubscription (rp_SubscriptionID p) (- rp_SubDaysToDeduct p)) (\<lambda>r. case r of
          Inr s \<Rightarrow> Done (Inr p)
        | Inl e \<Rightarrow>
            if e = Coded ''ADJUST_WOULD_EXPIRE'' then
              bind (RevokeSubscription (rp_SubscriptionID p)) (\<lambda>ok.
                if ok then Done (Inr p) else bind (restoreStatus p) (\<lambda>_. Done (Inl (Plain ''revoke subscription''))))
            else bind (restoreStatus p) (\<lambda>_. Done (Inl (Plain ''deduct subscription days'')))))
      else Done (Inr p))"

definition ExecuteRefund :: "pay_env \<Rightarrow> refund_plan \<Rightarrow> refund_result pay_result" where
  "ExecuteRefund env p0 =
     bind (updateOrders (rp_OrderID p0) (in_status [COMPLETED, REFUND_REQUESTED, REFUND_FAILED]) (\<lambda>z. z\<lparr>po_Status := REFUNDING\<rparr>)) (\<lambda>c.
     case c of
       None \<Rightarrow> Done (Inl (Plain ''lock''))
     | Some n \<Rightarrow>
         if n = 0 then Done (Inl (Coded ''CONFLICT''))
         else try_bind (deductBalance p0) (\<lambda>p1.
              try_bind (deductSubscription p1) (\<lambda>p.
              bind (gwRefund env p) (\<lambda>e. case e of
                Some gErr \<Rightarrow> handleGwFail p gErr
              | None \<Rightarrow> markRefundOk p))))"

text \<open>The admin handler: make the plan and carry it out.\<close>

definition refundOrder :: "pay_env \<Rightarrow> int \<Rightarrow> gofloat \<Rightarrow> string \<Rightarrow> bool \<Rightarrow> bool \<Rightarrow> refund_result pay_result" where
  "refundOrder env oid amt reason force deduct =
     try_bind (PrepareRefund env oid amt reason force deduct) (\<lambda>d. case d of
       Inl early \<Rightarrow> Done (Inr early)
     | Inr plan \<Rightarrow> ExecuteRefund env plan)"

end
