(* ===== verification/PayLedger.thy ===== *)
theory PayLedger
  imports PayRefund
begin

text \<open>
  What no request may break, whatever happens between its statements: the invariant of the payment
  ledger, the moves an order's state can make, and the facts a request may rely on. A request that
  has taken an order to \<open>REFUNDING\<close> holds the order's lock until it puts it into another state.
\<close>

section \<open>The states of an order\<close>

text \<open>The edges of the state machine.\<close>

fun edge :: "order_status \<Rightarrow> order_status \<Rightarrow> bool" where
  "edge PENDING s = (s \<in> {PAID, CANCELLED, EXPIRED})"
| "edge CANCELLED s = (s = PAID)"
| "edge EXPIRED s = (s = PAID)"
| "edge PAID s = (s = RECHARGING)"
| "edge FAILED s = (s \<in> {PAID, RECHARGING})"
| "edge RECHARGING s = (s \<in> {COMPLETED, FAILED})"
| "edge COMPLETED s = (s \<in> {REFUND_REQUESTED, REFUNDING})"
| "edge REFUND_REQUESTED s = (s = REFUNDING)"
| "edge REFUND_FAILED s = (s = REFUNDING)"
| "edge REFUNDING s = (s \<in> {COMPLETED, REFUND_REQUESTED, REFUND_FAILED, REFUNDED, PARTIALLY_REFUNDED})"
| "edge REFUNDED s = False"
| "edge PARTIALLY_REFUNDED s = False"

definition settled :: "order_status \<Rightarrow> bool" where
  "settled s \<longleftrightarrow> s = COMPLETED \<or> psIsRefundStatus s"

text \<open>What no update changes.\<close>

definition same_ident :: "pay_order \<Rightarrow> pay_order \<Rightarrow> bool" where
  "same_ident y z \<longleftrightarrow> po_ID z = po_ID y \<and> po_UserID z = po_UserID y \<and> po_Amount z = po_Amount y \<and>
     po_RechargeCode z = po_RechargeCode y \<and> po_OrderType z = po_OrderType y"

definition redeemed :: "pay_world \<Rightarrow> string \<Rightarrow> bool" where
  "redeemed w c \<longleftrightarrow> (case code_of w c of None \<Rightarrow> False | Some rd \<Rightarrow> rd_Status rd = StatusUsed)"

definition refunded :: "pay_world \<Rightarrow> int \<Rightarrow> bool" where
  "refunded w i \<longleftrightarrow> i \<in> fst ` set (pw_Refunds w)"

section \<open>The invariant\<close>

definition order_ok :: "pay_world \<Rightarrow> pay_order \<Rightarrow> bool" where
  "order_ok w y \<longleftrightarrow> 0 \<le> po_Amount y \<and> trim_space (po_RechargeCode y) = po_RechargeCode y \<and>
     (po_OrderType y \<noteq> ''subscription'' \<and> settled (po_Status y) \<longrightarrow> redeemed w (po_RechargeCode y)) \<and>
     (\<forall>rd. code_of w (po_RechargeCode y) = Some rd \<longrightarrow> rd_Type rd = ''balance'' \<and> rd_Value rd = po_Amount y)"

definition orders_ok :: "pay_world \<Rightarrow> bool" where
  "orders_ok w \<longleftrightarrow> distinct (map po_ID (pw_Orders w)) \<and> distinct (map po_RechargeCode (pw_Orders w)) \<and>
     (\<forall>y \<in> set (pw_Orders w). order_ok w y)"

definition credits_ok :: "pay_world \<Rightarrow> bool" where
  "credits_ok w \<longleftrightarrow> distinct (map fst (pw_Credits w)) \<and>
     (\<forall>(c, u, a) \<in> set (pw_Credits w). \<exists>rd. code_of w c = Some rd \<and> rd_Status rd = StatusUsed \<and> rd_UsedBy rd = Some u \<and>
        (0 \<le> rd_Value rd \<longrightarrow> a = rd_Value rd)) \<and>
     (\<forall>c rd. code_of w c = Some rd \<longrightarrow> rd_Status rd = StatusUsed \<longrightarrow> rd_Type rd = ''balance'' \<longrightarrow> c \<in> fst ` set (pw_Credits w))"

definition rebates_ok :: "pay_world \<Rightarrow> bool" where
  "rebates_ok w \<longleftrightarrow> distinct (map fst (pw_Rebates w)) \<and>
     (\<forall>(i, a) \<in> set (pw_Rebates w). audited w i ''AFFILIATE_REBATE_APPLIED'')"

definition refunds_ok :: "pay_world \<Rightarrow> bool" where
  "refunds_ok w \<longleftrightarrow> distinct (map fst (pw_Refunds w)) \<and>
     (\<forall>i. refunded w i \<longrightarrow> (\<exists>y. order_of w i = Some y \<and> po_Status y \<in> {REFUNDING, REFUNDED, PARTIALLY_REFUNDED}))"

definition ledger_ok :: "pay_world \<Rightarrow> bool" where
  "ledger_ok w \<longleftrightarrow> orders_ok w \<and> credits_ok w \<and> rebates_ok w \<and> refunds_ok w"

section \<open>Facts and the guarantee\<close>

datatype pay_fact = Seen pay_order | CodeSeen redeem_code | Redeemed string | Lock int bool

text \<open>The flag of a lock says that no refund of the order has been accepted yet.\<close>

definition pay_holds :: "pay_fact \<Rightarrow> pay_world \<Rightarrow> bool" where
  "pay_holds f w = (case f of
     Seen y \<Rightarrow> (\<exists>z. order_of w (po_ID y) = Some z \<and> same_ident y z)
   | CodeSeen rd \<Rightarrow> (\<exists>x. code_of w (rd_Code rd) = Some x \<and> rd_Type x = rd_Type rd \<and> rd_Value x = rd_Value rd)
   | Redeemed c \<Rightarrow> redeemed w c
   | Lock i fresh \<Rightarrow> (\<exists>y. order_of w i = Some y \<and> po_Status y = REFUNDING) \<and> (fresh \<longrightarrow> \<not> refunded w i))"

definition pay_keys :: "pay_fact \<Rightarrow> int set" where
  "pay_keys f = (case f of Lock i fresh \<Rightarrow> {i} | _ \<Rightarrow> {})"

definition pay_locked :: "pay_world \<Rightarrow> int \<Rightarrow> bool" where
  "pay_locked w i \<longleftrightarrow> (\<exists>y. order_of w i = Some y \<and> po_Status y = REFUNDING)"

definition order_kept :: "int set \<Rightarrow> pay_order \<Rightarrow> pay_order \<Rightarrow> bool" where
  "order_kept K y z \<longleftrightarrow> same_ident y z \<and> (po_Status z = po_Status y \<or> edge (po_Status y) (po_Status z)) \<and>
     (po_Status y = REFUNDING \<and> po_ID y \<notin> K \<longrightarrow> po_Status z = REFUNDING)"

definition pay_guar :: "pay_fact set \<Rightarrow> pay_world \<Rightarrow> pay_world \<Rightarrow> bool" where
  "pay_guar F w w' \<longleftrightarrow>
     (\<forall>i y. order_of w i = Some y \<longrightarrow> (\<exists>z. order_of w' i = Some z \<and> order_kept (\<Union> (pay_keys ` F)) y z)) \<and>
     (\<forall>c rd. code_of w c = Some rd \<longrightarrow> (\<exists>x. code_of w' c = Some x \<and> rd_Type x = rd_Type rd \<and> rd_Value x = rd_Value rd \<and>
        (rd_Status rd = StatusUsed \<longrightarrow> rd_Status x = StatusUsed))) \<and>
     (\<forall>i. refunded w' i \<longrightarrow> refunded w i \<or> Lock i True \<in> F)"

definition pay_contract :: "(pay_world, pay_fact, int) contract" where
  "pay_contract = \<lparr>ct_inv = ledger_ok, ct_holds = pay_holds, ct_guar = pay_guar, ct_keys = pay_keys, ct_locked = pay_locked\<rparr>"

text \<open>The clock always answers; a refund whose reply is lost is left to a theorem of its own.\<close>

definition pay_risk :: "pay_call \<Rightarrow> risk" where
  "pay_risk c = (case c of TimeNow \<Rightarrow> Reliable | RefundAtProvider i k t a s \<Rightarrow> MayFail | _ \<Rightarrow> MayLose)"

abbreviation psafe :: "'a pay_prog \<Rightarrow> pay_fact set \<Rightarrow> ('a \<Rightarrow> pay_fact set \<Rightarrow> bool) \<Rightarrow> bool" where
  "psafe p F Q \<equiv> safe pay_contract effect RErr pay_risk p F Q"

lemma pay_contract_simps [simp]:
  "ct_inv pay_contract = ledger_ok" "ct_holds pay_contract = pay_holds" "ct_guar pay_contract = pay_guar"
  "ct_keys pay_contract = pay_keys" "ct_locked pay_contract = pay_locked"
  by (simp_all add: pay_contract_def)

lemma keys_of_pay: "keys_of pay_contract F = \<Union> (pay_keys ` F)"
  by (simp add: keys_of_def)

lemma holds_all_pay: "holds_all pay_contract F w \<longleftrightarrow> (\<forall>f\<in>F. pay_holds f w)"
  by (simp add: holds_all_def)

lemma holds_simps [simp]:
  "pay_holds (Seen y) w \<longleftrightarrow> (\<exists>z. order_of w (po_ID y) = Some z \<and> same_ident y z)"
  "pay_holds (CodeSeen rd) w \<longleftrightarrow> (\<exists>x. code_of w (rd_Code rd) = Some x \<and> rd_Type x = rd_Type rd \<and> rd_Value x = rd_Value rd)"
  "pay_holds (Redeemed c) w \<longleftrightarrow> redeemed w c"
  "pay_holds (Lock i fresh) w \<longleftrightarrow> (\<exists>y. order_of w i = Some y \<and> po_Status y = REFUNDING) \<and> (fresh \<longrightarrow> \<not> refunded w i)"
  "pay_keys (Seen y) = {}" "pay_keys (CodeSeen rd) = {}" "pay_keys (Redeemed c) = {}" "pay_keys (Lock i fresh) = {i}"
  by (simp_all add: pay_holds_def pay_keys_def)

lemma same_ident_refl [simp]: "same_ident y y"
  by (simp add: same_ident_def)

lemma same_ident_trans: "same_ident x y \<Longrightarrow> same_ident y z \<Longrightarrow> same_ident x z"
  by (simp add: same_ident_def)

lemma order_kept_refl [simp]: "order_kept K y y"
  by (simp add: order_kept_def)

lemma guar_refl [simp]: "pay_guar F w w"
  by (auto simp: pay_guar_def)

text \<open>The lookups.\<close>

lemma order_of_SomeD: "order_of w i = Some y \<Longrightarrow> y \<in> set (pw_Orders w) \<and> po_ID y = i"
  by (auto simp: order_of_def find_Some_iff)

lemma order_of_member:
  assumes "distinct (map po_ID (pw_Orders w))" and "y \<in> set (pw_Orders w)"
  shows "order_of w (po_ID y) = Some y"
proof -
  have "order_of w (po_ID y) \<noteq> None" using assms(2) by (auto simp: order_of_def find_None_iff)
  then obtain z where z: "order_of w (po_ID y) = Some z" by blast
  then have "z \<in> set (pw_Orders w)" "po_ID z = po_ID y" using order_of_SomeD by blast+
  then have "z = y" using assms by (auto simp: distinct_map dest: inj_onD)
  then show ?thesis using z by simp
qed

lemma code_of_SomeD: "code_of w c = Some rd \<Longrightarrow> rd \<in> set (pw_Codes w) \<and> rd_Code rd = c"
  by (auto simp: code_of_def find_Some_iff)

lemma pay_stable:
  assumes "pay_holds f w" and "pay_guar F w w'" and "pay_keys f \<inter> \<Union> (pay_keys ` F) = {}"
  shows "pay_holds f w'"
proof (cases f)
  case (Seen y)
  then show ?thesis using assms(1,2) by (auto simp: pay_guar_def order_kept_def dest!: spec intro: same_ident_trans)
next
  case (CodeSeen rd)
  then show ?thesis using assms(1,2) by (fastforce simp: pay_guar_def)
next
  case (Redeemed c)
  then show ?thesis using assms(1,2) by (fastforce simp: pay_guar_def redeemed_def split: option.splits)
next
  case (Lock i fresh)
  then have i: "i \<notin> \<Union> (pay_keys ` F)" using assms(3) by simp
  then have "Lock i b \<notin> F" for b by auto
  moreover obtain y where y: "order_of w i = Some y" "po_Status y = REFUNDING" using assms(1) Lock by auto
  moreover from y obtain z where "order_of w' i = Some z" "order_kept (\<Union> (pay_keys ` F)) y z"
    using assms(2) unfolding pay_guar_def by blast
  moreover have "po_ID y = i" using y order_of_SomeD by blast
  ultimately show ?thesis using assms(1,2) Lock i by (auto simp: order_kept_def pay_guar_def)
qed

end
