(* ===== verification/PaySafe.thy ===== *)
theory PaySafe
  imports PayLedger
begin

text \<open>
  Every request of the payment service keeps the ledger: the rules of the calculus for its calls, and
  then one lemma per operation, in the order the operations are composed.
\<close>

section \<open>Calls that leave the ledger alone\<close>

definition same_ledger :: "pay_world \<Rightarrow> pay_world \<Rightarrow> bool" where
  "same_ledger w w' \<longleftrightarrow> pw_Orders w' = pw_Orders w \<and> pw_Codes w' = pw_Codes w \<and> pw_Credits w' = pw_Credits w \<and>
     pw_Rebates w' = pw_Rebates w \<and> pw_Refunds w' = pw_Refunds w \<and> (\<forall>i a. audited w i a \<longrightarrow> audited w' i a)"

lemma same_ledger_simps:
  assumes "same_ledger w w'"
  shows "order_of w' = order_of w" and "code_of w' = code_of w" and "redeemed w' = redeemed w" and "refunded w' = refunded w"
  using assms by (auto simp: same_ledger_def order_of_def code_of_def redeemed_def refunded_def fun_eq_iff)

lemma same_ledger_ok:
  assumes "same_ledger w w'" and "ledger_ok w"
  shows "ledger_ok w'"
  using assms(2) same_ledger_simps [OF assms(1)] assms(1)
  by (fastforce simp: ledger_ok_def orders_ok_def order_ok_def credits_ok_def rebates_ok_def refunds_ok_def same_ledger_def)

lemma same_ledger_guar: "same_ledger w w' \<Longrightarrow> pay_guar F w w'"
  by (auto simp: pay_guar_def same_ledger_simps)

lemma same_ledger_holds: "same_ledger w w' \<Longrightarrow> holds_all pay_contract F w' = holds_all pay_contract F w"
  by (auto simp: holds_all_pay pay_holds_def same_ledger_simps split: pay_fact.splits)

lemma same_ledger_refl [simp]: "same_ledger w w"
  by (simp add: same_ledger_def)

lemma same_ledger_fields [simp]:
  "same_ledger w (write_sub f i w)" "same_ledger w (write_user g u w)" "same_ledger w (insert_sub s w)"
  "same_ledger w (w\<lparr>pw_Subs := ss\<rparr>)"
  by (simp_all add: same_ledger_def write_sub_def write_user_def insert_sub_def audited_def)

lemma same_ledger_put_audit [simp]: "same_ledger w (put_audit i a p w)"
  by (auto simp: same_ledger_def put_audit_def audited_def)

lemma same_ledger_subs:
  "renew_tx s w = Some w' \<Longrightarrow> same_ledger w w'" "extend_tx i t b w = Some w' \<Longrightarrow> same_ledger w w'"
  "create_sub s w = Some w' \<Longrightarrow> same_ledger w w'"
  by (auto simp: renew_tx_def extend_tx_def create_sub_def split: if_splits)

definition frame_call :: "pay_call \<Rightarrow> bool" where
  "frame_call c = (case c of
     UpdateOrders i P f \<Rightarrow> False | UpdateOneOrder i f \<Rightarrow> False | CreateRedeemCode rd \<Rightarrow> False | RedeemTx cd u g \<Rightarrow> False
   | RebateTx i u a \<Rightarrow> False | RefundAtProvider i k t a s \<Rightarrow> False | _ \<Rightarrow> True)"

lemma frame_call_same:
  assumes "frame_call c" and "effect c x w = (w', r)"
  shows "same_ledger w w'"
  using assms
  by (cases c) (auto simp: frame_call_def written_def split: if_splits option.splits dest: same_ledger_subs)

lemma learns_same:
  assumes "same_ledger w w'" and "holds_all pay_contract F w"
  shows "learns pay_contract F w F w'"
  using assms by (simp add: learns_def same_ledger_holds)

lemma psafe_only:
  assumes "only frame_call p" and "\<And>a. Q a F"
  shows "psafe p F Q"
  using assms(1)
proof (induction p)
  case (Done a)
  then show ?case using assms(2) by simp
next
  case (Call c k)
  then have k: "psafe (k r) F Q" for r by simp
  have c: "frame_call c" using Call.prems by simp
  have "ledger_ok w' \<and> pay_guar F w w' \<and> learns pay_contract F w F w'"
    if "ledger_ok w" "holds_all pay_contract F w" "effect c x w = (w', r)" for w x w' r
    using frame_call_same [OF c that(3)] that(1,2) by (simp add: learns_same same_ledger_ok same_ledger_guar)
  with k show ?case by simp blast
qed

lemma only_ask [simp]: "only P (ask c f) \<longleftrightarrow> P c"
  by (simp add: ask_def)

lemmas frame_splits = option.split sum.split list.split if_split prod.split

lemma frame_calls [simp]:
  "only frame_call timeNow" "only frame_call (getOrder i)" "only frame_call (writeAuditLog i a p)"
  "only frame_call (hasAuditLog i a)" "only frame_call (getInstance i)" "only frame_call (instancesWhere P)"
  "only frame_call (makeProvider inst)" "only frame_call (registryProvider t)" "only frame_call (getSubFor u g)"
  "only frame_call (getSub i)" "only frame_call (getGroup g)" "only frame_call (getActiveSubscription u g)"
  "only frame_call (getByCode cd)" "only frame_call (getUser u)" "only frame_call (queryProvider k ref)"
  "only frame_call (ordersWhere P2)" "only frame_call (orderByOutTradeNo s)"
  by (simp_all add: timeNow_def getOrder_def writeAuditLog_def hasAuditLog_def getInstance_def instancesWhere_def
      makeProvider_def registryProvider_def getSubFor_def getSub_def getGroup_def getActiveSubscription_def getByCode_def
      getUser_def queryProvider_def ordersWhere_def orderByOutTradeNo_def frame_call_def)

lemma frame_instance [simp]:
  "only frame_call (resolveUniqueLegacyOrderProviderInstance y)"
  "only frame_call (resolveSnapshotOrderProviderInstance y s)"
  by (auto simp: resolveUniqueLegacyOrderProviderInstance_def resolveSnapshotOrderProviderInstance_def Let_def
      intro!: only_try_bind split: frame_splits)

lemma frame_provider [simp]:
  "only frame_call (getOrderProviderInstance y)" "only frame_call (getRefundOrderProviderInstance y)"
  "only frame_call (webhookRegistryFallbackAllowed k)"
  by (auto simp: getOrderProviderInstance_def getRefundOrderProviderInstance_def webhookRegistryFallbackAllowed_def Let_def
      intro!: only_try_bind only_bind split: frame_splits)

lemma frame_get_provider [simp]: "only frame_call (getOrderProvider env y)" "only frame_call (getRefundProvider y)"
  by (auto simp: getOrderProvider_def getRefundProvider_def Let_def intro!: only_try_bind only_bind split: frame_splits)

lemma frame_term [simp]: "only frame_call (updateExistingSubscriptionTerm s t e b)"
  by (simp add: updateExistingSubscriptionTerm_def writes_def frame_call_def)

lemma frame_subscription [simp]: "only frame_call (AssignOrExtendSubscription u g d)"
  by (auto simp: AssignOrExtendSubscription_def createSubscription_def Let_def frame_call_def
      intro!: only_bind only_try_bind split: frame_splits)

lemma frame_extend [simp]: "only frame_call (ExtendSubscription i d)" "only frame_call (RevokeSubscription i)"
  by (auto simp: ExtendSubscription_def RevokeSubscription_def Let_def writes_def frame_call_def
      intro!: only_bind split: frame_splits)

lemma frame_balance [simp]:
  "only frame_call (writes (DeductUserBalance u a))" "only frame_call (writes (UpdateUserBalance u a))"
  by (simp_all add: writes_def frame_call_def)

lemma frame_redis [simp]:
  "only frame_call (checkRedeemRateLimit env u)" "only frame_call (incrementRedeemErrorCount env u)"
  "only frame_call (acquireRedeemLock env cd)" "only frame_call (releaseRedeemLock env cd)"
  by (simp_all add: checkRedeemRateLimit_def incrementRedeemErrorCount_def acquireRedeemLock_def releaseRedeemLock_def frame_call_def)

section \<open>Updates of an order\<close>

definition ok_write :: "pay_world \<Rightarrow> pay_fact set \<Rightarrow> pay_order \<Rightarrow> pay_order \<Rightarrow> bool" where
  "ok_write w F y z \<longleftrightarrow> order_kept (\<Union> (pay_keys ` F)) y z \<and>
     (po_OrderType y \<noteq> ''subscription'' \<and> settled (po_Status z) \<longrightarrow> redeemed w (po_RechargeCode y)) \<and>
     (refunded w (po_ID y) \<longrightarrow> po_Status z \<in> {REFUNDING, REFUNDED, PARTIALLY_REFUNDED})"

lemma find_map_id: "(\<And>y. p (g y) = p y) \<Longrightarrow> find p (map g xs) = map_option g (find p xs)"
  by (induction xs) auto

lemma find_append: "find p (xs @ ys) = (case find p xs of None \<Rightarrow> find p ys | Some x \<Rightarrow> Some x)"
  by (induction xs) auto

lemma order_of_write:
  assumes "\<And>y. po_ID (f y) = po_ID y"
  shows "order_of (write_order f i w) j =
    (if j = i then map_option (\<lambda>y. (f y)\<lparr>po_UpdatedAt := pw_Now w\<rparr>) (order_of w j) else order_of w j)"
proof -
  let ?g = "\<lambda>x. if po_ID x = i then (f x)\<lparr>po_UpdatedAt := pw_Now w\<rparr> else x"
  have "order_of (write_order f i w) j = map_option ?g (order_of w j)"
    unfolding order_of_def write_order_def using find_map_id [of "\<lambda>x. po_ID x = j" ?g "pw_Orders w"] assms by auto
  then show ?thesis using order_of_SomeD [of w j] by (cases "order_of w j") auto
qed

lemma write_order_rest [simp]:
  "pw_Codes (write_order f i w) = pw_Codes w" "pw_Credits (write_order f i w) = pw_Credits w"
  "pw_Rebates (write_order f i w) = pw_Rebates w" "pw_Refunds (write_order f i w) = pw_Refunds w"
  "pw_Audits (write_order f i w) = pw_Audits w" "code_of (write_order f i w) = code_of w"
  "redeemed (write_order f i w) = redeemed w" "refunded (write_order f i w) = refunded w"
  "audited (write_order f i w) = audited w"
  by (auto simp: write_order_def code_of_def redeemed_def refunded_def audited_def fun_eq_iff)

lemma write_order_ok:
  assumes inv: "ledger_ok w" and y: "order_of w i = Some y" and ok: "ok_write w F y (f y)"
    and id: "\<And>y. same_ident y (f y)"
  shows "ledger_ok (write_order f i w) \<and> pay_guar F w (write_order f i w)"
proof -
  have id': "po_ID (f y) = po_ID y" for y using id [of y] by (simp add: same_ident_def)
  note of_write = order_of_write [of f i w, OF id']
  have d: "distinct (map po_ID (pw_Orders w))" using inv by (simp add: ledger_ok_def orders_ok_def)
  have ym: "y \<in> set (pw_Orders w)" "po_ID y = i" using order_of_SomeD [OF y] by auto
  have "map po_ID (pw_Orders (write_order f i w)) = map po_ID (pw_Orders w)"
    by (simp add: write_order_def id')
  moreover have "map po_RechargeCode (pw_Orders (write_order f i w)) = map po_RechargeCode (pw_Orders w)"
    using id by (simp add: write_order_def same_ident_def)
  moreover have "z \<in> set (pw_Orders w) \<or> z = (f y)\<lparr>po_UpdatedAt := pw_Now w\<rparr>"
    if "z \<in> set (pw_Orders (write_order f i w))" for z
    using that order_of_member [OF d] y by (auto simp: write_order_def split: if_splits)
  moreover have "order_ok (write_order f i w) z = order_ok w z" for z
    by (simp add: order_ok_def)
  moreover have "order_ok w z" if "z \<in> set (pw_Orders w)" for z
    using inv that by (simp add: ledger_ok_def orders_ok_def)
  moreover have "order_ok w ((f y)\<lparr>po_UpdatedAt := pw_Now w\<rparr>)"
    using calculation(5) [OF ym(1)] ok id [of y] unfolding order_ok_def ok_write_def same_ident_def by simp
  ultimately have "orders_ok (write_order f i w)"
    using d inv unfolding orders_ok_def ledger_ok_def by metis
  moreover have "refunds_ok (write_order f i w)"
    using inv ok y ym of_write unfolding ledger_ok_def refunds_ok_def ok_write_def by (auto split: if_splits)
  moreover have "pay_guar F w (write_order f i w)"
    using ok y ym of_write order_of_SomeD unfolding pay_guar_def ok_write_def
    by (auto simp: order_kept_def same_ident_def)
  ultimately show ?thesis using inv by (simp add: ledger_ok_def credits_ok_def rebates_ok_def)
qed

text \<open>An update by a request without locks keeps its facts.\<close>

lemma psafe_updateOrders:
  assumes id: "\<And>y. same_ident y (f y)" and keys: "keys_of pay_contract F = {}"
    and ok: "\<And>w y. ledger_ok w \<Longrightarrow> holds_all pay_contract F w \<Longrightarrow> order_of w i = Some y \<Longrightarrow> P y \<Longrightarrow> ok_write w F y (f y)"
    and Q: "\<And>n. Q n F"
  shows "psafe (updateOrders i P f) F Q"
proof -
  have "ledger_ok w' \<and> pay_guar F w w' \<and> learns pay_contract F w F w'"
    if w: "ledger_ok w" "holds_all pay_contract F w" and e: "effect (UpdateOrders i P f) x w = (w', r)" for w x w' r
  proof -
    have g: "ledger_ok w' \<and> pay_guar F w w'"
    proof (cases "\<exists>y. order_of w i = Some y \<and> P y")
      case True
      then obtain y where y: "order_of w i = Some y" "P y" by blast
      have "w' = write_order f i w" using e y by simp
      then show ?thesis using write_order_ok [where f = f, OF w(1) y(1) ok [OF w y] id] by simp
    next
      case False
      then have "w' = w" using e by (auto split: option.splits if_splits)
      then show ?thesis using w by simp
    qed
    then have "holds_all pay_contract F w'"
      using w(2) pay_stable keys unfolding holds_all_pay keys_of_pay by blast
    then show ?thesis using g by (simp add: learns_def)
  qed
  then show ?thesis using Q unfolding updateOrders_def ask_def by simp blast
qed

lemma refunds_okD: "ledger_ok w \<Longrightarrow> order_of w i = Some y \<Longrightarrow> refunded w i \<Longrightarrow> po_Status y \<in> {REFUNDING, REFUNDED, PARTIALLY_REFUNDED}"
  unfolding ledger_ok_def refunds_ok_def by fastforce

lemma orders_okD: "ledger_ok w \<Longrightarrow> order_of w i = Some y \<Longrightarrow> order_ok w y"
  using order_of_SomeD unfolding ledger_ok_def orders_ok_def by blast

text \<open>An update that moves an order along an edge and settles nothing.\<close>

lemma ok_write_edge:
  assumes "ledger_ok w" and "order_of w i = Some y" and "same_ident y z"
    and "po_Status z = po_Status y \<or> edge (po_Status y) (po_Status z)" and "po_Status y \<noteq> REFUNDING"
    and "settled (po_Status z) \<Longrightarrow> settled (po_Status y) \<or> redeemed w (po_RechargeCode y) \<or> po_OrderType y = ''subscription''"
  shows "ok_write w F y z"
proof -
  have i: "po_ID y = i" using assms(2) order_of_SomeD by blast
  have "edge (po_Status y) (po_Status z) \<Longrightarrow> po_Status y \<notin> {REFUNDED, PARTIALLY_REFUNDED}"
    by (cases "po_Status y") auto
  then show ?thesis
    using assms refunds_okD [OF assms(1,2)] orders_okD [OF assms(1,2)] i
    unfolding ok_write_def order_kept_def order_ok_def by auto
qed

section \<open>Redeem codes\<close>

lemma redeem_grant_cases:
  assumes "redeem_grant user rd = Some g"
  shows "rd_Type rd = ''balance'' \<and> (\<exists>a. g = AddToBalance a \<and> (0 \<le> rd_Value rd \<longrightarrow> a = rd_Value rd)) \<or>
    rd_Type rd \<noteq> ''balance'' \<and> (\<forall>a. g \<noteq> AddToBalance a)"
  using assms by (auto simp: redeem_grant_def Let_def split: if_splits option.splits)

lemma apply_grant_rest:
  assumes "apply_grant c u g w = Some w'" and "\<forall>a. g \<noteq> AddToBalance a"
  shows "same_ledger w w'"
  using assms
  by (cases g) (auto simp: assign_days_def reduce_days_def Let_def split: option.splits if_splits dest: same_ledger_subs)

lemma apply_grant_balance:
  assumes "apply_grant c u (AddToBalance a) w = Some w'"
  shows "pw_Orders w' = pw_Orders w" "pw_Codes w' = pw_Codes w" "pw_Credits w' = pw_Credits w @ [(c, u, a)]"
    "pw_Rebates w' = pw_Rebates w" "pw_Refunds w' = pw_Refunds w" "pw_Audits w' = pw_Audits w"
  using assms by (auto simp: write_user_def split: if_splits)

text \<open>The world after the first statement of the transaction.\<close>

definition used_up :: "string \<Rightarrow> int \<Rightarrow> pay_world \<Rightarrow> pay_world" where
  "used_up c u w = w\<lparr>pw_Codes := map (\<lambda>x. if rd_Code x = c
     then x\<lparr>rd_Status := StatusUsed, rd_UsedBy := Some u, rd_UsedAt := Some (pw_Now w)\<rparr> else x) (pw_Codes w)\<rparr>"

lemma code_of_used_up:
  "code_of (used_up c u w) d =
     (if d = c then map_option (\<lambda>x. x\<lparr>rd_Status := StatusUsed, rd_UsedBy := Some u, rd_UsedAt := Some (pw_Now w)\<rparr>) (code_of w d)
      else code_of w d)"
proof -
  let ?g = "\<lambda>x. if rd_Code x = c then x\<lparr>rd_Status := StatusUsed, rd_UsedBy := Some u, rd_UsedAt := Some (pw_Now w)\<rparr> else x"
  have "code_of (used_up c u w) d = map_option ?g (code_of w d)"
    unfolding code_of_def used_up_def using find_map_id [of "\<lambda>x. rd_Code x = d" ?g "pw_Codes w"] by auto
  then show ?thesis using code_of_SomeD [of w d] by (cases "code_of w d") auto
qed

lemma redeem_tx_eq:
  "redeem_tx c u g w =
     (case code_of w c of
        Some rd \<Rightarrow> if rd_Status rd \<noteq> StatusUnused then (w, RRefused)
                  else (case apply_grant c u g (used_up c u w) of Some w2 \<Rightarrow> (w2, RUnit) | None \<Rightarrow> (w, RErr))
      | None \<Rightarrow> (w, RRefused))"
  by (simp add: redeem_tx_def used_up_def Let_def split: option.split)

lemma code_of_cong: "pw_Codes w' = pw_Codes w \<Longrightarrow> code_of w' = code_of w"
  by (simp add: code_of_def fun_eq_iff)

text \<open>A code that is used up while its credit is recorded keeps the ledger.\<close>

lemma used_code_ok:
  assumes inv: "ledger_ok w" and rd: "code_of w c = Some rd" "rd_Status rd = StatusUnused"
    and same: "pw_Orders w' = pw_Orders w" "pw_Rebates w' = pw_Rebates w" "pw_Refunds w' = pw_Refunds w"
      "\<And>i a. audited w i a \<Longrightarrow> audited w' i a"
    and codes: "\<And>d. code_of w' d = (if d = c then Some (rd\<lparr>rd_Status := StatusUsed, rd_UsedBy := Some u, rd_UsedAt := t\<rparr>) else code_of w d)"
    and credits: "rd_Type rd = ''balance'' \<and> (\<exists>a. pw_Credits w' = pw_Credits w @ [(c, u, a)] \<and> (0 \<le> rd_Value rd \<longrightarrow> a = rd_Value rd)) \<or>
      rd_Type rd \<noteq> ''balance'' \<and> pw_Credits w' = pw_Credits w"
  shows "ledger_ok w' \<and> pay_guar F w w' \<and> redeemed w' c"
proof -
  have of': "order_of w' = order_of w" "refunded w' = refunded w"
    using same by (simp_all add: order_of_def refunded_def fun_eq_iff)
  have red: "redeemed w d \<Longrightarrow> redeemed w' d" for d using codes by (auto simp: redeemed_def split: option.splits)
  have "rd_Status rd \<noteq> StatusUsed" using rd(2) by (simp add: StatusUnused_def StatusUsed_def)
  then have new: "c \<notin> fst ` set (pw_Credits w)" using inv rd(1) by (force simp: ledger_ok_def credits_ok_def)
  have before: "\<exists>z. code_of w d = Some z \<and> rd_Type z = rd_Type x \<and> rd_Value z = rd_Value x" if "code_of w' d = Some x" for d x
    using that codes [of d] rd(1) by (auto split: if_splits)
  have "order_ok w' y" if "order_ok w y" for y
    using that red before unfolding order_ok_def by metis
  then have "orders_ok w'" using inv same(1) by (simp add: ledger_ok_def orders_ok_def)
  moreover have "credits_ok w'"
  proof -
    have old: "\<exists>x. code_of w' d = Some x \<and> rd_Status x = StatusUsed \<and> rd_UsedBy x = Some v \<and> (0 \<le> rd_Value x \<longrightarrow> a = rd_Value x)"
      if "(d, v, a) \<in> set (pw_Credits w)" for d v a
    proof -
      have "d \<noteq> c" using that new by force
      then show ?thesis using that inv codes by (fastforce simp: ledger_ok_def credits_ok_def)
    qed
    have in_credits: "d \<in> fst ` set (pw_Credits w')"
      if "code_of w' d = Some x" "rd_Status x = StatusUsed" "rd_Type x = ''balance''" for d x
      using that inv codes credits by (fastforce simp: ledger_ok_def credits_ok_def split: if_splits)
    have "distinct (map fst (pw_Credits w'))" using inv new credits by (auto simp: ledger_ok_def credits_ok_def)
    moreover have "\<forall>(d, v, a) \<in> set (pw_Credits w'). \<exists>x. code_of w' d = Some x \<and> rd_Status x = StatusUsed \<and> rd_UsedBy x = Some v \<and>
        (0 \<le> rd_Value x \<longrightarrow> a = rd_Value x)"
    proof clarify
      fix d v a assume e: "(d, v, a) \<in> set (pw_Credits w')"
      show "\<exists>x. code_of w' d = Some x \<and> rd_Status x = StatusUsed \<and> rd_UsedBy x = Some v \<and> (0 \<le> rd_Value x \<longrightarrow> a = rd_Value x)"
      proof (cases "(d, v, a) \<in> set (pw_Credits w)")
        case True
        then show ?thesis by (rule old)
      next
        case False
        then have "d = c" "v = u" "0 \<le> rd_Value rd \<longrightarrow> a = rd_Value rd" using e credits by auto
        then show ?thesis using codes [of c] by simp
      qed
    qed
    ultimately show ?thesis using in_credits unfolding credits_ok_def by blast
  qed
  moreover have "rebates_ok w'" using inv same by (fastforce simp: ledger_ok_def rebates_ok_def)
  moreover have "refunds_ok w'" using inv same of' by (simp add: ledger_ok_def refunds_ok_def)
  moreover have "pay_guar F w w'" using of' codes rd by (auto simp: pay_guar_def)
  ultimately show ?thesis using codes by (simp add: ledger_ok_def redeemed_def)
qed

lemma redeem_tx_ok:
  assumes inv: "ledger_ok w" and x: "code_of w c = Some x" "rd_Type x = rd_Type rd" "rd_Value x = rd_Value rd"
    and g: "redeem_grant user rd = Some g" and tx: "redeem_tx c u g w = (w', r)"
  shows "ledger_ok w' \<and> pay_guar F w w' \<and> (r = RUnit \<longrightarrow> redeemed w' c)"
proof (cases "rd_Status x = StatusUnused \<and> apply_grant c u g (used_up c u w) \<noteq> None")
  case False
  then have "w' = w \<and> r \<noteq> RUnit" using tx x by (auto simp: redeem_tx_eq split: option.splits if_splits)
  then show ?thesis using inv by simp
next
  case True
  then obtain w2 where w2: "apply_grant c u g (used_up c u w) = Some w2" by blast
  have [simp]: "w' = w2" "r = RUnit" using tx x True w2 by (auto simp: redeem_tx_eq)
  let ?u = "used_up c u w"
  have u: "pw_Orders ?u = pw_Orders w" "pw_Rebates ?u = pw_Rebates w" "pw_Refunds ?u = pw_Refunds w"
      "pw_Credits ?u = pw_Credits w" "pw_Audits ?u = pw_Audits w"
    by (simp_all add: used_up_def)
  have codes: "code_of ?u d = (if d = c then Some (x\<lparr>rd_Status := StatusUsed, rd_UsedBy := Some u, rd_UsedAt := Some (pw_Now w)\<rparr>)
      else code_of w d)" for d
    by (simp add: code_of_used_up x)
  consider (bal) a where "rd_Type x = ''balance''" "g = AddToBalance a" "0 \<le> rd_Value x \<longrightarrow> a = rd_Value x"
    | (rest) "rd_Type x \<noteq> ''balance''" "\<forall>a. g \<noteq> AddToBalance a"
    using redeem_grant_cases [OF g] x by auto
  then have "ledger_ok w2 \<and> pay_guar F w w2 \<and> redeemed w2 c"
  proof cases
    case bal
    note b = apply_grant_balance [OF w2 [unfolded bal(2)]]
    show ?thesis
      by (rule used_code_ok [OF inv x(1), where w' = w2 and u = u and t = "Some (pw_Now w)"])
        (use True u b codes code_of_cong [OF b(2)] bal in \<open>auto simp: audited_def\<close>)
  next
    case rest
    note s = apply_grant_rest [OF w2 rest(2)]
    show ?thesis
      by (rule used_code_ok [OF inv x(1), where w' = w2 and u = u and t = "Some (pw_Now w)"])
        (use True u s codes same_ledger_simps(2) [OF s] rest in \<open>auto simp: same_ledger_def audited_def\<close>)
  qed
  then show ?thesis by simp
qed

text \<open>A failed commit leaves at most the term of a subscription.\<close>

lemma redeem_call_cases:
  assumes "redeem_call c u g x w = (w', r)"
  shows "redeem_tx c u g w = (w', r) \<or> (same_ledger w w' \<and> r \<noteq> RUnit)"
proof -
  have "same_ledger w w2" if "assign_days u gid days w = Some w2" for gid days w2
    using apply_grant_rest [of c u "AssignDays gid days" w w2] that by simp
  then show ?thesis
    using assms by (auto simp: redeem_call_def split: pay_reply.splits bool.splits prod.splits grant.splits if_splits option.splits)
qed

end
