(* ===== verification/PayRequests.thy ===== *)
theory PayRequests
  imports PaySafe
begin

text \<open>
  The operations of the payment service one by one: each keeps the ledger, in the order in which
  they are composed. A request that has taken no order to \<open>REFUNDING\<close> only gathers facts (\<open>keeps\<close>).
\<close>

section \<open>Requests without a lock\<close>

definition keeps :: "'a pay_prog \<Rightarrow> pay_fact set \<Rightarrow> ('a \<Rightarrow> pay_fact set \<Rightarrow> bool) \<Rightarrow> bool" where
  "keeps p F P \<longleftrightarrow> (keys_of pay_contract F = {} \<longrightarrow>
     psafe p F (\<lambda>a G. F \<subseteq> G \<and> keys_of pay_contract G = {} \<and> P a G))"

abbreviation any :: "'a \<Rightarrow> pay_fact set \<Rightarrow> bool" where
  "any \<equiv> \<lambda>a G. True"

lemma keeps_Done: "P a F \<Longrightarrow> keeps (Done a) F P"
  by (simp add: keeps_def)

lemma keeps_mono: "keeps p F P \<Longrightarrow> (\<And>a G. F \<subseteq> G \<Longrightarrow> P a G \<Longrightarrow> R a G) \<Longrightarrow> keeps p F R"
  unfolding keeps_def by (auto elim: safe_mono)

lemma keeps_bind:
  assumes "keeps m F P" and "\<And>a G. F \<subseteq> G \<Longrightarrow> P a G \<Longrightarrow> keeps (f a) G R"
  shows "keeps (bind m f) F R"
  unfolding keeps_def
proof
  assume "keys_of pay_contract F = {}"
  then have "psafe m F (\<lambda>a G. F \<subseteq> G \<and> keys_of pay_contract G = {} \<and> P a G)" using assms(1) by (simp add: keeps_def)
  then have "psafe m F (\<lambda>a G. psafe (f a) G (\<lambda>b H. F \<subseteq> H \<and> keys_of pay_contract H = {} \<and> R b H))"
  proof (rule safe_mono)
    fix a G assume "F \<subseteq> G \<and> keys_of pay_contract G = {} \<and> P a G"
    then have "psafe (f a) G (\<lambda>b H. G \<subseteq> H \<and> keys_of pay_contract H = {} \<and> R b H)" "F \<subseteq> G"
      using assms(2) by (simp_all add: keeps_def)
    then show "psafe (f a) G (\<lambda>b H. F \<subseteq> H \<and> keys_of pay_contract H = {} \<and> R b H)"
      by (elim safe_mono) auto
  qed
  then show "psafe (bind m f) F (\<lambda>b H. F \<subseteq> H \<and> keys_of pay_contract H = {} \<and> R b H)" by (rule safe_bind)
qed

lemma keeps_try:
  assumes "keeps m F (\<lambda>r G. case r of Inl e \<Rightarrow> R (Inl e) G | Inr a \<Rightarrow> P a G)"
    and "\<And>a G. F \<subseteq> G \<Longrightarrow> P a G \<Longrightarrow> keeps (f a) G R"
  shows "keeps (try_bind m f) F R"
  unfolding try_bind_def
  by (rule keeps_bind [OF assms(1)]) (auto split: sum.splits intro: keeps_Done assms(2))

lemma keeps_frame: "only frame_call p \<Longrightarrow> (\<And>a. P a F) \<Longrightarrow> keeps p F P"
  by (simp add: keeps_def psafe_only)

lemma keeps_frame_any [simp]: "only frame_call p \<Longrightarrow> keeps p F any"
  by (rule keeps_frame) auto

text \<open>A read that teaches a fact.\<close>

lemma keeps_read:
  assumes "P (f RErr) F"
    and "\<And>w x w' r. ledger_ok w \<Longrightarrow> effect c x w = (w', r) \<Longrightarrow> w' = w \<and> (f r = f RErr \<or>
      (\<exists>G. holds_all pay_contract G w \<and> keys_of pay_contract G = {} \<and> P (f r) (F \<union> G)))"
  shows "keeps (ask c f) F P"
proof -
  have "ledger_ok w' \<and> pay_guar F w w' \<and> (\<exists>H. learns pay_contract F w H w' \<and> F \<subseteq> H \<and> keys_of pay_contract H = {} \<and> P (f r) H) \<and>
      learns pay_contract F w F w'"
    if k: "keys_of pay_contract F = {}" and w: "ledger_ok w" "holds_all pay_contract F w" "effect c x w = (w', r)" for w x w' r
  proof -
    have "\<exists>H. learns pay_contract F w H w' \<and> F \<subseteq> H \<and> keys_of pay_contract H = {} \<and> P (f r) H"
    proof (cases "f r = f RErr")
      case True
      then show ?thesis using assms(1) assms(2) [OF w(1,3)] w(2) k by (intro exI [of _ F]) (auto simp: learns_def)
    next
      case False
      then obtain G where "holds_all pay_contract G w" "keys_of pay_contract G = {}" "P (f r) (F \<union> G)"
        using assms(2) [OF w(1,3)] by blast
      then show ?thesis using assms(2) [OF w(1,3)] w(2) k
        by (intro exI [of _ "F \<union> G"]) (auto simp: learns_def holds_all_pay keys_of_pay)
    qed
    then show ?thesis using assms(2) [OF w(1,3)] w by (auto simp: learns_def)
  qed
  then show ?thesis using assms(1) unfolding keeps_def ask_def by simp blast
qed

text \<open>A call that leaves the ledger alone, and then the rest.\<close>

lemma keeps_after: "only frame_call m \<Longrightarrow> (\<And>a G. F \<subseteq> G \<Longrightarrow> keeps (f a) G R) \<Longrightarrow> keeps (bind m f) F R"
  by (rule keeps_bind [OF keeps_frame_any]) auto

lemma keeps_getOrder:
  assumes "P None F" and "\<And>y. po_ID y = i \<Longrightarrow> P (Some y) (F \<union> {Seen y})"
  shows "keeps (getOrder i) F P"
proof -
  let ?f = "\<lambda>r. case r of ROrder y \<Rightarrow> Some y | _ \<Rightarrow> None"
  have "w' = w \<and> (?f r = ?f RErr \<or> (\<exists>G. holds_all pay_contract G w \<and> keys_of pay_contract G = {} \<and> P (?f r) (F \<union> G)))"
    if "effect (GetOrder i) x w = (w', r)" for x w w' r
  proof (cases "order_of w i")
    case None
    then show ?thesis using that by (auto simp: found_def)
  next
    case (Some y)
    then have y: "w' = w" "r = ROrder y" "po_ID y = i" using that order_of_SomeD [of w i] by (auto simp: found_def)
    have "holds_all pay_contract {Seen y} w" "keys_of pay_contract {Seen y} = {}"
      using Some y(3) by (auto simp: holds_all_pay keys_of_pay)
    then show ?thesis using y assms(2) [OF y(3)] by auto
  qed
  then show ?thesis unfolding getOrder_def by (intro keeps_read) (use assms(1) in auto)
qed

lemma keeps_getOrder_bind:
  assumes "keeps (f None) F R" and "\<And>y. po_ID y = i \<Longrightarrow> keeps (f (Some y)) (F \<union> {Seen y}) R"
  shows "keeps (bind (getOrder i) f) F R"
  by (rule keeps_bind [where P = "\<lambda>a G. keeps (f a) G R"], rule keeps_getOrder) (use assms in auto)

lemma keeps_getByCode:
  assumes "\<And>e. P (Inl e) F"
    and "\<And>rd. rd_Code rd = c \<Longrightarrow> P (Inr rd) (F \<union> ({CodeSeen rd} \<union> (if rd_Status rd = StatusUsed then {Redeemed c} else {})))"
  shows "keeps (getByCode c) F P"
proof -
  let ?f = "\<lambda>r. case r of RCode rd \<Rightarrow> Inr rd | RNone \<Rightarrow> Inl True | _ \<Rightarrow> Inl False"
  have "w' = w \<and> (?f r = ?f RErr \<or> (\<exists>G. holds_all pay_contract G w \<and> keys_of pay_contract G = {} \<and> P (?f r) (F \<union> G)))"
    if "effect (CodeByCode c) x w = (w', r)" for x w w' r
  proof (cases "code_of w c")
    case None
    then show ?thesis using that assms(1) [of True] by (auto simp: found_def holds_all_pay keys_of_pay intro: exI [of _ "{}"])
  next
    case (Some rd)
    then have rd: "w' = w" "r = RCode rd" "rd_Code rd = c" using that code_of_SomeD [of w c] by (auto simp: found_def)
    let ?G = "{CodeSeen rd} \<union> (if rd_Status rd = StatusUsed then {Redeemed c} else {})"
    have "holds_all pay_contract ?G w" "keys_of pay_contract ?G = {}"
      using Some rd(3) by (auto simp: holds_all_pay keys_of_pay redeemed_def)
    then show ?thesis using rd assms(2) [OF rd(3)] by auto
  qed
  then show ?thesis unfolding getByCode_def by (intro keeps_read) (use assms(1) in auto)
qed

lemma keeps_getByCode_bind:
  assumes "\<And>e. keeps (f (Inl e)) F R"
    and "\<And>rd G. rd_Code rd = c \<Longrightarrow> F \<subseteq> G \<Longrightarrow> CodeSeen rd \<in> G \<Longrightarrow> (rd_Status rd = StatusUsed \<Longrightarrow> Redeemed c \<in> G) \<Longrightarrow>
      keeps (f (Inr rd)) G R"
  shows "keeps (bind (getByCode c) f) F R"
proof (rule keeps_bind [where P = "\<lambda>a G. keeps (f a) G R"], rule keeps_getByCode)
  fix rd :: redeem_code assume "rd_Code rd = c"
  then show "keeps (f (Inr rd)) (F \<union> ({CodeSeen rd} \<union> (if rd_Status rd = StatusUsed then {Redeemed c} else {}))) R"
    by (rule assms(2)) auto
qed (use assms(1) in auto)

lemma keeps_updateOrders:
  assumes "\<And>y. same_ident y (f y)"
    and "\<And>w y. ledger_ok w \<Longrightarrow> holds_all pay_contract F w \<Longrightarrow> order_of w i = Some y \<Longrightarrow> P y \<Longrightarrow> ok_write w F y (f y)"
    and "\<And>n. R n F"
  shows "keeps (updateOrders i P f) F R"
  unfolding keeps_def using assms by (intro impI psafe_updateOrders) auto

text \<open>An update along an edge that settles nothing.\<close>

lemma keeps_edge:
  assumes "\<And>y. same_ident y (f y)"
    and "\<And>y. P y \<Longrightarrow> po_Status y \<noteq> REFUNDING \<and> (po_Status (f y) = po_Status y \<or> edge (po_Status y) (po_Status (f y))) \<and>
      (settled (po_Status (f y)) \<longrightarrow> settled (po_Status y))"
  shows "keeps (updateOrders i P f) F any"
proof (rule keeps_updateOrders)
  fix w y
  assume "ledger_ok w" "order_of w i = Some y" "P y"
  then show "ok_write w F y (f y)" using assms(2) [of y] by (intro ok_write_edge [OF _ _ assms(1)]) auto
qed (use assms(1) in auto)

text \<open>A call that writes and keeps the facts.\<close>

lemma facts_stable:
  assumes "holds_all pay_contract F w" and "pay_guar F w w'" and "keys_of pay_contract F = {}"
  shows "holds_all pay_contract F w'"
  unfolding holds_all_pay
proof
  fix f assume f: "f \<in> F"
  then have "pay_keys f = {}" using assms(3) by (auto simp: keys_of_pay)
  then show "pay_holds f w'" using pay_stable [OF _ assms(2), of f] assms(1) f by (simp add: holds_all_pay)
qed

lemma keeps_write:
  assumes "P (f RErr) F"
    and "\<And>w x w' r. ledger_ok w \<Longrightarrow> holds_all pay_contract F w \<Longrightarrow> effect c x w = (w', r) \<Longrightarrow>
      ledger_ok w' \<and> pay_guar F w w' \<and>
      (\<exists>G. holds_all pay_contract G w' \<and> keys_of pay_contract G = {} \<and> P (f r) (F \<union> G))"
  shows "keeps (ask c f) F P"
proof -
  have "ledger_ok w' \<and> pay_guar F w w' \<and> (\<exists>H. learns pay_contract F w H w' \<and> F \<subseteq> H \<and> keys_of pay_contract H = {} \<and> P (f r) H) \<and>
      learns pay_contract F w F w'"
    if k: "keys_of pay_contract F = {}" and w: "ledger_ok w" "holds_all pay_contract F w" "effect c x w = (w', r)" for w x w' r
  proof -
    note e = assms(2) [OF w]
    have F: "holds_all pay_contract F w'"
      using facts_stable [OF w(2) _ k] e by blast
    obtain G where G: "holds_all pay_contract G w'" "keys_of pay_contract G = {}" "P (f r) (F \<union> G)" using e by blast
    have "learns pay_contract F w (F \<union> G) w'" "keys_of pay_contract (F \<union> G) = {}"
      using F G k by (auto simp: learns_def holds_all_pay keys_of_pay)
    then show ?thesis using e G F by (auto simp: learns_def)
  qed
  then show ?thesis using assms(1) unfolding keeps_def ask_def by simp blast
qed

section \<open>Redeeming\<close>

lemma keeps_redeemTx:
  assumes "CodeSeen rd \<in> F" and "rd_Code rd = c" and "redeem_grant user rd = Some g"
  shows "keeps (redeemTx c u g) F (\<lambda>r G. \<forall>x. r = Inr x \<longrightarrow> Redeemed c \<in> G)"
proof -
  let ?f = "\<lambda>r. case r of RUnit \<Rightarrow> Inr () | RRefused \<Rightarrow> Inl (Coded ''REDEEM_CODE_USED'') | _ \<Rightarrow> Inl (Plain ''redeem transaction'')"
  have "ledger_ok w' \<and> pay_guar F w w' \<and>
      (\<exists>G. holds_all pay_contract G w' \<and> keys_of pay_contract G = {} \<and> (\<forall>x. ?f r = Inr x \<longrightarrow> Redeemed c \<in> F \<union> G))"
    if w: "ledger_ok w" "holds_all pay_contract F w" "effect (RedeemTx c u g) x w = (w', r)" for w x w' r
  proof -
    obtain y where y: "code_of w c = Some y" "rd_Type y = rd_Type rd" "rd_Value y = rd_Value rd"
      using bspec [OF w(2) [unfolded holds_all_pay] assms(1)] assms(2) by auto
    have k: "ledger_ok w' \<and> pay_guar F w w' \<and> (r = RUnit \<longrightarrow> redeemed w' c)"
      using redeem_call_cases [of c u g x w w' r] redeem_tx_ok [OF w(1) y assms(3)] w(1,3) same_ledger_ok same_ledger_guar
      by (metis effect.simps(11))
    show ?thesis
    proof (cases "r = RUnit")
      case True
      then show ?thesis using k by (intro conjI exI [of _ "{Redeemed c}"]) (auto simp: holds_all_pay keys_of_pay)
    next
      case False
      then have "\<forall>x. ?f r \<noteq> Inr x" by (auto split: pay_reply.splits)
      then show ?thesis using k by (intro conjI exI [of _ "{}"]) (auto simp: holds_all_pay keys_of_pay)
    qed
  qed
  then show ?thesis unfolding redeemTx_def by (intro keeps_write) auto
qed

definition redeems :: "string \<Rightarrow> pay_error + 'a \<Rightarrow> pay_fact set \<Rightarrow> bool" where
  "redeems c r G \<longleftrightarrow> (\<forall>x. r = Inr x \<longrightarrow> Redeemed c \<in> G)"

lemma redeems_intros [intro, simp]: "redeems c (Inl e) G" "Redeemed c \<in> G \<Longrightarrow> redeems c r G"
  by (simp_all add: redeems_def)

lemma keeps_redeemTx_try:
  assumes "CodeSeen rd \<in> F" and "rd_Code rd = c" and "redeem_grant user rd = Some g"
    and "\<And>e G. R (Inl e) G" and "\<And>x G. F \<subseteq> G \<Longrightarrow> Redeemed c \<in> G \<Longrightarrow> keeps (f x) G R"
  shows "keeps (try_bind (redeemTx c u g) f) F R"
  by (rule keeps_try [where P = "\<lambda>x G. Redeemed c \<in> G"], rule keeps_mono [OF keeps_redeemTx [OF assms(1-3)]])
    (use assms(4,5) in \<open>auto split: sum.split\<close>)

lemma keeps_redeemLocked: "keeps (redeemLocked env u c) F (redeems c)"
  unfolding redeemLocked_def
  apply (rule keeps_getByCode_bind)
   apply (auto intro!: keeps_after keeps_Done)[1]
  apply (simp only: sum.case)
  apply (rule keeps_after, simp)
  apply (auto intro!: keeps_after keeps_Done split: option.split)
  apply (erule keeps_redeemTx_try [rotated 2]; auto intro!: keeps_after keeps_Done redeems_intros(2) split: sum.split)+
  done

lemma keeps_Redeem: "keeps (Redeem env u c) F (redeems c)"
  unfolding Redeem_def
proof (rule keeps_after, simp)
  fix allowed G
  have "keeps (bind (redeemLocked env u c) (\<lambda>r. bind (releaseRedeemLock env c) (\<lambda>_. Done r))) H (redeems c)" for H
    by (rule keeps_bind [OF keeps_redeemLocked]) (auto simp: redeems_def intro!: keeps_after keeps_Done)
  then show "keeps (if \<not> allowed then Done (Inl (Coded ''REDEEM_RATE_LIMITED''))
      else bind (acquireRedeemLock env c) (\<lambda>locked.
        if \<not> locked then Done (Inl (Coded ''REDEEM_CODE_LOCKED''))
        else bind (redeemLocked env u c) (\<lambda>r. bind (releaseRedeemLock env c) (\<lambda>_. Done r)))) G (redeems c)"
    by (auto intro!: keeps_after keeps_Done)
qed

text \<open>A new code for an order that has none.\<close>

lemma code_added_ok:
  assumes inv: "ledger_ok w" and new: "code_of w (rd_Code rd) = None" and st: "rd_Status rd = StatusUnused"
    and owner: "\<And>y. y \<in> set (pw_Orders w) \<Longrightarrow> po_RechargeCode y = rd_Code rd \<Longrightarrow> rd_Type rd = ''balance'' \<and> rd_Value rd = po_Amount y"
  shows "ledger_ok (w\<lparr>pw_Codes := pw_Codes w @ [rd]\<rparr>) \<and> pay_guar F w (w\<lparr>pw_Codes := pw_Codes w @ [rd]\<rparr>)"
proof -
  let ?w = "w\<lparr>pw_Codes := pw_Codes w @ [rd]\<rparr>"
  have codes: "code_of ?w d = (if d = rd_Code rd then Some rd else code_of w d)" for d
    using new by (auto simp: code_of_def find_append split: option.splits)
  have of': "order_of ?w = order_of w" "refunded ?w = refunded w" "audited ?w = audited w"
    by (simp_all add: order_of_def refunded_def audited_def fun_eq_iff)
  have st': "rd_Status rd \<noteq> StatusUsed" using st by (simp add: StatusUnused_def StatusUsed_def)
  have red: "redeemed ?w d = redeemed w d" for d using new codes st' by (auto simp: redeemed_def split: option.splits)
  have "order_ok ?w y" if "y \<in> set (pw_Orders w)" "order_ok w y" for y
    using that owner [of y] codes red unfolding order_ok_def by (auto split: if_splits)
  then have "orders_ok ?w" using inv by (simp add: ledger_ok_def orders_ok_def)
  moreover have "credits_ok ?w" using inv codes new st' by (fastforce simp: ledger_ok_def credits_ok_def split: if_splits)
  moreover have "rebates_ok ?w" "refunds_ok ?w" using inv of' by (simp_all add: ledger_ok_def rebates_ok_def refunds_ok_def)
  moreover have "pay_guar F w ?w" using codes new of' by (auto simp: pay_guar_def)
  ultimately show ?thesis by (simp add: ledger_ok_def)
qed

lemma holds_allD: "f \<in> F \<Longrightarrow> holds_all pay_contract F w \<Longrightarrow> pay_holds f w"
  by (simp add: holds_all_pay)

lemma keeps_create_code:
  assumes y: "Seen y \<in> F" and rd: "rd_Code rd = trim_space (po_RechargeCode y)" "rd_Type rd = ''balance''"
    "rd_Value rd = po_Amount y" "rd_Status rd = StatusUnused"
  shows "keeps (writes (CreateRedeemCode rd)) F any"
proof -
  have "ledger_ok w' \<and> pay_guar F w w'"
    if w: "ledger_ok w" "holds_all pay_contract F w" "effect (CreateRedeemCode rd) x w = (w', r)" for w x w' r
  proof -
    obtain z where z: "order_of w (po_ID y) = Some z" "same_ident y z" using holds_allD [OF y w(2)] by auto
    then have zm: "z \<in> set (pw_Orders w)" "order_ok w z" using orders_okD [OF w(1)] order_of_SomeD by blast+
    then have trim: "trim_space (po_RechargeCode y) = po_RechargeCode y" using z(2) by (simp add: order_ok_def same_ident_def)
    have "rd_Type rd = ''balance'' \<and> rd_Value rd = po_Amount v"
      if "v \<in> set (pw_Orders w)" "po_RechargeCode v = rd_Code rd" for v
    proof -
      have "po_RechargeCode v = po_RechargeCode z" using that(2) trim z(2) rd(1) by (simp add: same_ident_def)
      moreover have "inj_on po_RechargeCode (set (pw_Orders w))" using w(1) by (simp add: ledger_ok_def orders_ok_def distinct_map)
      ultimately have "v = z" using that(1) zm(1) by (auto dest: inj_onD)
      then show ?thesis using z(2) rd by (simp add: same_ident_def)
    qed
    then show ?thesis
      using w code_added_ok [OF w(1) _ rd(4)] by (auto split: if_splits)
  qed
  then show ?thesis unfolding writes_def
    by (intro keeps_write) (auto intro: exI [of _ "{}"] simp: holds_all_pay keys_of_pay)
qed

lemma keeps_any_bind: "keeps m F any \<Longrightarrow> (\<And>a G. F \<subseteq> G \<Longrightarrow> keeps (f a) G R) \<Longrightarrow> keeps (bind m f) F R"
  by (rule keeps_bind [of m F any]) auto

lemma keeps_any_try: "keeps m F any \<Longrightarrow> (\<And>a G. F \<subseteq> G \<Longrightarrow> keeps (f a) G any) \<Longrightarrow> keeps (try_bind m f) F any"
  unfolding try_bind_def by (rule keeps_any_bind) (auto split: sum.split intro: keeps_Done)

lemma keeps_CreateCode:
  assumes "Seen y \<in> F"
  shows "keeps (CreateCode (order_code y)) F any"
proof -
  have unused: "StatusUnused \<noteq> []" by (simp add: StatusUnused_def)
  show ?thesis
    using assms unfolding CreateCode_def Let_def
    by (auto simp: order_code_def unused intro!: keeps_Done)
      (rule keeps_after, simp, auto simp: order_code_def intro!: keeps_Done keeps_any_bind [OF keeps_create_code [of y]])
qed

section \<open>Completing an order\<close>

lemma keeps_rebateTx: "keeps (rebateTx i u a) F any"
proof -
  have "ledger_ok w' \<and> pay_guar F w w'" if w: "ledger_ok w" "effect (RebateTx i u a) x w = (w', r)" for w x w' r
  proof (cases "same_ledger w w'")
    case True
    then show ?thesis using w(1) same_ledger_ok same_ledger_guar by blast
  next
    case False
    then obtain b where b: "w' = (put_audit i ''AFFILIATE_REBATE_APPLIED'' ''system'' w)\<lparr>pw_Rebates := pw_Rebates w @ [(i, b)]\<rparr>"
        "\<not> audited w i ''AFFILIATE_REBATE_APPLIED''"
      using w(2) by (auto simp: rebate_tx_def split: if_splits pay_reply.splits)
    have same: "pw_Orders w' = pw_Orders w" "pw_Codes w' = pw_Codes w" "pw_Credits w' = pw_Credits w" "pw_Refunds w' = pw_Refunds w"
      using b(1) by (simp_all add: put_audit_def)
    then have of': "order_of w' = order_of w" "code_of w' = code_of w" "redeemed w' = redeemed w" "refunded w' = refunded w"
      by (auto simp: order_of_def code_of_def redeemed_def refunded_def fun_eq_iff)
    have "i \<notin> fst ` set (pw_Rebates w)" using w(1) b(2) by (fastforce simp: ledger_ok_def rebates_ok_def)
    moreover have "audited w j x \<Longrightarrow> audited w' j x" "audited w' i ''AFFILIATE_REBATE_APPLIED''" for j x
      using b(1) by (auto simp: audited_def put_audit_def)
    ultimately have "rebates_ok w'" using w(1) b(1) by (fastforce simp: ledger_ok_def rebates_ok_def put_audit_def)
    then show ?thesis
      using w(1) same of' by (simp add: ledger_ok_def orders_ok_def order_ok_def credits_ok_def refunds_ok_def pay_guar_def)
  qed
  then show ?thesis unfolding rebateTx_def
    by (intro keeps_write) (auto intro: exI [of _ "{}"] simp: holds_all_pay keys_of_pay)
qed

lemma keeps_rebate: "keeps (applyAffiliateRebateForOrder env y) F any"
  unfolding applyAffiliateRebateForOrder_def
  by (auto intro!: keeps_Done keeps_after keeps_any_bind [OF keeps_rebateTx] split: sum.split)

lemma in_status_simps [simp]: "in_status ss y \<longleftrightarrow> po_Status y \<in> set ss"
  by (simp add: in_status_def)

lemma settled_simps [simp]:
  "settled COMPLETED" "settled REFUND_REQUESTED" "settled REFUNDING" "settled PARTIALLY_REFUNDED" "settled REFUNDED" "settled REFUND_FAILED"
  "\<not> settled PENDING" "\<not> settled PAID" "\<not> settled RECHARGING" "\<not> settled EXPIRED" "\<not> settled CANCELLED" "\<not> settled FAILED"
  by (simp_all add: settled_def psIsRefundStatus_def)

text \<open>The order may be completed: it is a subscription, or its code is used. No update changes the type.\<close>

definition earned :: "pay_order \<Rightarrow> pay_fact set \<Rightarrow> bool" where
  "earned y F \<longleftrightarrow> Seen y \<in> F \<and>
     ((\<exists>v. Seen v \<in> F \<and> po_ID v = po_ID y \<and> po_OrderType v = ''subscription'') \<or> Redeemed (po_RechargeCode y) \<in> F)"

lemma earned_mono: "earned y F \<Longrightarrow> F \<subseteq> G \<Longrightarrow> earned y G"
  by (auto simp: earned_def)

lemma keeps_markCompleted:
  assumes "earned y F"
  shows "keeps (markCompleted y action) F any"
  unfolding markCompleted_def
proof (rule keeps_after, simp, rule keeps_any_bind, rule keeps_updateOrders)
  fix t G w z
  assume G: "F \<subseteq> G" and w: "ledger_ok w" "holds_all pay_contract G w" "order_of w (po_ID y) = Some z" "in_status [RECHARGING] z"
  obtain v where v: "order_of w (po_ID y) = Some v" "same_ident y v"
    using holds_allD [OF _ w(2), of "Seen y"] assms G by (auto simp: earned_def)
  have "redeemed w (po_RechargeCode y) \<or> po_OrderType z = ''subscription''"
  proof (cases "Redeemed (po_RechargeCode y) \<in> G")
    case True
    then show ?thesis using holds_allD [OF _ w(2)] by fastforce
  next
    case False
    then obtain u where u: "Seen u \<in> G" "po_ID u = po_ID y" "po_OrderType u = ''subscription''"
      using assms G by (auto simp: earned_def)
    then show ?thesis using holds_allD [OF u(1) w(2)] w(3) by (auto simp: same_ident_def)
  qed
  then show "ok_write w G z (z\<lparr>po_Status := COMPLETED, po_CompletedAt := Some t\<rparr>)"
    using w v by (intro ok_write_edge [OF w(1,3)]) (auto simp: same_ident_def)
qed (auto simp: same_ident_def intro!: keeps_after keeps_Done split: option.split)

lemma keeps_markFailed: "keeps (markFailed i e) F any"
  unfolding markFailed_def
  by (rule keeps_after, simp, rule keeps_any_bind, rule keeps_edge)
    (auto simp: same_ident_def intro!: keeps_Done split: option.split)

section \<open>Fulfillment\<close>

lemma keeps_finish:
  assumes "earned y F"
  shows "keeps (try_bind (applyAffiliateRebateForOrder env y) (\<lambda>_. markCompleted y action)) F any"
  by (rule keeps_any_try [OF keeps_rebate]) (rule keeps_markCompleted, use assms earned_mono in blast)

lemma keeps_any_mono: "keeps p F P \<Longrightarrow> keeps p F any"
  by (rule keeps_mono) auto

lemma keeps_doBalance:
  assumes "Seen y \<in> F"
  shows "keeps (doBalance env y) F any"
proof -
  have redeem: "keeps (try_bind (Redeem env (po_UserID y) (po_RechargeCode y)) (\<lambda>_.
      try_bind (applyAffiliateRebateForOrder env y) (\<lambda>_. markCompleted y ''RECHARGE_SUCCESS''))) G any" if "F \<subseteq> G" for G
  proof (rule keeps_try, rule keeps_mono [OF keeps_Redeem])
    fix r :: "pay_error + redeem_code" and H assume "redeems (po_RechargeCode y) r H"
    then show "case r of Inl e \<Rightarrow> any (Inl e) H | Inr a \<Rightarrow> Redeemed (po_RechargeCode y) \<in> H"
      by (auto simp: redeems_def split: sum.split)
  next
    fix a :: redeem_code and H assume "G \<subseteq> H" "Redeemed (po_RechargeCode y) \<in> H"
    then show "keeps (try_bind (applyAffiliateRebateForOrder env y) (\<lambda>_. markCompleted y ''RECHARGE_SUCCESS'')) H any"
      using assms that by (intro keeps_finish) (auto simp: earned_def)
  qed
  have create: "keeps (try_bind (CreateCode (order_code y)) (\<lambda>_. try_bind (Redeem env (po_UserID y) (po_RechargeCode y)) (\<lambda>_.
      try_bind (applyAffiliateRebateForOrder env y) (\<lambda>_. markCompleted y ''RECHARGE_SUCCESS'')))) G any" if "F \<subseteq> G" for G
    by (rule keeps_any_try [OF keeps_CreateCode]) (use assms that redeem in auto)
  show ?thesis
    unfolding doBalance_def Let_def
  proof (rule keeps_getByCode_bind)
    fix e
    show "keeps (case resolveRedeemAction (Inl e) of
        redeemActionCreate \<Rightarrow> try_bind (CreateCode (order_code y)) (\<lambda>_. try_bind (Redeem env (po_UserID y) (po_RechargeCode y)) (\<lambda>_.
            try_bind (applyAffiliateRebateForOrder env y) (\<lambda>_. markCompleted y ''RECHARGE_SUCCESS'')))
      | redeemActionRedeem \<Rightarrow> try_bind (Redeem env (po_UserID y) (po_RechargeCode y)) (\<lambda>_.
            try_bind (applyAffiliateRebateForOrder env y) (\<lambda>_. markCompleted y ''RECHARGE_SUCCESS''))
      | redeemActionSkipCompleted \<Rightarrow> try_bind (applyAffiliateRebateForOrder env y) (\<lambda>_. markCompleted y ''RECHARGE_SUCCESS'')) F any"
      using create [of F] by (simp add: resolveRedeemAction_def)
  next
    fix rd :: redeem_code and G
    assume "rd_Code rd = po_RechargeCode y" "F \<subseteq> G" "rd_Status rd = StatusUsed \<Longrightarrow> Redeemed (po_RechargeCode y) \<in> G"
    then show "keeps (case resolveRedeemAction (Inr rd) of
        redeemActionCreate \<Rightarrow> try_bind (CreateCode (order_code y)) (\<lambda>_. try_bind (Redeem env (po_UserID y) (po_RechargeCode y)) (\<lambda>_.
            try_bind (applyAffiliateRebateForOrder env y) (\<lambda>_. markCompleted y ''RECHARGE_SUCCESS'')))
      | redeemActionRedeem \<Rightarrow> try_bind (Redeem env (po_UserID y) (po_RechargeCode y)) (\<lambda>_.
            try_bind (applyAffiliateRebateForOrder env y) (\<lambda>_. markCompleted y ''RECHARGE_SUCCESS''))
      | redeemActionSkipCompleted \<Rightarrow> try_bind (applyAffiliateRebateForOrder env y) (\<lambda>_. markCompleted y ''RECHARGE_SUCCESS'')) G any"
      using redeem [of G] keeps_finish [of y G] assms by (auto simp: resolveRedeemAction_def earned_def)
  qed
qed

lemma keeps_recharging:
  assumes "\<And>G. F \<subseteq> G \<Longrightarrow> keeps work G any"
  shows "keeps (recharging i work) F any"
  unfolding recharging_def
proof (rule keeps_any_bind, rule keeps_edge)
  fix c G assume "F \<subseteq> G"
  then show "keeps (case c of None \<Rightarrow> Done (Inl (Plain ''lock''))
      | Some n \<Rightarrow> if n = 0 then Done (Inr ())
                 else bind work (\<lambda>r. case r of Inr u \<Rightarrow> Done (Inr ()) | Inl e \<Rightarrow> bind (markFailed i e) (\<lambda>_. Done (Inl e)))) G any"
    using assms [of G]
    by (auto intro!: keeps_Done keeps_any_bind keeps_markFailed split: option.split sum.split)
qed (auto simp: same_ident_def)

lemma keeps_ExecuteBalance: "keeps (ExecuteBalanceFulfillment env i) F any"
  unfolding ExecuteBalanceFulfillment_def
  by (rule keeps_getOrder_bind) (auto intro!: keeps_Done keeps_recharging keeps_doBalance split: option.split)

lemma keeps_doSub:
  assumes "Seen y \<in> F" and "Seen v \<in> F" and "po_ID v = po_ID y" and "po_OrderType v = ''subscription''"
  shows "keeps (doSub y gid days) F any"
proof -
  have c: "keeps (markCompleted y ''SUBSCRIPTION_SUCCESS'') G any" if "F \<subseteq> G" for G
    by (rule keeps_markCompleted) (use assms that in \<open>auto simp: earned_def\<close>)
  show ?thesis unfolding doSub_def by (auto intro!: keeps_after keeps_Done c split: option.split sum.split) blast+
qed

lemma keeps_ExecuteSubscription:
  assumes "Seen v \<in> F" and "po_ID v = i" and "po_OrderType v = ''subscription''"
  shows "keeps (ExecuteSubscriptionFulfillment i) F any"
  unfolding ExecuteSubscriptionFulfillment_def
  by (rule keeps_getOrder_bind)
    (use assms in \<open>auto intro!: keeps_Done keeps_recharging keeps_doSub [where v = v] split: option.split\<close>)

lemma keeps_executeFulfillment: "keeps (executeFulfillment env i) F any"
  unfolding executeFulfillment_def
  by (rule keeps_getOrder_bind)
    (auto intro!: keeps_Done keeps_ExecuteSubscription keeps_ExecuteBalance)

lemma keeps_RetryFulfillment: "keeps (RetryFulfillment env i) F any"
proof -
  have "keeps (updateOrders i (in_status [FAILED, PAID])
      (\<lambda>z. z\<lparr>po_Status := PAID, po_FailedAt := None, po_FailedReason := None\<rparr>)) G any" for G
    by (rule keeps_edge) (auto simp: same_ident_def)
  then show ?thesis
    unfolding RetryFulfillment_def
    by (auto intro!: keeps_any_bind keeps_Done keeps_executeFulfillment split: option.split)
qed

section \<open>Notifications\<close>

lemma keeps_alreadyProcessed: "keeps (alreadyProcessed env y) F any"
  unfolding alreadyProcessed_def
  by (auto intro!: keeps_any_bind keeps_Done keeps_executeFulfillment split: option.split)

lemma keeps_toPaid: "keeps (toPaid env y tradeNo paid pk) F any"
proof -
  have u: "keeps (updateOrders (po_ID y) (may_become_paid g)
      (\<lambda>z. z\<lparr>po_Status := PAID, po_PayAmount := round_away 2 paid, po_PaymentTradeNo := tradeNo,
             po_PaidAt := Some t, po_FailedAt := None, po_FailedReason := None\<rparr>)) G any" for g t G
    by (rule keeps_edge) (auto simp: same_ident_def may_become_paid_def)
  show ?thesis
    unfolding toPaid_def
    by (rule keeps_after, simp, rule keeps_any_bind [OF u])
      (auto intro!: keeps_any_bind keeps_Done keeps_alreadyProcessed keeps_executeFulfillment split: option.split)
qed

lemma keeps_confirmPayment: "keeps (confirmPayment env oid tradeNo paid pk metadata) F any"
  unfolding confirmPayment_def refuse_def Let_def
  by (auto intro!: keeps_any_bind keeps_Done keeps_toPaid split: option.split gofloat.split)

lemma keeps_HandlePaymentNotification: "keeps (HandlePaymentNotification env n pk) F any"
  unfolding HandlePaymentNotification_def Let_def
  by (auto simp: frame_call_def intro!: keeps_any_bind keeps_Done keeps_confirmPayment split: option.split pay_reply.split)

section \<open>Cancelling, expiring, verifying\<close>

lemma keeps_recordPaid: "keeps (recordPaid env y prov ref q) F any"
proof -
  have u: "keeps (updateOrders i (\<lambda>z. True) (\<lambda>z. z\<lparr>po_PaymentTradeNo := t\<rparr>)) G any" for i t G
  proof (rule keeps_updateOrders)
    fix w z assume w: "ledger_ok w" "order_of w i = Some z"
    show "ok_write w G z (z\<lparr>po_PaymentTradeNo := t\<rparr>)"
      using orders_okD [OF w] refunds_okD [OF w] order_of_SomeD [OF w(2)]
      by (auto simp: ok_write_def order_kept_def order_ok_def same_ident_def)
  qed (simp_all add: same_ident_def)
  show ?thesis
    unfolding recordPaid_def Let_def
    by (auto intro!: keeps_any_bind u keeps_HandlePaymentNotification
        keeps_Done keeps_Done)
qed

lemma frame_requery [simp]: "only frame_call (requeryPaidOrderOnce prov ref)"
  unfolding requeryPaidOrderOnce_def by (auto intro!: only_bind split: option.split)

lemma keeps_checkPaid: "keeps (checkPaidWithOptions env y c) F any"
  unfolding checkPaidWithOptions_def Let_def
  by (auto simp: frame_call_def intro!: keeps_any_bind keeps_Done keeps_recordPaid split: option.split sum.split)

lemma keeps_cancelCore:
  assumes "fs = CANCELLED \<or> fs = EXPIRED"
  shows "keeps (cancelCore env y fs operator) F any"
proof -
  have p: "keeps (if b then checkPaidWithOptions env y True else Done NotPaid) G any" for b G
    using keeps_checkPaid keeps_Done by auto
  have u: "keeps (updateOrders i (in_status [PENDING]) (\<lambda>z. z\<lparr>po_Status := st\<rparr>)) G any"
    if "st = CANCELLED \<or> st = EXPIRED" for i st G
    by (rule keeps_edge) (use that in \<open>auto simp: same_ident_def\<close>)
  show ?thesis
    unfolding cancelCore_def
    by (rule keeps_any_bind [OF p])
      (use assms in \<open>auto intro!: u keeps_any_bind keeps_Done split: option.split\<close>)
qed

lemma keeps_CancelOrder: "keeps (CancelOrder env i u) F any" and keeps_AdminCancelOrder: "keeps (AdminCancelOrder env i) F any"
  unfolding CancelOrder_def AdminCancelOrder_def
  by (auto intro!: keeps_any_bind keeps_Done keeps_cancelCore split: option.split)

lemma keeps_for_each: "(\<And>x b G. keeps (f x b) G any) \<Longrightarrow> keeps (for_each f xs b) F any"
  by (induction xs arbitrary: b F) (auto intro: keeps_Done keeps_any_bind)

lemma keeps_ExpireTimedOutOrders: "keeps (ExpireTimedOutOrders env) F any"
  unfolding ExpireTimedOutOrders_def
  by (auto intro!: keeps_any_bind keeps_Done keeps_for_each keeps_cancelCore split: option.split sum.split)

lemma keeps_ReconcilePendingWxpayOrders: "keeps (ReconcilePendingWxpayOrders env) F any"
  unfolding ReconcilePendingWxpayOrders_def
  by (auto intro!: keeps_any_bind keeps_Done keeps_for_each keeps_checkPaid split: option.split sum.split)

lemma keeps_expiryRunOnce: "keeps (expiryRunOnce env) F any"
  unfolding expiryRunOnce_def
  by (auto intro!: keeps_any_bind keeps_ReconcilePendingWxpayOrders keeps_ExpireTimedOutOrders keeps_Done)

lemma keeps_VerifyOrder: "keeps (VerifyOrderByOutTradeNo env s u) F any"
  unfolding VerifyOrderByOutTradeNo_def
  by (auto intro!: keeps_any_bind keeps_Done keeps_checkPaid split: option.split sum.split)

end
