(* ===== verification/PaySafety.thy ===== *)
theory PaySafety
  imports PayRequests
begin

text \<open>
  Refunds hold the lock of their order; with them every request of the payment service is safe. The
  interpretation of \<open>rely_guarantee\<close> on the service then gives the theorems: however requests interleave,
  fail, lose replies and die, a recharge is credited once, a rebate accrues once, a provider's accepted
  refund is the only one, and an order moves along the edges of its state machine.
\<close>

section \<open>Refunds\<close>

lemma psafe_bind: "psafe m F (\<lambda>a G. psafe (f a) G Q) \<Longrightarrow> psafe (bind m f) F Q"
  by (rule safe_bind)

lemma psafe_after: "only frame_call m \<Longrightarrow> (\<And>a. psafe (f a) F Q) \<Longrightarrow> psafe (bind m f) F Q"
  by (rule safe_bind) (rule psafe_only)

lemma keeps_RequestRefund: "keeps (RequestRefund oid uid reason) F any"
proof -
  have v: "only frame_call (validateRefundRequest oid uid)"
    unfolding validateRefundRequest_def by (auto intro!: only_bind split: option.split sum.split)
  have u: "keeps (updateOrders oid (\<lambda>z. po_UserID z = uid \<and> po_Status z = COMPLETED \<and> po_OrderType z = ''balance'')
      (\<lambda>z. z\<lparr>po_Status := REFUND_REQUESTED, po_RefundRequestedAt := a, po_RefundRequestReason := b, po_RefundRequestedBy := c,
             po_RefundAmount := d\<rparr>)) G any" for a b c d G
    by (rule keeps_edge) (auto simp: same_ident_def)
  show ?thesis
    unfolding RequestRefund_def
    by (rule keeps_any_try [OF keeps_frame_any [OF v]])
      (auto intro!: keeps_any_bind keeps_Done u split: option.split)
qed

lemma psafe_ask:
  assumes "Q (f RErr) F"
    and "\<And>w x w' r. ledger_ok w \<Longrightarrow> holds_all pay_contract F w \<Longrightarrow> effect c x w = (w', r) \<Longrightarrow>
      ledger_ok w' \<and> pay_guar F w w' \<and> (\<exists>G. learns pay_contract F w G w' \<and> Q (f r) G) \<and>
      (pay_risk c = MayLose \<longrightarrow> (\<exists>G. learns pay_contract F w G w' \<and> Q (f RErr) G))"
  shows "psafe (ask c f) F Q"
  using assms unfolding ask_def by simp

text \<open>Taking the lock.\<close>

lemma psafe_lock:
  "psafe (updateOrders i (in_status [COMPLETED, REFUND_REQUESTED, REFUND_FAILED]) (\<lambda>z. z\<lparr>po_Status := REFUNDING\<rparr>)) {}
     (\<lambda>c F. ((c = None \<or> c = Some 0) \<and> F = {}) \<or> (c = Some 1 \<and> F = {Lock i True}))"
proof -
  let ?P = "in_status [COMPLETED, REFUND_REQUESTED, REFUND_FAILED]" and ?f = "\<lambda>z. z\<lparr>po_Status := REFUNDING\<rparr>"
  have "ledger_ok w' \<and> pay_guar {} w w' \<and> learns pay_contract {} w {} w' \<and>
      (r = RCount 0 \<or> (r = RCount 1 \<and> learns pay_contract {} w {Lock i True} w'))"
    if w: "ledger_ok w" "effect (UpdateOrders i ?P ?f) x w = (w', r)" for w x w' r
  proof (cases "\<exists>y. order_of w i = Some y \<and> ?P y")
    case True
    then obtain y where y: "order_of w i = Some y" "?P y" by blast
    have "settled (po_Status y)" "po_Status y \<noteq> REFUNDING" "edge (po_Status y) REFUNDING" using y(2) by auto
    then have ok: "ok_write w {} y (?f y)" using ok_write_edge [OF w(1) y(1), of "?f y"] by (auto simp: same_ident_def)
    have "w' = write_order ?f i w" "r = RCount 1" using w(2) y by auto
    moreover have "ledger_ok (write_order ?f i w) \<and> pay_guar {} w (write_order ?f i w)"
      by (rule write_order_ok [where f = ?f, OF w(1) y(1) ok]) (simp add: same_ident_def)
    moreover have "\<not> refunded w i" using refunds_okD [OF w(1) y(1)] y(2) by auto
    ultimately show ?thesis
      using y \<open>po_Status y \<noteq> REFUNDING\<close> by (auto simp: learns_def holds_all_pay keys_of_pay order_of_write pay_locked_def)
  next
    case False
    then have "w' = w" "r = RCount 0" using w(2) by (auto split: option.splits if_splits)
    then show ?thesis using w(1) by (simp add: learns_def holds_all_pay keys_of_pay)
  qed
  then show ?thesis unfolding updateOrders_def by (intro psafe_ask) fastforce+
qed

definition unlocks :: "bool \<Rightarrow> order_status \<Rightarrow> bool" where
  "unlocks fresh s \<longleftrightarrow> s \<in> {REFUNDED, PARTIALLY_REFUNDED} \<or> (fresh \<and> s \<in> {COMPLETED, REFUND_REQUESTED, REFUND_FAILED})"

text \<open>Putting the order into another state gives the lock back.\<close>

lemma psafe_unlock:
  assumes id: "\<And>y. same_ident y (f y)" and st: "\<And>y. po_Status (f y) = s" "unlocks fresh s"
    and Q: "\<And>a. Q a {}" "\<And>a. Q a {Lock i fresh}"
  shows "psafe (updateOneOrder i f) {Lock i fresh} Q"
proof -
  have "ledger_ok w' \<and> pay_guar {Lock i fresh} w w' \<and> learns pay_contract {Lock i fresh} w {} w'"
    if w: "ledger_ok w" "holds_all pay_contract {Lock i fresh} w" "effect (UpdateOneOrder i f) x w = (w', r)" for w x w' r
  proof -
    obtain y where y: "order_of w i = Some y" "po_Status y = REFUNDING" "fresh \<longrightarrow> \<not> refunded w i"
      using w(2) by (auto simp: holds_all_pay)
    have yi: "po_ID y = i" using y(1) order_of_SomeD by blast
    have "ok_write w {Lock i fresh} y (f y)"
      using id [of y] st y yi orders_okD [OF w(1) y(1)]
      by (auto simp: ok_write_def order_kept_def order_ok_def unlocks_def)
    from write_order_ok [where f = f, OF w(1) y(1) this id] show ?thesis
      using w(3) y(1) by (simp add: learns_def holds_all_pay keys_of_pay)
  qed
  note one = this
  show ?thesis
    unfolding updateOneOrder_def
  proof (rule psafe_ask)
    fix w x w' r
    assume "ledger_ok w" "holds_all pay_contract {Lock i fresh} w" "effect (UpdateOneOrder i f) x w = (w', r)"
    from one [OF this] show "ledger_ok w' \<and> pay_guar {Lock i fresh} w w' \<and>
        (\<exists>G. learns pay_contract {Lock i fresh} w G w' \<and> Q (succeeds r) G) \<and>
        (pay_risk (UpdateOneOrder i f) = MayLose \<longrightarrow> (\<exists>G. learns pay_contract {Lock i fresh} w G w' \<and> Q (succeeds RErr) G))"
      using Q(1) by blast
  qed (rule Q(2))
qed

lemma psafe_restoreStatus:
  assumes "\<And>F. F = {} \<or> F = {Lock (rp_OrderID p) True} \<Longrightarrow> Q () F"
  shows "psafe (restoreStatus p) {Lock (rp_OrderID p) True} Q"
  unfolding restoreStatus_def Let_def
  by (rule psafe_bind,
      rule psafe_unlock [where s = "if po_Status (rp_Order p) = REFUND_REQUESTED then REFUND_REQUESTED else COMPLETED"])
    (use assms in \<open>simp_all add: same_ident_def unlocks_def\<close>)

text \<open>The provider's answer.\<close>

lemma psafe_refund_call:
  assumes "Q (g RErr) {Lock i True}"
    and "\<And>status. accepted_refund status \<Longrightarrow> Q (g (RRefund status)) {Lock i False}"
    and "\<And>x. (\<And>status. x = RRefund status \<Longrightarrow> \<not> accepted_refund status) \<Longrightarrow> Q (g x) {Lock i True}"
  shows "psafe (ask (RefundAtProvider i k t a s) g) {Lock i True} Q"
proof -
  have "ledger_ok w' \<and> pay_guar {Lock i True} w w' \<and> (\<exists>F'. learns pay_contract {Lock i True} w F' w' \<and> Q (g r) F')"
    if w: "ledger_ok w" "holds_all pay_contract {Lock i True} w" "effect (RefundAtProvider i k t a s) x w = (w', r)" for w x w' r
  proof (cases "\<exists>status. x = RRefund status \<and> accepted_refund status")
    case False
    then have "w' = w" "r = x" using w(3) by (auto split: pay_reply.splits)
    moreover have "Q (g x) {Lock i True}" using False assms(3) by blast
    ultimately show ?thesis using w by (auto simp: learns_def)
  next
    case True
    then obtain status where x: "x = RRefund status" "accepted_refund status" by blast
    have w': "w' = w\<lparr>pw_Refunds := pw_Refunds w @ [(i, a)]\<rparr>" "r = x" using w(3) x by auto
    obtain y where y: "order_of w i = Some y" "po_Status y = REFUNDING" "\<not> refunded w i"
      using w(2) by (auto simp: holds_all_pay)
    have of': "order_of w' = order_of w" "code_of w' = code_of w" "audited w' = audited w" "redeemed w' = redeemed w"
        "pw_Orders w' = pw_Orders w" "pw_Credits w' = pw_Credits w" "pw_Rebates w' = pw_Rebates w"
      using w'(1) by (auto simp: order_of_def code_of_def audited_def redeemed_def fun_eq_iff)
    have r: "refunded w' j \<longleftrightarrow> refunded w j \<or> j = i" for j using w'(1) by (auto simp: refunded_def)
    have "distinct (map fst (pw_Refunds w'))"
      using w(1) y(3) w'(1) by (auto simp: ledger_ok_def refunds_ok_def refunded_def)
    moreover have "\<exists>z. order_of w' j = Some z \<and> po_Status z \<in> {REFUNDING, REFUNDED, PARTIALLY_REFUNDED}" if "refunded w' j" for j
      using that r y w(1) of'(1) by (auto simp: ledger_ok_def refunds_ok_def)
    ultimately have "ledger_ok w'"
      using w(1) of' by (simp add: ledger_ok_def orders_ok_def order_ok_def credits_ok_def rebates_ok_def refunds_ok_def)
    moreover have "pay_guar {Lock i True} w w'" using of' r by (auto simp: pay_guar_def)
    moreover have "learns pay_contract {Lock i True} w {Lock i False} w'"
      using y of'(1) by (auto simp: learns_def holds_all_pay keys_of_pay)
    ultimately show ?thesis using assms(2) x w'(2) by blast
  qed
  then show ?thesis using assms(1) by (intro psafe_ask) (auto simp: pay_risk_def)
qed

lemma psafe_gwRefund:
  assumes "po_ID (rp_Order p) = rp_OrderID p"
    and "\<And>e. Q (Some e) {Lock (rp_OrderID p) True}" and "\<And>fresh. Q None {Lock (rp_OrderID p) fresh}"
  shows "psafe (gwRefund env p) {Lock (rp_OrderID p) True} Q"
proof -
  have refund: "psafe (bind (ask (RefundAtProvider (rp_OrderID p) k t a s) (\<lambda>r. case r of RRefund resp \<Rightarrow> Some resp | _ \<Rightarrow> None))
      (\<lambda>reply. case reply of None \<Rightarrow> Done (Some (Plain ''refund''))
        | Some resp \<Rightarrow> if validateRefundProviderResponse resp then Done None else Done (Some (Plain ''payment refund failed''))))
      {Lock (rp_OrderID p) True} Q" for k t a s
    by (rule psafe_bind, rule psafe_refund_call)
      (use assms in \<open>auto simp: accepted_refund_def validateRefundProviderResponse_def Let_def split: option.splits pay_reply.splits\<close>)
  have d: "psafe (Done None) {Lock (rp_OrderID p) True} Q" "psafe (Done (Some e)) {Lock (rp_OrderID p) True} Q" for e
    using assms by auto
  show ?thesis
    unfolding gwRefund_def Let_def assms(1)
    using assms(2) d(1) by (auto simp: frame_call_def intro!: psafe_after refund split: sum.split)
qed

text \<open>The facts of a refund: the lock, or what is left when it was given back.\<close>

lemma psafe_free:
  assumes "psafe p {} (\<lambda>a F. True)" and "\<And>fresh. psafe p {Lock i fresh} (\<lambda>a F. True)" and "F = {} \<or> (\<exists>fresh. F = {Lock i fresh})"
  shows "psafe p F (\<lambda>a F. True)"
  using assms by auto

lemma psafe_true: "only frame_call p \<Longrightarrow> psafe p F (\<lambda>a F. True)"
  by (rule psafe_only) simp_all

lemma psafe_markRefundOk: "psafe (markRefundOk p) {Lock (rp_OrderID p) fresh} (\<lambda>a F. True)"
  unfolding markRefundOk_def Let_def
  by (rule psafe_after, simp, rule psafe_bind,
      rule psafe_unlock [where s = "if rp_RefundAmount p < po_Amount (rp_Order p) then PARTIALLY_REFUNDED else REFUNDED"])
    (auto simp: same_ident_def unlocks_def intro!: psafe_after)

lemma psafe_restored: "psafe (bind (restoreStatus p) (\<lambda>_. Done x)) {Lock (rp_OrderID p) True} (\<lambda>a F. True)"
  by (rule psafe_bind, rule psafe_restoreStatus) simp

lemma frame_rollback [simp]: "only frame_call (RollbackRefund p)"
  unfolding RollbackRefund_def by (auto intro!: only_bind split: sum.split)

lemma psafe_handleGwFail: "psafe (handleGwFail p e) {Lock (rp_OrderID p) True} (\<lambda>a F. True)"
proof -
  have restore: "psafe (bind (restoreStatus p) (\<lambda>_. bind (writeAuditLog i a q) (\<lambda>_. Done x))) {Lock (rp_OrderID p) True} (\<lambda>a F. True)"
    for i a q and x :: "pay_error + refund_result"
    by (rule psafe_bind, rule psafe_restoreStatus) (auto intro!: psafe_after)
  have failed: "psafe (bind (updateOneOrder (rp_OrderID p)
        (\<lambda>z. z\<lparr>po_Status := REFUND_FAILED, po_FailedAt := t, po_FailedReason := Some e\<rparr>)) (\<lambda>_. bind (writeAuditLog i a q) (\<lambda>_. Done x)))
      {Lock (rp_OrderID p) True} (\<lambda>a F. True)"
    for t i a q and x :: "pay_error + refund_result"
    by (rule psafe_bind, rule psafe_unlock [where s = REFUND_FAILED]) (auto simp: same_ident_def unlocks_def intro!: psafe_after)
  show ?thesis
    unfolding handleGwFail_def by (rule psafe_after, simp) (auto intro!: restore psafe_after failed)
qed

text \<open>The plan stays a plan for the same order while the deductions are made.\<close>

abbreviation plan_of :: "int \<Rightarrow> refund_plan \<Rightarrow> bool" where
  "plan_of i p \<equiv> rp_OrderID p = i \<and> po_ID (rp_Order p) = i"

definition deducted :: "int \<Rightarrow> pay_error + refund_plan \<Rightarrow> pay_fact set \<Rightarrow> bool" where
  "deducted i r F = (case r of Inl e \<Rightarrow> True | Inr p \<Rightarrow> plan_of i p \<and> F = {Lock i True})"

lemma deducted_simps [simp]: "deducted i (Inl e) F" "deducted i (Inr p) F \<longleftrightarrow> plan_of i p \<and> F = {Lock i True}"
  by (simp_all add: deducted_def)

lemma psafe_aborted:
  "rp_OrderID p = i \<Longrightarrow> psafe (bind (restoreStatus p) (\<lambda>_. Done (Inl e))) {Lock i True} (deducted i)"
  by (rule psafe_bind) (use psafe_restoreStatus [of p] in simp)

lemma psafe_deductBalance:
  assumes "plan_of i p"
  shows "psafe (deductBalance p) {Lock i True} (deducted i)"
  unfolding deductBalance_def using assms
  by (auto intro!: psafe_after [of "hasAuditLog x a" for x a] psafe_after [of "writes c" for c] psafe_aborted)

lemma psafe_deductSubscription:
  assumes "plan_of i p"
  shows "psafe (deductSubscription p) {Lock i True} (deducted i)"
  unfolding deductSubscription_def using assms
  by (auto intro!: psafe_after [of "hasAuditLog x a" for x a] psafe_after [of "ExtendSubscription x d" for x d]
      psafe_after [of "RevokeSubscription x" for x] psafe_aborted split: sum.split)

lemma psafe_try:
  assumes "psafe m F (\<lambda>r G. case r of Inl e \<Rightarrow> True | Inr a \<Rightarrow> psafe (f a) G (\<lambda>b G. True))"
  shows "psafe (try_bind m f) F (\<lambda>b G. True)"
  by (rule safe_try_bind, rule safe_mono [OF assms]) (auto split: sum.splits)

lemma psafe_gateway:
  assumes "plan_of i q"
  shows "psafe (bind (gwRefund env q) (\<lambda>e. case e of Some gErr \<Rightarrow> handleGwFail q gErr | None \<Rightarrow> markRefundOk q))
    {Lock i True} (\<lambda>a F. True)"
proof -
  have i: "rp_OrderID q = i" using assms by simp
  show ?thesis
    using psafe_gwRefund [of q "\<lambda>e G. psafe (case e of Some gErr \<Rightarrow> handleGwFail q gErr | None \<Rightarrow> markRefundOk q) G (\<lambda>a F. True)" env]
      assms psafe_handleGwFail [of q] psafe_markRefundOk [of q] unfolding i by (intro psafe_bind) simp
qed

lemma psafe_deducted:
  assumes "psafe m {Lock i True} (deducted i)" and "\<And>q. plan_of i q \<Longrightarrow> psafe (f q) {Lock i True} (\<lambda>a F. True)"
  shows "psafe (try_bind m f) {Lock i True} (\<lambda>a F. True)"
proof (rule psafe_try, rule safe_mono [OF assms(1)])
  fix r F assume "deducted i r F"
  then show "case r of Inl e \<Rightarrow> True | Inr q \<Rightarrow> psafe (f q) F (\<lambda>b G. True)"
    using assms(2) by (cases r) auto
qed

lemma psafe_ExecuteRefund:
  assumes "plan_of i p"
  shows "psafe (ExecuteRefund env p) {} (\<lambda>a F. True)"
proof -
  have all: "psafe (try_bind (deductBalance p) (\<lambda>q. try_bind (deductSubscription q) (\<lambda>r. bind (gwRefund env r)
      (\<lambda>e. case e of Some gErr \<Rightarrow> handleGwFail r gErr | None \<Rightarrow> markRefundOk r)))) {Lock i True} (\<lambda>a F. True)"
    by (intro psafe_deducted psafe_deductBalance psafe_deductSubscription psafe_gateway assms)
  show ?thesis
    unfolding ExecuteRefund_def
  proof (rule psafe_bind, rule safe_mono [OF psafe_lock])
    fix c F
    assume "((c = None \<or> c = Some (0 :: nat)) \<and> F = {}) \<or> (c = Some 1 \<and> F = {Lock (rp_OrderID p) True})"
    then show "psafe (case c of None \<Rightarrow> Done (Inl (Plain ''lock''))
        | Some n \<Rightarrow> if n = 0 then Done (Inl (Coded ''CONFLICT''))
            else try_bind (deductBalance p) (\<lambda>p1. try_bind (deductSubscription p1) (\<lambda>p. bind (gwRefund env p)
                   (\<lambda>e. case e of Some gErr \<Rightarrow> handleGwFail p gErr | None \<Rightarrow> markRefundOk p)))) F (\<lambda>a F. True)"
      using all assms by auto
  qed
qed

definition planned :: "int \<Rightarrow> refund_result + refund_plan \<Rightarrow> bool" where
  "planned i d \<longleftrightarrow> (\<forall>p. d = Inr p \<longrightarrow> plan_of i p)"

lemma psafe_prepDeduct:
  assumes "plan_of i p"
  shows "psafe (prepDeduct y p force) {} (\<lambda>d F. F = {} \<and> planned i d)"
  unfolding prepDeduct_def Let_def
  using assms by (auto simp: planned_def intro!: psafe_after split: option.split)

lemma psafe_getOrder_bind:
  assumes "psafe (f None) F Q" and "\<And>y. po_ID y = i \<Longrightarrow> psafe (f (Some y)) F Q"
  shows "psafe (bind (getOrder i) f) F Q"
proof (rule psafe_bind)
  show "psafe (getOrder i) F (\<lambda>a G. psafe (f a) G Q)"
    unfolding getOrder_def
  proof (rule psafe_ask)
    fix w x w' r
    assume w: "ledger_ok w" "holds_all pay_contract F w" "effect (GetOrder i) x w = (w', r)"
    let ?g = "\<lambda>r. case r of ROrder y \<Rightarrow> Some y | _ \<Rightarrow> None"
    have "w' = w" and "psafe (f (?g r)) F Q"
      using w(3) assms order_of_SomeD [of w i] by (auto simp: found_def split: option.splits)
    moreover have "learns pay_contract F w F w" using w(2) by (simp add: learns_def)
    ultimately show "ledger_ok w' \<and> pay_guar F w w' \<and> (\<exists>G. learns pay_contract F w G w' \<and> psafe (f (?g r)) G Q) \<and>
        (pay_risk (GetOrder i) = MayLose \<longrightarrow> (\<exists>G. learns pay_contract F w G w' \<and> psafe (f (?g RErr)) G Q))"
      using w(1) assms(1) by auto
  qed (use assms(1) in simp)
qed

lemma psafe_prepared:
  assumes "plan_of i p"
  shows "psafe (bind (prepDeduct y p force) (\<lambda>d. Done (Inr d))) {} (\<lambda>r F. F = {} \<and> (case r of Inl e \<Rightarrow> True | Inr d \<Rightarrow> planned i d))"
  by (rule psafe_bind, rule safe_mono [OF psafe_prepDeduct [OF assms]]) auto

lemma psafe_PrepareRefund:
  "psafe (PrepareRefund env oid amt reason force deduct) {}
     (\<lambda>r F. F = {} \<and> (case r of Inl e \<Rightarrow> True | Inr d \<Rightarrow> planned oid d))"
  unfolding PrepareRefund_def Let_def
  by (rule psafe_getOrder_bind)
    (auto simp: planned_def intro!: psafe_after [of "getRefundOrderProviderInstance y" for y] psafe_prepared
      split: sum.split option.split gofloat.split)

lemma psafe_refundOrder: "psafe (refundOrder env oid amt reason force deduct) {} (\<lambda>a F. True)"
  unfolding refundOrder_def
proof (rule psafe_try, rule safe_mono [OF psafe_PrepareRefund])
  fix r :: "pay_error + refund_result + refund_plan" and F :: "pay_fact set"
  assume "F = {} \<and> (case r of Inl e \<Rightarrow> True | Inr d \<Rightarrow> planned oid d)"
  then show "case r of Inl e \<Rightarrow> True
    | Inr d \<Rightarrow> psafe (case d of Inl early \<Rightarrow> Done (Inr early) | Inr plan \<Rightarrow> ExecuteRefund env plan) F (\<lambda>b G. True)"
    using psafe_ExecuteRefund [where i = oid] by (auto simp: planned_def split: sum.splits)
qed

section \<open>The system\<close>

datatype pay_request =
    Notified payment_notification string
  | CancelByUser int int
  | CancelByAdmin int
  | ExpiryTick
  | VerifyByUser string int
  | RetryByAdmin int
  | RefundAsked int int string
  | RefundByAdmin int gofloat string bool bool
  | RedeemByUser int string

primrec request :: "pay_env \<Rightarrow> pay_request \<Rightarrow> unit pay_prog" where
  "request env (Notified n pk) = bind (HandlePaymentNotification env n pk) (\<lambda>r. Done ())"
| "request env (CancelByUser i u) = bind (CancelOrder env i u) (\<lambda>r. Done ())"
| "request env (CancelByAdmin i) = bind (AdminCancelOrder env i) (\<lambda>r. Done ())"
| "request env ExpiryTick = expiryRunOnce env"
| "request env (VerifyByUser s u) = bind (VerifyOrderByOutTradeNo env s u) (\<lambda>r. Done ())"
| "request env (RetryByAdmin i) = bind (RetryFulfillment env i) (\<lambda>r. Done ())"
| "request env (RefundAsked i u reason) = bind (RequestRefund i u reason) (\<lambda>r. Done ())"
| "request env (RefundByAdmin i amt reason force deduct) = bind (refundOrder env i amt reason force deduct) (\<lambda>r. Done ())"
| "request env (RedeemByUser u c) = bind (Redeem env u c) (\<lambda>r. Done ())"

text \<open>
  What the rest of the server does: \<open>CreateOrder\<close> returns with a new order, pending or failed; a redeem
  code that is no order's is issued; and users, subscriptions, provider instances and the clock change.
\<close>

inductive rest_moves :: "pay_world \<Rightarrow> pay_world \<Rightarrow> bool" where
  other: "same_ledger w w' \<Longrightarrow> rest_moves w w'"
| ordered: "po_ID y \<notin> po_ID ` set (pw_Orders w) \<Longrightarrow> po_RechargeCode y \<notin> po_RechargeCode ` set (pw_Orders w) \<Longrightarrow>
    code_of w (po_RechargeCode y) = None \<Longrightarrow> trim_space (po_RechargeCode y) = po_RechargeCode y \<Longrightarrow> 0 \<le> po_Amount y \<Longrightarrow>
    po_Status y = PENDING \<or> po_Status y = FAILED \<Longrightarrow> rest_moves w (w\<lparr>pw_Orders := pw_Orders w @ [y]\<rparr>)"
| issued: "code_of w (rd_Code rd) = None \<Longrightarrow> rd_Status rd = StatusUnused \<Longrightarrow>
    rd_Code rd \<notin> po_RechargeCode ` set (pw_Orders w) \<Longrightarrow> rest_moves w (w\<lparr>pw_Codes := pw_Codes w @ [rd]\<rparr>)"

lemma rest_moves_ok:
  assumes "ledger_ok w" and "rest_moves w w'"
  shows "ledger_ok w' \<and> pay_guar {} w w'"
  using assms(2)
proof (cases rule: rest_moves.cases)
  case other
  then show ?thesis using assms(1) same_ledger_ok same_ledger_guar by blast
next
  case (ordered y)
  let ?w = "w\<lparr>pw_Orders := pw_Orders w @ [y]\<rparr>"
  have of': "code_of ?w = code_of w" "redeemed ?w = redeemed w" "refunded ?w = refunded w" "audited ?w = audited w"
    by (simp_all add: code_of_def redeemed_def refunded_def audited_def fun_eq_iff)
  have o': "order_of w i = Some z \<Longrightarrow> order_of ?w i = Some z" for i z by (simp add: order_of_def find_append)
  have "order_ok ?w z = order_ok w z" for z using of' by (simp add: order_ok_def)
  moreover have "order_ok w y" using ordered by (auto simp: order_ok_def)
  ultimately have "orders_ok ?w" using assms(1) ordered by (auto simp: ledger_ok_def orders_ok_def)
  moreover have "refunds_ok ?w" using assms(1) of' o' unfolding ledger_ok_def refunds_ok_def by fastforce
  moreover have "pay_guar {} w ?w" using of' o' by (auto simp: pay_guar_def intro!: exI)
  ultimately show ?thesis using assms(1) of' ordered(1) by (simp add: ledger_ok_def credits_ok_def rebates_ok_def)
next
  case (issued rd)
  let ?w = "w\<lparr>pw_Codes := pw_Codes w @ [rd]\<rparr>"
  have "po_RechargeCode y \<noteq> rd_Code rd" if "y \<in> set (pw_Orders w)" for y using that issued(4) by force
  then have "ledger_ok ?w \<and> pay_guar {} w ?w" using code_added_ok [OF assms(1) issued(2,3)] by blast
  then show ?thesis using issued(1) by simp
qed

lemma keeps_safe: "keeps p {} any \<Longrightarrow> psafe p {} (\<lambda>a F. True)"
  unfolding keeps_def by (auto simp: keys_of_pay elim: safe_mono)

lemma request_safe: "psafe (request env q) {} (\<lambda>a F. True)"
proof (cases "\<exists>i amt reason force deduct. q = RefundByAdmin i amt reason force deduct")
  case True
  then show ?thesis using psafe_refundOrder by (auto intro!: psafe_bind)
next
  case False
  then have "keeps (request env q) {} any"
    by (cases q) (auto intro!: keeps_any_bind keeps_Done keeps_HandlePaymentNotification keeps_CancelOrder keeps_AdminCancelOrder
        keeps_expiryRunOnce keeps_VerifyOrder keeps_RetryFulfillment keeps_RequestRefund keeps_any_mono [OF keeps_Redeem])
  then show ?thesis by (rule keeps_safe)
qed

interpretation pay: rely_guarantee pay_contract effect RErr pay_risk "range (request env)" rest_moves for env
proof
  fix f F w w'
  assume "ct_holds pay_contract f w" "ct_guar pay_contract F w w'" "ct_keys pay_contract f \<inter> keys_of pay_contract F = {}"
  then show "ct_holds pay_contract f w'" using pay_stable by (simp add: keys_of_pay)
next
  fix f k w
  assume "ct_holds pay_contract f w" "k \<in> ct_keys pay_contract f"
  then show "ct_locked pay_contract w k" by (cases f) (auto simp: pay_locked_def)
next
  fix p assume "p \<in> range (request env)"
  then show "psafe p {} (\<lambda>a F. True)" using request_safe by auto
qed (simp_all add: rest_moves_ok)

abbreviation payment_system :: "pay_env \<Rightarrow> pay_world \<Rightarrow> (pay_call, pay_reply) threads \<times> pay_world \<Rightarrow> bool" where
  "payment_system env \<equiv> reachable effect RErr pay_risk (range (request env)) rest_moves"

abbreviation payment_step :: "pay_env \<Rightarrow> (pay_call, pay_reply) threads \<times> pay_world \<Rightarrow> (pay_call, pay_reply) threads \<times> pay_world \<Rightarrow> bool" where
  "payment_step env \<equiv> sys_step effect RErr pay_risk (range (request env)) rest_moves"

lemma system_ledger_ok: "payment_system env w0 s \<Longrightarrow> ledger_ok w0 \<Longrightarrow> ledger_ok (snd s)"
  using pay.system_inv by simp

end
