(* ===== verification/Payments.thy ===== *)
theory Payments
  imports PaySafety
begin

text \<open>
  What the payment service promises however its requests interleave, fail, lose replies and die; each
  is read off the invariant and the guarantee of the interpretation in \<open>PaySafety\<close>. The examples are
  requests of one small world, run alone, which is one of the ways the system runs.
\<close>

section \<open>A small world\<close>

definition exact_lib :: pay_lib where
  "exact_lib = \<lparr>pl_fl = (\<lambda>x. x), pl_NewFromFloat = (\<lambda>x. x), pl_InexactFloat64 = (\<lambda>x. x),
     pl_Div = (\<lambda>x y. round_away 16 (x / y)), pl_Round = (\<lambda>x n. round_away n x),
     pl_RoundUp = (\<lambda>x n. (if 0 \<le> x then of_int \<lceil>x * 10 ^ n\<rceil> else of_int \<lfloor>x * 10 ^ n\<rfloor>) / 10 ^ n),
     pl_Truncate = (\<lambda>x. if 0 \<le> x then of_int \<lfloor>x\<rfloor> else of_int \<lceil>x\<rceil>),
     pl_IntPart = (\<lambda>x. if 0 \<le> x then \<lfloor>x\<rfloor> else \<lceil>x\<rceil>)\<rparr>"

definition small_env :: pay_env where
  "small_env = \<lparr>pe_lib = exact_lib, pe_registryKey = (\<lambda>t. []), pe_cancelable = (\<lambda>k. False),
     pe_affiliate = True, pe_redeemCache = True\<rparr>"

definition small_order :: "order_status \<Rightarrow> pay_order" where
  "small_order s = \<lparr>po_ID = 1, po_UserID = 7, po_Amount = 10, po_PayAmount = 10, po_RechargeCode = ''PAY-1'',
     po_OutTradeNo = ''sub2_1'', po_PaymentType = ''stripe'', po_PaymentTradeNo = ''pi_1'', po_OrderType = ''balance'',
     po_SubscriptionGroupID = None, po_SubscriptionDays = None, po_ProviderInstanceID = Some ''5'', po_ProviderKey = Some ''stripe'',
     po_ProviderSnapshot = [], po_Status = s, po_RefundAmount = 0, po_RefundReason = None, po_RefundAt = None,
     po_ForceRefund = False, po_RefundRequestedAt = None, po_RefundRequestReason = None, po_RefundRequestedBy = None,
     po_ExpiresAt = 100, po_PaidAt = None, po_CompletedAt = None, po_FailedAt = None, po_FailedReason = None,
     po_CreatedAt = 0, po_UpdatedAt = 0\<rparr>"

definition small_world :: "order_status \<Rightarrow> redeem_code list \<Rightarrow> (string \<times> int \<times> float64) list \<Rightarrow> pay_world" where
  "small_world s codes credits = \<lparr>pw_Now = 50, pw_Orders = [small_order s], pw_Audits = [],
     pw_Users = [(7, \<lparr>ur_Balance = 20, ur_TotalRecharged = 20, ur_Concurrency = 1\<rparr>)], pw_Codes = codes, pw_Subs = [], pw_NextSub = 1,
     pw_Instances = [\<lparr>pi_ID = 5, pi_ProviderKey = ''stripe'', pi_SupportedTypes = [], pi_AllowUserRefund = True,
       pi_RefundEnabled = True, pi_Enabled = True\<rparr>],
     pw_Groups = [], pw_Credits = credits, pw_Rebates = [], pw_Refunds = []\<rparr>"

definition used_code :: redeem_code where
  "used_code = (order_code (small_order PENDING))\<lparr>rd_Status := StatusUsed, rd_UsedBy := Some 7, rd_UsedAt := Some 40\<rparr>"

abbreviation pending_world :: pay_world where
  "pending_world \<equiv> small_world PENDING [] []"

abbreviation completed_world :: pay_world where
  "completed_world \<equiv> small_world COMPLETED [used_code] [(''PAY-1'', 7, 10)]"

lemma pending_world_ok: "ledger_ok pending_world"
  by (simp add: ledger_ok_def orders_ok_def credits_ok_def rebates_ok_def refunds_ok_def order_ok_def small_world_def
      small_order_def settled_def psIsRefundStatus_def code_of_def refunded_def; code_simp)

lemma completed_world_ok: "ledger_ok completed_world"
  by (simp add: ledger_ok_def orders_ok_def credits_ok_def rebates_ok_def refunds_ok_def order_ok_def small_world_def
      small_order_def used_code_def order_code_def settled_def psIsRefundStatus_def code_of_def refunded_def redeemed_def; code_simp)

abbreviation alone :: "unit pay_prog \<Rightarrow> pay_reply outcome list \<Rightarrow> pay_world \<Rightarrow> pay_world" where
  "alone p sc w \<equiv> snd (snd (run effect RErr pay_risk p sc w))"

lemma alone_reachable:
  assumes "\<And>x. Lost x \<notin> set sc"
  shows "\<exists>ts. payment_system env w0 (ts, alone (request env q) sc w0)"
proof -
  have "payment_system env w0 ((\<lambda>i. None)(0 \<mapsto> request env q), w0)"
    by (rule reachable.step [OF reachable.start sys_step.arrives]) auto
  then show ?thesis using run_reachable [of effect RErr pay_risk _ rest_moves w0 "\<lambda>i. None" 0 "request env q" w0 sc] assms by blast
qed

text \<open>The notification of a payment, and the answer of the affiliate rule.\<close>

abbreviation paid_request :: pay_request where
  "paid_request \<equiv> Notified \<lparr>pn_TradeNo = ''pi_1'', pn_OrderID = ''sub2_1'', pn_Amount = Fin 10, pn_Status = ''success'', pn_Metadata = []\<rparr> ''stripe''"

abbreviation paid_script :: "pay_reply outcome list" where
  "paid_script \<equiv> replicate 17 (Answer RErr) @ [Answer (RAmount 1)]"

abbreviation paid_world :: pay_world where
  "paid_world \<equiv> alone (request small_env paid_request) paid_script pending_world"

lemma paid_world_reached: "\<exists>ts. payment_system small_env pending_world (ts, paid_world)"
  by (rule alone_reachable) simp

definition summary :: "pay_world \<Rightarrow> (int \<times> order_status \<times> string \<times> string \<times> float64) list \<times> (string \<times> int \<times> float64) list \<times>
    (int \<times> float64) list \<times> (int \<times> float64) list \<times> (float64 \<times> float64) list" where
  "summary w = (map (\<lambda>y. (po_ID y, po_Status y, po_OrderType y, po_RechargeCode y, po_Amount y)) (pw_Orders w),
     pw_Credits w, pw_Rebates w, pw_Refunds w, map (\<lambda>(u, x). (ur_Balance x, ur_TotalRecharged x)) (pw_Users w))"

lemma summary_order:
  assumes "summary w = ([(i, s, t, c, a)], rest)"
  obtains y where "order_of w i = Some y" and "po_Status y = s" and "po_OrderType y = t" and "po_RechargeCode y = c" and "po_Amount y = a"
  using assms by (cases "pw_Orders w") (auto simp: summary_def order_of_def)

lemma paid_world_summary:
  "summary paid_world = ([(1, COMPLETED, ''balance'', ''PAY-1'', 10)], [(''PAY-1'', 7, 10)], [(1, 1)], [], [(30, 30)])"
  by code_simp

section \<open>The promises\<close>



text \<open>C10. An order's affiliate rebate accrues at most once, and only with its claim in the audit table.\<close>

theorem rebate_accrues_once:
  assumes "payment_system env w0 (ts, w)" and "ledger_ok w0"
  shows "distinct (map fst (pw_Rebates w)) \<and>
    (\<forall>i a. (i, a) \<in> set (pw_Rebates w) \<longrightarrow> audited w i ''AFFILIATE_REBATE_APPLIED'')"
  using system_ledger_ok [OF assms] by (auto simp: ledger_ok_def rebates_ok_def)

theorem rebate_accrues_once_witness: "audited paid_world 1 ''AFFILIATE_REBATE_APPLIED''"
proof -
  obtain ts where ts: "payment_system small_env pending_world (ts, paid_world)" using paid_world_reached by blast
  show ?thesis using rebate_accrues_once [OF ts pending_world_ok] paid_world_summary by (simp add: summary_def)
qed

text \<open>An administrator's refund that the provider accepts, and one it refuses.\<close>

abbreviation refund_request :: pay_request where
  "refund_request \<equiv> RefundByAdmin 1 (Fin 10) ''asked'' False True"

abbreviation refund_script :: "string option \<Rightarrow> pay_reply outcome list" where
  "refund_script status \<equiv> replicate 7 (Answer RErr) @ [Answer (RText ''stripe''), Answer (RMeta []), Answer (RRefund status)]"

abbreviation refunded_world :: pay_world where
  "refunded_world \<equiv> alone (request small_env refund_request) (refund_script (Some ''success'')) completed_world"

lemma refunded_world_reached: "\<exists>ts. payment_system small_env completed_world (ts, refunded_world)"
  by (rule alone_reachable) simp

lemma refunded_world_summary:
  "summary refunded_world = ([(1, REFUNDED, ''balance'', ''PAY-1'', 10)], [(''PAY-1'', 7, 10)], [], [(1, 10)], [(10, 20)])"
  by code_simp




text \<open>The administrator cancels an order that no provider knows of: the second of its calls.\<close>

lemma call_step:
  assumes "effect c RErr w = (w', r)"
  shows "payment_step env ((\<lambda>i. None)(0 \<mapsto> Call c k), w) ((\<lambda>i. None)(0 \<mapsto> k r), w')"
  using sys_step.answered [of "(\<lambda>i. None)(0 \<mapsto> Call c k)" 0 c k effect RErr w w' r RErr pay_risk "range (request env)" rest_moves] assms
  by simp

abbreviation unpaid_order :: pay_order where
  "unpaid_order \<equiv> (small_order PENDING)\<lparr>po_PaymentType := [], po_PaymentTradeNo := []\<rparr>"

abbreviation unpaid_world :: pay_world where
  "unpaid_world \<equiv> pending_world\<lparr>pw_Orders := [unpaid_order]\<rparr>"

lemma unpaid_world_ok: "ledger_ok unpaid_world"
  by (simp add: ledger_ok_def orders_ok_def credits_ok_def rebates_ok_def refunds_ok_def order_ok_def small_world_def
      small_order_def settled_def psIsRefundStatus_def code_of_def refunded_def; code_simp)


end
