(* ===== verification/PayAmounts.thy ===== *)
theory PayAmounts
  imports Payments
begin

text \<open>
  What the amounts of an order, a notification and a refund are worth to each other, under what the
  documentation of \<open>shopspring/decimal\<close> says of its rounding operations.
\<close>

section \<open>What the decimal library promises\<close>

definition decimal_laws :: "pay_lib \<Rightarrow> bool" where
  "decimal_laws L \<longleftrightarrow>
     (\<forall>x n. pl_Round L x n = round_away n x) \<and>
     (\<forall>x n. 0 \<le> x \<longrightarrow> pl_RoundUp L x n = of_int \<lceil>x * 10 ^ n\<rceil> / 10 ^ n) \<and>
     (\<forall>x y. y \<noteq> 0 \<longrightarrow> pl_Div L x y = round_away 16 (x / y)) \<and>
     (\<forall>x. 0 \<le> x \<longrightarrow> pl_Truncate L x = of_int \<lfloor>x\<rfloor>) \<and>
     (\<forall>x. x \<le> 0 \<longrightarrow> pl_Truncate L x = of_int \<lceil>x\<rceil>) \<and>
     (\<forall>k. int64_range k \<longrightarrow> pl_IntPart L (of_int k) = k) \<and>
     mono (pl_InexactFloat64 L)"

lemma exact_lib_laws: "decimal_laws exact_lib"
  by (auto simp: decimal_laws_def exact_lib_def mono_def)

lemma decimal_lawsD:
  assumes "decimal_laws L"
  shows "pl_Round L x n = round_away n x" and "0 \<le> x \<Longrightarrow> pl_RoundUp L x n = of_int \<lceil>x * 10 ^ n\<rceil> / 10 ^ n"
    and "y \<noteq> 0 \<Longrightarrow> pl_Div L x y = round_away 16 (x / y)"
    and "int64_range k \<Longrightarrow> pl_IntPart L (of_int k) = k" and "mono (pl_InexactFloat64 L)"
  using assms by (simp_all add: decimal_laws_def)

text \<open>Amounts with at most \<open>n\<close> decimals.\<close>

definition decimals :: "nat \<Rightarrow> rat \<Rightarrow> bool" where
  "decimals n x \<longleftrightarrow> x * 10 ^ n \<in> \<int>"

lemma truncate_fixes:
  assumes "decimal_laws L"
  shows "pl_Truncate L x = x \<longleftrightarrow> x \<in> \<int>"
proof (cases "0 \<le> x")
  case True
  then have "pl_Truncate L x = of_int \<lfloor>x\<rfloor>" using assms by (simp add: decimal_laws_def)
  then show ?thesis by (metis Ints_cases Ints_of_int floor_of_int)
next
  case False
  then have "pl_Truncate L x = of_int \<lceil>x\<rceil>" using assms by (simp add: decimal_laws_def)
  then show ?thesis by (metis Ints_cases Ints_of_int ceiling_of_int)
qed

lemma decimals_more:
  assumes "decimals m x" and "m \<le> n"
  shows "decimals n x"
proof -
  have "x * 10 ^ n = x * 10 ^ m * of_int (10 ^ (n - m))" using assms(2) by (simp flip: power_add)
  then show ?thesis using assms(1) unfolding decimals_def by (metis Ints_mult Ints_of_int)
qed

lemma round_away_decimals [simp]: "decimals n (round_away n x)"
  unfolding decimals_def round_away_def by (cases "0 \<le> x") simp_all

lemma round_away_fixes:
  assumes "decimals n x"
  shows "round_away n x = x"
proof -
  obtain k where k: "x * 10 ^ n = of_int k" using assms unfolding decimals_def by (auto elim: Ints_cases)
  have "\<lfloor>of_int k + (1 / 2 :: rat)\<rfloor> = k" "\<lceil>of_int k - (1 / 2 :: rat)\<rceil> = k" by linarith+
  then have "round_away n x = of_int k / 10 ^ n" unfolding round_away_def k by simp
  also have "\<dots> = x" unfolding k [symmetric] by simp
  finally show ?thesis .
qed

lemma round_away_mono:
  assumes "x \<le> y"
  shows "round_away n x \<le> round_away n y"
proof -
  have xy: "x * 10 ^ n \<le> y * 10 ^ n" using assms by simp
  define a b where "a = x * 10 ^ n" and "b = y * 10 ^ n"
  have "\<not> (10 :: rat) ^ n \<le> 0" by (simp add: not_le)
  then have s: "0 \<le> x \<longleftrightarrow> 0 \<le> a" "0 \<le> y \<longleftrightarrow> 0 \<le> b" by (simp_all add: a_def b_def zero_le_mult_iff)
  have "a \<le> b" using xy by (simp add: a_def b_def)
  then have "(if 0 \<le> a then \<lfloor>a + 1 / 2\<rfloor> else \<lceil>a - 1 / 2\<rceil>) \<le> (if 0 \<le> b then \<lfloor>b + 1 / 2\<rfloor> else \<lceil>b - 1 / 2\<rceil>)"
    by (simp split: if_split) linarith
  then have "(if 0 \<le> x then \<lfloor>a + 1 / 2\<rfloor> else \<lceil>a - 1 / 2\<rceil>) \<le> (if 0 \<le> y then \<lfloor>b + 1 / 2\<rfloor> else \<lceil>b - 1 / 2\<rceil>)"
    using s by simp
  moreover have "round_away n x = of_int (if 0 \<le> x then \<lfloor>a + 1 / 2\<rfloor> else \<lceil>a - 1 / 2\<rceil>) / 10 ^ n"
      "round_away n y = of_int (if 0 \<le> y then \<lfloor>b + 1 / 2\<rfloor> else \<lceil>b - 1 / 2\<rceil>) / 10 ^ n"
    by (simp_all add: round_away_def a_def b_def)
  ultimately show ?thesis by (simp only: of_int_le_iff divide_right_mono zero_le_power zero_le_numeral)
qed

lemma round_away_near:
  assumes "0 \<le> x"
  shows "x - 1 / (2 * 10 ^ n) \<le> round_away n x \<and> round_away n x \<le> x + 1 / (2 * 10 ^ n)"
proof -
  have f: "x * 10 ^ n - 1 / 2 \<le> of_int \<lfloor>x * 10 ^ n + 1 / 2\<rfloor>" "of_int \<lfloor>x * 10 ^ n + 1 / 2\<rfloor> \<le> x * 10 ^ n + 1 / 2" by linarith+
  have d: "(x * 10 ^ n - 1 / 2) / 10 ^ n = x - 1 / (2 * 10 ^ n)" "(x * 10 ^ n + 1 / 2) / 10 ^ n = x + 1 / (2 * 10 ^ n)"
    by (simp_all add: field_simps)
  show ?thesis
    using assms divide_right_mono [OF f(1), of "10 ^ n"] divide_right_mono [OF f(2), of "10 ^ n"] unfolding round_away_def d by simp
qed

section \<open>Currencies\<close>

definition upper :: "char \<Rightarrow> bool" where
  "upper c \<longleftrightarrow> 65 \<le> byte c \<and> byte c \<le> 90"

lemma space_seqs_ends: "list_all (\<lambda>p. \<not> upper (hd p) \<and> \<not> upper (last p)) space_seqs"
  by code_simp

lemma trim_keeps_letters:
  assumes "s \<noteq> []" and "upper (hd s)" and "upper (last s)"
  shows "trim_space s = s"
proof -
  have "find (\<lambda>p. p \<noteq> [] \<and> prefix p s) space_seqs = None"
    using assms(2) space_seqs_ends by (fastforce simp: find_None_iff list_all_iff prefix_def hd_append)
  then have 1: "trim_seqs space_seqs s = s" by (subst trim_seqs.simps) simp
  have "\<not> prefix (rev p) (rev s)" if p: "p \<in> set space_seqs" "p \<noteq> []" for p
  proof
    assume "prefix (rev p) (rev s)"
    then have "hd (rev s) = hd (rev p)" using p(2) by (auto simp: prefix_def hd_append)
    moreover have "\<not> upper (last p)" using p space_seqs_ends by (simp add: list_all_iff)
    ultimately show False using assms p(2) by (simp add: hd_rev)
  qed
  then have "find (\<lambda>p. p \<noteq> [] \<and> prefix p (rev s)) (map rev space_seqs) = None" by (auto simp: find_None_iff)
  then have "trim_seqs (map rev space_seqs) (rev s) = rev s" by (subst trim_seqs.simps) simp
  then show ?thesis using 1 by (simp add: trim_space_def)
qed

lemma currency_normal:
  assumes "NormalizePaymentCurrency c = Some n"
  shows "NormalizePaymentCurrency n = Some n"
proof (cases "n = DefaultPaymentCurrency")
  case True
  then show ?thesis by simp code_simp
next
  case False
  then have n: "length n = 3" "\<forall>ch \<in> set n. upper ch"
    using assms by (auto simp: NormalizePaymentCurrency_def Let_def list_ex_iff upper_def not_less split: if_splits)
  then have "n \<noteq> []" by auto
  moreover have "to_upper n = n" unfolding to_upper_def by (rule map_idI) (use n(2) in \<open>force simp: upper_def\<close>)
  ultimately show ?thesis using n trim_keeps_letters [of n]
    by (auto simp: NormalizePaymentCurrency_def Let_def list_ex_iff upper_def not_less)
qed

lemma unit_normalized:
  "NormalizePaymentCurrency c = Some n \<Longrightarrow> paymentCurrencyAmountUnitFor n = paymentCurrencyAmountUnitFor c"
  using currency_normal [of c n] by (simp add: paymentCurrencyAmountUnitFor_def)

lemma units_fit: "au_maxFractionDigits (paymentCurrencyAmountUnitFor c) \<le> au_apiMinorUnit (paymentCurrencyAmountUnitFor c) \<and>
   au_apiMinorUnit (paymentCurrencyAmountUnitFor c) \<le> 3"
proof -
  have "list_all (\<lambda>(k, u). au_maxFractionDigits u \<le> au_apiMinorUnit u \<and> au_apiMinorUnit u \<le> 3) paymentCurrencyAmountUnits"
    by code_simp
  then have "map_of paymentCurrencyAmountUnits k = Some u \<Longrightarrow> au_maxFractionDigits u \<le> au_apiMinorUnit u \<and> au_apiMinorUnit u \<le> 3" for k u
    using map_of_SomeD by (fastforce simp: list_all_iff)
  then show ?thesis
    by (auto simp: paymentCurrencyAmountUnitFor_def twoDecimalAmountUnit_def split: option.split)
qed

lemma minor_unit_cases:
  assumes "decimal_laws L" and "NormalizePaymentCurrency c = Some n"
  shows "AmountToMinorUnit L d c =
    (if decimals (CurrencyMaxFractionDigits c) d then Inr (pl_IntPart L (d * 10 ^ CurrencyMinorUnit c))
     else if CurrencyMaxFractionDigits c = 0 then Inl (NotWhole n) else Inl (TooManyDigits n (CurrencyMaxFractionDigits c)))"
proof -
  have t: "(x \<noteq> pl_Truncate L x) = (x \<notin> \<int>)" for x using truncate_fixes [OF assms(1), of x] by metis
  show ?thesis
    by (simp add: AmountToMinorUnit_def assms(2) Let_def t decimals_def CurrencyMaxFractionDigits_def CurrencyMinorUnit_def
        unit_normalized [OF assms(2)])
qed

section \<open>The promises\<close>

lemma price_decimals: "decimal_laws L \<Longrightarrow> decimals (CurrencyMaxFractionDigits c) (CalculatePayAmountForCurrency L a r c)"
  by (simp add: CalculatePayAmountForCurrency_def Let_def decimal_lawsD)



text \<open>C17. The price of an amount with the decimals of its currency is a multiple of the smallest unit, covers the amount
  and its fee up to the precision of the division, and exceeds them by less than one unit.\<close>

theorem price_covers_fee:
  assumes "decimal_laws L" and "a = pl_NewFromFloat L amount" and "r = pl_NewFromFloat L feeRate"
    and "n = CurrencyMaxFractionDigits currency" and "decimals n a" and "0 \<le> a" and "0 < feeRate" and "0 \<le> r"
  shows "decimals n (CalculatePayAmountForCurrency L amount feeRate currency) \<and>
    a + a * r / 100 - 1 / (2 * 10 ^ 16) \<le> CalculatePayAmountForCurrency L amount feeRate currency \<and>
    CalculatePayAmountForCurrency L amount feeRate currency < a + a * r / 100 + 1 / (2 * 10 ^ 16) + 1 / 10 ^ n"
proof -
  define q where "q = round_away 16 (a * r / 100)"
  define fee where "fee = of_int \<lceil>q * 10 ^ n\<rceil> / (10 :: rat) ^ n"
  have x: "0 \<le> a * r / 100" using assms by simp
  have near: "a * r / 100 - 1 / (2 * 10 ^ 16) \<le> q" "q \<le> a * r / 100 + 1 / (2 * 10 ^ 16)"
    using round_away_near [OF x, of 16] unfolding q_def by auto
  have "round_away 16 0 = 0" by (rule round_away_fixes) (simp add: decimals_def)
  then have "0 \<le> q" using round_away_mono [OF x, of 16] by (simp add: q_def)
  have "q * 10 ^ n \<le> of_int \<lceil>q * 10 ^ n\<rceil>" "of_int \<lceil>q * 10 ^ n\<rceil> < q * 10 ^ n + 1" by linarith+
  then have "q \<le> fee" "fee < q + 1 / 10 ^ n" by (simp_all add: fee_def field_simps)
  have "(a + fee) * 10 ^ n = a * 10 ^ n + of_int \<lceil>q * 10 ^ n\<rceil>" by (simp add: fee_def field_simps)
  then have "decimals n (a + fee)" using assms(5) unfolding decimals_def by (metis Ints_add Ints_of_int)
  then have "CalculatePayAmountForCurrency L amount feeRate currency = a + fee"
    using assms \<open>0 \<le> q\<close> by (simp add: CalculatePayAmountForCurrency_def Let_def decimal_lawsD q_def fee_def round_away_fixes)
  then show ?thesis
    using near \<open>q \<le> fee\<close> \<open>fee < q + 1 / 10 ^ n\<close> \<open>decimals n (a + fee)\<close> by simp
qed

theorem price_covers_fee_witness:
  "(100 :: rat) + 100 * (1 / 3) / 100 - 1 / (2 * 10 ^ 16) \<le> CalculatePayAmountForCurrency exact_lib 100 (1 / 3) ''USD''"
  using price_covers_fee [OF exact_lib_laws refl refl refl, where amount = 100 and currency = "''USD''" and feeRate = "1 / 3"]
  by (simp add: exact_lib_def decimals_def)

text \<open>C20. An amount that is given in minor units to a provider comes back from them unchanged.\<close>

theorem minor_unit_roundtrip:
  assumes "decimal_laws L" and "AmountToMinorUnit L d currency = Inr v" and "int64_range \<lfloor>d * 10 ^ CurrencyMinorUnit currency\<rfloor>"
  shows "MinorUnitToAmount L v currency = pl_InexactFloat64 L d"
proof -
  let ?u = "CurrencyMinorUnit currency"
  obtain n where n: "NormalizePaymentCurrency currency = Some n"
    using assms(2) by (auto simp: AmountToMinorUnit_def split: option.splits)
  have d: "decimals (CurrencyMaxFractionDigits currency) d" "v = pl_IntPart L (d * 10 ^ ?u)"
    using assms(2) unfolding minor_unit_cases [OF assms(1) n] by (auto split: if_splits)
  have "CurrencyMaxFractionDigits currency \<le> ?u" "?u \<le> 16"
    using units_fit [of currency] by (simp_all add: CurrencyMaxFractionDigits_def CurrencyMinorUnit_def)
  then have u: "decimals ?u d" "decimals 16 d" using d(1) decimals_more by (meson le_trans)+
  then obtain k where k: "d * 10 ^ ?u = of_int k" unfolding decimals_def by (auto elim: Ints_cases)
  then have "v = k" using d(2) assms(1,3) by (simp add: decimal_lawsD)
  then have "of_int v / 10 ^ ?u = d" using k by (simp add: field_simps)
  then show ?thesis using assms(1) u(2) by (simp add: MinorUnitToAmount_def decimal_lawsD round_away_fixes)
qed

theorem minor_unit_roundtrip_witness:
  "AmountToMinorUnit exact_lib 12 ''isk'' = Inr 1200 \<and> MinorUnitToAmount exact_lib 1200 ''isk'' = 12"
proof -
  have a: "AmountToMinorUnit exact_lib 12 ''isk'' = Inr 1200" by code_simp
  moreover have "int64_range \<lfloor>(12 :: rat) * 10 ^ CurrencyMinorUnit ''isk''\<rfloor>" by code_simp
  ultimately show ?thesis using minor_unit_roundtrip [OF exact_lib_laws a] by (simp add: exact_lib_def)
qed



end
