(* ===== verification/Schedules.thy ===== *)
theory Schedules
  imports Programs
begin

text \<open>
  Ways a system of programs runs: what every script of one request leaves alone, and schedules, which say
  whose call is next and what becomes of it, so that an interleaving can be evaluated.
\<close>

section \<open>Every script\<close>

text \<open>What every effect of its calls does, a program does under every script.\<close>

lemma run_only:
  assumes "only P p" and "\<And>c x w. P c \<Longrightarrow> R w (fst (eff c x w))" and "\<And>w. R w w" and "\<And>u v w. R u v \<Longrightarrow> R v w \<Longrightarrow> R u w"
  shows "R w (snd (snd (run eff err risky p sc w)))"
  using assms(1)
proof (induction p arbitrary: sc w)
  case (Done a)
  then show ?case using assms(3) by simp
next
  case (Call c k)
  have on: "R w (snd (snd (run eff err risky (k r) sc (fst (eff c x w)))))" for r sc x
    by (rule assms(4) [OF assms(2) Call.IH]) (use Call.prems in auto)
  have off: "R w (snd (snd (run eff err risky (k err) sc w)))" for sc
    by (rule Call.IH) (use Call.prems in auto)
  show ?case using on off by (auto split: list.split outcome.split simp: case_prod_beta)
qed

section \<open>Schedules\<close>

definition turn :: "('c \<Rightarrow> 'r \<Rightarrow> 'w \<Rightarrow> 'w \<times> 'r) \<Rightarrow> 'r \<Rightarrow> ('c \<Rightarrow> risk) \<Rightarrow> nat \<times> 'r outcome \<Rightarrow>
    ('c, 'r, unit) prog list \<times> 'w \<Rightarrow> ('c, 'r, unit) prog list \<times> 'w" where
  "turn eff err risky e s =
     (case (e, s) of
        ((i, z), (ps, w)) \<Rightarrow>
          (case ps ! i of
             Done a \<Rightarrow> (ps, w)
           | Call c k \<Rightarrow>
               (case z of
                  Answer x \<Rightarrow> (let (w', r) = eff c x w in (ps[i := k r], w'))
                | Fails \<Rightarrow> if risky c = Reliable then (ps, w) else (ps[i := k err], w)
                | Lost x \<Rightarrow> if risky c = MayLose then (ps[i := k err], fst (eff c x w)) else (ps, w))))"

definition take_turns :: "('c \<Rightarrow> 'r \<Rightarrow> 'w \<Rightarrow> 'w \<times> 'r) \<Rightarrow> 'r \<Rightarrow> ('c \<Rightarrow> risk) \<Rightarrow> (nat \<times> 'r outcome) list \<Rightarrow>
    ('c, 'r, unit) prog list \<Rightarrow> 'w \<Rightarrow> ('c, 'r, unit) prog list \<times> 'w" where
  "take_turns eff err risky es ps w = fold (turn eff err risky) es (ps, w)"

definition threads_of :: "('c, 'r, unit) prog list \<Rightarrow> ('c, 'r) threads" where
  "threads_of ps i = (if i < length ps then Some (ps ! i) else None)"

lemma threads_of_update: "i < length ps \<Longrightarrow> threads_of (ps[i := p]) = (threads_of ps)(i \<mapsto> p)"
  by (auto simp: threads_of_def fun_eq_iff nth_list_update)

lemma turn_step:
  assumes "i < length ps"
  shows "(let (ps', w') = turn eff err risky (i, z) (ps, w) in
     ps' = ps \<and> w' = w \<or> sys_step eff err risky starts moves (threads_of ps, w) (threads_of ps', w'))"
proof (cases "ps ! i")
  case (Done a)
  then show ?thesis by (simp add: turn_def)
next
  case (Call c k)
  have t: "threads_of ps i = Some (Call c k)" using assms Call by (simp add: threads_of_def)
  show ?thesis
  proof (cases z)
    case (Answer x)
    then show ?thesis using sys_step.answered [of "threads_of ps" i c k eff x w] t Call assms
      by (auto simp: turn_def Let_def threads_of_update split: prod.split)
  next
    case Fails
    then show ?thesis using sys_step.failed [of "threads_of ps" i c k risky eff err starts moves w] t Call assms
      by (auto simp: turn_def threads_of_update)
  next
    case (Lost x)
    then show ?thesis
      using sys_step.lost [of "threads_of ps" i c k risky eff x w "fst (eff c x w)" "snd (eff c x w)"] t Call assms
      by (auto simp: turn_def threads_of_update)
  qed
qed

lemma turn_length: "length (fst (turn eff err risky e s)) = length (fst s)"
  by (auto simp: turn_def Let_def split: prod.split prog.split outcome.split)

lemma turns_reachable:
  assumes "reachable eff err risky starts moves w0 (threads_of ps, w)" and "list_all (\<lambda>(i, z). i < length ps) es"
  shows "reachable eff err risky starts moves w0
    (threads_of (fst (take_turns eff err risky es ps w)), snd (take_turns eff err risky es ps w))"
  using assms
proof (induction es arbitrary: ps w)
  case Nil
  then show ?case by (simp add: take_turns_def)
next
  case (Cons e es)
  obtain i z where e: "e = (i, z)" "i < length ps" using Cons.prems(2) by (cases e) auto
  obtain ps' w' where t: "turn eff err risky (i, z) (ps, w) = (ps', w')" by fastforce
  have "reachable eff err risky starts moves w0 (threads_of ps', w')"
    using turn_step [OF e(2), of eff err risky z w starts moves] t Cons.prems(1) reachable.step by auto
  moreover have "length ps' = length ps" using turn_length [of eff err risky "(i, z)" "(ps, w)"] t by simp
  ultimately show ?case using Cons.IH [of ps' w'] Cons.prems(2) e t by (simp add: take_turns_def)
qed

lemma all_arrive:
  assumes "set ps \<subseteq> starts"
  shows "reachable eff err risky starts moves w0 (threads_of ps, w0)"
  using assms
proof (induction ps rule: rev_induct)
  case Nil
  then show ?case using reachable.start [of eff err risky starts moves w0] by (simp add: threads_of_def)
next
  case (snoc p ps)
  have "threads_of (ps @ [p]) = (threads_of ps)(length ps \<mapsto> p)"
    by (auto simp: threads_of_def fun_eq_iff nth_append)
  moreover have "threads_of ps (length ps) = None" by (simp add: threads_of_def)
  moreover have "reachable eff err risky starts moves w0 (threads_of ps, w0)" using snoc by simp
  moreover have "p \<in> starts" using snoc.prems by simp
  ultimately show ?case using reachable.step [OF _ sys_step.arrives, of eff err risky starts moves w0 "threads_of ps" w0 "length ps" p] by (simp only:)
qed

section \<open>A request that is not hindered\<close>

text \<open>Alone, with every call answered: what a request returns and the world it leaves.\<close>

definition perform :: "('c \<Rightarrow> 'r \<Rightarrow> 'w \<Rightarrow> 'w \<times> 'r) \<Rightarrow> 'r \<Rightarrow> ('c, 'r, 'a) prog \<Rightarrow> 'w \<Rightarrow> 'a \<times> 'w" where
  "perform eff err p w = (case run eff err (\<lambda>c. Reliable) p [] w of (a, sc, w') \<Rightarrow> (a, w'))"

lemma run_answered: "run eff err risky p [] w = (fst (perform eff err p w), [], snd (perform eff err p w))"
  by (induction p arbitrary: w) (auto simp: perform_def split: prod.split)

lemma perform_Done [simp]: "perform eff err (Done a) w = (a, w)"
  by (simp add: perform_def)

lemma perform_Call [simp]:
  "perform eff err (Call c k) w = (case eff c err w of (w', r) \<Rightarrow> perform eff err (k r) w')"
  by (simp add: perform_def split: prod.split)

lemma perform_bind: "perform eff err (bind m f) w = (case perform eff err m w of (a, w') \<Rightarrow> perform eff err (f a) w')"
  by (induction m arbitrary: w) (auto split: prod.split)

lemma perform_try_bind:
  "perform eff err (try_bind m f) w =
     (case perform eff err m w of (Inl e, w') \<Rightarrow> (Inl e, w') | (Inr a, w') \<Rightarrow> perform eff err (f a) w')"
  by (auto simp: try_bind_def perform_bind split: prod.split sum.split)

end
