(* ===== verification/PayFacts.thy ===== *)
theory PayFacts
  imports PayAmounts Schedules
begin

text \<open>
  What single requests of the payment service do: a paid order is completed, by its notification or by a
  retry; a notification that does not fit its order changes nothing; a refused refund is undone.
\<close>

section \<open>The operations when every call is answered\<close>

abbreviation done_by :: "'a pay_prog \<Rightarrow> pay_world \<Rightarrow> 'a \<times> pay_world" where
  "done_by \<equiv> perform effect RErr"

lemma done_ask: "done_by (ask c f) w = (case effect c RErr w of (w', r) \<Rightarrow> (f r, w'))"
  by (simp add: ask_def split: prod.split)

lemma done_reads [simp]:
  "done_by timeNow w = (pw_Now w, w)"
  "done_by (getOrder i) w = (order_of w i, w)"
  "done_by (getByCode c) w = (case code_of w c of None \<Rightarrow> Inl True | Some rd \<Rightarrow> Inr rd, w)"
  "done_by (getUser u) w = (user_of w u, w)"
  "done_by (hasAuditLog i a) w = (audited w i a, w)"
  by (simp_all add: done_ask timeNow_def getOrder_def getByCode_def getUser_def hasAuditLog_def found_def split: option.split)

lemma done_writes [simp]:
  "done_by (updateOrders i P f) w =
     (case order_of w i of Some y \<Rightarrow> if P y then (Some 1, write_order f i w) else (Some 0, w) | None \<Rightarrow> (Some 0, w))"
  "done_by (writeAuditLog i a operator) w = ((), if audited w i a then w else put_audit i a operator w)"
  by (auto simp: done_ask updateOrders_def writeAuditLog_def split: option.split)

lemma done_redis [simp]:
  "done_by (checkRedeemRateLimit env u) w = (True, w)" "done_by (incrementRedeemErrorCount env u) w = ((), w)"
  "done_by (acquireRedeemLock env c) w = (True, w)" "done_by (releaseRedeemLock env c) w = ((), w)"
  by (simp_all add: done_ask checkRedeemRateLimit_def incrementRedeemErrorCount_def acquireRedeemLock_def releaseRedeemLock_def)

lemma done_redeemTx [simp]:
  "done_by (redeemTx c u g) w =
     (case redeem_tx c u g w of
        (w', RUnit) \<Rightarrow> (Inr (), w') | (w', RRefused) \<Rightarrow> (Inl (Coded ''REDEEM_CODE_USED''), w')
      | (w', _) \<Rightarrow> (Inl (Plain ''redeem transaction''), w'))"
  by (auto simp: done_ask redeemTx_def redeem_call_def split: prod.split pay_reply.split)

section \<open>A paid order is completed\<close>

definition rebate_settled :: "pay_env \<Rightarrow> pay_world \<Rightarrow> pay_order \<Rightarrow> bool" where
  "rebate_settled env w y \<longleftrightarrow> \<not> pe_affiliate env \<or> po_OrderType y \<noteq> ''balance'' \<or>
     audited w (po_ID y) ''AFFILIATE_REBATE_APPLIED'' \<or> audited w (po_ID y) ''AFFILIATE_REBATE_SKIPPED''"

text \<open>The code of the order is new, or used, or can be redeemed.\<close>

definition rechargeable :: "pay_world \<Rightarrow> pay_order \<Rightarrow> bool" where
  "rechargeable w y \<longleftrightarrow> po_RechargeCode y \<noteq> [] \<and> trim_space (po_RechargeCode y) = po_RechargeCode y \<and> 0 < po_Amount y \<and>
     user_of w (po_UserID y) \<noteq> None \<and>
     (case code_of w (po_RechargeCode y) of
        None \<Rightarrow> True
      | Some rd \<Rightarrow> rd_Type rd = ''balance'' \<and> rd_Value rd = po_Amount y \<and> (rd_Status rd = StatusUsed \<or> CanUse rd (pw_Now w)))"

text \<open>The balance after the order of a user: credited unless it was before.\<close>

definition recharged :: "pay_world \<Rightarrow> pay_order \<Rightarrow> pay_world \<Rightarrow> bool" where
  "recharged w y w' \<longleftrightarrow>
     user_of w' (po_UserID y) = map_option (if redeemed w (po_RechargeCode y) then id else UpdateBalance (po_Amount y)) (user_of w (po_UserID y)) \<and>
     pw_Credits w' = pw_Credits w @ (if redeemed w (po_RechargeCode y) then [] else [(po_RechargeCode y, po_UserID y, po_Amount y)])"

lemma done_rebate:
  assumes "rebate_settled env w y"
  shows "done_by (applyAffiliateRebateForOrder env y) w = (Inr (), w)"
  using assms
  by (auto simp: applyAffiliateRebateForOrder_def rebate_settled_def rebateTx_def perform_bind done_ask rebate_tx_def)

lemma user_of_write: "user_of (write_user f u w) v = (if v = u then map_option f (user_of w v) else user_of w v)"
proof -
  have "map_of (map (\<lambda>(v, x). (v, if v = u then f x else x)) xs) v =
      (if v = u then map_option f (map_of xs v) else map_of xs v)" for xs
    by (induction xs) auto
  then show ?thesis by (simp add: user_of_def write_user_def)
qed

lemma done_Redeem:
  assumes "code_of w c = Some rd" and "rd_Type rd = ''balance''" and "0 < rd_Value rd" and "CanUse rd (pw_Now w)"
    and "user_of w u = Some x"
  shows "\<exists>rd'. done_by (Redeem env u c) w =
    (Inr rd', (write_user (UpdateBalance (rd_Value rd)) u (used_up c u w))\<lparr>pw_Credits := pw_Credits w @ [(c, u, rd_Value rd)]\<rparr>)"
proof -
  have st: "rd_Status rd = StatusUnused" "\<not> IsExpiredAt rd (pw_Now w)" using assms(4) by (simp_all add: CanUse_def)
  have g: "redeem_grant x rd = Some (AddToBalance (rd_Value rd))" using assms(2,3) by (simp add: redeem_grant_def)
  let ?w = "(write_user (UpdateBalance (rd_Value rd)) u (used_up c u w))\<lparr>pw_Credits := pw_Credits w @ [(c, u, rd_Value rd)]\<rparr>"
  have "user_of (used_up c u w) u = Some x" using assms(5) by (simp add: user_of_def used_up_def)
  then have tx: "redeem_tx c u (AddToBalance (rd_Value rd)) w = (?w, RUnit)"
    using assms(1) st(1) by (simp add: redeem_tx_eq) (simp add: used_up_def)
  have "code_of ?w c = code_of (used_up c u w) c" by (rule fun_cong [OF code_of_cong]) (simp add: write_user_def)
  then obtain rd' where rd': "code_of ?w c = Some rd'" using assms(1) by (simp add: code_of_used_up)
  show ?thesis
    using assms st g tx rd' by (simp add: Redeem_def redeemLocked_def perform_bind perform_try_bind)
qed

text \<open>A new code is created and then redeemed.\<close>

lemma done_CreateCode:
  assumes "rechargeable w y" and "code_of w (po_RechargeCode y) = None"
  shows "done_by (CreateCode (order_code y)) w = (Inr (), w\<lparr>pw_Codes := pw_Codes w @ [order_code y]\<rparr>)"
  using assms
  by (simp add: CreateCode_def order_code_def Let_def rechargeable_def perform_bind done_ask writes_def succeeds_def IsExpiredAt_def
      StatusUnused_def StatusExpired_def)

lemma world_fields [simp]:
  "order_of (put_audit i a p w) = order_of w" "user_of (put_audit i a p w) = user_of w" "pw_Credits (put_audit i a p w) = pw_Credits w"
  "pw_Now (put_audit i a p w) = pw_Now w" "code_of (put_audit i a p w) = code_of w"
  "user_of (write_order f i w) = user_of w" "pw_Credits (write_order f i w) = pw_Credits w" "pw_Now (write_order f i w) = pw_Now w"
  "code_of (write_order f i w) = code_of w" "audited (write_order f i w) = audited w"
  "pw_Refunds (put_audit i a p w) = pw_Refunds w" "pw_Refunds (write_order f i w) = pw_Refunds w"
  "pw_Instances (write_order f i w) = pw_Instances w"
  by (simp_all add: order_of_def user_of_def code_of_def audited_def put_audit_def write_order_def fun_eq_iff)

lemma user_fields [simp]:
  "order_of (write_user g u w) = order_of w" "audited (write_user g u w) = audited w" "pw_Now (write_user g u w) = pw_Now w"
  "pw_Refunds (write_user g u w) = pw_Refunds w" "pw_Instances (write_user g u w) = pw_Instances w"
  by (simp_all add: order_of_def audited_def write_user_def fun_eq_iff)

definition recharged_order :: "int \<Rightarrow> pay_order \<Rightarrow> pay_order" where
  "recharged_order t z = z\<lparr>po_Status := COMPLETED, po_CompletedAt := Some t, po_UpdatedAt := t\<rparr>"

lemma done_markCompleted:
  assumes "order_of w (po_ID y) = Some z" and "po_Status z = RECHARGING"
  shows "\<exists>w'. done_by (markCompleted y a) w = (Inr (), w') \<and> order_of w' (po_ID y) = Some (recharged_order (pw_Now w) z) \<and>
    user_of w' = user_of w \<and> pw_Credits w' = pw_Credits w"
  using assms
  by (auto simp: markCompleted_def perform_bind in_status_def order_of_write recharged_order_def)

lemma done_doBalance:
  assumes ready: "rechargeable w y" and rebate: "rebate_settled env w y"
    and z: "order_of w (po_ID y) = Some z" "po_Status z = RECHARGING"
  shows "\<exists>w'. done_by (doBalance env y) w = (Inr (), w') \<and> order_of w' (po_ID y) = Some (recharged_order (pw_Now w) z) \<and> recharged w y w'"
proof -
  let ?c = "po_RechargeCode y" and ?u = "po_UserID y"
  obtain x where x: "user_of w ?u = Some x" using ready by (auto simp: rechargeable_def)
  show ?thesis
  proof (cases "redeemed w ?c")
    case True
    then obtain rd where rd: "code_of w ?c = Some rd" "rd_Status rd = StatusUsed" by (auto simp: redeemed_def split: option.splits)
    obtain w' where "done_by (markCompleted y ''RECHARGE_SUCCESS'') w = (Inr (), w')"
        "order_of w' (po_ID y) = Some (recharged_order (pw_Now w) z)" "user_of w' = user_of w" "pw_Credits w' = pw_Credits w"
      using done_markCompleted [OF z] by blast
    then show ?thesis
      using True rd done_rebate [OF rebate]
      by (auto simp: doBalance_def resolveRedeemAction_def Let_def perform_bind perform_try_bind recharged_def option.map_id)
  next
    case False
    define w1 where "w1 = (if code_of w ?c = None then w\<lparr>pw_Codes := pw_Codes w @ [order_code y]\<rparr> else w)"
    have w1: "order_of w1 = order_of w" "user_of w1 = user_of w" "audited w1 = audited w" "pw_Now w1 = pw_Now w" "pw_Credits w1 = pw_Credits w"
      by (simp_all add: w1_def order_of_def user_of_def audited_def fun_eq_iff)
    obtain rd where rd: "code_of w1 ?c = Some rd" "rd_Type rd = ''balance''" "rd_Value rd = po_Amount y" "CanUse rd (pw_Now w1)"
    proof (cases "code_of w ?c")
      case None
      then have "code_of w1 ?c = Some (order_code y)" by (simp add: w1_def code_of_def find_append order_code_def)
      then show ?thesis using that [of "order_code y"]
        by (simp add: order_code_def CanUse_def IsExpiredAt_def StatusUnused_def StatusExpired_def)
    next
      case (Some r)
      then show ?thesis using that [of r] ready False by (auto simp: w1_def rechargeable_def redeemed_def)
    qed
    have amount: "0 < rd_Value rd" using rd(3) ready by (simp add: rechargeable_def)
    have x1: "user_of w1 ?u = Some x" using x w1(2) by simp
    obtain rd' where "done_by (Redeem env ?u ?c) w1 =
        (Inr rd', (write_user (UpdateBalance (rd_Value rd)) ?u (used_up ?c ?u w1))\<lparr>pw_Credits := pw_Credits w1 @ [(?c, ?u, rd_Value rd)]\<rparr>)"
      using done_Redeem [OF rd(1,2) amount rd(4) x1] by blast
    then obtain w2 where w2: "done_by (Redeem env ?u ?c) w1 = (Inr rd', w2)"
        "w2 = (write_user (UpdateBalance (po_Amount y)) ?u (used_up ?c ?u w1))\<lparr>pw_Credits := pw_Credits w @ [(?c, ?u, po_Amount y)]\<rparr>"
      using rd(3) w1(5) by auto
    have of2: "order_of w2 = order_of w" "audited w2 = audited w" "pw_Now w2 = pw_Now w"
      using w1 by (auto simp: w2(2) order_of_def audited_def write_user_def used_up_def fun_eq_iff)
    have "user_of w2 ?u = user_of (write_user (UpdateBalance (po_Amount y)) ?u (used_up ?c ?u w1)) ?u"
      by (simp add: w2(2) user_of_def)
    also have "\<dots> = Some (UpdateBalance (po_Amount y) x)"
    proof -
      have "user_of (used_up ?c ?u w1) = user_of w1" by (simp add: user_of_def used_up_def fun_eq_iff)
      then show ?thesis using x1 by (simp add: user_of_write)
    qed
    finally have user: "user_of w2 ?u = Some (UpdateBalance (po_Amount y) x)" .
    have settled: "rebate_settled env w2 y" using rebate of2(2) by (simp add: rebate_settled_def)
    obtain w' where w': "done_by (markCompleted y ''RECHARGE_SUCCESS'') w2 = (Inr (), w')"
        "order_of w' (po_ID y) = Some (recharged_order (pw_Now w2) z)" "user_of w' = user_of w2" "pw_Credits w' = pw_Credits w2"
      using done_markCompleted [of w2 y z] z of2(1) by auto
    have "done_by (doBalance env y) w = (Inr (), w')"
    proof (cases "code_of w ?c")
      case None
      then show ?thesis using done_CreateCode [OF ready None] w2(1) w'(1) done_rebate [OF settled]
        by (simp add: doBalance_def resolveRedeemAction_def Let_def perform_bind perform_try_bind w1_def)
    next
      case (Some r)
      then have "rd_Status r \<noteq> StatusUsed" using False by (simp add: redeemed_def)
      then show ?thesis using Some w2(1) w'(1) done_rebate [OF settled]
        by (simp add: doBalance_def resolveRedeemAction_def Let_def perform_bind perform_try_bind w1_def)
    qed
    then show ?thesis using w' user x of2 False by (simp add: recharged_def w2(2))
  qed
qed

text \<open>An update of the order leaves the rest as it is.\<close>

lemma rechargeable_update:
  assumes "same_ident y z"
  shows "rechargeable (write_order f i w) z = rechargeable w y" "rebate_settled env (write_order f i w) z = rebate_settled env w y"
    "recharged (write_order f i w) z w' = recharged w y w'"
  using assms
  by (simp_all add: rechargeable_def rebate_settled_def recharged_def same_ident_def redeemed_def cong: option.case_cong)

lemma rechargeable_audit:
  assumes "a \<noteq> ''AFFILIATE_REBATE_APPLIED''" and "a \<noteq> ''AFFILIATE_REBATE_SKIPPED''"
  shows "rechargeable (put_audit i a p w) z = rechargeable w z" "rebate_settled env (put_audit i a p w) z = rebate_settled env w z"
    "recharged (put_audit i a p w) z w' = recharged w z w'"
  using assms
  by (simp_all add: rechargeable_def rebate_settled_def recharged_def redeemed_def cong: option.case_cong)
    (simp add: audited_def put_audit_def)

lemma done_fulfillment:
  assumes y: "order_of w i = Some y" and st: "po_Status y = PAID \<or> po_Status y = FAILED" and type: "po_OrderType y \<noteq> ''subscription''"
    and ready: "rechargeable w y" and rebate: "rebate_settled env w y"
  shows "\<exists>w'. done_by (executeFulfillment env i) w = (Inr (), w') \<and> order_of w' i = Some (recharged_order (pw_Now w) y) \<and> recharged w y w'"
proof -
  let ?f = "\<lambda>z. z\<lparr>po_Status := RECHARGING\<rparr>"
  let ?w = "write_order ?f i w" and ?z = "y\<lparr>po_Status := RECHARGING, po_UpdatedAt := pw_Now w\<rparr>"
  have i: "po_ID y = i" using order_of_SomeD [OF y] by simp
  have z: "order_of ?w (po_ID y) = Some ?z" using y i by (simp add: order_of_write)
  obtain w' where w': "done_by (doBalance env y) ?w = (Inr (), w')" "order_of w' (po_ID y) = Some (recharged_order (pw_Now w) ?z)"
      "recharged ?w y w'"
    using done_doBalance [of ?w y env ?z] ready rebate z rechargeable_update [of y y] by auto
  have "fulfillment_refused y = None" using st by (auto simp: fulfillment_refused_def psIsRefundStatus_def)
  then have "done_by (executeFulfillment env i) w = (Inr (), w')"
    using y type w'(1) st
    by (auto simp: executeFulfillment_def ExecuteBalanceFulfillment_def recharging_def perform_bind in_status_def)
  moreover have "recharged_order (pw_Now w) ?z = recharged_order (pw_Now w) y" by (simp add: recharged_order_def)
  ultimately show ?thesis using w'(2,3) i rechargeable_update(3) [of y y] by auto
qed


abbreviation plain_env :: pay_env where
  "plain_env \<equiv> small_env\<lparr>pe_affiliate := False\<rparr>"

abbreviation failed_world :: pay_world where
  "failed_world \<equiv> pending_world\<lparr>pw_Orders := [(small_order FAILED)\<lparr>po_PaidAt := Some 30\<rparr>]\<rparr>"

lemma small_rechargeable: "rechargeable failed_world ((small_order FAILED)\<lparr>po_PaidAt := Some 30\<rparr>)" "rechargeable pending_world (small_order PENDING)"
  by code_simp+


section \<open>A notification and its order\<close>

text \<open>Calls that only read.\<close>

definition reading :: "pay_call \<Rightarrow> bool" where
  "reading c \<longleftrightarrow> (case c of GetInstance i \<Rightarrow> True | InstancesWhere P \<Rightarrow> True | GetOrder i \<Rightarrow> True | TimeNow \<Rightarrow> True | _ \<Rightarrow> False)"

lemma reading_effect: "reading c \<Longrightarrow> fst (effect c x w) = w"
  by (cases c) (auto simp: reading_def)

lemma done_reading: "only reading p \<Longrightarrow> snd (done_by p w) = w"
  using run_only [where P = reading and p = p and R = "\<lambda>w w'. w' = w" and eff = effect and err = RErr and risky = "\<lambda>c. Reliable"
      and sc = "[]" and w = w] reading_effect by (simp add: run_answered)

lemma reading_calls [simp]: "only reading (getInstance i)" "only reading (instancesWhere P)"
  by (simp_all add: getInstance_def instancesWhere_def ask_def reading_def)

lemma reading_resolvers [simp]:
  "only reading (resolveUniqueLegacyOrderProviderInstance y)" "only reading (resolveSnapshotOrderProviderInstance y s)"
  by (auto simp: resolveUniqueLegacyOrderProviderInstance_def resolveSnapshotOrderProviderInstance_def Let_def
      intro!: only_try_bind split: option.split)

lemma reading_instance: "only reading (getOrderProviderInstance y)"
  by (auto simp: getOrderProviderInstance_def Let_def intro!: only_try_bind split: option.split)

text \<open>The key of the provider an order expects its notification from.\<close>

definition provider_key :: "pay_env \<Rightarrow> pay_world \<Rightarrow> pay_order \<Rightarrow> string" where
  "provider_key env w y = expectedNotificationProviderKeyForOrder env y
     (case fst (done_by (getOrderProviderInstance y) w) of Inr (Some inst) \<Rightarrow> pi_ProviderKey inst | _ \<Rightarrow> [])"

definition fits_provider :: "string \<Rightarrow> string \<Rightarrow> bool" where
  "fits_provider expected pk \<longleftrightarrow> expected = [] \<or> trim_space pk = [] \<or> equal_fold expected (trim_space pk)"

definition fits_amount :: "pay_lib \<Rightarrow> pay_order \<Rightarrow> float64 \<Rightarrow> bool" where
  "fits_amount L y a \<longleftrightarrow> 0 < a \<and> \<bar>pl_fl L (a - po_PayAmount y)\<bar> \<le> paymentAmountToleranceForCurrency L (PaymentOrderCurrency y)"

lemma done_confirm:
  assumes "order_of w i = Some y" and "fits_provider (provider_key env w y) pk"
    and "validateProviderSnapshotMetadata y pk metadata" and "fits_amount (pe_lib env) y a"
  shows "done_by (confirmPayment env i tradeNo (Fin a) pk metadata) w = done_by (toPaid env y tradeNo a pk) w"
proof -
  obtain r where "done_by (getOrderProviderInstance y) w = (r, w)"
    using done_reading [OF reading_instance, of y w] by (cases "done_by (getOrderProviderInstance y) w") auto
  then show ?thesis
    using assms by (auto simp: confirmPayment_def perform_bind provider_key_def fits_provider_def fits_amount_def Let_def)
qed

lemma done_audit:
  assumes "a \<noteq> ''AFFILIATE_REBATE_APPLIED''" and "a \<noteq> ''AFFILIATE_REBATE_SKIPPED''"
  shows "\<exists>w'. done_by (writeAuditLog i a p) w = ((), w') \<and> order_of w' = order_of w \<and> pw_Now w' = pw_Now w \<and>
    rechargeable w' z = rechargeable w z \<and> rebate_settled env w' z = rebate_settled env w z \<and> recharged w' z = recharged w z"
  using rechargeable_audit [OF assms] by (cases "audited w i a") (simp_all add: fun_eq_iff)

definition paid_order :: "int \<Rightarrow> float64 \<Rightarrow> string \<Rightarrow> pay_order \<Rightarrow> pay_order" where
  "paid_order t a tradeNo y = y\<lparr>po_Status := PAID, po_PayAmount := round_away 2 a, po_PaymentTradeNo := tradeNo, po_PaidAt := Some t,
     po_FailedAt := None, po_FailedReason := None, po_UpdatedAt := t\<rparr>"

lemma done_toPaid:
  assumes y: "order_of w (po_ID y) = Some y" and may: "may_become_paid (pw_Now w - paymentGrace) y"
    and type: "po_OrderType y \<noteq> ''subscription''" and ready: "rechargeable w y" and rebate: "rebate_settled env w y"
  shows "\<exists>w'. done_by (toPaid env y tradeNo a pk) w = (Inr (), w') \<and> recharged w y w' \<and>
    order_of w' (po_ID y) = Some (recharged_order (pw_Now w) (paid_order (pw_Now w) a tradeNo y))"
proof -
  define z where "z = paid_order (pw_Now w) a tradeNo y"
  let ?f = "\<lambda>z. z\<lparr>po_Status := PAID, po_PayAmount := round_away 2 a, po_PaymentTradeNo := tradeNo, po_PaidAt := Some (pw_Now w),
    po_FailedAt := None, po_FailedReason := None\<rparr>"
  define w1 where "w1 = write_order ?f (po_ID y) w"
  have id: "same_ident y z" by (simp add: z_def paid_order_def same_ident_def)
  have w1: "order_of w1 (po_ID y) = Some z" "pw_Now w1 = pw_Now w" "rechargeable w1 z" "rebate_settled env w1 z"
      "recharged w1 z v = recharged w y v" for v
    using y ready rebate rechargeable_update [OF id] by (simp_all add: w1_def order_of_write z_def paid_order_def)
  have r1: "recharged w1 z = recharged w y" using w1(5) by (simp add: fun_eq_iff)
  have "\<exists>w2. done_by (if po_Status y = CANCELLED \<or> po_Status y = EXPIRED then writeAuditLog (po_ID y) ''ORDER_RECOVERED'' pk
        else Done ()) w1 = ((), w2) \<and> order_of w2 = order_of w1 \<and> pw_Now w2 = pw_Now w1 \<and>
      rechargeable w2 z = rechargeable w1 z \<and> rebate_settled env w2 z = rebate_settled env w1 z \<and> recharged w2 z = recharged w1 z"
    using done_audit [of "''ORDER_RECOVERED''" "po_ID y" pk w1 z env] by simp
  then obtain w2 where w2: "done_by (if po_Status y = CANCELLED \<or> po_Status y = EXPIRED then writeAuditLog (po_ID y) ''ORDER_RECOVERED'' pk
        else Done ()) w1 = ((), w2)" "order_of w2 = order_of w1" "pw_Now w2 = pw_Now w1"
      "rechargeable w2 z = rechargeable w1 z" "rebate_settled env w2 z = rebate_settled env w1 z" "recharged w2 z = recharged w1 z"
    by blast
  have "\<exists>w3. done_by (writeAuditLog (po_ID y) ''ORDER_PAID'' pk) w2 = ((), w3) \<and> order_of w3 = order_of w2 \<and> pw_Now w3 = pw_Now w2 \<and>
      rechargeable w3 z = rechargeable w2 z \<and> rebate_settled env w3 z = rebate_settled env w2 z \<and> recharged w3 z = recharged w2 z"
    using done_audit [of "''ORDER_PAID''" "po_ID y" pk w2 z env] by simp
  then obtain w3 where w3: "done_by (writeAuditLog (po_ID y) ''ORDER_PAID'' pk) w2 = ((), w3)" "order_of w3 = order_of w2"
      "pw_Now w3 = pw_Now w" "rechargeable w3 z" "rebate_settled env w3 z" "recharged w3 z = recharged w y"
    using w1 w2 r1 by auto
  have "order_of w3 (po_ID y) = Some z" using w3(2) w2(2) w1(1) by simp
  then obtain w' where w': "done_by (executeFulfillment env (po_ID y)) w3 = (Inr (), w')"
      "order_of w' (po_ID y) = Some (recharged_order (pw_Now w) z)" "recharged w y w'"
    using done_fulfillment [of w3 "po_ID y" z env] w3 w2(3) w1(2) type by (auto simp: z_def paid_order_def)
  have "done_by (toPaid env y tradeNo a pk) w = (Inr (), w')"
    using y may w2(1) w3(1) w'(1) by (simp add: toPaid_def perform_bind w1_def)
  then show ?thesis using w' by (auto simp: z_def)
qed


abbreviation small_notification :: payment_notification where
  "small_notification \<equiv> \<lparr>pn_TradeNo = ''pi_1'', pn_OrderID = ''sub2_1'', pn_Amount = Fin 10, pn_Status = ''success'', pn_Metadata = []\<rparr>"


text \<open>What \<open>confirmPayment\<close> does when it refuses: it writes to the audit table.\<close>

definition auditing :: "pay_call \<Rightarrow> bool" where
  "auditing c \<longleftrightarrow> reading c \<or> (case c of CreateAudit i a p \<Rightarrow> True | OrderByOutTradeNo s \<Rightarrow> True | _ \<Rightarrow> False)"

definition same_but_audits :: "pay_world \<Rightarrow> pay_world \<Rightarrow> bool" where
  "same_but_audits w w' \<longleftrightarrow> w' = w\<lparr>pw_Audits := pw_Audits w'\<rparr>"

lemma auditing_effect: "auditing c \<Longrightarrow> same_but_audits w (fst (effect c x w))"
  using reading_effect [of c x w] by (cases c) (auto simp: auditing_def reading_def same_but_audits_def put_audit_def)

lemma same_but_audits_trans: "same_but_audits u v \<Longrightarrow> same_but_audits v w \<Longrightarrow> same_but_audits u w"
  by (cases u; cases v; cases w) (simp add: same_but_audits_def)

lemma only_mono: "only P p \<Longrightarrow> (\<And>c. P c \<Longrightarrow> Q c) \<Longrightarrow> only Q p"
  by (induction p) auto

lemma run_auditing: "only auditing p \<Longrightarrow> same_but_audits w (snd (snd (run effect RErr pay_risk p sc w)))"
  by (rule run_only [where P = auditing and R = same_but_audits], assumption, erule auditing_effect, simp add: same_but_audits_def,
      erule (1) same_but_audits_trans)

text \<open>The order a notification is checked against.\<close>

definition misfit :: "pay_env \<Rightarrow> pay_order \<Rightarrow> string \<Rightarrow> gofloat \<Rightarrow> (string \<times> string) list \<Rightarrow> bool" where
  "misfit env y pk paid metadata \<longleftrightarrow> \<not> validateProviderSnapshotMetadata y pk metadata \<or>
     (\<forall>a. paid = Fin a \<longrightarrow> \<not> fits_amount (pe_lib env) y a)"

lemma misfit_refused:
  assumes "misfit env y pk paid metadata"
  shows "only auditing (bind (getOrderProviderInstance y) (\<lambda>r.
         let instanceProviderKey = (case r of Inr (Some inst) \<Rightarrow> pi_ProviderKey inst | _ \<Rightarrow> []);
             expectedProviderKey = expectedNotificationProviderKeyForOrder env y instanceProviderKey
         in if expectedProviderKey \<noteq> [] \<and> trim_space pk \<noteq> [] \<and> \<not> equal_fold expectedProviderKey (trim_space pk) then
              refuse y ''PAYMENT_PROVIDER_MISMATCH'' pk (Plain ''provider mismatch'')
            else if \<not> validateProviderSnapshotMetadata y pk metadata then
              refuse y ''PAYMENT_PROVIDER_METADATA_MISMATCH'' pk (Plain ''metadata mismatch'')
            else if \<not> isValidProviderAmount paid then
              refuse y ''PAYMENT_INVALID_AMOUNT'' pk (Plain ''invalid paid amount from provider'')
            else (case paid of
                    Fin amount \<Rightarrow>
                      if \<bar>pl_fl (pe_lib env) (amount - po_PayAmount y)\<bar>
                           > paymentAmountToleranceForCurrency (pe_lib env) (PaymentOrderCurrency y)
                      then refuse y ''PAYMENT_AMOUNT_MISMATCH'' pk (Plain ''amount mismatch'')
                      else toPaid env y tradeNo amount pk
                  | _ \<Rightarrow> Done (Inl (Plain ''invalid paid amount from provider'')))))"
proof -
  have refuse: "only auditing (refuse y a pk e)" for a e
    by (auto simp: refuse_def writeAuditLog_def ask_def auditing_def intro!: only_bind)
  have "only auditing (getOrderProviderInstance y)" by (rule only_mono [OF reading_instance]) (simp add: auditing_def)
  then show ?thesis
    using assms by (auto simp: Let_def misfit_def fits_amount_def not_le not_less intro!: only_bind refuse split: gofloat.split)
qed

text \<open>C15. A notification whose metadata or amount does not fit its order changes nothing but the audit table, whatever calls
  fail or replies are lost.\<close>

theorem misfit_changes_nothing:
  assumes "order_of w i = Some y" and "misfit env y pk paid metadata"
  shows "same_but_audits w (snd (snd (run effect RErr pay_risk (confirmPayment env i tradeNo paid pk metadata) sc w)))"
proof -
  have g: "getOrder i = Call (GetOrder i) (\<lambda>r. Done (case r of ROrder y \<Rightarrow> Some y | _ \<Rightarrow> None))" by (simp add: getOrder_def ask_def)
  note refused = run_auditing [OF misfit_refused [OF assms(2), of tradeNo]]
  show ?thesis
  proof (cases sc)
    case Nil
    then show ?thesis unfolding confirmPayment_def g using refused assms(1) by (simp add: found_def)
  next
    case (Cons e xs)
    then show ?thesis unfolding confirmPayment_def g using refused assms(1)
      by (cases e) (simp_all add: found_def same_but_audits_def)
  qed
qed

theorem misfit_changes_nothing_witness:
  "same_but_audits pending_world (snd (snd (run effect RErr pay_risk
     (confirmPayment plain_env 1 ''pi_1'' (Fin 9) ''stripe'' []) [Answer RErr, Fails, Lost RErr] pending_world)))"
proof -
  have y: "order_of pending_world 1 = Some (small_order PENDING)" by (simp add: order_of_def small_world_def small_order_def)
  have "\<not> fits_amount (pe_lib plain_env) (small_order PENDING) 9" by code_simp
  then have "misfit plain_env (small_order PENDING) ''stripe'' (Fin 9) []" by (simp add: misfit_def)
  from misfit_changes_nothing [OF y this] show ?thesis .
qed

section \<open>An order that is being recharged\<close>

text \<open>C16. An order whose fulfillment died between taking it and completing it, or lost the reply to taking it, stays as it
  is: neither a retry nor another notification gets any further, whatever happens to their calls.\<close>

theorem recharging_is_stuck:
  assumes "order_of w i = Some y" and "po_Status y = RECHARGING"
  shows "(\<exists>e sc'. run effect RErr pay_risk (RetryFulfillment env i) sc w = (Inl e, sc', w)) \<and>
    (\<exists>r sc'. run effect RErr pay_risk (toPaid env y tradeNo a pk) sc w = (r, sc', w))"
proof -
  have i: "order_of w (po_ID y) = Some y" using assms(1) order_of_SomeD [OF assms(1)] by simp
  have "\<exists>e sc'. run effect RErr pay_risk (RetryFulfillment env i) sc w = (Inl e, sc', w)"
    unfolding RetryFulfillment_def getOrder_def ask_def
    by (cases sc; cases "hd sc") (use assms in \<open>auto simp: found_def psIsRefundStatus_def\<close>)
  moreover have "\<exists>r sc'. run effect RErr pay_risk (alreadyProcessed env y) sc w = (r, sc', w)" for sc
    unfolding alreadyProcessed_def getOrder_def ask_def
    by (cases sc; cases "hd sc") (use assms i in \<open>auto simp: found_def\<close>)
  then have "\<exists>r sc'. run effect RErr pay_risk (toPaid env y tradeNo a pk) sc w = (r, sc', w)"
    unfolding toPaid_def timeNow_def updateOrders_def ask_def
    by (cases sc; cases "hd sc") (use assms(2) i in \<open>auto simp: pay_risk_def may_become_paid_def\<close>)
  ultimately show ?thesis by blast
qed

abbreviation stranded_world :: pay_world where
  "stranded_world \<equiv> alone (request small_env paid_request) (replicate 7 (Answer RErr) @ [Lost RErr]) pending_world"

theorem recharging_is_stuck_witness:
  "summary stranded_world = ([(1, RECHARGING, ''balance'', ''PAY-1'', 10)], [], [], [], [(20, 20)]) \<and>
   (\<exists>e sc'. run effect RErr pay_risk (RetryFulfillment small_env 1) [] stranded_world = (Inl e, sc', stranded_world))"
proof -
  have s: "summary stranded_world = ([(1, RECHARGING, ''balance'', ''PAY-1'', 10)], [], [], [], [(20, 20)])" by code_simp
  obtain y where "order_of stranded_world 1 = Some y" "po_Status y = RECHARGING" using summary_order [OF s] .
  from recharging_is_stuck [OF this, of small_env "[]"] s show ?thesis by blast
qed

section \<open>A refund the provider refuses\<close>

abbreviation refused_script :: "string \<Rightarrow> (string \<times> string) list \<Rightarrow> string option \<Rightarrow> pay_reply outcome list" where
  "refused_script k metadata status \<equiv> replicate 7 (Answer RErr) @ [Answer (RText k), Answer (RMeta metadata), Answer (RRefund status)]"

text \<open>An order whose provider instance is known and lets it be refunded.\<close>

definition refundable :: "pay_world \<Rightarrow> pay_order \<Rightarrow> bool" where
  "refundable w y \<longleftrightarrow> po_Status y = COMPLETED \<and> po_OrderType y \<noteq> ''subscription'' \<and> po_PaymentTradeNo y \<noteq> [] \<and> po_ProviderSnapshot y = [] \<and>
     \<not> audited w (po_ID y) ''REFUND_ROLLBACK_FAILED'' \<and>
     (case parse_int64 (trim_space (psStringValue (po_ProviderInstanceID y))) of
        None \<Rightarrow> False
      | Some k \<Rightarrow> \<exists>inst. find (\<lambda>p. pi_ID p = k) (pw_Instances w) = Some inst \<and> pi_RefundEnabled inst)"

lemma run_Call_answer: "risky c \<noteq> Reliable \<Longrightarrow>
    run eff err risky (Call c k) (Answer x # xs) w = (case eff c x w of (w', r) \<Rightarrow> run eff err risky (k r) xs w')"
  by (simp add: Let_def)

lemma refund_instance:
  assumes "refundable w y"
  obtains inst where "run effect RErr pay_risk (getRefundOrderProviderInstance y) (Answer RErr # xs) w = (Inr (Some inst), xs, w)"
    and "pi_RefundEnabled inst"
proof -
  have "trim_space (psStringValue (po_ProviderInstanceID y)) \<noteq> []"
    using assms by (auto simp: refundable_def parse_int64_def Let_def)
  then show ?thesis using assms that
    by (auto simp: refundable_def getRefundOrderProviderInstance_def psOrderProviderSnapshot_def Let_def try_bind_def getInstance_def ask_def
        pay_risk_def found_def split: option.splits)
qed

lemma run_ask_answer: "risky = pay_risk \<Longrightarrow> pay_risk c \<noteq> Reliable \<Longrightarrow>
    run effect RErr risky (ask c f) (Answer x # xs) w = (case effect c x w of (w', r) \<Rightarrow> (f r, xs, w'))"
  by (simp add: ask_def Let_def split: prod.split)

lemma run_prepared:
  assumes y: "order_of w i = Some y" and can: "refundable w y" and x: "user_of w (po_UserID y) = Some x"
    and a: "0 < a" "pl_fl (pe_lib env) (a - po_Amount y) \<le> paymentAmountToleranceForCurrency (pe_lib env) (PaymentOrderCurrency y)"
  shows "\<exists>p. run effect RErr pay_risk (PrepareRefund env i (Fin a) reason force True) (Answer RErr # Answer RErr # Answer RErr # xs) w =
      (Inr (Inr p), xs, w) \<and>
    rp_OrderID p = i \<and> rp_Order p = y \<and> rp_DeductionType p = DeductionTypeBalance \<and> rp_BalanceToDeduct p = min a (ur_Balance x)"
proof -
  obtain inst where "run effect RErr pay_risk (getRefundOrderProviderInstance y) (Answer RErr # Answer RErr # xs) w = (Inr (Some inst), Answer RErr # xs, w)"
      "pi_RefundEnabled inst"
    using refund_instance [OF can] .
  moreover have "in_status [COMPLETED, REFUND_REQUESTED, REFUND_FAILED] y" "po_OrderType y \<noteq> ''subscription''"
    using can by (simp_all add: refundable_def in_status_def)
  ultimately show ?thesis
    using y x a
    by (simp add: PrepareRefund_def run_bind getOrder_def run_ask_answer pay_risk_def found_def Let_def prepDeduct_def getUser_def not_le not_less)
qed

lemma run_refused:
  assumes can: "refundable w y" and p: "rp_Order p = y" and bad: "\<not> accepted_refund status"
  shows "\<exists>e. run effect RErr pay_risk (gwRefund env p) (Answer RErr # Answer (RText k) # Answer (RMeta m) # Answer (RRefund status) # xs) w =
    (Some e, xs, w)"
proof -
  obtain inst where i: "run effect RErr pay_risk (getRefundOrderProviderInstance y)
      (Answer RErr # Answer (RText k) # Answer (RMeta m) # Answer (RRefund status) # xs) w =
      (Inr (Some inst), Answer (RText k) # Answer (RMeta m) # Answer (RRefund status) # xs, w)"
    using refund_instance [OF can] .
  have "validateProviderSnapshotMetadata y k m" "po_PaymentTradeNo y \<noteq> []"
    using can by (auto simp: refundable_def validateProviderSnapshotMetadata_def psOrderProviderSnapshot_def)
  moreover have "\<not> validateRefundProviderResponse status"
    using bad by (auto simp: accepted_refund_def validateRefundProviderResponse_def Let_def split: option.splits)
  ultimately show ?thesis
    using i p bad
    by (simp add: gwRefund_def Let_def run_bind getRefundProvider_def try_bind_def makeProvider_def run_ask_answer pay_risk_def)
qed



end
