(* ===== verification/PayFlaws.thy ===== *)
theory PayFlaws
  imports Payments Schedules
begin

text \<open>
  What the payment service does that no one can want: each theorem is a way the system runs, from a small
  world, in which calls fail, replies are lost, or two requests take turns.
\<close>

abbreviation turns :: "(nat \<times> pay_reply outcome) list \<Rightarrow> pay_request list \<Rightarrow> pay_world \<Rightarrow> pay_world" where
  "turns es qs w \<equiv> snd (take_turns effect RErr pay_risk es (map (request small_env) qs) w)"

lemma turns_reached:
  assumes "list_all (\<lambda>(i, z). i < length qs) es"
  shows "\<exists>ts. payment_system small_env w0 (ts, turns es qs w0)"
proof -
  have "payment_system small_env w0 (threads_of (map (request small_env) qs), w0)" by (rule all_arrive) auto
  from turns_reachable [OF this, of es] show ?thesis using assms by auto
qed

lemma turns_show:
  assumes "list_all (\<lambda>(i, z). i < length qs) es" and "f (turns es qs w0) = v"
  shows "\<exists>ts w. payment_system small_env w0 (ts, w) \<and> f w = v"
  using turns_reached [OF assms(1)] assms(2) by blast

section \<open>Subscriptions\<close>

text \<open>Orders of 30 days for a subscription that ends in five days.\<close>

definition sub_order :: "int \<Rightarrow> order_status \<Rightarrow> pay_order" where
  "sub_order i s = (small_order s)\<lparr>po_ID := i, po_RechargeCode := ''SUB-'' @ itoa i, po_OutTradeNo := ''sub2_s'' @ itoa i,
     po_OrderType := ''subscription'', po_SubscriptionGroupID := Some 3, po_SubscriptionDays := Some 30, po_PaidAt := Some 10\<rparr>"

definition old_sub :: user_sub where
  "old_sub = \<lparr>us_ID = 1, us_UserID = 7, us_GroupID = 3, us_StartsAt = 0, us_ExpiresAt = 5 * day, us_Status = ''active''\<rparr>"

definition sub_world :: "pay_order list \<Rightarrow> pay_world" where
  "sub_world ys = pending_world\<lparr>pw_Orders := ys, pw_Subs := [old_sub], pw_NextSub := 2,
     pw_Groups := [(3, \<lparr>sg_Status = ''active'', sg_IsSubscriptionType = True\<rparr>)]\<rparr>"

definition sub_summary :: "pay_world \<Rightarrow> (int \<times> order_status) list \<times> int list" where
  "sub_summary w = (map (\<lambda>y. (po_ID y, po_Status y)) (pw_Orders w), map (\<lambda>s. us_ExpiresAt s div day) (pw_Subs w))"

text \<open>
  The audit row that \<open>doSub\<close> looks for is written by \<open>markCompleted\<close> after its update: when the update fails, the order
  is marked as failed with its subscription extended, and the retry extends it again.
\<close>

theorem subscription_extended_twice:
  "\<exists>ts w. payment_system small_env (sub_world [sub_order 1 PAID]) (ts, w) \<and> sub_summary w = ([(1, COMPLETED)], [65])"
  by (rule turns_show [of "[RetryByAdmin 1, RetryByAdmin 1]"
        "replicate 14 (0, Answer RErr) @ [(0, Fails)] @ replicate 20 (0, Answer RErr) @ replicate 25 (1, Answer RErr)"]; code_simp)

text \<open>
  Two orders for the same subscription: each reads where it ends and writes an absolute date, so one of the two
  extensions is lost while both orders are completed.
\<close>

theorem concurrent_extension_lost:
  "\<exists>ts w. payment_system small_env (sub_world [sub_order 1 PAID, sub_order 2 PAID]) (ts, w) \<and>
     sub_summary w = ([(1, COMPLETED), (2, COMPLETED)], [35])"
  by (rule turns_show [of "[RetryByAdmin 1, RetryByAdmin 2]" "concat (replicate 25 [(0, Answer RErr), (1, Answer RErr)])"]; code_simp)

definition gift_code :: redeem_code where
  "gift_code = \<lparr>rd_Code = ''GIFT'', rd_Type = ''subscription'', rd_Value = 1, rd_Status = StatusUnused, rd_UsedBy = None,
     rd_UsedAt = None, rd_ExpiresAt = None, rd_GroupID = Some 3, rd_ValidityDays = 30\<rparr>"

text \<open>
  \<open>withSubscriptionUpdateTx\<close> opens a transaction of its own on the root client: when the commit of \<open>Redeem\<close> fails, the code
  is unused again while the subscription stays extended, and the code extends it a second time.
\<close>

theorem code_extends_twice:
  "\<exists>ts w. payment_system small_env ((sub_world [])\<lparr>pw_Codes := [gift_code]\<rparr>) (ts, w) \<and>
     (sub_summary w, map rd_Status (pw_Codes w)) = (([], [65]), [StatusUsed])"
  by (rule turns_show [of "[RedeemByUser 7 ''GIFT'', RedeemByUser 7 ''GIFT'']"
        "replicate 5 (0, Answer RErr) @ [(0, Answer (RBool False))] @ replicate 20 (0, Answer RErr) @ replicate 25 (1, Answer RErr)"]; code_simp)

section \<open>Refunds\<close>

abbreviation lost_refund_script :: "pay_reply outcome list" where
  "lost_refund_script \<equiv> replicate 7 (Answer RErr) @ [Answer (RText ''stripe''), Answer (RMeta []), Lost (RRefund (Some ''success''))]"

text \<open>
  When the provider has made the refund and its reply is lost, the deduction is undone and the order is completed as
  before; a second refund goes out under a request number of its own.
\<close>

theorem lost_reply_refunds_twice:
  "summary (alone (request small_env refund_request) (refund_script (Some ''success''))
     (alone (request small_env refund_request) lost_refund_script completed_world)) =
   ([(1, REFUNDED, ''balance'', ''PAY-1'', 10)], [(''PAY-1'', 7, 10)], [], [(1, 10), (1, 10)], [(10, 30)])"
  by code_simp

text \<open>
  When a refund is refused and the deduction cannot be undone the order is \<open>REFUND_FAILED\<close>; when a second attempt is
  refused too, \<open>restoreStatus\<close> makes the order completed, although the user's balance is still missing the amount.
\<close>

theorem failed_rollback_forgotten:
  "\<exists>ts w. payment_system small_env completed_world (ts, w) \<and>
     summary w = ([(1, COMPLETED, ''balance'', ''PAY-1'', 10)], [(''PAY-1'', 7, 10)], [], [], [(10, 20)])"
  by (rule turns_show [of "[refund_request, refund_request]"
        "map (Pair 0) (refund_script (Some ''failed'') @ [Fails] @ replicate 9 (Answer RErr)) @
         map (Pair 1) (refund_script (Some ''failed'') @ replicate 9 (Answer RErr))"]; code_simp)

section \<open>Currencies of three decimals\<close>

text \<open>An order of 1.235 dinars, as the column with two decimals keeps it.\<close>

definition dinar_order :: pay_order where
  "dinar_order = (small_order PENDING)\<lparr>po_Amount := round_away 2 (1235 / 1000), po_PayAmount := round_away 2 (1235 / 1000),
     po_ProviderSnapshot := [(''currency'', SnapText ''KWD''), (''provider_instance_id'', SnapText ''5'')]\<rparr>"

definition dinar_summary :: "pay_world \<Rightarrow> order_status list \<times> string list" where
  "dinar_summary w = (map po_Status (pw_Orders w), map al_Action (pw_Audits w))"

text \<open>The notification of exactly that amount is refused: half a cent is more than the tolerance of the currency.\<close>

theorem three_decimal_payment_refused:
  "dinar_summary (alone (request small_env (Notified \<lparr>pn_TradeNo = ''pi_1'', pn_OrderID = ''sub2_1'', pn_Amount = Fin (1235 / 1000),
       pn_Status = ''success'', pn_Metadata = []\<rparr> ''stripe'')) [] (pending_world\<lparr>pw_Orders := [dinar_order]\<rparr>)) =
     ([PENDING], [''PAYMENT_AMOUNT_MISMATCH''])"
  by code_simp

end
