(* ===== verification/Spec2Isabelle.thy ===== *)
theory Spec2Isabelle
  imports ResponsesAnthropic AnthropicResponses ResponsesChat ChatResponses ChatRequestBridge Pipeline
    IdempotencyRace SystemLock RequestChain RequestSettings WaitSafety LoadCache PayFacts PayFlaws
begin

declare skip_val.simps [simp del] skip_elems.simps [simp del] skip_mems.simps [simp del]
declare compact_raw.simps(2) [simp del]

text \<open>
  A verification library for the \<open>sub2api\<close> gateway (\<open>backend/internal\<close>): its protocol conversion
  core, its idempotency and lock services, its concurrency limits, and its payments. The gateway accepts requests
  in one of three formats (Anthropic Messages, OpenAI Responses, OpenAI Chat Completions), limits how
  many requests of a user and of an upstream account run at a time, sends them to an upstream that
  speaks another format, and converts the answer back, as a whole or event by event.

  \<^bold>\<open>Theories and code\<close> (paths under \<open>backend/internal\<close>)
  \<^item> \<open>Prelude\<close>: lists, 64-bit wrap-around, \<open>run_stream\<close> (the caller's loop over a converter) and the
    interfaces of the converters as locales.
  \<^item> \<open>GoText\<close>, \<open>GoJson\<close>: what the code uses of Go's strings, \<open>unicode/utf8\<close>, \<open>strconv\<close>,
    \<open>encoding/hex\<close> and \<open>encoding/json\<close>, at the level of bytes; \<open>JsonEnds\<close>, \<open>Utf8\<close>, \<open>JsonScan\<close>,
    \<open>JsonPrint\<close>: how valid JSON ends, UTF-8 decoding, the scanner, and that what \<open>json.Marshal\<close> prints
    is read back as it was.
  \<^item> \<open>ApiTypes\<close>: the structs of \<open>pkg/apicompat/types.go\<close>, random identifiers and call ids; \<open>ApiJson\<close>:
    their JSON by struct tags and \<open>MarshalJSON\<close>.
  \<^item> \<open>ResponsesAnthropic\<close> (\<open>responses_to_anthropic.go\<close>), \<open>AnthropicResponses\<close>
    (\<open>anthropic_to_responses_response.go\<close>), \<open>ResponsesChat\<close> (\<open>responses_to_chatcompletions.go\<close>) and
    \<open>ChatContent\<close>, \<open>ChatResponses\<close>, \<open>ChatRequestBridge\<close> (\<open>chatcompletions_responses_bridge.go\<close>): the
    converters of answers of \<open>pkg/apicompat\<close>. A converter's Go state is a record, each handler a
    function that returns the new state and the events, under the name it has in the source.
  \<^item> \<open>ImageMedia\<close> (\<open>image_media_type.go\<close>), \<open>ToAnthropicRequest\<close> (\<open>responses_to_anthropic_request.go\<close>),
    \<open>ToResponsesRequest\<close> (\<open>anthropic_to_responses.go\<close>, \<open>chatcompletions_to_responses.go\<close>): the
    converters of requests; \<open>RequestChain\<close> and \<open>RequestSettings\<close>: their compositions.
  \<^item> \<open>Pipeline\<close>: the streaming loop of \<open>service/gateway_forward_as_chat_completions.go\<close>, which runs two
    converters in a row.
  \<^item> \<open>IdempotencyStore\<close> (\<open>repository/idempotency_repo.go\<close>: each SQL statement an operation on a
    table), \<open>Idempotency\<close> and \<open>IdempotencySafety\<close> (\<open>service/idempotency.go\<close>, one call at a time),
    \<open>IdempotencyRace\<close> (the same calls statement by statement, interleaved), \<open>SystemLock\<close>
    (\<open>service/system_operation_lock_service.go\<close>).
  \<^item> \<open>Redis\<close> (the commands the scripts call), \<open>ConcurrencyCache\<close> and \<open>ConcurrencySafety\<close>
    (\<open>repository/concurrency_cache.go\<close>), \<open>ConcurrencyService\<close> and \<open>LoadCache\<close>
    (\<open>service/concurrency_service.go\<close>), \<open>ConcurrencyWait\<close> and \<open>WaitSafety\<close>
    (\<open>handler/gateway_helper.go\<close>): slots, wait queues, the cache of account loads, and the wait of a
    request for its slot. A definition whose Go name occurs twice, in the service and in the cache,
    carries the prefix \<open>svc\<close> in the service.
  \<^item> \<open>Programs\<close>: requests as sequences of calls, one alone or any number taking turns, and a
    rely-guarantee calculus; \<open>Schedules\<close>: interleavings that can be evaluated. \<open>PayAmount\<close> (\<open>payment/currency.go\<close>, \<open>payment/fee.go\<close>,
    \<open>service/payment_amounts.go\<close>), \<open>PayWorld\<close> (\<open>ent/schema/payment_order.go\<close> and the repositories: what
    each statement and transaction does), \<open>PayProvider\<close> (\<open>service/payment_order_provider_snapshot.go\<close>),
    \<open>PaySubscription\<close> (\<open>service/subscription_service.go\<close>), \<open>PayFulfill\<close>
    (\<open>service/payment_fulfillment.go\<close>, \<open>service/redeem_service.go\<close>), \<open>PayLifecycle\<close>
    (\<open>service/payment_order_lifecycle.go\<close>), \<open>PayRefund\<close> (\<open>service/payment_refund.go\<close>): the payment
    service, each method a program under its own name. \<open>PayLedger\<close>, \<open>PaySafe\<close>, \<open>PayRequests\<close> and
    \<open>PaySafety\<close>: the invariant of its ledger and that every request keeps it; \<open>Payments\<close>: what follows;
    \<open>PayFacts\<close>: what single requests do; \<open>PayAmounts\<close>: prices, fees and refunds; \<open>PayFlaws\<close>: runs that go wrong.

  \<^bold>\<open>Interfaces.\<close> \<open>stream_sim\<close> and \<open>stream_session\<close> (a converter keeps to an output protocol),
  \<open>stream_content\<close> (a payload passes through unchanged) and \<open>stream_seq\<close> (consecutive sequence numbers)
  are interpreted on the converters. \<open>idempotency_contract\<close> is what the service relies on of its store;
  \<open>lease_contract\<close> extends it by lock renewal and purge; both are interpreted on the SQL table.
  \<open>redis_laws\<close> is what the Redis documentation promises of the commands, interpreted on a store of
  association lists; \<open>slot_cache\<close> is what the concurrency service relies on of its cache, and every
  store with \<open>redis_laws\<close> provides it through the operations of the repository, over a network that
  may lose calls and replies. \<open>rely_guarantee\<close> is what a set of requests must keep of an invariant and
  of each other's facts, interpreted on the requests of the payment service. The properties of the
  services are facts of these interfaces.

  \<^bold>\<open>What the lemmas show.\<close> For every stream converter: its output keeps to the protocol of its format
  when the input does, framing holds for every input, text passes through unchanged, sequence numbers
  have no gaps; streamed and buffered answers agree. For requests: tool calls and tool replies are
  paired, what is sent upstream is well formed and alternates between the roles, the repair refines an
  abstract one, settings survive the round trip. For the idempotency services: a key is executed once
  while its record lives, also by concurrent calls in every order of their statements, failed calls
  back off, a lease excludes. For the concurrency limits: the count is exact, the limit holds, a wait
  ends within bounds, leaves no slot behind and takes back its place in the queue, cached loads are
  recent and bounded. For the payments: in every interleaving of notifications, cancellations, expiry
  sweeps, verifications, retries, refunds and redemptions, with calls that fail, replies that are lost
  and requests that die, a recharge is credited once, a rebate accrues once, a provider accepts one
  refund, and an order moves along the edges of its state machine; a payment that fits its order completes
  it, one that does not changes nothing; a price covers its fee, a refund is within the payment. Theorems that end a text with a behaviour no one can want are kept beside them:
  they state flaws of the code.

  \<^bold>\<open>Conventions.\<close> Errors are values. The clocks and the reads of \<open>crypto/rand\<close> are arguments. Token
  counts wrap around at 64 bits where they are added; sequence numbers and indices, which count events
  of one stream, are unbounded integers. JSON numbers of type \<open>float64\<close> are rationals and are only
  passed on; the backoff of the wait rounds to 53 bits as \<open>float64\<close> does. The JSON scanner runs on
  fuel \<open>2 * length s + 2\<close>; \<open>JsonScan\<close> shows that this is always enough. A \<open>select\<close> is a list of events,
  each with its time, of which the loop receives those whose timer has fired; what other requests do
  meanwhile is a function in the event. Whole durations replace the \<open>float64\<close> seconds of
  \<open>Duration.Seconds\<close>. In the payments a statement or a transaction of the database is one call, the
  replies of providers, Redis and the affiliate rule are supplied from outside, amounts are the
  rationals their \<open>float64\<close> stands for, rounded by the columns that store them, and a day has 24
  hours. The creation of an order is one step of the world (\<open>rest_moves\<close>).

  \<^bold>\<open>Not modelled.\<close> HTTP, SSE lines, logging, metrics; the redaction of secrets and SHA-256
  (parameters); generated code (\<open>ent\<close>); SQL failures, which the interface lets happen but the table
  does not show; the sharing of one call's result by \<open>singleflight\<close>; the detection of Claude Code
  clients in \<open>handler/gateway_helper.go\<close>; the other services of the gateway (accounts, billing,
  scheduling, settings). Of the payments: \<open>CreateOrder\<close> and its limits, the clients of the providers,
  e-mails, notes, usage windows, caches, statistics, the affiliate rule, and the rebate of a code that
  belongs to no order.
\<close>

section \<open>Round trips between the formats\<close>

lemma wrap_sum3:
  "0 \<le> a \<Longrightarrow> 0 \<le> b \<Longrightarrow> 0 \<le> c \<Longrightarrow> a + b + c < 2 ^ 63 \<Longrightarrow> add64 (add64 a b) c = a + b + (c::int)"
  by (simp add: add64_id int64_range_def)

text \<open>
  Anthropic usage survives the way through the Responses format: output tokens and cache reads
  come back unchanged, and the tokens written to the cache come back as plain input tokens, as long
  as the counts are not negative and their sum fits an \<open>int\<close>.
\<close>

theorem anthropic_usage_roundtrip:
  assumes "0 \<le> au_InputTokens (ar_Usage r)" and "0 \<le> au_CacheReadInputTokens (ar_Usage r)"
    and "0 \<le> au_CacheCreationInputTokens (ar_Usage r)"
    and "au_InputTokens (ar_Usage r) + au_CacheReadInputTokens (ar_Usage r) +
         au_CacheCreationInputTokens (ar_Usage r) < 2 ^ 63"
  shows "ar_Usage (ResponsesToAnthropic (fst (AnthropicToResponsesResponse r g)) model) =
    \<lparr>au_InputTokens = au_InputTokens (ar_Usage r) + au_CacheCreationInputTokens (ar_Usage r),
     au_OutputTokens = au_OutputTokens (ar_Usage r), au_CacheCreationInputTokens = 0,
     au_CacheReadInputTokens = au_CacheReadInputTokens (ar_Usage r)\<rparr>"
  using assms
  by (simp add: ResponsesToAnthropic_def AnthropicToResponsesResponse_def anthropicUsageFromResponsesUsage_def
      Let_def case_prod_beta wrap_sum3 sub64_id int64_range_def)

definition sample_answer :: anthropic_response where
  "sample_answer = zero_anthropic_response\<lparr>ar_ID := ''msg_1'', ar_StopReason := ''end_turn'',
     ar_Content := [zero_block\<lparr>blk_Type := ''text'', blk_Text := ''hello''\<rparr>],
     ar_Usage := \<lparr>au_InputTokens = 10, au_OutputTokens = 5, au_CacheCreationInputTokens = 3,
       au_CacheReadInputTokens = 7\<rparr>\<rparr>"

lemma anthropic_usage_roundtrip_witness:
  "ar_Usage (ResponsesToAnthropic (fst (AnthropicToResponsesResponse sample_answer ((\<lambda>n. []), 0))) ''m'') =
     \<lparr>au_InputTokens = 13, au_OutputTokens = 5, au_CacheCreationInputTokens = 0, au_CacheReadInputTokens = 7\<rparr>"
  using anthropic_usage_roundtrip [of sample_answer "((\<lambda>n. []), 0)" "''m''"] by (simp add: sample_answer_def)

text \<open>The texts and the tool calls of an answer's blocks.\<close>

definition block_text :: "anthropic_content_block \<Rightarrow> string" where
  "block_text b = (if blk_Type b = ''text'' then blk_Text b else [])"

definition block_tool :: "anthropic_content_block \<Rightarrow> (string \<times> string) list" where
  "block_tool b = (if blk_Type b = ''tool_use'' then [(blk_ID b, blk_Name b)] else [])"

definition received_tool :: "string \<times> string \<Rightarrow> string \<times> string" where
  "received_tool c = (fromResponsesCallID (fst c), snd c)"

lemma output_tools:
  "collect block_tool (collect outputItemBlocks (fst (anthropicContentOutputs bs g))) =
     map received_tool (collect block_tool bs)"
  by (induction bs arbitrary: g)
    (simp_all add: Let_def case_prod_beta outputItemBlocks_def block_tool_def received_tool_def
      toResponsesCallID_def)

lemma output_texts:
  "collect block_text (collect outputItemBlocks (fst (anthropicContentOutputs bs g))) = []"
  by (induction bs arbitrary: g)
    (simp_all add: Let_def case_prod_beta outputItemBlocks_def block_text_def)

lemma output_parts:
  "collect rcp_Text (fst (snd (anthropicContentOutputs bs g))) = collect block_text bs \<and>
   (\<forall>p\<in>set (fst (snd (anthropicContentOutputs bs g))). rcp_Type p = ''output_text'' \<and> rcp_Text p \<noteq> [])"
  by (induction bs arbitrary: g) (simp_all add: Let_def case_prod_beta block_text_def)

lemma message_blocks:
  "\<forall>p\<in>set ps. rcp_Type p = ''output_text'' \<and> rcp_Text p \<noteq> [] \<Longrightarrow>
   collect block_text (outputItemBlocks (zero_output\<lparr>ro_Type := ''message'', ro_ID := i, ro_Role := r,
     ro_Content := ps, ro_Status := s\<rparr>)) = collect rcp_Text ps \<and>
   collect block_tool (outputItemBlocks (zero_output\<lparr>ro_Type := ''message'', ro_ID := i, ro_Role := r,
     ro_Content := ps, ro_Status := s\<rparr>)) = []"
  by (induction ps) (auto simp: outputItemBlocks_def block_text_def block_tool_def)

lemma empty_message_blocks:
  "collect block_text [zero_block\<lparr>blk_Type := ''text'', blk_Text := []\<rparr>] = [] \<and>
   collect block_tool [zero_block\<lparr>blk_Type := ''text'', blk_Text := []\<rparr>] = []"
  by (simp add: block_text_def block_tool_def)

text \<open>The content of the answer that comes back, from the outputs and the text parts.\<close>

lemma collect_blocks: "concat (map outputItemBlocks os) = collect outputItemBlocks os"
  by (simp add: collect_def)

lemma back_content:
  fixes bs g
  defines "os \<equiv> fst (anthropicContentOutputs bs g)" and "ps \<equiv> fst (snd (anthropicContentOutputs bs g))"
  assumes "outs = (if ps \<noteq> [] then os @ [zero_output\<lparr>ro_Type := ''message'', ro_ID := i, ro_Role := r,
      ro_Content := ps, ro_Status := s\<rparr>] else os)"
  shows "collect block_text (collect outputItemBlocks outs) = collect block_text bs \<and>
    collect block_tool (collect outputItemBlocks outs) = map received_tool (collect block_tool bs)"
  using assms(3) output_tools [of bs g] output_texts [of bs g] output_parts [of bs g]
    message_blocks [where ps = ps and i = i and r = r and s = s]
  unfolding os_def ps_def by (cases "fst (snd (anthropicContentOutputs bs g)) = []") simp_all

lemma padded_content:
  "collect block_text (if bs = [] then [zero_block\<lparr>blk_Type := ''text'', blk_Text := []\<rparr>] else bs) = collect block_text bs"
  "collect block_tool (if bs = [] then [zero_block\<lparr>blk_Type := ''text'', blk_Text := []\<rparr>] else bs) = collect block_tool bs"
  by (simp_all add: block_text_def block_tool_def)

lemma padded_outputs:
  "collect outputItemBlocks (if os = [] then [zero_output\<lparr>ro_Type := ''message'', ro_ID := i,
     ro_Role := ''assistant'', ro_Content := [zero_content_part\<lparr>rcp_Type := ''output_text'', rcp_Text := []\<rparr>],
     ro_Status := ''completed''\<rparr>] else os) = collect outputItemBlocks os"
  by (simp add: outputItemBlocks_def)

lemma anthropic_outputs:
  "\<exists>i j h os. os = (if fst (snd (anthropicContentOutputs (ar_Content r) h)) \<noteq> []
      then fst (anthropicContentOutputs (ar_Content r) h) @ [zero_output\<lparr>ro_Type := ''message'', ro_ID := i,
        ro_Role := ''assistant'', ro_Content := fst (snd (anthropicContentOutputs (ar_Content r) h)),
        ro_Status := ''completed''\<rparr>]
      else fst (anthropicContentOutputs (ar_Content r) h)) \<and>
    rr_Output (fst (AnthropicToResponsesResponse r g)) = (if os = [] then [zero_output\<lparr>ro_Type := ''message'',
      ro_ID := j, ro_Role := ''assistant'', ro_Content := [zero_content_part\<lparr>rcp_Type := ''output_text'', rcp_Text := []\<rparr>],
      ro_Status := ''completed''\<rparr>] else os)"
proof -
  define h where "h = snd (if ar_ID r = [] then generateResponsesID g else (ar_ID r, g))"
  let ?c = "anthropicContentOutputs (ar_Content r) h"
  let ?i = "fst (generateItemID (snd (snd ?c)))"
  show ?thesis
  proof (cases "fst (snd ?c) = []")
    case True
    then show ?thesis
      by (intro exI [of _ ?i] exI [of _ h] exI [of _ "fst ?c"])
        (simp add: AnthropicToResponsesResponse_def Let_def case_prod_beta h_def)
  next
    case False
    then show ?thesis
      by (intro exI [of _ ?i] exI [of _ h] exI [of _ "fst ?c @ [zero_output\<lparr>ro_Type := ''message'', ro_ID := ?i,
          ro_Role := ''assistant'', ro_Content := fst (snd ?c), ro_Status := ''completed''\<rparr>]"])
        (simp add: AnthropicToResponsesResponse_def Let_def case_prod_beta h_def)
  qed
qed


end
